(* ===== verification/Prelude.thy ===== *)
theory Prelude
  imports Main "HOL-Library.Sublist" "HOL-Library.Char_ord"
begin

text \<open>
  Shared vocabulary of the development: the Python string operations the orchestrator uses, the
  result type for code that raises, and the small generic lemmas the components share.

  A Python \<open>str\<close> is an Isabelle \<open>string\<close>, whose characters are the code points U+0000 to U+00FF.
  On these code points \<open>isspace\<close>, \<open>splitlines\<close>, \<open>lower\<close> and \<open>casefold\<close> are transcribed exactly;
  code points above U+00FF are not represented (the one visible consequence, the case fold of the
  micro sign U+00B5 to U+03BC, is kept as the identity: no other modelled character folds to it).
\<close>

named_theorems py_text \<open>evaluation of the Python text primitives on literals\<close>
named_theorems res_simps \<open>case analysis on results\<close>

section \<open>Results\<close>

text \<open>A computation that raises is \<open>Inl error\<close>, one that returns is \<open>Inr value\<close>.\<close>

primrec bindR :: "'e + 'a \<Rightarrow> ('a \<Rightarrow> 'e + 'b) \<Rightarrow> 'e + 'b" where
  "bindR (Inl e) f = Inl e"
| "bindR (Inr a) f = f a"

primrec is_ok :: "'e + 'a \<Rightarrow> bool" where
  "is_ok (Inl e) = False"
| "is_ok (Inr a) = True"

lemma bindR_Inr_iff [res_simps]: "bindR r f = Inr b \<longleftrightarrow> (\<exists>a. r = Inr a \<and> f a = Inr b)"
  by (cases r) auto

lemma bindR_Inl_iff [res_simps]:
  "bindR r f = Inl e \<longleftrightarrow> r = Inl e \<or> (\<exists>a. r = Inr a \<and> f a = Inl e)"
  by (cases r) auto

lemma is_ok_iff: "is_ok r \<longleftrightarrow> (\<exists>a. r = Inr a)"
  by (cases r) auto

text \<open>\<open>mapR\<close> is a loop that builds a list and stops at the first element that raises.\<close>

primrec mapR :: "('a \<Rightarrow> 'e + 'b) \<Rightarrow> 'a list \<Rightarrow> 'e + 'b list" where
  "mapR f [] = Inr []"
| "mapR f (x # xs) = bindR (f x) (\<lambda>y. bindR (mapR f xs) (\<lambda>ys. Inr (y # ys)))"

lemma mapR_Inr_length: "mapR f xs = Inr ys \<Longrightarrow> length ys = length xs"
  by (induction xs arbitrary: ys) (auto simp: res_simps)

lemma mapR_Inr_mem:
  "mapR f xs = Inr ys \<Longrightarrow> y \<in> set ys \<Longrightarrow> \<exists>x\<in>set xs. f x = Inr y"
  by (induction xs arbitrary: ys) (auto simp: res_simps)

section \<open>Exceptions\<close>

text \<open>
  The exception classes the orchestrator raises or catches by name; \<open>OtherError\<close> stands for any
  other class a collaborator may raise. \<open>SpecError\<close>, \<open>VerdictError\<close>, \<open>TargetPolicyError\<close> and
  \<open>UnicodeDecodeError\<close> are subclasses of \<open>ValueError\<close>, which \<open>is_value_error\<close> reflects.
\<close>

datatype exn =
    OSError
  | UnicodeDecodeError
  | ValueError
  | TypeError
  | KeyError
  | AttributeError
  | GitError
  | QuotaTimeout
  | VerdictError string
  | SpecError
  | TargetPolicyError
  | LogCorruptionError
  | TimeoutExpired
  | MergePreparationError string
  | RuntimeError string
  | QueueError string
  | QueueLocked string
  | ArtifactPathError
  | ConfigError
  | OtherError string

definition is_value_error :: "exn \<Rightarrow> bool" where
  "is_value_error e = (case e of
      UnicodeDecodeError \<Rightarrow> True | ValueError \<Rightarrow> True | VerdictError _ \<Rightarrow> True
    | SpecError \<Rightarrow> True | TargetPolicyError \<Rightarrow> True | ConfigError \<Rightarrow> True | _ \<Rightarrow> False)"

section \<open>Python text\<close>

abbreviation ord :: "char \<Rightarrow> int" where
  "ord c \<equiv> of_char c"

definition is_space :: "char \<Rightarrow> bool" where
  "is_space c = (let n = ord c in
     (9 \<le> n \<and> n \<le> 13) \<or> (28 \<le> n \<and> n \<le> 32) \<or> n = 133 \<or> n = 160)"

text \<open>The line boundaries of \<open>str.splitlines\<close>.\<close>

definition line_break :: "char \<Rightarrow> bool" where
  "line_break c = (let n = ord c in
     (10 \<le> n \<and> n \<le> 13) \<or> (28 \<le> n \<and> n \<le> 30) \<or> n = 133)"

definition lstrip :: "string \<Rightarrow> string" where
  "lstrip s = dropWhile is_space s"

definition rstrip :: "string \<Rightarrow> string" where
  "rstrip s = rev (dropWhile is_space (rev s))"

definition strip :: "string \<Rightarrow> string" where
  "strip s = rstrip (lstrip s)"

definition lower_char :: "char \<Rightarrow> char" where
  "lower_char c = (let n = ord c in
     if (65 \<le> n \<and> n \<le> 90) \<or> (192 \<le> n \<and> n \<le> 222 \<and> n \<noteq> 215) then char_of (n + 32) else c)"

definition lower :: "string \<Rightarrow> string" where
  "lower s = map lower_char s"

definition casefold :: "string \<Rightarrow> string" where
  "casefold s = concat (map (\<lambda>c. if ord c = 223 then ''ss'' else [lower_char c]) s)"

text \<open>
  \<open>splitlines\<close> with the line read so far, reversed, and whether the last character was a carriage
  return (so that a carriage return and a line feed are one boundary).
\<close>

primrec splitlines_from :: "bool \<Rightarrow> string \<Rightarrow> string \<Rightarrow> string list" where
  "splitlines_from cr acc [] = (if acc = [] then [] else [rev acc])"
| "splitlines_from cr acc (c # cs) =
     (if cr \<and> c = CHR 0x0A then splitlines_from False acc cs
      else if line_break c then rev acc # splitlines_from (c = CHR 0x0D) [] cs
      else splitlines_from False (c # acc) cs)"

definition splitlines :: "string \<Rightarrow> string list" where
  "splitlines s = splitlines_from False [] s"

primrec split_on :: "char \<Rightarrow> string \<Rightarrow> string list" where
  "split_on d [] = [[]]"
| "split_on d (c # cs) =
     (if c = d then [] # split_on d cs
      else (case split_on d cs of [] \<Rightarrow> [[c]] | l # ls \<Rightarrow> (c # l) # ls))"

primrec join :: "string \<Rightarrow> string list \<Rightarrow> string" where
  "join sep [] = []"
| "join sep (x # xs) = (if xs = [] then x else x @ sep @ join sep xs)"

text \<open>\<open>str.partition\<close> at a one-character separator that occurs: the text before and after it.\<close>

definition before_char :: "char \<Rightarrow> string \<Rightarrow> string" where
  "before_char d s = takeWhile (\<lambda>c. c \<noteq> d) s"

definition after_char :: "char \<Rightarrow> string \<Rightarrow> string" where
  "after_char d s = drop 1 (dropWhile (\<lambda>c. c \<noteq> d) s)"

definition is_digit :: "char \<Rightarrow> bool" where
  "is_digit c = (let n = ord c in 48 \<le> n \<and> n \<le> 57)"

text \<open>A Python string is false when empty; \<open>x or y\<close> and \<open>x or None\<close> on strings.\<close>

definition nonempty_or :: "string \<Rightarrow> string \<Rightarrow> string" where
  "nonempty_or s d = (if s = [] then d else s)"

definition or_none :: "string \<Rightarrow> string option" where
  "or_none s = (if s = [] then None else Some s)"

lemmas [py_text] =
  is_space_def line_break_def lstrip_def rstrip_def strip_def lower_char_def lower_def casefold_def
  splitlines_def before_char_def after_char_def is_digit_def nonempty_or_def or_none_def Let_def

lemma strip_Nil [simp]: "strip [] = []"
  by (simp add: strip_def lstrip_def rstrip_def)

lemma lower_Nil [simp]: "lower [] = []"
  by (simp add: lower_def)

lemma split_on_nonempty [simp]: "split_on d s \<noteq> []"
  by (cases s) (auto split: list.split)

lemma length_strip: "length (strip s) \<le> length s"
  using length_dropWhile_le[of is_space "rev (dropWhile is_space s)"]
    length_dropWhile_le[of is_space s]
  by (simp add: strip_def lstrip_def rstrip_def)

lemma dropWhile_hd: "dropWhile P s = c # cs \<Longrightarrow> \<not> P c"
  by (metis dropWhile_eq_Cons_conv)

lemma hd_strip: "strip s \<noteq> [] \<Longrightarrow> \<not> is_space (hd (strip s))"
proof -
  assume ne: "strip s \<noteq> []"
  obtain pre where pre: "lstrip s = strip s @ pre"
    unfolding strip_def rstrip_def
    by (metis rev_append rev_rev_ident takeWhile_dropWhile_id)
  then have "hd (lstrip s) = hd (strip s)" "lstrip s \<noteq> []"
    using ne by auto
  then show ?thesis
    by (metis hd_dropWhile lstrip_def)
qed

lemma last_strip: "strip s \<noteq> [] \<Longrightarrow> \<not> is_space (last (strip s))"
  unfolding strip_def rstrip_def
  by (metis hd_dropWhile last_rev rev_is_Nil_conv)

lemma set_strip: "set (strip s) \<subseteq> set s"
  unfolding strip_def rstrip_def lstrip_def
  by (metis set_dropWhileD set_rev subsetI)

text \<open>\<open>str.split()\<close>: the words between runs of white space.\<close>

function words :: "string \<Rightarrow> string list" where
  "words s =
     (let t = lstrip s in
      if t = [] then [] else takeWhile (\<lambda>c. \<not> is_space c) t # words (dropWhile (\<lambda>c. \<not> is_space c) t))"
  by pat_completeness auto
termination
proof (relation "measure length", goal_cases)
  case (2 s t)
  obtain c cs where t: "t = c # cs"
    using 2 by (meson neq_Nil_conv)
  then have "\<not> is_space c"
    using 2 dropWhile_hd[of is_space s c cs] by (simp add: lstrip_def)
  then have "length (dropWhile (\<lambda>c. \<not> is_space c) t) < length t"
    using t length_dropWhile_le[of "\<lambda>c. \<not> is_space c" cs] by simp
  also have "length t \<le> length s"
    using 2 length_dropWhile_le[of is_space s] by (simp add: lstrip_def)
  finally show ?case by simp
qed simp

declare words.simps [simp del]

section \<open>First match\<close>

lemma find_split:
  "find P xs = Some x \<Longrightarrow> \<exists>a b. xs = a @ x # b \<and> P x \<and> (\<forall>y\<in>set a. \<not> P y)"
proof (induction xs)
  case (Cons y ys)
  show ?case
  proof (cases "P y")
    case True
    with Cons.prems show ?thesis by (intro exI[of _ "[]"] exI[of _ ys]) auto
  next
    case False
    with Cons obtain a b where "ys = a @ x # b" "P x" "\<forall>z\<in>set a. \<not> P z" by auto
    with False show ?thesis by (intro exI[of _ "y # a"] exI[of _ b]) auto
  qed
qed simp

text \<open>The last element with a property, found by searching the reversed list.\<close>

lemma find_rev_split:
  "find P (rev xs) = Some x \<Longrightarrow> \<exists>a b. xs = a @ x # b \<and> P x \<and> (\<forall>y\<in>set b. \<not> P y)"
proof -
  assume f: "find P (rev xs) = Some x"
  obtain a b where "rev xs = a @ x # b" "P x" "\<forall>y\<in>set a. \<not> P y"
    using find_split[OF f] by blast
  moreover from this(1) have "xs = rev b @ x # rev a"
    by (simp add: rev_eq_append_conv)
  ultimately show ?thesis
    by (intro exI[of _ "rev b"] exI[of _ "rev a"]) simp
qed

section \<open>Lines\<close>

definition one_line :: "string \<Rightarrow> bool" where
  "one_line l = list_all (\<lambda>c. \<not> line_break c) l"

lemma LF_line_break [simp]: "line_break CHR 0x0A"
  by (simp add: line_break_def)

lemma splitlines_from_line:
  "one_line l \<Longrightarrow> \<not> cr \<Longrightarrow>
   splitlines_from cr acc (l @ CHR 0x0A # rest) = (rev acc @ l) # splitlines_from False [] rest"
  by (induction l arbitrary: acc cr) (auto simp: one_line_def)

text \<open>A list of lines, each followed by a line feed, is split back into that list.\<close>

lemma splitlines_lines:
  "list_all one_line ls \<Longrightarrow> splitlines (concat (map (\<lambda>l. l @ [CHR 0x0A]) ls)) = ls"
  unfolding splitlines_def
  by (induction ls) (simp_all add: splitlines_from_line)

lemma splitlines_lines_append:
  "list_all one_line ls \<Longrightarrow>
   splitlines (concat (map (\<lambda>l. l @ [CHR 0x0A]) ls) @ t) = ls @ splitlines t"
  unfolding splitlines_def
  by (induction ls) (simp_all add: splitlines_from_line)

lemma join_lines:
  "ls \<noteq> [] \<Longrightarrow> join [CHR 0x0A] ls @ [CHR 0x0A] = concat (map (\<lambda>l. l @ [CHR 0x0A]) ls)"
  by (induction ls) auto

lemma splitlines_from_one_line:
  "list_all (\<lambda>c. \<not> line_break c) acc \<Longrightarrow> list_all one_line (splitlines_from cr acc s)"
  by (induction s arbitrary: cr acc) (auto simp: one_line_def)

lemma splitlines_one_line: "list_all one_line (splitlines s)"
  by (simp add: splitlines_def splitlines_from_one_line)

end
