(* ===== verification/Terminals.thy ===== *)
theory Terminals
  imports Prelude
begin

text \<open>
  Model of \<open>src/orchestrator/terminals.py\<close>: what a recorded terminal state means (sticky or
  retryable, pushed to the hub, handback written) and which log action re-arms a finished task.
\<close>

datatype kind = Success | Failure | Retryable

record terminal_spec_rec =
  ts_kind :: kind
  ts_push :: bool
  ts_handback :: bool

definition sticky :: "terminal_spec_rec \<Rightarrow> bool" where
  "sticky s = (ts_kind s \<noteq> Retryable)"

abbreviation mk_terminal :: "kind \<Rightarrow> bool \<Rightarrow> bool \<Rightarrow> terminal_spec_rec" where
  "mk_terminal k p h \<equiv> \<lparr>ts_kind = k, ts_push = p, ts_handback = h\<rparr>"

definition merge_decided_prefix :: string where
  "merge_decided_prefix = ''MERGE_DECIDED:''"

definition terminals :: "(string \<times> terminal_spec_rec) list" where
  "terminals =
     [(''PUSHED'', mk_terminal Success True False),
      (''CAP_REACHED'', mk_terminal Failure True True),
      (''ESCALATED_DEADLOCK'', mk_terminal Failure True True),
      (''INVESTIGATOR_MALFORMED'', mk_terminal Failure True True),
      (''VERIFY_MALFORMED'', mk_terminal Failure True True),
      (''PATH_GUARD_VIOLATION'', mk_terminal Failure False True),
      (''QUOTA_TIMEOUT'', mk_terminal Retryable True True),
      (''INTERNAL_ERROR'', mk_terminal Retryable False True)]"

definition unknown_terminal :: terminal_spec_rec where
  "unknown_terminal = mk_terminal Failure False True"

text \<open>\<open>TERMINALS["PUSHED"]\<close> is a literal key of the table, so the subscript cannot raise.\<close>

definition terminal_spec :: "string \<Rightarrow> terminal_spec_rec" where
  "terminal_spec state =
     (if prefix merge_decided_prefix state then the (map_of terminals ''PUSHED'')
      else (case map_of terminals state of Some s \<Rightarrow> s | None \<Rightarrow> unknown_terminal))"

definition merge_decided_any :: string where
  "merge_decided_any = merge_decided_prefix"

definition resumes :: "(string \<times> string list) list" where
  "resumes =
     [(''director_resume'', [''CAP_REACHED'', ''ESCALATED_DEADLOCK'', ''PUSHED'', merge_decided_any])]"

definition clears_terminal :: "string \<Rightarrow> string \<Rightarrow> bool" where
  "clears_terminal action terminal =
     (let states = (case map_of resumes action of Some ss \<Rightarrow> ss | None \<Rightarrow> []) in
      terminal \<in> set states
      \<or> (prefix merge_decided_prefix terminal \<and> merge_decided_any \<in> set states))"

lemmas terminal_tables = terminals_def unknown_terminal_def merge_decided_prefix_def
  merge_decided_any_def resumes_def

lemma terminal_spec_merge_decided:
  "terminal_spec (merge_decided_prefix @ d) = mk_terminal Success True False"
  by (simp add: terminal_spec_def terminal_tables)

lemma terminal_spec_unknown:
  "\<not> prefix merge_decided_prefix s \<Longrightarrow> s \<notin> fst ` set terminals \<Longrightarrow>
   terminal_spec s = unknown_terminal"
  by (simp add: terminal_spec_def map_of_eq_None_iff[THEN iffD2] split: option.split)

text \<open>The table rows, as evaluated.\<close>

lemma terminal_spec_rows [simp]:
  "terminal_spec ''PUSHED'' = mk_terminal Success True False"
  "terminal_spec ''CAP_REACHED'' = mk_terminal Failure True True"
  "terminal_spec ''ESCALATED_DEADLOCK'' = mk_terminal Failure True True"
  "terminal_spec ''INVESTIGATOR_MALFORMED'' = mk_terminal Failure True True"
  "terminal_spec ''VERIFY_MALFORMED'' = mk_terminal Failure True True"
  "terminal_spec ''PATH_GUARD_VIOLATION'' = mk_terminal Failure False True"
  "terminal_spec ''QUOTA_TIMEOUT'' = mk_terminal Retryable True True"
  "terminal_spec ''INTERNAL_ERROR'' = mk_terminal Retryable False True"
  by (simp_all add: terminal_spec_def terminal_tables)

lemma clears_terminal_only_director_resume:
  "clears_terminal a t \<Longrightarrow> a = ''director_resume''"
  by (auto simp: clears_terminal_def terminal_tables split: if_splits)

text \<open>
  The director's resume re-arms a finished task exactly when its recorded terminal is sticky and
  publishes the branch, with the two report-only malformed terminals as the only exceptions; so a
  path-guard violation, a retryable state and every unknown state (a newer engine's log) can never be
  re-armed, and no other log action re-arms anything.
\<close>

theorem clears_terminal_exact:
  "clears_terminal a t \<longleftrightarrow>
     a = ''director_resume'' \<and> sticky (terminal_spec t) \<and> ts_push (terminal_spec t)
     \<and> t \<noteq> ''INVESTIGATOR_MALFORMED'' \<and> t \<noteq> ''VERIFY_MALFORMED''"
  by (auto simp: clears_terminal_def terminal_spec_def sticky_def terminal_tables split: if_splits)

end
