(* ===== verification/Spec_File.thy ===== *)
theory Spec_File
  imports Prelude
begin

text \<open>
  Model of \<open>src/orchestrator/spec.py\<close>: the front matter of a task spec, its validation and the role
  composition. The fence that opens the front matter decides whether a task is a privileged,
  runnable feature, so every malformed opening must be an error.
\<close>

datatype spec_error =
    NonAsciiFirstLine int
  | FenceNotFirst
  | MalformedFence string
  | NotKeyValue string
  | DuplicateKey string
  | NotClosed
  | UnknownType string
  | RolesNotList string
  | RolesEmpty
  | UnknownStatus string

definition task_types :: "string list" where
  "task_types = [''feature'', ''bug'', ''spike'', ''audit'', ''investigate'']"

definition compositions :: "(string \<times> string list) list" where
  "compositions =
     [(''feature'', [''developer'', ''rw1'', ''rw2'']),
      (''bug'', [''explorer'', ''developer'', ''debugger'', ''rw1'', ''rw2'']),
      (''spike'', [''explorer'', ''developer'', ''rw1'']),
      (''audit'', [''investigator'', ''verify'']),
      (''investigate'', [''investigator'', ''verify''])]"

definition report_only_types :: "string list" where
  "report_only_types = [''audit'', ''investigate'']"

definition draft_status :: string where
  "draft_status = ''draft-proposal''"

definition done_status :: string where
  "done_status = ''done''"

definition known_statuses :: "string list" where
  "known_statuses = [draft_status, done_status]"

record task_spec =
  spec_type :: string
  spec_roles :: "string list"
  spec_status :: "string option"
  spec_risk :: "string option"

definition report_only :: "task_spec \<Rightarrow> bool" where
  "report_only s = (spec_type s \<in> set report_only_types)"

definition is_draft :: "task_spec \<Rightarrow> bool" where
  "is_draft s = (spec_status s = Some draft_status)"

definition is_done :: "task_spec \<Rightarrow> bool" where
  "is_done s = (spec_status s = Some done_status)"

lemmas spec_tables = task_types_def compositions_def report_only_types_def draft_status_def
  done_status_def known_statuses_def

text \<open>\<open>_LIST_RE\<close>: an opening bracket, text without a line feed, a closing bracket.\<close>

definition list_re_match :: "string \<Rightarrow> string option" where
  "list_re_match s =
     (if length s \<ge> 2 \<and> hd s = CHR ''['' \<and> last s = CHR '']'' \<and> CHR 0x0A \<notin> set (butlast (tl s))
      then Some (butlast (tl s)) else None)"

text \<open>A run of dashes or of tildes, at least three: what looks like an opening fence.\<close>

definition fence_like :: "string \<Rightarrow> bool" where
  "fence_like s = (length s \<ge> 3 \<and> (set s = {CHR ''-''} \<or> set s = {CHR ''~''}))"

text \<open>The scan over a text whose first line is not a fence: only its first nonblank line counts.\<close>

primrec check_defeated_fence :: "string list \<Rightarrow> spec_error + (string \<times> string) list" where
  "check_defeated_fence [] = Inr []"
| "check_defeated_fence (line # ls) =
     (let stripped = strip line in
      if stripped = [] then check_defeated_fence ls
      else if stripped = ''---'' then Inl FenceNotFirst
      else if fence_like stripped then Inl (MalformedFence stripped)
      else Inr [])"

text \<open>The body of the block; \<open>fds\<close> is the dictionary read so far, in insertion order.\<close>

primrec front_matter_fields ::
  "(string \<times> string) list \<Rightarrow> string list \<Rightarrow> spec_error + (string \<times> string) list" where
  "front_matter_fields fds [] = Inl NotClosed"
| "front_matter_fields fds (line # ls) =
     (if strip line = ''---'' then Inr fds
      else if strip line = [] \<or> prefix ''#'' (lstrip line) then front_matter_fields fds ls
      else if CHR '':'' \<notin> set line then Inl (NotKeyValue line)
      else
        (let key = strip (before_char CHR '':'' line); val = strip (after_char CHR '':'' line) in
         if key \<in> fst ` set fds then Inl (DuplicateKey key)
         else front_matter_fields (fds @ [(key, val)]) ls))"

definition first_line :: "string \<Rightarrow> string" where
  "first_line s = hd (split_on CHR 0x0A s)"

definition parse_front_matter :: "string \<Rightarrow> spec_error + (string \<times> string) list" where
  "parse_front_matter s =
     (case find (\<lambda>ch. ord ch > 127) (first_line s) of
        Some ch \<Rightarrow> Inl (NonAsciiFirstLine (ord ch))
      | None \<Rightarrow>
          (let lines = splitlines s in
           case lines of
             [] \<Rightarrow> Inr []
           | l0 # ls \<Rightarrow>
               if strip l0 \<noteq> ''---'' then check_defeated_fence lines
               else front_matter_fields [] ls))"

definition field_or :: "(string \<times> string) list \<Rightarrow> string \<Rightarrow> string \<Rightarrow> string" where
  "field_or fds k d = (case map_of fds k of Some v \<Rightarrow> v | None \<Rightarrow> d)"

definition parse_roles :: "string \<Rightarrow> string \<Rightarrow> spec_error + string list" where
  "parse_roles ttype raw =
     (if raw \<noteq> [] then
        (case list_re_match raw of
           None \<Rightarrow> Inl (RolesNotList raw)
         | Some inner \<Rightarrow>
             (let rs = filter (\<lambda>r. r \<noteq> []) (map strip (split_on CHR '','' inner)) in
              if rs = [] then Inl RolesEmpty else Inr rs))
      else Inr (the (map_of compositions ttype)))"

definition parse_spec_text :: "string \<Rightarrow> spec_error + task_spec" where
  "parse_spec_text s =
     bindR (parse_front_matter s) (\<lambda>fds.
       let ttype = field_or fds ''type'' ''feature'' in
       if ttype \<notin> set task_types then Inl (UnknownType ttype)
       else
         bindR (parse_roles ttype (field_or fds ''roles'' [])) (\<lambda>rs.
           let rsk = or_none (lower (strip (field_or fds ''risk'' [])));
               stat = or_none (field_or fds ''status'' []) in
           case stat of
             Some st \<Rightarrow>
               if st \<notin> set known_statuses then Inl (UnknownStatus st)
               else Inr \<lparr>spec_type = ttype, spec_roles = rs, spec_status = stat, spec_risk = rsk\<rparr>
           | None \<Rightarrow> Inr \<lparr>spec_type = ttype, spec_roles = rs, spec_status = stat, spec_risk = rsk\<rparr>))"

lemmas spec_parse_defs = parse_spec_text_def parse_front_matter_def first_line_def field_or_def
  parse_roles_def list_re_match_def

subsection \<open>The dictionary of fields\<close>

lemma front_matter_fields_distinct:
  "front_matter_fields acc ls = Inr fs \<Longrightarrow> distinct (map fst acc) \<Longrightarrow> distinct (map fst fs)"
  by (induction ls arbitrary: acc) (force simp: Let_def split: if_splits)+

lemma front_matter_fields_keep:
  "front_matter_fields acc ls = Inr fs \<Longrightarrow> map_of acc k = Some v \<Longrightarrow> map_of fs k = Some v"
  by (induction ls arbitrary: acc) (fastforce simp: Let_def map_add_def split: if_splits)+

lemma check_defeated_fence_Inr: "check_defeated_fence ls = Inr fs \<Longrightarrow> fs = []"
  by (induction ls) (auto simp: Let_def split: if_splits)

lemma parse_front_matter_distinct: "parse_front_matter s = Inr fs \<Longrightarrow> distinct (map fst fs)"
  by (auto simp: parse_front_matter_def Let_def dest: check_defeated_fence_Inr
      front_matter_fields_distinct split: option.splits list.splits if_splits)

lemma parse_spec_text_ok:
  assumes "parse_spec_text s = Inr t"
  obtains fs where "parse_front_matter s = Inr fs"
    "spec_type t = field_or fs ''type'' ''feature''" "spec_type t \<in> set task_types"
    "parse_roles (spec_type t) (field_or fs ''roles'' []) = Inr (spec_roles t)"
    "spec_status t = or_none (field_or fs ''status'' [])"
    "spec_risk t = or_none (lower (strip (field_or fs ''risk'' [])))"
    "\<And>st. spec_status t = Some st \<Longrightarrow> st \<in> set known_statuses"
proof -
  from assms obtain fs rs where fs: "parse_front_matter s = Inr fs"
    and ty: "field_or fs ''type'' ''feature'' \<in> set task_types"
    and rs: "parse_roles (field_or fs ''type'' ''feature'') (field_or fs ''roles'' []) = Inr rs"
    and t: "t = \<lparr>spec_type = field_or fs ''type'' ''feature'', spec_roles = rs,
      spec_status = or_none (field_or fs ''status'' []),
      spec_risk = or_none (lower (strip (field_or fs ''risk'' [])))\<rparr>"
    and st: "\<And>st. or_none (field_or fs ''status'' []) = Some st \<Longrightarrow> st \<in> set known_statuses"
    by (auto simp: parse_spec_text_def Let_def res_simps split: if_split_asm option.split_asm)
  show thesis
    by (rule that[OF fs]) (use ty rs t st in simp_all)
qed

lemma parse_roles_nonempty:
  "parse_roles ty raw = Inr rs \<Longrightarrow> ty \<in> set task_types \<Longrightarrow> rs \<noteq> []"
  by (auto simp: parse_roles_def Let_def spec_tables split: if_splits option.splits)

text \<open>An invisible character on the first line is refused, whatever follows.\<close>

lemma parse_front_matter_non_ascii:
  "c \<in> set (first_line s) \<Longrightarrow> ord c > 127 \<Longrightarrow> \<not> is_ok (parse_front_matter s)"
  by (auto simp: parse_front_matter_def is_ok_iff find_None_iff split: option.split)

subsection \<open>A defeated fence\<close>

lemma fence_like_Nil [simp]: "\<not> fence_like []"
  by (simp add: fence_like_def)

lemma fence_like_nonempty: "fence_like s \<Longrightarrow> s \<noteq> []"
  by (cases "s = []") simp_all

lemma check_defeated_fence_blanks:
  "(\<forall>b\<in>set bs. strip b = []) \<Longrightarrow> fence_like (strip l) \<Longrightarrow>
   \<not> is_ok (check_defeated_fence (bs @ l # ls))"
  by (induction bs) (simp_all add: Let_def fence_like_nonempty)

lemma defeated_fence_rejected:
  assumes "splitlines s = bs @ l # ls" "\<forall>b\<in>set bs. strip b = []" "fence_like (strip l)"
    "bs \<noteq> [] \<or> strip l \<noteq> ''---''"
  shows "\<not> is_ok (parse_front_matter s)"
proof -
  have chk: "\<not> is_ok (check_defeated_fence (bs @ l # ls))"
    using assms(2,3) by (rule check_defeated_fence_blanks)
  show ?thesis
    using assms chk
    by (cases bs) (auto simp: parse_front_matter_def is_ok_iff Let_def split: option.split)
qed

definition audit_spec :: task_spec where
  "audit_spec = \<lparr>spec_type = ''audit'', spec_roles = [''investigator'', ''verify''],
     spec_status = Some ''done'', spec_risk = None\<rparr>"

text \<open>
  A spec that parses is well formed: its type is one of the known task types, its status is
  absent, the draft sentinel or done (so no spec file carries a derived queue state or a near miss of
  the draft sentinel), and it has at least one role.
\<close>

theorem parse_spec_text_wf:
  assumes "parse_spec_text s = Inr t"
  shows "spec_type t \<in> set task_types \<and> spec_roles t \<noteq> [] \<and>
    (spec_status t = None \<or> is_draft t \<or> is_done t)"
proof (rule parse_spec_text_ok[OF assms])
  fix fs
  assume "spec_type t \<in> set task_types" "parse_roles (spec_type t) (field_or fs ''roles'' []) = Inr (spec_roles t)"
    "\<And>st. spec_status t = Some st \<Longrightarrow> st \<in> set known_statuses"
  then show ?thesis
    using parse_roles_nonempty by (cases "spec_status t") (auto simp: is_draft_def is_done_def known_statuses_def)
qed

theorem parse_spec_text_wf_witness:
  "spec_type audit_spec \<in> set task_types \<and> spec_roles audit_spec \<noteq> [] \<and>
    (spec_status audit_spec = None \<or> is_draft audit_spec \<or> is_done audit_spec)"
proof -
  have "parse_front_matter (''---'' @ [CHR 0x0A] @ ''type: audit'' @ [CHR 0x0A] @
      ''status: done'' @ [CHR 0x0A] @ ''---'' @ [CHR 0x0A]) =
    Inr [(''type'', ''audit''), (''status'', ''done'')]"
    by code_simp
  then have "parse_spec_text (''---'' @ [CHR 0x0A] @ ''type: audit'' @ [CHR 0x0A] @
      ''status: done'' @ [CHR 0x0A] @ ''---'' @ [CHR 0x0A]) = Inr audit_spec"
    by (simp add: parse_spec_text_def parse_roles_def field_or_def audit_spec_def spec_tables py_text)
  from parse_spec_text_wf[OF this] show ?thesis .
qed

text \<open>
  No malformed opening falls back to the privileged default (a runnable feature): when the first
  nonblank line of a spec is a fence pushed off the first line, or a rule of dashes or tildes that is
  not the canonical fence, the spec is refused; and so is one with a character above 0x7F (a byte
  order mark, a zero-width space) anywhere on its first line.
\<close>

theorem defeated_fence_fails_closed:
  "(\<forall>bs l ls. splitlines s = bs @ l # ls \<longrightarrow> (\<forall>b\<in>set bs. strip b = []) \<longrightarrow> fence_like (strip l) \<longrightarrow>
      (bs \<noteq> [] \<or> strip l \<noteq> ''---'') \<longrightarrow> \<not> is_ok (parse_spec_text s))
   \<and> ((\<exists>c\<in>set (first_line s). ord c > 127) \<longrightarrow> \<not> is_ok (parse_spec_text s))"
proof (intro conjI allI impI)
  fix bs l ls
  assume "splitlines s = bs @ l # ls" "\<forall>b\<in>set bs. strip b = []" "fence_like (strip l)"
    "bs \<noteq> [] \<or> strip l \<noteq> ''---''"
  from defeated_fence_rejected[OF this] show "\<not> is_ok (parse_spec_text s)"
    by (auto simp: parse_spec_text_def is_ok_iff res_simps)
next
  assume "\<exists>c\<in>set (first_line s). ord c > 127"
  then have "\<not> is_ok (parse_front_matter s)"
    using parse_front_matter_non_ascii by blast
  then show "\<not> is_ok (parse_spec_text s)"
    by (auto simp: parse_spec_text_def is_ok_iff res_simps)
qed

theorem defeated_fence_fails_closed_witness:
  "\<not> is_ok (parse_spec_text (CHR 0x0A # ''---'' @ [CHR 0x0A] @ ''type: audit''))"
proof -
  have "splitlines (CHR 0x0A # ''---'' @ [CHR 0x0A] @ ''type: audit'') = [[]] @ ''---'' # [''type: audit'']"
    "strip [] = []" "fence_like (strip ''---'')"
    by code_simp+
  from conjunct1[OF defeated_fence_fails_closed, rule_format, OF this(1) _ this(3)] this(2)
  show ?thesis
    by simp
qed

end
