(* ===== verification/Glob.thy ===== *)
theory Glob
  imports Prelude
begin

text \<open>
  The pattern matching the path policy rests on: \<open>fnmatch.fnmatchcase\<close> of the standard library (a
  star crosses the path separator, an unclosed bracket is a literal, a reversed range matches
  nothing) and the casefolded matcher and token scanner of \<open>src/orchestrator/policy.py\<close>.

  One oddity of the library is outside the model: in a bracket that begins with a reversed range
  directly followed by an exclamation mark the library reads the latter as a negation.
\<close>

section \<open>fnmatchcase\<close>

datatype citem = Single char | Range char char

datatype gtok = Star | AnyChar | Lit char | Cls bool "citem list"

fun citems :: "string \<Rightarrow> citem list" where
  "citems [] = []"
| "citems [a] = [Single a]"
| "citems [a, b] = [Single a, Single b]"
| "citems (a # b # c # rest) =
     (if b = CHR ''-'' then Range a c # citems rest else Single a # citems (b # c # rest))"

definition citem_matches :: "char \<Rightarrow> citem \<Rightarrow> bool" where
  "citem_matches c it = (case it of Single a \<Rightarrow> c = a | Range a b \<Rightarrow> ord a \<le> ord c \<and> ord c \<le> ord b)"

text \<open>
  What follows an opening bracket: negated or not, the text up to the closing bracket (a closing
  bracket in first position is literal) and the rest; \<open>None\<close> when the bracket is never closed.
\<close>

definition class_tail :: "string \<Rightarrow> string \<Rightarrow> (string \<times> string) option" where
  "class_tail lead s =
     (let rest = dropWhile (\<lambda>c. c \<noteq> CHR '']'') s in
      if rest = [] then None
      else Some (lead @ takeWhile (\<lambda>c. c \<noteq> CHR '']'') s, drop 1 rest))"

definition class_split :: "string \<Rightarrow> (bool \<times> string \<times> string) option" where
  "class_split s =
     (let neg = prefix ''!'' s;
          s1 = (if neg then drop 1 s else s)
      in map_option (Pair neg)
           (if prefix '']'' s1 then class_tail '']'' (drop 1 s1) else class_tail [] s1))"

lemma class_tail_length: "class_tail lead s = Some (b, r) \<Longrightarrow> length r < length s"
  using length_dropWhile_le[of "\<lambda>c. c \<noteq> CHR '']''" s]
  by (cases "dropWhile (\<lambda>c. c \<noteq> CHR '']'') s") (auto simp: class_tail_def)

lemma class_split_length:
  assumes "class_split s = Some (n, b, r)"
  shows "length r < length s"
proof -
  obtain lead k where "class_tail lead (drop k s) = Some (b, r)"
    using assms by (auto simp: class_split_def Let_def drop_drop simp del: drop_append
        split: if_split_asm) (metis drop0)+
  then have "length r < length (drop k s)"
    by (rule class_tail_length)
  then show ?thesis
    by simp
qed

function glob_tokens :: "string \<Rightarrow> gtok list" where
  "glob_tokens [] = []"
| "glob_tokens (c # cs) =
     (if c = CHR ''*'' then Star # glob_tokens cs
      else if c = CHR ''?'' then AnyChar # glob_tokens cs
      else if c = CHR ''['' then
        (case class_split cs of
           None \<Rightarrow> Lit c # glob_tokens cs
         | Some (neg, body, rest) \<Rightarrow> Cls neg (citems body) # glob_tokens rest)
      else Lit c # glob_tokens cs)"
  by pat_completeness auto
termination
  by (relation "measure length") (auto dest: class_split_length)

fun gmatch :: "gtok list \<Rightarrow> string \<Rightarrow> bool" where
  "gmatch [] s = (s = [])"
| "gmatch (Star # ts) [] = gmatch ts []"
| "gmatch (Star # ts) (c # cs) = (gmatch ts (c # cs) \<or> gmatch (Star # ts) cs)"
| "gmatch (AnyChar # ts) s = (case s of [] \<Rightarrow> False | c # cs \<Rightarrow> gmatch ts cs)"
| "gmatch (Lit d # ts) s = (case s of [] \<Rightarrow> False | c # cs \<Rightarrow> c = d \<and> gmatch ts cs)"
| "gmatch (Cls neg its # ts) s =
     (case s of [] \<Rightarrow> False
      | c # cs \<Rightarrow> (neg \<noteq> list_ex (citem_matches c) its) \<and> gmatch ts cs)"

definition fnmatchcase :: "string \<Rightarrow> string \<Rightarrow> bool" where
  "fnmatchcase name pat = gmatch (glob_tokens pat) name"

text \<open>\<open>_matches_any\<close>: both sides are casefolded.\<close>

definition matches_any :: "string \<Rightarrow> string list \<Rightarrow> bool" where
  "matches_any path globs =
     (let folded = casefold path in list_ex (\<lambda>g. fnmatchcase folded (casefold g)) globs)"

lemma gmatch_Star_iff: "gmatch (Star # ts) s \<longleftrightarrow> (\<exists>p q. s = p @ q \<and> gmatch ts q)"
proof (induction s)
  case (Cons c cs)
  have "(\<exists>p q. c # cs = p @ q \<and> gmatch ts q) \<longleftrightarrow>
      gmatch ts (c # cs) \<or> (\<exists>p q. cs = p @ q \<and> gmatch ts q)"
    by (metis append_Cons append_Nil append_eq_Cons_conv)
  then show ?case
    using Cons.IH by simp
qed simp

lemma gmatch_single:
  "t \<noteq> Star \<Longrightarrow> \<exists>f. \<forall>us w. gmatch (t # us) w \<longleftrightarrow> (\<exists>c cs. w = c # cs \<and> f c \<and> gmatch us cs)"
proof (cases t)
  case AnyChar
  then show ?thesis
    by (intro exI[of _ "\<lambda>c. True"]) (auto split: list.splits)
next
  case (Lit d)
  then show ?thesis
    by (intro exI[of _ "\<lambda>c. c = d"]) (auto split: list.splits)
next
  case (Cls n its)
  then show ?thesis
    by (intro exI[of _ "\<lambda>c. n \<noteq> list_ex (citem_matches c) its"]) (auto split: list.splits)
qed simp

lemma gmatch_append_Lits:
  "gmatch (ts @ map Lit l) s \<longleftrightarrow> (\<exists>p. s = p @ l \<and> gmatch ts p)"
proof (induction ts arbitrary: s)
  case Nil
  show ?case
    by (induction l arbitrary: s) (auto split: list.splits)
next
  case (Cons t ts)
  show ?case
  proof (cases "t = Star")
    case True
    have "gmatch ((t # ts) @ map Lit l) s \<longleftrightarrow> (\<exists>p q. s = p @ q @ l \<and> gmatch ts q)"
      using True Cons.IH by (auto simp: gmatch_Star_iff simp del: gmatch.simps)
    also have "\<dots> \<longleftrightarrow> (\<exists>p. s = p @ l \<and> gmatch (t # ts) p)"
      using True by (auto simp: gmatch_Star_iff simp del: gmatch.simps) (metis append.assoc)+
    finally show ?thesis .
  next
    case False
    then obtain f where f: "\<And>us w. gmatch (t # us) w \<longleftrightarrow> (\<exists>c cs. w = c # cs \<and> f c \<and> gmatch us cs)"
      using gmatch_single by metis
    show ?thesis
      unfolding append_Cons f Cons.IH by auto
  qed
qed

text \<open>Characters that stand for themselves in a pattern, also inside the search for a bracket.\<close>

definition plain_char :: "char \<Rightarrow> bool" where
  "plain_char c = (c \<notin> {CHR ''*'', CHR ''?'', CHR ''['', CHR '']'', CHR ''!''})"

lemma glob_tokens_plain: "list_all plain_char l \<Longrightarrow> glob_tokens l = map Lit l"
  by (induction l) (auto simp: plain_char_def)

lemma dropWhile_append_plain:
  assumes "list_all plain_char l"
  shows "dropWhile (\<lambda>c. c \<noteq> CHR '']'') (x @ l) =
     (let r = dropWhile (\<lambda>c. c \<noteq> CHR '']'') x in if r = [] then [] else r @ l)"
proof (induction x)
  case Nil
  show ?case
    using assms by (auto simp: plain_char_def list_all_iff)
qed (simp_all add: Let_def del: dropWhile_eq_Nil_conv)

lemma takeWhile_append_plain:
  "dropWhile P x \<noteq> [] \<Longrightarrow> takeWhile P (x @ l) = takeWhile P x"
  by (induction x) auto

lemma prefix_single_append_plain:
  "list_all plain_char l \<Longrightarrow> c \<in> {CHR '']'', CHR ''!''} \<Longrightarrow> prefix [c] (x @ l) = prefix [c] x"
  by (cases x; cases l) (auto simp: plain_char_def)

lemma class_tail_append_plain:
  "list_all plain_char l \<Longrightarrow>
   class_tail lead (x @ l) = map_option (\<lambda>(b, r). (b, r @ l)) (class_tail lead x)"
  by (simp add: class_tail_def dropWhile_append_plain Let_def takeWhile_append_plain Suc_leI
      del: dropWhile_eq_Nil_conv)

lemma class_split_append_plain:
  assumes l: "list_all plain_char l"
  shows "class_split (x @ l) = map_option (\<lambda>(n, b, r). (n, b, r @ l)) (class_split x)"
proof -
  define x1 where "x1 = (if prefix ''!'' x then drop 1 x else x)"
  have 1: "(if prefix ''!'' (x @ l) then drop 1 (x @ l) else x @ l) = x1 @ l"
    using prefix_single_append_plain[OF l, of "CHR ''!''" x] by (cases x) (auto simp: x1_def)
  have 2: "prefix '']'' x1 \<Longrightarrow> drop 1 (x1 @ l) = drop 1 x1 @ l"
    by (cases x1) auto
  have neg: "prefix ''!'' (x @ l) = prefix ''!'' x" and lead: "prefix '']'' (x1 @ l) = prefix '']'' x1"
    using prefix_single_append_plain[OF l] by blast+
  have xl: "class_split (x @ l) = map_option (Pair (prefix ''!'' x))
      (if prefix '']'' x1 then class_tail '']'' (drop 1 x1 @ l) else class_tail [] (x1 @ l))"
    unfolding class_split_def Let_def 1 lead unfolding neg by (simp only: 2 cong: if_cong)
  have x: "class_split x = map_option (Pair (prefix ''!'' x))
      (if prefix '']'' x1 then class_tail '']'' (drop 1 x1) else class_tail [] x1)"
    by (simp only: class_split_def Let_def x1_def)
  show ?thesis
    unfolding xl x class_tail_append_plain[OF l]
    by (simp add: option.map_comp o_def split_beta)
qed

lemma glob_tokens_append_plain:
  "list_all plain_char l \<Longrightarrow> glob_tokens (x @ l) = glob_tokens x @ map Lit l"
proof (induction x rule: glob_tokens.induct)
  case 1
  then show ?case by (simp add: glob_tokens_plain)
next
  case (2 c cs)
  then show ?case
    by (auto simp: class_split_append_plain split: option.splits)
qed

text \<open>A pattern with a literal suffix only matches names that end in it.\<close>

lemma fnmatchcase_plain_suffix:
  "list_all plain_char l \<Longrightarrow> fnmatchcase s (g @ l) \<Longrightarrow> suffix l s"
  by (auto simp: fnmatchcase_def glob_tokens_append_plain gmatch_append_Lits suffix_def)

lemma fnmatchcase_literal:
  "list_all plain_char l \<Longrightarrow> fnmatchcase s l \<longleftrightarrow> s = l"
  using gmatch_append_Lits[of "[]" l s] by (simp add: fnmatchcase_def glob_tokens_plain)

lemma glob_tokens_Star [simp]: "glob_tokens (CHR ''*'' # g) = Star # glob_tokens g"
  by simp

lemma fnmatchcase_Star_literal:
  "list_all plain_char l \<Longrightarrow> fnmatchcase s (CHR ''*'' # l) \<longleftrightarrow> suffix l s"
  by (auto simp: fnmatchcase_def glob_tokens_plain gmatch_Star_iff suffix_def
      gmatch_append_Lits[of "[]", simplified] simp del: gmatch.simps)

lemma casefold_append: "casefold (x @ y) = casefold x @ casefold y"
  by (simp add: casefold_def)

lemma matches_any_iff: "matches_any path globs \<longleftrightarrow> (\<exists>g\<in>set globs. fnmatchcase (casefold path) (casefold g))"
  by (simp add: matches_any_def Let_def list_ex_iff)

lemma matches_any_append [simp]: "matches_any p (gs @ hs) \<longleftrightarrow> matches_any p gs \<or> matches_any p hs"
  by (auto simp: matches_any_iff)

section \<open>Path-like tokens of a text\<close>

text \<open>
  \<open>_PATH_TOKEN_RE.findall\<close>: at each position the first alternative that matches, taken as long as
  the greedy operators take it, then on from its end.
\<close>

definition word_char :: "char \<Rightarrow> bool" where
  "word_char c = (let n = ord c in
     (48 \<le> n \<and> n \<le> 57) \<or> (65 \<le> n \<and> n \<le> 90) \<or> n = 95 \<or> (97 \<le> n \<and> n \<le> 122)
     \<or> n \<in> {170, 178, 179, 181, 185, 186, 188, 189, 190}
     \<or> (192 \<le> n \<and> n \<noteq> 215 \<and> n \<noteq> 247))"

definition name_char :: "char \<Rightarrow> bool" where
  "name_char c = (word_char c \<or> c = CHR ''-'' \<or> c = CHR ''*'')"

definition path_char :: "char \<Rightarrow> bool" where
  "path_char c = (name_char c \<or> c = CHR ''.'' \<or> c = CHR ''/'')"

definition slash_token :: "string \<Rightarrow> string option" where
  "slash_token s =
     (let run = takeWhile path_char s in
      if CHR ''/'' \<in> set (butlast run) then Some run else None)"

function dot_groups :: "string \<Rightarrow> string" where
  "dot_groups [] = []"
| "dot_groups (c # cs) =
     (if c = CHR ''.'' \<and> takeWhile name_char cs \<noteq> []
      then c # takeWhile name_char cs @ dot_groups (dropWhile name_char cs) else [])"
  by pat_completeness auto
termination
  by (relation "measure length") (auto simp: le_imp_less_Suc length_dropWhile_le)

definition dotted_token :: "string \<Rightarrow> string option" where
  "dotted_token s =
     (let d = (if prefix ''.'' s then ''.'' else []);
          s1 = drop (length d) s;
          w = takeWhile name_char s1;
          gs = dot_groups (dropWhile name_char s1)
      in if w = [] \<or> gs = [] then None else Some (d @ w @ gs))"

definition leading_dot_token :: "string \<Rightarrow> string option" where
  "leading_dot_token s =
     (if prefix ''.'' s \<and> takeWhile name_char (drop 1 s) \<noteq> []
      then Some (CHR ''.'' # takeWhile name_char (drop 1 s)) else None)"

definition token_at :: "string \<Rightarrow> string option" where
  "token_at s =
     (case slash_token s of Some t \<Rightarrow> Some t
      | None \<Rightarrow> (case dotted_token s of Some t \<Rightarrow> Some t | None \<Rightarrow> leading_dot_token s))"

lemma token_at_nonempty: "token_at s = Some t \<Longrightarrow> t \<noteq> []"
  by (auto simp: token_at_def slash_token_def dotted_token_def leading_dot_token_def Let_def
      split: option.splits if_split_asm)

function path_tokens :: "string \<Rightarrow> string list" where
  "path_tokens [] = []"
| "path_tokens (c # cs) =
     (case token_at (c # cs) of
        Some t \<Rightarrow> t # path_tokens (drop (length t) (c # cs))
      | None \<Rightarrow> path_tokens cs)"
  by pat_completeness auto
termination
  by (relation "measure length") (auto dest!: token_at_nonempty simp: neq_Nil_conv)

text \<open>A sensitive file name written between spaces is found as a token.\<close>

lemma path_tokens_example:
  "path_tokens ''edit pyproject.toml and src/a.py, e.g. .env now.'' =
     [''pyproject.toml'', ''src/a.py'', ''e.g'', ''.env'']"
  by code_simp

end
