(* ===== verification/Json.thy ===== *)
theory Json
  imports Prelude
begin

text \<open>
  Python values that come out of a JSON or TOML decoder, and the dictionary operations the
  orchestrator applies to them. A dictionary is an association list in insertion order without
  repeated keys; a number that is not an integer keeps its literal text. The decoders belong to the
  standard library and are arguments of the definitions that use them.
\<close>

datatype json =
    JNull
  | JBool bool
  | JInt int
  | JFloat string
  | JStr string
  | JArr "json list"
  | JObj "(string \<times> json) list"

type_synonym entry = "(string \<times> json) list"

text \<open>\<open>d.get(k)\<close> and \<open>d.get(k, default)\<close>.\<close>

definition dget :: "entry \<Rightarrow> string \<Rightarrow> json" where
  "dget e k = (case map_of e k of Some v \<Rightarrow> v | None \<Rightarrow> JNull)"

definition dget_or :: "entry \<Rightarrow> string \<Rightarrow> json \<Rightarrow> json" where
  "dget_or e k d = (case map_of e k of Some v \<Rightarrow> v | None \<Rightarrow> d)"

text \<open>\<open>d[k]\<close>, which raises \<open>KeyError\<close>, and \<open>k in d\<close>.\<close>

definition dsub :: "entry \<Rightarrow> string \<Rightarrow> exn + json" where
  "dsub e k = (case map_of e k of Some v \<Rightarrow> Inr v | None \<Rightarrow> Inl KeyError)"

definition has_key :: "entry \<Rightarrow> string \<Rightarrow> bool" where
  "has_key e k = (map_of e k \<noteq> None)"

text \<open>\<open>{**d, k: v}\<close> for one key: the value is replaced in place, or the key appended.\<close>

definition dput :: "string \<Rightarrow> json \<Rightarrow> entry \<Rightarrow> entry" where
  "dput k v e = (if has_key e k then map (\<lambda>(k', v'). if k' = k then (k', v) else (k', v')) e
                 else e @ [(k, v)])"

text \<open>The Python truth value; a float literal is false when its digits are all zero.\<close>

definition zero_literal :: "string \<Rightarrow> bool" where
  "zero_literal s =
     list_all (\<lambda>c. c = CHR ''0'' \<or> c = CHR ''-'' \<or> c = CHR ''.'')
       (takeWhile (\<lambda>c. c \<noteq> CHR ''e'' \<and> c \<noteq> CHR ''E'') s)"

primrec truthy :: "json \<Rightarrow> bool" where
  "truthy JNull = False"
| "truthy (JBool b) = b"
| "truthy (JInt i) = (i \<noteq> 0)"
| "truthy (JFloat s) = (\<not> zero_literal s)"
| "truthy (JStr s) = (s \<noteq> [])"
| "truthy (JArr xs) = (xs \<noteq> [])"
| "truthy (JObj e) = (e \<noteq> [])"

definition py_or :: "json \<Rightarrow> json \<Rightarrow> json" where
  "py_or a b = (if truthy a then a else b)"

primrec as_str :: "json \<Rightarrow> string option" where
  "as_str JNull = None"
| "as_str (JBool b) = None"
| "as_str (JInt i) = None"
| "as_str (JFloat s) = None"
| "as_str (JStr s) = Some s"
| "as_str (JArr xs) = None"
| "as_str (JObj e) = None"

lemma as_str_Some [simp]: "as_str v = Some s \<longleftrightarrow> v = JStr s"
  by (cases v) auto

lemma dget_Cons [simp]: "dget ((k', v) # e) k = (if k' = k then v else dget e k)"
  by (simp add: dget_def)

lemma dget_Nil [simp]: "dget [] k = JNull"
  by (simp add: dget_def)

lemma map_of_update_eq:
  "map_of (map (\<lambda>(k', v'). if k' = k then (k', v) else (k', v')) e) j =
     (if j = k then map_option (\<lambda>_. v) (map_of e k) else map_of e j)"
  by (induction e) auto

lemma map_of_dput: "map_of (dput k v e) j = (if j = k then Some v else map_of e j)"
  by (auto simp: dput_def has_key_def map_of_update_eq map_add_def split: option.splits)

lemma dget_dput [simp]: "dget (dput k v e) j = (if j = k then v else dget e j)"
  by (simp add: dget_def map_of_dput)

lemma has_key_dput [simp]: "has_key (dput k v e) j \<longleftrightarrow> j = k \<or> has_key e j"
  by (simp add: has_key_def map_of_dput)

lemma dsub_Inr [res_simps]: "dsub e k = Inr v \<longleftrightarrow> map_of e k = Some v"
  by (simp add: dsub_def split: option.split)

lemma dsub_Inl [res_simps]: "dsub e k = Inl x \<longleftrightarrow> map_of e k = None \<and> x = KeyError"
  by (auto simp: dsub_def split: option.split)

text \<open>The text of an integer, as \<open>str\<close> and f-strings print it.\<close>

fun nat_digits :: "nat \<Rightarrow> string" where
  "nat_digits n = (if n < 10 then [char_of (48 + n)] else nat_digits (n div 10) @ [char_of (48 + n mod 10)])"

declare nat_digits.simps [simp del]

definition str_of_nat :: "nat \<Rightarrow> string" where
  "str_of_nat n = nat_digits n"

definition str_of_int :: "int \<Rightarrow> string" where
  "str_of_int i = (if i < 0 then CHR ''-'' # nat_digits (nat (- i)) else nat_digits (nat i))"

text \<open>The value of a digit string, the inverse of printing.\<close>

primrec digits_val :: "nat \<Rightarrow> string \<Rightarrow> nat" where
  "digits_val acc [] = acc"
| "digits_val acc (c # cs) = digits_val (10 * acc + (of_char c - 48)) cs"

text \<open>\<open>int\<close> of a text: white space around it, a sign, digits with single underscores between them.\<close>

definition py_int :: "string \<Rightarrow> int option" where
  "py_int s =
     (let t = strip s;
          neg = prefix ''-'' t;
          body = (if neg \<or> prefix ''+'' t then drop 1 t else t);
          groups = split_on CHR ''_'' body;
          ds = concat groups
      in if list_all (\<lambda>g. g \<noteq> [] \<and> list_all is_digit g) groups \<and> length ds \<le> 4300
         then Some (if neg then - int (digits_val 0 ds) else int (digits_val 0 ds)) else None)"

lemma digits_val_append: "digits_val acc (xs @ ys) = digits_val (digits_val acc xs) ys"
  by (induction xs arbitrary: acc) auto

lemma digit_char: "d < 10 \<Longrightarrow> of_char (char_of (48 + d) :: char) = (48 + d :: nat)"
  by (simp add: of_char_of take_bit_eq_mod)

lemma digits_val_nat_digits: "digits_val 0 (nat_digits n) = n"
proof (induction n rule: nat_digits.induct)
  case (1 n)
  then show ?case
    by (subst nat_digits.simps) (auto simp: digits_val_append digit_char)
qed

lemma nat_digits_inj: "nat_digits m = nat_digits n \<Longrightarrow> m = n"
  by (metis digits_val_nat_digits)

lemma nat_digits_digits: "list_all is_digit (nat_digits n)"
proof (induction n rule: nat_digits.induct)
  case (1 n)
  have "d < 10 \<Longrightarrow> is_digit (char_of (48 + d))" for d :: nat
  proof -
    assume "d < 10"
    then have "(of_char (char_of (48 + d) :: char) :: int) = int (48 + d)"
      using digit_char[of d] by (metis of_nat_of_char)
    then show "is_digit (char_of (48 + d))"
      using \<open>d < 10\<close> by (simp add: is_digit_def)
  qed
  then show ?case
    using 1 by (subst nat_digits.simps) auto
qed

lemma nat_digits_nonempty [simp]: "nat_digits n \<noteq> []"
  by (subst nat_digits.simps) auto

text \<open>
  \<open>repr\<close> and \<open>str\<close> of a decoded value (a float prints its literal).
\<close>

definition repr_char :: "char \<Rightarrow> char \<Rightarrow> string" where
  "repr_char q c = (let n = ord c in
     if c = q \<or> n = 92 then [CHR 0x5C, c]
     else if n = 9 then [CHR 0x5C, CHR ''t'']
     else if n = 10 then [CHR 0x5C, CHR ''n'']
     else if n = 13 then [CHR 0x5C, CHR ''r'']
     else if n < 32 \<or> (127 \<le> n \<and> n \<le> 160) \<or> n = 173
       then [CHR 0x5C, CHR ''x'', ''0123456789abcdef'' ! nat (n div 16), ''0123456789abcdef'' ! nat (n mod 16)]
     else [c])"

definition repr_str :: "string \<Rightarrow> string" where
  "repr_str s =
     (let q = (if CHR 0x27 \<in> set s \<and> CHR 0x22 \<notin> set s then CHR 0x22 else CHR 0x27)
      in q # concat (map (repr_char q) s) @ [q])"

fun py_repr :: "json \<Rightarrow> string" where
  "py_repr JNull = ''None''"
| "py_repr (JBool b) = (if b then ''True'' else ''False'')"
| "py_repr (JInt i) = str_of_int i"
| "py_repr (JFloat s) = s"
| "py_repr (JStr s) = repr_str s"
| "py_repr (JArr xs) = ''['' @ join '', '' (map py_repr xs) @ '']''"
| "py_repr (JObj e) = ''{'' @ join '', '' (map (\<lambda>(k, v). repr_str k @ '': '' @ py_repr v) e) @ ''}''"

definition py_str :: "json \<Rightarrow> string" where
  "py_str v = (case v of JStr s \<Rightarrow> s | _ \<Rightarrow> py_repr v)"

lemma py_str_JStr [simp]: "py_str (JStr s) = s"
  by (simp add: py_str_def)

text \<open>
  The decoder of the standard library, as the code uses it: \<open>loads\<close> of a whole text (\<open>None\<close> when it
  raises \<open>JSONDecodeError\<close>), and, for a text that starts with an opening brace, how many characters
  after the brace \<open>raw_decode\<close> consumes (\<open>None\<close> when it raises); and \<open>dumps(v, indent=2)\<close>,
  with \<open>ensure_ascii\<close> (\<open>dumps\<close>) and without (\<open>dumps_raw\<close>).
\<close>

record json_lib =
  loads :: "string \<Rightarrow> json option"
  object_span :: "string \<Rightarrow> nat option"
  dumps :: "json \<Rightarrow> string"
  dumps_raw :: "json \<Rightarrow> string"

end
