(* ===== verification/Target_Policy.thy ===== *)
theory Target_Policy
  imports Glob Json
begin

text \<open>
  Model of \<open>src/orchestrator/target_policy.py\<close>: the engine's own sensitive and safe patterns, the
  per-target policy record, and the validation of a decoded \<open>policy.toml\<close>. The TOML decoder is an
  argument (\<open>None\<close> when it raises); a TOML value of another type than string, boolean, integer, array
  or table (a float, a date) is a \<open>JFloat\<close> literal, which no check accepts.
\<close>

definition policy_rel :: string where
  "policy_rel = ''.laddy/policy.toml''"

definition engine_sensitive_globs :: "string list" where
  "engine_sensitive_globs =
     [''.env*'', ''**/.env*'', ''env.*'', ''**/env.*'', ''.claude/*'', ''.claude/**/*'',
      ''**/.claude/*'', ''**/.claude/**/*'', ''.mcp.json'', ''**/.mcp.json'', ''.codex/*'',
      ''.codex/**/*'', ''**/.codex/*'', ''**/.codex/**/*'', ''CLAUDE.md'', ''**/CLAUDE.md'',
      ''CLAUDE.local.md'', ''**/CLAUDE.local.md'', ''CLAUDE/*'', ''CLAUDE/**/*'',
      ''**/CLAUDE/*'', ''**/CLAUDE/**/*'', ''AGENTS.md'', ''**/AGENTS.md'', ''GEMINI.md'',
      ''**/GEMINI.md'', ''.github/*'', ''.github/**/*'', ''requirements*.txt'',
      ''**/requirements*.txt'', ''pyproject.toml'', ''**/pyproject.toml'', ''Pipfile'',
      ''**/Pipfile'', ''Pipfile.lock'', ''**/Pipfile.lock'', ''poetry.lock'', ''**/poetry.lock'',
      ''uv.lock'', ''**/uv.lock'', ''package.json'', ''**/package.json'', ''package-lock.json'',
      ''**/package-lock.json'', ''pnpm-lock.yaml'', ''**/pnpm-lock.yaml'', ''yarn.lock'',
      ''**/yarn.lock'', ''conftest.py'', ''**/conftest.py'', ''pytest.ini'', ''**/pytest.ini'',
      ''tox.ini'', ''**/tox.ini'', ''setup.cfg'', ''**/setup.cfg'', ''.semgrepignore'',
      ''**/.semgrepignore'', ''.semgrep/*'', ''.semgrep/**/*'', ''**/.semgrep/*'',
      ''**/.semgrep/**/*'', ''.gitleaks.toml'', ''**/.gitleaks.toml'', ''.gitleaksignore'',
      ''**/.gitleaksignore'', ''.coveragerc'', ''**/.coveragerc'', ''ruff.toml'',
      ''**/ruff.toml'', ''.ruff.toml'', ''**/.ruff.toml'', ''pyrightconfig.json'',
      ''**/pyrightconfig.json'', ''orchestrator/*'', ''orchestrator/**/*'', ''scripts/*'',
      ''prompts/*'', ''roles/*'', ''oracle/*'', ''monitoring/*'', ''docker/*'', ''security/*'',
      ''skills/*'', ''note_server/*'', ''note_server/**/*'', ''.laddy/docker/*'',
      ''.laddy/docker/**/*'', ''.laddy/security/*'', ''.laddy/security/**/*'',
      ''.laddy/oracle/*'', ''.laddy/policy.toml'']"
definition engine_safe_globs :: "string list" where
  "engine_safe_globs = [''*.md'', ''**/*.md'']"

definition inert_safe_extensions :: "string list" where
  "inert_safe_extensions = [''md'', ''txt'', ''json'', ''csv'', ''po'']"

definition engine_test_dirs :: "string list" where
  "engine_test_dirs = [''tests/'']"

definition required_keys :: "string list" where
  "required_keys =
     [''coverage_package'', ''sensitive_globs'', ''security_globs'', ''invariant_tests'', ''test_dirs'',
      ''migration_globs'', ''frontend_prefixes'', ''frontend_gate'', ''user_visible_prefixes'',
      ''safe_globs'']"

record target_policy =
  coverage_package :: string
  sensitive_globs :: "string list"
  security_globs :: "string list"
  invariant_tests :: "string list"
  test_dirs :: "string list"
  migration_globs :: "string list"
  frontend_prefixes :: "string list"
  frontend_gate :: string
  user_visible_prefixes :: "string list"
  safe_globs :: "string list"

definition all_sensitive_globs :: "target_policy \<Rightarrow> string list" where
  "all_sensitive_globs p = engine_sensitive_globs @ sensitive_globs p @ invariant_tests p"

definition all_safe_globs :: "target_policy \<Rightarrow> string list" where
  "all_safe_globs p = engine_safe_globs @ safe_globs p"

definition all_test_dirs :: "target_policy \<Rightarrow> string list" where
  "all_test_dirs p = engine_test_dirs @ test_dirs p"

definition tp_as_str :: "json \<Rightarrow> exn + string" where
  "tp_as_str v = (case as_str v of Some s \<Rightarrow> Inr s | None \<Rightarrow> Inl TargetPolicyError)"

definition tp_as_str_tuple :: "json \<Rightarrow> exn + string list" where
  "tp_as_str_tuple v = (case v of JArr vs \<Rightarrow> mapR tp_as_str vs | _ \<Rightarrow> Inl TargetPolicyError)"

text \<open>\<open>g.casefold().rpartition(".")\<close> and the three rejections: no dot, an empty stem, another suffix.\<close>

definition inert_glob :: "string \<Rightarrow> bool" where
  "inert_glob g =
     (let f = casefold g;
          ext = rev (takeWhile (\<lambda>c. c \<noteq> CHR ''.'') (rev f));
          sep = (CHR ''.'' \<in> set f);
          stem = rev (drop 1 (dropWhile (\<lambda>c. c \<noteq> CHR ''.'') (rev f)))
      in sep \<and> stem \<noteq> [] \<and> ext \<in> set inert_safe_extensions)"

definition as_inert_safe_globs :: "json \<Rightarrow> exn + string list" where
  "as_inert_safe_globs v =
     bindR (tp_as_str_tuple v) (\<lambda>globs.
       if list_all inert_glob globs then Inr globs else Inl TargetPolicyError)"

definition policy_of_entry :: "entry \<Rightarrow> exn + target_policy" where
  "policy_of_entry d =
     bindR (tp_as_str (dget d ''coverage_package'')) (\<lambda>cov.
     bindR (tp_as_str_tuple (dget d ''sensitive_globs'')) (\<lambda>sens.
     bindR (tp_as_str_tuple (dget d ''security_globs'')) (\<lambda>secu.
     bindR (tp_as_str_tuple (dget d ''invariant_tests'')) (\<lambda>inv.
     bindR (tp_as_str_tuple (dget d ''test_dirs'')) (\<lambda>tds.
     bindR (tp_as_str_tuple (dget d ''migration_globs'')) (\<lambda>mig.
     bindR (tp_as_str_tuple (dget d ''frontend_prefixes'')) (\<lambda>fps.
     bindR (tp_as_str (dget d ''frontend_gate'')) (\<lambda>fg.
     bindR (tp_as_str_tuple (dget d ''user_visible_prefixes'')) (\<lambda>uvp.
     bindR (as_inert_safe_globs (dget d ''safe_globs'')) (\<lambda>safe.
       Inr \<lparr>coverage_package = cov, sensitive_globs = sens, security_globs = secu,
            invariant_tests = inv, test_dirs = tds, migration_globs = mig, frontend_prefixes = fps,
            frontend_gate = fg, user_visible_prefixes = uvp, safe_globs = safe\<rparr>))))))))))"

definition parse_target_policy :: "(string \<Rightarrow> entry option) \<Rightarrow> string \<Rightarrow> exn + target_policy" where
  "parse_target_policy toml_loads txt =
     (case toml_loads txt of
        None \<Rightarrow> Inl TargetPolicyError
      | Some d \<Rightarrow>
          if filter (\<lambda>k. \<not> has_key d k) required_keys \<noteq> [] then Inl TargetPolicyError
          else policy_of_entry d)"

text \<open>
  \<open>load_target_policy\<close>: the working-tree file when no ref is given (only \<open>OSError\<close> is turned into a
  policy error), else what the trusted ref holds; \<open>read_file\<close> and \<open>git_show\<close> are the injected reads.
\<close>

definition load_target_policy ::
  "(string \<Rightarrow> entry option) \<Rightarrow> (string \<Rightarrow> exn + string) \<Rightarrow> (string \<Rightarrow> exn + string) \<Rightarrow>
   string option \<Rightarrow> exn + target_policy" where
  "load_target_policy toml_loads read_file git_show ref =
     (case ref of
        None \<Rightarrow>
          (case read_file policy_rel of
             Inl e \<Rightarrow> if e = OSError then Inl TargetPolicyError else Inl e
           | Inr txt \<Rightarrow> parse_target_policy toml_loads txt)
      | Some r \<Rightarrow>
          bindR (git_show (r @ '':'' @ policy_rel)) (parse_target_policy toml_loads))"

lemmas policy_defs = all_sensitive_globs_def all_safe_globs_def all_test_dirs_def

lemma inert_globD:
  assumes "inert_glob g"
  obtains stem ext where "casefold g = stem @ ''.'' @ ext" "stem \<noteq> []" "ext \<in> set inert_safe_extensions"
proof -
  define f where "f = casefold g"
  define a where "a = takeWhile (\<lambda>c. c \<noteq> CHR ''.'') (rev f)"
  define b where "b = dropWhile (\<lambda>c. c \<noteq> CHR ''.'') (rev f)"
  have f: "f = rev b @ rev a"
    unfolding a_def b_def by (metis rev_append rev_rev_ident takeWhile_dropWhile_id)
  have sep: "CHR ''.'' \<in> set f" and stem: "rev (drop 1 b) \<noteq> []" and ext: "rev a \<in> set inert_safe_extensions"
    using assms by (simp_all add: inert_glob_def Let_def f_def a_def b_def)
  have "b \<noteq> []"
    using sep unfolding b_def by (auto simp: dropWhile_eq_Nil_conv)
  moreover have "hd b = CHR ''.''"
    using \<open>b \<noteq> []\<close> hd_dropWhile[of "\<lambda>c. c \<noteq> CHR ''.''" "rev f"] unfolding b_def by blast
  ultimately have "b = CHR ''.'' # drop 1 b"
    by (cases b) auto
  then have "rev b = rev (drop 1 b) @ ''.''"
    by (metis rev.simps(2))
  then show thesis
    using f stem ext that[of "rev (drop 1 b)" "rev a"] by (simp add: f_def)
qed

lemma inert_extensions_plain:
  "ext \<in> set inert_safe_extensions \<Longrightarrow> list_all plain_char (''.'' @ ext)"
  by (auto simp: inert_safe_extensions_def plain_char_def)

text \<open>What an accepted safe pattern matches ends in an inert extension.\<close>

definition inert_path :: "string \<Rightarrow> bool" where
  "inert_path p = list_ex (\<lambda>ext. suffix (''.'' @ ext) (casefold p)) inert_safe_extensions"

lemma inert_glob_matches:
  assumes "inert_glob g" "fnmatchcase (casefold p) (casefold g)"
  shows "inert_path p"
  using assms(1)
proof (rule inert_globD)
  fix stem ext
  assume "casefold g = stem @ ''.'' @ ext" and ext: "ext \<in> set inert_safe_extensions"
  then have "suffix (''.'' @ ext) (casefold p)"
    using assms(2) fnmatchcase_plain_suffix[OF inert_extensions_plain[OF ext], of "casefold p" stem]
    by simp
  then show ?thesis
    using ext by (auto simp: inert_path_def list_ex_iff)
qed

lemma engine_safe_inert: "list_all inert_glob engine_safe_globs"
  by code_simp

lemma as_inert_safe_globs_ok: "as_inert_safe_globs v = Inr gs \<Longrightarrow> list_all inert_glob gs"
  by (auto simp: as_inert_safe_globs_def res_simps split: if_splits)

lemma policy_of_entry_safe: "policy_of_entry d = Inr p \<Longrightarrow> list_all inert_glob (safe_globs p)"
  by (auto simp: policy_of_entry_def res_simps dest: as_inert_safe_globs_ok)

lemma parse_target_policy_safe:
  "parse_target_policy L txt = Inr p \<Longrightarrow> list_all inert_glob (all_safe_globs p)"
  using engine_safe_inert
  by (auto simp: parse_target_policy_def all_safe_globs_def dest: policy_of_entry_safe
      split: option.splits if_splits)

lemma parse_target_policy_keys:
  "parse_target_policy L txt = Inr p \<Longrightarrow> \<exists>d. L txt = Some d \<and> (\<forall>k\<in>set required_keys. has_key d k)"
  by (auto simp: parse_target_policy_def filter_empty_conv split: option.splits if_splits)

lemma casefold_prefix: "prefix x y \<Longrightarrow> prefix (casefold x) (casefold y)"
  by (auto simp: prefix_def casefold_append)

end
