(* ===== verification/Policy.thy ===== *)
theory Policy
  imports Spec_File Target_Policy
begin

text \<open>
  Model of \<open>src/orchestrator/policy.py\<close>: sensitive paths, risk levels, the report-only path guard and
  draft check, the L1/L2/L3 classification and the merge decision matrix. A path is text; the reads of
  file contents are the injected functions of the code.
\<close>

section \<open>Risk\<close>

datatype risk = Low | Medium | High

definition risk_order :: "risk \<Rightarrow> nat" where
  "risk_order r = (case r of Low \<Rightarrow> 0 | Medium \<Rightarrow> 1 | High \<Rightarrow> 2)"

instantiation risk :: linorder
begin

definition less_eq_risk :: "risk \<Rightarrow> risk \<Rightarrow> bool" where
  "less_eq_risk a b = (risk_order a \<le> risk_order b)"

definition less_risk :: "risk \<Rightarrow> risk \<Rightarrow> bool" where
  "less_risk a b = (risk_order a < risk_order b)"

instance
  by standard (auto simp: less_eq_risk_def less_risk_def risk_order_def split: risk.splits)

end

lemmas risk_less = less_eq_risk_def less_risk_def risk_order_def

lemma risk_le_High [simp]: "r \<le> High"
  by (cases r) (simp_all add: risk_less)

lemma High_le [simp]: "High \<le> r \<longleftrightarrow> r = High"
  by (cases r) (simp_all add: risk_less)

definition risk_text :: "risk \<Rightarrow> string" where
  "risk_text r = (case r of Low \<Rightarrow> ''low'' | Medium \<Rightarrow> ''medium'' | High \<Rightarrow> ''high'')"

definition normalize_risk :: "string option \<Rightarrow> risk" where
  "normalize_risk declared =
     (let level = lower (strip (case declared of Some d \<Rightarrow> d | None \<Rightarrow> [])) in
      if level = [] then Low
      else if level = ''low'' then Low
      else if level = ''medium'' then Medium
      else High)"

definition effective_risk :: "string option \<Rightarrow> string option \<Rightarrow> risk" where
  "effective_risk declared computed =
     (let d = normalize_risk declared; c = normalize_risk computed in if d \<ge> c then d else c)"

lemma normalize_risk_text [simp]: "normalize_risk (Some (risk_text r)) = r"
  by (cases r) (simp_all add: risk_text_def normalize_risk_def py_text)

lemma effective_risk_max: "effective_risk d (Some (risk_text c)) = max (normalize_risk d) c"
  by (auto simp: effective_risk_def Let_def max_def)

section \<open>Changed paths\<close>

definition touches_invariant_tests :: "target_policy \<Rightarrow> string list \<Rightarrow> bool" where
  "touches_invariant_tests p files = list_ex (\<lambda>f. f \<in> set (invariant_tests p)) files"

definition report_allowed_prefixes :: "string \<Rightarrow> string list" where
  "report_allowed_prefixes task = [''.laddy/tasks/'' @ task @ ''/'']"

definition spec_prefix :: string where
  "spec_prefix = ''.laddy/specs/''"

definition starts_with_any :: "string list \<Rightarrow> string \<Rightarrow> bool" where
  "starts_with_any ps f = list_ex (\<lambda>p. prefix p f) ps"

definition path_guard :: "string \<Rightarrow> string list \<Rightarrow> bool \<times> string list" where
  "path_guard task files =
     (let allowed = report_allowed_prefixes task;
          offending = filter (\<lambda>f. \<not> (starts_with_any allowed f
                                     \<or> (prefix spec_prefix f \<and> suffix ''.md'' f))) files
      in (offending = [], offending))"

text \<open>\<open>read_text\<close> may raise; only a spec error and \<open>OSError\<close> are caught.\<close>

primrec nondraft_report_specs ::
  "string \<Rightarrow> string list \<Rightarrow> (string \<Rightarrow> exn + string) \<Rightarrow> exn + string list" where
  "nondraft_report_specs task [] read_text = Inr []"
| "nondraft_report_specs task (f # fs) read_text =
     (if \<not> (prefix spec_prefix f \<and> suffix ''.md'' f) then nondraft_report_specs task fs read_text
      else
        (case read_text f of
           Inl e \<Rightarrow>
             if e = OSError \<or> e = SpecError
             then bindR (nondraft_report_specs task fs read_text) (\<lambda>r. Inr (f # r)) else Inl e
         | Inr txt \<Rightarrow>
             (case parse_spec_text txt of
                Inl _ \<Rightarrow> bindR (nondraft_report_specs task fs read_text) (\<lambda>r. Inr (f # r))
              | Inr s \<Rightarrow>
                  if (if f = spec_prefix @ task @ ''.md''
                      then \<not> report_only s
                           \<or> spec_status s \<notin> {None, Some draft_status, Some done_status}
                      else \<not> is_draft s)
                  then bindR (nondraft_report_specs task fs read_text) (\<lambda>r. Inr (f # r))
                  else nondraft_report_specs task fs read_text)))"

definition sensitive_paths :: "target_policy \<Rightarrow> string list \<Rightarrow> string list" where
  "sensitive_paths p files = filter (\<lambda>f. matches_any f (all_sensitive_globs p)) files"

definition security_paths :: "target_policy \<Rightarrow> string list \<Rightarrow> string list" where
  "security_paths p files = filter (\<lambda>f. matches_any f (security_globs p)) files"

definition spec_is_high_risk :: "target_policy \<Rightarrow> string \<Rightarrow> string option \<Rightarrow> bool" where
  "spec_is_high_risk p spec_text rsk =
     (normalize_risk rsk = High
      \<or> list_ex (\<lambda>tok. matches_any tok (all_sensitive_globs p)) (path_tokens spec_text))"

definition computed_risk :: "target_policy \<Rightarrow> string list \<Rightarrow> int \<Rightarrow> risk" where
  "computed_risk p files diff_lines =
     (if sensitive_paths p files \<noteq> [] \<or> security_paths p files \<noteq> [] then High
      else if length files > 15 \<or> diff_lines > 300 then Medium
      else Low)"

definition user_visible :: "target_policy \<Rightarrow> string list \<Rightarrow> bool" where
  "user_visible p files = list_ex (starts_with_any (user_visible_prefixes p)) files"

section \<open>Blast radius\<close>

datatype blast_radius = L1 | L2 | L3

definition is_safe_by_construction :: "target_policy \<Rightarrow> string \<Rightarrow> bool" where
  "is_safe_by_construction p path =
     (if prefix (casefold spec_prefix) (casefold path) then False
      else matches_any path (all_safe_globs p))"

definition classify_blast_radius :: "target_policy \<Rightarrow> string list \<Rightarrow> blast_radius" where
  "classify_blast_radius p files =
     (if files = [] then L3
      else if sensitive_paths p files \<noteq> [] \<or> security_paths p files \<noteq> [] then L3
      else if list_all (is_safe_by_construction p) files then L1
      else L2)"

text \<open>\<open>changed_statuses\<close> maps a path to its git status, in the order git printed it.\<close>

definition deleted_test_files :: "target_policy \<Rightarrow> (string \<times> string) list \<Rightarrow> string list" where
  "deleted_test_files p statuses =
     map fst (filter (\<lambda>(f, s). prefix ''D'' s \<and> starts_with_any (all_test_dirs p) f) statuses)"

primrec destructive_migrations ::
  "target_policy \<Rightarrow> string list \<Rightarrow> (string \<Rightarrow> exn + string) \<Rightarrow> exn + string list" where
  "destructive_migrations p [] read_text = Inr []"
| "destructive_migrations p (f # fs) read_text =
     (if matches_any f (migration_globs p) then
        (case read_text f of
           Inl e \<Rightarrow> if e = OSError then destructive_migrations p fs read_text else Inl e
         | Inr txt \<Rightarrow>
             if txt \<noteq> [] \<and> (sublist ''drop_table'' txt \<or> sublist ''drop_column'' txt)
             then bindR (destructive_migrations p fs read_text) (\<lambda>r. Inr (f # r))
             else destructive_migrations p fs read_text)
      else destructive_migrations p fs read_text)"

section \<open>The merge decision\<close>

record gate_states =
  head_sha :: string
  rw1_sha :: "string option"
  rw1_approved :: bool
  rw2_sha :: "string option"
  rw2_go :: bool
  authoritative_sha :: "string option"
  authoritative_passed :: bool
  authoritative_flaky :: bool

datatype decision = AutoMerge | AutoMergeNotify | StopBeforeMerge

record merge_decision_rec =
  md_decision :: decision
  md_risk :: risk
  md_reasons :: "string list"

definition reason_if :: "bool \<Rightarrow> string \<Rightarrow> string list" where
  "reason_if b r = (if b then [r] else [])"

definition listed :: "string \<Rightarrow> string list \<Rightarrow> string list" where
  "listed label xs = reason_if (xs \<noteq> []) (label @ '': '' @ join '', '' (take 5 xs))"

definition gate_reasons :: "gate_states \<Rightarrow> string list" where
  "gate_reasons g =
     reason_if (\<not> (rw1_approved g \<and> rw1_sha g = Some (head_sha g))) ''stale_or_missing_rw1_approval''
   @ reason_if (\<not> (rw2_go g \<and> rw2_sha g = Some (head_sha g))) ''stale_or_missing_rw2_approval''
   @ reason_if (\<not> (authoritative_passed g \<and> authoritative_sha g = Some (head_sha g)))
       ''stale_or_missing_authoritative_green''
   @ reason_if (authoritative_flaky g) ''flaky_authoritative_tests''"

record merge_inputs =
  mi_policy :: target_policy
  mi_files :: "string list"
  mi_lines :: int
  mi_declared :: "string option"
  mi_gates :: gate_states
  mi_statuses :: "(string \<times> string) list option"
  mi_migration_texts :: "(string \<Rightarrow> exn + string) option"
  mi_deadlock :: bool
  mi_unclear :: bool

definition input_risk :: "merge_inputs \<Rightarrow> risk" where
  "input_risk i = effective_risk (mi_declared i)
     (Some (risk_text (computed_risk (mi_policy i) (mi_files i) (mi_lines i))))"

text \<open>The reasons, in the order the code appends them; \<open>destructive\<close> are the destructive migrations.\<close>

definition merge_reasons :: "merge_inputs \<Rightarrow> string list \<Rightarrow> string list" where
  "merge_reasons i destructive =
     gate_reasons (mi_gates i)
   @ listed ''policy_sensitive_paths'' (sensitive_paths (mi_policy i) (mi_files i))
   @ listed ''security_auth_paths'' (security_paths (mi_policy i) (mi_files i))
   @ (case mi_statuses i of None \<Rightarrow> []
      | Some st \<Rightarrow> listed ''test_files_deleted'' (deleted_test_files (mi_policy i) st))
   @ listed ''destructive_migrations'' destructive
   @ reason_if (mi_deadlock i) ''senior_escalation_without_clean_verdict''
   @ reason_if (mi_unclear i) ''unclear_product_intent''
   @ reason_if (input_risk i = High) ''high_risk''"

definition decision_of :: "risk \<Rightarrow> bool \<Rightarrow> string list \<Rightarrow> merge_decision_rec" where
  "decision_of rsk visible reasons =
     (if reasons \<noteq> []
      then \<lparr>md_decision = StopBeforeMerge, md_risk = rsk, md_reasons = reasons\<rparr>
      else if rsk = Medium \<and> visible
      then \<lparr>md_decision = AutoMergeNotify, md_risk = rsk, md_reasons = []\<rparr>
      else \<lparr>md_decision = AutoMerge, md_risk = rsk, md_reasons = []\<rparr>)"

definition merge_decision :: "merge_inputs \<Rightarrow> exn + merge_decision_rec" where
  "merge_decision i =
     bindR (case mi_migration_texts i of None \<Rightarrow> Inr []
            | Some rd \<Rightarrow> destructive_migrations (mi_policy i) (mi_files i) rd)
       (\<lambda>destructive. Inr (decision_of (input_risk i) (user_visible (mi_policy i) (mi_files i))
                             (merge_reasons i destructive)))"

definition report_only_decision ::
  "string \<Rightarrow> string list \<Rightarrow> bool \<Rightarrow> string list \<Rightarrow> merge_decision_rec" where
  "report_only_decision task files verify_confirmed nondraft =
     (let (ok, offending) = path_guard task files;
          reasons = (if ok then [] else [''path_guard_violation: '' @ join '', '' (take 5 offending)])
            @ listed ''nondraft_spec_in_report_only'' nondraft
            @ reason_if (\<not> verify_confirmed) ''verify_round_missing_or_failed''
      in if reasons \<noteq> []
         then \<lparr>md_decision = StopBeforeMerge, md_risk = Low, md_reasons = reasons\<rparr>
         else \<lparr>md_decision = AutoMerge, md_risk = Low, md_reasons = []\<rparr>)"

section \<open>Facts about paths\<close>

lemma reason_if_Nil [simp]: "reason_if b r = [] \<longleftrightarrow> \<not> b"
  by (simp add: reason_if_def)

lemma listed_Nil [simp]: "listed l xs = [] \<longleftrightarrow> xs = []"
  by (simp add: listed_def)

lemma in_sensitive_paths [simp]:
  "f \<in> set (sensitive_paths p files) \<longleftrightarrow> f \<in> set files \<and> matches_any f (all_sensitive_globs p)"
  by (auto simp: sensitive_paths_def)

lemma in_security_paths [simp]:
  "f \<in> set (security_paths p files) \<longleftrightarrow> f \<in> set files \<and> matches_any f (security_globs p)"
  by (auto simp: security_paths_def)

lemma sensitive_paths_Nil [simp]:
  "sensitive_paths p files = [] \<longleftrightarrow> (\<forall>f\<in>set files. \<not> matches_any f (all_sensitive_globs p))"
  by (simp add: sensitive_paths_def filter_empty_conv)

lemma security_paths_Nil [simp]:
  "security_paths p files = [] \<longleftrightarrow> (\<forall>f\<in>set files. \<not> matches_any f (security_globs p))"
  by (simp add: security_paths_def filter_empty_conv)

definition hits_engine :: "string \<Rightarrow> bool" where
  "hits_engine f = matches_any f engine_sensitive_globs"

lemma hits_engine_sensitive: "hits_engine f \<Longrightarrow> matches_any f (all_sensitive_globs p)"
  by (simp add: hits_engine_def all_sensitive_globs_def)

lemma classify_L1_iff:
  "classify_blast_radius p files = L1 \<longleftrightarrow>
     files \<noteq> [] \<and> sensitive_paths p files = [] \<and> security_paths p files = []
     \<and> list_all (is_safe_by_construction p) files"
  by (auto simp: classify_blast_radius_def)

lemma classify_L3_iff:
  "classify_blast_radius p files = L3 \<longleftrightarrow>
     files = [] \<or> sensitive_paths p files \<noteq> [] \<or> security_paths p files \<noteq> []"
  by (auto simp: classify_blast_radius_def)

lemma computed_risk_High:
  "computed_risk p files n = High \<longleftrightarrow> sensitive_paths p files \<noteq> [] \<or> security_paths p files \<noteq> []"
  by (auto simp: computed_risk_def)

lemma safe_by_construction_inert:
  assumes "list_all inert_glob (all_safe_globs p)" "is_safe_by_construction p f"
  shows "inert_path f" "\<not> prefix (casefold spec_prefix) (casefold f)"
  using assms inert_glob_matches
  by (auto simp: is_safe_by_construction_def matches_any_iff list_all_iff split: if_splits)

lemma path_guard_ok_iff:
  "fst (path_guard task files) \<longleftrightarrow>
     (\<forall>f\<in>set files. prefix (''.laddy/tasks/'' @ task @ ''/'') f \<or> (prefix spec_prefix f \<and> suffix ''.md'' f))"
  by (auto simp: path_guard_def Let_def filter_empty_conv report_allowed_prefixes_def starts_with_any_def)

text \<open>What \<open>nondraft_report_specs\<close> certifies about one changed spec file.\<close>

definition certified_spec :: "string \<Rightarrow> string \<Rightarrow> (string \<Rightarrow> exn + string) \<Rightarrow> bool" where
  "certified_spec task f read_text =
     (case read_text f of Inl _ \<Rightarrow> False
      | Inr txt \<Rightarrow> (case parse_spec_text txt of Inl _ \<Rightarrow> False
          | Inr s \<Rightarrow> if f = spec_prefix @ task @ ''.md'' then report_only s else is_draft s))"

lemma nondraft_report_specs_ok:
  "nondraft_report_specs task files read_text = Inr [] \<Longrightarrow> f \<in> set files \<Longrightarrow>
   prefix spec_prefix f \<Longrightarrow> suffix ''.md'' f \<Longrightarrow> certified_spec task f read_text"
  by (induction files)
     (auto simp: certified_spec_def res_simps split: sum.splits if_split_asm)

lemma merge_reasons_Nil_iff:
  "merge_reasons i destructive = [] \<longleftrightarrow>
     gate_reasons (mi_gates i) = [] \<and> sensitive_paths (mi_policy i) (mi_files i) = []
     \<and> security_paths (mi_policy i) (mi_files i) = []
     \<and> (\<forall>st. mi_statuses i = Some st \<longrightarrow> deleted_test_files (mi_policy i) st = [])
     \<and> destructive = [] \<and> \<not> mi_deadlock i \<and> \<not> mi_unclear i \<and> input_risk i \<noteq> High"
  by (cases "mi_statuses i")
     (simp_all add: merge_reasons_def del: sensitive_paths_Nil security_paths_Nil)

lemma decision_of_simps [simp]:
  "md_risk (decision_of r v rs) = r"
  "md_reasons (decision_of r v rs) = rs"
  "md_decision (decision_of r v rs) = StopBeforeMerge \<longleftrightarrow> rs \<noteq> []"
  "md_decision (decision_of r v rs) = AutoMergeNotify \<longleftrightarrow> rs = [] \<and> r = Medium \<and> v"
  "md_decision (decision_of r v rs) = AutoMerge \<longleftrightarrow> rs = [] \<and> \<not> (r = Medium \<and> v)"
  by (simp_all add: decision_of_def)

lemma merge_decision_okE:
  assumes "merge_decision i = Inr d"
  obtains destructive where
    "d = decision_of (input_risk i) (user_visible (mi_policy i) (mi_files i)) (merge_reasons i destructive)"
    "case mi_migration_texts i of None \<Rightarrow> destructive = []
     | Some rd \<Rightarrow> destructive_migrations (mi_policy i) (mi_files i) rd = Inr destructive"
  using assms by (auto simp: merge_decision_def res_simps split: option.splits)

text \<open>
  No project can weaken the engine's own list: whatever a target's policy says, a diff that
  touches one path matching an engine pattern, in any letter case, is classified L3, has high
  computed risk, and is never merged automatically.
\<close>

theorem engine_globs_never_weakened:
  assumes "f \<in> set files" "hits_engine f"
  shows "classify_blast_radius p files = L3 \<and> computed_risk p files n = High \<and>
    (\<forall>i d. mi_policy i = p \<longrightarrow> mi_files i = files \<longrightarrow> merge_decision i = Inr d \<longrightarrow>
       md_decision d = StopBeforeMerge \<and> md_risk d = High)"
proof -
  have s: "sensitive_paths p files \<noteq> []"
    using assms hits_engine_sensitive by auto
  have "md_decision d = StopBeforeMerge \<and> md_risk d = High"
    if "mi_policy i = p" "mi_files i = files" "merge_decision i = Inr d" for i d
  proof -
    have "computed_risk (mi_policy i) (mi_files i) (mi_lines i) = High"
      using s that by (simp add: computed_risk_def)
    then have "input_risk i = High"
      by (simp add: input_risk_def effective_risk_max max_def)
    then show ?thesis
      using that(3) by (auto elim!: merge_decision_okE simp: merge_reasons_Nil_iff)
  qed
  then show ?thesis
    using s by (auto simp: classify_L3_iff computed_risk_High)
qed

definition empty_policy :: target_policy where
  "empty_policy = \<lparr>coverage_package = [], sensitive_globs = [], security_globs = [], invariant_tests = [],
     test_dirs = [], migration_globs = [], frontend_prefixes = [], frontend_gate = [],
     user_visible_prefixes = [], safe_globs = []\<rparr>"

lemma hits_engineI:
  "g \<in> set engine_sensitive_globs \<Longrightarrow> fnmatchcase (casefold f) (casefold g) \<Longrightarrow> hits_engine f"
  by (auto simp: hits_engine_def matches_any_iff)

lemma hits_engine_policy_file: "hits_engine ''.LADDY/Policy.toml''"
proof (rule hits_engineI)
  show "''.laddy/policy.toml'' \<in> set engine_sensitive_globs"
    by (simp add: engine_sensitive_globs_def)
  show "fnmatchcase (casefold ''.LADDY/Policy.toml'') (casefold ''.laddy/policy.toml'')"
    by code_simp
qed

theorem engine_globs_never_weakened_witness:
  "classify_blast_radius empty_policy [''a.md'', ''.LADDY/Policy.toml''] = L3"
  using engine_globs_never_weakened[of "''.LADDY/Policy.toml''" "[''a.md'', ''.LADDY/Policy.toml'']" empty_policy]
    hits_engine_policy_file by simp

text \<open>
  The no-review lane only ever carries inert documents: when a policy that parsed classifies a
  diff as L1, the diff is not empty and every changed path ends in an inert extension, lies outside
  the directory of runnable task specs, and matches neither an engine pattern nor a sensitive or
  security pattern of the target.
\<close>

theorem l1_lane_is_inert:
  assumes "parse_target_policy toml_loads txt = Inr p" "classify_blast_radius p files = L1"
  shows "files \<noteq> [] \<and> (\<forall>f\<in>set files. inert_path f \<and> \<not> prefix (casefold spec_prefix) (casefold f) \<and>
    \<not> hits_engine f \<and> \<not> matches_any f (all_sensitive_globs p) \<and> \<not> matches_any f (security_globs p))"
proof -
  have "list_all inert_glob (all_safe_globs p)"
    using assms(1) by (rule parse_target_policy_safe)
  then show ?thesis
    using assms(2) safe_by_construction_inert[of p] hits_engine_sensitive[of _ p]
    by (auto simp: classify_L1_iff list_all_iff)
qed

definition demo_entry :: entry where
  "demo_entry = [(''coverage_package'', JStr ''app''), (''sensitive_globs'', JArr [JStr ''app/models.py'']),
     (''security_globs'', JArr []), (''invariant_tests'', JArr []), (''test_dirs'', JArr []),
     (''migration_globs'', JArr []), (''frontend_prefixes'', JArr []), (''frontend_gate'', JStr []),
     (''user_visible_prefixes'', JArr []), (''safe_globs'', JArr [JStr ''i18n/*.json''])]"

definition demo_policy :: target_policy where
  "demo_policy = empty_policy\<lparr>coverage_package := ''app'', sensitive_globs := [''app/models.py''],
     safe_globs := [''i18n/*.json'']\<rparr>"

theorem l1_lane_is_inert_witness:
  "inert_path ''i18n/cs.json'' \<and> \<not> hits_engine ''i18n/cs.json''"
proof -
  have "parse_target_policy (\<lambda>_. Some demo_entry) [] = Inr demo_policy"
    by code_simp
  moreover have "classify_blast_radius demo_policy [''i18n/cs.json''] = L1"
    by code_simp
  ultimately show ?thesis
    using l1_lane_is_inert[of "\<lambda>_. Some demo_entry" "[]" demo_policy "[''i18n/cs.json'']"] by simp
qed

text \<open>
  C1: A branch merges without a human exactly when all three gates hold on the head commit itself
  (reviewer 1 approved, reviewer 2 said go, the authoritative run passed and was not flaky), no
  changed path is sensitive or security-critical, no test file was deleted, no migration is
  destructive, there is no deadlock or unclear intent, and the effective risk is not high; the risk
  reported is the larger of the declared and the computed one.
\<close>

theorem merge_decision_auto_iff:
  assumes "merge_decision i = Inr d"
  shows "(md_decision d \<noteq> StopBeforeMerge \<longleftrightarrow>
     (rw1_approved (mi_gates i) \<and> rw1_sha (mi_gates i) = Some (head_sha (mi_gates i))
      \<and> rw2_go (mi_gates i) \<and> rw2_sha (mi_gates i) = Some (head_sha (mi_gates i))
      \<and> authoritative_passed (mi_gates i) \<and> authoritative_sha (mi_gates i) = Some (head_sha (mi_gates i))
      \<and> \<not> authoritative_flaky (mi_gates i)
      \<and> (\<forall>f\<in>set (mi_files i). \<not> matches_any f (all_sensitive_globs (mi_policy i))
                                 \<and> \<not> matches_any f (security_globs (mi_policy i)))
      \<and> (\<forall>st. mi_statuses i = Some st \<longrightarrow> deleted_test_files (mi_policy i) st = [])
      \<and> (\<forall>rd. mi_migration_texts i = Some rd \<longrightarrow>
            destructive_migrations (mi_policy i) (mi_files i) rd = Inr [])
      \<and> \<not> mi_deadlock i \<and> \<not> mi_unclear i \<and> md_risk d \<noteq> High))
   \<and> md_risk d = max (normalize_risk (mi_declared i))
       (computed_risk (mi_policy i) (mi_files i) (mi_lines i))"
  using assms
proof (rule merge_decision_okE)
  fix destructive
  assume d: "d = decision_of (input_risk i) (user_visible (mi_policy i) (mi_files i))
      (merge_reasons i destructive)"
    and m: "case mi_migration_texts i of None \<Rightarrow> destructive = []
     | Some rd \<Rightarrow> destructive_migrations (mi_policy i) (mi_files i) rd = Inr destructive"
  have "destructive = [] \<longleftrightarrow> (\<forall>rd. mi_migration_texts i = Some rd \<longrightarrow>
            destructive_migrations (mi_policy i) (mi_files i) rd = Inr [])"
    using m by (auto split: option.splits)
  then show ?thesis
    unfolding d by (auto simp: merge_reasons_Nil_iff gate_reasons_def input_risk_def effective_risk_max)
qed

definition green_gates :: gate_states where
  "green_gates = \<lparr>head_sha = ''a1'', rw1_sha = Some ''a1'', rw1_approved = True, rw2_sha = Some ''a1'',
     rw2_go = True, authoritative_sha = Some ''a1'', authoritative_passed = True,
     authoritative_flaky = False\<rparr>"

definition demo_inputs :: merge_inputs where
  "demo_inputs = \<lparr>mi_policy = demo_policy, mi_files = [''app/x.py''], mi_lines = 10, mi_declared = Some ''Low '',
     mi_gates = green_gates, mi_statuses = Some [(''app/x.py'', ''M'')],
     mi_migration_texts = Some (\<lambda>_. Inl OSError), mi_deadlock = False, mi_unclear = False\<rparr>"

lemma demo_inputs_auto:
  "merge_decision demo_inputs = Inr \<lparr>md_decision = AutoMerge, md_risk = Low, md_reasons = []\<rparr>"
  by code_simp

theorem merge_decision_auto_iff_witness:
  "rw1_sha green_gates = Some (head_sha green_gates) \<and> deleted_test_files demo_policy [(''app/x.py'', ''M'')] = []"
  using merge_decision_auto_iff[OF demo_inputs_auto] by (simp add: demo_inputs_def)

lemma normalize_risk_unknown:
  "lower (strip s) \<notin> {[], ''low'', ''medium''} \<Longrightarrow> normalize_risk (Some s) = High"
  by (simp add: normalize_risk_def Let_def)

text \<open>
  A declared risk can only raise the bar: the effective risk is at least the computed one, it is
  high as soon as either side is, an unknown declared level counts as high, and only an absent or
  blank declaration counts as low.
\<close>

theorem effective_risk_bounds:
  "c \<le> effective_risk d (Some (risk_text c)) \<and> normalize_risk d \<le> effective_risk d (Some (risk_text c))
   \<and> (effective_risk d (Some (risk_text c)) = High \<longleftrightarrow> c = High \<or> normalize_risk d = High)
   \<and> (normalize_risk d = Low \<longleftrightarrow> d = None \<or> (\<exists>s. d = Some s \<and> lower (strip s) \<in> {[], ''low''}))
   \<and> (normalize_risk d = Medium \<longleftrightarrow> (\<exists>s. d = Some s \<and> lower (strip s) = ''medium''))"
proof -
  have "max (normalize_risk d) c = High \<longleftrightarrow> c = High \<or> normalize_risk d = High"
    by (cases "normalize_risk d"; cases c) (simp_all add: max_def risk_less)
  moreover have "normalize_risk d = Low \<longleftrightarrow> d = None \<or> (\<exists>s. d = Some s \<and> lower (strip s) \<in> {[], ''low''})"
    by (cases d) (auto simp: normalize_risk_def Let_def)
  moreover have "normalize_risk d = Medium \<longleftrightarrow> (\<exists>s. d = Some s \<and> lower (strip s) = ''medium'')"
    by (cases d) (auto simp: normalize_risk_def Let_def)
  ultimately show ?thesis
    unfolding effective_risk_max by simp
qed

subsection \<open>More files never loosen a decision\<close>

lemma destructive_migrations_mono:
  "destructive_migrations p gs rd = Inr [] \<Longrightarrow> set fs \<subseteq> set gs \<Longrightarrow>
   destructive_migrations p fs rd = Inr []"
proof -
  have each: "destructive_migrations p gs rd = Inr [] \<longleftrightarrow>
      (\<forall>f\<in>set gs. destructive_migrations p [f] rd = Inr [])" for gs
    by (induction gs) (auto simp: res_simps split: sum.splits if_split_asm)
  show "destructive_migrations p gs rd = Inr [] \<Longrightarrow> set fs \<subseteq> set gs \<Longrightarrow> ?thesis"
    unfolding each[of gs] each[of fs] by blast
qed

lemma computed_risk_mono:
  "set fs \<subseteq> set gs \<Longrightarrow> length fs \<le> length gs \<Longrightarrow> m \<le> n \<Longrightarrow> computed_risk p fs m \<le> computed_risk p gs n"
  by (auto simp: computed_risk_def risk_less)

text \<open>
  More changes never loosen a decision: if a larger diff (a superset of the files, at least as
  many of them and at least as many lines) would be merged automatically, then so would the smaller
  one with the same gates and flags.
\<close>

theorem merge_decision_monotone:
  assumes "merge_decision j = Inr e" "md_decision e \<noteq> StopBeforeMerge"
    and "set (mi_files i) \<subseteq> set (mi_files j)" "length (mi_files i) \<le> length (mi_files j)"
    and "mi_lines i \<le> mi_lines j"
    and "j = i\<lparr>mi_files := mi_files j, mi_lines := mi_lines j\<rparr>"
  shows "\<exists>d. merge_decision i = Inr d \<and> md_decision d \<noteq> StopBeforeMerge \<and> md_risk d \<le> md_risk e"
proof -
  have same: "mi_policy j = mi_policy i" "mi_gates j = mi_gates i" "mi_statuses j = mi_statuses i"
    "mi_migration_texts j = mi_migration_texts i" "mi_deadlock j = mi_deadlock i"
    "mi_unclear j = mi_unclear i" "mi_declared j = mi_declared i"
    by (subst assms(6), simp)+
  obtain ds where e: "e = decision_of (input_risk j) (user_visible (mi_policy j) (mi_files j)) (merge_reasons j ds)"
    and ds: "case mi_migration_texts j of None \<Rightarrow> ds = []
      | Some rd \<Rightarrow> destructive_migrations (mi_policy j) (mi_files j) rd = Inr ds"
    by (rule merge_decision_okE[OF assms(1)])
  have jd: "merge_reasons j [] = []" "md_risk e = input_risk j" and "ds = []"
    using assms(2) e by (auto simp: merge_reasons_Nil_iff)
  then have mig: "\<And>rd. mi_migration_texts i = Some rd \<Longrightarrow>
        destructive_migrations (mi_policy i) (mi_files j) rd = Inr []"
    using ds same by auto
  have risk: "input_risk i \<le> input_risk j"
    using computed_risk_mono[OF assms(3-5), of "mi_policy i"]
    unfolding input_risk_def effective_risk_max same by (simp add: max.coboundedI2)
  have "(case mi_migration_texts i of None \<Rightarrow> Inr []
            | Some rd \<Rightarrow> destructive_migrations (mi_policy i) (mi_files i) rd) = Inr []"
    using mig destructive_migrations_mono[OF _ assms(3)] by (auto split: option.split)
  then have d: "merge_decision i = Inr (decision_of (input_risk i)
      (user_visible (mi_policy i) (mi_files i)) (merge_reasons i []))"
    by (simp add: merge_decision_def)
  have "input_risk i \<noteq> High"
    using jd(1) risk by (auto simp: merge_reasons_Nil_iff)
  then have "merge_reasons i [] = []"
    using jd(1) assms(3) same by (auto simp: merge_reasons_Nil_iff)
  then show ?thesis
    using d risk jd(2) by auto
qed

theorem merge_decision_monotone_witness:
  "\<exists>d. merge_decision (demo_inputs\<lparr>mi_files := []\<rparr>) = Inr d \<and> md_decision d \<noteq> StopBeforeMerge \<and> md_risk d \<le> Low"
  using merge_decision_monotone[OF demo_inputs_auto, of "demo_inputs\<lparr>mi_files := []\<rparr>"]
  by (simp add: demo_inputs_def)

text \<open>
  A report-only task never lands anything runnable: when its decision is to merge, every changed
  path is either in the task's own artifact directory or a markdown spec, and every changed spec
  file was read, parsed, and is a draft, or is the task's own spec and still report-only.
\<close>

theorem report_only_merges_only_drafts:
  assumes "nondraft_report_specs task files read_text = Inr nd"
    and "md_decision (report_only_decision task files confirmed nd) \<noteq> StopBeforeMerge"
  shows "confirmed \<and> (\<forall>f\<in>set files.
     (prefix (''.laddy/tasks/'' @ task @ ''/'') f \<or> (prefix spec_prefix f \<and> suffix ''.md'' f)) \<and>
     (prefix spec_prefix f \<and> suffix ''.md'' f \<longrightarrow> certified_spec task f read_text))"
proof -
  have "fst (path_guard task files)" "nd = []" "confirmed"
    using assms(2) by (auto simp: report_only_decision_def split_beta Let_def split: if_split_asm)
  then show ?thesis
    using nondraft_report_specs_ok assms(1) by (auto simp: path_guard_ok_iff)
qed

definition draft_text :: string where
  "draft_text = ''---'' @ [CHR 0x0A] @ ''status: draft-proposal'' @ [CHR 0x0A] @ ''---''"

theorem report_only_merges_only_drafts_witness:
  "certified_spec ''t1'' ''.laddy/specs/fix.md'' (\<lambda>_. Inr draft_text)"
proof -
  have "nondraft_report_specs ''t1'' [''.laddy/specs/fix.md''] (\<lambda>_. Inr draft_text) = Inr []"
    and "md_decision (report_only_decision ''t1'' [''.laddy/specs/fix.md''] True []) = AutoMerge"
    by code_simp+
  then show ?thesis
    using report_only_merges_only_drafts[of "''t1''" "[''.laddy/specs/fix.md'']" "\<lambda>_. Inr draft_text" "[]" True]
    by (simp add: spec_prefix_def suffix_def)
qed

end
