(* ===== verification/Prog.thy ===== *)
theory Prog
  imports Prelude
begin

text \<open>
  Code with effects: a program maps a state to an exception or a value, and the state it leaves
  behind, also when it raises. \<open>catchP\<close> is \<open>try\<close>/\<open>except\<close>. \<open>validP P m Q E\<close> says that from a state
  with \<open>P\<close>, \<open>m\<close> returns with \<open>Q\<close> or raises with \<open>E\<close>.
\<close>

type_synonym ('s, 'a) prog = "'s \<Rightarrow> (exn + 'a) \<times> 's"

definition retP :: "'a \<Rightarrow> ('s, 'a) prog" where
  "retP a s = (Inr a, s)"

definition throwP :: "exn \<Rightarrow> ('s, 'a) prog" where
  "throwP e s = (Inl e, s)"

definition liftP :: "exn + 'a \<Rightarrow> ('s, 'a) prog" where
  "liftP r s = (r, s)"

definition getP :: "('s \<Rightarrow> 'a) \<Rightarrow> ('s, 'a) prog" where
  "getP f s = (Inr (f s), s)"

definition modifyP :: "('s \<Rightarrow> 's) \<Rightarrow> ('s, unit) prog" where
  "modifyP f s = (Inr (), f s)"

definition bindP :: "('s, 'a) prog \<Rightarrow> ('a \<Rightarrow> ('s, 'b) prog) \<Rightarrow> ('s, 'b) prog" where
  "bindP m f s = (case m s of (Inl e, t) \<Rightarrow> (Inl e, t) | (Inr a, t) \<Rightarrow> f a t)"

definition thenP :: "('s, 'a) prog \<Rightarrow> ('s, 'b) prog \<Rightarrow> ('s, 'b) prog" where
  "thenP m k = bindP m (\<lambda>_. k)"

definition whenP :: "bool \<Rightarrow> ('s, unit) prog \<Rightarrow> ('s, unit) prog" where
  "whenP b m = (if b then m else retP ())"

definition catchP :: "('s, 'a) prog \<Rightarrow> (exn \<Rightarrow> ('s, 'a) prog) \<Rightarrow> ('s, 'a) prog" where
  "catchP m h s = (case m s of (Inl e, t) \<Rightarrow> h e t | (Inr a, t) \<Rightarrow> (Inr a, t))"

text \<open>Run \<open>m\<close>, swallow any exception.\<close>

definition guardP :: "('s, unit) prog \<Rightarrow> ('s, unit) prog" where
  "guardP m = catchP m (\<lambda>_. retP ())"

named_theorems prog_defs

lemmas [prog_defs] = retP_def throwP_def liftP_def getP_def modifyP_def

lemma bindP_cong [fundef_cong]:
  "m s = m' s \<Longrightarrow> (\<And>a t. m' s = (Inr a, t) \<Longrightarrow> f a t = f' a t) \<Longrightarrow> bindP m f s = bindP m' f' s"
  by (auto simp: bindP_def split: prod.split sum.split)

lemma bindP_Inr_iff:
  "bindP m f s = (Inr b, u) \<longleftrightarrow> (\<exists>a t. m s = (Inr a, t) \<and> f a t = (Inr b, u))"
  by (auto simp: bindP_def split: prod.splits sum.splits)

lemma bindP_Inl_iff:
  "bindP m f s = (Inl e, u) \<longleftrightarrow>
     m s = (Inl e, u) \<or> (\<exists>a t. m s = (Inr a, t) \<and> f a t = (Inl e, u))"
  by (auto simp: bindP_def split: prod.splits sum.splits)

definition validP ::
  "('s \<Rightarrow> bool) \<Rightarrow> ('s, 'a) prog \<Rightarrow> ('a \<Rightarrow> 's \<Rightarrow> bool) \<Rightarrow> (exn \<Rightarrow> 's \<Rightarrow> bool) \<Rightarrow> bool" where
  "validP P m Q E = (\<forall>s. P s \<longrightarrow> (case m s of (Inl e, t) \<Rightarrow> E e t | (Inr a, t) \<Rightarrow> Q a t))"

lemma validPI:
  "(\<And>s e t. P s \<Longrightarrow> m s = (Inl e, t) \<Longrightarrow> E e t) \<Longrightarrow>
   (\<And>s a t. P s \<Longrightarrow> m s = (Inr a, t) \<Longrightarrow> Q a t) \<Longrightarrow> validP P m Q E"
  by (auto simp: validP_def split: prod.split sum.split)

lemma validP_Inr: "validP P m Q E \<Longrightarrow> P s \<Longrightarrow> m s = (Inr a, t) \<Longrightarrow> Q a t"
  by (auto simp: validP_def split: prod.splits sum.splits)

lemma validP_Inl: "validP P m Q E \<Longrightarrow> P s \<Longrightarrow> m s = (Inl e, t) \<Longrightarrow> E e t"
  by (auto simp: validP_def split: prod.splits sum.splits)

text \<open>
  The rules are stated for a backwards reading: a program is decomposed from its result.
\<close>

named_theorems vp \<open>decomposition rules for validP\<close>

lemma validP_weaken:
  "validP P m Q E \<Longrightarrow> (\<And>s. P' s \<Longrightarrow> P s) \<Longrightarrow> (\<And>a s. Q a s \<Longrightarrow> Q' a s) \<Longrightarrow>
   (\<And>e s. E e s \<Longrightarrow> E' e s) \<Longrightarrow> validP P' m Q' E'"
  unfolding validP_def by (fastforce split: prod.splits sum.splits)

lemma validP_ret [vp]: "(\<And>s. P s \<Longrightarrow> Q a s) \<Longrightarrow> validP P (retP a) Q E"
  by (simp add: validP_def retP_def)

lemma validP_throw [vp]: "(\<And>s. P s \<Longrightarrow> E e s) \<Longrightarrow> validP P (throwP e) Q E"
  by (simp add: validP_def throwP_def)

lemma validP_get [vp]: "(\<And>s. P s \<Longrightarrow> Q (f s) s) \<Longrightarrow> validP P (getP f) Q E"
  by (simp add: validP_def getP_def)

lemma validP_modify [vp]: "(\<And>s. P s \<Longrightarrow> Q () (f s)) \<Longrightarrow> validP P (modifyP f) Q E"
  by (simp add: validP_def modifyP_def)

lemma validP_lift [vp]:
  "(\<And>s a. P s \<Longrightarrow> r = Inr a \<Longrightarrow> Q a s) \<Longrightarrow> (\<And>s e. P s \<Longrightarrow> r = Inl e \<Longrightarrow> E e s) \<Longrightarrow>
   validP P (liftP r) Q E"
  by (auto simp: validP_def liftP_def split: sum.split)

lemma validP_bind [vp]:
  "validP P m R E \<Longrightarrow> (\<And>a. validP (R a) (f a) Q E) \<Longrightarrow> validP P (bindP m f) Q E"
  by (fastforce simp: validP_def bindP_def split: prod.splits sum.splits)

lemma validP_then [vp]:
  "validP P m (\<lambda>_. R) E \<Longrightarrow> validP R k Q E \<Longrightarrow> validP P (thenP m k) Q E"
  unfolding thenP_def by (rule validP_bind)

lemma validP_catch [vp]:
  "validP P m Q R \<Longrightarrow> (\<And>e. validP (R e) (h e) Q E) \<Longrightarrow> validP P (catchP m h) Q E"
  by (fastforce simp: validP_def catchP_def split: prod.splits sum.splits)

lemma validP_guard [vp]:
  "validP P m (\<lambda>_. Q) (\<lambda>_. Q) \<Longrightarrow> validP P (guardP m) (\<lambda>_. Q) E"
  unfolding guardP_def by (rule validP_catch, assumption, rule validP_ret)

lemma validP_if [vp]:
  "(b \<Longrightarrow> validP P m Q E) \<Longrightarrow> (\<not> b \<Longrightarrow> validP P n Q E) \<Longrightarrow> validP P (if b then m else n) Q E"
  by simp

lemma validP_when [vp]:
  "(b \<Longrightarrow> validP P m (\<lambda>_. Q) E) \<Longrightarrow> (\<And>s. \<not> b \<Longrightarrow> P s \<Longrightarrow> Q s) \<Longrightarrow> validP P (whenP b m) (\<lambda>_. Q) E"
  by (auto simp: whenP_def intro: validP_ret)

lemma validP_option [vp]:
  "(x = None \<Longrightarrow> validP P m Q E) \<Longrightarrow> (\<And>a. x = Some a \<Longrightarrow> validP P (f a) Q E) \<Longrightarrow>
   validP P (case x of None \<Rightarrow> m | Some a \<Rightarrow> f a) Q E"
  by (cases x) auto

lemma validP_sum [vp]:
  "(\<And>e. x = Inl e \<Longrightarrow> validP P (g e) Q E) \<Longrightarrow> (\<And>a. x = Inr a \<Longrightarrow> validP P (f a) Q E) \<Longrightarrow>
   validP P (case x of Inl e \<Rightarrow> g e | Inr a \<Rightarrow> f a) Q E"
  by (cases x) auto

lemma validP_prod [vp]:
  "(\<And>a b. x = (a, b) \<Longrightarrow> validP P (f a b) Q E) \<Longrightarrow> validP P (case x of (a, b) \<Rightarrow> f a b) Q E"
  by (cases x) auto

lemma validP_let [vp]:
  "validP P (f x) Q E \<Longrightarrow> validP P (let y = x in f y) Q E"
  by simp

text \<open>An invariant: kept whether the program returns or raises.\<close>

abbreviation keepsP :: "('s \<Rightarrow> bool) \<Rightarrow> ('s, 'a) prog \<Rightarrow> bool" where
  "keepsP I m \<equiv> validP I m (\<lambda>_. I) (\<lambda>_. I)"

lemma keepsP_result: "keepsP I m \<Longrightarrow> I s \<Longrightarrow> m s = (r, t) \<Longrightarrow> I t"
  by (cases r) (auto dest: validP_Inl validP_Inr)

end
