(* ===== verification/Verdict.thy ===== *)
theory Verdict
  imports Json
begin

text \<open>
  Model of \<open>src/orchestrator/verdict.py\<close>: finding the payload object in an agent's output, the typed
  validation of a verdict, and the consistency rules of code reviews. The JSON decoder is the
  argument \<open>J\<close>. A message carries the code's text up to the quoted offending value.
\<close>

definition verdict_values :: "string list" where
  "verdict_values = [''APPROVED'', ''CHANGES_REQUESTED'']"

definition risk_levels :: "string list" where
  "risk_levels = [''low'', ''medium'', ''high'']"

definition severities :: "string list" where
  "severities = [''blocker'', ''advisory'']"

definition categories :: "string list" where
  "categories = [''correctness'', ''invariant'', ''security'', ''migration'', ''test-adequacy'', ''quality'']"

record finding =
  fi_severity :: string
  fi_category :: string
  fi_file :: string
  fi_line :: int
  fi_summary :: string
  fi_scenario :: string

record claim_verified =
  cv_claim :: string
  cv_evidence :: string
  cv_verified :: bool

record verdict =
  v_verdict :: string
  v_risk_level :: string
  v_files_reviewed :: "string list"
  v_claims :: "claim_verified list"
  v_findings :: "finding list"
  v_test_assessment :: string
  v_residual_risks :: "string list"

definition approved :: "verdict \<Rightarrow> bool" where
  "approved v = (v_verdict v = ''APPROVED'')"

definition blockers :: "verdict \<Rightarrow> finding list" where
  "blockers v = filter (\<lambda>f. fi_severity f = ''blocker'') (v_findings v)"

section \<open>The last object of a text\<close>

text \<open>The walk of \<open>_last_json_object\<close>; \<open>cur\<close> is the last success so far.\<close>

function last_object_from :: "json_lib \<Rightarrow> string option \<Rightarrow> string \<Rightarrow> string option" where
  "last_object_from J cur [] = cur"
| "last_object_from J cur (c # cs) =
     (if c = CHR ''{'' then
        (case object_span J (c # cs) of
           None \<Rightarrow> last_object_from J cur cs
         | Some n \<Rightarrow> last_object_from J (Some (c # take n cs)) (drop n cs))
      else last_object_from J cur cs)"
  by pat_completeness auto
termination
  by (relation "measure (\<lambda>(J, cur, s). length s)") auto

definition last_json_object :: "json_lib \<Rightarrow> string \<Rightarrow> string option" where
  "last_json_object J s = last_object_from J None s"

definition extract_json :: "json_lib \<Rightarrow> string \<Rightarrow> exn + string" where
  "extract_json J s =
     (case last_json_object J s of
        None \<Rightarrow> Inl (VerdictError ''no JSON object found in reviewer output'')
      | Some obj \<Rightarrow> Inr obj)"

section \<open>Typed validation\<close>

datatype pykind = KStr | KInt | KBool | KList

primrec kind_name :: "pykind \<Rightarrow> string" where
  "kind_name KStr = ''str''"
| "kind_name KInt = ''int''"
| "kind_name KBool = ''bool''"
| "kind_name KList = ''list''"

text \<open>\<open>isinstance\<close>; a boolean is also an \<open>int\<close>.\<close>

fun has_kind :: "pykind \<Rightarrow> json \<Rightarrow> bool" where
  "has_kind KStr (JStr s) = True"
| "has_kind KInt (JInt i) = True"
| "has_kind KInt (JBool b) = True"
| "has_kind KBool (JBool b) = True"
| "has_kind KList (JArr xs) = True"
| "has_kind k v = False"

definition require :: "entry \<Rightarrow> string \<Rightarrow> pykind \<Rightarrow> exn + json" where
  "require obj key k =
     (case map_of obj key of
        None \<Rightarrow> Inl (VerdictError (''missing required key: '' @ key))
      | Some v \<Rightarrow>
          if \<not> has_kind k v then Inl (VerdictError (key @ '' must be '' @ kind_name k))
          else Inr v)"

definition the_str :: "json \<Rightarrow> string" where
  "the_str v = (case v of JStr s \<Rightarrow> s | _ \<Rightarrow> [])"

definition the_list :: "json \<Rightarrow> json list" where
  "the_list v = (case v of JArr xs \<Rightarrow> xs | _ \<Rightarrow> [])"

definition the_int :: "json \<Rightarrow> int" where
  "the_int v = (case v of JInt i \<Rightarrow> i | JBool b \<Rightarrow> (if b then 1 else 0) | _ \<Rightarrow> 0)"

definition the_bool :: "json \<Rightarrow> bool" where
  "the_bool v = (case v of JBool b \<Rightarrow> b | _ \<Rightarrow> False)"

definition require_str :: "entry \<Rightarrow> string \<Rightarrow> exn + string" where
  "require_str obj key = bindR (require obj key KStr) (\<lambda>v. Inr (the_str v))"

definition require_enum :: "entry \<Rightarrow> string \<Rightarrow> string list \<Rightarrow> exn + string" where
  "require_enum obj key allowed =
     bindR (require_str obj key) (\<lambda>s.
       if s \<notin> set allowed then Inl (VerdictError (key @ '' must be one of the allowed values''))
       else Inr s)"

definition str_list :: "entry \<Rightarrow> string \<Rightarrow> exn + string list" where
  "str_list obj key =
     bindR (require obj key KList) (\<lambda>v.
       mapR (\<lambda>x. case as_str x of Some s \<Rightarrow> Inr s
               | None \<Rightarrow> Inl (VerdictError (key @ '' must be a list of strings''))) (the_list v))"

definition parse_claim :: "json \<Rightarrow> exn + claim_verified" where
  "parse_claim raw =
     (case raw of
        JObj q \<Rightarrow>
          bindR (require_str q ''claim'') (\<lambda>c.
          bindR (require_str q ''evidence'') (\<lambda>e.
          bindR (require q ''verified'' KBool) (\<lambda>b.
            Inr \<lparr>cv_claim = c, cv_evidence = e, cv_verified = the_bool b\<rparr>)))
      | _ \<Rightarrow> Inl (VerdictError ''claims_verified must be an object''))"

definition parse_finding :: "json \<Rightarrow> exn + finding" where
  "parse_finding raw =
     (case raw of
        JObj q \<Rightarrow>
          bindR (require_enum q ''severity'' severities) (\<lambda>sev.
          bindR (require_enum q ''category'' categories) (\<lambda>cat.
          bindR (require_str q ''file'') (\<lambda>file.
          bindR (require q ''line'' KInt) (\<lambda>line.
          bindR (require_str q ''summary'') (\<lambda>summ.
          bindR (require_str q ''failure_scenario'') (\<lambda>scen.
            if sev = ''advisory'' \<and> strip scen \<noteq> []
              then Inl (VerdictError ''advisory findings must have an empty failure_scenario'')
            else if sev = ''blocker'' \<and> strip scen = []
              then Inl (VerdictError ''blocker findings must name a concrete failure_scenario'')
            else Inr \<lparr>fi_severity = sev, fi_category = cat, fi_file = file, fi_line = the_int line,
                   fi_summary = summ, fi_scenario = scen\<rparr>))))))
      | _ \<Rightarrow> Inl (VerdictError ''findings must be an object''))"

definition verdict_of_entry :: "entry \<Rightarrow> exn + verdict" where
  "verdict_of_entry p =
     bindR (require_enum p ''verdict'' verdict_values) (\<lambda>vv.
     bindR (require_enum p ''risk_level'' risk_levels) (\<lambda>rl.
     bindR (str_list p ''files_reviewed'') (\<lambda>fr.
     bindR (require p ''claims_verified'' KList) (\<lambda>cl.
     bindR (mapR parse_claim (the_list cl)) (\<lambda>claims.
     bindR (require p ''findings'' KList) (\<lambda>fl.
     bindR (mapR parse_finding (the_list fl)) (\<lambda>fs.
     bindR (require_str p ''test_assessment'') (\<lambda>ta.
     bindR (str_list p ''residual_risks'') (\<lambda>rr.
       Inr \<lparr>v_verdict = vv, v_risk_level = rl, v_files_reviewed = fr, v_claims = claims,
            v_findings = fs, v_test_assessment = ta, v_residual_risks = rr\<rparr>)))))))))"

definition parse_verdict :: "json_lib \<Rightarrow> string \<Rightarrow> exn + verdict" where
  "parse_verdict J s =
     bindR (extract_json J s) (\<lambda>obj.
       case loads J obj of
         None \<Rightarrow> Inl (VerdictError ''verdict is not valid JSON'')
       | Some (JObj p) \<Rightarrow> verdict_of_entry p
       | Some _ \<Rightarrow> Inl (VerdictError ''verdict must be a JSON object''))"

definition validate_review :: "verdict \<Rightarrow> exn + unit" where
  "validate_review v =
     (if approved v \<and> blockers v \<noteq> []
        then Inl (VerdictError ''verdict APPROVED is inconsistent with blocker findings'')
      else if \<not> approved v \<and> blockers v = []
        then Inl (VerdictError ''verdict CHANGES_REQUESTED requires at least one blocker finding'')
      else Inr ())"

definition validate_rw2 :: "verdict \<Rightarrow> exn + unit" where
  "validate_rw2 v =
     bindR (validate_review v) (\<lambda>_.
       if list_ex (\<lambda>f. fi_category f = ''quality'') (blockers v)
       then Inl (VerdictError ''rw2 must not emit blocker findings with category quality'')
       else Inr ())"

section \<open>Facts\<close>

text \<open>No opening brace of the text starts an object the decoder accepts.\<close>

definition no_object :: "json_lib \<Rightarrow> string \<Rightarrow> bool" where
  "no_object J s = (\<forall>a b. s = a @ CHR ''{'' # b \<longrightarrow> object_span J (CHR ''{'' # b) = None)"

lemma no_object_Nil [simp]: "no_object J []"
  by (simp add: no_object_def)

lemma no_object_Cons:
  "no_object J (c # cs) \<longleftrightarrow> (c = CHR ''{'' \<longrightarrow> object_span J (c # cs) = None) \<and> no_object J cs"
  by (auto simp: no_object_def Cons_eq_append_conv)

lemma last_object_from_None: "no_object J s \<Longrightarrow> last_object_from J cur s = cur"
  by (induction J cur s rule: last_object_from.induct) (auto simp: no_object_Cons split: option.splits)

lemma last_object_from_spec:
  "last_object_from J cur s = r \<Longrightarrow> r \<noteq> cur \<or> \<not> no_object J s \<Longrightarrow>
   \<exists>pre n cs. s = pre @ CHR ''{'' # cs \<and> object_span J (CHR ''{'' # cs) = Some n
     \<and> r = Some (CHR ''{'' # take n cs) \<and> no_object J (drop n cs)"
proof (induction J cur s arbitrary: r rule: last_object_from.induct)
  case (2 J cur c cs)
  show ?case
  proof (cases "c = CHR ''{'' \<and> object_span J (c # cs) \<noteq> None")
    case True
    then obtain n where n: "c = CHR ''{''" "object_span J (c # cs) = Some n"
      by auto
    show ?thesis
    proof (cases "no_object J (drop n cs)")
      case no: True
      then have "r = Some (c # take n cs)"
        using 2(4) n last_object_from_None[OF no] by simp
      then show ?thesis
        using n no by (intro exI[of _ "[]"] exI[of _ n] exI[of _ cs]) simp
    next
      case False
      then obtain pre m ds where "drop n cs = pre @ CHR ''{'' # ds"
        "object_span J (CHR ''{'' # ds) = Some m" "r = Some (CHR ''{'' # take m ds)"
        "no_object J (drop m ds)"
        using 2(2)[OF n(1,2) _] 2(4) n by fastforce
      moreover have "c # cs = (c # take n cs) @ drop n cs"
        by simp
      ultimately show ?thesis
        by (metis append.assoc)
    qed
  next
    case False
    then have "last_object_from J cur cs = r" "no_object J (c # cs) \<longleftrightarrow> no_object J cs"
      using 2(4) by (auto simp: no_object_Cons split: option.splits if_splits)
    then obtain pre n ds where "cs = pre @ CHR ''{'' # ds" "object_span J (CHR ''{'' # ds) = Some n"
      "r = Some (CHR ''{'' # take n ds)" "no_object J (drop n ds)"
      using 2 False by (cases "c = CHR ''{''") fastforce+
    then show ?thesis
      by (metis append_Cons)
  qed
qed simp

lemma require_Inr: "require p k kd = Inr v \<Longrightarrow> map_of p k = Some v \<and> has_kind kd v"
  by (auto simp: require_def split: option.splits if_splits)

lemma require_enum_Inr: "require_enum p k al = Inr s \<Longrightarrow> s \<in> set al"
  by (auto simp: require_enum_def res_simps split: if_splits)

definition finding_ok :: "finding \<Rightarrow> bool" where
  "finding_ok f = (fi_severity f \<in> set severities \<and> fi_category f \<in> set categories
     \<and> (fi_severity f = ''blocker'' \<longleftrightarrow> strip (fi_scenario f) \<noteq> []))"

lemma parse_finding_ok: "parse_finding raw = Inr f \<Longrightarrow> finding_ok f"
  by (auto simp: parse_finding_def finding_ok_def res_simps severities_def split: json.splits if_splits
      dest!: require_enum_Inr)

lemma parse_findings_ok: "mapR parse_finding xs = Inr fs \<Longrightarrow> \<forall>f\<in>set fs. finding_ok f"
  using mapR_Inr_mem parse_finding_ok by fastforce

lemma verdict_of_entry_ok:
  "verdict_of_entry p = Inr v \<Longrightarrow>
     v_verdict v \<in> set verdict_values \<and> v_risk_level v \<in> set risk_levels
     \<and> (\<forall>f\<in>set (v_findings v). finding_ok f)"
  by (auto simp: verdict_of_entry_def res_simps dest!: require_enum_Inr parse_findings_ok)

lemma parse_verdict_okE:
  assumes "parse_verdict J s = Inr v"
  obtains obj p where "last_json_object J s = Some obj" "loads J obj = Some (JObj p)"
    "verdict_of_entry p = Inr v"
  using assms by (auto simp: parse_verdict_def extract_json_def res_simps
      split: option.splits json.splits)

lemma extract_json_only_verdict_error: "extract_json J s = Inl e \<Longrightarrow> \<exists>m. e = VerdictError m"
  by (auto simp: extract_json_def split: option.splits)

lemma validate_review_Inr: "validate_review v = Inr u \<longleftrightarrow> (approved v \<longleftrightarrow> blockers v = [])"
  by (auto simp: validate_review_def)

lemma validate_rw2_Inr:
  "validate_rw2 v = Inr u \<longleftrightarrow>
     (approved v \<longleftrightarrow> blockers v = []) \<and> (\<forall>f\<in>set (blockers v). fi_category f \<noteq> ''quality'')"
  by (auto simp: validate_rw2_def res_simps validate_review_Inr list_ex_iff)

text \<open>
  A planted verdict cannot win: whatever a verdict is parsed from is the last object of the
  output. The text splits into what precedes it, the object itself (which starts at a brace and is
  exactly what the decoder consumed there), and a rest in which no brace starts an object.
\<close>

theorem parsed_verdict_is_last_object:
  assumes "parse_verdict J s = Inr v"
  shows "\<exists>pre n cs p. s = pre @ CHR ''{'' # cs \<and> object_span J (CHR ''{'' # cs) = Some n
     \<and> no_object J (drop n cs) \<and> loads J (CHR ''{'' # take n cs) = Some (JObj p)
     \<and> verdict_of_entry p = Inr v"
  using assms
proof (rule parse_verdict_okE)
  fix obj p
  assume "last_json_object J s = Some obj" "loads J obj = Some (JObj p)" "verdict_of_entry p = Inr v"
  then show ?thesis
    using last_object_from_spec[of J None s "Some obj"] by (fastforce simp: last_json_object_def)
qed

definition demo_verdict_entry :: entry where
  "demo_verdict_entry = [(''verdict'', JStr ''APPROVED''), (''risk_level'', JStr ''low''),
     (''files_reviewed'', JArr []), (''claims_verified'', JArr []), (''findings'', JArr []),
     (''test_assessment'', JStr ''ok''), (''residual_risks'', JArr [])]"

definition demo_lib :: json_lib where
  "demo_lib = \<lparr>loads = (\<lambda>s. if s = ''{1}'' then Some (JObj demo_verdict_entry) else Some JNull),
     object_span = (\<lambda>s. if CHR ''}'' \<in> set s then Some (length (takeWhile (\<lambda>c. c \<noteq> CHR ''}'') s)) else None),
     dumps = (\<lambda>_. []), dumps_raw = (\<lambda>_. [])\<rparr>"

definition demo_verdict :: verdict where
  "demo_verdict = \<lparr>v_verdict = ''APPROVED'', v_risk_level = ''low'', v_files_reviewed = [], v_claims = [],
     v_findings = [], v_test_assessment = ''ok'', v_residual_risks = []\<rparr>"

lemma demo_parse: "parse_verdict demo_lib ''{2} then {1} end'' = Inr demo_verdict"
  by code_simp

theorem parsed_verdict_is_last_object_witness:
  "\<exists>pre n cs p. ''{2} then {1} end'' = pre @ CHR ''{'' # cs \<and> object_span demo_lib (CHR ''{'' # cs) = Some n
     \<and> no_object demo_lib (drop n cs) \<and> loads demo_lib (CHR ''{'' # take n cs) = Some (JObj p)
     \<and> verdict_of_entry p = Inr demo_verdict"
  by (rule parsed_verdict_is_last_object[OF demo_parse])

text \<open>
  C24: A verdict that parses is well formed: its verdict and risk level are enumerated values, every
  finding has an enumerated severity and category, and a finding is a blocker exactly when it names
  a concrete failure scenario; the code-review rule then accepts it exactly when approval and the
  absence of blockers coincide, and the guard rule in addition only blockers that are not quality
  remarks.
\<close>

theorem parsed_verdict_consistent:
  assumes "parse_verdict J s = Inr v"
  shows "v_verdict v \<in> set verdict_values \<and> v_risk_level v \<in> set risk_levels
    \<and> (\<forall>f\<in>set (v_findings v). finding_ok f)
    \<and> (validate_review v = Inr () \<longleftrightarrow>
         (approved v \<longleftrightarrow> (\<forall>f\<in>set (v_findings v). strip (fi_scenario f) = [])))
    \<and> (validate_rw2 v = Inr () \<longleftrightarrow> validate_review v = Inr () \<and>
         (\<forall>f\<in>set (v_findings v). strip (fi_scenario f) \<noteq> [] \<longrightarrow> fi_category f \<noteq> ''quality''))"
proof -
  obtain p where "verdict_of_entry p = Inr v"
    using assms by (rule parse_verdict_okE)
  note ok = verdict_of_entry_ok[OF this]
  then have sev: "\<forall>f\<in>set (v_findings v). fi_severity f = ''blocker'' \<longleftrightarrow> strip (fi_scenario f) \<noteq> []"
    by (auto simp: finding_ok_def)
  then have "blockers v = [] \<longleftrightarrow> (\<forall>f\<in>set (v_findings v). strip (fi_scenario f) = [])"
    by (auto simp: blockers_def filter_empty_conv)
  moreover have "(\<forall>f\<in>set (blockers v). fi_category f \<noteq> ''quality'') \<longleftrightarrow>
      (\<forall>f\<in>set (v_findings v). strip (fi_scenario f) \<noteq> [] \<longrightarrow> fi_category f \<noteq> ''quality'')"
    using sev by (auto simp: blockers_def)
  ultimately show ?thesis
    using ok by (auto simp: validate_review_Inr validate_rw2_Inr)
qed

theorem parsed_verdict_consistent_witness:
  "validate_review demo_verdict = Inr () \<longleftrightarrow> (approved demo_verdict \<longleftrightarrow> (\<forall>f\<in>set (v_findings demo_verdict). strip (fi_scenario f) = []))"
  using parsed_verdict_consistent[OF demo_parse] by blast

end
