(* ===== verification/Agents.thy ===== *)
theory Agents
  imports Prog Verdict
begin

text \<open>
  Model of the headless runners of \<open>src/orchestrator/agents.py\<close> and of the bounded, fail-closed retry
  of \<open>src/orchestrator/agent_retry.py\<close>. The process execution, the clock, and the recognition of a
  quota message are arguments; a time stamp is an integer number of microseconds.
\<close>

record agent_result =
  ar_text :: string
  ar_session :: "string option"
  ar_exit :: string
  ar_rc :: int
  ar_reset_at :: "int option"

text \<open>Running an agent with a prompt and an optional session to resume.\<close>

type_synonym 's runner = "string \<Rightarrow> string option \<Rightarrow> ('s, agent_result) prog"

section \<open>Runners\<close>

primrec set_flag :: "string \<Rightarrow> string list \<Rightarrow> string list" where
  "set_flag model [] = [''--model'', model]"
| "set_flag model (p # ps) =
     (if p = ''--model'' \<and> ps \<noteq> [] then p # model # tl ps else p # set_flag model ps)"

definition set_model_flag :: "string list \<Rightarrow> string \<Rightarrow> string list" where
  "set_model_flag base_cmd model = set_flag model base_cmd"

text \<open>\<open>_error_kind\<close>: \<open>detect\<close> gives \<open>Some reset\<close> for a quota message.\<close>

definition error_kind ::
  "(string \<Rightarrow> int \<Rightarrow> int option option) \<Rightarrow> ('s, int) prog \<Rightarrow> string \<Rightarrow> string \<Rightarrow>
   ('s, string \<times> int option) prog" where
  "error_kind detect now txt err =
     bindP now (\<lambda>n.
       case detect (txt @ [CHR 0x0A] @ err) n of
         Some reset \<Rightarrow> retP (''quota'', reset)
       | None \<Rightarrow> retP (''error'', None))"

definition plain_result ::
  "(string \<Rightarrow> int \<Rightarrow> int option option) \<Rightarrow> ('s, int) prog \<Rightarrow> int \<times> string \<times> string \<Rightarrow>
   ('s, agent_result) prog" where
  "plain_result detect now r =
     (case r of (rc, out, err) \<Rightarrow>
        bindP (if rc = 0 then retP (''ok'', None) else error_kind detect now out err)
          (\<lambda>(reason, reset). retP \<lparr>ar_text = (if out \<noteq> [] then out else err), ar_session = None,
             ar_exit = reason, ar_rc = rc, ar_reset_at = reset\<rparr>))"

definition codex_run ::
  "(string \<Rightarrow> int \<Rightarrow> int option option) \<Rightarrow> ('s, int) prog \<Rightarrow>
   (string list \<Rightarrow> string \<Rightarrow> ('s, int \<times> string \<times> string) prog) \<Rightarrow> string list \<Rightarrow> 's runner" where
  "codex_run detect now exec base_cmd prompt resume =
     bindP (exec base_cmd prompt) (plain_result detect now)"

definition claude_run ::
  "json_lib \<Rightarrow> (string \<Rightarrow> int \<Rightarrow> int option option) \<Rightarrow> ('s, int) prog \<Rightarrow>
   (string list \<Rightarrow> string \<Rightarrow> ('s, int \<times> string \<times> string) prog) \<Rightarrow> string list \<Rightarrow> 's runner" where
  "claude_run J detect now exec base_cmd prompt resume =
     bindP (exec (base_cmd @ (case resume of None \<Rightarrow> []
                              | Some r \<Rightarrow> if r = [] then [] else [''--resume'', r])) prompt)
       (\<lambda>(rc, out, err).
          case loads J out of
            Some (JObj payload) \<Rightarrow>
              (let is_error = truthy (dget payload ''is_error'') \<or> rc \<noteq> 0;
                   session = dget payload ''session_id'';
                   txt = py_str (dget_or payload ''result'' (JStr []))
               in bindP (if \<not> is_error then retP (''ok'', None) else error_kind detect now txt err)
                    (\<lambda>(reason, reset). retP \<lparr>ar_text = txt,
                       ar_session = (if session = JNull then None else Some (py_str session)),
                       ar_exit = reason, ar_rc = rc, ar_reset_at = reset\<rparr>))
          | _ \<Rightarrow> plain_result detect now (rc, out, err))"

lemma set_model_flag_spec:
  "\<exists>i. set_model_flag cmd m ! i = ''--model'' \<and> set_model_flag cmd m ! Suc i = m
       \<and> Suc i < length (set_model_flag cmd m)"
proof -
  have "\<exists>i. set_flag m cmd ! i = ''--model'' \<and> set_flag m cmd ! Suc i = m \<and> Suc i < length (set_flag m cmd)"
  proof (induction cmd)
    case Nil
    show ?case by (intro exI[of _ 0]) simp
  next
    case (Cons p ps)
    show ?case
    proof (cases "p = ''--model'' \<and> ps \<noteq> []")
      case True
      then show ?thesis by (intro exI[of _ 0]) simp
    next
      case False
      from Cons obtain i where "set_flag m ps ! i = ''--model''" "set_flag m ps ! Suc i = m"
        "Suc i < length (set_flag m ps)" by blast
      with False show ?thesis by (intro exI[of _ "Suc i"]) auto
    qed
  qed
  then show ?thesis
    by (simp add: set_model_flag_def)
qed

section \<open>The bounded retry\<close>

definition or_session :: "string option \<Rightarrow> string option \<Rightarrow> string option" where
  "or_session a b = (case a of Some s \<Rightarrow> if s = [] then b else a | None \<Rightarrow> b)"

definition retry_prompt :: "string \<Rightarrow> string \<Rightarrow> string" where
  "retry_prompt original err =
     original @ ''\<newline>\<newline>--- RETRY ---\<newline>Your previous verdict was rejected by the schema validator:\<newline>'' @ err
     @ ''\<newline>Output ONLY the corrected verdict JSON object, nothing else.''"

definition run_error :: "agent_result \<Rightarrow> string" where
  "run_error r =
     (let base = ''agent run did not complete cleanly (exit_reason='' @ repr_str (ar_exit r) @ '', rc=''
                 @ str_of_int (ar_rc r) @ '')'';
          snippet = take 180 (join '' '' (words (ar_text r)))
      in if snippet \<noteq> [] then base @ '': '' @ snippet else base @ ''; its output is not trustworthy'')"

text \<open>
  One iteration per remaining attempt; \<open>prompt\<close> is the original prompt, \<open>attempt\<close> the one to send.
\<close>

primrec payload_loop ::
  "'s runner \<Rightarrow> (string \<Rightarrow> exn + 'a) \<Rightarrow> string \<Rightarrow> string \<Rightarrow> nat \<Rightarrow> string \<Rightarrow> string option \<Rightarrow> string \<Rightarrow>
   ('s, 'a \<times> agent_result) prog" where
  "payload_loop run parse gaveup prompt 0 attempt session last_error =
     throwP (VerdictError (gaveup @ last_error))"
| "payload_loop run parse gaveup prompt (Suc n) attempt session last_error =
     bindP (run attempt session) (\<lambda>r.
       let session' = or_session (ar_session r) session in
       if ar_exit r \<noteq> ''ok'' then
         payload_loop run parse gaveup prompt n (retry_prompt prompt (run_error r)) session' (run_error r)
       else
         (case parse (ar_text r) of
            Inr v \<Rightarrow> retP (v, r)
          | Inl e \<Rightarrow>
              (case e of
                 VerdictError m \<Rightarrow>
                   payload_loop run parse gaveup prompt n (retry_prompt prompt m) session' m
               | _ \<Rightarrow> throwP e)))"

definition request_payload ::
  "'s runner \<Rightarrow> string \<Rightarrow> (string \<Rightarrow> exn + 'a) \<Rightarrow> string option \<Rightarrow> nat \<Rightarrow> ('s, 'a \<times> agent_result) prog" where
  "request_payload run prompt parse resume max_retries =
     payload_loop run parse (''output still malformed after '' @ str_of_nat max_retries @ '' retries: '')
       prompt (Suc max_retries) prompt resume []"

definition request_verdict ::
  "json_lib \<Rightarrow> 's runner \<Rightarrow> string \<Rightarrow> string option \<Rightarrow> nat \<Rightarrow> (verdict \<Rightarrow> exn + unit) option \<Rightarrow>
   ('s, verdict \<times> agent_result) prog" where
  "request_verdict J run prompt resume max_retries validate =
     request_payload run prompt
       (\<lambda>txt. bindR (parse_verdict J txt) (\<lambda>v.
          case validate of None \<Rightarrow> Inr v | Some f \<Rightarrow> bindR (f v) (\<lambda>_. Inr v)))
       resume max_retries"

lemma payload_loop_keeps:
  "(\<And>p q. keepsP I (run p q)) \<Longrightarrow> keepsP I (payload_loop run parse g prompt n a s e)"
proof (induction n arbitrary: a s e)
  case 0
  then show ?case by (simp add: validP_throw)
next
  case (Suc n)
  show ?case
    unfolding payload_loop.simps
  proof (rule validP_bind[OF Suc.prems])
    fix r
    have "keepsP I (case parse (ar_text r) of Inr v \<Rightarrow> retP (v, r) | Inl e \<Rightarrow>
              (case e of VerdictError m \<Rightarrow> payload_loop run parse g prompt n (retry_prompt prompt m)
                  (or_session (ar_session r) s) m
               | _ \<Rightarrow> throwP e))"
      using Suc by (auto intro!: validP_ret validP_throw split: sum.split exn.split)
    then show "keepsP I (let session' = or_session (ar_session r) s in
       if ar_exit r \<noteq> ''ok'' then
         payload_loop run parse g prompt n (retry_prompt prompt (run_error r)) session' (run_error r)
       else (case parse (ar_text r) of Inr v \<Rightarrow> retP (v, r) | Inl e \<Rightarrow>
              (case e of VerdictError m \<Rightarrow> payload_loop run parse g prompt n (retry_prompt prompt m) session' m
               | _ \<Rightarrow> throwP e)))"
      using Suc by (simp add: Let_def)
  qed
qed

lemma request_payload_keeps: "(\<And>p q. keepsP I (run p q)) \<Longrightarrow> keepsP I (request_payload run pr parse r n)"
  unfolding request_payload_def by (rule payload_loop_keeps)

lemma request_verdict_keeps: "(\<And>p q. keepsP I (run p q)) \<Longrightarrow> keepsP I (request_verdict J run pr r n v)"
  unfolding request_verdict_def by (rule request_payload_keeps)

text \<open>
  The runner that also records every prompt and what came back; it shows the runs a retry makes.
\<close>

definition recording :: "'s runner \<Rightarrow> ('s \<times> (string \<times> (exn + agent_result)) list) runner" where
  "recording run p q sl = (case run p q (fst sl) of (r, t) \<Rightarrow> (r, (t, snd sl @ [(p, r)])))"

text \<open>A rejected attempt: the run failed, or its text did not parse with a verdict error.\<close>

definition rejected :: "(string \<Rightarrow> exn + 'a) \<Rightarrow> exn + agent_result \<Rightarrow> bool" where
  "rejected parse x =
     (case x of Inl _ \<Rightarrow> False
      | Inr r \<Rightarrow> ar_exit r \<noteq> ''ok'' \<or> (\<exists>m. parse (ar_text r) = Inl (VerdictError m)))"

lemma recording_Inr:
  "recording run p q (s, log) = (Inr r, u) \<longleftrightarrow>
     (\<exists>t. run p q s = (Inr r, t) \<and> u = (t, log @ [(p, Inr r)]))"
  by (auto simp: recording_def split: prod.splits)

lemma payload_loop_recorded:
  assumes "payload_loop (recording run) parse g prompt n a q e (s, log) = (Inr (v, r), (t, log'))"
    and "prefix prompt a"
  shows "\<exists>tried p. log' = log @ tried @ [(p, Inr r)] \<and> length tried < n
    \<and> (\<forall>x\<in>set tried. rejected parse (snd x)) \<and> ar_exit r = ''ok'' \<and> parse (ar_text r) = Inr v
    \<and> (\<forall>x\<in>set (tried @ [(p, Inr r)]). prefix prompt (fst x))"
  using assms
proof (induction n arbitrary: a q e s log)
  case 0
  then show ?case by (simp add: throwP_def)
next
  case (Suc n)
  obtain r1 s1 where run: "run a q s = (Inr r1, s1)"
    and rest: "(let session' = or_session (ar_session r1) q in
       if ar_exit r1 \<noteq> ''ok'' then
         payload_loop (recording run) parse g prompt n (retry_prompt prompt (run_error r1)) session' (run_error r1)
       else (case parse (ar_text r1) of Inr v \<Rightarrow> retP (v, r1) | Inl e \<Rightarrow>
              (case e of VerdictError m \<Rightarrow>
                 payload_loop (recording run) parse g prompt n (retry_prompt prompt m) session' m
               | _ \<Rightarrow> throwP e))) (s1, log @ [(a, Inr r1)]) = (Inr (v, r), (t, log'))"
    using Suc.prems(1) unfolding payload_loop.simps bindP_Inr_iff recording_Inr by blast
  have step: ?case
    if rej: "rejected parse (Inr r1)"
      and go: "payload_loop (recording run) parse g prompt n (retry_prompt prompt m) q' m
                 (s1, log @ [(a, Inr r1)]) = (Inr (v, r), (t, log'))" for q' m
  proof -
    obtain tried p where "log' = (log @ [(a, Inr r1)]) @ tried @ [(p, Inr r)]" "length tried < n"
      "\<forall>x\<in>set tried. rejected parse (snd x)" "ar_exit r = ''ok''" "parse (ar_text r) = Inr v"
      "\<forall>x\<in>set (tried @ [(p, Inr r)]). prefix prompt (fst x)"
      using Suc.IH[OF go] by (auto simp: retry_prompt_def)
    then show ?thesis
      using rej Suc.prems(2) by (intro exI[of _ "(a, Inr r1) # tried"] exI[of _ p]) auto
  qed
  consider "ar_exit r1 \<noteq> ''ok''" | w where "ar_exit r1 = ''ok''" "parse (ar_text r1) = Inr w"
    | x where "ar_exit r1 = ''ok''" "parse (ar_text r1) = Inl x"
    by (cases "parse (ar_text r1)") auto
  then show ?case
  proof cases
    case 1
    then show ?thesis
      using rest step by (auto simp: rejected_def Let_def)
  next
    case 2
    then show ?thesis
      using rest Suc.prems(2) by (intro exI[of _ "[]"] exI[of _ a]) (auto simp: retP_def Let_def)
  next
    case 3
    then show ?thesis
      using rest step by (auto simp: rejected_def Let_def throwP_def split: exn.splits)
  qed
qed

text \<open>
  C10: A gate only ever reads the text of a run that ended cleanly: when the retry returns a payload,
  the last of at most \<open>max_retries + 1\<close> runs ended with \<open>ok\<close> and its text is what was parsed, every
  earlier run either did not end cleanly or was rejected by the parser, and every prompt sent,
  retries included, starts with the full original prompt.
\<close>

theorem request_payload_fail_closed:
  assumes "request_payload (recording run) prompt parse resume max_retries (s, []) = (Inr (v, r), (t, log))"
  shows "\<exists>tried p. log = tried @ [(p, Inr r)] \<and> length tried \<le> max_retries
    \<and> (\<forall>x\<in>set tried. rejected parse (snd x)) \<and> ar_exit r = ''ok'' \<and> parse (ar_text r) = Inr v
    \<and> (\<forall>x\<in>set log. prefix prompt (fst x))"
proof -
  obtain tried p where "log = tried @ [(p, Inr r)]" "length tried < Suc max_retries"
    "\<forall>x\<in>set tried. rejected parse (snd x)" "ar_exit r = ''ok''" "parse (ar_text r) = Inr v"
    "\<forall>x\<in>set (tried @ [(p, Inr r)]). prefix prompt (fst x)"
    using payload_loop_recorded[OF assms[unfolded request_payload_def]] by auto
  then show ?thesis
    by (intro exI[of _ tried] exI[of _ p]) simp
qed

definition demo_runner :: "nat runner" where
  "demo_runner p q n =
     (Inr \<lparr>ar_text = ''{1}'', ar_session = None, ar_exit = (if n = 0 then ''error'' else ''ok''),
           ar_rc = (if n = 0 then 1 else 0), ar_reset_at = None\<rparr>, Suc n)"

theorem request_payload_fail_closed_witness:
  "\<exists>v r t log. request_payload (recording demo_runner) ''go'' (parse_verdict demo_lib) None 2 (0, []) = (Inr (v, r), (t, log))
     \<and> (\<exists>tried p. log = tried @ [(p, Inr r)] \<and> length tried \<le> 2
    \<and> (\<forall>x\<in>set tried. rejected (parse_verdict demo_lib) (snd x)) \<and> ar_exit r = ''ok'' \<and> parse_verdict demo_lib (ar_text r) = Inr v
    \<and> (\<forall>x\<in>set log. prefix ''go'' (fst x)))"
proof -
  have "parse_verdict demo_lib ''{1}'' = Inr demo_verdict"
    by code_simp
  then obtain v r t log where "request_payload (recording demo_runner) ''go'' (parse_verdict demo_lib) None 2 (0, []) =
      (Inr (v, r), (t, log))"
    by (simp add: request_payload_def bindP_def recording_def demo_runner_def eval_nat_numeral Let_def retP_def)
  from this request_payload_fail_closed[OF this] show ?thesis
    by blast
qed

end
