(* ===== verification/Quota.thy ===== *)
theory Quota
  imports Agents
begin

text \<open>
  Model of \<open>src/orchestrator/quota.py\<close>: waiting out an exhausted quota. Times and waits are integers
  (microseconds). The loop may wait forever when the policy allows waits that are not positive, so
  it is run with fuel (\<open>None\<close> when it runs out); under a budget and positive waits the fuel
  \<open>quota_fuel\<close> is proved to be enough.
\<close>

record quota_policy =
  reset_buffer :: int
  backoff :: "int list"
  max_wait :: int

text \<open>An empty back-off list makes the subscript raise.\<close>

definition wait_plan :: "int option \<Rightarrow> nat \<Rightarrow> int \<Rightarrow> quota_policy \<Rightarrow> exn + int" where
  "wait_plan reset_at attempt now pol =
     (case reset_at of
        Some t \<Rightarrow>
          if t > now then Inr ((t - now) + reset_buffer pol)
          else if backoff pol = [] then Inl (OtherError ''IndexError'')
          else Inr (backoff pol ! min attempt (length (backoff pol) - 1))
      | None \<Rightarrow>
          if backoff pol = [] then Inl (OtherError ''IndexError'')
          else Inr (backoff pol ! min attempt (length (backoff pol) - 1)))"

text \<open>\<open>QuotaBudget.charge\<close>: the new amount spent, or the timeout.\<close>

definition charge_budget :: "int \<Rightarrow> int \<Rightarrow> int \<Rightarrow> exn + int" where
  "charge_budget limit spent wait =
     (if spent + wait > limit then Inl QuotaTimeout else Inr (spent + wait))"

text \<open>
  What a wrapper holds: the wrapped runner, the clock, the sleep, and once bound the budget and the
  two callbacks (\<open>None\<close> when unbound).
\<close>

record 's quota_hooks =
  qh_inner :: "'s runner"
  qh_now :: "('s, int) prog"
  qh_sleep :: "int \<Rightarrow> ('s, unit) prog"
  qh_charge :: "(int \<Rightarrow> ('s, unit) prog) option"
  qh_on_wait :: "(int option \<Rightarrow> int \<Rightarrow> nat \<Rightarrow> ('s, unit) prog) option"
  qh_on_resume :: "(nat \<Rightarrow> ('s, unit) prog) option"

definition opt_call :: "('a \<Rightarrow> ('s, unit) prog) option \<Rightarrow> 'a \<Rightarrow> ('s, unit) prog" where
  "opt_call f x = (case f of None \<Rightarrow> retP () | Some g \<Rightarrow> g x)"

text \<open>The wait of one iteration: plan, charge, announce, sleep.\<close>

definition quota_wait ::
  "quota_policy \<Rightarrow> 's quota_hooks \<Rightarrow> agent_result \<Rightarrow> nat \<Rightarrow> ('s, unit) prog" where
  "quota_wait pol h r attempt =
     bindP (qh_now h) (\<lambda>now.
     bindP (liftP (wait_plan (ar_reset_at r) attempt now pol)) (\<lambda>wait.
       thenP (opt_call (qh_charge h) wait)
      (thenP (case qh_on_wait h of None \<Rightarrow> retP () | Some f \<Rightarrow> f (ar_reset_at r) wait attempt)
         (qh_sleep h wait))))"

primrec quota_run ::
  "quota_policy \<Rightarrow> 's quota_hooks \<Rightarrow> nat \<Rightarrow> nat \<Rightarrow> string \<Rightarrow> string option \<Rightarrow> 's \<Rightarrow>
   ((exn + agent_result) \<times> 's) option" where
  "quota_run pol h 0 attempt prompt resume s = None"
| "quota_run pol h (Suc fuel) attempt prompt resume s =
     (case qh_inner h prompt resume s of
        (Inl e, t) \<Rightarrow> Some (Inl e, t)
      | (Inr r, t) \<Rightarrow>
          if ar_exit r \<noteq> ''quota'' then
            (case (if attempt \<noteq> 0 then opt_call (qh_on_resume h) attempt t else (Inr (), t)) of
               (Inl e, u) \<Rightarrow> Some (Inl e, u)
             | (Inr _, u) \<Rightarrow> Some (Inr r, u))
          else
            (case quota_wait pol h r attempt t of
               (Inl e, u) \<Rightarrow> Some (Inl e, u)
             | (Inr _, u) \<Rightarrow> quota_run pol h fuel (Suc attempt) prompt resume u))"

definition quota_fuel :: "int \<Rightarrow> int \<Rightarrow> nat" where
  "quota_fuel limit spent = nat (limit - spent) + 2"

definition positive_policy :: "quota_policy \<Rightarrow> bool" where
  "positive_policy pol = (reset_buffer pol \<ge> 0 \<and> backoff pol \<noteq> [] \<and> list_all (\<lambda>w. w > 0) (backoff pol))"

lemma wait_plan_positive:
  assumes "positive_policy pol"
  shows "\<exists>w. wait_plan reset_at attempt now pol = Inr w \<and> w > 0"
proof -
  have "min attempt (length (backoff pol) - 1) < length (backoff pol)"
    using assms by (cases "backoff pol") (auto simp: positive_policy_def)
  then have "backoff pol ! min attempt (length (backoff pol) - 1) > 0"
    using assms unfolding positive_policy_def list_all_length by blast
  then show ?thesis
    using assms by (auto simp: wait_plan_def positive_policy_def split: option.split)
qed

text \<open>
  The contract between a bound wrapper and the task it runs in: there is an amount spent, charging
  adds to it or raises at the limit, and nothing else the wrapper calls changes it.
\<close>

locale bound_budget =
  fixes pol :: quota_policy
    and h :: "'s quota_hooks"
    and spent :: "'s \<Rightarrow> int"
    and limit :: int
  assumes over: "qh_charge h = Some ch \<Longrightarrow> spent s + w > limit \<Longrightarrow> ch w s = (Inl QuotaTimeout, s)"
    and within: "qh_charge h = Some ch \<Longrightarrow> spent s + w \<le> limit \<Longrightarrow>
      \<exists>t. ch w s = (Inr (), t) \<and> spent t = spent s + w"
    and is_bound: "qh_charge h \<noteq> None"
    and inner_keeps: "keepsP (\<lambda>s. spent s = b) (qh_inner h p q)"
    and now_keeps: "keepsP (\<lambda>s. spent s = b) (qh_now h)"
    and sleep_keeps: "keepsP (\<lambda>s. spent s = b) (qh_sleep h w)"
    and wait_keeps: "qh_on_wait h = Some f \<Longrightarrow> keepsP (\<lambda>s. spent s = b) (f reset w a)"
    and resume_keeps: "qh_on_resume h = Some g \<Longrightarrow> keepsP (\<lambda>s. spent s = b) (g a)"
begin

lemma charge_step:
  "validP (\<lambda>s. spent s = b) (opt_call (qh_charge h) w)
     (\<lambda>_ s. spent s = b + w \<and> b + w \<le> limit) (\<lambda>_ s. spent s = b)"
proof -
  obtain ch where ch: "qh_charge h = Some ch"
    using is_bound by auto
  have "\<exists>t. opt_call (qh_charge h) w s = (Inr (), t) \<and> spent t = spent s + w" if "spent s + w \<le> limit" for s
    using within[OF ch that] by (simp add: opt_call_def ch)
  moreover have "opt_call (qh_charge h) w s = (Inl QuotaTimeout, s)" if "spent s + w > limit" for s
    using over[OF ch that] by (simp add: opt_call_def ch)
  ultimately show ?thesis
    unfolding validP_def by (metis (mono_tags, lifting) case_prod_conv linorder_not_le sum.case)
qed

lemma quota_wait_step:
  assumes positive: "positive_policy pol"
  shows "validP (\<lambda>s. spent s = b) (quota_wait pol h r a)
     (\<lambda>_ s. b < spent s \<and> spent s \<le> limit) (\<lambda>_ s. spent s = b \<or> (b < spent s \<and> spent s \<le> limit))"
proof -
  have tail: "validP (\<lambda>s. spent s = c)
      (thenP (case qh_on_wait h of None \<Rightarrow> retP () | Some f \<Rightarrow> f (ar_reset_at r) w a) (qh_sleep h w))
      (\<lambda>_ s. spent s = c) (\<lambda>_ s. spent s = c)" for c w
    by (rule validP_then[where R = "\<lambda>s. spent s = c"], cases "qh_on_wait h")
       (auto intro: validP_ret wait_keeps sleep_keeps)
  show ?thesis
    unfolding quota_wait_def
  proof (rule validP_bind[where R = "\<lambda>_ s. spent s = b"])
    show "validP (\<lambda>s. spent s = b) (qh_now h) (\<lambda>_ s. spent s = b)
        (\<lambda>_ s. spent s = b \<or> b < spent s \<and> spent s \<le> limit)"
      using now_keeps[of b] by (rule validP_weaken) auto
  next
    fix now
    obtain w where w: "wait_plan (ar_reset_at r) a now pol = Inr w" "w > 0"
      using wait_plan_positive[OF positive] by blast
    have "validP (\<lambda>s. spent s = b)
        (thenP (opt_call (qh_charge h) w)
          (thenP (case qh_on_wait h of None \<Rightarrow> retP () | Some f \<Rightarrow> f (ar_reset_at r) w a) (qh_sleep h w)))
        (\<lambda>_ s. b < spent s \<and> spent s \<le> limit) (\<lambda>_ s. spent s = b \<or> (b < spent s \<and> spent s \<le> limit))"
    proof (rule validP_then)
      show "validP (\<lambda>s. spent s = b) (opt_call (qh_charge h) w) (\<lambda>_ s. spent s = b + w \<and> b + w \<le> limit)
         (\<lambda>_ s. spent s = b \<or> (b < spent s \<and> spent s \<le> limit))"
        using charge_step by (rule validP_weaken) auto
      show "validP (\<lambda>s. spent s = b + w \<and> b + w \<le> limit)
         (thenP (case qh_on_wait h of None \<Rightarrow> retP () | Some f \<Rightarrow> f (ar_reset_at r) w a) (qh_sleep h w))
         (\<lambda>_ s. b < spent s \<and> spent s \<le> limit) (\<lambda>_ s. spent s = b \<or> (b < spent s \<and> spent s \<le> limit))"
        using tail[of "b + w" w] w(2) unfolding validP_def by (fastforce split: prod.splits sum.splits)
    qed
    then show "validP (\<lambda>s. spent s = b)
       (bindP (liftP (wait_plan (ar_reset_at r) a now pol)) (\<lambda>wait. thenP (opt_call (qh_charge h) wait)
          (thenP (case qh_on_wait h of None \<Rightarrow> retP () | Some f \<Rightarrow> f (ar_reset_at r) wait a) (qh_sleep h wait))))
       (\<lambda>_ s. b < spent s \<and> spent s \<le> limit) (\<lambda>_ s. spent s = b \<or> (b < spent s \<and> spent s \<le> limit))"
      by (simp add: w validP_def bindP_def liftP_def)
  qed
qed

lemma resume_step:
  "opt_call (qh_on_resume h) a s = (x, t) \<Longrightarrow> spent t = spent s"
  using resume_keeps[of _ "spent s" a] unfolding validP_def opt_call_def
  by (cases "qh_on_resume h"; cases x) (force simp: retP_def)+

lemma quota_run_returns:
  "positive_policy pol \<Longrightarrow> fuel \<ge> quota_fuel limit (spent s) \<Longrightarrow>
   \<exists>x t. quota_run pol h fuel a p q s = Some (x, t) \<and> spent s \<le> spent t \<and> spent t \<le> max limit (spent s)
     \<and> (\<forall>r. x = Inr r \<longrightarrow> ar_exit r \<noteq> ''quota'')"
proof (induction fuel arbitrary: a s)
  case 0
  then show ?case by (simp add: quota_fuel_def)
next
  case (Suc fuel)
  obtain y s1 where y: "qh_inner h p q s = (y, s1)"
    by (cases "qh_inner h p q s")
  have s1: "spent s1 = spent s"
    using inner_keeps[of "spent s" p q] y unfolding validP_def by (force split: sum.splits)
  show ?case
  proof (cases y)
    case (Inl e)
    then show ?thesis
      using y s1 Suc.prems by simp
  next
    case (Inr r)
    show ?thesis
    proof (cases "ar_exit r = ''quota''")
      case False
      obtain z s2 where z: "(if a \<noteq> 0 then opt_call (qh_on_resume h) a s1 else (Inr (), s1)) = (z, s2)"
        by (cases "if a \<noteq> 0 then opt_call (qh_on_resume h) a s1 else (Inr (), s1)")
      then have "spent s2 = spent s1"
        using resume_step by (auto split: if_splits)
      then show ?thesis
        using y Inr False z s1 Suc.prems by (auto split: sum.split)
    next
      case True
      obtain z s2 where z: "quota_wait pol h r a s1 = (z, s2)"
        by (cases "quota_wait pol h r a s1")
      show ?thesis
      proof (cases z)
        case (Inl e)
        have "spent s2 = spent s1 \<or> (spent s1 < spent s2 \<and> spent s2 \<le> limit)"
          using validP_Inl[OF quota_wait_step[OF Suc.prems(1)] _ z[unfolded Inl]] by blast
        then show ?thesis
          using y Inr True z Inl s1 Suc.prems by auto
      next
        case (Inr u)
        have "spent s1 < spent s2" "spent s2 \<le> limit"
          using validP_Inr[OF quota_wait_step[OF Suc.prems(1)] _ z[unfolded Inr]] by blast+
        moreover from this have "quota_fuel limit (spent s2) \<le> fuel"
          using Suc.prems s1 by (simp add: quota_fuel_def)
        ultimately obtain x t where "quota_run pol h fuel (Suc a) p q s2 = Some (x, t)"
          "spent s2 \<le> spent t" "spent t \<le> max limit (spent s2)" "\<forall>r. x = Inr r \<longrightarrow> ar_exit r \<noteq> ''quota''"
          using Suc.IH[OF Suc.prems(1)] by blast
        then show ?thesis
          using y \<open>y = Inr r\<close> True z Inr s1 \<open>spent s1 < spent s2\<close> \<open>spent s2 \<le> limit\<close> by auto
      qed
    qed
  qed
qed

end

end
