(* ===== verification/Fingerprint.thy ===== *)
theory Fingerprint
  imports Agents "HOL-Library.List_Lexorder" "HOL-Library.Multiset"
begin

text \<open>
  Model of \<open>src/orchestrator/fingerprint.py\<close>: fingerprints of failures and blocker sets, used to detect
  a loop that repeats itself. The SHA-256 digest is the argument \<open>sha\<close>.
\<close>

text \<open>\<open>_WS_RE.sub\<close>: every run of white space becomes one space; \<open>sp\<close> says the last character was one.\<close>

primrec collapse_ws :: "bool \<Rightarrow> string \<Rightarrow> string" where
  "collapse_ws sp [] = []"
| "collapse_ws sp (c # cs) =
     (if is_space c then (if sp then collapse_ws True cs else CHR '' '' # collapse_ws True cs)
      else c # collapse_ws False cs)"

definition normalize :: "string \<Rightarrow> string" where
  "normalize s = strip (collapse_ws False s)"

definition newline :: string where
  "newline = [CHR 0x0A]"

definition diff_fingerprint :: "(string \<Rightarrow> string) \<Rightarrow> string \<Rightarrow> string" where
  "diff_fingerprint sha diff =
     sha (join newline (filter (\<lambda>l. l \<noteq> [])
       (map normalize (filter (\<lambda>l. (prefix ''+'' l \<or> prefix ''-'' l) \<and> \<not> (prefix ''+++'' l \<or> prefix ''---'' l))
          (splitlines diff)))))"

definition signature :: "finding \<Rightarrow> string" where
  "signature f = fi_category f @ ''|'' @ fi_file f @ ''|'' @ normalize (fi_summary f)"

definition verdict_fingerprint :: "(string \<Rightarrow> string) \<Rightarrow> verdict \<Rightarrow> string" where
  "verdict_fingerprint sha v = sha (join newline (sort (map signature (blockers v))))"

text \<open>\<open>xs[-n:]\<close>, the last \<open>n\<close> elements.\<close>

definition last_n :: "nat \<Rightarrow> 'a list \<Rightarrow> 'a list" where
  "last_n n xs = drop (length xs - n) xs"

definition failure_fingerprint :: "(string \<Rightarrow> string) \<Rightarrow> string \<Rightarrow> string" where
  "failure_fingerprint sha out = sha (join newline (map normalize (last_n 40 (splitlines out))))"

definition repeats :: "json list \<Rightarrow> bool" where
  "repeats fps =
     (let seen = filter truthy fps in
      length seen \<ge> 2 \<and> last seen = seen ! (length seen - 2))"

lemma repeats_last_two:
  "truthy x \<Longrightarrow> truthy y \<Longrightarrow> repeats (fps @ [x] @ filter (Not \<circ> truthy) zs @ [y]) \<longleftrightarrow> x = y"
  by (auto simp: repeats_def Let_def nth_append)

lemma repeats_needs_two: "length (filter truthy fps) < 2 \<Longrightarrow> \<not> repeats fps"
  by (simp add: repeats_def Let_def)

text \<open>The order in which a reviewer lists the blockers does not matter, nor do advisory findings.\<close>

lemma verdict_fingerprint_mset:
  assumes "mset (map signature (blockers v)) = mset (map signature (blockers w))"
  shows "verdict_fingerprint sha v = verdict_fingerprint sha w"
proof -
  have "sort (map signature (blockers v)) = sort (map signature (blockers w))"
    by (rule properties_for_sort) (use assms in simp_all)
  then show ?thesis
    by (simp add: verdict_fingerprint_def)
qed

lemma failure_fingerprint_tail:
  "splitlines out = ls @ tl40 \<Longrightarrow> length tl40 = 40 \<Longrightarrow>
   failure_fingerprint sha out = sha (join newline (map normalize tl40))"
  by (simp add: failure_fingerprint_def last_n_def)

end
