(* ===== verification/Flags.thy ===== *)
theory Flags
  imports Json
begin

text \<open>
  Model of \<open>src/orchestrator/flags.py\<close>: typed flags as pairs of events in a task's append-only log.
  The log is the list of its entries; the lock that makes read-then-append atomic is modelled by one
  operation being one function. Printing and reading an integer have Python's limit of 4300 digits.
\<close>

definition oracle_escape :: string where
  "oracle_escape = ''oracle-escape''"

definition flag_kinds :: "string list" where
  "flag_kinds = [''deviation'', ''debt'', ''blocker'', ''question'', ''note'', oracle_escape]"

definition flag_resolutions :: "string list" where
  "flag_resolutions = [''resolved'', ''dismissed'']"

record flag =
  fl_id :: string
  fl_kind :: string
  fl_summary :: string
  fl_detail :: json
  fl_needs_director :: bool
  fl_round :: json
  fl_raised_ts :: json
  fl_resolution :: "string option"
  fl_note :: json
  fl_resolved_ts :: json

definition flag_status :: "flag \<Rightarrow> string" where
  "flag_status f = (case fl_resolution f of None \<Rightarrow> ''open'' | Some r \<Rightarrow> nonempty_or r ''open'')"

definition has_action :: "string \<Rightarrow> entry \<Rightarrow> bool" where
  "has_action a e = (dget e ''action'' = JStr a)"

definition flag_of_entry :: "string \<Rightarrow> entry \<Rightarrow> flag" where
  "flag_of_entry i e =
     \<lparr>fl_id = i, fl_kind = py_str (dget_or e ''kind'' (JStr [])),
      fl_summary = py_str (dget_or e ''summary'' (JStr [])), fl_detail = dget e ''detail'',
      fl_needs_director = truthy (dget_or e ''needs_director'' (JBool False)), fl_round = dget e ''round'',
      fl_raised_ts = dget e ''ts'', fl_resolution = None, fl_note = JNull, fl_resolved_ts = JNull\<rparr>"

definition resolve_with :: "entry \<Rightarrow> flag \<Rightarrow> flag" where
  "resolve_with e f =
     f\<lparr>fl_resolution := Some (py_str (dget_or e ''resolution'' (JStr ''resolved''))),
       fl_note := dget e ''note'', fl_resolved_ts := dget e ''ts''\<rparr>"

text \<open>One iteration of \<open>derive_flags\<close>; the dictionary is the list of its values in insertion order.\<close>

definition derive_step :: "flag list \<Rightarrow> entry \<Rightarrow> flag list" where
  "derive_step fs e =
     (if has_action ''flag'' e then
        (case dget e ''id'' of
           JStr i \<Rightarrow> if i \<in> fl_id ` set fs then fs else fs @ [flag_of_entry i e]
         | _ \<Rightarrow> fs)
      else if has_action ''flag-resolved'' e then
        (case dget e ''id'' of
           JStr i \<Rightarrow> map (\<lambda>f. if fl_id f = i \<and> flag_status f = ''open'' then resolve_with e f else f) fs
         | _ \<Rightarrow> fs)
      else fs)"

definition derive_flags :: "entry list \<Rightarrow> flag list" where
  "derive_flags entries = foldl derive_step [] entries"

text \<open>A stable sort on a boolean key is a partition.\<close>

definition open_flags :: "entry list \<Rightarrow> flag list" where
  "open_flags entries =
     (let fs = filter (\<lambda>f. flag_status f = ''open'') (derive_flags entries) in
      filter fl_needs_director fs @ filter (\<lambda>f. \<not> fl_needs_director f) fs)"

section \<open>Raising and resolving\<close>

text \<open>\<open>str.isdigit\<close>: the decimal digits and the superscripts two, three and one.\<close>

definition isdigit_char :: "char \<Rightarrow> bool" where
  "isdigit_char c = (is_digit c \<or> ord c \<in> {178, 179, 185})"

definition isdigit :: "string \<Rightarrow> bool" where
  "isdigit s = (s \<noteq> [] \<and> list_all isdigit_char s)"

definition int_of_text :: "string \<Rightarrow> exn + nat" where
  "int_of_text s =
     (if list_all is_digit s \<and> length s \<le> 4300 then Inr (digits_val 0 s) else Inl ValueError)"

definition text_of_int :: "nat \<Rightarrow> exn + string" where
  "text_of_int n = (if length (nat_digits n) > 4300 then Inl ValueError else Inr (nat_digits n))"

text \<open>\<open>s.rpartition("#")[2]\<close>\<close>

definition after_last_hash :: "string \<Rightarrow> string" where
  "after_last_hash s = rev (takeWhile (\<lambda>c. c \<noteq> CHR ''#'') (rev s))"

definition flag_ids :: "entry list \<Rightarrow> json list" where
  "flag_ids entries = map (\<lambda>e. dget e ''id'') (filter (has_action ''flag'') entries)"

definition hashable :: "json \<Rightarrow> bool" where
  "hashable v = (case v of JArr _ \<Rightarrow> False | JObj _ \<Rightarrow> False | _ \<Rightarrow> True)"

primrec max_suffix :: "json list \<Rightarrow> exn + nat" where
  "max_suffix [] = Inr 0"
| "max_suffix (v # vs) =
     bindR (case v of
              JStr s \<Rightarrow> if isdigit (after_last_hash s) then int_of_text (after_last_hash s) else Inr 0
            | _ \<Rightarrow> Inr 0)
       (\<lambda>n. bindR (max_suffix vs) (\<lambda>m. Inr (max n m)))"

definition raise_flag ::
  "string \<Rightarrow> json \<Rightarrow> string \<Rightarrow> string \<Rightarrow> string option \<Rightarrow> int option \<Rightarrow> bool \<Rightarrow> bool \<Rightarrow> entry list \<Rightarrow>
   exn + (string \<times> entry list)" where
  "raise_flag task now kind summary detail rnd needs_director allow_oracle log =
     (if kind = oracle_escape \<and> \<not> allow_oracle then Inl ValueError
      else if kind \<notin> set flag_kinds then Inl ValueError
      else if strip summary = [] then Inl ValueError
      else if \<not> list_all hashable (flag_ids log) then Inl TypeError
      else
        bindR (max_suffix (flag_ids log)) (\<lambda>n.
        bindR (text_of_int (n + 1)) (\<lambda>num.
          let fid = task @ ''#'' @ num in
          if JStr fid \<in> set (flag_ids log) then Inl ValueError
          else Inr (fid, log @ [
            [(''ts'', now), (''action'', JStr ''flag''), (''id'', JStr fid), (''kind'', JStr kind),
             (''summary'', JStr summary), (''needs_director'', JBool needs_director)]
            @ (case detail of None \<Rightarrow> [] | Some d \<Rightarrow> if d = [] then [] else [(''detail'', JStr d)])
            @ (case rnd of None \<Rightarrow> [] | Some r \<Rightarrow> [(''round'', JInt r)])]))))"

definition resolve_flag ::
  "json \<Rightarrow> string \<Rightarrow> string \<Rightarrow> string option \<Rightarrow> bool \<Rightarrow> entry list \<Rightarrow> exn + (bool \<times> entry list)" where
  "resolve_flag now flag_id resolution note allow_oracle log =
     (if resolution \<notin> set flag_resolutions then Inl ValueError
      else
        (case find (\<lambda>f. fl_id f = flag_id) (derive_flags log) of
           None \<Rightarrow> Inr (False, log)
         | Some f \<Rightarrow>
             if flag_status f \<noteq> ''open'' then Inr (False, log)
             else if fl_kind f = oracle_escape \<and> \<not> allow_oracle then Inl ValueError
             else Inr (True, log @ [
               [(''ts'', now), (''action'', JStr ''flag-resolved''), (''id'', JStr flag_id),
                (''resolution'', JStr resolution)]
               @ (case note of None \<Rightarrow> [] | Some t \<Rightarrow> if t = [] then [] else [(''note'', JStr t)])])))"

section \<open>Facts about the fold\<close>

lemma derive_flags_snoc: "derive_flags (log @ [e]) = derive_step (derive_flags log) e"
  by (simp add: derive_flags_def)

lemma resolve_with_id [simp]: "fl_id (resolve_with e f) = fl_id f"
  by (simp add: resolve_with_def)

lemma derive_step_ids:
  "map fl_id (derive_step fs e) =
     (case dget e ''id'' of
        JStr i \<Rightarrow> if has_action ''flag'' e \<and> i \<notin> fl_id ` set fs then map fl_id fs @ [i] else map fl_id fs
      | _ \<Rightarrow> map fl_id fs)"
  by (auto simp: derive_step_def flag_of_entry_def split: json.split)

lemma derive_step_distinct: "distinct (map fl_id fs) \<Longrightarrow> distinct (map fl_id (derive_step fs e))"
  by (auto simp: derive_step_ids split: json.split)

lemma derive_flags_distinct: "distinct (map fl_id (derive_flags log))"
  by (induction log rule: rev_induct)
     (simp_all add: derive_flags_snoc derive_step_distinct, simp add: derive_flags_def)

lemma derive_step_prefix: "prefix (map fl_id fs) (map fl_id (derive_step fs e))"
  by (auto simp: derive_step_ids split: json.split)

lemma derive_flags_prefix: "prefix (map fl_id (derive_flags log)) (map fl_id (derive_flags (log @ new)))"
proof (induction new rule: rev_induct)
  case (snoc e new)
  then show ?case
    using derive_step_prefix[of "derive_flags (log @ new)" e]
    by (metis append.assoc derive_flags_snoc prefix_order.trans)
qed simp

text \<open>A resolved flag never changes again.\<close>

lemma derive_step_sticky:
  "f \<in> set fs \<Longrightarrow> flag_status f \<noteq> ''open'' \<Longrightarrow> f \<in> set (derive_step fs e)"
  by (force simp: derive_step_def split: json.split)

lemma derive_flags_sticky:
  "f \<in> set (derive_flags log) \<Longrightarrow> flag_status f \<noteq> ''open'' \<Longrightarrow> f \<in> set (derive_flags (log @ new))"
  by (induction new rule: rev_induct)
     (simp_all add: derive_flags_snoc derive_step_sticky flip: append_assoc)

lemma derived_id_in_log: "i \<in> fl_id ` set (derive_flags log) \<Longrightarrow> JStr i \<in> set (flag_ids log)"
proof (induction log rule: rev_induct)
  case Nil
  then show ?case by (simp add: derive_flags_def)
next
  case (snoc e log)
  have "i \<in> set (map fl_id (derive_step (derive_flags log) e))"
    using snoc.prems by (simp add: derive_flags_snoc)
  then have "i \<in> fl_id ` set (derive_flags log) \<or> (has_action ''flag'' e \<and> dget e ''id'' = JStr i)"
    unfolding derive_step_ids by (auto split: json.splits if_splits)
  then show ?case
    using snoc.IH by (auto simp: flag_ids_def)
qed

section \<open>An append-only operation\<close>

text \<open>
  What every writer of the log promises, and what its readers may rely on: no flag disappears or is
  renumbered, and a resolution is final.
\<close>

locale append_only =
  fixes op :: "entry list \<Rightarrow> exn + ('r \<times> entry list)"
  assumes appends: "op log = Inr (r, log') \<Longrightarrow> \<exists>new. log' = log @ new"
begin

lemma ids_kept: "op log = Inr (r, log') \<Longrightarrow> prefix (map fl_id (derive_flags log)) (map fl_id (derive_flags log'))"
  using appends derive_flags_prefix by metis

lemma resolution_final:
  "op log = Inr (r, log') \<Longrightarrow> f \<in> set (derive_flags log) \<Longrightarrow> flag_status f \<noteq> ''open'' \<Longrightarrow>
   f \<in> set (derive_flags log')"
  using appends derive_flags_sticky by metis

end

lemma raise_flag_appends: "raise_flag t now k s d r nd ao log = Inr (i, log') \<Longrightarrow> \<exists>e. log' = log @ [e]"
  by (auto simp: raise_flag_def Let_def res_simps split: if_splits)

lemma resolve_flag_appends:
  "resolve_flag now i res note ao log = Inr (b, log') \<Longrightarrow> \<exists>new. log' = log @ new"
  by (auto simp: resolve_flag_def split: if_splits option.splits)

interpretation raise_op: append_only "raise_flag t now k s d r nd ao"
  by unfold_locales (blast dest: raise_flag_appends)

interpretation resolve_op: append_only "resolve_flag now i res note ao"
  by unfold_locales (rule resolve_flag_appends)

section \<open>Fresh identifiers\<close>

lemma after_last_hash_digits:
  assumes "list_all is_digit ds"
  shows "after_last_hash (t @ CHR ''#'' # ds) = ds"
proof -
  have "\<forall>c\<in>set ds. c \<noteq> CHR ''#''"
    using assms by (auto simp: list_all_iff is_digit_def)
  then have "takeWhile (\<lambda>c. c \<noteq> CHR ''#'') (rev ds @ CHR ''#'' # rev t) = rev ds"
    by (subst takeWhile_append2) auto
  then show ?thesis
    by (simp add: after_last_hash_def)
qed

lemma max_suffix_bound:
  "max_suffix vs = Inr m \<Longrightarrow> JStr s \<in> set vs \<Longrightarrow> isdigit (after_last_hash s) \<Longrightarrow>
   int_of_text (after_last_hash s) = Inr n \<Longrightarrow> n \<le> m"
  by (induction vs arbitrary: m) (auto simp: res_simps le_max_iff_disj)

lemma max_suffix_read:
  "max_suffix vs = Inr m \<Longrightarrow> JStr s \<in> set vs \<Longrightarrow> isdigit (after_last_hash s) \<Longrightarrow>
   \<exists>n. int_of_text (after_last_hash s) = Inr n"
  by (induction vs arbitrary: m) (auto simp: res_simps)

lemma nat_digits_isdigit: "isdigit (nat_digits n)"
  using nat_digits_digits[of n] by (auto simp: isdigit_def isdigit_char_def list_all_iff)

text \<open>The collision check the code makes under the lock can never fire.\<close>

lemma next_id_fresh:
  assumes "max_suffix (flag_ids log) = Inr n" "text_of_int (n + 1) = Inr num"
  shows "JStr (task @ ''#'' @ num) \<notin> set (flag_ids log)"
proof
  assume in_log: "JStr (task @ ''#'' @ num) \<in> set (flag_ids log)"
  have num: "num = nat_digits (n + 1)"
    using assms(2) by (simp add: text_of_int_def split: if_splits)
  then have suffix: "after_last_hash (task @ ''#'' @ num) = num"
    using after_last_hash_digits[of num task] nat_digits_digits by simp
  obtain k where k: "int_of_text num = Inr k"
    using max_suffix_read[OF assms(1) in_log] suffix nat_digits_isdigit num by auto
  then have "k = n + 1"
    by (simp add: int_of_text_def num digits_val_nat_digits split: if_splits)
  moreover have "k \<le> n"
    using max_suffix_bound[OF assms(1) in_log] suffix nat_digits_isdigit num k by auto
  ultimately show False by simp
qed

text \<open>
  Raising a flag never loses a flag: when it returns, exactly one event was appended, its
  identifier is new among all flag events (also those the fold ignores), and the derived flags are
  the old ones followed by the new one, open, with the given kind, summary and director mark; an
  oracle escape is raised only when explicitly allowed.
\<close>

theorem raise_flag_fresh:
  assumes "raise_flag task now kind summary detail rnd nd allow log = Inr (fid, log')"
  shows "JStr fid \<notin> set (flag_ids log) \<and> (\<exists>e. log' = log @ [e])
    \<and> (\<exists>f. derive_flags log' = derive_flags log @ [f] \<and> fl_id f = fid \<and> fl_kind f = kind
          \<and> fl_summary f = summary \<and> fl_needs_director f = nd \<and> flag_status f = ''open'')
    \<and> kind \<in> set flag_kinds \<and> (kind = oracle_escape \<longrightarrow> allow)"
proof -
  have fresh: "JStr fid \<notin> set (flag_ids log)" and k: "kind \<in> set flag_kinds" "kind = oracle_escape \<longrightarrow> allow"
    and log': "log' = log @ [
            [(''ts'', now), (''action'', JStr ''flag''), (''id'', JStr fid), (''kind'', JStr kind),
             (''summary'', JStr summary), (''needs_director'', JBool nd)]
            @ (case detail of None \<Rightarrow> [] | Some d \<Rightarrow> if d = [] then [] else [(''detail'', JStr d)])
            @ (case rnd of None \<Rightarrow> [] | Some r \<Rightarrow> [(''round'', JInt r)])]"
    using assms by (auto simp: raise_flag_def Let_def res_simps split: if_splits)
  have "fid \<notin> fl_id ` set (derive_flags log)"
    using fresh derived_id_in_log by blast
  then have "derive_flags log' = derive_flags log @ [flag_of_entry fid (last log')]"
    unfolding log' derive_flags_snoc by (simp add: derive_step_def has_action_def)
  moreover have "fl_id (flag_of_entry fid (last log')) = fid \<and> fl_kind (flag_of_entry fid (last log')) = kind
      \<and> fl_summary (flag_of_entry fid (last log')) = summary
      \<and> fl_needs_director (flag_of_entry fid (last log')) = nd
      \<and> flag_status (flag_of_entry fid (last log')) = ''open''"
    by (simp add: log' flag_of_entry_def flag_status_def dget_or_def)
  ultimately show ?thesis
    using fresh k log' by blast
qed

theorem raise_flag_fresh_witness:
  "\<exists>log'. raise_flag ''t'' JNull ''note'' ''s'' None (Some 1) True False [] = Inr (''t#1'', log')
     \<and> JStr ''t#1'' \<notin> set (flag_ids [])"
proof -
  have one: "nat_digits (Suc 0) = ''1''"
    by code_simp
  have "\<exists>log'. raise_flag ''t'' JNull ''note'' ''s'' None (Some 1) True False [] = Inr (''t#1'', log')"
    by (simp add: raise_flag_def flag_kinds_def oracle_escape_def flag_ids_def text_of_int_def
        one py_text)
  then show ?thesis
    using raise_flag_fresh by blast
qed

text \<open>
  Resolving is exact and final: the operation succeeds only on an open flag, changes that flag
  alone (which is then no longer open) and keeps all others; otherwise it appends nothing. A flag
  once resolved never changes, whatever is appended later, and an oracle escape is resolved only
  through the allowed channel.
\<close>

theorem resolve_flag_exact:
  assumes "resolve_flag now fid res note allow log = Inr (ok, log')"
  shows "(ok \<longleftrightarrow> (\<exists>f\<in>set (derive_flags log). fl_id f = fid \<and> flag_status f = ''open''))
    \<and> (\<not> ok \<longrightarrow> log' = log)
    \<and> (ok \<longrightarrow> (\<exists>e. log' = log @ [e] \<and>
          derive_flags log' = map (\<lambda>f. if fl_id f = fid then resolve_with e f else f) (derive_flags log)
          \<and> (\<forall>f\<in>set (derive_flags log'). fl_id f = fid \<longrightarrow> flag_status f = res)))
    \<and> (ok \<longrightarrow> (\<forall>f\<in>set (derive_flags log). fl_id f = fid \<longrightarrow> fl_kind f = oracle_escape \<longrightarrow> allow))
    \<and> (\<forall>f new. f \<in> set (derive_flags log) \<longrightarrow> flag_status f \<noteq> ''open'' \<longrightarrow>
          f \<in> set (derive_flags (log' @ new)))"
proof -
  have uniq: "f = g" if "f \<in> set (derive_flags log)" "g \<in> set (derive_flags log)" "fl_id f = fl_id g" for f g
    using derive_flags_distinct[of log] that by (auto simp: distinct_map inj_on_def)
  have res: "res \<in> set flag_resolutions"
    using assms by (auto simp: resolve_flag_def split: if_splits)
  then have open_res: "res \<noteq> []"
    by (auto simp: flag_resolutions_def)
  have sticky: "\<forall>f new. f \<in> set (derive_flags log) \<longrightarrow> flag_status f \<noteq> ''open'' \<longrightarrow>
          f \<in> set (derive_flags (log' @ new))"
    using resolve_op.resolution_final[OF assms] derive_flags_sticky by blast
  show ?thesis
  proof (cases "find (\<lambda>f. fl_id f = fid) (derive_flags log)")
    case None
    then have "\<forall>f\<in>set (derive_flags log). fl_id f \<noteq> fid"
      by (auto simp: find_None_iff)
    moreover have "\<not> ok" "log' = log"
      using assms res None by (auto simp: resolve_flag_def)
    ultimately show ?thesis
      using sticky by auto
  next
    case (Some g)
    then have g: "g \<in> set (derive_flags log)" "fl_id g = fid"
      by (auto simp: find_Some_iff)
    show ?thesis
    proof (cases "flag_status g = ''open''")
      case False
      then have "\<not> ok" "log' = log"
        using assms res Some by (auto simp: resolve_flag_def)
      then show ?thesis
        using sticky False g uniq by auto
    next
      case True
      define e where "e = [(''ts'', now), (''action'', JStr ''flag-resolved''), (''id'', JStr fid),
                (''resolution'', JStr res)]
               @ (case note of None \<Rightarrow> [] | Some t \<Rightarrow> if t = [] then [] else [(''note'', JStr t)])"
      have r: "ok" "log' = log @ [e]" "fl_kind g = oracle_escape \<longrightarrow> allow"
        using assms res Some True by (auto simp: resolve_flag_def e_def split: if_splits)
      have e: "has_action ''flag-resolved'' e" "\<not> has_action ''flag'' e" "dget e ''id'' = JStr fid"
        by (simp_all add: e_def has_action_def)
      have m: "derive_flags log' = map (\<lambda>f. if fl_id f = fid then resolve_with e f else f) (derive_flags log)"
        unfolding r(2) derive_flags_snoc using e True g uniq by (auto simp: derive_step_def)
      have s: "flag_status (resolve_with e f) = res" for f
        using open_res
        by (simp add: flag_status_def resolve_with_def dget_or_def nonempty_or_def e_def)
      have "\<forall>f\<in>set (derive_flags log'). fl_id f = fid \<longrightarrow> flag_status f = res"
        unfolding m using s by auto
      moreover have "\<forall>f\<in>set (derive_flags log). fl_id f = fid \<longrightarrow> fl_kind f = oracle_escape \<longrightarrow> allow"
        using r(3) g uniq by auto
      ultimately show ?thesis
        using r(1,2) m g True sticky by blast
    qed
  qed
qed

theorem resolve_flag_exact_witness:
  "\<exists>log'. resolve_flag JNull ''t#1'' ''resolved'' None False
      [[(''action'', JStr ''flag''), (''id'', JStr ''t#1''), (''kind'', JStr ''note'')]] = Inr (True, log')
    \<and> log' \<noteq> []"
proof -
  have "\<exists>log'. resolve_flag JNull ''t#1'' ''resolved'' None False
      [[(''action'', JStr ''flag''), (''id'', JStr ''t#1''), (''kind'', JStr ''note'')]] = Inr (True, log')"
    by (simp add: resolve_flag_def flag_resolutions_def derive_flags_def derive_step_def has_action_def
        flag_of_entry_def flag_status_def oracle_escape_def dget_or_def)
  then show ?thesis
    using resolve_flag_exact by fastforce
qed

text \<open>
  A planted flag event can block every later raise on its task: one whose identifier ends in a
  superscript digit passes \<open>isdigit\<close> but makes \<open>int\<close> raise, so no flag can be raised on that log.
\<close>

theorem planted_id_blocks_raise:
  assumes "e \<in> set log" "has_action ''flag'' e" "dget e ''id'' = JStr (t @ ''#'' @ [CHR 0xB2])"
  shows "\<not> is_ok (raise_flag task now kind summary detail rnd nd allow log)"
proof
  assume "is_ok (raise_flag task now kind summary detail rnd nd allow log)"
  then obtain n where n: "max_suffix (flag_ids log) = Inr n"
    by (auto simp: raise_flag_def Let_def is_ok_iff res_simps split: if_splits)
  have "JStr (t @ ''#'' @ [CHR 0xB2]) \<in> set (flag_ids log)"
    using assms by (force simp: flag_ids_def)
  moreover have "after_last_hash (t @ ''#'' @ [CHR 0xB2]) = [CHR 0xB2]"
    by (simp add: after_last_hash_def)
  ultimately have "\<exists>n. int_of_text [CHR 0xB2] = Inr n"
    using max_suffix_read[OF n] by (force simp: isdigit_def isdigit_char_def)
  then show False
    by (simp add: int_of_text_def is_digit_def)
qed

theorem planted_id_blocks_raise_witness:
  "\<not> is_ok (raise_flag ''t'' JNull ''note'' ''lost'' None None True False
     [[(''action'', JStr ''flag''), (''id'', JStr (''t'' @ ''#'' @ [CHR 0xB2]))]])"
  by (rule planted_id_blocks_raise[of "[(''action'', JStr ''flag''), (''id'', JStr (''t'' @ ''#'' @ [CHR 0xB2]))]" _ "''t''"])
     (simp_all add: has_action_def)

end
