(* ===== verification/Loop_Derive.thy ===== *)
theory Loop_Derive
  imports Policy Flags Fingerprint Terminals
begin

text \<open>
  Model of the pure half of \<open>src/orchestrator/loop.py\<close>: everything the orchestrator derives by replaying
  a task's append-only iteration log. An entry is a decoded JSON object; a subscript of a missing
  key and a dictionary lookup with an unhashable key raise, as in the code.
\<close>

section \<open>Recorded terminals and the Director's resume\<close>

definition has_outcome :: "string \<Rightarrow> entry \<Rightarrow> bool" where
  "has_outcome r e = (dget e ''outcome'' = JStr r)"

definition phase_actions :: "string list" where
  "phase_actions = [''developer'', ''fast_tests'', ''rw1'', ''rw2'', ''authoritative'', ''senior'', ''push'']"

definition is_phase :: "entry \<Rightarrow> bool" where
  "is_phase e = list_ex (\<lambda>a. has_action a e) phase_actions"

definition action_text :: "entry \<Rightarrow> string" where
  "action_text e = py_str (dget e ''action'')"

definition outcome_text :: "entry \<Rightarrow> string" where
  "outcome_text e = py_str (dget e ''outcome'')"

text \<open>The backwards scan; \<open>later\<close> holds the entries after the current one.\<close>

primrec recorded_from :: "entry list \<Rightarrow> entry list \<Rightarrow> string option" where
  "recorded_from later [] = None"
| "recorded_from later (e # es) =
     (if has_action ''terminal'' e then
        (if \<not> sticky (terminal_spec (outcome_text e)) then None
         else if list_ex (\<lambda>l. clears_terminal (action_text l) (outcome_text e)) later then None
         else Some (outcome_text e))
      else if has_action ''push'' e \<and> has_outcome ''ok'' e then
        (if list_ex (\<lambda>l. clears_terminal (action_text l) ''PUSHED'') later then None
         else Some ''PUSHED'')
      else recorded_from (e # later) es)"

definition recorded_terminal :: "entry list \<Rightarrow> string option" where
  "recorded_terminal entries = recorded_from [] (rev entries)"

primrec last_terminal_from :: "entry list \<Rightarrow> string option" where
  "last_terminal_from [] = None"
| "last_terminal_from (e # es) =
     (if has_action ''terminal'' e then Some (outcome_text e)
      else if has_action ''push'' e \<and> has_outcome ''ok'' e then Some ''PUSHED''
      else last_terminal_from es)"

definition last_terminal_state :: "entry list \<Rightarrow> string option" where
  "last_terminal_state entries = last_terminal_from (rev entries)"

primrec director_note_from :: "entry list \<Rightarrow> json" where
  "director_note_from [] = JNull"
| "director_note_from (e # es) =
     (if is_phase e then JNull
      else if has_action ''director_resume'' e then dget e ''reason''
      else director_note_from es)"

definition director_note :: "entry list \<Rightarrow> json" where
  "director_note entries = director_note_from (rev entries)"

definition resume_round_grant :: nat where
  "resume_round_grant = 3"

definition resume_flowthrough_phases :: "string list" where
  "resume_flowthrough_phases = [''fast_tests'', ''rw1'', ''rw2'', ''authoritative'', ''push'']"

primrec dev_rounds_from :: "nat \<Rightarrow> entry list \<Rightarrow> nat option" where
  "dev_rounds_from n [] = None"
| "dev_rounds_from n (e # es) =
     (if has_action ''director_resume'' e then Some n
      else dev_rounds_from (if has_action ''developer'' e then Suc n else n) es)"

definition dev_rounds_since_resume :: "entry list \<Rightarrow> nat option" where
  "dev_rounds_since_resume entries = dev_rounds_from 0 (rev entries)"

section \<open>The next phase\<close>

record resume_point =
  rp_round :: int
  rp_phase :: string
  rp_dev_session :: json
  rp_rw1_session :: json
  rp_rw2_session :: json

definition rounds_used :: "entry list \<Rightarrow> nat" where
  "rounds_used entries = length (filter (has_action ''developer'') entries)"

definition resume_developer_point :: "entry list \<Rightarrow> resume_point \<Rightarrow> resume_point option" where
  "resume_developer_point entries rp =
     (case dev_rounds_since_resume entries of
        None \<Rightarrow> None
      | Some since \<Rightarrow>
          if since \<ge> resume_round_grant then None
          else if rp_phase rp \<in> set resume_flowthrough_phases then None
          else if rp_phase rp = ''done'' \<and> since > 0 then None
          else Some (rp\<lparr>rp_phase := ''developer'', rp_round := int (rounds_used entries) + 1\<rparr>))"

text \<open>\<open>entry.get("session_id") or session\<close>, over the entries of one action.\<close>

definition last_session :: "string \<Rightarrow> entry list \<Rightarrow> json" where
  "last_session action entries =
     foldl (\<lambda>s e. if has_action action e then py_or (dget e ''session_id'') s else s) JNull entries"

definition last_phase :: "entry list \<Rightarrow> entry option" where
  "last_phase entries = find is_phase (rev entries)"

definition transitions :: "bool \<Rightarrow> bool \<Rightarrow> ((string \<times> string) \<times> string) list" where
  "transitions with_rw2 with_authoritative =
     (let after_rw1 = (if with_rw2 then ''rw2'' else if with_authoritative then ''authoritative'' else ''push'');
          after_go = (if with_authoritative then ''authoritative'' else ''push'')
      in [((''developer'', ''ok''), ''fast_tests''),
          ((''developer'', ''error''), ''developer''),
          ((''fast_tests'', ''fail''), ''developer''),
          ((''fast_tests'', ''pass''), ''rw1''),
          ((''rw1'', ''changes_requested''), ''developer''),
          ((''rw1'', ''malformed''), ''developer''),
          ((''rw1'', ''approved''), after_rw1),
          ((''rw2'', ''nogo''), ''developer''),
          ((''rw2'', ''malformed''), ''developer''),
          ((''rw2'', ''go''), after_go),
          ((''authoritative'', ''fail''), ''developer''),
          ((''authoritative'', ''pass''), ''push''),
          ((''senior'', ''changes_requested''), ''developer''),
          ((''senior'', ''approved''), after_go),
          ((''senior'', ''deadlock''), ''deadlock''),
          ((''push'', ''ok''), ''done'')])"

text \<open>
  The lookup with the pair of the last entry's action and outcome: a missing outcome raises
  \<open>KeyError\<close>, an unhashable one \<open>TypeError\<close>, and one that is not text matches no row.
\<close>

definition transition_of :: "bool \<Rightarrow> bool \<Rightarrow> entry \<Rightarrow> exn + string" where
  "transition_of r2 au e =
     bindR (dsub e ''action'') (\<lambda>a. bindR (dsub e ''outcome'') (\<lambda>out.
       if \<not> hashable out then Inl TypeError
       else (case (a, out) of
               (JStr x, JStr y) \<Rightarrow>
                 Inr (case map_of (transitions r2 au) (x, y) of Some p \<Rightarrow> p | None \<Rightarrow> ''developer'')
             | _ \<Rightarrow> Inr ''developer'')))"

definition derive_resume_point :: "entry list \<Rightarrow> int \<Rightarrow> bool \<Rightarrow> bool \<Rightarrow> exn + resume_point" where
  "derive_resume_point entries max_loops with_rw2 with_authoritative =
     bindR (case last_phase entries of None \<Rightarrow> Inr ''developer''
            | Some l \<Rightarrow> transition_of with_rw2 with_authoritative l)
       (\<lambda>p0.
          let used = int (rounds_used entries);
              p = (if p0 = ''developer'' \<and> used \<ge> max_loops then ''cap_reached'' else p0)
          in Inr \<lparr>rp_round = (if p \<in> {''developer'', ''cap_reached''} then used + 1 else max used 1),
                  rp_phase = p,
                  rp_dev_session = last_session ''developer'' entries,
                  rp_rw1_session = last_session ''rw1'' entries,
                  rp_rw2_session = last_session ''rw2'' entries\<rparr>)"

section \<open>Backstop\<close>

definition fingerprints :: "string \<Rightarrow> entry list \<Rightarrow> json list" where
  "fingerprints action entries = map (\<lambda>e. dget e ''fingerprint'') (filter (has_action action) entries)"

text \<open>The entries after the last senior verdict, or all of them.\<close>

definition since_senior :: "entry list \<Rightarrow> entry list" where
  "since_senior entries = rev (takeWhile (\<lambda>e. \<not> has_action ''senior'' e) (rev entries))"

definition nonconvergence_detected :: "entry list \<Rightarrow> bool" where
  "nonconvergence_detected entries =
     (let since = since_senior entries in
      repeats (fingerprints ''rw2'' since)
      \<or> repeats (fingerprints ''authoritative'' since)
      \<or> repeats (fingerprints ''fast_tests'' since)
      \<or> length (filter (\<lambda>e. has_action ''rw2'' e \<and> has_outcome ''nogo'' e) since) \<ge> 2)"

definition senior_ran :: "entry list \<Rightarrow> bool" where
  "senior_ran entries = list_ex (has_action ''senior'') entries"

section \<open>Gates, risk, reports\<close>

definition gate_step :: "gate_states \<Rightarrow> entry \<Rightarrow> gate_states" where
  "gate_step g e =
     (if has_action ''rw1'' e then
        g\<lparr>rw1_sha := as_str (dget e ''sha''), rw1_approved := has_outcome ''approved'' e\<rparr>
      else if has_action ''rw2'' e then
        g\<lparr>rw2_sha := as_str (dget e ''sha''), rw2_go := has_outcome ''go'' e\<rparr>
      else if has_action ''senior'' e \<and> has_outcome ''approved'' e then
        (let g1 = (if \<not> rw2_go g then g\<lparr>rw2_sha := as_str (dget e ''sha''), rw2_go := True\<rparr> else g)
         in if \<not> rw1_approved g1 then g1\<lparr>rw1_sha := as_str (dget e ''sha''), rw1_approved := True\<rparr> else g1)
      else if has_action ''authoritative'' e then
        g\<lparr>authoritative_sha := as_str (dget e ''sha''), authoritative_passed := has_outcome ''pass'' e,
          authoritative_flaky := truthy (dget e ''flaky'')\<rparr>
      else g)"

definition no_gates :: "string \<Rightarrow> gate_states" where
  "no_gates head = \<lparr>head_sha = head, rw1_sha = None, rw1_approved = False, rw2_sha = None, rw2_go = False,
     authoritative_sha = None, authoritative_passed = False, authoritative_flaky = False\<rparr>"

definition gate_states_from_log :: "entry list \<Rightarrow> string \<Rightarrow> bool \<Rightarrow> bool \<Rightarrow> gate_states" where
  "gate_states_from_log entries head require_rw2 require_authoritative =
     (let g = foldl gate_step (no_gates head) entries;
          g1 = (if require_authoritative then g
                else g\<lparr>authoritative_sha := Some head, authoritative_passed := True\<rparr>)
      in if require_rw2 then g1 else g1\<lparr>rw2_sha := Some head, rw2_go := True\<rparr>)"

text \<open>
  \<open>declared_risk_from_verdicts\<close>, over the two verdict artifacts as read (\<open>JNull\<close> when absent).
\<close>

definition verdict_level :: "json \<Rightarrow> risk option" where
  "verdict_level v =
     (case v of
        JObj e \<Rightarrow> Some (normalize_risk (Some (py_str (dget_or e ''risk_level'' (JStr ''low'')))))
      | _ \<Rightarrow> None)"

definition raise_level :: "risk \<Rightarrow> json \<Rightarrow> risk" where
  "raise_level r v = (case verdict_level v of Some l \<Rightarrow> if l > r then l else r | None \<Rightarrow> r)"

definition declared_risk_from_verdicts :: "json \<Rightarrow> json \<Rightarrow> risk" where
  "declared_risk_from_verdicts v1 v2 = raise_level (raise_level Low v1) v2"

text \<open>
  The hash of the report and the findings: one digest over both texts, an absent one counting as a
  null character.
\<close>

definition report_content_sha :: "(string \<Rightarrow> string) \<Rightarrow> string option \<Rightarrow> string option \<Rightarrow> string" where
  "report_content_sha sha rep fnd =
     (let part = (\<lambda>d. case d of None \<Rightarrow> [CHR 0x00] | Some t \<Rightarrow> t) in sha (part rep @ part fnd))"

definition report_verify_confirmed ::
  "(string \<Rightarrow> string) \<Rightarrow> string option \<Rightarrow> string option \<Rightarrow> entry list \<Rightarrow> bool" where
  "report_verify_confirmed sha rep fnd entries =
     (let cur = report_content_sha sha rep fnd in
      list_ex (\<lambda>e. has_action ''verify'' e \<and> has_outcome ''ok'' e
                  \<and> dget e ''content_sha'' = JStr cur) entries)"

section \<open>The investigator's payload\<close>

definition wrap_draft :: "string \<Rightarrow> string" where
  "wrap_draft spec = ''---\<newline>status: draft-proposal\<newline>---\<newline>'' @ spec"

definition force_draft_status :: "string \<Rightarrow> string" where
  "force_draft_status spec_text =
     (let stripped = dropWhile (\<lambda>c. c = CHR 0x0A) spec_text in
      if \<not> prefix ''---'' stripped then wrap_draft spec_text
      else
        (let lines = splitlines stripped;
             rest = dropWhile (\<lambda>l. strip l \<noteq> ''---'') (drop 1 lines)
         in if rest = [] then wrap_draft spec_text
            else
              (let fm = filter (\<lambda>l. \<not> prefix ''status:'' (lower (lstrip l)))
                          (takeWhile (\<lambda>l. strip l \<noteq> ''---'') (drop 1 lines))
               in join newline ([''---'', ''status: draft-proposal''] @ fm @ [''---''] @ drop 1 rest)
                  @ newline)))"

text \<open>\<open>list(v)\<close>: of an array its items, of a text its characters, of a dictionary its keys.\<close>

definition py_list :: "json \<Rightarrow> exn + json list" where
  "py_list v =
     (case v of JArr xs \<Rightarrow> Inr xs | JStr s \<Rightarrow> Inr (map (\<lambda>c. JStr [c]) s)
      | JObj e \<Rightarrow> Inr (map (JStr \<circ> fst) e) | _ \<Rightarrow> Inl TypeError)"

definition investigator_fields :: "json_lib \<Rightarrow> string \<Rightarrow> exn + (string \<times> json list \<times> json)" where
  "investigator_fields J txt =
     bindR (extract_json J txt) (\<lambda>obj.
       case loads J obj of
         None \<Rightarrow> Inl (OtherError ''JSONDecodeError'')
       | Some (JObj p) \<Rightarrow>
           bindR (dsub p ''report'') (\<lambda>r. bindR (py_list (dget_or p ''findings'' (JArr []))) (\<lambda>fs.
             Inr (py_str r, fs, dget p ''fix_spec'')))
       | Some _ \<Rightarrow> Inl TypeError)"

text \<open>Every error the payload can raise becomes a verdict error, so the retry applies.\<close>

definition parse_investigator_payload :: "json_lib \<Rightarrow> string \<Rightarrow> exn + (string \<times> json list \<times> json)" where
  "parse_investigator_payload J txt =
     (case investigator_fields J txt of
        Inr p \<Rightarrow> Inr p
      | Inl e \<Rightarrow> Inl (VerdictError ''investigator payload invalid''))"

section \<open>Facts about entries\<close>

lemma has_action_fun: "has_action a e \<Longrightarrow> has_action b e \<Longrightarrow> a = b"
  by (simp add: has_action_def)

lemma has_outcome_fun: "has_outcome a e \<Longrightarrow> has_outcome b e \<Longrightarrow> a = b"
  by (simp add: has_outcome_def)

lemma dget_dsub: "dsub e k = Inr v \<Longrightarrow> dget e k = v"
  by (auto simp: dsub_def dget_def split: option.splits)

lemma last_phaseE:
  assumes "last_phase entries = Some l"
  obtains pre post where "entries = pre @ l # post" "is_phase l" "\<forall>e\<in>set post. \<not> is_phase e"
  using find_rev_split[OF assms[unfolded last_phase_def]] that by blast

text \<open>The rows of the transition table, read backwards from the phase they lead to.\<close>

definition loop_phases :: "string list" where
  "loop_phases = [''developer'', ''fast_tests'', ''rw1'', ''rw2'', ''authoritative'', ''push'', ''deadlock'', ''done'']"

lemma transitions_push:
  "map_of (transitions r2 au) (a, b) = Some ''push'' \<Longrightarrow>
     (a = ''authoritative'' \<and> b = ''pass'') \<or> (\<not> au \<and>
        ((a = ''rw2'' \<and> b = ''go'') \<or> (a = ''senior'' \<and> b = ''approved'')
         \<or> (\<not> r2 \<and> a = ''rw1'' \<and> b = ''approved'')))"
  by (auto simp: transitions_def Let_def split: if_splits)

lemma transitions_done:
  "map_of (transitions r2 au) (a, b) = Some ''done'' \<Longrightarrow> a = ''push'' \<and> b = ''ok''"
  by (auto simp: transitions_def Let_def split: if_splits)

lemma transitions_range: "map_of (transitions r2 au) (a, b) = Some p \<Longrightarrow> p \<in> set loop_phases"
  by (auto simp: transitions_def Let_def loop_phases_def split: if_splits)

lemma cap_not_loop_phase: "''cap_reached'' \<notin> set loop_phases" "''developer'' \<in> set loop_phases"
  by (simp_all add: loop_phases_def)

lemma transition_of_rows:
  assumes "transition_of r2 au e = Inr p"
  shows "p = ''developer'' \<or> (\<exists>a b. has_action a e \<and> has_outcome b e
     \<and> map_of (transitions r2 au) (a, b) = Some p)"
  using assms dget_dsub
  by (auto simp: transition_of_def res_simps has_action_def has_outcome_def
      split: if_splits json.splits option.splits)

section \<open>What a pushed log shows\<close>

lemma derive_phase:
  assumes "derive_resume_point entries m r2 au = Inr rp"
  obtains (fresh) "last_phase entries = None"
      "rp_phase rp = (if int (rounds_used entries) \<ge> m then ''cap_reached'' else ''developer'')"
  | (row) l p where "last_phase entries = Some l" "transition_of r2 au l = Inr p"
      "rp_phase rp = (if p = ''developer'' \<and> int (rounds_used entries) \<ge> m then ''cap_reached'' else p)"
  using assms
  by (cases "last_phase entries") (auto simp: derive_resume_point_def Let_def res_simps)

lemma transition_of_range: "transition_of r2 au l = Inr p \<Longrightarrow> p \<in> set loop_phases"
  using transition_of_rows transitions_range cap_not_loop_phase(2) by blast

lemma derive_developer:
  assumes "derive_resume_point entries m r2 au = Inr rp" "rp_phase rp = ''developer''"
  shows "int (rounds_used entries) < m"
  using assms(1)
proof (cases rule: derive_phase)
  case fresh
  then show ?thesis using assms(2) by (simp split: if_splits)
next
  case (row l p)
  then show ?thesis using assms(2) by (auto split: if_splits)
qed

lemma derive_cap:
  assumes "derive_resume_point entries m r2 au = Inr rp" "rp_phase rp = ''cap_reached''"
  shows "m \<le> int (rounds_used entries)"
  using assms(1)
proof (cases rule: derive_phase)
  case fresh
  then show ?thesis using assms(2) by (simp split: if_splits)
next
  case (row l p)
  then have "p \<noteq> ''cap_reached''"
    using transition_of_range cap_not_loop_phase(1) by metis
  then show ?thesis using row(3) assms(2) by (simp split: if_splits)
qed

lemma derive_range:
  assumes "derive_resume_point entries m r2 au = Inr rp"
  shows "rp_phase rp \<in> set loop_phases \<or> rp_phase rp = ''cap_reached''"
  using assms
proof (cases rule: derive_phase)
  case fresh
  then show ?thesis using cap_not_loop_phase(2) by simp
next
  case (row l p)
  then show ?thesis using transition_of_range by simp
qed

text \<open>A phase other than the two developer ones comes from a row of the table.\<close>

lemma derive_row:
  assumes "derive_resume_point entries m r2 au = Inr rp"
    and "rp_phase rp \<noteq> ''developer''" "rp_phase rp \<noteq> ''cap_reached''"
  shows "\<exists>l a b. last_phase entries = Some l \<and> has_action a l \<and> has_outcome b l
     \<and> map_of (transitions r2 au) (a, b) = Some (rp_phase rp)"
  using assms(1)
proof (cases rule: derive_phase)
  case fresh
  then show ?thesis using assms(2,3) by (simp split: if_splits)
next
  case (row l p)
  then have "p = rp_phase rp"
    using assms(3) by (simp split: if_splits)
  then show ?thesis
    using row(1) transition_of_rows[OF row(2)] assms(2) by auto
qed

text \<open>
  C2: The loop pushes a branch only behind its last gate: the derived next phase is the push only
  when the latest phase entry is a passed authoritative run, or, in a composition without that gate,
  an approval of the last reviewer it has (or of the senior); and a new developer round is derived
  only while fewer rounds than the cap were used.
\<close>

theorem push_only_behind_gate:
  assumes "derive_resume_point entries max_loops r2 au = Inr rp"
  shows "(rp_phase rp = ''push'' \<longrightarrow> (\<exists>l. last_phase entries = Some l \<and>
            ((has_action ''authoritative'' l \<and> has_outcome ''pass'' l) \<or> (\<not> au \<and>
             ((has_action ''rw2'' l \<and> has_outcome ''go'' l) \<or> (has_action ''senior'' l \<and> has_outcome ''approved'' l)
              \<or> (\<not> r2 \<and> has_action ''rw1'' l \<and> has_outcome ''approved'' l))))))
    \<and> (rp_phase rp = ''developer'' \<longrightarrow> int (rounds_used entries) < max_loops)
    \<and> (rp_phase rp = ''cap_reached'' \<longrightarrow> max_loops \<le> int (rounds_used entries))
    \<and> (rp_phase rp = ''done'' \<longrightarrow> (\<exists>l. last_phase entries = Some l \<and> has_action ''push'' l \<and> has_outcome ''ok'' l))"
proof (intro conjI impI)
  assume p: "rp_phase rp = ''push''"
  then have "rp_phase rp \<noteq> ''developer''" "rp_phase rp \<noteq> ''cap_reached''"
    by simp_all
  from derive_row[OF assms this] obtain l a b where l: "last_phase entries = Some l" "has_action a l"
    "has_outcome b l" "map_of (transitions r2 au) (a, b) = Some ''push''"
    unfolding p by blast
  then show "\<exists>l. last_phase entries = Some l \<and>
            ((has_action ''authoritative'' l \<and> has_outcome ''pass'' l) \<or> (\<not> au \<and>
             ((has_action ''rw2'' l \<and> has_outcome ''go'' l) \<or> (has_action ''senior'' l \<and> has_outcome ''approved'' l)
              \<or> (\<not> r2 \<and> has_action ''rw1'' l \<and> has_outcome ''approved'' l))))"
    using transitions_push[OF l(4)] by (intro exI[of _ l]) auto
next
  assume p: "rp_phase rp = ''done''"
  then have "rp_phase rp \<noteq> ''developer''" "rp_phase rp \<noteq> ''cap_reached''"
    by simp_all
  from derive_row[OF assms this] obtain l a b where l: "last_phase entries = Some l" "has_action a l"
    "has_outcome b l" "map_of (transitions r2 au) (a, b) = Some ''done''"
    unfolding p by blast
  then show "\<exists>l. last_phase entries = Some l \<and> has_action ''push'' l \<and> has_outcome ''ok'' l"
    using transitions_done[OF l(4)] by auto
qed (use assms derive_developer derive_cap in blast)+

definition log_entry :: "string \<Rightarrow> string \<Rightarrow> entry" where
  "log_entry a r = [(''action'', JStr a), (''outcome'', JStr r)]"

theorem push_only_behind_gate_witness:
  "\<exists>rp. derive_resume_point [log_entry ''developer'' ''ok'', log_entry ''authoritative'' ''pass''] 4 True True = Inr rp
     \<and> rp_phase rp = ''push''
     \<and> (\<exists>l. last_phase [log_entry ''developer'' ''ok'', log_entry ''authoritative'' ''pass''] = Some l
          \<and> has_action ''authoritative'' l)"
proof -
  have "\<exists>rp. derive_resume_point [log_entry ''developer'' ''ok'', log_entry ''authoritative'' ''pass''] 4 True True = Inr rp
     \<and> rp_phase rp = ''push''"
    by (simp add: derive_resume_point_def last_phase_def is_phase_def phase_actions_def has_action_def
        log_entry_def transition_of_def dsub_def hashable_def transitions_def rounds_used_def Let_def)
  then show ?thesis
    using push_only_behind_gate by blast
qed

section \<open>Replay of a finished run\<close>

text \<open>The state an entry records, if it is a terminal or a completed push.\<close>

definition terminal_of :: "entry \<Rightarrow> string option" where
  "terminal_of e =
     (if has_action ''terminal'' e then Some (outcome_text e)
      else if has_action ''push'' e \<and> has_outcome ''ok'' e then Some ''PUSHED'' else None)"

lemma recorded_from_skip:
  "(\<forall>x\<in>set a. terminal_of x = None) \<Longrightarrow> recorded_from later (a @ es) = recorded_from (rev a @ later) es"
  by (induction a arbitrary: later) (auto simp: terminal_of_def split: if_splits)

lemma recorded_from_hit:
  "terminal_of e = Some t \<Longrightarrow>
   recorded_from later (e # es) =
     (if sticky (terminal_spec t) \<and> (\<forall>x\<in>set later. \<not> clears_terminal (action_text x) t) then Some t else None)"
  by (auto simp: terminal_of_def sticky_def list_ex_iff split: if_splits)

lemma recorded_from_none:
  "(\<forall>x\<in>set es. terminal_of x = None) \<Longrightarrow> recorded_from later es = None"
  by (induction es arbitrary: later) (auto simp: terminal_of_def split: if_splits)

lemma recorded_terminal_at:
  assumes "\<forall>x\<in>set later. terminal_of x = None" "terminal_of e = Some t"
  shows "recorded_terminal (pre @ e # later) =
     (if sticky (terminal_spec t) \<and> (\<forall>x\<in>set later. \<not> clears_terminal (action_text x) t) then Some t else None)"
  using assms recorded_from_skip[of "rev later" "[]" "e # rev pre"]
  by (simp add: recorded_terminal_def recorded_from_hit del: recorded_from.simps)

text \<open>
  A finished task stays finished, and one resume buys one run: the replay reports a state exactly
  when the last terminal or completed push in the log records it, that state is sticky, and no log
  action after it re-arms it. In particular a retryable state (a quota timeout, an internal error)
  recorded last is never reported, and a resume older than the terminal does not count.
\<close>

theorem recorded_terminal_iff:
  "recorded_terminal entries = Some st \<longleftrightarrow>
     (\<exists>pre e later. entries = pre @ e # later \<and> terminal_of e = Some st
        \<and> (\<forall>x\<in>set later. terminal_of x = None) \<and> sticky (terminal_spec st)
        \<and> (\<forall>x\<in>set later. \<not> clears_terminal (action_text x) st))"
proof (cases "\<exists>x\<in>set entries. terminal_of x \<noteq> None")
  case True
  then obtain pre e later where es: "entries = pre @ e # later" "terminal_of e \<noteq> None"
    "\<forall>x\<in>set later. \<not> terminal_of x \<noteq> None"
    using split_list_last_prop[of entries "\<lambda>x. terminal_of x \<noteq> None"] by blast
  then obtain t where t: "terminal_of e = Some t" and none: "\<forall>x\<in>set later. terminal_of x = None"
    by auto
  show ?thesis
  proof
    assume "recorded_terminal entries = Some st"
    then show "\<exists>pre e later. entries = pre @ e # later \<and> terminal_of e = Some st
        \<and> (\<forall>x\<in>set later. terminal_of x = None) \<and> sticky (terminal_spec st)
        \<and> (\<forall>x\<in>set later. \<not> clears_terminal (action_text x) st)"
      using es(1) t none recorded_terminal_at[OF none t, of pre] by (auto split: if_splits)
  next
    assume "\<exists>pre e later. entries = pre @ e # later \<and> terminal_of e = Some st
        \<and> (\<forall>x\<in>set later. terminal_of x = None) \<and> sticky (terminal_spec st)
        \<and> (\<forall>x\<in>set later. \<not> clears_terminal (action_text x) st)"
    then show "recorded_terminal entries = Some st"
      using recorded_terminal_at by (elim exE conjE) simp
  qed
next
  case False
  then have "recorded_terminal entries = None"
    unfolding recorded_terminal_def by (intro recorded_from_none) simp
  then show ?thesis
    using False by force
qed

theorem recorded_terminal_iff_witness:
  "recorded_terminal [log_entry ''terminal'' ''CAP_REACHED'', log_entry ''quota_resumed'' ''ok''] = Some ''CAP_REACHED''
   \<and> recorded_terminal [log_entry ''terminal'' ''QUOTA_TIMEOUT''] = None"
proof
  show "recorded_terminal [log_entry ''terminal'' ''CAP_REACHED'', log_entry ''quota_resumed'' ''ok'']
      = Some ''CAP_REACHED''"
    unfolding recorded_terminal_iff
    by (rule exI[of _ "[]"], rule exI[of _ "log_entry ''terminal'' ''CAP_REACHED''"],
        rule exI[of _ "[log_entry ''quota_resumed'' ''ok'']"]) code_simp
  show "recorded_terminal [log_entry ''terminal'' ''QUOTA_TIMEOUT''] = None"
    by code_simp
qed

section \<open>Drafts\<close>

lemma wrap_draft_lines:
  "splitlines (wrap_draft t) = [''---'', ''status: draft-proposal'', ''---''] @ splitlines t"
proof -
  have "wrap_draft t = concat (map (\<lambda>l. l @ [CHR 0x0A]) [''---'', ''status: draft-proposal'', ''---'']) @ t"
    by (simp add: wrap_draft_def)
  moreover have "list_all one_line [''---'', ''status: draft-proposal'', ''---'']"
    by code_simp
  ultimately show ?thesis
    by (simp only: splitlines_lines_append)
qed

definition draft_fields :: "string list \<Rightarrow> spec_error + (string \<times> string) list" where
  "draft_fields ls = front_matter_fields [] (''status: draft-proposal'' # ls)"

lemma draft_fields_step:
  "draft_fields ls = front_matter_fields [(''status'', ''draft-proposal'')] ls"
proof -
  have "strip ''status: draft-proposal'' = ''status: draft-proposal''"
    "lstrip ''status: draft-proposal'' = ''status: draft-proposal''"
    "strip (before_char CHR '':'' ''status: draft-proposal'') = ''status''"
    "strip (after_char CHR '':'' ''status: draft-proposal'') = ''draft-proposal''"
    by code_simp+
  then show ?thesis
    by (simp add: draft_fields_def Let_def)
qed

lemma draft_fields_status: "draft_fields ls = Inr fs \<Longrightarrow> map_of fs ''status'' = Some draft_status"
  unfolding draft_fields_step by (drule front_matter_fields_keep[of _ _ _ "''status''"]) (auto simp: draft_status_def)

lemma parse_draft_lines:
  assumes "first_line t = ''---''" "splitlines t = ''---'' # ''status: draft-proposal'' # ls"
    and "parse_spec_text t = Inr s"
  shows "is_draft s"
proof -
  obtain fs where fs: "parse_front_matter t = Inr fs" "spec_status s = or_none (field_or fs ''status'' [])"
    using assms(3) by (rule parse_spec_text_ok)
  have ascii: "find (\<lambda>ch. ord ch > 127) ''---'' = None" and dashes: "strip ''---'' = ''---''"
    by code_simp+
  have "parse_front_matter t = draft_fields ls"
    by (simp add: parse_front_matter_def assms(1,2) ascii dashes draft_fields_def)
  then have "map_of fs ''status'' = Some draft_status"
    using fs(1) draft_fields_status by simp
  then show ?thesis
    using fs(2) by (simp add: is_draft_def field_or_def or_none_def draft_status_def)
qed

lemma first_line_dashes: "first_line (''---'' @ CHR 0x0A # t) = ''---''"
  by (simp add: first_line_def split: list.split)

text \<open>
  A report-only agent cannot emit a runnable spec: whatever text it proposes, with whatever front
  matter, the rewritten spec either does not parse or is a draft.
\<close>

theorem force_draft_status_is_draft:
  assumes "parse_spec_text (force_draft_status t) = Inr s"
  shows "is_draft s"
proof -
  define st where "st = dropWhile (\<lambda>c. c = CHR 0x0A) t"
  define rest where "rest = dropWhile (\<lambda>l. strip l \<noteq> ''---'') (drop 1 (splitlines st))"
  define fm where "fm = filter (\<lambda>l. \<not> prefix ''status:'' (lower (lstrip l)))
      (takeWhile (\<lambda>l. strip l \<noteq> ''---'') (drop 1 (splitlines st)))"
  have wrap: "is_draft s" if "force_draft_status t = wrap_draft t"
  proof (rule parse_draft_lines[OF _ _ assms])
    show "first_line (force_draft_status t) = ''---''"
      unfolding that using first_line_dashes by (simp add: wrap_draft_def)
    show "splitlines (force_draft_status t) = ''---'' # ''status: draft-proposal'' # ''---'' # splitlines t"
      unfolding that by (simp add: wrap_draft_lines)
  qed
  show ?thesis
  proof (cases "\<not> prefix ''---'' st \<or> rest = []")
    case True
    then show ?thesis
      by (intro wrap) (auto simp: force_draft_status_def Let_def st_def rest_def)
  next
    case False
    define ls where "ls = fm @ [''---''] @ drop 1 rest"
    have built: "force_draft_status t = join newline (''---'' # ''status: draft-proposal'' # ls) @ newline"
      using False unfolding force_draft_status_def Let_def st_def[symmetric] rest_def[symmetric]
        fm_def[symmetric] by (simp add: ls_def)
    have "set rest \<subseteq> set (splitlines st)" "set fm \<subseteq> set (splitlines st)"
      unfolding rest_def fm_def by (auto dest!: set_dropWhileD set_takeWhileD in_set_dropD)
    then have "list_all one_line ls"
      using splitlines_one_line[of st] by (auto simp: ls_def list_all_iff one_line_def line_break_def dest: in_set_dropD)
    moreover have "one_line ''---''" "one_line ''status: draft-proposal''"
      by code_simp+
    ultimately have lines: "list_all one_line (''---'' # ''status: draft-proposal'' # ls)"
      by simp
    show ?thesis
    proof (rule parse_draft_lines[OF _ _ assms])
      show "splitlines (force_draft_status t) = ''---'' # ''status: draft-proposal'' # ls"
        unfolding built newline_def by (subst join_lines) (simp, rule splitlines_lines[OF lines])
      show "first_line (force_draft_status t) = ''---''"
        unfolding built newline_def using first_line_dashes by simp
    qed
  qed
qed

theorem force_draft_status_is_draft_witness:
  "\<exists>s. parse_spec_text (force_draft_status (''---'' @ newline @ ''status: done'' @ newline @ ''---'')) = Inr s
     \<and> is_draft s"
proof -
  have "force_draft_status (''---'' @ newline @ ''status: done'' @ newline @ ''---'') =
      ''---'' @ newline @ ''status: draft-proposal'' @ newline @ ''---'' @ newline"
    by code_simp
  moreover have "parse_front_matter (''---'' @ newline @ ''status: draft-proposal'' @ newline @ ''---'' @ newline) =
      Inr [(''status'', ''draft-proposal'')]"
    by code_simp
  ultimately have "\<exists>s. parse_spec_text (force_draft_status (''---'' @ newline @ ''status: done'' @ newline @ ''---'')) = Inr s"
    by (simp add: parse_spec_text_def parse_roles_def field_or_def spec_tables or_none_def)
  then show ?thesis
    using force_draft_status_is_draft by blast
qed

section \<open>What the replayed gates stand for\<close>

text \<open>An entry that approves for reviewer \<open>a\<close> with outcome \<open>ok\<close>, or a senior approval in its place.\<close>

definition approves :: "string \<Rightarrow> string \<Rightarrow> entry \<Rightarrow> bool" where
  "approves a ok e = ((has_action a e \<and> has_outcome ok e) \<or> (has_action ''senior'' e \<and> has_outcome ''approved'' e))"

text \<open>The approval in force: no later entry of that reviewer.\<close>

definition approval_in_force :: "string \<Rightarrow> string \<Rightarrow> entry list \<Rightarrow> string option \<Rightarrow> bool" where
  "approval_in_force a ok entries sha =
     (\<exists>pre e post. entries = pre @ e # post \<and> approves a ok e \<and> as_str (dget e ''sha'') = sha
        \<and> (\<forall>x\<in>set post. \<not> has_action a x))"

lemma approval_in_force_snoc:
  "approval_in_force a ok entries sha \<Longrightarrow> \<not> has_action a e \<Longrightarrow> approval_in_force a ok (entries @ [e]) sha"
proof -
  assume "approval_in_force a ok entries sha" and e: "\<not> has_action a e"
  then obtain pre x post where "entries = pre @ x # post" "approves a ok x" "as_str (dget x ''sha'') = sha"
    "\<forall>y\<in>set post. \<not> has_action a y"
    unfolding approval_in_force_def by blast
  then show ?thesis
    unfolding approval_in_force_def using e
    by (intro exI[of _ pre] exI[of _ x] exI[of _ "post @ [e]"]) auto
qed

lemma approval_in_force_last:
  "approves a ok e \<Longrightarrow> as_str (dget e ''sha'') = sha \<Longrightarrow> approval_in_force a ok (entries @ [e]) sha"
  unfolding approval_in_force_def by (intro exI[of _ entries] exI[of _ e] exI[of _ "[]"]) simp

definition replay_gates :: "string \<Rightarrow> entry list \<Rightarrow> gate_states" where
  "replay_gates head entries = foldl gate_step (no_gates head) entries"

lemma replay_gates_snoc: "replay_gates head (entries @ [e]) = gate_step (replay_gates head entries) e"
  by (simp add: replay_gates_def)

lemma replay_rw1:
  "rw1_approved (replay_gates head entries) \<Longrightarrow>
   approval_in_force ''rw1'' ''approved'' entries (rw1_sha (replay_gates head entries))"
proof (induction entries rule: rev_induct)
  case Nil
  then show ?case by (simp add: replay_gates_def no_gates_def)
next
  case (snoc e es)
  consider (rw1) "has_action ''rw1'' e"
    | (sen) "\<not> has_action ''rw1'' e" "\<not> rw1_approved (replay_gates head es)"
    | (old) "\<not> has_action ''rw1'' e" "rw1_approved (replay_gates head es)"
    by blast
  then show ?case
  proof cases
    case rw1
    then show ?thesis
      using snoc.prems approval_in_force_last[of "''rw1''" "''approved''" e]
      by (simp add: replay_gates_snoc gate_step_def approves_def)
  next
    case sen
    then have "has_action ''senior'' e \<and> has_outcome ''approved'' e
        \<and> rw1_sha (replay_gates head (es @ [e])) = as_str (dget e ''sha'')"
      using snoc.prems by (auto simp: replay_gates_snoc gate_step_def Let_def split: if_splits)
    then show ?thesis
      by (intro approval_in_force_last) (auto simp: approves_def)
  next
    case old
    then have "rw1_sha (replay_gates head (es @ [e])) = rw1_sha (replay_gates head es)"
      by (simp add: replay_gates_snoc gate_step_def Let_def)
    then show ?thesis
      using snoc.IH old by (simp add: approval_in_force_snoc)
  qed
qed

lemma replay_rw2:
  "rw2_go (replay_gates head entries) \<Longrightarrow>
   approval_in_force ''rw2'' ''go'' entries (rw2_sha (replay_gates head entries))"
proof (induction entries rule: rev_induct)
  case Nil
  then show ?case by (simp add: replay_gates_def no_gates_def)
next
  case (snoc e es)
  consider (rw2) "has_action ''rw2'' e"
    | (sen) "\<not> has_action ''rw2'' e" "\<not> rw2_go (replay_gates head es)"
    | (old) "\<not> has_action ''rw2'' e" "rw2_go (replay_gates head es)"
    by blast
  then show ?case
  proof cases
    case rw2
    then have "\<not> has_action ''rw1'' e"
      using has_action_fun[of "''rw1''" e "''rw2''"] by auto
    then show ?thesis
      using rw2 snoc.prems approval_in_force_last[of "''rw2''" "''go''" e]
      by (simp add: replay_gates_snoc gate_step_def approves_def)
  next
    case sen
    then have "has_action ''senior'' e \<and> has_outcome ''approved'' e
        \<and> rw2_sha (replay_gates head (es @ [e])) = as_str (dget e ''sha'')"
      using snoc.prems by (auto simp: replay_gates_snoc gate_step_def Let_def split: if_splits)
    then show ?thesis
      by (intro approval_in_force_last) (auto simp: approves_def)
  next
    case old
    then have "rw2_sha (replay_gates head (es @ [e])) = rw2_sha (replay_gates head es)"
      by (simp add: replay_gates_snoc gate_step_def Let_def)
    then show ?thesis
      using snoc.IH old by (simp add: approval_in_force_snoc)
  qed
qed

definition authoritative_green :: "entry list \<Rightarrow> string option \<Rightarrow> bool" where
  "authoritative_green entries sha =
     (\<exists>pre e post. entries = pre @ e # post \<and> has_action ''authoritative'' e \<and> has_outcome ''pass'' e
        \<and> as_str (dget e ''sha'') = sha \<and> (\<forall>x\<in>set post. \<not> has_action ''authoritative'' x))"

lemma replay_authoritative:
  "authoritative_passed (replay_gates head entries) \<Longrightarrow>
   authoritative_green entries (authoritative_sha (replay_gates head entries))"
proof (induction entries rule: rev_induct)
  case Nil
  then show ?case by (simp add: replay_gates_def no_gates_def)
next
  case (snoc e es)
  show ?case
  proof (cases "has_action ''authoritative'' e")
    case True
    then have "\<not> has_action ''rw1'' e" "\<not> has_action ''rw2'' e" "\<not> has_action ''senior'' e"
      by (simp_all add: has_action_def)
    then show ?thesis
      using True snoc.prems unfolding authoritative_green_def
      by (intro exI[of _ es] exI[of _ e] exI[of _ "[]"]) (simp add: replay_gates_snoc gate_step_def)
  next
    case False
    then have same: "authoritative_sha (replay_gates head (es @ [e])) = authoritative_sha (replay_gates head es)"
      "authoritative_passed (replay_gates head (es @ [e])) = authoritative_passed (replay_gates head es)"
      by (simp_all add: replay_gates_snoc gate_step_def Let_def)
    then obtain pre a post where "es = pre @ a # post" "has_action ''authoritative'' a" "has_outcome ''pass'' a"
      "as_str (dget a ''sha'') = authoritative_sha (replay_gates head es)"
      "\<forall>x\<in>set post. \<not> has_action ''authoritative'' x"
      using snoc unfolding authoritative_green_def by auto
    then show ?thesis
      unfolding authoritative_green_def same using False
      by (intro exI[of _ pre] exI[of _ a] exI[of _ "post @ [e]"]) auto
  qed
qed

lemma gate_states_all:
  "gate_states_from_log entries head True True = replay_gates head entries"
  by (simp add: gate_states_from_log_def replay_gates_def)

lemma replay_head [simp]: "head_sha (replay_gates head entries) = head"
  by (induction entries rule: rev_induct)
     (simp_all add: replay_gates_snoc gate_step_def Let_def, simp add: replay_gates_def no_gates_def)

text \<open>
  C7: An automatic merge is backed by the log itself: when the decision, taken over the gates replayed
  from the log, is not to stop, then for both reviewers an approval bound to the head commit is in
  force (theirs, or the senior's, with no later verdict of that reviewer), the last authoritative
  entry passed on the head commit, and no changed path is sensitive.
\<close>

theorem auto_merge_backed_by_log:
  assumes "merge_decision i = Inr d" "md_decision d \<noteq> StopBeforeMerge"
    and "mi_gates i = gate_states_from_log entries head True True"
  shows "approval_in_force ''rw1'' ''approved'' entries (Some head)
    \<and> approval_in_force ''rw2'' ''go'' entries (Some head)
    \<and> authoritative_green entries (Some head)
    \<and> sensitive_paths (mi_policy i) (mi_files i) = []"
proof -
  obtain ds where "d = decision_of (input_risk i) (user_visible (mi_policy i) (mi_files i)) (merge_reasons i ds)"
    using assms(1) by (rule merge_decision_okE)
  then have "merge_reasons i ds = []"
    using assms(2) by simp
  then have g: "gate_reasons (replay_gates head entries) = []" and s: "sensitive_paths (mi_policy i) (mi_files i) = []"
    using assms(3) unfolding merge_reasons_Nil_iff gate_states_all by simp_all
  then show ?thesis
    using replay_rw1[of head entries] replay_rw2[of head entries] replay_authoritative[of head entries]
    by (auto simp: gate_reasons_def)
qed

definition green_log :: "entry list" where
  "green_log = map (\<lambda>(a, r). log_entry a r @ [(''sha'', JStr ''a1'')])
     [(''rw1'', ''changes_requested''), (''senior'', ''approved''), (''rw2'', ''go''), (''authoritative'', ''pass'')]"

theorem auto_merge_backed_by_log_witness:
  "approval_in_force ''rw1'' ''approved'' green_log (Some ''a1'') \<and> authoritative_green green_log (Some ''a1'')"
proof -
  have "gate_states_from_log green_log ''a1'' True True = green_gates"
    by code_simp
  then have "mi_gates demo_inputs = gate_states_from_log green_log ''a1'' True True"
    by (simp add: demo_inputs_def)
  then show ?thesis
    using auto_merge_backed_by_log[OF demo_inputs_auto] by simp
qed

section \<open>The resume grant\<close>

lemma dev_rounds_from_bound:
  "dev_rounds_from n es = Some k \<Longrightarrow> \<exists>a e b. es = a @ e # b \<and> has_action ''director_resume'' e
     \<and> (\<forall>x\<in>set a. \<not> has_action ''director_resume'' x) \<and> k = n + length (filter (has_action ''developer'') a)"
proof (induction es arbitrary: n)
  case (Cons e es)
  show ?case
  proof (cases "has_action ''director_resume'' e")
    case True
    then show ?thesis
      using Cons.prems by (intro exI[of _ "[]"] exI[of _ e] exI[of _ es]) simp
  next
    case False
    then obtain a x b where "es = a @ x # b" "has_action ''director_resume'' x"
      "\<forall>y\<in>set a. \<not> has_action ''director_resume'' y"
      "k = (if has_action ''developer'' e then Suc n else n) + length (filter (has_action ''developer'') a)"
      using Cons.IH[of "if has_action ''developer'' e then Suc n else n"] Cons.prems by auto
    then show ?thesis
      using False by (intro exI[of _ "e # a"] exI[of _ x] exI[of _ b]) auto
  qed
qed simp

text \<open>
  The Director's resume grants a bounded burst and never skips a gate: a developer round is forced
  only when the log has a resume with fewer than three developer rounds after the last one, never in
  place of a test, review or push phase, and never over a convergence reached after the resume; the
  sessions are kept and the round is numbered after all earlier ones.
\<close>

theorem resume_grant_bounded:
  assumes "resume_developer_point entries rp = Some rp'"
  shows "rp_phase rp' = ''developer'' \<and> rp_round rp' = int (rounds_used entries) + 1
    \<and> rp_dev_session rp' = rp_dev_session rp
    \<and> rp_phase rp \<notin> {''fast_tests'', ''rw1'', ''rw2'', ''authoritative'', ''push''}
    \<and> (\<exists>pre e post. entries = pre @ e # post \<and> has_action ''director_resume'' e
         \<and> (\<forall>x\<in>set post. \<not> has_action ''director_resume'' x)
         \<and> rounds_used post < 3 \<and> (rp_phase rp = ''done'' \<longrightarrow> rounds_used post = 0))"
proof -
  obtain k where k: "dev_rounds_since_resume entries = Some k" "k < 3" "rp_phase rp = ''done'' \<longrightarrow> k = 0"
    and r: "rp_phase rp \<notin> set resume_flowthrough_phases"
      "rp' = rp\<lparr>rp_phase := ''developer'', rp_round := int (rounds_used entries) + 1\<rparr>"
    using assms by (auto simp: resume_developer_point_def resume_round_grant_def split: option.splits if_splits)
  obtain a e b where ab: "rev entries = a @ e # b" "has_action ''director_resume'' e"
    "\<forall>x\<in>set a. \<not> has_action ''director_resume'' x" "k = length (filter (has_action ''developer'') a)"
    using dev_rounds_from_bound[OF k(1)[unfolded dev_rounds_since_resume_def]] by auto
  have "entries = rev b @ e # rev a"
    using ab(1) by (simp add: rev_eq_append_conv)
  moreover have "rounds_used (rev a) = k"
    using ab(4) by (simp add: rounds_used_def rev_filter[symmetric])
  ultimately have burst: "\<exists>pre e post. entries = pre @ e # post \<and> has_action ''director_resume'' e
         \<and> (\<forall>x\<in>set post. \<not> has_action ''director_resume'' x)
         \<and> rounds_used post < 3 \<and> (rp_phase rp = ''done'' \<longrightarrow> rounds_used post = 0)"
    using ab k by (intro exI[of _ "rev b"] exI[of _ e] exI[of _ "rev a"]) simp
  have flow: "rp_phase rp \<notin> {''fast_tests'', ''rw1'', ''rw2'', ''authoritative'', ''push''}"
    using r(1) unfolding resume_flowthrough_phases_def list.set .
  show ?thesis
    by (intro conjI burst flow) (simp_all add: r(2))
qed

theorem resume_grant_bounded_witness:
  "\<exists>rp'. resume_developer_point [log_entry ''terminal'' ''CAP_REACHED'', log_entry ''director_resume'' ''ok'']
       \<lparr>rp_round = 5, rp_phase = ''cap_reached'', rp_dev_session = JNull, rp_rw1_session = JNull, rp_rw2_session = JNull\<rparr>
     = Some rp' \<and> rp_phase rp' = ''developer''"
proof -
  have "\<exists>rp'. resume_developer_point [log_entry ''terminal'' ''CAP_REACHED'', log_entry ''director_resume'' ''ok'']
       \<lparr>rp_round = 5, rp_phase = ''cap_reached'', rp_dev_session = JNull, rp_rw1_session = JNull, rp_rw2_session = JNull\<rparr>
     = Some rp'"
    by (simp add: resume_developer_point_def dev_rounds_since_resume_def has_action_def log_entry_def
        resume_round_grant_def resume_flowthrough_phases_def)
  then show ?thesis
    using resume_grant_bounded by blast
qed

end
