(* ===== verification/Testgate.thy ===== *)
theory Testgate
  imports Agents
begin

text \<open>
  Model of \<open>src/orchestrator/testgate.py\<close>: the fast gate, the command the containerised gate runs, and
  the reading of the binding gate's result. The shell is an argument; the process id in the compose
  project name is one too.
\<close>

definition nl :: string where
  "nl = [CHR 0x0A]"

definition rstrip_nl :: "string \<Rightarrow> string" where
  "rstrip_nl s = rev (dropWhile (\<lambda>c. c = CHR 0x0A) (rev s))"

text \<open>Standard error first, so that the tail lands on standard output.\<close>

definition merge_streams :: "string \<Rightarrow> string \<Rightarrow> string" where
  "merge_streams out err =
     join nl ((if strip err \<noteq> [] then [''--- stderr ---'' @ nl @ rstrip_nl err] else [])
            @ (if strip out \<noteq> [] then [''--- stdout ---'' @ nl @ rstrip_nl out] else []))"

definition combined_shell ::
  "(string \<Rightarrow> ('s, int \<times> string \<times> string) prog) \<Rightarrow> string \<Rightarrow> ('s, int \<times> string) prog" where
  "combined_shell split_shell command =
     bindP (split_shell command) (\<lambda>(rc, out, err). retP (rc, merge_streams out err))"

record test_result =
  tr_passed :: bool
  tr_tail :: string
  tr_command :: string

definition tail :: "string \<Rightarrow> string" where
  "tail txt = join nl (let ls = splitlines txt in drop (length ls - 400) ls)"

definition run_fast :: "(string \<Rightarrow> ('s, int \<times> string) prog) \<Rightarrow> string \<Rightarrow> ('s, test_result) prog" where
  "run_fast shell commands =
     bindP (shell commands) (\<lambda>(rc, out).
       retP \<lparr>tr_passed = (rc = 0), tr_tail = tail out, tr_command = commands\<rparr>)"

definition frontend_touched :: "string list \<Rightarrow> string list \<Rightarrow> bool" where
  "frontend_touched files pres = list_ex (\<lambda>f. list_ex (\<lambda>p. prefix p f) pres) files"

section \<open>The containerised command\<close>

definition backend_gate :: string where
  "backend_gate = ''ruff check . && basedpyright && pytest -n auto -q''"

definition restored_infra_dirs :: "string list" where
  "restored_infra_dirs = [''.laddy/docker'', ''.laddy/security'']"

definition neutralized_scan_configs :: "string list" where
  "neutralized_scan_configs =
     [''.semgrepignore'', ''.semgrep'', ''.gitleaks.toml'', ''.gitleaksignore'', ''.coveragerc'',
      ''ruff.toml'', ''.ruff.toml'', ''pyrightconfig.json'']"

definition restored_infra_paths :: "string list \<Rightarrow> string list" where
  "restored_infra_paths changed =
     filter (\<lambda>p. list_ex (\<lambda>d. p = d \<or> prefix (d @ ''/'') p) restored_infra_dirs) changed"

definition compose_project :: "nat \<Rightarrow> string \<Rightarrow> string" where
  "compose_project pid sha = ''laddy-gate-'' @ take 12 sha @ ''-'' @ str_of_nat pid"

definition dq :: string where
  "dq = [CHR 0x22]"

definition sq :: string where
  "sq = [CHR 0x27]"

definition restore_step :: "string \<Rightarrow> string \<Rightarrow> string" where
  "restore_step ref p =
     ''&& rm -rf '' @ dq @ ''$tmp/repo/'' @ p @ dq @ '' && git -C '' @ dq @ ''$tmp/repo'' @ dq
     @ '' checkout '' @ ref @ '' -- '' @ p @ '' ''"

definition neutralize_step :: "string \<Rightarrow> string" where
  "neutralize_step ref =
     ''&& for p in '' @ join '' '' neutralized_scan_configs @ ''; do git -C '' @ dq @ ''$tmp/repo'' @ dq
     @ '' checkout '' @ ref @ '' -- '' @ dq @ ''$p'' @ dq @ '' 2>/dev/null || rm -rf '' @ dq
     @ ''$tmp/repo/$p'' @ dq @ ''; done ''"

definition containerized ::
  "nat \<Rightarrow> string \<Rightarrow> string \<Rightarrow> string \<Rightarrow> string option \<Rightarrow> exn + string" where
  "containerized pid compose_rel sha gate_command trusted_ref =
     (if CHR 0x27 \<in> set gate_command then Inl ValueError
      else
        (let project = compose_project pid sha;
             ref = (case trusted_ref of None \<Rightarrow> [] | Some r \<Rightarrow> r);
             restore = (if ref \<noteq> [] then concat (map (restore_step ref) restored_infra_dirs) else []);
             neutral = (if ref \<noteq> [] then neutralize_step ref else [])
         in Inr (
           ''tmp='' @ dq @ ''$(mktemp -d)'' @ dq @ '' && git clone --no-local . '' @ dq @ ''$tmp/repo'' @ dq
         @ '' && git -C '' @ dq @ ''$tmp/repo'' @ dq @ '' checkout -q '' @ sha @ '' ''
         @ restore @ neutral
         @ ''&& cd '' @ dq @ ''$tmp/repo'' @ dq
         @ '' && GATE_COMMAND='' @ sq @ gate_command @ sq @ '' TARGET_DIR_NAME='' @ sq @ ''.laddy'' @ sq @ '' ''
         @ ''docker compose -p '' @ project @ '' -f '' @ compose_rel @ '' ''
         @ ''run --rm --build -T test; rc=$?; ''
         @ ''docker compose -p '' @ project @ '' -f '' @ compose_rel @ '' down -v >/dev/null 2>&1; ''
         @ ''rm -rf '' @ dq @ ''$tmp'' @ dq @ ''; exit $rc'')))"

record authoritative_result =
  au_sha :: string
  au_passed :: bool
  au_tail :: string
  au_flaky :: bool
  au_frontend :: bool

definition authoritative_json :: "authoritative_result \<Rightarrow> json" where
  "authoritative_json r =
     JObj [(''sha'', JStr (au_sha r)), (''passed'', JBool (au_passed r)), (''flaky'', JBool (au_flaky r)),
           (''include_frontend'', JBool (au_frontend r)), (''output_tail'', JStr (au_tail r))]"

definition docker_gate_command :: "nat \<Rightarrow> string \<Rightarrow> string \<Rightarrow> string \<Rightarrow> bool \<Rightarrow> exn + string" where
  "docker_gate_command pid frontend_gate compose_rel sha include_frontend =
     containerized pid compose_rel sha
       (backend_gate @ (if include_frontend then '' && '' @ frontend_gate else [])) None"

definition docker_gate_run ::
  "nat \<Rightarrow> (string \<Rightarrow> ('s, int \<times> string) prog) \<Rightarrow> string \<Rightarrow> string \<Rightarrow> string \<Rightarrow> bool \<Rightarrow>
   ('s, authoritative_result) prog" where
  "docker_gate_run pid shell frontend_gate compose_rel sha include_frontend =
     bindP (liftP (docker_gate_command pid frontend_gate compose_rel sha include_frontend)) (\<lambda>cmd.
     bindP (shell cmd) (\<lambda>(rc, out).
       retP \<lparr>au_sha = sha, au_passed = (rc = 0), au_tail = tail out, au_flaky = False,
             au_frontend = include_frontend\<rparr>))"

section \<open>The binding gate\<close>

definition sentinel_prefix :: string where
  "sentinel_prefix = ''@@GATE''"

definition binding_gate :: "string \<Rightarrow> string \<Rightarrow> string \<Rightarrow> string" where
  "binding_gate coverage_package compare_ref frontend_gate =
     (let frontend_step = (if frontend_gate \<noteq> [] then frontend_gate @ ''; F=$?; '' else []);
          sentinel = ''lint=$L types=$T tests=$P coverage=$C semgrep=$S gitleaks=$G''
                     @ (if frontend_gate \<noteq> [] then '' frontend=$F'' else []);
          exit_expr = ''L || T || P || C || S || G'' @ (if frontend_gate \<noteq> [] then '' || F'' else [])
      in ''set +e; '' @ ''ruff check . --no-cache; L=$?; '' @ ''basedpyright; T=$?; ''
       @ ''pytest -p no:cacheprovider -n auto --cov='' @ coverage_package @ '' --cov-report=xml -q; P=$?; ''
       @ ''diff-cover coverage.xml --compare-branch='' @ compare_ref @ '' --fail-under=90; C=$?; ''
       @ ''semgrep --error --config .laddy/security/semgrep.yml --baseline-commit '' @ compare_ref @ '' .; S=$?; ''
       @ ''gitleaks detect --no-banner --config .laddy/security/gitleaks.toml --log-opts='' @ compare_ref
       @ ''..HEAD; G=$?; '' @ frontend_step @ ''echo '' @ sentinel_prefix @ '' '' @ sentinel @ ''; ''
       @ ''exit $(( '' @ exit_expr @ '' ))'')"

record binding_result =
  br_tests_passed :: bool
  br_tail :: string
  br_coverage_ok :: bool
  br_coverage_detail :: string
  br_scan_findings :: "string list"

definition scan_finding :: "string \<Rightarrow> int \<Rightarrow> string list" where
  "scan_finding name rc =
     (if rc = 0 then []
      else if rc = 127 then
        [''scanner '' @ repr_str name @ '' is not installed in the gate image - cannot ''
         @ ''clear the security gate (rebuild the image)'']
      else [name @ '' flagged the change (exit '' @ str_of_int rc @ '')''])"

definition gate_codes :: "string \<Rightarrow> (string \<times> int) list" where
  "gate_codes line =
     (let t = strip line;
          body = (if prefix sentinel_prefix t then drop (length sentinel_prefix) t else t)
      in rev (map (\<lambda>tok. (before_char CHR ''='' tok,
                 case py_int (after_char CHR ''='' tok) of Some n \<Rightarrow> n | None \<Rightarrow> 1)) (words body)))"

definition code_of :: "(string \<times> int) list \<Rightarrow> string \<Rightarrow> int \<Rightarrow> int" where
  "code_of codes k d = (case map_of codes k of Some n \<Rightarrow> n | None \<Rightarrow> d)"

definition parse_binding_output :: "string \<Rightarrow> int \<Rightarrow> string option \<Rightarrow> binding_result" where
  "parse_binding_output stdout rc combined =
     (let tl = tail (case combined of Some c \<Rightarrow> c | None \<Rightarrow> stdout) in
      if rc = 0 then
        \<lparr>br_tests_passed = True, br_tail = tl, br_coverage_ok = True,
         br_coverage_detail = ''all gates passed (container exit 0)'', br_scan_findings = []\<rparr>
      else
        (case find (\<lambda>ln. prefix sentinel_prefix (strip ln)) (rev (splitlines stdout)) of
           None \<Rightarrow>
             \<lparr>br_tests_passed = False, br_tail = tl, br_coverage_ok = False,
              br_coverage_detail = ''binding gate exited '' @ str_of_int rc
                @ '' with no @@GATE result (container/build/timeout failure)'',
              br_scan_findings = [''binding gate did not report - treated as failed (fail-closed)'']\<rparr>
         | Some line \<Rightarrow>
             (let codes = gate_codes line;
                  findings = scan_finding ''semgrep'' (code_of codes ''semgrep'' 1)
                             @ scan_finding ''gitleaks'' (code_of codes ''gitleaks'' 1);
                  tests = (code_of codes ''lint'' 1 = 0 \<and> code_of codes ''types'' 1 = 0
                           \<and> code_of codes ''tests'' 1 = 0 \<and> code_of codes ''frontend'' 0 = 0);
                  coverage = (code_of codes ''coverage'' 1 = 0)
              in if tests \<and> coverage \<and> findings = [] then
                   \<lparr>br_tests_passed = False, br_tail = tl, br_coverage_ok = False,
                    br_coverage_detail = ''binding gate exited '' @ str_of_int rc
                      @ '' but @@GATE reported all-pass - treated as failed (possible tampering)'',
                    br_scan_findings = [''gate exit '' @ str_of_int rc
                      @ '' contradicts an all-pass @@GATE line - treated as failed (possible tampering)'']\<rparr>
                 else
                   \<lparr>br_tests_passed = tests, br_tail = tl, br_coverage_ok = coverage,
                    br_coverage_detail = ''diff-cover exit '' @ str_of_int (code_of codes ''coverage'' 1)
                      @ '' (min 90% patch coverage vs origin/main)'',
                    br_scan_findings = findings\<rparr>)))"

definition binding_gate_run ::
  "nat \<Rightarrow> (string \<Rightarrow> ('s, int \<times> string \<times> string) prog) \<Rightarrow> string \<Rightarrow> string \<Rightarrow> string \<Rightarrow> string option \<Rightarrow>
   string \<Rightarrow> string \<Rightarrow> ('s, binding_result) prog" where
  "binding_gate_run pid shell compose_rel sha coverage_package trusted_ref compare_ref frontend_gate =
     bindP (liftP (containerized pid compose_rel sha (binding_gate coverage_package compare_ref frontend_gate)
              trusted_ref)) (\<lambda>cmd.
     bindP (shell cmd) (\<lambda>(rc, out, err).
       retP (parse_binding_output out rc (Some (err @ nl @ out)))))"

section \<open>Facts\<close>

definition all_pass :: "binding_result \<Rightarrow> bool" where
  "all_pass r = (br_tests_passed r \<and> br_coverage_ok r \<and> br_scan_findings r = [])"

lemma scan_finding_Nil [simp]: "scan_finding n rc = [] \<longleftrightarrow> rc = 0"
  by (simp add: scan_finding_def)

text \<open>
  Nothing untrusted code prints can make the binding gate pass: whatever is on standard output
  and in the combined tail, the result is all-pass exactly when the container exited with zero, and
  on a nonzero exit some component of it says so.
\<close>

theorem binding_gate_exit_code_decides:
  "all_pass (parse_binding_output stdout rc combined) \<longleftrightarrow> rc = 0"
proof (cases "rc = 0")
  case True
  then show ?thesis by (simp add: parse_binding_output_def all_pass_def Let_def)
next
  case False
  show ?thesis
  proof (cases "find (\<lambda>ln. prefix sentinel_prefix (strip ln)) (rev (splitlines stdout))")
    case None
    then show ?thesis using False by (simp add: parse_binding_output_def all_pass_def Let_def)
  next
    case (Some line)
    define tests where "tests = (code_of (gate_codes line) ''lint'' 1 = 0 \<and> code_of (gate_codes line) ''types'' 1 = 0
        \<and> code_of (gate_codes line) ''tests'' 1 = 0 \<and> code_of (gate_codes line) ''frontend'' 0 = 0)"
    define fs where "fs = scan_finding ''semgrep'' (code_of (gate_codes line) ''semgrep'' 1)
        @ scan_finding ''gitleaks'' (code_of (gate_codes line) ''gitleaks'' 1)"
    show ?thesis
      using False
      unfolding parse_binding_output_def Let_def Some option.case tests_def[symmetric] fs_def[symmetric]
      by (simp add: all_pass_def)
  qed
qed

lemma restored_infra_paths_iff:
  "p \<in> set (restored_infra_paths changed) \<longleftrightarrow>
     p \<in> set changed \<and> (\<exists>d\<in>set restored_infra_dirs. p = d \<or> prefix (d @ ''/'') p)"
  by (auto simp: restored_infra_paths_def list_ex_iff)

text \<open>The quoting of the gate command cannot be broken out of.\<close>

lemma containerized_no_quote:
  "containerized pid c sha g r = Inr cmd \<Longrightarrow> CHR 0x27 \<notin> set g"
  by (auto simp: containerized_def split: if_splits)

end
