(* ===== verification/Prompts.thy ===== *)
theory Prompts
  imports Prelude
begin

text \<open>
  The prompt templates of \<open>src/orchestrator/loop.py\<close>, as functions of the values the code formats
  into them.
\<close>

definition developer_prompt :: "string \<Rightarrow> string \<Rightarrow> string \<Rightarrow> string \<Rightarrow> string" where
  \<open>developer_prompt role_text task_id spec_rel context =
     role_text
   @ ''\<newline>''
   @ ''\<newline>''
   @ ''Task ID: ''
   @ task_id
   @ ''\<newline>''
   @ ''Spec file: ''
   @ spec_rel
   @ ''\<newline>''
   @ ''\<newline>''
   @ ''The spec is the source of truth. Read it fully, including any\<newline>''
   @ ''"## Clarifications" section.\<newline>''
   @ context
   @ ''\<newline>''
   @ ''Implement or fix the task by editing files in this working tree.\<newline>''
   @ ''The orchestrator commits for you. Do not push. Never touch main.\<newline>''
   @ ''Finish with a one-paragraph summary of what you changed and why.\<newline>''\<close>

definition fast_failure_section :: "string \<Rightarrow> string" where
  \<open>fast_failure_section tail =
     ''\<newline>''
   @ ''## Fast test failure to fix\<newline>''
   @ ''\<newline>''
   @ ''The previous change failed the fast test gate. Fix the failure:\<newline>''
   @ ''\<newline>''
   @ ''```\<newline>''
   @ tail
   @ ''\<newline>''
   @ ''```\<newline>''\<close>

definition authoritative_failure_section :: "string \<Rightarrow> string" where
  \<open>authoritative_failure_section tail =
     ''\<newline>''
   @ ''## Authoritative gate failure to fix\<newline>''
   @ ''\<newline>''
   @ ''The clean containerized run of the FULL suite failed on the current HEAD.\<newline>''
   @ ''Fix the failure (no test skipping, no gate weakening):\<newline>''
   @ ''\<newline>''
   @ ''```\<newline>''
   @ tail
   @ ''\<newline>''
   @ ''```\<newline>''\<close>

definition rw1_verdict_section :: "string \<Rightarrow> string" where
  \<open>rw1_verdict_section verdict_text =
     ''\<newline>''
   @ ''## Reviewer verdict to address (rw1, BINDING)\<newline>''
   @ ''\<newline>''
   @ ''Address every blocker finding below, then re-check the whole change:\<newline>''
   @ ''\<newline>''
   @ ''```json\<newline>''
   @ verdict_text
   @ ''\<newline>''
   @ ''```\<newline>''\<close>

definition rw2_verdict_section :: "string \<Rightarrow> string" where
  \<open>rw2_verdict_section verdict_text =
     ''\<newline>''
   @ ''## Guard reviewer finding to address (rw2, BINDING defect)\<newline>''
   @ ''\<newline>''
   @ ''An independent cross-vendor guard found a defect. You MUST address every\<newline>''
   @ ''blocker finding; advisory findings you MAY adopt at your own judgement:\<newline>''
   @ ''\<newline>''
   @ ''```json\<newline>''
   @ verdict_text
   @ ''\<newline>''
   @ ''```\<newline>''\<close>

definition senior_verdict_section :: "string \<Rightarrow> string" where
  \<open>senior_verdict_section verdict_text =
     ''\<newline>''
   @ ''## Senior reviewer verdict to address (BINDING, final authority)\<newline>''
   @ ''\<newline>''
   @ ''```json\<newline>''
   @ verdict_text
   @ ''\<newline>''
   @ ''```\<newline>''\<close>

definition rw1_prompt :: "string \<Rightarrow> string \<Rightarrow> string \<Rightarrow> string \<Rightarrow> string" where
  \<open>rw1_prompt role_text task_id spec_rel base_branch =
     role_text
   @ ''\<newline>''
   @ ''\<newline>''
   @ ''Task ID: ''
   @ task_id
   @ ''\<newline>''
   @ ''Spec file: ''
   @ spec_rel
   @ ''\<newline>''
   @ ''\<newline>''
   @ ''Review the current branch (diff against origin/''
   @ base_branch
   @ '') against the spec.\<newline>''
   @ ''Verify claims with evidence from the actual code, not the developer's\<newline>''
   @ ''summary. Output ONLY the verdict JSON object required by your role file -\<newline>''
   @ ''no prose before or after it.\<newline>''\<close>

definition rw2_prompt :: "string \<Rightarrow> string \<Rightarrow> string \<Rightarrow> string \<Rightarrow> string \<Rightarrow> string" where
  \<open>rw2_prompt role_text task_id spec_rel base_branch rw1_verdict =
     role_text
   @ ''\<newline>''
   @ ''\<newline>''
   @ ''Task ID: ''
   @ task_id
   @ ''\<newline>''
   @ ''Spec file: ''
   @ spec_rel
   @ ''\<newline>''
   @ ''\<newline>''
   @ ''Adversarially review the current branch (diff against origin/''
   @ base_branch
   @ ''):\<newline>''
   @ ''actively try to find a real defect. Approve if you cannot.\<newline>''
   @ ''The latest rw1 verdict, for context (do not defer to it):\<newline>''
   @ ''\<newline>''
   @ ''```json\<newline>''
   @ rw1_verdict
   @ ''\<newline>''
   @ ''```\<newline>''
   @ ''\<newline>''
   @ ''Output ONLY the verdict JSON object required by your role file.\<newline>''\<close>

definition rw2_gonogo_prompt :: "string \<Rightarrow> string \<Rightarrow> string \<Rightarrow> string \<Rightarrow> string" where
  \<open>rw2_gonogo_prompt role_text task_id spec_rel previous_verdict =
     role_text
   @ ''\<newline>''
   @ ''\<newline>''
   @ ''Task ID: ''
   @ task_id
   @ ''\<newline>''
   @ ''Spec file: ''
   @ spec_rel
   @ ''\<newline>''
   @ ''\<newline>''
   @ ''A rework round addressed your previous binding finding:\<newline>''
   @ ''\<newline>''
   @ ''```json\<newline>''
   @ previous_verdict
   @ ''\<newline>''
   @ ''```\<newline>''
   @ ''\<newline>''
   @ ''Issue go/nogo ONLY: verify whether YOUR finding was addressed on the\<newline>''
   @ ''current branch. Do NOT open a fresh full review. Output ONLY the verdict\<newline>''
   @ ''JSON object (APPROVED = go; a still-unaddressed finding stays a blocker).\<newline>''\<close>

definition exploration_section :: "string \<Rightarrow> string" where
  \<open>exploration_section exploration =
     ''\<newline>''
   @ ''## Exploration findings (from the explorer role)\<newline>''
   @ ''\<newline>''
   @ ''```\<newline>''
   @ exploration
   @ ''\<newline>''
   @ ''```\<newline>''\<close>

definition director_note_section :: "string \<Rightarrow> string" where
  \<open>director_note_section reason =
     ''\<newline>''
   @ ''## Director note (the ask was corrected; resume)\<newline>''
   @ ''\<newline>''
   @ ''The Director put this task back to work and left a note. The spec on the\<newline>''
   @ ''branch may have changed - re-read it. Their note, verbatim:\<newline>''
   @ ''\<newline>''
   @ ''```\<newline>''
   @ reason
   @ ''\<newline>''
   @ ''```\<newline>''\<close>

definition explorer_prompt :: "string \<Rightarrow> string \<Rightarrow> string \<Rightarrow> string" where
  \<open>explorer_prompt role_text task_id spec_rel =
     role_text
   @ ''\<newline>''
   @ ''\<newline>''
   @ ''Task ID: ''
   @ task_id
   @ ''\<newline>''
   @ ''Spec file: ''
   @ spec_rel
   @ ''\<newline>''
   @ ''\<newline>''
   @ ''Scope the task before any code is written: explore the relevant code,\<newline>''
   @ ''reproduce the bug if there is one, locate the root cause, and propose a\<newline>''
   @ ''concrete approach. Do NOT change product code. Finish with a structured\<newline>''
   @ ''summary (findings, affected files, proposed approach, risks).\<newline>''\<close>

definition investigator_prompt :: "string \<Rightarrow> string \<Rightarrow> string \<Rightarrow> string" where
  \<open>investigator_prompt role_text task_id spec_rel =
     role_text
   @ ''\<newline>''
   @ ''\<newline>''
   @ ''Task ID: ''
   @ task_id
   @ ''\<newline>''
   @ ''Spec file: ''
   @ spec_rel
   @ ''\<newline>''
   @ ''\<newline>''
   @ ''This is a REPORT-ONLY task: the deliverable is a report, not code.\<newline>''
   @ ''Investigate per the spec. Do NOT modify any source file and do NOT commit\<newline>''
   @ ''failing tests - reproduction evidence (output, traceback) goes in the\<newline>''
   @ ''report text.\<newline>''
   @ ''\<newline>''
   @ ''Output ONLY a JSON object:\<newline>''
   @ ''{''
   @ ''"report": "<full markdown report>",\<newline>''
   @ ''  "findings": [{''
   @ ''"severity": "blocker|advisory", "category": "correctness|invariant|security|migration|test-adequacy|quality",\<newline>''
   @ ''                 "file": "path", "line": 0, "summary": "...", "failure_scenario": "..."}''
   @ ''],\<newline>''
   @ ''  "fix_spec": "<optional: complete draft spec markdown for the fix task, empty string if not applicable>"}''
   @ ''\<newline>''\<close>

definition verify_prompt :: "string \<Rightarrow> string \<Rightarrow> string \<Rightarrow> string \<Rightarrow> string" where
  \<open>verify_prompt role_text task_id spec_rel findings_text =
     role_text
   @ ''\<newline>''
   @ ''\<newline>''
   @ ''Task ID: ''
   @ task_id
   @ ''\<newline>''
   @ ''Spec file: ''
   @ spec_rel
   @ ''\<newline>''
   @ ''\<newline>''
   @ ''Play devil's advocate over every proposed finding below: try to REFUTE it\<newline>''
   @ ''against the real code. The top risk is a hallucinated finding or a\<newline>''
   @ ''symptom-not-cause diagnosis. Drop every finding you cannot confirm with\<newline>''
   @ ''evidence; keep only confirmed ones.\<newline>''
   @ ''\<newline>''
   @ ''Proposed findings:\<newline>''
   @ ''```json\<newline>''
   @ findings_text
   @ ''\<newline>''
   @ ''```\<newline>''
   @ ''\<newline>''
   @ ''Output ONLY the standard verdict JSON object; its "findings" array is the\<newline>''
   @ ''CONFIRMED subset (verbatim where confirmed), with your evidence in\<newline>''
   @ ''claims_verified.\<newline>''\<close>

definition senior_gate_failure_section :: "string \<Rightarrow> string" where
  \<open>senior_gate_failure_section tail =
     ''Last gate failure (the loop is stuck on this - the verdicts above may not\<newline>''
   @ ''show WHY the gate keeps failing):\<newline>''
   @ ''```\<newline>''
   @ tail
   @ ''\<newline>''
   @ ''```\<newline>''
   @ ''\<newline>''\<close>

definition senior_prompt :: "string \<Rightarrow> string \<Rightarrow> string \<Rightarrow> string \<Rightarrow> string \<Rightarrow> string \<Rightarrow> string \<Rightarrow> string \<Rightarrow> string" where
  \<open>senior_prompt role_text task_id spec_rel rw1_verdict rw2_verdict gate_failure base_branch diff_text =
     role_text
   @ ''\<newline>''
   @ ''\<newline>''
   @ ''Task ID: ''
   @ task_id
   @ ''\<newline>''
   @ ''Spec file: ''
   @ spec_rel
   @ ''\<newline>''
   @ ''\<newline>''
   @ ''You are the escalation authority. The loop below did not converge or the\<newline>''
   @ ''change is high-risk. Review the diff and both reviewer verdicts, then\<newline>''
   @ ''issue a BINDING verdict: APPROVED overrides the disputed gate,\<newline>''
   @ ''CHANGES_REQUESTED sends concrete blockers back to the developer.\<newline>''
   @ ''\<newline>''
   @ ''rw1 verdict:\<newline>''
   @ ''```json\<newline>''
   @ rw1_verdict
   @ ''\<newline>''
   @ ''```\<newline>''
   @ ''\<newline>''
   @ ''rw2 verdict:\<newline>''
   @ ''```json\<newline>''
   @ rw2_verdict
   @ ''\<newline>''
   @ ''```\<newline>''
   @ ''\<newline>''
   @ gate_failure
   @ ''Diff against origin/''
   @ base_branch
   @ '':\<newline>''
   @ ''```diff\<newline>''
   @ diff_text
   @ ''\<newline>''
   @ ''```\<newline>''
   @ ''\<newline>''
   @ ''Output ONLY the verdict JSON object required by your role file.\<newline>''\<close>

end
