(* ===== verification/World.thy ===== *)
theory World
  imports Loop_Derive Quota Testgate
begin

text \<open>
  The world one task's run acts on, and its primitives: the iteration log and the artifact files of
  the task (\<open>src/orchestrator/artifacts.py\<close>), the git operations, the agents, the clock and the
  notifier, in the shape the orchestrator is given them.

  Everything outside the task's artifacts is one abstract environment of type \<open>'e\<close>; the
  collaborators are functions on it, so that a statement over all collaborators holds for every
  behaviour of the agents, of git, of the file system and of the network. Every access to the
  artifacts first asks the environment whether it fails. The agents reach the artifacts only through
  the orchestrator. The trace records the effects in the order they are attempted.
\<close>

datatype event =
    EvAppend entry
  | EvWrite string
  | EvCommit string
  | EvPush
  | EvNotify string
  | EvAgent string

record 'e world =
  w_env :: 'e
  w_log :: "entry list"
  w_files :: "string \<Rightarrow> string option"
  w_spent :: int
  w_trace :: "event list"

record 'e agent =
  ag_name :: string
  ag_run :: "'e runner"

record 'e collab =
  c_fault :: "string \<Rightarrow> 'e \<Rightarrow> exn option \<times> 'e"
  c_now :: "'e \<Rightarrow> json \<times> 'e"
  c_worktree :: "('e, unit) prog"
  c_commit :: "string \<Rightarrow> ('e, unit) prog"
  c_push :: "('e, unit) prog"
  c_code_sha :: "('e, string) prog"
  c_changed :: "('e, string list) prog"
  c_statuses :: "('e, (string \<times> string) list) prog"
  c_diff_lines :: "('e, int) prog"
  c_diff_text :: "('e, string) prog"
  c_policy :: "('e, target_policy) prog"
  c_read_wt :: "'e \<Rightarrow> string \<Rightarrow> exn + string"
  c_write_wt :: "string \<Rightarrow> string \<Rightarrow> ('e, unit) prog"
  c_role_file :: "string \<Rightarrow> ('e, string) prog"
  c_shell :: "string \<Rightarrow> ('e, int \<times> string) prog"
  c_docker :: "(string \<Rightarrow> bool \<Rightarrow> ('e, authoritative_result) prog) option"
  c_setup_done :: "'e \<Rightarrow> bool"
  c_mark_setup :: "('e, unit) prog"
  c_dev :: "'e agent"
  c_rw1 :: "'e agent"
  c_rw2 :: "'e agent option"
  c_senior :: "'e agent option"
  c_clock :: "('e, int) prog"
  c_sleep :: "int \<Rightarrow> ('e, unit) prog"
  c_topic :: bool
  c_post :: "string \<Rightarrow> ('e, unit) prog"
  c_base_branch :: string
  c_sha256 :: "string \<Rightarrow> string"
  c_json :: json_lib
  c_time_text :: "int \<Rightarrow> string"
  c_traceback :: "exn \<Rightarrow> string"
  c_summary :: "string \<Rightarrow> entry list \<Rightarrow> (string \<Rightarrow> string option) \<Rightarrow> exn + string"
  c_handback :: "string \<Rightarrow> entry list \<Rightarrow> (string \<Rightarrow> string option) \<Rightarrow> exn + string"

record config =
  cf_task :: string
  cf_max_loops :: int
  cf_fast_commands :: string
  cf_setup_commands :: string
  cf_composition :: "string list option"
  cf_policy_enabled :: bool
  cf_quota :: "quota_policy option"

section \<open>Primitives\<close>

text \<open>A collaborator's operation acts on the environment alone.\<close>

definition envP :: "('e, 'a) prog \<Rightarrow> ('e world, 'a) prog" where
  "envP m w = (case m (w_env w) of (r, v) \<Rightarrow> (r, w\<lparr>w_env := v\<rparr>))"

definition logged :: "event \<Rightarrow> ('e world, unit) prog" where
  "logged ev = modifyP (\<lambda>w. w\<lparr>w_trace := w_trace w @ [ev]\<rparr>)"

definition ioP :: "'e collab \<Rightarrow> string \<Rightarrow> ('e world, 'a) prog \<Rightarrow> ('e world, 'a) prog" where
  "ioP c op m w =
     (case c_fault c op (w_env w) of
        (Some e, v) \<Rightarrow> (Inl e, w\<lparr>w_env := v\<rparr>)
      | (None, v) \<Rightarrow> m (w\<lparr>w_env := v\<rparr>))"

text \<open>\<open>TaskArtifacts.append_log\<close>: one more entry at the end, with the time stamp first.\<close>

definition append_log :: "'e collab \<Rightarrow> entry \<Rightarrow> ('e world, unit) prog" where
  "append_log c flds =
     ioP c ''append_log'' (\<lambda>w.
       case c_now c (w_env w) of (ts, v) \<Rightarrow>
         (let e = (''ts'', ts) # flds in
          (Inr (), w\<lparr>w_env := v, w_log := w_log w @ [e], w_trace := w_trace w @ [EvAppend e]\<rparr>)))"

definition read_log :: "'e collab \<Rightarrow> ('e world, entry list) prog" where
  "read_log c = ioP c ''read_log'' (getP w_log)"

definition write_text :: "'e collab \<Rightarrow> string \<Rightarrow> string \<Rightarrow> ('e world, unit) prog" where
  "write_text c name txt =
     ioP c name (modifyP (\<lambda>w. w\<lparr>w_files := (w_files w)(name \<mapsto> txt), w_trace := w_trace w @ [EvWrite name]\<rparr>))"

definition read_text :: "'e collab \<Rightarrow> string \<Rightarrow> ('e world, string option) prog" where
  "read_text c name = ioP c name (getP (\<lambda>w. w_files w name))"

definition write_json :: "'e collab \<Rightarrow> string \<Rightarrow> json \<Rightarrow> ('e world, unit) prog" where
  "write_json c name v = write_text c name (dumps_raw (c_json c) v @ nl)"

text \<open>A missing artifact reads as \<open>JNull\<close>; an undecodable one raises.\<close>

definition read_json :: "'e collab \<Rightarrow> string \<Rightarrow> ('e world, json) prog" where
  "read_json c name =
     bindP (read_text c name) (\<lambda>t.
       case t of None \<Rightarrow> retP JNull
       | Some txt \<Rightarrow> (case loads (c_json c) txt of None \<Rightarrow> throwP ValueError | Some v \<Rightarrow> retP v))"

definition commit_all :: "'e collab \<Rightarrow> string \<Rightarrow> ('e world, unit) prog" where
  "commit_all c msg = thenP (logged (EvCommit msg)) (envP (c_commit c msg))"

definition push :: "'e collab \<Rightarrow> ('e world, unit) prog" where
  "push c = thenP (logged EvPush) (envP (c_push c))"

text \<open>\<open>handoff.STATE_SENTENCES\<close> and \<open>NtfyNotifier.notify\<close>: only \<open>OSError\<close> is swallowed.\<close>

definition state_sentences :: "(string \<times> string) list" where
  "state_sentences =
     [(''PUSHED'', ''branch pushed, awaiting merge decision''),
      (''MERGE_DECIDED:auto_merge'', ''merged automatically''),
      (''MERGE_DECIDED:auto_merge_notify'', ''auto-merged, please review the change''),
      (''MERGE_DECIDED:stop_before_merge'', ''stopped before merge, your decision needed''),
      (''CAP_REACHED'', ''iteration cap reached, see handback''),
      (''ESCALATED_DEADLOCK'', ''escalation deadlock, see handback''),
      (''PATH_GUARD_VIOLATION'', ''report task touched source paths, stopped''),
      (''INVESTIGATOR_MALFORMED'', ''investigator output invalid, run stopped''),
      (''VERIFY_MALFORMED'', ''verify round output invalid, run stopped''),
      (''QUOTA_WAIT'', ''usage quota exhausted, loop paused until window reset''),
      (''QUOTA_TIMEOUT'', ''quota wait budget exhausted, see handback''),
      (''INTERNAL_ERROR'', ''run hit an internal error, see handback'')]"

definition notify :: "config \<Rightarrow> 'e collab \<Rightarrow> string \<Rightarrow> ('e world, unit) prog" where
  "notify cf c state =
     thenP (logged (EvNotify state))
       (if \<not> c_topic c then retP ()
        else
          (let sentence = (case map_of state_sentences state of Some s \<Rightarrow> s | None \<Rightarrow> ''run finished'')
           in catchP (envP (c_post c (cf_task cf @ '': '' @ sentence)))
                (\<lambda>e. if e = OSError then retP () else throwP e)))"

definition agent_call :: "'e agent \<Rightarrow> 'e world runner" where
  "agent_call ag p q = thenP (logged (EvAgent (ag_name ag))) (envP (ag_run ag p q))"

definition opt_json :: "string option \<Rightarrow> json" where
  "opt_json s = (case s of None \<Rightarrow> JNull | Some t \<Rightarrow> JStr t)"

section \<open>Runners under the quota policy\<close>

definition whole_seconds :: "int \<Rightarrow> int" where
  "whole_seconds us = (if us \<ge> 0 then us div 1000000 else - ((- us) div 1000000))"

definition charge_wait :: "int \<Rightarrow> int \<Rightarrow> ('e world, unit) prog" where
  "charge_wait limit wait w =
     (case charge_budget limit (w_spent w) wait of
        Inl e \<Rightarrow> (Inl e, w)
      | Inr n \<Rightarrow> (Inr (), w\<lparr>w_spent := n\<rparr>))"

definition on_wait :: "config \<Rightarrow> 'e collab \<Rightarrow> string \<Rightarrow> int option \<Rightarrow> int \<Rightarrow> nat \<Rightarrow> ('e world, unit) prog" where
  "on_wait cf c role reset wait attempt =
     thenP (append_log c
       [(''action'', JStr ''quota_exhausted''), (''outcome'', JStr ''wait''), (''role'', JStr role),
        (''reset_at'', case reset of None \<Rightarrow> JNull | Some t \<Rightarrow> JStr (c_time_text c t)),
        (''wait_seconds'', JInt (whole_seconds wait)), (''attempt'', JInt (int attempt))])
       (whenP (attempt = 0) (notify cf c ''QUOTA_WAIT''))"

definition on_resume :: "'e collab \<Rightarrow> string \<Rightarrow> nat \<Rightarrow> ('e world, unit) prog" where
  "on_resume c role attempts =
     append_log c [(''action'', JStr ''quota_resumed''), (''outcome'', JStr ''ok''), (''role'', JStr role),
       (''attempts'', JInt (int attempts))]"

definition hooks_of :: "config \<Rightarrow> 'e collab \<Rightarrow> quota_policy \<Rightarrow> 'e agent \<Rightarrow> 'e world quota_hooks" where
  "hooks_of cf c pol ag =
     \<lparr>qh_inner = agent_call ag, qh_now = envP (c_clock c), qh_sleep = (\<lambda>u. envP (c_sleep c u)),
      qh_charge = Some (charge_wait (max_wait pol)), qh_on_wait = Some (on_wait cf c (ag_name ag)),
      qh_on_resume = Some (on_resume c (ag_name ag))\<rparr>"

text \<open>
  The runner the orchestrator calls: the plain agent, or the bound quota wrapper around it. The
  fuel is the one proved sufficient below.
\<close>

definition runner_of :: "config \<Rightarrow> 'e collab \<Rightarrow> 'e agent \<Rightarrow> 'e world runner" where
  "runner_of cf c ag p q w =
     (case cf_quota cf of
        None \<Rightarrow> agent_call ag p q w
      | Some pol \<Rightarrow>
          (case quota_run pol (hooks_of cf c pol ag) (quota_fuel (max_wait pol) (w_spent w)) 0 p q w of
             Some r \<Rightarrow> r
           | None \<Rightarrow> (Inl (OtherError ''endless quota wait''), w)))"

end
