(* ===== verification/Loop_Phases.thy ===== *)
theory Loop_Phases
  imports World Prompts
begin

text \<open>
  The phase handlers of the \<open>Orchestrator\<close> of \<open>src/orchestrator/loop.py\<close>, each as one program over the
  world: the developer round, the fast tests, the reviews, the authoritative gate, the senior
  escalation, the explorer, the merge decision and the terminal tail.
\<close>

definition rw1_verdict_file :: string where "rw1_verdict_file = ''reviewer-a-verdict.json''"
definition rw2_verdict_file :: string where "rw2_verdict_file = ''reviewer-b-verdict.json''"
definition senior_verdict_file :: string where "senior_verdict_file = ''senior-reviewer-verdict.json''"
definition merge_decision_file :: string where "merge_decision_file = ''merge-decision.json''"
definition exploration_file :: string where "exploration_file = ''exploration.md''"
definition report_file :: string where "report_file = ''report.md''"
definition findings_file :: string where "findings_file = ''findings.json''"
definition proposed_file :: string where "proposed_file = ''findings-proposed.json''"

definition has_role :: "config \<Rightarrow> string \<Rightarrow> bool" where
  "has_role cf r = (case cf_composition cf of None \<Rightarrow> False | Some rs \<Rightarrow> r \<in> set rs)"

definition spec_rel :: "config \<Rightarrow> string" where
  "spec_rel cf = ''.laddy/specs/'' @ cf_task cf @ ''.md''"

definition role :: "'e collab \<Rightarrow> string \<Rightarrow> ('e world, string) prog" where
  "role c name = envP (c_role_file c name)"

text \<open>\<open>try: ... except VerdictError\<close> around a request: the message, or the value.\<close>

definition try_verdict :: "('s, 'a) prog \<Rightarrow> ('s, string + 'a) prog" where
  "try_verdict m =
     catchP (bindP m (\<lambda>a. retP (Inr a)))
       (\<lambda>e. case e of VerdictError msg \<Rightarrow> retP (Inl msg) | _ \<Rightarrow> throwP e)"

definition finding_json :: "finding \<Rightarrow> json" where
  "finding_json f =
     JObj [(''severity'', JStr (fi_severity f)), (''category'', JStr (fi_category f)),
           (''file'', JStr (fi_file f)), (''line'', JInt (fi_line f)), (''summary'', JStr (fi_summary f)),
           (''failure_scenario'', JStr (fi_scenario f))]"

definition verdict_json :: "verdict \<Rightarrow> json" where
  "verdict_json v =
     JObj [(''verdict'', JStr (v_verdict v)), (''risk_level'', JStr (v_risk_level v)),
           (''files_reviewed'', JArr (map JStr (v_files_reviewed v))),
           (''claims_verified'', JArr (map (\<lambda>k. JObj [(''claim'', JStr (cv_claim k)),
              (''evidence'', JStr (cv_evidence k)), (''verified'', JBool (cv_verified k))]) (v_claims v))),
           (''findings'', JArr (map finding_json (v_findings v))),
           (''test_assessment'', JStr (v_test_assessment v)),
           (''residual_risks'', JArr (map JStr (v_residual_risks v)))]"

definition blocker_summaries :: "verdict \<Rightarrow> string" where
  "blocker_summaries v = take 2000 (join ''; '' (map fi_summary (blockers v)))"

definition round_msg :: "resume_point \<Rightarrow> string" where
  "round_msg rp = ''Round '' @ str_of_int (rp_round rp) @ '': ''"

definition session_of :: "json \<Rightarrow> string option" where
  "session_of s = (case s of JNull \<Rightarrow> None | _ \<Rightarrow> Some (py_str s))"

section \<open>The developer round\<close>

definition dev_context :: "'e collab \<Rightarrow> ('e world, string) prog" where
  "dev_context c =
     bindP (read_log c) (\<lambda>entries.
       case last_phase entries of
         None \<Rightarrow> retP []
       | Some l \<Rightarrow>
           bindP (liftP (dsub l ''action'')) (\<lambda>_. bindP (liftP (dsub l ''outcome'')) (\<lambda>_.
             let detail = py_str (dget_or l ''detail'' (JStr []));
                 section_of = (\<lambda>file f. bindP (read_json c file) (\<lambda>v. retP (f (dumps (c_json c) v))))
             in if has_action ''fast_tests'' l \<and> has_outcome ''fail'' l
                  then retP (fast_failure_section detail)
                else if has_action ''authoritative'' l \<and> has_outcome ''fail'' l
                  then retP (authoritative_failure_section detail)
                else if has_action ''rw1'' l \<and> has_outcome ''changes_requested'' l
                  then section_of rw1_verdict_file rw1_verdict_section
                else if has_action ''rw2'' l \<and> has_outcome ''nogo'' l
                  then section_of rw2_verdict_file rw2_verdict_section
                else if has_action ''senior'' l \<and> has_outcome ''changes_requested'' l
                  then section_of senior_verdict_file senior_verdict_section
                else retP [])))"

definition fixing_test_failure :: "entry list \<Rightarrow> exn + bool" where
  "fixing_test_failure entries =
     (case last_phase entries of
        None \<Rightarrow> Inr False
      | Some l \<Rightarrow>
          if has_action ''fast_tests'' l \<or> has_action ''authoritative'' l
          then bindR (dsub l ''outcome'') (\<lambda>r. Inr (r = JStr ''fail'')) else Inr False)"

definition developer_entry :: "agent_result \<Rightarrow> resume_point \<Rightarrow> string \<Rightarrow> entry" where
  "developer_entry r rp role_name =
     [(''action'', JStr ''developer''), (''outcome'', JStr (ar_exit r)), (''round'', JInt (rp_round rp)),
      (''session_id'', opt_json (ar_session r)), (''role'', JStr role_name),
      (''detail'', JStr (take 2000 (ar_text r)))]"

definition run_developer :: "config \<Rightarrow> 'e collab \<Rightarrow> resume_point \<Rightarrow> ('e world, unit) prog" where
  "run_developer cf c rp =
     bindP (read_log c) (\<lambda>entries.
     bindP (liftP (fixing_test_failure entries)) (\<lambda>fixing.
       let role_name = (if has_role cf ''debugger'' \<and> fixing then ''debugger'' else ''developer'') in
       bindP (dev_context c) (\<lambda>ctx0.
       bindP (read_text c exploration_file) (\<lambda>explo.
         let ctx1 = (case explo of
                       Some x \<Rightarrow> if x \<noteq> [] \<and> rp_round rp = 1 then exploration_section x @ ctx0 else ctx0
                     | None \<Rightarrow> ctx0);
             note = director_note entries;
             ctx2 = (if note \<noteq> JNull then director_note_section (py_str note) @ ctx1 else ctx1)
         in bindP (role c role_name) (\<lambda>role_text.
            bindP (runner_of cf c (c_dev c) (developer_prompt role_text (cf_task cf) (spec_rel cf) ctx2)
                     (session_of (rp_dev_session rp))) (\<lambda>r.
            thenP (append_log c (developer_entry r rp role_name))
              (commit_all c (round_msg rp @ ''developer changes for '' @ cf_task cf))))))))"

section \<open>The explorer\<close>

definition run_explorer :: "config \<Rightarrow> 'e collab \<Rightarrow> ('e world, unit) prog" where
  "run_explorer cf c =
     bindP (role c ''explorer'') (\<lambda>role_text.
     bindP (try_verdict (request_payload (runner_of cf c (c_dev c))
              (explorer_prompt role_text (cf_task cf) (spec_rel cf)) Inr None 2)) (\<lambda>res.
       case res of
         Inl msg \<Rightarrow>
           thenP (append_log c [(''action'', JStr ''explorer''), (''outcome'', JStr ''error''),
                    (''detail'', JStr (take 2000 msg))])
             (commit_all c (''Exploration failed for '' @ cf_task cf))
       | Inr (txt, r) \<Rightarrow>
           thenP (write_text c exploration_file txt)
          (thenP (append_log c [(''action'', JStr ''explorer''), (''outcome'', JStr (ar_exit r)),
                    (''session_id'', opt_json (ar_session r)), (''detail'', JStr (take 2000 (ar_text r)))])
             (commit_all c (''Exploration for '' @ cf_task cf)))))"

section \<open>Tests and reviews\<close>

definition ensure_setup :: "config \<Rightarrow> 'e collab \<Rightarrow> ('e world, unit) prog" where
  "ensure_setup cf c =
     (if cf_setup_commands cf = [] then retP ()
      else bindP (getP (\<lambda>w. c_setup_done c (w_env w))) (\<lambda>done_before.
        if done_before then retP ()
        else bindP (envP (c_shell c (cf_setup_commands cf))) (\<lambda>(rc, _).
          whenP (rc = 0) (envP (c_mark_setup c)))))"

definition last_chars :: "nat \<Rightarrow> string \<Rightarrow> string" where
  "last_chars n s = drop (length s - n) s"

definition fast_entry :: "'e collab \<Rightarrow> test_result \<Rightarrow> resume_point \<Rightarrow> entry" where
  "fast_entry c t rp =
     [(''action'', JStr ''fast_tests''), (''outcome'', JStr (if tr_passed t then ''pass'' else ''fail'')),
      (''round'', JInt (rp_round rp)),
      (''fingerprint'', if tr_passed t then JNull else JStr (failure_fingerprint (c_sha256 c) (tr_tail t))),
      (''detail'', JStr (last_chars 4000 (tr_tail t)))]"

definition run_fast_tests :: "config \<Rightarrow> 'e collab \<Rightarrow> resume_point \<Rightarrow> ('e world, unit) prog" where
  "run_fast_tests cf c rp =
     thenP (ensure_setup cf c)
       (bindP (envP (run_fast (c_shell c) (cf_fast_commands cf))) (\<lambda>t.
          thenP (append_log c (fast_entry c t rp))
            (commit_all c (round_msg rp @ ''fast tests '' @ (if tr_passed t then ''passed'' else ''failed'')
               @ '' for '' @ cf_task cf))))"

definition run_rw1 :: "config \<Rightarrow> 'e collab \<Rightarrow> resume_point \<Rightarrow> ('e world, unit) prog" where
  "run_rw1 cf c rp =
     bindP (role c ''rw1'') (\<lambda>role_text.
     bindP (try_verdict (request_verdict (c_json c) (runner_of cf c (c_rw1 c))
              (rw1_prompt role_text (cf_task cf) (spec_rel cf) (c_base_branch c))
              (session_of (rp_rw1_session rp)) 2 (Some validate_review))) (\<lambda>res.
       case res of
         Inl msg \<Rightarrow>
           thenP (append_log c [(''action'', JStr ''rw1''), (''outcome'', JStr ''malformed''),
                    (''round'', JInt (rp_round rp)), (''detail'', JStr (take 2000 msg))])
             (commit_all c (round_msg rp @ ''rw1 verdict malformed for '' @ cf_task cf))
       | Inr (v, r) \<Rightarrow>
           thenP (write_json c rw1_verdict_file (verdict_json v))
          (bindP (envP (c_code_sha c)) (\<lambda>sha.
           thenP (append_log c [(''action'', JStr ''rw1''),
                    (''outcome'', JStr (if approved v then ''approved'' else ''changes_requested'')),
                    (''round'', JInt (rp_round rp)), (''session_id'', opt_json (ar_session r)),
                    (''sha'', JStr sha), (''detail'', JStr (blocker_summaries v))])
             (commit_all c (round_msg rp @ ''rw1 review for '' @ cf_task cf))))))"

definition is_dict :: "json \<Rightarrow> bool" where
  "is_dict v = (case v of JObj _ \<Rightarrow> True | _ \<Rightarrow> False)"

definition run_rw2 :: "config \<Rightarrow> 'e collab \<Rightarrow> resume_point \<Rightarrow> ('e world, unit) prog" where
  "run_rw2 cf c rp =
     (case c_rw2 c of
        None \<Rightarrow> throwP (OtherError ''AssertionError'')
      | Some ag \<Rightarrow>
          bindP (read_log c) (\<lambda>entries.
          bindP (read_json c rw2_verdict_file) (\<lambda>stored.
            let gonogo = (case find (has_action ''rw2'') (rev entries) of
                            None \<Rightarrow> False
                          | Some e \<Rightarrow> has_outcome ''nogo'' e \<and> is_dict stored)
            in bindP (role c ''rw2'') (\<lambda>role_text.
               bindP (if gonogo
                      then retP (rw2_gonogo_prompt role_text (cf_task cf) (spec_rel cf) (dumps (c_json c) stored))
                      else bindP (read_json c rw1_verdict_file) (\<lambda>v1.
                        retP (rw2_prompt role_text (cf_task cf) (spec_rel cf) (c_base_branch c)
                          (dumps (c_json c) v1)))) (\<lambda>prompt.
               bindP (try_verdict (request_verdict (c_json c) (runner_of cf c ag) prompt
                        (session_of (rp_rw2_session rp)) 2 (Some validate_rw2))) (\<lambda>res.
                 case res of
                   Inl msg \<Rightarrow>
                     thenP (append_log c [(''action'', JStr ''rw2''), (''outcome'', JStr ''malformed''),
                              (''round'', JInt (rp_round rp)), (''detail'', JStr (take 2000 msg))])
                       (commit_all c (round_msg rp @ ''rw2 verdict malformed for '' @ cf_task cf))
                 | Inr (v, r) \<Rightarrow>
                     (let nogo = (blockers v \<noteq> []) in
                      thenP (write_json c rw2_verdict_file (verdict_json v))
                     (bindP (envP (c_code_sha c)) (\<lambda>sha.
                      thenP (append_log c [(''action'', JStr ''rw2''),
                               (''outcome'', JStr (if nogo then ''nogo'' else ''go'')),
                               (''round'', JInt (rp_round rp)), (''session_id'', opt_json (ar_session r)),
                               (''sha'', JStr sha),
                               (''fingerprint'', if nogo then JStr (verdict_fingerprint (c_sha256 c) v) else JNull),
                               (''detail'', JStr (blocker_summaries v))])
                        (commit_all c (round_msg rp @ ''rw2 guard review for '' @ cf_task cf)))))))))))"

definition run_authoritative :: "config \<Rightarrow> 'e collab \<Rightarrow> resume_point \<Rightarrow> ('e world, unit) prog" where
  "run_authoritative cf c rp =
     (case c_docker c of
        None \<Rightarrow> throwP (OtherError ''AssertionError'')
      | Some gate \<Rightarrow>
          bindP (envP (c_code_sha c)) (\<lambda>sha.
          bindP (envP (c_changed c)) (\<lambda>changed.
          bindP (envP (c_policy c)) (\<lambda>pol.
          bindP (envP (gate sha (frontend_touched changed (frontend_prefixes pol)))) (\<lambda>r.
          bindP (read_log c) (\<lambda>entries.
            let prior_fail = list_ex (\<lambda>e. has_action ''authoritative'' e \<and> dget e ''sha'' = JStr sha
                                \<and> has_outcome ''fail'' e) entries;
                flaky = (au_passed r \<and> prior_fail)
            in thenP (write_json c ''test-authoritative.json'' (authoritative_json (r\<lparr>au_flaky := flaky\<rparr>)))
              (thenP (append_log c [(''action'', JStr ''authoritative''),
                        (''outcome'', JStr (if au_passed r then ''pass'' else ''fail'')),
                        (''round'', JInt (rp_round rp)), (''sha'', JStr sha), (''flaky'', JBool flaky),
                        (''fingerprint'', if au_passed r then JNull
                                          else JStr (failure_fingerprint (c_sha256 c) (au_tail r))),
                        (''detail'', JStr (if au_passed r then [] else last_chars 4000 (au_tail r)))])
                 (commit_all c (round_msg rp @ ''authoritative gate ''
                    @ (if au_passed r then ''passed'' else ''failed'') @ '' for '' @ cf_task cf)))))))))"

definition gate_failure_tail :: "entry list \<Rightarrow> string" where
  "gate_failure_tail entries =
     (case find (\<lambda>e. (has_action ''fast_tests'' e \<or> has_action ''authoritative'' e) \<and> has_outcome ''fail'' e)
             (rev entries) of
        None \<Rightarrow> []
      | Some e \<Rightarrow> if e = [] then [] else py_str (dget_or e ''detail'' (JStr [])))"

definition run_senior :: "config \<Rightarrow> 'e collab \<Rightarrow> resume_point \<Rightarrow> ('e world, unit) prog" where
  "run_senior cf c rp =
     (case c_senior c of
        None \<Rightarrow> throwP (OtherError ''AssertionError'')
      | Some ag \<Rightarrow>
          bindP (read_log c) (\<lambda>entries.
            let gate_tail = gate_failure_tail entries;
                gate_failure = (if strip gate_tail \<noteq> []
                                then senior_gate_failure_section (take 20000 gate_tail) else [])
            in bindP (role c ''senior-reviewer'') (\<lambda>role_text.
               bindP (read_json c rw1_verdict_file) (\<lambda>v1.
               bindP (read_json c rw2_verdict_file) (\<lambda>v2.
               bindP (envP (c_diff_text c)) (\<lambda>diff.
               bindP (try_verdict (request_verdict (c_json c) (runner_of cf c ag)
                        (senior_prompt role_text (cf_task cf) (spec_rel cf) (dumps (c_json c) v1)
                           (dumps (c_json c) v2) gate_failure (c_base_branch c) (take 20000 diff))
                        None 2 (Some validate_review))) (\<lambda>res.
                 case res of
                   Inl msg \<Rightarrow>
                     thenP (append_log c [(''action'', JStr ''senior''), (''outcome'', JStr ''deadlock''),
                              (''round'', JInt (rp_round rp)), (''detail'', JStr (take 2000 msg))])
                       (commit_all c (''Senior escalation deadlock for '' @ cf_task cf))
                 | Inr (v, r) \<Rightarrow>
                     thenP (write_json c senior_verdict_file (verdict_json v))
                    (bindP (envP (c_code_sha c)) (\<lambda>sha.
                     thenP (append_log c [(''action'', JStr ''senior''),
                              (''outcome'', JStr (if approved v then ''approved'' else ''changes_requested'')),
                              (''round'', JInt (rp_round rp)), (''session_id'', opt_json (ar_session r)),
                              (''sha'', JStr sha), (''detail'', JStr (blocker_summaries v))])
                       (commit_all c (''Senior escalation verdict for '' @ cf_task cf)))))))))))"

section \<open>The merge decision\<close>

definition decision_text :: "decision \<Rightarrow> string" where
  "decision_text d = (case d of AutoMerge \<Rightarrow> ''auto_merge'' | AutoMergeNotify \<Rightarrow> ''auto_merge_notify''
     | StopBeforeMerge \<Rightarrow> ''stop_before_merge'')"

definition merge_decision_json :: "merge_decision_rec \<Rightarrow> json" where
  "merge_decision_json d =
     JObj [(''decision'', JStr (decision_text (md_decision d))), (''risk_level'', JStr (risk_text (md_risk d))),
           (''reasons'', JArr (map JStr (md_reasons d)))]"

definition state_json :: "gate_states \<Rightarrow> json" where
  "state_json g =
     JObj [(''head_sha'', JStr (head_sha g)), (''phase'', JStr ''merge_decision''),
       (''rw1'', JObj [(''sha'', opt_json (rw1_sha g)), (''approved'', JBool (rw1_approved g))]),
       (''rw2'', JObj [(''sha'', opt_json (rw2_sha g)), (''go'', JBool (rw2_go g))]),
       (''authoritative'', JObj [(''sha'', opt_json (authoritative_sha g)),
          (''passed'', JBool (authoritative_passed g)), (''flaky'', JBool (authoritative_flaky g))])]"

definition declared_risk :: "'e collab \<Rightarrow> ('e world, risk) prog" where
  "declared_risk c =
     bindP (read_json c rw1_verdict_file) (\<lambda>v1. bindP (read_json c rw2_verdict_file) (\<lambda>v2.
       retP (declared_risk_from_verdicts v1 v2)))"

definition decide_merge :: "config \<Rightarrow> 'e collab \<Rightarrow> ('e world, merge_decision_rec) prog" where
  "decide_merge cf c =
     bindP (envP (c_code_sha c)) (\<lambda>head.
     bindP (envP (c_changed c)) (\<lambda>changed.
     bindP (read_log c) (\<lambda>log1.
       let gates = gate_states_from_log log1 head True True in
       thenP (write_json c ''state.json'' (state_json gates))
      (bindP (read_log c) (\<lambda>entries.
       bindP (envP (c_policy c)) (\<lambda>pol.
       bindP (envP (c_diff_lines c)) (\<lambda>lines.
       bindP (declared_risk c) (\<lambda>risk.
       bindP (envP (c_statuses c)) (\<lambda>statuses.
       bindP (getP (\<lambda>w. c_read_wt c (w_env w))) (\<lambda>read_wt.
         liftP (merge_decision
           \<lparr>mi_policy = pol, mi_files = changed, mi_lines = lines, mi_declared = Some (risk_text risk),
            mi_gates = gates, mi_statuses = Some statuses, mi_migration_texts = Some read_wt,
            mi_deadlock = list_ex (\<lambda>e. has_action ''senior'' e \<and> has_outcome ''deadlock'' e) entries,
            mi_unclear = False\<rparr>))))))))))) "

section \<open>Terminals\<close>

definition write_summary :: "'e collab \<Rightarrow> string \<Rightarrow> ('e world, unit) prog" where
  "write_summary c state =
     bindP (\<lambda>w. (c_summary c state (w_log w) (w_files w), w)) (write_text c ''human-summary.md'')"

definition write_handback :: "'e collab \<Rightarrow> string \<Rightarrow> ('e world, unit) prog" where
  "write_handback c state =
     bindP (\<lambda>w. (c_handback c state (w_log w) (w_files w), w)) (write_text c ''handback.md'')"

definition terminal_entry :: "string \<Rightarrow> entry" where
  "terminal_entry state = [(''action'', JStr ''terminal''), (''outcome'', JStr state)]"

definition push_entry :: "int option \<Rightarrow> entry" where
  "push_entry rnd = [(''action'', JStr ''push''), (''outcome'', JStr ''ok'')]
     @ (case rnd of None \<Rightarrow> [] | Some r \<Rightarrow> [(''round'', JInt r)])"

definition finalize :: "config \<Rightarrow> 'e collab \<Rightarrow> string \<Rightarrow> int option \<Rightarrow> ('e world, string) prog" where
  "finalize cf c state push_round =
     (let spec = terminal_spec state in
      thenP (write_summary c state)
     (thenP (whenP (ts_handback spec) (write_handback c state))
     (thenP (commit_all c (state @ '' for '' @ cf_task cf))
     (thenP (whenP (ts_push spec) (push c))
     (thenP (notify cf c state)
     (thenP (whenP (ts_kind spec = Success) (append_log c (push_entry push_round)))
     (thenP (append_log c (terminal_entry state))
     (thenP (commit_all c (''Record terminal '' @ state @ '' for '' @ cf_task cf))
     (thenP (whenP (ts_push spec) (push c))
       (retP state))))))))))"

definition internal_error :: "config \<Rightarrow> 'e collab \<Rightarrow> exn \<Rightarrow> ('e world, string) prog" where
  "internal_error cf c ex =
     (let state = ''INTERNAL_ERROR'' in
      thenP (guardP (append_log c (terminal_entry state @ [(''detail'', JStr (c_traceback c ex))])))
     (thenP (guardP (write_summary c state))
     (thenP (guardP (write_handback c state))
     (thenP (guardP (commit_all c (state @ '' for '' @ cf_task cf @ ''; handback written'')))
     (thenP (notify cf c state)
       (retP state))))))"

end
