(* ===== verification/Loop_Run.thy ===== *)
theory Loop_Run
  imports Loop_Phases
begin

text \<open>
  The sequencing half of \<open>src/orchestrator/loop.py\<close>: the report-only flow, the phase override, the main
  loop and \<open>run\<close>. The loop runs with fuel, \<open>None\<close> meaning that it ran out; the theory
  \<open>Loop_Facts\<close> proves how much is enough.
\<close>

section \<open>Report-only tasks\<close>

definition write_fix_spec :: "config \<Rightarrow> 'e collab \<Rightarrow> string \<Rightarrow> ('e world, unit) prog" where
  "write_fix_spec cf c fix_spec =
     envP (c_write_wt c (''.laddy/specs/'' @ cf_task cf @ ''-fix.md'') (force_draft_status fix_spec))"

text \<open>The investigation; \<open>Some state\<close> when the run ended there.\<close>

definition investigate :: "config \<Rightarrow> 'e collab \<Rightarrow> entry list \<Rightarrow> ('e world, string option) prog" where
  "investigate cf c entries =
     (if list_ex (has_action ''investigator'') entries then retP None
      else
        bindP (role c ''investigator'') (\<lambda>role_text.
        bindP (try_verdict (request_payload (runner_of cf c (c_dev c))
                 (investigator_prompt role_text (cf_task cf) (spec_rel cf))
                 (parse_investigator_payload (c_json c)) None 2)) (\<lambda>res.
          case res of
            Inl msg \<Rightarrow>
              thenP (append_log c [(''action'', JStr ''investigator''), (''outcome'', JStr ''malformed''),
                       (''detail'', JStr (take 2000 msg))])
                (bindP (finalize cf c ''INVESTIGATOR_MALFORMED'' None) (\<lambda>st. retP (Some st)))
          | Inr ((report, proposed, fix_spec), r) \<Rightarrow>
              thenP (write_text c report_file report)
             (thenP (write_json c proposed_file (JArr proposed))
             (thenP (case fix_spec of
                       JStr fx \<Rightarrow> whenP (strip fx \<noteq> []) (write_fix_spec cf c fx)
                     | _ \<Rightarrow> retP ())
             (thenP (append_log c [(''action'', JStr ''investigator''), (''outcome'', JStr (ar_exit r)),
                       (''session_id'', opt_json (ar_session r)),
                       (''findings'', JInt (int (length proposed)))])
             (thenP (commit_all c (''Investigator report for '' @ cf_task cf))
                (retP None))))))))"

text \<open>\<open>len\<close> of \<open>read_json(...) or []\<close>, which raises \<open>TypeError\<close> on a number or a boolean.\<close>

definition py_len :: "json \<Rightarrow> exn + nat" where
  "py_len v =
     (case v of JArr xs \<Rightarrow> Inr (length xs) | JStr s \<Rightarrow> Inr (length s) | JObj e \<Rightarrow> Inr (length e)
      | _ \<Rightarrow> Inl TypeError)"

definition verify_round :: "config \<Rightarrow> 'e collab \<Rightarrow> entry list \<Rightarrow> ('e world, string option) prog" where
  "verify_round cf c entries =
     (if list_ex (has_action ''verify'') entries then retP None
      else
        bindP (read_json c proposed_file) (\<lambda>p0.
        bindP (role c ''verify'') (\<lambda>role_text.
        bindP (try_verdict (request_verdict (c_json c) (runner_of cf c (c_rw1 c))
                 (verify_prompt role_text (cf_task cf) (spec_rel cf) (dumps (c_json c) (py_or p0 (JArr []))))
                 None 2 None)) (\<lambda>res.
          case res of
            Inl msg \<Rightarrow>
              thenP (append_log c [(''action'', JStr ''verify''), (''outcome'', JStr ''malformed''),
                       (''detail'', JStr (take 2000 msg))])
                (bindP (finalize cf c ''VERIFY_MALFORMED'' None) (\<lambda>st. retP (Some st)))
          | Inr (v, r) \<Rightarrow>
              thenP (write_json c findings_file (JArr (map finding_json (v_findings v))))
             (bindP (read_json c proposed_file) (\<lambda>p1.
              bindP (liftP (py_len (py_or p1 (JArr [])))) (\<lambda>np.
              bindP (read_text c report_file) (\<lambda>rep.
              bindP (read_text c findings_file) (\<lambda>fnd.
                thenP (append_log c [(''action'', JStr ''verify''), (''outcome'', JStr ''ok''),
                         (''session_id'', opt_json (ar_session r)),
                         (''confirmed'', JInt (int (length (v_findings v)))), (''proposed'', JInt (int np)),
                         (''content_sha'', JStr (report_content_sha (c_sha256 c) rep fnd))])
               (thenP (commit_all c (''Verified findings for '' @ cf_task cf))
                  (retP None)))))))))))"

text \<open>The publishing half: path guard, decision, terminal.\<close>

definition report_publish :: "config \<Rightarrow> 'e collab \<Rightarrow> ('e world, string) prog" where
  "report_publish cf c =
     bindP (envP (c_changed c)) (\<lambda>changed.
       if \<not> fst (path_guard (cf_task cf) changed) then
         thenP (append_log c [(''action'', JStr ''path_guard''), (''outcome'', JStr ''violation''),
                  (''detail'', JStr (take 2000 (join ''; '' (snd (path_guard (cf_task cf) changed)))))])
           (finalize cf c ''PATH_GUARD_VIOLATION'' None)
       else if \<not> cf_policy_enabled cf then finalize cf c ''PUSHED'' None
       else
         bindP (envP (c_changed c)) (\<lambda>changed_now.
         bindP (read_text c report_file) (\<lambda>rep.
         bindP (read_text c findings_file) (\<lambda>fnd.
         bindP (read_log c) (\<lambda>entries.
         bindP (getP (\<lambda>w. c_read_wt c (w_env w))) (\<lambda>read_wt.
         bindP (liftP (nondraft_report_specs (cf_task cf) changed_now read_wt)) (\<lambda>nondraft.
           let d = report_only_decision (cf_task cf) changed_now
                     (report_verify_confirmed (c_sha256 c) rep fnd entries) nondraft
           in thenP (write_json c merge_decision_file (merge_decision_json d))
                (finalize cf c (''MERGE_DECIDED:'' @ decision_text (md_decision d)) None))))))))"

definition run_report_only :: "config \<Rightarrow> 'e collab \<Rightarrow> ('e world, string) prog" where
  "run_report_only cf c =
     bindP (read_log c) (\<lambda>entries.
     bindP (investigate cf c entries) (\<lambda>stopped.
       case stopped of
         Some st \<Rightarrow> retP st
       | None \<Rightarrow>
           bindP (if list_ex (has_action ''investigator'') entries then retP entries else read_log c)
             (\<lambda>entries'.
           bindP (verify_round cf c entries') (\<lambda>stopped'.
             case stopped' of Some st \<Rightarrow> retP st | None \<Rightarrow> report_publish cf c))))"

section \<open>The main loop\<close>

definition override_phase :: "'e collab \<Rightarrow> string \<Rightarrow> ('e world, string) prog" where
  "override_phase c phase =
     bindP (read_log c) (\<lambda>entries.
       if c_senior c = None then retP phase
       else if phase = ''developer'' \<and> nonconvergence_detected entries then
         retP (if senior_ran entries then ''deadlock'' else ''senior'')
       else if phase \<in> {''authoritative'', ''push''} \<and> \<not> senior_ran entries then
         bindP (declared_risk c) (\<lambda>risk.
           if risk = High then retP ''senior''
           else bindP (envP (c_policy c)) (\<lambda>pol. bindP (envP (c_changed c)) (\<lambda>changed.
             retP (if touches_invariant_tests pol changed then ''senior'' else phase))))
       else retP phase)"

definition push_phase :: "config \<Rightarrow> 'e collab \<Rightarrow> resume_point \<Rightarrow> ('e world, string) prog" where
  "push_phase cf c rp =
     bindP (if cf_policy_enabled cf
            then bindP (decide_merge cf c) (\<lambda>d.
                   thenP (write_json c merge_decision_file (merge_decision_json d))
                     (retP (''MERGE_DECIDED:'' @ decision_text (md_decision d))))
            else retP ''PUSHED'')
       (\<lambda>terminal. finalize cf c terminal (Some (rp_round rp)))"

definition done_phase :: "config \<Rightarrow> 'e collab \<Rightarrow> ('e world, string) prog" where
  "done_phase cf c =
     bindP (read_json c merge_decision_file) (\<lambda>d.
       let state = (case d of
                      JObj e \<Rightarrow> if truthy (dget e ''decision'')
                                then ''MERGE_DECIDED:'' @ py_str (dget e ''decision'') else ''PUSHED''
                    | _ \<Rightarrow> ''PUSHED'')
       in thenP (append_log c (terminal_entry state))
         (thenP (commit_all c (''Record terminal '' @ state @ '' for '' @ cf_task cf))
         (thenP (push c) (retP state))))"

text \<open>A phase that goes on: run it, then go round the loop.\<close>

definition goes_on :: "('s, unit) prog \<Rightarrow> ('s, string option) prog" where
  "goes_on m = thenP m (retP None)"

definition stops :: "('s, string) prog \<Rightarrow> ('s, string option) prog" where
  "stops m = bindP m (\<lambda>st. retP (Some st))"

definition run_phase :: "config \<Rightarrow> 'e collab \<Rightarrow> string \<Rightarrow> resume_point \<Rightarrow> ('e world, string option) prog" where
  "run_phase cf c phase rp =
     (if phase = ''developer'' then goes_on (run_developer cf c rp)
      else if phase = ''fast_tests'' then goes_on (run_fast_tests cf c rp)
      else if phase = ''rw1'' then goes_on (run_rw1 cf c rp)
      else if phase = ''rw2'' then goes_on (run_rw2 cf c rp)
      else if phase = ''authoritative'' then goes_on (run_authoritative cf c rp)
      else if phase = ''senior'' then goes_on (run_senior cf c rp)
      else if phase = ''push'' then stops (push_phase cf c rp)
      else if phase = ''cap_reached'' then stops (finalize cf c ''CAP_REACHED'' None)
      else if phase = ''deadlock'' then stops (finalize cf c ''ESCALATED_DEADLOCK'' None)
      else if phase = ''done'' then stops (done_phase cf c)
      else throwP (OtherError ''RuntimeError''))"

text \<open>One turn of the loop: \<open>Some state\<close> when it returns.\<close>

definition loop_turn :: "config \<Rightarrow> 'e collab \<Rightarrow> ('e world, string option) prog" where
  "loop_turn cf c =
     bindP (read_log c) (\<lambda>entries.
     bindP (liftP (derive_resume_point entries (cf_max_loops cf) (c_rw2 c \<noteq> None) (c_docker c \<noteq> None)))
       (\<lambda>rp.
         case resume_developer_point entries rp of
           Some rp' \<Rightarrow> run_phase cf c ''developer'' rp'
         | None \<Rightarrow> bindP (override_phase c (rp_phase rp)) (\<lambda>phase. run_phase cf c phase rp)))"

primrec main_loop :: "config \<Rightarrow> 'e collab \<Rightarrow> nat \<Rightarrow> 'e world \<Rightarrow> ((exn + string) \<times> 'e world) option" where
  "main_loop cf c 0 w = None"
| "main_loop cf c (Suc fuel) w =
     (case loop_turn cf c w of
        (Inl e, t) \<Rightarrow> Some (Inl e, t)
      | (Inr (Some st), t) \<Rightarrow> Some (Inr st, t)
      | (Inr None, t) \<Rightarrow> main_loop cf c fuel t)"

definition run_phases ::
  "config \<Rightarrow> 'e collab \<Rightarrow> nat \<Rightarrow> 'e world \<Rightarrow> ((exn + string) \<times> 'e world) option" where
  "run_phases cf c fuel w =
     (if has_role cf ''investigator'' then Some (run_report_only cf c w)
      else
        (case (if has_role cf ''explorer''
               then bindP (read_log c) (\<lambda>entries.
                      if list_ex (has_action ''explorer'') entries then retP () else run_explorer cf c)
               else retP ()) w of
           (Inl e, t) \<Rightarrow> Some (Inl e, t)
         | (Inr _, t) \<Rightarrow> main_loop cf c fuel t))"

text \<open>\<open>_bind_quota\<close> gives the run a fresh budget.\<close>

definition bind_quota :: "config \<Rightarrow> ('e world, unit) prog" where
  "bind_quota cf = modifyP (\<lambda>w. if cf_quota cf = None then w else w\<lparr>w_spent := 0\<rparr>)"

definition run ::
  "config \<Rightarrow> 'e collab \<Rightarrow> nat \<Rightarrow> 'e world \<Rightarrow> ((exn + string) \<times> 'e world) option" where
  "run cf c fuel w =
     (case thenP (envP (c_worktree c)) (read_log c) w of
        (Inl e, t) \<Rightarrow> Some (Inl e, t)
      | (Inr entries, t) \<Rightarrow>
          (case recorded_terminal entries of
             Some st \<Rightarrow> Some (Inr st, t)
           | None \<Rightarrow>
               (case run_phases cf c fuel (snd (bind_quota cf t)) of
                  None \<Rightarrow> None
                | Some (Inr st, u) \<Rightarrow> Some (Inr st, u)
                | Some (Inl e, u) \<Rightarrow>
                    Some (if e = QuotaTimeout then finalize cf c ''QUOTA_TIMEOUT'' None u
                          else internal_error cf c e u))))"

text \<open>\<open>run_explorer\<close>, the foreground design gate.\<close>

definition explore :: "config \<Rightarrow> 'e collab \<Rightarrow> ('e world, string) prog" where
  "explore cf c =
     thenP (envP (c_worktree c))
    (bindP (read_log c) (\<lambda>entries.
     thenP (whenP (\<not> list_ex (has_action ''explorer'') entries) (run_explorer cf c))
    (bindP (read_text c exploration_file) (\<lambda>t.
       retP (case t of None \<Rightarrow> [] | Some x \<Rightarrow> x)))))"

end
