(* ===== verification/World_Facts.thy ===== *)
theory World_Facts
  imports World
begin

text \<open>
  What every program over the world keeps. An invariant of the world is checked once against the ways
  the primitives change it (the contract \<open>world_invariant\<close>); every program built from the primitives
  then keeps it, whether it returns or raises. The contract is met by the budget of the quota
  wrapper, by the history invariant (the log only grows, and only by the appends of the trace) and by
  the part of the log that the next phase is derived from.
\<close>

section \<open>Events\<close>

text \<open>The entries an event appends.\<close>

fun appended :: "event list \<Rightarrow> entry list" where
  "appended [] = []"
| "appended (EvAppend e # evs) = e # appended evs"
| "appended (ev # evs) = appended evs"

lemma appended_append [simp]: "appended (a @ b) = appended a @ appended b"
  by (induction a rule: appended.induct) auto

lemma appended_single [simp]: "(\<forall>e. ev \<noteq> EvAppend e) \<Longrightarrow> appended [ev] = []"
  by (cases ev) auto

text \<open>
  An entry no phase is derived from: neither a phase entry, nor a resume, nor a terminal.
\<close>

definition loud_actions :: "string list" where
  "loud_actions = ''director_resume'' # ''terminal'' # phase_actions"

definition loud :: "entry \<Rightarrow> bool" where
  "loud e = list_ex (\<lambda>a. has_action a e) loud_actions"

text \<open>Events any agent call, review or test may cause.\<close>

fun basic :: "event \<Rightarrow> bool" where
  "basic (EvAppend e) = (\<not> loud e)"
| "basic EvPush = False"
| "basic (EvNotify s) = (s = ''QUOTA_WAIT'')"
| "basic _ = True"

section \<open>The contract of an invariant\<close>

locale log_invariant =
  fixes I :: "'e world \<Rightarrow> bool"
    and ok :: "event \<Rightarrow> bool"
  assumes env_free: "I w \<Longrightarrow> I (w\<lparr>w_env := v\<rparr>)"
    and files_free: "I w \<Longrightarrow> I (w\<lparr>w_files := f\<rparr>)"
    and emits: "ok ev \<Longrightarrow> (\<forall>e. ev \<noteq> EvAppend e) \<Longrightarrow> I w \<Longrightarrow> I (w\<lparr>w_trace := w_trace w @ [ev]\<rparr>)"
    and appends: "ok (EvAppend e) \<Longrightarrow> I w \<Longrightarrow>
      I (w\<lparr>w_log := w_log w @ [e], w_trace := w_trace w @ [EvAppend e]\<rparr>)"
    and basic_ok: "basic ev \<Longrightarrow> ok ev"
begin

lemma env_keeps [intro]: "keepsP I (envP m)"
  by (auto simp: validP_def envP_def intro: env_free split: prod.splits sum.splits)

lemma logged_keeps: "ok ev \<Longrightarrow> (\<forall>e. ev \<noteq> EvAppend e) \<Longrightarrow> keepsP I (logged ev)"
  unfolding logged_def by (rule validP_modify) (rule emits)

lemma io_keeps: "keepsP I m \<Longrightarrow> keepsP I (ioP c op m)"
  by (auto simp: validP_def ioP_def intro: env_free split: prod.splits sum.splits option.splits)

lemma append_log_keeps:
  assumes "\<And>ts. ok (EvAppend ((''ts'', ts) # flds))"
  shows "keepsP I (append_log c flds)"
  unfolding append_log_def
proof (rule io_keeps)
  show "keepsP I (\<lambda>w. case c_now c (w_env w) of (ts, v) \<Rightarrow>
      (let e = (''ts'', ts) # flds in
       (Inr (), w\<lparr>w_env := v, w_log := w_log w @ [e], w_trace := w_trace w @ [EvAppend e]\<rparr>)))"
    unfolding validP_def
  proof (intro allI impI)
    fix w :: "'e world"
    assume w: "I w"
    obtain ts v where tv: "c_now c (w_env w) = (ts, v)"
      by (cases "c_now c (w_env w)")
    have "I (w\<lparr>w_env := v, w_log := w_log w @ [(''ts'', ts) # flds],
        w_trace := w_trace w @ [EvAppend ((''ts'', ts) # flds)]\<rparr>)"
      using appends[OF assms env_free[OF w, of v], of ts] by simp
    then show "case case c_now c (w_env w) of (ts, v) \<Rightarrow>
        (let e = (''ts'', ts) # flds in
         (Inr (), w\<lparr>w_env := v, w_log := w_log w @ [e], w_trace := w_trace w @ [EvAppend e]\<rparr>)) of
        (Inl e, t) \<Rightarrow> I t | (Inr a, t) \<Rightarrow> I t"
      by (simp add: tv Let_def)
  qed
qed

lemma get_keeps [intro]: "keepsP I (getP f)"
  by (rule validP_get)

lemma read_log_keeps [intro]: "keepsP I (read_log c)"
  unfolding read_log_def by (intro io_keeps get_keeps)

lemma read_text_keeps [intro]: "keepsP I (read_text c name)"
  unfolding read_text_def by (intro io_keeps get_keeps)

lemma read_json_keeps [intro]: "keepsP I (read_json c name)"
  unfolding read_json_def
  by (intro validP_bind[OF read_text_keeps] validP_option validP_ret validP_throw) simp_all

lemma write_text_keeps [intro]: "keepsP I (write_text c name txt)"
  unfolding write_text_def
proof (intro io_keeps validP_modify)
  fix w assume w: "I w"
  show "I (w\<lparr>w_files := (w_files w)(name \<mapsto> txt), w_trace := w_trace w @ [EvWrite name]\<rparr>)"
    using emits[OF basic_ok _ files_free[OF w], of "EvWrite name" "(w_files w)(name \<mapsto> txt)"] by simp
qed

lemma write_json_keeps [intro]: "keepsP I (write_json c name v)"
  unfolding write_json_def by (rule write_text_keeps)

lemma commit_keeps [intro]: "keepsP I (commit_all c msg)"
  unfolding commit_all_def by (intro validP_then[where R = I] logged_keeps basic_ok env_keeps) simp_all

lemma agent_keeps [intro]: "keepsP I (agent_call ag p q)"
  unfolding agent_call_def by (intro validP_then[where R = I] logged_keeps basic_ok env_keeps) simp_all

lemma notify_keeps: "ok (EvNotify state) \<Longrightarrow> keepsP I (notify cf c state)"
  unfolding notify_def Let_def
  by (intro validP_then[where R = I] logged_keeps validP_if validP_catch[where R = "\<lambda>_. I"] env_keeps
      validP_ret validP_throw) simp_all

lemma on_wait_keeps: "keepsP I (on_wait cf c r reset wait a)"
  unfolding on_wait_def
  by (intro validP_then[where R = I] append_log_keeps validP_when notify_keeps basic_ok)
     (simp_all add: loud_def loud_actions_def phase_actions_def has_action_def)

lemma on_resume_keeps: "keepsP I (on_resume c r a)"
  unfolding on_resume_def
  by (intro append_log_keeps basic_ok)
     (simp_all add: loud_def loud_actions_def phase_actions_def has_action_def)

end

text \<open>An invariant that does not read the amount spent is kept by the bound wrapper too.\<close>

locale world_invariant = log_invariant +
  assumes spent_free: "I w \<Longrightarrow> I (w\<lparr>w_spent := n\<rparr>)"
begin

lemma charge_keeps: "keepsP I (charge_wait limit wait)"
  by (auto simp: validP_def charge_wait_def intro: spent_free split: sum.split)

lemma quota_wait_keeps: "keepsP I (quota_wait pol (hooks_of cf c pol ag) r a)"
  unfolding quota_wait_def hooks_of_def opt_call_def
  by (auto intro!: validP_bind[where R = "\<lambda>_. I"] validP_then[where R = I] validP_lift
      charge_keeps on_wait_keeps env_keeps)

lemma quota_run_keeps:
  "I w \<Longrightarrow> quota_run pol (hooks_of cf c pol ag) fuel a p q w = Some (x, t) \<Longrightarrow> I t"
proof (induction fuel arbitrary: a w)
  case 0
  then show ?case by simp
next
  case (Suc fuel)
  let ?h = "hooks_of cf c pol ag"
  have inner: "keepsP I (qh_inner ?h p q)"
    by (simp add: hooks_of_def agent_keeps)
  have resume: "keepsP I (if a \<noteq> 0 then opt_call (qh_on_resume ?h) a else retP ())"
    by (auto simp: hooks_of_def opt_call_def intro: on_resume_keeps validP_ret)
  obtain y s1 where y: "qh_inner ?h p q w = (y, s1)"
    by (cases "qh_inner ?h p q w")
  have s1: "I s1"
    using keepsP_result[OF inner Suc.prems(1) y] .
  show ?case
  proof (cases y)
    case (Inl e)
    then show ?thesis using Suc.prems(2) y s1 by simp
  next
    case (Inr r)
    show ?thesis
    proof (cases "ar_exit r = ''quota''")
      case True
      obtain z s2 where z: "quota_wait pol ?h r a s1 = (z, s2)"
        by (cases "quota_wait pol ?h r a s1")
      then have "I s2"
        using keepsP_result[OF quota_wait_keeps s1 z] by simp
      then show ?thesis
        using Suc.prems(2) Suc.IH[of s2 "Suc a"] y Inr True z by (auto split: sum.splits)
    next
      case False
      obtain z s2 where z: "(if a \<noteq> 0 then opt_call (qh_on_resume ?h) a else retP ()) s1 = (z, s2)"
        by (cases "(if a \<noteq> 0 then opt_call (qh_on_resume ?h) a else retP ()) s1")
      then have "I s2"
        using keepsP_result[OF resume s1 z] by simp
      then show ?thesis
        using Suc.prems(2) y Inr False z by (auto simp: retP_def split: sum.splits if_splits)
    qed
  qed
qed

lemma runner_keeps [intro]: "keepsP I (runner_of cf c ag p q)"
proof (cases "cf_quota cf")
  case None
  then have "runner_of cf c ag p q = agent_call ag p q"
    by (auto simp: runner_of_def)
  then show ?thesis
    by (simp add: agent_keeps)
next
  case (Some pol)
  show ?thesis
    unfolding validP_def
  proof (intro allI impI)
    fix w :: "'a world"
    assume "I w"
    then have "I (snd (runner_of cf c ag p q w))"
      using quota_run_keeps[of w pol cf c ag "quota_fuel (max_wait pol) (w_spent w)" 0 p q]
      by (auto simp: runner_of_def Some split: option.split)
    then show "case runner_of cf c ag p q w of (Inl e, t) \<Rightarrow> I t | (Inr r, t) \<Rightarrow> I t"
      by (auto split: prod.splits sum.splits)
  qed
qed

lemmas payload_keeps = request_payload_keeps[of I, OF runner_keeps]
lemmas verdict_keeps = request_verdict_keeps[of I, OF runner_keeps]

end

text \<open>The amount spent is one such invariant, so the bound wrapper meets the contract of its loop.\<close>

interpretation spent: log_invariant "\<lambda>w. w_spent w = b" "\<lambda>_. True" for b
  by unfold_locales simp_all

interpretation wrapped: bound_budget pol "hooks_of cf c pol ag" w_spent "max_wait pol"
proof
  fix ch s w
  assume ch: "qh_charge (hooks_of cf c pol ag) = Some ch"
  show "max_wait pol < w_spent s + w \<Longrightarrow> ch w s = (Inl QuotaTimeout, s)"
    using ch by (auto simp: hooks_of_def charge_wait_def charge_budget_def)
  show "w_spent s + w \<le> max_wait pol \<Longrightarrow> \<exists>t. ch w s = (Inr (), t) \<and> w_spent t = w_spent s + w"
    using ch by (auto simp: hooks_of_def charge_wait_def charge_budget_def)
next
  show "qh_charge (hooks_of cf c pol ag) \<noteq> None"
    by (simp add: hooks_of_def)
  show "keepsP (\<lambda>s. w_spent s = b) (qh_inner (hooks_of cf c pol ag) p q)" for b p q
    by (simp add: hooks_of_def spent.agent_keeps)
  show "keepsP (\<lambda>s. w_spent s = b) (qh_now (hooks_of cf c pol ag))" for b
    by (simp add: hooks_of_def spent.env_keeps)
  show "keepsP (\<lambda>s. w_spent s = b) (qh_sleep (hooks_of cf c pol ag) w)" for b w
    by (simp add: hooks_of_def spent.env_keeps)
  show "qh_on_wait (hooks_of cf c pol ag) = Some f \<Longrightarrow> keepsP (\<lambda>s. w_spent s = b) (f reset w a)" for b f reset w a
    using spent.on_wait_keeps by (auto simp: hooks_of_def)
  show "qh_on_resume (hooks_of cf c pol ag) = Some g \<Longrightarrow> keepsP (\<lambda>s. w_spent s = b) (g a)" for b g a
    using spent.on_resume_keeps by (auto simp: hooks_of_def)
qed

text \<open>
  Waiting for quota always ends: under a policy whose back-off waits are positive, a call through
  the bound wrapper returns or raises within the fuel given to it (so it is never the endless wait),
  its result never reports an exhausted quota, and the waits charged to the task never exceed the
  configured maximum.
\<close>

theorem runner_of_ends:
  assumes "cf_quota cf = Some pol" "positive_policy pol"
  shows "\<exists>x t. runner_of cf c ag p q w = (x, t)
    \<and> quota_run pol (hooks_of cf c pol ag) (quota_fuel (max_wait pol) (w_spent w)) 0 p q w = Some (x, t)
    \<and> w_spent w \<le> w_spent t \<and> w_spent t \<le> max (max_wait pol) (w_spent w)
    \<and> (\<forall>r. x = Inr r \<longrightarrow> ar_exit r \<noteq> ''quota'')"
  using wrapped.quota_run_returns[where cf = cf and c = c and ag = ag and s = w and a = 0 and p = p and q = q, OF assms(2) order_refl] assms
  by (auto simp: runner_of_def)

end
