(* ===== verification/Loop_Facts.thy ===== *)
theory Loop_Facts
  imports Loop_Run World_Facts
begin

text \<open>
  What one phase of the loop does to the log and to the world outside: every phase that goes on
  appends exactly one phase entry of its own action, besides entries no phase is derived from, and
  neither pushes nor reports a terminal state; the tail of a run emits a fixed sequence of effects.
\<close>

section \<open>The loud part of a trace\<close>

text \<open>Events up to the time stamps of the appended entries.\<close>

fun norm :: "entry \<Rightarrow> entry" where
  "norm [] = []"
| "norm ((k, v) # e) = (k, if k = ''ts'' then JNull else v) # e"

fun untimed :: "event \<Rightarrow> event" where
  "untimed (EvAppend e) = EvAppend (norm e)"
| "untimed ev = ev"

lemma dget_norm [simp]: "k \<noteq> ''ts'' \<Longrightarrow> dget (norm e) k = dget e k"
  by (cases e rule: norm.cases) (simp_all add: dget_def)

lemma norm_norm [simp]: "norm (norm e) = norm e"
  by (cases e rule: norm.cases) simp_all

lemma norm_has [simp]: "has_action a (norm e) = has_action a e" "has_outcome r (norm e) = has_outcome r e"
  "loud (norm e) = loud e" "is_phase (norm e) = is_phase e" "action_text (norm e) = action_text e"
  "outcome_text (norm e) = outcome_text e"
  by (simp_all add: has_action_def has_outcome_def loud_def is_phase_def action_text_def outcome_text_def)

lemma basic_untimed [simp]: "basic (untimed ev) = basic ev"
  by (cases ev) simp_all

definition stamped :: "entry \<Rightarrow> event" where
  "stamped flds = EvAppend ((''ts'', JNull) # flds)"

definition seen :: "'e world \<Rightarrow> event list \<Rightarrow> 'e world \<Rightarrow> bool" where
  "seen w0 T w \<longleftrightarrow> (\<exists>t. w_trace w = w_trace w0 @ t \<and> map untimed (filter (\<lambda>ev. \<not> basic ev) t) = T
     \<and> w_log w = w_log w0 @ appended t)"

lemma seen_refl: "seen w [] w"
  by (simp add: seen_def)

lemma seen_emit:
  "seen w0 T w \<Longrightarrow> \<not> basic ev \<Longrightarrow> (\<forall>e. ev \<noteq> EvAppend e) \<Longrightarrow>
   seen w0 (T @ [untimed ev]) (w\<lparr>w_trace := w_trace w @ [ev]\<rparr>)"
  unfolding seen_def by (elim exE, rule_tac x = "t @ [ev]" in exI) simp

lemma seen_append:
  "seen w0 T w \<Longrightarrow> \<not> basic (EvAppend ((''ts'', ts) # flds)) \<Longrightarrow>
   seen w0 (T @ [stamped flds])
     (w\<lparr>w_log := w_log w @ [(''ts'', ts) # flds], w_trace := w_trace w @ [EvAppend ((''ts'', ts) # flds)]\<rparr>)"
  unfolding seen_def by (elim exE, rule_tac x = "t @ [EvAppend ((''ts'', ts) # flds)]" in exI) (simp add: stamped_def)

lemma seen_env: "seen w0 T w \<Longrightarrow> seen w0 T (w\<lparr>w_env := v\<rparr>)"
  by (simp add: seen_def)

interpretation seen: world_invariant "seen w0 T" basic for w0 T
proof
  fix w and ev :: event
  assume "basic ev" "\<forall>e. ev \<noteq> EvAppend e" "seen w0 T w"
  then show "seen w0 T (w\<lparr>w_trace := w_trace w @ [ev]\<rparr>)"
    unfolding seen_def by (elim exE, rule_tac x = "t @ [ev]" in exI) simp
next
  fix w e
  assume "basic (EvAppend e)" "seen w0 T w"
  then show "seen w0 T (w\<lparr>w_log := w_log w @ [e], w_trace := w_trace w @ [EvAppend e]\<rparr>)"
    unfolding seen_def by (elim exE, rule_tac x = "t @ [EvAppend e]" in exI) simp
qed (simp_all add: seen_def)

lemma has_action_stamp [simp]: "has_action a ((''ts'', ts) # flds) = has_action a flds"
  by (simp add: has_action_def)

lemma loud_stamp [simp]: "loud ((''ts'', ts) # flds) = loud flds"
  by (simp add: loud_def)

lemma append_log_seen:
  assumes "loud flds"
  shows "validP (seen w0 T) (append_log c flds) (\<lambda>_. seen w0 (T @ [stamped flds])) (\<lambda>_. seen w0 T)"
  unfolding append_log_def ioP_def validP_def Let_def
  using assms seen_append[OF seen_env]
  by (auto simp: seen_env split: prod.splits option.splits)

lemma push_seen:
  "validP (seen w0 T) (push c) (\<lambda>_. seen w0 (T @ [EvPush])) (\<lambda>_. seen w0 (T @ [EvPush]))"
  unfolding push_def logged_def
  by (rule validP_then[OF validP_modify seen.env_keeps]) (use seen_emit[where ev = EvPush] in simp)

lemma notify_seen:
  assumes "st \<noteq> ''QUOTA_WAIT''"
  shows "validP (seen w0 T) (notify cf c st) (\<lambda>_. seen w0 (T @ [EvNotify st])) (\<lambda>_. seen w0 (T @ [EvNotify st]))"
  unfolding notify_def Let_def logged_def
  using seen_emit[where ev = "EvNotify st"] assms
  by (intro validP_then[where R = "seen w0 (T @ [EvNotify st])"] validP_if validP_modify
      validP_catch[where R = "\<lambda>_. seen w0 (T @ [EvNotify st])"] seen.env_keeps validP_ret validP_throw)
     simp_all

section \<open>Phases\<close>

text \<open>
  \<open>tells I J m\<close>: from \<open>I\<close>, the program ends in \<open>J\<close>, or raises in \<open>I\<close> or in \<open>J\<close>.
\<close>

abbreviation tells :: "('s \<Rightarrow> bool) \<Rightarrow> ('s \<Rightarrow> bool) \<Rightarrow> ('s, 'a) prog \<Rightarrow> bool" where
  "tells I J m \<equiv> validP I m (\<lambda>_. J) (\<lambda>_ w. I w \<or> J w)"

lemma tells_bind: "keepsP I m \<Longrightarrow> (\<And>a. tells I J (f a)) \<Longrightarrow> tells I J (bindP m f)"
  by (rule validP_bind) (auto elim: validP_weaken)

lemma tells_then: "keepsP I m \<Longrightarrow> tells I J k \<Longrightarrow> tells I J (thenP m k)"
  unfolding thenP_def by (rule tells_bind)

lemma tells_done: "tells I J m \<Longrightarrow> keepsP J k \<Longrightarrow> tells I J (thenP m k)"
  by (rule validP_then) (auto elim: validP_weaken)

lemma tells_throw: "tells I J (throwP e)"
  by (rule validP_throw) simp

lemmas tells_rules = tells_bind tells_then tells_throw validP_option validP_sum validP_let validP_if validP_prod

text \<open>One loud entry, of the given action.\<close>

definition one :: "'e world \<Rightarrow> event list \<Rightarrow> string \<Rightarrow> 'e world \<Rightarrow> bool" where
  "one w0 T a w \<longleftrightarrow> (\<exists>flds. has_action a flds \<and> seen w0 (T @ [stamped flds]) w)"

lemma one_commit: "keepsP (one w0 T a) (commit_all c msg)"
  using seen.commit_keeps unfolding one_def validP_def by (fastforce split: prod.splits sum.splits)

lemma one_append:
  assumes "has_action a flds" "a \<in> set loud_actions"
  shows "tells (seen w0 T) (one w0 T a) (append_log c flds)"
proof -
  have "loud flds"
    using assms by (auto simp: loud_def list_ex_iff)
  then show ?thesis
    using assms(1) by (intro validP_weaken[OF append_log_seen]) (auto simp: one_def)
qed

lemma tells_entry:
  "has_action a flds \<Longrightarrow> a \<in> set loud_actions \<Longrightarrow>
   tells (seen w0 T) (one w0 T a) (thenP (append_log c flds) (commit_all c msg))"
  by (intro tells_done one_append one_commit)

context world_invariant
begin

lemma role_keeps [intro]: "keepsP I (role c name)"
  unfolding role_def by (rule env_keeps)

lemma try_verdict_keeps: "keepsP I m \<Longrightarrow> keepsP I (try_verdict m)"
  unfolding try_verdict_def
  by (intro validP_catch[where R = "\<lambda>_. I"] validP_bind[where R = "\<lambda>_. I"] validP_ret)
     (auto split: exn.split intro: validP_ret validP_throw)

lemma section_keeps: "keepsP I (bindP (read_json c file) (\<lambda>v. retP (f v)))"
  by (intro validP_bind[where R = "\<lambda>_. I"] read_json_keeps validP_ret)

lemma dev_context_keeps [intro]: "keepsP I (dev_context c)"
  unfolding dev_context_def Let_def
  by (intro validP_bind[where R = "\<lambda>_. I"] read_log_keeps read_json_keeps validP_option validP_if validP_lift validP_ret)

lemma ensure_setup_keeps [intro]: "keepsP I (ensure_setup cf c)"
  unfolding ensure_setup_def
  by (intro validP_bind[where R = "\<lambda>_. I"] validP_if validP_when get_keeps env_keeps validP_ret)
     (auto intro: validP_when env_keeps)

lemma declared_risk_keeps [intro]: "keepsP I (declared_risk c)"
  unfolding declared_risk_def by (intro validP_bind[where R = "\<lambda>_. I"] read_json_keeps validP_ret)

lemma lift_keeps [intro]: "keepsP I (liftP r)"
  by (rule validP_lift)

lemma ret_keeps [intro]: "keepsP I (retP r)"
  by (rule validP_ret)

lemmas keeps_rules = read_log_keeps read_text_keeps read_json_keeps write_text_keeps write_json_keeps
  env_keeps get_keeps lift_keeps ret_keeps role_keeps runner_keeps commit_keeps dev_context_keeps ensure_setup_keeps
  try_verdict_keeps payload_keeps verdict_keeps declared_risk_keeps

end

lemma action_fields [simp]: "has_action a ((''action'', JStr b) # e) \<longleftrightarrow> b = a"
  by (simp add: has_action_def)

lemma run_developer_tells: "tells (seen w0 T) (one w0 T ''developer'') (run_developer cf c rp)"
  unfolding run_developer_def Let_def
  by (intro tells_rules tells_entry seen.keeps_rules)
     (simp_all add: developer_entry_def loud_actions_def phase_actions_def)

lemma run_fast_tests_tells: "tells (seen w0 T) (one w0 T ''fast_tests'') (run_fast_tests cf c rp)"
  unfolding run_fast_tests_def
  by (intro tells_rules tells_entry seen.keeps_rules)
     (simp_all add: fast_entry_def loud_actions_def phase_actions_def)

lemma run_rw1_tells: "tells (seen w0 T) (one w0 T ''rw1'') (run_rw1 cf c rp)"
  unfolding run_rw1_def
  by (intro tells_rules tells_entry seen.keeps_rules) (simp_all add: loud_actions_def phase_actions_def)

lemma run_rw2_tells: "tells (seen w0 T) (one w0 T ''rw2'') (run_rw2 cf c rp)"
  unfolding run_rw2_def Let_def
  by (intro tells_rules tells_entry seen.keeps_rules validP_if)
     (simp_all add: loud_actions_def phase_actions_def seen.section_keeps)

lemma run_authoritative_tells: "tells (seen w0 T) (one w0 T ''authoritative'') (run_authoritative cf c rp)"
  unfolding run_authoritative_def Let_def
  by (intro tells_rules tells_entry seen.keeps_rules) (simp_all add: loud_actions_def phase_actions_def)

lemma run_senior_tells: "tells (seen w0 T) (one w0 T ''senior'') (run_senior cf c rp)"
  unfolding run_senior_def Let_def
  by (intro tells_rules tells_entry seen.keeps_rules) (simp_all add: loud_actions_def phase_actions_def)

lemmas phase_tells = run_developer_tells run_fast_tests_tells run_rw1_tells run_rw2_tells
  run_authoritative_tells run_senior_tells

section \<open>Exact effects\<close>

text \<open>\<open>emits m L\<close>: \<open>m\<close> causes exactly the events \<open>L\<close>, or raises after an initial part of them.\<close>

definition exact :: "'e world \<Rightarrow> event list \<Rightarrow> 'e world \<Rightarrow> bool" where
  "exact w0 L w \<longleftrightarrow> (\<exists>t. w_trace w = w_trace w0 @ t \<and> map untimed t = L \<and> w_log w = w_log w0 @ appended t)"

definition emits :: "('e world, 'a) prog \<Rightarrow> event list \<Rightarrow> bool" where
  "emits m L \<longleftrightarrow> (\<forall>w. validP ((=) w) m (\<lambda>_. exact w L) (\<lambda>_ w'. \<exists>S. prefix S L \<and> exact w S w'))"

lemma seen_exact:
  assumes "seen w0 T w" "exact w L w'"
  shows "seen w0 (T @ filter (\<lambda>ev. \<not> basic ev) L) w'"
proof -
  obtain t where t: "w_trace w = w_trace w0 @ t" "map untimed (filter (\<lambda>ev. \<not> basic ev) t) = T"
    "w_log w = w_log w0 @ appended t"
    using assms(1) by (auto simp: seen_def)
  obtain u where u: "w_trace w' = w_trace w @ u" "map untimed u = L" "w_log w' = w_log w @ appended u"
    using assms(2) by (auto simp: exact_def)
  have "map untimed (filter (\<lambda>ev. \<not> basic ev) u) = filter (\<lambda>ev. \<not> basic ev) L"
    by (simp add: u(2)[symmetric] filter_map comp_def)
  then show ?thesis
    using t u by (auto simp: seen_def intro!: exI[of _ "t @ u"])
qed

lemma exact_refl [simp]: "exact w [] w"
  by (simp add: exact_def)

lemma exact_trans: "exact w0 A w1 \<Longrightarrow> exact w1 B w2 \<Longrightarrow> exact w0 (A @ B) w2"
  unfolding exact_def by (elim exE, rule_tac x = "t @ ta" in exI) simp

lemma exact_env: "exact w0 L w \<Longrightarrow> exact w0 L (w\<lparr>w_env := v\<rparr>)"
  by (simp add: exact_def)

lemma emits_Inr: "emits m L \<Longrightarrow> m w = (Inr a, w') \<Longrightarrow> exact w L w'"
  by (auto simp: emits_def dest: validP_Inr)

lemma emits_Inl: "emits m L \<Longrightarrow> m w = (Inl e, w') \<Longrightarrow> \<exists>S. prefix S L \<and> exact w S w'"
  by (auto simp: emits_def dest: validP_Inl)

lemma emitsI:
  "(\<And>w a w'. m w = (Inr a, w') \<Longrightarrow> exact w L w') \<Longrightarrow>
   (\<And>w e w'. m w = (Inl e, w') \<Longrightarrow> \<exists>S. prefix S L \<and> exact w S w') \<Longrightarrow> emits m L"
  by (auto simp: emits_def intro: validPI)

lemma emits_bind:
  assumes "emits m A" "\<And>a. emits (f a) B"
  shows "emits (bindP m f) (A @ B)"
proof (rule emitsI)
  fix w a w'
  assume "bindP m f w = (Inr a, w')"
  then show "exact w (A @ B) w'"
    unfolding bindP_Inr_iff using assms emits_Inr exact_trans by metis
next
  fix w e w'
  assume "bindP m f w = (Inl e, w')"
  then show "\<exists>S. prefix S (A @ B) \<and> exact w S w'"
    unfolding bindP_Inl_iff
  proof (elim disjE exE conjE)
    assume "m w = (Inl e, w')"
    then show ?thesis
      using emits_Inl[OF assms(1)] by (metis prefix_prefix)
  next
    fix a u
    assume "m w = (Inr a, u)" "f a u = (Inl e, w')"
    then show ?thesis
      using emits_Inr[OF assms(1)] emits_Inl[OF assms(2)] exact_trans same_prefix_prefix by metis
  qed
qed

lemma emits_then: "emits m A \<Longrightarrow> emits k B \<Longrightarrow> emits (thenP m k) (A @ B)"
  unfolding thenP_def by (rule emits_bind)

lemma emits_ret: "emits (retP a) []"
  by (rule emitsI) (simp_all add: retP_def)

lemma emits_when: "emits m A \<Longrightarrow> emits (whenP b m) (if b then A else [])"
  by (cases b) (simp_all add: whenP_def emits_ret)

lemma emits_env: "emits (envP m) []"
  by (rule emitsI) (auto simp: envP_def exact_def split: prod.splits)

lemma emits_logged: "(\<forall>e. ev \<noteq> EvAppend e) \<Longrightarrow> emits (logged ev) [ev]"
proof (rule emitsI)
  fix w a w'
  assume ev: "\<forall>e. ev \<noteq> EvAppend e" and "logged ev w = (Inr a, w')"
  then have "w' = w\<lparr>w_trace := w_trace w @ [ev]\<rparr>"
    by (simp add: logged_def modifyP_def)
  then show "exact w [ev] w'"
    using ev unfolding exact_def by (intro exI[of _ "[ev]"]) (cases ev, simp_all)
qed (simp add: logged_def modifyP_def)

lemma emits_io: "emits m A \<Longrightarrow> emits (ioP c op m) A"
proof (rule emitsI)
  fix w a w'
  assume m: "emits m A" and "ioP c op m w = (Inr a, w')"
  then obtain v where "m (w\<lparr>w_env := v\<rparr>) = (Inr a, w')"
    by (auto simp: ioP_def split: prod.splits option.splits)
  then show "exact w A w'"
    using emits_Inr[OF m] by (fastforce simp: exact_def)
next
  fix w e w'
  assume m: "emits m A" and "ioP c op m w = (Inl e, w')"
  then consider v where "w' = w\<lparr>w_env := v\<rparr>" | v where "m (w\<lparr>w_env := v\<rparr>) = (Inl e, w')"
    by (auto simp: ioP_def split: prod.splits option.splits)
  then show "\<exists>S. prefix S A \<and> exact w S w'"
  proof cases
    case (1 v)
    then show ?thesis by (intro exI[of _ "[]"]) (simp add: exact_def)
  next
    case (2 v)
    then show ?thesis using emits_Inl[OF m] by (fastforce simp: exact_def)
  qed
qed

lemma emits_append: "emits (append_log c flds) [stamped flds]"
  unfolding append_log_def
proof (intro emits_io emitsI)
  fix w a and w' :: "'a world"
  assume "(case c_now c (w_env w) of (ts, v) \<Rightarrow>
      (let e = (''ts'', ts) # flds in
       (Inr (), w\<lparr>w_env := v, w_log := w_log w @ [e], w_trace := w_trace w @ [EvAppend e]\<rparr>))) = (Inr a, w')"
  then obtain ts v where "w' = w\<lparr>w_env := v, w_log := w_log w @ [(''ts'', ts) # flds],
      w_trace := w_trace w @ [EvAppend ((''ts'', ts) # flds)]\<rparr>"
    by (auto simp: Let_def split: prod.splits)
  then show "exact w [stamped flds] w'"
    unfolding exact_def by (intro exI[of _ "[EvAppend ((''ts'', ts) # flds)]"]) (simp add: stamped_def)
qed (auto simp: Let_def split: prod.splits)

lemma emits_write: "emits (write_text c name txt) [EvWrite name]"
  unfolding write_text_def
proof (intro emits_io emitsI)
  fix w a and w' :: "'a world"
  assume "modifyP (\<lambda>w. w\<lparr>w_files := (w_files w)(name \<mapsto> txt), w_trace := w_trace w @ [EvWrite name]\<rparr>) w
      = (Inr a, w')"
  then have "w' = w\<lparr>w_files := (w_files w)(name \<mapsto> txt), w_trace := w_trace w @ [EvWrite name]\<rparr>"
    by (simp add: modifyP_def)
  then show "exact w [EvWrite name] w'"
    unfolding exact_def by (intro exI[of _ "[EvWrite name]"]) simp
qed (simp add: modifyP_def)

lemma emits_catch_env: "emits (catchP (envP m) (\<lambda>e. if P e then retP () else throwP e)) []"
  by (rule emitsI) (auto simp: catchP_def envP_def retP_def throwP_def exact_def split: prod.splits sum.splits if_splits)

lemma emits_commit: "emits (commit_all c msg) [EvCommit msg]"
  using emits_then[OF emits_logged emits_env, of "EvCommit msg" "c_commit c msg"] by (simp add: commit_all_def)

lemma emits_push: "emits (push c) [EvPush]"
  using emits_then[OF emits_logged emits_env, of EvPush "c_push c"] by (simp add: push_def)

lemma emits_notify: "emits (notify cf c st) [EvNotify st]"
proof -
  have "emits (if \<not> c_topic c then retP ()
      else catchP (envP (c_post c p)) (\<lambda>e. if e = OSError then retP () else throwP e)) []" for p
    by (simp add: emits_ret emits_catch_env)
  then have "emits (notify cf c st) ([EvNotify st] @ [])"
    unfolding notify_def Let_def by (intro emits_then emits_logged) simp_all
  then show ?thesis
    by simp
qed

lemma emits_pure_write: "emits (bindP (\<lambda>w. (f w, w)) (write_text c name)) [EvWrite name]"
  using emits_bind[OF _ emits_write, of "\<lambda>w. (f w, w)" "[]"]
  by (simp add: emits_def validP_def split: sum.splits)

lemma emits_read_text: "emits (read_text c name) []"
  unfolding read_text_def by (rule emits_io) (auto intro: emitsI simp: getP_def)

lemma emits_read_json: "emits (read_json c name) []"
proof -
  have "emits (case t of None \<Rightarrow> retP JNull
       | Some txt \<Rightarrow> (case loads (c_json c) txt of None \<Rightarrow> throwP ValueError | Some v \<Rightarrow> retP v)) []" for t
    by (auto intro: emits_ret emitsI simp: throwP_def split: option.split)
  then have "emits (read_json c name) ([] @ [])"
    unfolding read_json_def by (intro emits_bind emits_read_text)
  then show ?thesis
    by simp
qed

text \<open>The tail of a run in its order: artifacts, commit, push, notify, marker, commit, push.\<close>

definition tail_events :: "config \<Rightarrow> string \<Rightarrow> int option \<Rightarrow> event list" where
  "tail_events cf st rnd =
     [EvWrite ''human-summary.md''] @ (if ts_handback (terminal_spec st) then [EvWrite ''handback.md''] else [])
     @ [EvCommit (st @ '' for '' @ cf_task cf)]
     @ (if ts_push (terminal_spec st) then [EvPush] else [])
     @ [EvNotify st]
     @ (if ts_kind (terminal_spec st) = Success then [stamped (push_entry rnd)] else [])
     @ [stamped (terminal_entry st)]
     @ [EvCommit (''Record terminal '' @ st @ '' for '' @ cf_task cf)]
     @ (if ts_push (terminal_spec st) then [EvPush] else [])"

lemma finalize_emits: "emits (finalize cf c st rnd) (tail_events cf st rnd)"
proof -
  have "emits (thenP (write_summary c st) (thenP (whenP (ts_handback (terminal_spec st)) (write_handback c st))
     (thenP (commit_all c (st @ '' for '' @ cf_task cf))
     (thenP (whenP (ts_push (terminal_spec st)) (push c))
     (thenP (notify cf c st)
     (thenP (whenP (ts_kind (terminal_spec st) = Success) (append_log c (push_entry rnd)))
     (thenP (append_log c (terminal_entry st))
     (thenP (commit_all c (''Record terminal '' @ st @ '' for '' @ cf_task cf))
     (thenP (whenP (ts_push (terminal_spec st)) (push c)) (retP st))))))))))
     ([EvWrite ''human-summary.md''] @ (if ts_handback (terminal_spec st) then [EvWrite ''handback.md''] else [])
     @ [EvCommit (st @ '' for '' @ cf_task cf)] @ (if ts_push (terminal_spec st) then [EvPush] else [])
     @ [EvNotify st] @ (if ts_kind (terminal_spec st) = Success then [stamped (push_entry rnd)] else [])
     @ [stamped (terminal_entry st)] @ [EvCommit (''Record terminal '' @ st @ '' for '' @ cf_task cf)]
     @ (if ts_push (terminal_spec st) then [EvPush] else []) @ [])"
    unfolding write_summary_def write_handback_def
    by (intro emits_then emits_pure_write emits_when emits_commit emits_push emits_notify emits_append emits_ret)
  then show ?thesis
    by (simp add: finalize_def tail_events_def Let_def)
qed

lemma thenP_Inr: "thenP m k w = (Inr b, u) \<Longrightarrow> \<exists>a t. m w = (Inr a, t) \<and> k t = (Inr b, u)"
  by (simp add: thenP_def bindP_Inr_iff)

lemma finalize_state: "finalize cf c st rnd w = (Inr r, w') \<Longrightarrow> r = st"
  by (auto simp: finalize_def Let_def retP_def dest!: thenP_Inr)

section \<open>The skeleton of a log\<close>

text \<open>What the next phase and the recorded state are derived from, up to time stamps.\<close>

definition skel :: "entry list \<Rightarrow> entry list" where
  "skel L = map norm (filter loud L)"

lemma skel_append [simp]: "skel (a @ b) = skel a @ skel b"
  by (simp add: skel_def)

lemma skel_skel [simp]: "skel (skel L) = skel L"
  by (simp add: skel_def filter_map comp_def)

lemma skel_appended: "skel (appended t) = appended (map untimed (filter (\<lambda>ev. \<not> basic ev) t))"
  by (induction t rule: appended.induct) (simp_all add: skel_def)

lemma seen_skel: "seen w0 T w \<Longrightarrow> skel (w_log w) = skel (w_log w0) @ appended T"
  by (auto simp: seen_def skel_appended)

lemma appended_stamped [simp]: "appended (stamped flds # evs) = ((''ts'', JNull) # flds) # appended evs"
  by (simp add: stamped_def)

lemma loudI: "has_action a e \<Longrightarrow> a \<in> set loud_actions \<Longrightarrow> loud e"
  by (auto simp: loud_def list_ex_iff)

lemma loud_phase: "is_phase e \<Longrightarrow> loud e"
  by (auto simp: loud_def is_phase_def loud_actions_def)

lemma loud_action_mem:
  "''developer'' \<in> set loud_actions" "''senior'' \<in> set loud_actions" "''director_resume'' \<in> set loud_actions"
  "''terminal'' \<in> set loud_actions" "''push'' \<in> set loud_actions"
  by (simp_all add: loud_actions_def phase_actions_def)

lemma rounds_skel: "rounds_used (skel L) = rounds_used L"
proof -
  have "filter (has_action ''developer'') (filter loud L) = filter (has_action ''developer'') L"
    using loudI loud_action_mem(1) by (induction L) auto
  moreover have "length (filter (has_action ''developer'') (map norm xs)) = length (filter (has_action ''developer'') xs)" for xs
    by (induction xs) simp_all
  ultimately show ?thesis
    by (simp add: rounds_used_def skel_def)
qed

lemma senior_skel: "senior_ran (skel L) = senior_ran L"
  using loudI loud_action_mem(2) by (auto simp: senior_ran_def skel_def list_ex_iff)

lemma dev_rounds_from_skel: "dev_rounds_from n (map norm (filter loud es)) = dev_rounds_from n es"
  using loudI loud_action_mem(1,3) by (induction es arbitrary: n) auto

lemma since_skel: "dev_rounds_since_resume (skel L) = dev_rounds_since_resume L"
  using dev_rounds_from_skel[of 0 "rev L"]
  by (simp add: dev_rounds_since_resume_def skel_def rev_map rev_filter)

lemma find_skel:
  "(\<And>e. P e \<Longrightarrow> loud e) \<Longrightarrow> (\<And>e. P (norm e) = P e) \<Longrightarrow>
   find P (map norm (filter loud es)) = map_option norm (find P es)"
  by (induction es) auto

lemma last_phase_skel: "last_phase (skel L) = map_option norm (last_phase L)"
  using find_skel[of is_phase "rev L", OF loud_phase]
  by (simp add: last_phase_def skel_def rev_map rev_filter)

lemma terminal_of_norm [simp]: "terminal_of (norm e) = terminal_of e"
  by (simp add: terminal_of_def)

end
