(* ===== verification/Loop_Results.thy ===== *)
theory Loop_Results
  imports Loop_Facts
begin

text \<open>
  Results about whole runs: every run returns, with a number of turns bounded by the configuration
  alone; it ends in exactly one tail of effects; what it returns is what the log records.
\<close>

section \<open>How a phase ends\<close>

definition closed :: "string \<Rightarrow> 'e world \<Rightarrow> bool" where
  "closed st w \<longleftrightarrow> (\<exists>pre e. w_log w = pre @ [e] \<and> terminal_of e = Some st)"

definition done_state :: "string \<Rightarrow> bool" where
  "done_state st = (st = ''PUSHED'' \<or> prefix merge_decided_prefix st)"

definition ending :: "config \<Rightarrow> string \<Rightarrow> event list \<Rightarrow> bool" where
  "ending cf st L \<longleftrightarrow> (st \<noteq> ''QUOTA_WAIT'' \<and> (\<exists>rnd. L = filter (\<lambda>ev. \<not> basic ev) (tail_events cf st rnd)))
     \<or> (L = [stamped (terminal_entry st), EvPush] \<and> done_state st)"

definition ended :: "config \<Rightarrow> 'e world \<Rightarrow> event list \<Rightarrow> string \<Rightarrow> 'e world \<Rightarrow> bool" where
  "ended cf w0 T st w \<longleftrightarrow> (\<exists>L. ending cf st L \<and> closed st w \<and> seen w0 (T @ L) w)"

text \<open>No developer round and no resume among the entries.\<close>

definition steady :: "event list \<Rightarrow> bool" where
  "steady S = list_all (\<lambda>e. \<not> has_action ''developer'' e \<and> \<not> has_action ''director_resume'' e) (appended S)"

definition stuck :: "'e world \<Rightarrow> event list \<Rightarrow> 'e world \<Rightarrow> bool" where
  "stuck w0 T w \<longleftrightarrow> (\<exists>S. steady S \<and> seen w0 (T @ S) w)"

lemma stuck_seen: "seen w0 T w \<Longrightarrow> stuck w0 T w"
  by (auto simp: stuck_def steady_def intro!: exI[of _ "[]"])

lemma steady_prefix: "prefix S L \<Longrightarrow> steady L \<Longrightarrow> steady S"
  by (auto simp: steady_def prefix_def)

lemma steady_filter: "steady S \<Longrightarrow> steady (filter P S)"
proof (induction S)
  case (Cons ev S)
  then show ?case by (cases ev) (auto simp: steady_def)
qed (simp add: steady_def)

lemma terminal_stamp: "terminal_of ((''ts'', ts) # terminal_entry st) = Some st"
  by (simp add: terminal_of_def terminal_entry_def outcome_text_def dget_def py_str_def has_action_def)

lemma tail_steady: "steady (tail_events cf st rnd)"
  by (auto simp: steady_def tail_events_def terminal_entry_def push_entry_def has_action_def dget_def)

lemma appended_untimed: "appended (map untimed t) = map norm (appended t)"
  by (induction t rule: appended.induct) simp_all

lemma closedI:
  assumes "exact w0 L w" "appended L = X @ [f]" "terminal_of f = Some st"
  shows "closed st w"
proof -
  obtain t where t: "map untimed t = L" "w_log w = w_log w0 @ appended t"
    using assms(1) by (auto simp: exact_def)
  then have "map norm (appended t) = X @ [f]"
    using assms(2) appended_untimed by metis
  then obtain es e where "appended t = es @ [e]" "norm e = f"
    by (auto simp: map_eq_append_conv)
  then show ?thesis
    using t(2) assms(3) terminal_of_norm[of e] by (auto simp: closed_def)
qed

lemma closed_recorded: "closed st w \<Longrightarrow> sticky (terminal_spec st) \<Longrightarrow> recorded_terminal (w_log w) = Some st"
  using recorded_terminal_at[of "[]"] by (auto simp: closed_def)

lemma tail_appended:
  "appended (tail_events cf st rnd) =
     (if ts_kind (terminal_spec st) = Success then [(''ts'', JNull) # push_entry rnd] else [])
     @ [(''ts'', JNull) # terminal_entry st]"
  by (simp add: tail_events_def)

lemma finalize_seen:
  assumes "seen w0 T w" "finalize cf c st rnd w = (r, w')" "st \<noteq> ''QUOTA_WAIT''"
  shows "case r of Inr x \<Rightarrow> x = st \<and> ended cf w0 T st w' | Inl e \<Rightarrow> stuck w0 T w'"
proof (cases r)
  case (Inr x)
  have ex: "exact w (tail_events cf st rnd) w'"
    using emits_Inr[OF finalize_emits] assms(2) Inr by blast
  have "closed st w'"
    using closedI[OF ex tail_appended terminal_stamp] .
  then show ?thesis
    using Inr finalize_state assms seen_exact[OF assms(1) ex] by (auto simp: ended_def ending_def)
next
  case (Inl e)
  then obtain S where "prefix S (tail_events cf st rnd)" "exact w S w'"
    using emits_Inl[OF finalize_emits] assms(2) by blast
  then have "steady (filter (\<lambda>ev. \<not> basic ev) S) \<and> seen w0 (T @ filter (\<lambda>ev. \<not> basic ev) S) w'"
    using seen_exact[OF assms(1)] steady_filter[OF steady_prefix[OF _ tail_steady]] by blast
  then show ?thesis
    using Inl unfolding stuck_def by auto
qed

lemma bind_result:
  assumes "keepsP I m" "I w" "bindP m f w = (r, w')"
  shows "(\<exists>e. r = Inl e \<and> I w') \<or> (\<exists>a u. m w = (Inr a, u) \<and> I u \<and> f a u = (r, w'))"
proof -
  obtain x u where m: "m w = (x, u)"
    by (cases "m w")
  then have "I u"
    using keepsP_result[OF assms(1,2)] by blast
  then show ?thesis
    using assms(3) m by (cases x) (auto simp: bindP_def)
qed

text \<open>A silent computation followed by something that ends a run.\<close>

definition ends :: "config \<Rightarrow> ('e world, string option) prog \<Rightarrow> bool" where
  "ends cf m \<longleftrightarrow> (\<forall>w0 T w r w'. seen w0 T w \<longrightarrow> m w = (r, w') \<longrightarrow>
     (case r of Inr None \<Rightarrow> seen w0 T w' | Inr (Some st) \<Rightarrow> ended cf w0 T st w' | Inl e \<Rightarrow> stuck w0 T w'))"

lemma ends_bind:
  assumes "\<And>w0 T. keepsP (seen w0 T) m" "\<And>a. ends cf (f a)"
  shows "ends cf (bindP m f)"
  unfolding ends_def
proof (intro allI impI)
  fix w0 T w r w'
  assume w: "seen w0 T w" "bindP m f w = (r, w')"
  then show "case r of Inr None \<Rightarrow> seen w0 T w' | Inr (Some st) \<Rightarrow> ended cf w0 T st w' | Inl e \<Rightarrow> stuck w0 T w'"
    using bind_result[OF assms(1) w] assms(2) unfolding ends_def by (fastforce intro: stuck_seen)
qed

lemma ends_then: "(\<And>w0 T. keepsP (seen w0 T) m) \<Longrightarrow> ends cf k \<Longrightarrow> ends cf (thenP m k)"
  unfolding thenP_def by (rule ends_bind)

lemma ends_finalize: "st \<noteq> ''QUOTA_WAIT'' \<Longrightarrow> ends cf (bindP (finalize cf c st rnd) (\<lambda>x. retP (Some x)))"
  unfolding ends_def
proof (intro allI impI)
  fix w0 T w r w'
  assume st: "st \<noteq> ''QUOTA_WAIT''"
  assume w: "seen w0 T w" "bindP (finalize cf c st rnd) (\<lambda>x. retP (Some x)) w = (r, w')"
  obtain x u where x: "finalize cf c st rnd w = (x, u)"
    by (cases "finalize cf c st rnd w")
  show "case r of Inr None \<Rightarrow> seen w0 T w' | Inr (Some st) \<Rightarrow> ended cf w0 T st w' | Inl e \<Rightarrow> stuck w0 T w'"
    using w x finalize_seen[OF w(1) x st] by (cases x) (auto simp: bindP_def retP_def)
qed

lemma ends_none: "ends cf (retP None)"
  by (simp add: ends_def retP_def)

lemma ends_if: "(b \<Longrightarrow> ends cf m) \<Longrightarrow> (\<not> b \<Longrightarrow> ends cf k) \<Longrightarrow> ends cf (if b then m else k)"
  by simp

lemma ends_sum:
  "(\<And>e. x = Inl e \<Longrightarrow> ends cf (g e)) \<Longrightarrow> (\<And>a. x = Inr a \<Longrightarrow> ends cf (f a)) \<Longrightarrow>
   ends cf (case x of Inl e \<Rightarrow> g e | Inr a \<Rightarrow> f a)"
  by (cases x) auto

lemma ends_prod: "(\<And>a b. x = (a, b) \<Longrightarrow> ends cf (f a b)) \<Longrightarrow> ends cf (case x of (a, b) \<Rightarrow> f a b)"
  by (cases x) auto

lemma ends_option:
  "(x = None \<Longrightarrow> ends cf m) \<Longrightarrow> (\<And>a. x = Some a \<Longrightarrow> ends cf (f a)) \<Longrightarrow>
   ends cf (case x of None \<Rightarrow> m | Some a \<Rightarrow> f a)"
  by (cases x) auto

lemmas ends_rules = ends_bind ends_then ends_none ends_if ends_sum ends_prod ends_option ends_finalize

text \<open>An entry no phase is derived from.\<close>

lemma quiet_append: "\<not> loud flds \<Longrightarrow> keepsP (seen w0 T) (append_log c flds)"
  by (rule seen.append_log_keeps) simp

lemma quiet_entries:
  "\<not> loud ((''action'', JStr ''investigator'') # e)" "\<not> loud ((''action'', JStr ''verify'') # e)"
  "\<not> loud ((''action'', JStr ''path_guard'') # e)" "\<not> loud ((''action'', JStr ''explorer'') # e)"
  by (simp_all add: loud_def loud_actions_def phase_actions_def)

lemma bind_assoc: "bindP (bindP m f) g = bindP m (\<lambda>a. bindP (f a) g)"
  by (rule ext) (simp add: bindP_def split: prod.split sum.split)

lemma then_bind: "bindP (thenP m k) g = thenP m (bindP k g)"
  by (simp add: thenP_def bind_assoc)

lemma ret_bind: "bindP (retP a) f = f a"
  by (rule ext) (simp add: bindP_def retP_def)

lemma if_bind: "bindP (if b then m else k) g = (if b then bindP m g else bindP k g)"
  by simp

lemma let_bind: "bindP (let y = x in f y) g = (let y = x in bindP (f y) g)"
  by (simp add: Let_def)

lemmas bind_in = bind_assoc then_bind ret_bind if_bind let_bind Let_def

context world_invariant
begin

lemma decide_merge_keeps [intro]: "keepsP I (decide_merge cf c)"
  unfolding decide_merge_def Let_def
  by (intro validP_bind[where R = "\<lambda>_. I"] validP_then[where R = I] keeps_rules)

lemma write_fix_spec_keeps [intro]: "keepsP I (write_fix_spec cf c fx)"
  unfolding write_fix_spec_def by (rule env_keeps)

lemma override_keeps [intro]: "keepsP I (override_phase c phase)"
  unfolding override_phase_def
  by (intro validP_bind[where R = "\<lambda>_. I"] validP_if keeps_rules)

end

lemma investigate_ends: "ends cf (investigate cf c entries)"
  unfolding investigate_def
  by (intro ends_rules seen.keeps_rules quiet_append quiet_entries)
     (auto split: json.split intro: validP_when seen.write_fix_spec_keeps validP_ret)

lemma verify_round_ends: "ends cf (verify_round cf c entries)"
  unfolding verify_round_def
  by (intro ends_rules seen.keeps_rules quiet_append quiet_entries) simp_all

lemma report_publish_ends: "ends cf (stops (report_publish cf c))"
  unfolding report_publish_def stops_def bind_in
  by (intro ends_rules seen.keeps_rules quiet_append quiet_entries) simp_all

lemma push_phase_ends: "ends cf (stops (push_phase cf c rp))"
  unfolding push_phase_def stops_def bind_in
  by (intro ends_rules seen.keeps_rules seen.decide_merge_keeps) simp_all

lemma done_tail_ends:
  assumes "done_state st"
  shows "ends cf (thenP (append_log c (terminal_entry st)) (thenP (commit_all c msg)
     (thenP (push c) (retP (Some st)))))" (is "ends cf ?m")
  unfolding ends_def
proof (intro allI impI)
  fix w0 T w r w'
  assume w: "seen w0 T w" "?m w = (r, w')"
  have em: "emits ?m ([stamped (terminal_entry st)] @ [EvCommit msg] @ [EvPush] @ [])"
    by (intro emits_then emits_append emits_commit emits_push emits_ret)
  have nb: "filter (\<lambda>ev. \<not> basic ev) ([stamped (terminal_entry st)] @ [EvCommit msg] @ [EvPush] @ [])
      = [stamped (terminal_entry st), EvPush]"
    by (simp add: stamped_def terminal_entry_def loud_def loud_actions_def)
  show "case r of Inr None \<Rightarrow> seen w0 T w' | Inr (Some st) \<Rightarrow> ended cf w0 T st w' | Inl e \<Rightarrow> stuck w0 T w'"
  proof (cases r)
    case (Inl e)
    then obtain S where S: "prefix S ([stamped (terminal_entry st)] @ [EvCommit msg] @ [EvPush] @ [])" "exact w S w'"
      using emits_Inl[OF em] w(2) by blast
    have "steady ([stamped (terminal_entry st)] @ [EvCommit msg] @ [EvPush] @ [])"
      by (simp add: steady_def terminal_entry_def)
    then have "steady (filter (\<lambda>ev. \<not> basic ev) S) \<and> seen w0 (T @ filter (\<lambda>ev. \<not> basic ev) S) w'"
      using seen_exact[OF w(1) S(2)] steady_filter[OF steady_prefix[OF S(1)]] by blast
    then show ?thesis
      using Inl unfolding stuck_def by auto
  next
    case (Inr x)
    have x: "x = Some st"
      using w(2) Inr by (auto simp: retP_def dest!: thenP_Inr)
    have ex: "exact w ([stamped (terminal_entry st)] @ [EvCommit msg] @ [EvPush] @ []) w'"
      using emits_Inr[OF em] w(2) Inr by blast
    moreover have "closed st w'"
      by (rule closedI[OF ex _ terminal_stamp, of "[]"]) simp
    ultimately show ?thesis
      using seen_exact[OF w(1) ex] Inr x assms unfolding ended_def ending_def nb by auto
  qed
qed

lemma done_phase_ends: "ends cf (stops (done_phase cf c))"
  unfolding done_phase_def stops_def bind_in
  by (intro ends_bind seen.keeps_rules done_tail_ends)
     (auto simp: done_state_def merge_decided_prefix_def split: json.split)

lemma stops_finalize_ends: "st \<noteq> ''QUOTA_WAIT'' \<Longrightarrow> ends cf (stops (finalize cf c st rnd))"
  unfolding stops_def by (rule ends_finalize)

lemma ends_seq:
  assumes "ends cf m" "\<And>st. f (Some st) = retP (Some st)" "ends cf (f None)"
  shows "ends cf (bindP m f)"
  unfolding ends_def
proof (intro allI impI)
  fix w0 T w r w'
  assume w: "seen w0 T w" "bindP m f w = (r, w')"
  obtain x u where x: "m w = (x, u)"
    by (cases "m w")
  note m = assms(1)[unfolded ends_def, rule_format, OF w(1) x]
  show "case r of Inr None \<Rightarrow> seen w0 T w' | Inr (Some st) \<Rightarrow> ended cf w0 T st w' | Inl e \<Rightarrow> stuck w0 T w'"
  proof (cases x)
    case (Inl e)
    then have "r = Inl e" "w' = u"
      using w(2) x by (simp_all add: bindP_def)
    then show ?thesis using m Inl by simp
  next
    case (Inr y)
    show ?thesis
    proof (cases y)
      case None
      then have "seen w0 T u" "f None u = (r, w')"
        using m Inr w(2) x by (simp_all add: bindP_def)
      then show ?thesis
        using assms(3) unfolding ends_def by blast
    next
      case (Some st)
      then have "r = Inr (Some st)" "w' = u"
        using Inr w(2) x assms(2) by (simp_all add: bindP_def retP_def)
      then show ?thesis
        using m Inr Some by simp
    qed
  qed
qed

lemma option_bind:
  "bindP (case x of None \<Rightarrow> m | Some a \<Rightarrow> k a) g = (case x of None \<Rightarrow> bindP m g | Some a \<Rightarrow> bindP (k a) g)"
  by (cases x) simp_all

lemma verify_publish_ends:
  "ends cf (bindP (verify_round cf c es) (\<lambda>x. case x of None \<Rightarrow> stops (report_publish cf c)
     | Some st \<Rightarrow> retP (Some st)))"
  by (rule ends_seq[OF verify_round_ends]) (simp_all add: report_publish_ends)

lemma run_report_only_ends: "ends cf (stops (run_report_only cf c))"
  unfolding run_report_only_def stops_def bind_in option_bind
  by (intro ends_bind[OF seen.read_log_keeps] ends_seq[OF investigate_ends])
     (auto simp: stops_def[symmetric] intro: verify_publish_ends ends_bind[OF seen.read_log_keeps])

lemma ends_throw: "ends cf (throwP e)"
  by (auto simp: ends_def throwP_def intro: stuck_seen)

section \<open>One turn of the loop\<close>

definition working_phases :: "string list" where
  "working_phases = [''developer'', ''fast_tests'', ''rw1'', ''rw2'', ''authoritative'', ''senior'']"

lemma run_phase_tells:
  assumes "phase \<in> set working_phases"
  shows "\<exists>m. run_phase cf c phase rp = goes_on m \<and> (\<forall>w0 T. tells (seen w0 T) (one w0 T phase) m)"
proof -
  have phases: "phase = ''developer'' \<or> phase = ''fast_tests'' \<or> phase = ''rw1'' \<or> phase = ''rw2''
      \<or> phase = ''authoritative'' \<or> phase = ''senior''"
    using assms by (simp only: working_phases_def list.set insert_iff empty_iff simp_thms)
  note by_goes_on = exI[of "\<lambda>m. run_phase cf c phase rp = goes_on m \<and> (\<forall>w0 T. tells (seen w0 T) (one w0 T phase) m)"]
  from phases show ?thesis
  proof (elim disjE)
    assume p: "phase = ''developer''"
    show ?thesis by (rule by_goes_on[of "run_developer cf c rp"]) (simp add: p run_phase_def run_developer_tells)
  next
    assume p: "phase = ''fast_tests''"
    show ?thesis by (rule by_goes_on[of "run_fast_tests cf c rp"]) (simp add: p run_phase_def run_fast_tests_tells)
  next
    assume p: "phase = ''rw1''"
    show ?thesis by (rule by_goes_on[of "run_rw1 cf c rp"]) (simp add: p run_phase_def run_rw1_tells)
  next
    assume p: "phase = ''rw2''"
    show ?thesis by (rule by_goes_on[of "run_rw2 cf c rp"]) (simp add: p run_phase_def run_rw2_tells)
  next
    assume p: "phase = ''authoritative''"
    show ?thesis by (rule by_goes_on[of "run_authoritative cf c rp"]) (simp add: p run_phase_def run_authoritative_tells)
  next
    assume p: "phase = ''senior''"
    show ?thesis by (rule by_goes_on[of "run_senior cf c rp"]) (simp add: p run_phase_def run_senior_tells)
  qed
qed

lemma run_phase_ends:
  assumes "phase \<notin> set working_phases"
  shows "ends cf (run_phase cf c phase rp)"
  using assms unfolding working_phases_def run_phase_def
  by (intro ends_if push_phase_ends stops_finalize_ends done_phase_ends ends_throw) simp_all

definition turn_result ::
  "config \<Rightarrow> 'e world \<Rightarrow> string \<Rightarrow> exn + string option \<Rightarrow> 'e world \<Rightarrow> bool" where
  "turn_result cf w0 phase r w \<longleftrightarrow>
     (if phase \<in> set working_phases
      then (r = Inr None \<and> one w0 [] phase w) \<or> (\<exists>e. r = Inl e \<and> (seen w0 [] w \<or> one w0 [] phase w))
      else (\<exists>st. r = Inr (Some st) \<and> ended cf w0 [] st w) \<or> (\<exists>e. r = Inl e \<and> stuck w0 [] w))"

lemma run_phase_none: "phase \<notin> set working_phases \<Longrightarrow> run_phase cf c phase rp w \<noteq> (Inr None, w')"
  unfolding working_phases_def run_phase_def
  by (auto simp: stops_def bindP_Inr_iff retP_def throwP_def)

lemma run_phase_result:
  assumes "seen w0 [] u" "run_phase cf c phase rp u = (r, w')"
  shows "turn_result cf w0 phase r w'"
proof (cases "phase \<in> set working_phases")
  case True
  then obtain m where m: "run_phase cf c phase rp = goes_on m" "\<And>w0 T. tells (seen w0 T) (one w0 T phase) m"
    using run_phase_tells by blast
  obtain x v where x: "m u = (x, v)"
    by (cases "m u")
  then have "(r, w') = (case x of Inl e \<Rightarrow> Inl e | Inr _ \<Rightarrow> Inr None, v)"
    using assms(2) m(1) by (cases x) (simp_all add: goes_on_def thenP_def bindP_def retP_def)
  then show ?thesis
    using True x validP_Inr[OF m(2) assms(1)] validP_Inl[OF m(2) assms(1)]
    by (cases x) (auto simp: turn_result_def)
next
  case False
  then have "case r of Inr None \<Rightarrow> seen w0 [] w' | Inr (Some st) \<Rightarrow> ended cf w0 [] st w' | Inl e \<Rightarrow> stuck w0 [] w'"
    using run_phase_ends[of phase cf c rp] assms unfolding ends_def by blast
  then show ?thesis
    using False assms(2) run_phase_none[OF False, of cf c rp u w']
    by (auto simp: turn_result_def split: sum.splits option.splits)
qed

end
