(* ===== verification/Loop_Theorems.thy ===== *)
theory Loop_Theorems
  imports Loop_Results
begin

text \<open>
  One turn of the main loop, its measure, and the termination of every run.
\<close>

section \<open>One turn\<close>

definition chosen :: "entry list \<Rightarrow> resume_point \<Rightarrow> string \<Rightarrow> bool" where
  "chosen L rp phase \<longleftrightarrow> (phase = ''developer'' \<and> resume_developer_point L rp \<noteq> None)
     \<or> phase = rp_phase rp \<or> phase = ''deadlock'' \<or> (phase = ''senior'' \<and> \<not> senior_ran L)"

lemma read_log_result: "read_log c w = (r, u) \<Longrightarrow> seen w [] u \<and> w_log u = w_log w \<and> (\<forall>es. r = Inr es \<longrightarrow> es = w_log w)"
  by (auto simp: read_log_def ioP_def getP_def seen_def split: prod.splits option.splits)

lemma seen_trans0: "seen w [] u \<Longrightarrow> seen u [] v \<Longrightarrow> seen w [] v"
  unfolding seen_def by (elim exE, rule_tac x = "t @ ta" in exI) simp

lemma seen_senior: "seen w [] u \<Longrightarrow> senior_ran (w_log u) = senior_ran (w_log w)"
  using seen_skel[of w "[]" u] senior_skel[of "w_log u"] senior_skel[of "w_log w"] by simp

lemma override_choice:
  assumes "override_phase c phase w = (Inr p, u)"
  shows "p = phase \<or> p = ''deadlock'' \<or> (p = ''senior'' \<and> \<not> senior_ran (w_log w))"
proof -
  obtain es t where "read_log c w = (Inr es, t)" and rest:
    "(if c_senior c = None then retP phase
       else if phase = ''developer'' \<and> nonconvergence_detected es then
         retP (if senior_ran es then ''deadlock'' else ''senior'')
       else if phase \<in> {''authoritative'', ''push''} \<and> \<not> senior_ran es then
         bindP (declared_risk c) (\<lambda>risk.
           if risk = High then retP ''senior''
           else bindP (envP (c_policy c)) (\<lambda>pol. bindP (envP (c_changed c)) (\<lambda>changed.
             retP (if touches_invariant_tests pol changed then ''senior'' else phase))))
       else retP phase) t = (Inr p, u)"
    using assms unfolding override_phase_def bindP_Inr_iff by blast
  moreover from this have "es = w_log w"
    using read_log_result by blast
  ultimately show ?thesis
    by (auto simp: bindP_Inr_iff retP_def split: if_splits)
qed

lemma loop_turn_cases:
  assumes "loop_turn cf c w = (r, w')"
  obtains (raised) e where "r = Inl e" "seen w [] w'"
  | (ran) rp phase where "derive_resume_point (w_log w) (cf_max_loops cf) (c_rw2 c \<noteq> None) (c_docker c \<noteq> None) = Inr rp"
      "chosen (w_log w) rp phase" "turn_result cf w phase r w'"
proof -
  obtain x u where x: "read_log c w = (x, u)"
    by (cases "read_log c w")
  note u = read_log_result[OF x]
  show thesis
  proof (cases x)
    case (Inl e)
    then have "r = Inl e" "w' = u"
      using assms x by (simp_all add: loop_turn_def bindP_def)
    then show thesis
      using u raised by blast
  next
    case (Inr es)
    then have es: "es = w_log w"
      using u by simp
    show thesis
    proof (cases "derive_resume_point es (cf_max_loops cf) (c_rw2 c \<noteq> None) (c_docker c \<noteq> None)")
      case (Inl e)
      then have "r = Inl e" "w' = u"
        using assms x \<open>x = Inr es\<close> by (simp_all add: loop_turn_def bindP_def liftP_def)
      then show thesis
        using u raised by blast
    next
      case (Inr rp)
      show thesis
      proof (cases "resume_developer_point es rp")
        case (Some rp')
        then have "run_phase cf c ''developer'' rp' u = (r, w')"
          using assms x Inr \<open>x = Inr es\<close> by (simp add: loop_turn_def bindP_def liftP_def)
        then have "turn_result cf w ''developer'' r w'"
          using run_phase_result u by blast
        then show thesis
          using ran[of rp "''developer''"] Inr Some es by (simp add: chosen_def)
      next
        case None
        obtain y v where y: "override_phase c (rp_phase rp) u = (y, v)"
          by (cases "override_phase c (rp_phase rp) u")
        have v: "seen w [] v"
          using keepsP_result[OF seen.override_keeps _ y] u by blast
        show thesis
        proof (cases y)
          case (Inl e)
          then have "r = Inl e" "w' = v"
            using assms x None y \<open>x = Inr es\<close> \<open>_ = Inr rp\<close>
            by (simp_all add: loop_turn_def bindP_def liftP_def)
          then show thesis
            using v raised by blast
        next
          case (Inr phase)
          then have "run_phase cf c phase rp v = (r, w')"
            using assms x None y \<open>x = Inr es\<close> \<open>_ = Inr rp\<close>
            by (simp add: loop_turn_def bindP_def liftP_def)
          then have "turn_result cf w phase r w'"
            using run_phase_result v by blast
          moreover have "chosen (w_log w) rp phase"
            using override_choice[OF y[unfolded Inr]] u unfolding chosen_def by simp
          ultimately show thesis
            using ran[of rp phase] es \<open>_ = Inr rp\<close> by simp
        qed
      qed
    qed
  qed
qed

section \<open>The measure\<close>

text \<open>The developer rounds that are left: below the cap, and in the burst of the last resume.\<close>

definition rounds_left :: "int \<Rightarrow> entry list \<Rightarrow> nat" where
  "rounds_left m L = nat (m - int (rounds_used L))
     + (case dev_rounds_since_resume L of None \<Rightarrow> 0 | Some k \<Rightarrow> resume_round_grant - k)"

text \<open>How many phases can follow the last one without a new developer round.\<close>

definition rank :: "entry list \<Rightarrow> nat" where
  "rank L = (case last_phase L of None \<Rightarrow> 0 | Some l \<Rightarrow>
     if has_action ''developer'' l then 5 else if has_action ''fast_tests'' l then 4
     else if has_action ''rw1'' l then 3 else if has_action ''senior'' l then 3
     else if has_action ''rw2'' l then 2 else if has_action ''authoritative'' l then 1 else 0)"

definition loop_measure :: "int \<Rightarrow> entry list \<Rightarrow> nat" where
  "loop_measure m L = 8 * rounds_left m L + 8 * (if senior_ran L then 0 else 1) + rank L"

definition loop_fuel :: "int \<Rightarrow> nat" where
  "loop_fuel m = 8 * (nat m + resume_round_grant) + 14"

lemma loop_measure_bound: "loop_measure m L < loop_fuel m"
proof -
  have "rank L \<le> 5"
    by (simp add: rank_def split: option.split)
  moreover have "rounds_left m L \<le> nat m + resume_round_grant"
    by (auto simp: rounds_left_def split: option.split)
  ultimately show ?thesis
    by (simp add: loop_measure_def loop_fuel_def)
qed

lemma rank_skel: "rank (skel L) = rank L"
  by (simp add: rank_def last_phase_skel split: option.split)

lemma rounds_left_skel: "rounds_left m (skel L) = rounds_left m L"
  by (simp add: rounds_left_def rounds_skel since_skel)

lemma rounds_snoc: "rounds_used (L @ [e]) = rounds_used L + (if has_action ''developer'' e then 1 else 0)"
  by (simp add: rounds_used_def)

lemma dev_rounds_from_Suc: "dev_rounds_from (Suc n) es = map_option Suc (dev_rounds_from n es)"
  by (induction es arbitrary: n) simp_all

lemma since_snoc:
  "\<not> has_action ''director_resume'' e \<Longrightarrow>
   dev_rounds_since_resume (L @ [e]) =
     (if has_action ''developer'' e then map_option Suc (dev_rounds_since_resume L) else dev_rounds_since_resume L)"
  by (simp add: dev_rounds_since_resume_def dev_rounds_from_Suc)

lemma senior_snoc: "senior_ran (L @ [e]) = (senior_ran L \<or> has_action ''senior'' e)"
  by (auto simp: senior_ran_def)

lemma rank_snoc:
  "is_phase e \<Longrightarrow> rank (L @ [e]) =
     (if has_action ''developer'' e then 5 else if has_action ''fast_tests'' e then 4
     else if has_action ''rw1'' e then 3 else if has_action ''senior'' e then 3
     else if has_action ''rw2'' e then 2 else if has_action ''authoritative'' e then 1 else 0)"
  by (simp add: rank_def last_phase_def)

text \<open>A turn of a working phase adds one entry to the skeleton.\<close>

lemma one_skel:
  assumes "one w [] a w'"
  shows "\<exists>e. skel (w_log w') = skel (w_log w) @ [e] \<and> has_action a e"
  using assms seen_skel by (fastforce simp: one_def)

lemma seen_same:
  assumes "skel L = skel M"
  shows "rounds_left m L = rounds_left m M" "rounds_used L = rounds_used M"
  using assms by (metis rounds_left_skel, metis rounds_skel)

lemma action_other: "has_action a e \<Longrightarrow> has_action b e \<longleftrightarrow> a = b"
  by (auto simp: has_action_def)

lemma rounds_left_step:
  assumes "skel L' = skel L @ [e]" "has_action a e" "a \<noteq> ''director_resume''"
  shows "rounds_used L' = rounds_used L + (if a = ''developer'' then 1 else 0)"
    and "rounds_left m L' \<le> rounds_left m L"
    and "a = ''developer'' \<Longrightarrow> int (rounds_used L) < m \<or> (\<exists>k. dev_rounds_since_resume L = Some k \<and> k < resume_round_grant)
          \<Longrightarrow> rounds_left m L' < rounds_left m L"
proof -
  have r: "rounds_used L' = rounds_used L + (if a = ''developer'' then 1 else 0)"
    using rounds_skel[of L'] rounds_skel[of L] assms(1,2) by (simp add: rounds_snoc action_other)
  have s: "dev_rounds_since_resume L' =
      (if a = ''developer'' then map_option Suc (dev_rounds_since_resume L) else dev_rounds_since_resume L)"
    using since_skel[of L'] since_skel[of L] assms by (auto simp: since_snoc action_other)
  show "rounds_used L' = rounds_used L + (if a = ''developer'' then 1 else 0)" by (rule r)
  show "rounds_left m L' \<le> rounds_left m L"
    by (auto simp: rounds_left_def r s split: option.split)
  show "a = ''developer'' \<Longrightarrow> int (rounds_used L) < m \<or> (\<exists>k. dev_rounds_since_resume L = Some k \<and> k < resume_round_grant)
          \<Longrightarrow> rounds_left m L' < rounds_left m L"
    by (auto simp: rounds_left_def r s split: option.split)
qed

lemma transitions_to:
  "map_of (transitions r2 au) (a, b) = Some ''fast_tests'' \<Longrightarrow> a = ''developer''"
  "map_of (transitions r2 au) (a, b) = Some ''rw1'' \<Longrightarrow> a = ''fast_tests''"
  "map_of (transitions r2 au) (a, b) = Some ''rw2'' \<Longrightarrow> a = ''rw1''"
  "map_of (transitions r2 au) (a, b) = Some ''authoritative'' \<Longrightarrow> a = ''rw1'' \<or> a = ''rw2'' \<or> a = ''senior''"
  "map_of (transitions r2 au) (a, b) \<noteq> Some ''senior''"
  by (auto simp: transitions_def Let_def split: if_splits)

lemma rank_at:
  "last_phase L = Some l \<Longrightarrow> has_action a l \<Longrightarrow>
   rank L = (if a = ''developer'' then 5 else if a = ''fast_tests'' then 4 else if a = ''rw1'' then 3
     else if a = ''senior'' then 3 else if a = ''rw2'' then 2 else if a = ''authoritative'' then 1 else 0)"
  by (simp add: rank_def action_other)

lemma rank_after:
  assumes "skel L' = skel L @ [e]" "has_action a e" "a \<in> set working_phases"
  shows "rank L' = (if a = ''developer'' then 5 else if a = ''fast_tests'' then 4 else if a = ''rw1'' then 3
     else if a = ''senior'' then 3 else if a = ''rw2'' then 2 else if a = ''authoritative'' then 1 else 0)"
proof -
  have "is_phase e"
    using assms(2,3) by (auto simp: is_phase_def list_ex_iff working_phases_def phase_actions_def)
  then show ?thesis
    using rank_skel[of L', symmetric] assms(1,2) by (simp add: rank_snoc action_other)
qed

lemma derived_rank:
  assumes "derive_resume_point L m r2 au = Inr rp" "a = rp_phase rp"
    and "a \<in> set working_phases" "a \<noteq> ''developer''" "skel L' = skel L @ [e]" "has_action a e"
  shows "rank L' < rank L"
proof -
  have "a \<noteq> ''cap_reached''"
    using assms(3) by (auto simp: working_phases_def)
  then obtain l b c where l: "last_phase L = Some l" "has_action b l" "map_of (transitions r2 au) (b, c) = Some a"
    using derive_row[OF assms(1)] assms(2,4) by blast
  note rank = rank_at[OF l(1,2)] rank_after[OF assms(5,6,3)]
  have "a = ''fast_tests'' \<or> a = ''rw1'' \<or> a = ''rw2'' \<or> a = ''authoritative'' \<or> a = ''senior''"
    using assms(3,4) by (simp only: working_phases_def list.set insert_iff empty_iff simp_thms)
  then show ?thesis
  proof (elim disjE)
    assume a: "a = ''fast_tests''" then show ?thesis using rank transitions_to(1)[OF l(3)[unfolded a]] by simp
  next
    assume a: "a = ''rw1''" then show ?thesis using rank transitions_to(2)[OF l(3)[unfolded a]] by simp
  next
    assume a: "a = ''rw2''" then show ?thesis using rank transitions_to(3)[OF l(3)[unfolded a]] by simp
  next
    assume a: "a = ''authoritative''" then show ?thesis using rank transitions_to(4)[OF l(3)[unfolded a]] by auto
  next
    assume a: "a = ''senior''" then show ?thesis using l(3)[unfolded a] transitions_to(5) by blast
  qed
qed

lemma chosen_developer:
  assumes "derive_resume_point L m r2 au = Inr rp" "chosen L rp ''developer''"
  shows "int (rounds_used L) < m \<or> (\<exists>k. dev_rounds_since_resume L = Some k \<and> k < resume_round_grant)"
proof (cases "resume_developer_point L rp")
  case None
  then have "rp_phase rp = ''developer''"
    using assms(2) by (simp add: chosen_def)
  then show ?thesis
    using derive_developer[OF assms(1)] by blast
next
  case (Some rp')
  then show ?thesis
    by (auto simp: resume_developer_point_def split: option.splits if_splits)
qed

lemma senior_after:
  assumes "skel L' = skel L @ [e]" "has_action a e"
  shows "senior_ran L' \<longleftrightarrow> senior_ran L \<or> a = ''senior''"
  using senior_skel[of L'] senior_skel[of L] assms by (simp add: senior_snoc action_other)

lemma turn_decreases:
  assumes "derive_resume_point L m r2 au = Inr rp" "chosen L rp a" "a \<in> set working_phases"
    and e: "skel L' = skel L @ [e]" "has_action a e"
  shows "loop_measure m L' < loop_measure m L"
proof -
  have res: "a \<noteq> ''director_resume''"
    using assms(3) by (auto simp: working_phases_def)
  note left = rounds_left_step(2,3)[OF e res, of m] and rank = rank_after[OF e assms(3)] and sen = senior_after[OF e]
  show ?thesis
  proof (cases "a = ''developer'' \<or> (a = ''senior'' \<and> \<not> senior_ran L)")
    case True
    then show ?thesis
    proof
      assume a: "a = ''developer''"
      then have "rounds_left m L' < rounds_left m L"
        using left(2) chosen_developer[OF assms(1)] assms(2) by blast
      then show ?thesis
        using a rank sen by (simp add: loop_measure_def)
    next
      assume a: "a = ''senior'' \<and> \<not> senior_ran L"
      then show ?thesis
        using left(1) rank sen by (simp add: loop_measure_def)
    qed
  next
    case False
    then have "a = rp_phase rp"
      using assms(2,3) by (auto simp: chosen_def working_phases_def)
    then have "rank L' < rank L"
      using derived_rank[OF assms(1) _ assms(3) _ e] False by blast
    then show ?thesis
      using left(1) sen by (simp add: loop_measure_def)
  qed
qed

lemma loop_turn_decreases:
  assumes "loop_turn cf c w = (Inr None, w')"
  shows "loop_measure (cf_max_loops cf) (w_log w') < loop_measure (cf_max_loops cf) (w_log w)"
  using assms
proof (cases rule: loop_turn_cases)
  case (ran rp phase)
  then have phase: "phase \<in> set working_phases" "one w [] phase w'"
    by (auto simp: turn_result_def split: if_splits)
  then obtain e where "skel (w_log w') = skel (w_log w) @ [e]" "has_action phase e"
    using one_skel by blast
  then show ?thesis
    using turn_decreases ran(1,2) phase(1) by blast
qed simp

lemma main_loop_returns:
  "loop_measure (cf_max_loops cf) (w_log w) < fuel \<Longrightarrow> main_loop cf c fuel w \<noteq> None"
proof (induction fuel arbitrary: w)
  case (Suc fuel)
  obtain r t where r: "loop_turn cf c w = (r, t)"
    by (cases "loop_turn cf c w")
  show ?case
  proof (cases "r = Inr None")
    case True
    then have "loop_measure (cf_max_loops cf) (w_log t) < fuel"
      using loop_turn_decreases[of cf c w t] r Suc.prems by simp
    then show ?thesis
      using Suc.IH r True by simp
  next
    case False
    then show ?thesis
      using r by (auto split: sum.split option.split)
  qed
qed simp

lemma every_run_ends:
  assumes "loop_fuel (cf_max_loops cf) \<le> fuel"
  shows "\<exists>r w'. run cf c fuel w = Some (r, w')"
proof -
  have "main_loop cf c fuel t \<noteq> None" for t
    using main_loop_returns[of cf t fuel] loop_measure_bound[of "cf_max_loops cf" "w_log t"] assms by simp
  then have "run_phases cf c fuel t \<noteq> None" for t
    by (auto simp: run_phases_def split: prod.split sum.split)
  then have total: "\<exists>y. run_phases cf c fuel t = Some y" for t
    by auto
  obtain x t where x: "thenP (envP (c_worktree c)) (read_log c) w = (x, t)"
    by (cases "thenP (envP (c_worktree c)) (read_log c) w")
  obtain y where "run_phases cf c fuel (snd (bind_quota cf t)) = Some y"
    using total by blast
  then have "run cf c fuel w \<noteq> None"
    by (cases x; cases y) (auto simp: run_def x split: option.split sum.split)
  then show ?thesis
    by auto
qed


end
