(* ===== verification/Run_Theorems.thy ===== *)
theory Run_Theorems
  imports Loop_Theorems
begin

text \<open>
  The theorems about what a whole run does to the outside: the effects of each way it ends, what it
  reports, what it pushes, and the state it leaves in the log.
\<close>

section \<open>Effects of a whole run\<close>

definition working_event :: "event \<Rightarrow> bool" where
  "working_event ev \<longleftrightarrow> (\<exists>a flds. a \<in> set working_phases \<and> has_action a flds \<and> ev = stamped flds)"

definition run_effect :: "config \<Rightarrow> 'e world \<Rightarrow> exn + string \<Rightarrow> 'e world \<Rightarrow> bool" where
  "run_effect cf w r w' \<longleftrightarrow> (\<exists>T. list_all working_event T
     \<and> (case r of Inr st \<Rightarrow> ended cf w T st w' | Inl e \<Rightarrow> stuck w T w'))"

lemma seen_trans: "seen w A u \<Longrightarrow> seen u B v \<Longrightarrow> seen w (A @ B) v"
  unfolding seen_def by (elim exE, rule_tac x = "t @ ta" in exI) auto

lemma ended_trans: "seen w A u \<Longrightarrow> ended cf u T st v \<Longrightarrow> ended cf w (A @ T) st v"
  using seen_trans by (fastforce simp: ended_def)

lemma stuck_trans: "seen w A u \<Longrightarrow> stuck u T v \<Longrightarrow> stuck w (A @ T) v"
  using seen_trans by (fastforce simp: stuck_def)

lemma run_effect_trans:
  assumes "seen w A u" "list_all working_event A" "run_effect cf u r v"
  shows "run_effect cf w r v"
proof -
  obtain T where T: "list_all working_event T" "case r of Inr st \<Rightarrow> ended cf u T st v | Inl e \<Rightarrow> stuck u T v"
    using assms(3) by (auto simp: run_effect_def)
  then have "case r of Inr st \<Rightarrow> ended cf w (A @ T) st v | Inl e \<Rightarrow> stuck w (A @ T) v"
    using ended_trans[OF assms(1)] stuck_trans[OF assms(1)] by (cases r) auto
  then show ?thesis
    using T(1) assms(2) unfolding run_effect_def by (intro exI[of _ "A @ T"]) simp
qed

lemma one_working:
  assumes "one w [] a w'" "a \<in> set working_phases"
  obtains ev where "working_event ev" "seen w [ev] w'"
  using assms by (fastforce simp: one_def working_event_def)

lemma one_stuck: "one w [] a w' \<Longrightarrow> a \<in> set working_phases \<Longrightarrow> run_effect cf w (Inl e) w'"
  by (erule one_working, assumption) (auto simp: run_effect_def intro!: exI[of _ "[_]"] stuck_seen)

lemma turn_effect:
  assumes "loop_turn cf c w = (r, w')"
  shows "case r of Inl e \<Rightarrow> run_effect cf w (Inl e) w' | Inr (Some st) \<Rightarrow> run_effect cf w (Inr st) w'
     | Inr None \<Rightarrow> (\<exists>ev. working_event ev \<and> seen w [ev] w')"
  using assms
proof (cases rule: loop_turn_cases)
  case (raised e)
  then show ?thesis
    by (auto simp: run_effect_def intro!: exI[of _ "[]"] stuck_seen)
next
  case (ran rp phase)
  show ?thesis
  proof (cases "phase \<in> set working_phases")
    case True
    then consider "r = Inr None" "one w [] phase w'" | e where "r = Inl e" "seen w [] w' \<or> one w [] phase w'"
      using ran(3) unfolding turn_result_def by auto
    then show ?thesis
    proof cases
      case 1
      then show ?thesis using one_working[OF _ True, of w w'] by auto
    next
      case (2 e)
      have "run_effect cf w (Inl e) w'" if "seen w [] w'"
        using that by (auto simp: run_effect_def intro!: exI[of _ "[]"] stuck_seen)
      then show ?thesis using 2 one_stuck[OF _ True] by auto
    qed
  next
    case False
    then show ?thesis
      using ran(3) unfolding turn_result_def by (auto simp: run_effect_def intro!: exI[of _ "[]"])
  qed
qed

lemma main_loop_effect: "main_loop cf c fuel w = Some (r, w') \<Longrightarrow> run_effect cf w r w'"
proof (induction fuel arbitrary: w)
  case (Suc fuel)
  obtain x t where x: "loop_turn cf c w = (x, t)"
    by (cases "loop_turn cf c w")
  note te = turn_effect[OF x]
  show ?case
  proof (cases "x = Inr None")
    case True
    then obtain ev where "working_event ev" "seen w [ev] t"
      using te by auto
    moreover have "run_effect cf t r w'"
      using Suc.IH[of t] Suc.prems x True by simp
    ultimately show ?thesis
      using run_effect_trans[of w "[ev]" t cf r w'] by simp
  next
    case False
    then show ?thesis
      using te Suc.prems x by (auto split: sum.splits option.splits)
  qed
qed simp

lemma explorer_keeps: "keepsP (seen w0 T) (run_explorer cf c)"
  unfolding run_explorer_def
  by (intro validP_bind[where R = "\<lambda>_. seen w0 T"] validP_then[where R = "seen w0 T"] validP_sum validP_prod
      seen.keeps_rules quiet_append quiet_entries)

lemma run_phases_effect:
  assumes "run_phases cf c fuel w = Some (r, w')"
  shows "run_effect cf w r w'"
proof (cases "has_role cf ''investigator''")
  case True
  have ro: "ends cf (stops (run_report_only cf c))"
    by (rule run_report_only_ends)
  have "stops (run_report_only cf c) w = (case r of Inl e \<Rightarrow> Inl e | Inr st \<Rightarrow> Inr (Some st), w')"
    using assms True by (cases r) (simp_all add: run_phases_def stops_def bindP_def retP_def)
  then show ?thesis
    using ro[unfolded ends_def, rule_format, OF seen_refl, of w] unfolding run_effect_def
    by (cases r) (fastforce intro!: exI[of _ "[]"])+
next
  case False
  let ?pre = "if has_role cf ''explorer''
               then bindP (read_log c) (\<lambda>entries.
                      if list_ex (has_action ''explorer'') entries then retP () else run_explorer cf c)
               else retP ()"
  obtain x t where x: "?pre w = (x, t)"
    by (cases "?pre w")
  have keep: "keepsP (seen w []) ?pre"
    by (intro validP_if validP_bind[where R = "\<lambda>_. seen w []"] seen.read_log_keeps validP_ret explorer_keeps)
  have t: "seen w [] t"
    by (rule keepsP_result[OF keep seen_refl x])
  show ?thesis
  proof (cases x)
    case (Inl e)
    then have "r = Inl e" "w' = t"
      using assms False x by (simp_all add: run_phases_def)
    then show ?thesis
      using t by (auto simp: run_effect_def intro!: exI[of _ "[]"] stuck_seen)
  next
    case (Inr u)
    then have "main_loop cf c fuel t = Some (r, w')"
      using assms False x by (simp add: run_phases_def)
    then show ?thesis
      using run_effect_trans[OF t _ main_loop_effect] by simp
  qed
qed

section \<open>The error tail\<close>

lemma guard_append_seen:
  assumes "loud flds" "seen w0 T w" "guardP (append_log c flds) w = (r, w')"
  shows "r = Inr () \<and> (seen w0 T w' \<or> seen w0 (T @ [stamped flds]) w')"
proof -
  obtain x u where x: "append_log c flds w = (x, u)"
    by (cases "append_log c flds w")
  then show ?thesis
    using assms validP_Inr[OF append_log_seen[OF assms(1)] assms(2)] validP_Inl[OF append_log_seen[OF assms(1)] assms(2)]
    by (cases x) (auto simp: guardP_def catchP_def retP_def)
qed

lemma guard_result: "guardP m w = (r, w') \<Longrightarrow> r = Inr ()"
  by (auto simp: guardP_def catchP_def retP_def split: prod.splits sum.splits)

lemma then_guard: "thenP (guardP m) k w = k (snd (guardP m w))"
  using guard_result[of m w] by (cases "guardP m w") (simp add: thenP_def bindP_def)

lemma guard_keeps: "keepsP I m \<Longrightarrow> I w \<Longrightarrow> I (snd (guardP m w))"
  using keepsP_result[of I "guardP m" w "fst (guardP m w)"] validP_guard[of I m] by simp

lemma notify_result:
  assumes "notify cf c st w = (r, u)"
  shows "r = Inr () \<or> (\<exists>m v e v'. c_post c m v = (Inl e, v') \<and> e \<noteq> OSError \<and> r = Inl e)"
  using assms
  by (fastforce simp: notify_def thenP_def bindP_def logged_def modifyP_def retP_def Let_def catchP_def envP_def throwP_def
      split: if_splits prod.splits sum.splits)

lemma internal_error_seen:
  assumes "seen w0 T w" "internal_error cf c ex w = (r, w')"
  shows "\<exists>S. (S = [] \<or> S = [stamped (terminal_entry ''INTERNAL_ERROR'' @ [(''detail'', JStr (c_traceback c ex))])])
      \<and> seen w0 (T @ S @ [EvNotify ''INTERNAL_ERROR'']) w' \<and> (\<forall>st. r = Inr st \<longrightarrow> st = ''INTERNAL_ERROR'')
      \<and> (\<forall>e. r = Inl e \<longrightarrow> e \<noteq> OSError \<and> (\<exists>m v v'. c_post c m v = (Inl e, v')))"
proof -
  let ?flds = "terminal_entry ''INTERNAL_ERROR'' @ [(''detail'', JStr (c_traceback c ex))]"
  define u1 where "u1 = snd (guardP (append_log c ?flds) w)"
  define u2 where "u2 = snd (guardP (write_summary c ''INTERNAL_ERROR'') u1)"
  define u3 where "u3 = snd (guardP (write_handback c ''INTERNAL_ERROR'') u2)"
  define u4 where "u4 = snd (guardP (commit_all c (''INTERNAL_ERROR for '' @ cf_task cf @ ''; handback written'')) u3)"
  have loud: "loud ?flds"
    by (simp add: loud_def loud_actions_def terminal_entry_def)
  obtain S where S: "S = [] \<or> S = [stamped ?flds]" "seen w0 (T @ S) u1"
    using guard_append_seen[OF loud assms(1), of c "fst (guardP (append_log c ?flds) w)" u1]
    by (metis append.right_neutral prod.collapse u1_def)
  have writes: "keepsP (seen w0 X) (write_summary c st)" "keepsP (seen w0 X) (write_handback c st)" for X st
    unfolding write_summary_def write_handback_def
    by (rule validP_bind[where R = "\<lambda>_. seen w0 X"];
        auto simp: validP_def[of _ "\<lambda>w. (_ w, w)"] intro: seen.write_text_keeps split: sum.split)+
  have u4: "seen w0 (T @ S) u4"
    unfolding u4_def u3_def u2_def
    by (intro guard_keeps[where I = "seen w0 (T @ S)"] seen.commit_keeps writes S(2))
  have body: "thenP (notify cf c ''INTERNAL_ERROR'') (retP ''INTERNAL_ERROR'') u4 = (r, w')"
    using assms(2) unfolding internal_error_def Let_def then_guard u1_def u2_def u3_def u4_def by simp
  obtain y v where y: "notify cf c ''INTERNAL_ERROR'' u4 = (y, v)"
    by (cases "notify cf c ''INTERNAL_ERROR'' u4")
  then have v: "seen w0 ((T @ S) @ [EvNotify ''INTERNAL_ERROR'']) v"
    using validP_Inr[OF notify_seen u4] validP_Inl[OF notify_seen u4] by (cases y) auto
  have r: "r = (case y of Inl e \<Rightarrow> Inl e | Inr _ \<Rightarrow> Inr ''INTERNAL_ERROR'')" "w' = v"
    using body y by (cases y; simp add: thenP_def bindP_def retP_def)+
  have err: "e \<noteq> OSError \<and> (\<exists>m v v'. c_post c m v = (Inl e, v'))" if "y = Inl e" for e
    using notify_result[OF y] unfolding that by blast
  show ?thesis
    using S(1) v r err by (intro exI[of _ S] conjI) (auto split: sum.splits)
qed

section \<open>The ways a run ends\<close>

lemma start_result:
  assumes "thenP (envP m) (read_log c) w = (x, u)"
  shows "w_trace u = w_trace w \<and> w_log u = w_log w \<and> (\<forall>es. x = Inr es \<longrightarrow> es = w_log w)"
  using assms
  by (auto simp: thenP_def bindP_def envP_def read_log_def ioP_def getP_def split: prod.splits sum.splits option.splits)

lemma run_cases:
  assumes "run cf c fuel w = Some (r, w')"
  obtains (early) e where "r = Inl e" "w_trace w' = w_trace w" "w_log w' = w_log w"
  | (known) st where "r = Inr st" "recorded_terminal (w_log w) = Some st" "w_trace w' = w_trace w" "w_log w' = w_log w"
  | (finished) u st where "r = Inr st" "recorded_terminal (w_log w) = None" "w_trace u = w_trace w" "w_log u = w_log w"
      "run_phases cf c fuel u = Some (Inr st, w')"
  | (timeout) u v where "recorded_terminal (w_log w) = None" "w_trace u = w_trace w" "w_log u = w_log w"
      "run_phases cf c fuel u = Some (Inl QuotaTimeout, v)" "finalize cf c ''QUOTA_TIMEOUT'' None v = (r, w')"
  | (error) u e v where "recorded_terminal (w_log w) = None" "w_trace u = w_trace w" "w_log u = w_log w"
      "run_phases cf c fuel u = Some (Inl e, v)" "e \<noteq> QuotaTimeout" "internal_error cf c e v = (r, w')"
proof -
  obtain x t where x: "thenP (envP (c_worktree c)) (read_log c) w = (x, t)"
    by (cases "thenP (envP (c_worktree c)) (read_log c) w")
  note t = start_result[OF x]
  define u where "u = snd (bind_quota cf t)"
  have u: "w_trace u = w_trace w" "w_log u = w_log w"
    using t by (simp_all add: u_def bind_quota_def modifyP_def)
  show thesis
  proof (cases x)
    case (Inl e)
    then have "r = Inl e" "w' = t"
      using assms x by (simp_all add: run_def)
    then show thesis using early t by simp
  next
    case (Inr es)
    then have es: "es = w_log w" using t by simp
    show thesis
    proof (cases "recorded_terminal es")
      case (Some st)
      then have "r = Inr st" "w' = t"
        using assms x Inr by (simp_all add: run_def)
      then show thesis using known t Some es by simp
    next
      case None
      then obtain y v where y: "run_phases cf c fuel u = Some (y, v)"
        using assms x Inr by (auto simp: run_def u_def split: option.splits)
      show thesis
      proof (cases y)
        case (Inr st)
        then have "r = Inr st" "w' = v"
          using assms x \<open>x = Inr es\<close> None y by (simp_all add: run_def u_def[symmetric])
        then show thesis using finished[of st u] u None es y Inr by simp
      next
        case (Inl e)
        then have "(r, w') = (if e = QuotaTimeout then finalize cf c ''QUOTA_TIMEOUT'' None v else internal_error cf c e v)"
          using assms x \<open>x = Inr es\<close> None y by (simp add: run_def u_def[symmetric])
        then show thesis
          using timeout[of u v] error[of u e v] u None es y Inl by (cases "e = QuotaTimeout") simp_all
      qed
    qed
  qed
qed

lemma seen_start: "w_trace u = w_trace w \<Longrightarrow> w_log u = w_log w \<Longrightarrow> seen u T v = seen w T v"
  by (simp add: seen_def)

lemma effect_start:
  assumes "w_trace u = w_trace w" "w_log u = w_log w"
  shows "run_effect cf u r v = run_effect cf w r v"
  by (cases r) (simp_all add: run_effect_def ended_def stuck_def seen_start[OF assms])

text \<open>A run that was not recorded before, by what it returns.\<close>

lemma run_returned:
  assumes "run cf c fuel w = Some (Inr st, w')" "recorded_terminal (w_log w) = None"
  obtains (closed) T where "list_all working_event T" "ended cf w T st w'"
  | (timeout) T where "st = ''QUOTA_TIMEOUT''" "ended cf w T st w'"
  | (error) T where "st = ''INTERNAL_ERROR''" "seen w (T @ [EvNotify st]) w'"
  using assms(1)
proof (cases rule: run_cases)
  case (finished u st')
  then have "run_effect cf w (Inr st) w'"
    using run_phases_effect[of cf c fuel u "Inr st" w'] effect_start[OF finished(3,4)] by simp
  then show thesis using closed by (auto simp: run_effect_def)
next
  case (timeout u v)
  then have "run_effect cf w (Inl QuotaTimeout) v"
    using run_phases_effect[of cf c fuel u "Inl QuotaTimeout" v] effect_start[OF timeout(2,3)] by simp
  then obtain T where "seen w T v"
    by (auto simp: run_effect_def stuck_def)
  then have "st = ''QUOTA_TIMEOUT''" "ended cf w T ''QUOTA_TIMEOUT'' w'"
    using finalize_seen[OF _ timeout(5), of w T] by simp_all
  then show thesis using that(2) by simp
next
  case (error u e v)
  then have "run_effect cf w (Inl e) v"
    using run_phases_effect[of cf c fuel u "Inl e" v] effect_start[OF error(2,3)] by simp
  then obtain T where "seen w T v"
    by (auto simp: run_effect_def stuck_def)
  from internal_error_seen[OF this error(6)] obtain S where
    "seen w ((T @ S) @ [EvNotify ''INTERNAL_ERROR'']) w'" "st = ''INTERNAL_ERROR''"
    by auto
  then show thesis using that(3)[of "T @ S"] by simp
qed (use assms(2) in auto)

lemma seen_event:
  "seen w T w' \<Longrightarrow> w_trace w' = w_trace w @ t \<Longrightarrow> \<not> basic ev \<Longrightarrow> untimed ev = ev \<Longrightarrow>
   (\<forall>e. ev \<noteq> EvAppend e) \<Longrightarrow> ev \<in> set t \<longleftrightarrow> ev \<in> set T"
proof -
  assume a: "seen w T w'" "w_trace w' = w_trace w @ t" "\<not> basic ev" "untimed ev = ev" "\<forall>e. ev \<noteq> EvAppend e"
  then have T: "T = map untimed (filter (\<lambda>ev. \<not> basic ev) t)"
    by (auto simp: seen_def)
  have "untimed x = ev \<Longrightarrow> x = ev" for x
    using a(5) by (cases x) auto
  then show ?thesis
    using a(3,4) unfolding T by (auto simp: image_iff) metis
qed

section \<open>Properties\<close>

text \<open>
  C12: The tail of a run has one order: whatever fails in it, the effects attempted are an initial part
  of artifacts, commit, push, notification, marker, commit, push; it returns its state only after all
  of them, and then the log ends in the marker of that state. In particular the notification is only
  attempted after the push, the marker is only written after the notification, and a path-guard
  violation never pushes.
\<close>

theorem finalize_order:
  assumes "finalize cf c st rnd w = (r, w')"
  shows "\<exists>t. w_trace w' = w_trace w @ t \<and> w_log w' = w_log w @ appended t
    \<and> prefix (map untimed t) (tail_events cf st rnd)
    \<and> (\<forall>x. r = Inr x \<longrightarrow> x = st \<and> map untimed t = tail_events cf st rnd \<and> closed st w')
    \<and> (st = ''PATH_GUARD_VIOLATION'' \<longrightarrow> EvPush \<notin> set t)"
proof -
  obtain S where S: "prefix S (tail_events cf st rnd)" "exact w S w'" "\<forall>x. r = Inr x \<longrightarrow> S = tail_events cf st rnd"
    using assms emits_Inr[OF finalize_emits] emits_Inl[OF finalize_emits] by (cases r) blast+
  then obtain t where t: "w_trace w' = w_trace w @ t" "map untimed t = S" "w_log w' = w_log w @ appended t"
    by (auto simp: exact_def)
  have "\<forall>x. r = Inr x \<longrightarrow> x = st \<and> closed st w'"
    using finalize_state assms closedI[OF _ tail_appended terminal_stamp] emits_Inr[OF finalize_emits] by blast
  moreover have "EvPush \<notin> set t" if "st = ''PATH_GUARD_VIOLATION''"
  proof
    assume "EvPush \<in> set t"
    then have "EvPush \<in> set S"
      using t(2) by force
    then have "EvPush \<in> set (tail_events cf st rnd)"
      using S(1) by (auto simp: prefix_def)
    then show False
      unfolding that by (simp add: tail_events_def terminal_spec_def terminal_tables stamped_def split: if_splits)
  qed
  ultimately show ?thesis
    using t S by (intro exI[of _ t]) auto
qed

text \<open>
  C8: No run ends silently: a run that was not already recorded and returns a state has either
  attempted the notification of that state, or it only re-recorded a finished push and pushed the
  log again. The log it leaves is the old one followed by exactly the entries it appended.
\<close>

theorem run_reports:
  assumes "run cf c fuel w = Some (Inr st, w')" "recorded_terminal (w_log w) = None"
  shows "\<exists>t. w_trace w' = w_trace w @ t \<and> w_log w' = w_log w @ appended t
    \<and> (EvNotify st \<in> set t \<or> (done_state st \<and> EvPush \<in> set t))"
proof -
  have "\<exists>T. seen w T w' \<and> (EvNotify st \<in> set T \<or> (done_state st \<and> EvPush \<in> set T))"
    if "ended cf w T st w'" for T
    using that by (fastforce simp: ended_def ending_def tail_events_def)
  moreover have "st = ''QUOTA_WAIT'' \<longrightarrow> done_state st" if "ended cf w T st w'" for T
    using that by (auto simp: ended_def ending_def)
  ultimately have quiet: "\<exists>T. seen w T w' \<and> (EvNotify st \<in> set T \<or> (done_state st \<and> EvPush \<in> set T))
      \<and> (st = ''QUOTA_WAIT'' \<longrightarrow> done_state st)" if "ended cf w T st w'" for T
    using that by blast
  have "\<exists>T. seen w T w' \<and> (EvNotify st \<in> set T \<or> (done_state st \<and> EvPush \<in> set T))
      \<and> (st = ''QUOTA_WAIT'' \<longrightarrow> done_state st)"
    using assms
  proof (cases rule: run_returned)
    case (error T)
    then show ?thesis by (intro exI[of _ "T @ [EvNotify st]"]) simp
  qed (use quiet in blast)+
  then obtain T where T: "seen w T w'" "EvNotify st \<in> set T \<or> (done_state st \<and> EvPush \<in> set T)"
    "st = ''QUOTA_WAIT'' \<longrightarrow> done_state st"
    by blast
  then obtain t where t: "w_trace w' = w_trace w @ t" "w_log w' = w_log w @ appended t"
    by (auto simp: seen_def)
  have "st \<noteq> ''QUOTA_WAIT''"
    using T(3) by (auto simp: done_state_def merge_decided_prefix_def)
  then have "EvNotify st \<in> set t \<or> (done_state st \<and> EvPush \<in> set t)"
    using seen_event[OF T(1) t(1), of "EvNotify st"] seen_event[OF T(1) t(1), of EvPush] T(2) by simp
  then show ?thesis
    using t by blast
qed

text \<open>
  C4: A finished run is recorded: when a run returns a sticky state, the log it leaves records exactly
  that state, so a later run on that log (whose worktree and log can be read) returns the same state,
  appends nothing, pushes nothing and notifies nobody.
\<close>

theorem finished_run_is_recorded:
  assumes "run cf c fuel w = Some (Inr st, w')" "sticky (terminal_spec st)"
  shows "recorded_terminal (w_log w') = Some st
    \<and> (\<forall>fuel' es u. thenP (envP (c_worktree c)) (read_log c) w' = (Inr es, u) \<longrightarrow>
         run cf c fuel' w' = Some (Inr st, u) \<and> w_log u = w_log w' \<and> w_trace u = w_trace w')"
proof -
  have "recorded_terminal (w_log w') = Some st"
  proof (cases "recorded_terminal (w_log w)")
    case None
    show ?thesis
      using assms(1) None
    proof (cases rule: run_returned)
      case (closed T)
      then show ?thesis using closed_recorded assms(2) by (auto simp: ended_def)
    next
      case (timeout T)
      then have "closed st w'" by (auto simp: ended_def)
      then show ?thesis using closed_recorded assms(2) by blast
    next
      case (error T)
      then show ?thesis
        using assms(2) by (simp add: sticky_def terminal_spec_def terminal_tables)
    qed
  next
    case (Some st')
    from assms(1) show ?thesis
      by (cases rule: run_cases) (use Some in auto)
  qed
  moreover have "run cf c fuel' w' = Some (Inr st, u) \<and> w_log u = w_log w' \<and> w_trace u = w_trace w'"
    if "thenP (envP (c_worktree c)) (read_log c) w' = (Inr es, u)" for fuel' es u
    using start_result[OF that] that calculation by (simp add: run_def)
  ultimately show ?thesis
    by blast
qed

text \<open>
  C9: A path-guard violation is never pushed: a run that returns it has not pushed anything, in any
  phase, and has recorded the violation last.
\<close>

theorem path_guard_never_pushes:
  assumes "run cf c fuel w = Some (Inr ''PATH_GUARD_VIOLATION'', w')" "recorded_terminal (w_log w) = None"
  shows "\<exists>t. w_trace w' = w_trace w @ t \<and> EvPush \<notin> set t \<and> EvNotify ''PATH_GUARD_VIOLATION'' \<in> set t
    \<and> closed ''PATH_GUARD_VIOLATION'' w'"
proof -
  from assms obtain T where T: "list_all working_event T" "ended cf w T ''PATH_GUARD_VIOLATION'' w'"
    by (cases rule: run_returned) auto
  then obtain rnd where "closed ''PATH_GUARD_VIOLATION'' w'"
    and seen: "seen w (T @ filter (\<lambda>ev. \<not> basic ev) (tail_events cf ''PATH_GUARD_VIOLATION'' rnd)) w'"
    by (auto simp: ended_def ending_def done_state_def merge_decided_prefix_def)
  moreover obtain t where t: "w_trace w' = w_trace w @ t"
    using seen by (auto simp: seen_def)
  moreover have "EvPush \<notin> set T"
    using T(1) by (auto simp: list_all_iff working_event_def stamped_def)
  moreover have "EvPush \<notin> set (tail_events cf ''PATH_GUARD_VIOLATION'' rnd)"
    by (simp add: tail_events_def terminal_spec_def terminal_tables stamped_def)
  moreover have "EvNotify ''PATH_GUARD_VIOLATION'' \<in> set (tail_events cf ''PATH_GUARD_VIOLATION'' rnd)"
    by (simp add: tail_events_def)
  ultimately show ?thesis
    using seen_event[OF seen t, of EvPush] seen_event[OF seen t, of "EvNotify ''PATH_GUARD_VIOLATION''"]
    by (intro exI[of _ t]) auto
qed

text \<open>
  The error path always speaks: whatever happened before and whichever of its own steps fail, the
  handler of an unexpected exception attempts the notification, and it returns \<open>INTERNAL_ERROR\<close>
  unless the notifier itself raises something other than a network error.
\<close>

theorem internal_error_notifies:
  assumes "internal_error cf c ex w = (r, w')"
  shows "(\<exists>t. w_trace w' = w_trace w @ t \<and> EvNotify ''INTERNAL_ERROR'' \<in> set t \<and> EvPush \<notin> set t)
    \<and> (r = Inr ''INTERNAL_ERROR'' \<or> (\<exists>e m v v'. r = Inl e \<and> e \<noteq> OSError \<and> c_post c m v = (Inl e, v')))"
proof -
  obtain S where S: "S = [] \<or> S = [stamped (terminal_entry ''INTERNAL_ERROR'' @ [(''detail'', JStr (c_traceback c ex))])]"
    and seen: "seen w ([] @ S @ [EvNotify ''INTERNAL_ERROR'']) w'"
    and ret: "\<forall>st. r = Inr st \<longrightarrow> st = ''INTERNAL_ERROR''"
    and err: "\<forall>e. r = Inl e \<longrightarrow> e \<noteq> OSError \<and> (\<exists>m v v'. c_post c m v = (Inl e, v'))"
    using internal_error_seen[OF seen_refl assms] by blast
  obtain t where t: "w_trace w' = w_trace w @ t"
    using seen by (auto simp: seen_def)
  have "EvNotify ''INTERNAL_ERROR'' \<in> set t" "EvPush \<notin> set t"
    using seen_event[OF seen t, of EvPush] seen_event[OF seen t, of "EvNotify ''INTERNAL_ERROR''"] S
    by (auto simp: stamped_def)
  moreover have "r = Inr ''INTERNAL_ERROR'' \<or> (\<exists>e m v v'. r = Inl e \<and> e \<noteq> OSError \<and> c_post c m v = (Inl e, v'))"
    using ret err by (cases r) blast+
  ultimately show ?thesis
    using t by blast
qed

section \<open>Bounds\<close>

definition rounds_total :: "int \<Rightarrow> entry list \<Rightarrow> nat" where
  "rounds_total m L = rounds_used L + rounds_left m L"

lemma rounds_total_skel: "skel L = skel M \<Longrightarrow> rounds_total m L = rounds_total m M"
  using seen_same(1)[of L M m] seen_same(2)[of L M] by (simp add: rounds_total_def)

lemma rounds_total_steady:
  "list_all (\<lambda>e. \<not> has_action ''developer'' e \<and> \<not> has_action ''director_resume'' e) es \<Longrightarrow>
   rounds_total m (L @ es) = rounds_total m L"
proof (induction es rule: rev_induct)
  case (snoc e es)
  then show ?case
    by (simp add: rounds_total_def rounds_left_def rounds_snoc since_snoc flip: append_assoc)
qed simp

lemma stuck_total: "seen w S w' \<Longrightarrow> steady S \<Longrightarrow> rounds_total m (w_log w') = rounds_total m (w_log w)"
proof -
  assume a: "seen w S w'" "steady S"
  have "rounds_total m (w_log w') = rounds_total m (skel (w_log w'))"
    by (rule rounds_total_skel) simp
  also have "\<dots> = rounds_total m (skel (w_log w) @ appended S)"
    using seen_skel[OF a(1)] by simp
  also have "\<dots> = rounds_total m (skel (w_log w))"
    using a(2) unfolding steady_def by (rule rounds_total_steady)
  also have "\<dots> = rounds_total m (w_log w)"
    by (rule rounds_total_skel) simp
  finally show ?thesis .
qed

lemma steady_append: "steady (S @ T) \<longleftrightarrow> steady S \<and> steady T"
  by (simp add: steady_def)

lemma ending_steady: "ending cf st L \<Longrightarrow> steady L"
  using steady_filter[OF tail_steady] by (auto simp: ending_def) (simp add: steady_def terminal_entry_def)

lemma turn_total:
  assumes "loop_turn cf c w = (r, w')"
  shows "rounds_total (cf_max_loops cf) (w_log w') \<le> rounds_total (cf_max_loops cf) (w_log w)"
  using assms
proof (cases rule: loop_turn_cases)
  case (raised e)
  then show ?thesis using stuck_total[of w "[]"] by (simp add: steady_def)
next
  case (ran rp phase)
  have one: ?thesis if one: "one w [] phase w'" and working: "phase \<in> set working_phases"
  proof -
    obtain e where e: "skel (w_log w') = skel (w_log w) @ [e]" "has_action phase e"
      using one_skel[OF one] by blast
    have res: "phase \<noteq> ''director_resume''"
      using working by (auto simp: working_phases_def)
    note step = rounds_left_step(1)[OF e res] rounds_left_step(2,3)[OF e res, of "cf_max_loops cf"]
    show ?thesis
      using step chosen_developer[OF ran(1)] ran(2) by (cases "phase = ''developer''") (auto simp: rounds_total_def)
  qed
  have "steady []" by (simp add: steady_def)
  then show ?thesis
    using ran(3) one stuck_total[of w "[]" w'] stuck_total[of w _ w'] ending_steady
    unfolding turn_result_def by (fastforce simp: stuck_def ended_def split: if_splits)
qed

lemma main_loop_total:
  "main_loop cf c fuel w = Some (r, w') \<Longrightarrow>
   rounds_total (cf_max_loops cf) (w_log w') \<le> rounds_total (cf_max_loops cf) (w_log w)"
proof (induction fuel arbitrary: w)
  case (Suc fuel)
  obtain x t where x: "loop_turn cf c w = (x, t)"
    by (cases "loop_turn cf c w")
  then show ?case
    using Suc turn_total[OF x] by (fastforce split: sum.splits option.splits)
qed simp

text \<open>What precedes the main loop, and the whole report-only flow, adds no developer round.\<close>

lemma run_phases_total:
  assumes "run_phases cf c fuel w = Some (r, w')"
  shows "rounds_total (cf_max_loops cf) (w_log w') \<le> rounds_total (cf_max_loops cf) (w_log w)"
proof (cases "has_role cf ''investigator''")
  case True
  have ro: "ends cf (stops (run_report_only cf c))"
    by (rule run_report_only_ends)
  have "stops (run_report_only cf c) w = (case r of Inl e \<Rightarrow> Inl e | Inr st \<Rightarrow> Inr (Some st), w')"
    using assms True by (cases r) (simp_all add: run_phases_def stops_def bindP_def retP_def)
  from ro[unfolded ends_def, rule_format, OF seen_refl this]
  have "\<exists>S. steady S \<and> seen w S w'"
    using ending_steady by (cases r) (auto simp: ended_def stuck_def)
  then show ?thesis
    using stuck_total by fastforce
next
  case False
  let ?pre = "if has_role cf ''explorer''
               then bindP (read_log c) (\<lambda>entries.
                      if list_ex (has_action ''explorer'') entries then retP () else run_explorer cf c)
               else retP ()"
  obtain x t where x: "?pre w = (x, t)"
    by (cases "?pre w")
  have keep: "keepsP (seen w []) ?pre"
    by (intro validP_if validP_bind[where R = "\<lambda>_. seen w []"] seen.read_log_keeps validP_ret explorer_keeps)
  have t: "rounds_total (cf_max_loops cf) (w_log t) = rounds_total (cf_max_loops cf) (w_log w)"
    by (rule stuck_total[OF keepsP_result[OF keep seen_refl x]]) (simp add: steady_def)
  then show ?thesis
    using assms False x main_loop_total[of cf c fuel t r w']
    by (cases x) (simp_all add: run_phases_def)
qed


section \<open>A lost notification\<close>

lemma then_assoc: "thenP (thenP m k) n = thenP m (thenP k n)"
  by (simp add: thenP_def bind_assoc)

lemma when_True: "whenP True m = m"
  by (simp add: whenP_def)

lemma finalize_unpushed:
  assumes "\<And>v. \<exists>e v'. c_push c v = (Inl e, v')" "ts_push (terminal_spec st)"
  shows "\<exists>e w' t. finalize cf c st rnd w = (Inl e, w') \<and> w_trace w' = w_trace w @ t \<and> (\<forall>s. EvNotify s \<notin> set t)"
proof -
  let ?front = "thenP (write_summary c st) (thenP (whenP (ts_handback (terminal_spec st)) (write_handback c st))
     (thenP (commit_all c (st @ '' for '' @ cf_task cf)) (push c)))"
  let ?L = "[EvWrite ''human-summary.md''] @ (if ts_handback (terminal_spec st) then [EvWrite ''handback.md''] else [])
     @ [EvCommit (st @ '' for '' @ cf_task cf)] @ [EvPush]"
  have em: "emits ?front ?L"
    unfolding write_summary_def write_handback_def
    by (intro emits_then emits_pure_write emits_when emits_commit emits_push)
  have "\<exists>e u. push c v = (Inl e, u)" for v
  proof -
    obtain e v' where "c_push c (w_env v) = (Inl e, v')"
      using assms(1) by blast
    then show ?thesis
      by (simp add: push_def thenP_def bindP_def logged_def modifyP_def envP_def)
  qed
  then have "\<exists>e u. ?front v = (Inl e, u)" for v
    by (cases "?front v"; cases "fst (?front v)") (auto simp: thenP_def bindP_Inr_iff, metis Inl_Inr_False prod.inject)
  then obtain e w' where front: "?front w = (Inl e, w')"
    by blast
  have "finalize cf c st rnd = thenP ?front (thenP (notify cf c st)
     (thenP (whenP (ts_kind (terminal_spec st) = Success) (append_log c (push_entry rnd)))
     (thenP (append_log c (terminal_entry st))
     (thenP (commit_all c (''Record terminal '' @ st @ '' for '' @ cf_task cf)) (thenP (push c) (retP st))))))"
    using assms(2) by (simp only: finalize_def Let_def then_assoc when_True)
  then have "finalize cf c st rnd w = (Inl e, w')"
    using front by (simp add: thenP_def bindP_def)
  moreover obtain S t where "prefix S ?L" "w_trace w' = w_trace w @ t" "map untimed t = S"
    using emits_Inl[OF em front] by (auto simp: exact_def)
  moreover have "EvNotify s \<notin> set t" for s
  proof
    assume "EvNotify s \<in> set t"
    then have "EvNotify s \<in> set S"
      using calculation(4) by force
    then have "EvNotify s \<in> set ?L"
      using set_mono_prefix[OF calculation(2)] by blast
    then show False by (simp split: if_splits)
  qed
  ultimately show ?thesis by blast
qed

text \<open>
  The quota timeout is the one ending that can be lost: its tail runs inside the exception handler,
  outside the catch-all of the run, so when the push of the handback fails the exception leaves the
  run and no state is reported, although any other failure of a push ends in a notification.
\<close>

theorem quota_timeout_can_be_lost:
  assumes "thenP (envP (c_worktree c)) (read_log c) w = (Inr es, u)" "recorded_terminal es = None"
    and "run_phases cf c fuel (snd (bind_quota cf u)) = Some (Inl QuotaTimeout, v)"
    and "\<And>v. \<exists>e v'. c_push c v = (Inl e, v')"
  shows "\<exists>e w' t. run cf c fuel w = Some (Inl e, w') \<and> w_trace w' = w_trace v @ t \<and> (\<forall>s. EvNotify s \<notin> set t)"
proof -
  have "ts_push (terminal_spec ''QUOTA_TIMEOUT'')"
    by (simp add: terminal_spec_def terminal_tables)
  from finalize_unpushed[OF assms(4) this, of cf None v] show ?thesis
    using assms(1-3) by (auto simp: run_def)
qed

section \<open>A concrete world\<close>

text \<open>
  Collaborators that do nothing and never fail, over an environment that counts the runs of the
  agents; the agent's answer depends on that count.
\<close>

definition idle_agent :: "(nat \<Rightarrow> agent_result) \<Rightarrow> nat agent" where
  "idle_agent answer = \<lparr>ag_name = ''claude'', ag_run = (\<lambda>p q n. (Inr (answer n), Suc n))\<rparr>"

definition idle_collab :: "(nat \<Rightarrow> agent_result) \<Rightarrow> (nat, unit) prog \<Rightarrow> string list \<Rightarrow> nat collab" where
  "idle_collab answer pushing changed =
     \<lparr>c_fault = (\<lambda>_ n. (None, n)), c_now = (\<lambda>n. (JStr ''t'', n)), c_worktree = retP (), c_commit = (\<lambda>_. retP ()),
      c_push = pushing, c_code_sha = retP ''sha'', c_changed = retP changed, c_statuses = retP [],
      c_diff_lines = retP 0, c_diff_text = retP [], c_policy = retP empty_policy, c_read_wt = (\<lambda>_ _. Inl OSError),
      c_write_wt = (\<lambda>_ _. retP ()), c_role_file = (\<lambda>_. retP []), c_shell = (\<lambda>_. retP (0, [])), c_docker = None,
      c_setup_done = (\<lambda>_. True), c_mark_setup = retP (), c_dev = idle_agent answer, c_rw1 = idle_agent answer,
      c_rw2 = None, c_senior = None, c_clock = retP 0, c_sleep = (\<lambda>_. retP ()), c_topic = True, c_post = (\<lambda>_. retP ()),
      c_base_branch = ''main'', c_sha256 = id, c_json = demo_lib, c_time_text = (\<lambda>_. []), c_traceback = (\<lambda>_. []),
      c_summary = (\<lambda>s _ _. Inr s), c_handback = (\<lambda>s _ _. Inr s)\<rparr>"

definition answer_with :: "string \<Rightarrow> agent_result" where
  "answer_with ex = \<lparr>ar_text = ''done'', ar_session = None, ar_exit = ex, ar_rc = 0, ar_reset_at = None\<rparr>"

definition idle_config :: "string list option \<Rightarrow> quota_policy option \<Rightarrow> config" where
  "idle_config roles quota = \<lparr>cf_task = ''t1'', cf_max_loops = 4, cf_fast_commands = ''true'', cf_setup_commands = [],
     cf_composition = roles, cf_policy_enabled = False, cf_quota = quota\<rparr>"

definition idle_world :: "entry list \<Rightarrow> nat world" where
  "idle_world log = \<lparr>w_env = 0, w_log = log, w_files = Map.empty, w_spent = 0, w_trace = []\<rparr>"

definition short_quota :: quota_policy where
  "short_quota = \<lparr>reset_buffer = 0, backoff = [10], max_wait = 5\<rparr>"

definition reviewed_log :: "entry list" where
  "reviewed_log = [log_entry ''developer'' ''ok'', log_entry ''fast_tests'' ''pass'', log_entry ''rw1'' ''approved'']"

theorem runner_of_ends_witness: "\<exists>x t. runner_of (idle_config None (Some short_quota))
    (idle_collab (\<lambda>_. answer_with ''quota'') (retP ()) []) (idle_agent (\<lambda>_. answer_with ''quota'')) [] None (idle_world []) = (x, t)
    \<and> w_spent t \<le> 5"
  using runner_of_ends[of "idle_config None (Some short_quota)" short_quota
      "idle_collab (\<lambda>_. answer_with ''quota'') (retP ()) []" "idle_agent (\<lambda>_. answer_with ''quota'')" "[]" None "idle_world []"]
  by (simp add: idle_config_def short_quota_def positive_policy_def idle_world_def) blast

text \<open>A reviewed log is pushed at once; the run is evaluated.\<close>

definition pushed_run :: "((exn + string) \<times> nat world) option" where
  "pushed_run = run (idle_config None None) (idle_collab (\<lambda>_. answer_with ''ok'') (retP ()) []) 70 (idle_world reviewed_log)"


lemmas world_eval = idle_collab_def idle_config_def idle_world_def thenP_def bindP_def retP_def liftP_def getP_def
  write_summary_def write_handback_def write_text_def ioP_def modifyP_def whenP_def commit_all_def push_def notify_def catchP_def
  envP_def logged_def append_log_def read_log_def Let_def terminal_spec_def terminal_tables finalize_def
  has_role_def log_entry_def recorded_terminal_def has_action_def has_outcome_def run_phases_def bind_quota_def

lemmas turn_eval = loop_turn_def derive_resume_point_def last_phase_def is_phase_def phase_actions_def
  transition_of_def dsub_def hashable_def transitions_def rounds_used_def resume_developer_point_def
  dev_rounds_since_resume_def override_phase_def run_phase_def push_phase_def stops_def numeral_eq_Suc

lemma pushed_run_result: "map_option fst pushed_run = Some (Inr ''PUSHED'')"
  by (simp add: pushed_run_def run_def reviewed_log_def world_eval turn_eval)

definition guarded_log :: "entry list" where
  "guarded_log = [log_entry ''investigator'' ''ok'', log_entry ''verify'' ''ok'']"

definition guarded_run :: "((exn + string) \<times> nat world) option" where
  "guarded_run = run (idle_config (Some [''investigator'']) None)
     (idle_collab (\<lambda>_. answer_with ''ok'') (retP ()) [''src/a.py'']) 70 (idle_world guarded_log)"

lemma guarded_paths: "\<not> fst (path_guard ''t1'' [''src/a.py''])"
  by code_simp

lemma guarded_run_result: "map_option fst guarded_run = Some (Inr ''PATH_GUARD_VIOLATION'')"
  using guarded_paths
  by (simp add: guarded_run_def run_def guarded_log_def world_eval run_report_only_def investigate_def verify_round_def
      report_publish_def)

definition starved_run :: "((exn + string) \<times> nat world) option" where
  "starved_run = run_phases (idle_config None (Some short_quota))
     (idle_collab (\<lambda>_. answer_with ''quota'') (throwP GitError) []) 70 (idle_world [])"

lemma starved_run_result: "map_option fst starved_run = Some (Inl QuotaTimeout)"
  by code_simp


theorem finalize_order_witness:
  "\<exists>r w' t. finalize (idle_config None None) (idle_collab (\<lambda>_. answer_with ''ok'') (retP ()) []) ''CAP_REACHED'' None (idle_world [])
     = (r, w') \<and> w_trace w' = t \<and> map untimed t = tail_events (idle_config None None) ''CAP_REACHED'' None"
proof -
  obtain r w' where f: "finalize (idle_config None None) (idle_collab (\<lambda>_. answer_with ''ok'') (retP ()) []) ''CAP_REACHED''
      None (idle_world []) = (r, w')"
    by (cases "finalize (idle_config None None) (idle_collab (\<lambda>_. answer_with ''ok'') (retP ()) []) ''CAP_REACHED''
      None (idle_world [])")
  then have "r = Inr ''CAP_REACHED''"
    by (auto simp: world_eval)
  then show ?thesis
    using finalize_order[OF f] f by (auto simp: idle_world_def)
qed

lemma pushed_run_some: "\<exists>w'. pushed_run = Some (Inr ''PUSHED'', w')"
  using pushed_run_result by (cases pushed_run) auto

lemma reviewed_not_recorded: "recorded_terminal (w_log (idle_world reviewed_log)) = None"
  by (simp add: recorded_terminal_def reviewed_log_def idle_world_def log_entry_def has_action_def has_outcome_def)

theorem run_reports_witness: "\<exists>w'. pushed_run = Some (Inr ''PUSHED'', w')
    \<and> (EvNotify ''PUSHED'' \<in> set (w_trace w') \<or> EvPush \<in> set (w_trace w'))"
proof -
  obtain w' where w': "pushed_run = Some (Inr ''PUSHED'', w')"
    using pushed_run_some by blast
  show ?thesis
    using run_reports[OF w'[unfolded pushed_run_def] reviewed_not_recorded] w' by (auto simp: idle_world_def)
qed

theorem finished_run_is_recorded_witness:
  "\<exists>w'. pushed_run = Some (Inr ''PUSHED'', w') \<and> recorded_terminal (w_log w') = Some ''PUSHED''"
proof -
  obtain w' where w': "pushed_run = Some (Inr ''PUSHED'', w')"
    using pushed_run_some by blast
  have "sticky (terminal_spec ''PUSHED'')"
    by (simp add: sticky_def terminal_spec_def terminal_tables)
  then show ?thesis
    using finished_run_is_recorded[OF w'[unfolded pushed_run_def]] w' by blast
qed

theorem path_guard_never_pushes_witness:
  "\<exists>w'. guarded_run = Some (Inr ''PATH_GUARD_VIOLATION'', w') \<and> EvPush \<notin> set (w_trace w')"
proof -
  obtain w' where w': "guarded_run = Some (Inr ''PATH_GUARD_VIOLATION'', w')"
    using guarded_run_result by (cases guarded_run) auto
  have "recorded_terminal (w_log (idle_world guarded_log)) = None"
    by (simp add: recorded_terminal_def guarded_log_def idle_world_def log_entry_def has_action_def has_outcome_def)
  then show ?thesis
    using path_guard_never_pushes[OF w'[unfolded guarded_run_def]] w' by (auto simp: idle_world_def)
qed

theorem internal_error_notifies_witness:
  "\<exists>r w'. internal_error (idle_config None None) (idle_collab (\<lambda>_. answer_with ''ok'') (throwP GitError) []) GitError
      (idle_world []) = (r, w') \<and> EvNotify ''INTERNAL_ERROR'' \<in> set (w_trace w') \<and> r = Inr ''INTERNAL_ERROR''"
proof -
  let ?c = "idle_collab (\<lambda>_. answer_with ''ok'') (throwP GitError) []"
  obtain r w' where f: "internal_error (idle_config None None) ?c GitError (idle_world []) = (r, w')"
    by (cases "internal_error (idle_config None None) ?c GitError (idle_world [])")
  have "c_post ?c m v \<noteq> (Inl e, v')" for m v e v'
    by (simp add: idle_collab_def retP_def)
  then show ?thesis
    using internal_error_notifies[OF f] f by (auto simp: idle_world_def)
qed


theorem quota_timeout_can_be_lost_witness:
  "\<exists>e w'. run (idle_config None (Some short_quota)) (idle_collab (\<lambda>_. answer_with ''quota'') (throwP GitError) []) 70
     (idle_world []) = Some (Inl e, w')"
proof -
  let ?c = "idle_collab (\<lambda>_. answer_with ''quota'') (throwP GitError) []"
  have start: "thenP (envP (c_worktree ?c)) (read_log ?c) (idle_world []) = (Inr [], idle_world [])"
    by (simp add: world_eval)
  have same: "snd (bind_quota (idle_config None (Some short_quota)) (idle_world [])) = idle_world []"
    by (simp add: bind_quota_def modifyP_def idle_config_def idle_world_def)
  obtain v where "starved_run = Some (Inl QuotaTimeout, v)"
    using starved_run_result by (cases starved_run) auto
  then have v: "run_phases (idle_config None (Some short_quota)) ?c 70
      (snd (bind_quota (idle_config None (Some short_quota)) (idle_world []))) = Some (Inl QuotaTimeout, v)"
    by (simp only: same starved_run_def)
  have "recorded_terminal [] = None" "\<And>v. \<exists>e v'. c_push ?c v = (Inl e, v')"
    by (simp_all add: recorded_terminal_def idle_collab_def throwP_def)
  then show ?thesis
    using quota_timeout_can_be_lost[OF start _ v] by blast
qed

end
