(* ===== verification/Human_Text.thy ===== *)
theory Human_Text
  imports Prelude
begin

text \<open>
  Model of \<open>src/orchestrator/human_text.py\<close>: untrusted text rendered as one bounded line that cannot
  steer a terminal. Characters are code points below 256, so the general categories the code tests
  are the control characters and the soft hyphen.
\<close>

definition untrusted_inline_limit :: int where
  "untrusted_inline_limit = 500"

definition truncation_marker :: string where
  "truncation_marker = ''... [truncated]''"

text \<open>The categories \<open>Cc\<close>, \<open>Cf\<close> and \<open>Cs\<close> among the modelled characters.\<close>

definition steering :: "char \<Rightarrow> bool" where
  "steering c = (let n = ord c in n < 32 \<or> (127 \<le> n \<and> n \<le> 159) \<or> n = 173)"

definition hex_digit :: "nat \<Rightarrow> char" where
  "hex_digit n = ''0123456789abcdef'' ! n"

definition token_of :: "char \<Rightarrow> string" where
  "token_of c =
     (if c = CHR 0x0D then [CHR 0x5C, CHR ''r'']
      else if c = CHR 0x08 then [CHR 0x5C, CHR ''b'']
      else if steering c then [CHR 0x5C, CHR ''x'', hex_digit (of_char c div 16), hex_digit (of_char c mod 16)]
      else [c])"

text \<open>The tokens; \<open>started\<close> says whether one was produced, \<open>pending\<close> whether a space is due.\<close>

primrec inline_tokens :: "bool \<Rightarrow> bool \<Rightarrow> string \<Rightarrow> string list" where
  "inline_tokens started pending [] = []"
| "inline_tokens started pending (c # cs) =
     (if is_space c \<and> c \<noteq> CHR 0x0D then inline_tokens started started cs
      else (if pending then ['' ''] else []) @ token_of c # inline_tokens True False cs)"

primrec fitting_tokens :: "int \<Rightarrow> string list \<Rightarrow> string" where
  "fitting_tokens room [] = []"
| "fitting_tokens room (t # ts) =
     (if int (length t) > room then [] else t @ fitting_tokens (room - int (length t)) ts)"

definition untrusted_inline_within :: "int \<Rightarrow> string \<Rightarrow> exn + string" where
  "untrusted_inline_within limit txt =
     (if limit < int (length truncation_marker) then Inl ValueError
      else
        (let tokens = inline_tokens False False txt;
             rendered = strip (concat tokens)
         in if int (length rendered) \<le> limit then Inr rendered
            else Inr (rstrip (fitting_tokens (limit - int (length truncation_marker)) tokens) @ truncation_marker)))"

text \<open>With the default limit, which is large enough.\<close>

definition untrusted_inline :: "string \<Rightarrow> string" where
  "untrusted_inline txt = (case untrusted_inline_within untrusted_inline_limit txt of Inr s \<Rightarrow> s | Inl _ \<Rightarrow> [])"

section \<open>Safety\<close>

text \<open>A character that only shows itself, or a plain blank.\<close>

definition plain :: "char \<Rightarrow> bool" where
  "plain c = (\<not> steering c \<and> (is_space c \<longrightarrow> c = CHR '' ''))"

lemma hex_digit_plain: "n < 16 \<Longrightarrow> plain (hex_digit n)"
proof -
  have "\<forall>n\<in>set [0..<16]. plain (hex_digit n)"
    by code_simp
  then show "n < 16 \<Longrightarrow> plain (hex_digit n)"
    by (simp del: upt_rec_numeral)
qed

lemma fixed_plain:
  "plain (CHR 0x5C)" "plain (CHR ''r'')" "plain (CHR ''b'')" "plain (CHR ''x'')" "plain (CHR '' '')"
  by code_simp+

lemma token_plain: "\<not> is_space c \<or> c = CHR 0x0D \<Longrightarrow> list_all plain (token_of c)"
proof -
  assume c: "\<not> is_space c \<or> c = CHR 0x0D"
  have "of_char c < (256::nat)"
    by simp
  then have "of_char c div 16 < (16::nat)" "of_char c mod 16 < (16::nat)"
    by (presburger, simp)
  then show ?thesis
    using c hex_digit_plain fixed_plain by (auto simp: token_of_def plain_def[of c])
qed

lemma inline_tokens_plain: "list_all (list_all plain) (inline_tokens st pe s)"
  by (induction s arbitrary: st pe) (auto simp: token_plain fixed_plain)

lemma fitting_tokens_plain: "list_all (list_all plain) ts \<Longrightarrow> list_all plain (fitting_tokens room ts)"
  by (induction ts arbitrary: room) auto

lemma fitting_tokens_length:
  "0 \<le> room \<Longrightarrow> int (length (fitting_tokens room ts)) \<le> room"
proof (induction ts arbitrary: room)
  case (Cons t ts)
  show ?case
  proof (cases "int (length t) > room")
    case False
    then have "int (length (fitting_tokens (room - int (length t)) ts)) \<le> room - int (length t)"
      by (intro Cons.IH) simp
    then show ?thesis
      using False by simp
  qed (use Cons.prems in simp)
qed simp

lemma rstrip_part:
  "set (rstrip s) \<subseteq> set s" "length (rstrip s) \<le> length s"
  using set_dropWhileD[of _ is_space "rev s"] length_dropWhile_le[of is_space "rev s"]
  by (auto simp: rstrip_def)

lemma lstrip_part: "set (lstrip s) \<subseteq> set s"
  using set_dropWhileD[of _ is_space s] by (auto simp: lstrip_def)

lemma strip_plain: "list_all plain s \<Longrightarrow> list_all plain (strip s)"
  using rstrip_part(1)[of "lstrip s"] lstrip_part[of s] by (auto simp: strip_def list_all_iff)

lemma concat_plain: "list_all (list_all plain) ts \<Longrightarrow> list_all plain (concat ts)"
  by (induction ts) auto

text \<open>
  Untrusted text cannot steer the terminal: for every text and every accepted limit the rendering
  is one line of at most that many characters, none of which is a control character, a soft hyphen or
  white space other than the blank; a limit below the truncation marker is refused.
\<close>

theorem untrusted_inline_safe:
  "untrusted_inline_within limit txt = Inl ValueError \<and> limit < 15
   \<or> (\<exists>s. untrusted_inline_within limit txt = Inr s \<and> 15 \<le> limit \<and> int (length s) \<le> limit \<and> list_all plain s)"
proof (cases "limit < 15")
  case True
  then show ?thesis
    by (simp add: untrusted_inline_within_def truncation_marker_def)
next
  case False
  define tokens where "tokens = inline_tokens False False txt"
  have tokens: "list_all (list_all plain) tokens"
    unfolding tokens_def by (rule inline_tokens_plain)
  have marker: "list_all plain truncation_marker"
    by code_simp
  let ?cut = "rstrip (fitting_tokens (limit - 15) tokens)"
  have "list_all plain ?cut"
    using rstrip_part(1)[of "fitting_tokens (limit - 15) tokens"] fitting_tokens_plain[OF tokens, of "limit - 15"]
    by (auto simp: list_all_iff)
  moreover have "int (length ?cut) \<le> limit - 15"
    using rstrip_part(2)[of "fitting_tokens (limit - 15) tokens"] fitting_tokens_length[of "limit - 15" tokens] False
    by linarith
  ultimately show ?thesis
    using False marker strip_plain[OF concat_plain[OF tokens]]
    by (auto simp: untrusted_inline_within_def Let_def tokens_def[symmetric] truncation_marker_def)
qed

lemma untrusted_inline_fits: "list_all plain (untrusted_inline s) \<and> length (untrusted_inline s) \<le> 500"
  using untrusted_inline_safe[of untrusted_inline_limit s]
  by (auto simp: untrusted_inline_def untrusted_inline_limit_def)

end
