(* ===== verification/Merge_Subject.thy ===== *)
theory Merge_Subject
  imports Prelude
begin

text \<open>
  Model of \<open>src/orchestrator/merge_subject.py\<close>: the subject line of a merge commit and the pattern it
  is read back with. The pattern takes the longest run without white space after its prefix, and
  what follows it must be a separator; no shorter run can be followed by one.
\<close>

definition subject_prefix :: string where
  "subject_prefix = ''Merge agent/''"

definition subject_separator :: string where
  "subject_separator = '' @ ''"

definition merge_subject :: "string \<Rightarrow> string \<Rightarrow> string" where
  "merge_subject task_id verified_sha =
     subject_prefix @ task_id @ subject_separator @ take 12 verified_sha @ '' (verified locally)''"

definition parse_merge_subject :: "string \<Rightarrow> string option" where
  "parse_merge_subject subject =
     (if \<not> prefix subject_prefix subject then None
      else
        (let rest = drop (length subject_prefix) subject;
             task = takeWhile (\<lambda>c. \<not> is_space c) rest
         in if task \<noteq> [] \<and> prefix subject_separator (dropWhile (\<lambda>c. \<not> is_space c) rest)
            then Some task else None))"

text \<open>A task id that a subject can carry.\<close>

definition one_word :: "string \<Rightarrow> bool" where
  "one_word t = (t \<noteq> [] \<and> list_all (\<lambda>c. \<not> is_space c) t)"

lemma takeWhile_word:
  "list_all (\<lambda>c. \<not> is_space c) t \<Longrightarrow> takeWhile (\<lambda>c. \<not> is_space c) (t @ CHR '' '' # r) = t
     \<and> dropWhile (\<lambda>c. \<not> is_space c) (t @ CHR '' '' # r) = CHR '' '' # r"
  by (induction t) (simp_all add: is_space_def)

text \<open>
  The subject of a merge commit is read back to the task that was merged: for every task id
  without white space and every commit, parsing the composed subject gives that id, and two tasks
  never share a subject.
\<close>

theorem merge_subject_roundtrip:
  assumes "one_word t"
  shows "parse_merge_subject (merge_subject t sha) = Some t
    \<and> (one_word u \<longrightarrow> merge_subject u sha' = merge_subject t sha \<longrightarrow> u = t)"
proof -
  have parse: "parse_merge_subject (merge_subject x s) = Some x" if "one_word x" for x s
    using that takeWhile_word[of x "''@ '' @ take 12 s @ '' (verified locally)''"]
    by (simp add: parse_merge_subject_def merge_subject_def subject_prefix_def subject_separator_def one_word_def)
  show ?thesis
    using parse[OF assms] parse[of u] by (metis option.inject)
qed

theorem merge_subject_roundtrip_witness:
  "parse_merge_subject (merge_subject ''fix-7'' ''0123456789abcdef'') = Some ''fix-7''"
  using merge_subject_roundtrip[of "''fix-7''" "''0123456789abcdef''"] by (simp add: one_word_def is_space_def)

end
