(* ===== verification/Merge_Decide.thy ===== *)
theory Merge_Decide
  imports Policy Agents Human_Text
begin

text \<open>
  The decision half of \<open>src/orchestrator/local_merge.py\<close>: what the local gate gathered for one branch,
  the verdict \<open>decide\<close> draws from it, the digest the Director reads and the record of waived
  findings, and the security panel.
\<close>

datatype attestation_state = Passed | Failed | NotApplicable

record artifact_attestation =
  at_state :: attestation_state
  at_detail :: string

definition at_failed :: "artifact_attestation \<Rightarrow> bool" where
  "at_failed a = (at_state a = Failed)"

record gate_results =
  gr_blast :: blast_radius
  gr_attestation :: artifact_attestation
  gr_tests_passed :: bool
  gr_tests_tail :: string
  gr_coverage_ok :: bool
  gr_coverage_detail :: string
  gr_scan_findings :: "string list"
  gr_rw2 :: "verdict option"
  gr_security :: "verdict list"
  gr_sensitive_files :: "string list"
  gr_head_sha :: string
  gr_infra_overridden :: "string list"

datatype hold_kind = KAutoMerge | RiskDecision | Broken | DryRun | Declined

definition kind_text :: "hold_kind \<Rightarrow> string" where
  "kind_text k = (case k of KAutoMerge \<Rightarrow> ''auto_merge'' | RiskDecision \<Rightarrow> ''risk_decision'' | Broken \<Rightarrow> ''broken''
     | DryRun \<Rightarrow> ''dry_run'' | Declined \<Rightarrow> ''declined'')"

text \<open>\<open>decision\<close> is \<open>merge\<close> or \<open>hold\<close>; the flag stands for the former.\<close>

record merge_verdict =
  mv_task :: string
  mv_merged :: bool
  mv_kind :: hold_kind
  mv_reasons :: "string list"
  mv_digest :: string
  mv_advisory :: "string list"

definition hold :: "string \<Rightarrow> hold_kind \<Rightarrow> string list \<Rightarrow> string \<Rightarrow> merge_verdict" where
  "hold task k reasons digest =
     \<lparr>mv_task = task, mv_merged = False, mv_kind = k, mv_reasons = reasons, mv_digest = digest, mv_advisory = []\<rparr>"

definition security_blockers :: "gate_results \<Rightarrow> string list" where
  "security_blockers g = concat (map (\<lambda>v. map fi_summary (blockers v)) (gr_security g))"

definition rw2_blockers :: "gate_results \<Rightarrow> finding list" where
  "rw2_blockers g = (case gr_rw2 g of None \<Rightarrow> [] | Some v \<Rightarrow> blockers v)"

definition l3_reason :: string where
  "l3_reason = ''sensitive surface (L3) - human risk decision required''"

definition blast_text :: "blast_radius \<Rightarrow> string" where
  "blast_text b = (case b of L1 \<Rightarrow> ''L1'' | L2 \<Rightarrow> ''L2'' | L3 \<Rightarrow> ''L3'')"

section \<open>The digest\<close>

definition lf :: string where
  "lf = [CHR 0x0A]"

definition bullet :: "string \<Rightarrow> string" where
  "bullet s = ''- '' @ untrusted_inline s"

definition digest_head :: "string \<Rightarrow> gate_results \<Rightarrow> hold_kind \<Rightarrow> string list" where
  "digest_head task g k =
     [''# Merge hold: '' @ untrusted_inline task @ ''  (blast '' @ blast_text (gr_blast g) @ '', '' @ kind_text k @ '')'', []]"

definition advisory_lines :: "string \<Rightarrow> string list \<Rightarrow> string list" where
  "advisory_lines task advisory =
     [[], ''## Waived judgment-gate findings (--advisory)'', []] @ map bullet advisory @
     [[], ''The deterministic gates passed, but the security panel / rw2'',
      ''flagged the above and they are being WAIVED by --advisory: this'',
      ''is a risk call on a change that is NOT fully verified. The waived'',
      ''findings are recorded durably in merge-advisory.md.'',
      [], ''## Your decision'', [],
      ''Merge `'' @ untrusted_inline task @ ''` into main under --advisory? Type the'',
      ''exact task id to merge; anything else declines - you decide'',
      ''on this summary, not by reading the diff.'', []]"

definition clean_lines :: "string \<Rightarrow> string list" where
  "clean_lines task =
     [[], ''All correctness/security gates passed; this only needs your risk'',
      ''call because it touches a policy-sensitive surface.'',
      [], ''## Your decision'', [],
      ''Merge `'' @ untrusted_inline task @ ''` into main? Type the exact task id to'',
      ''merge; anything else declines - you decide on this summary,'',
      ''not by reading the diff.'', []]"

definition risk_digest :: "string \<Rightarrow> gate_results \<Rightarrow> string list \<Rightarrow> string" where
  "risk_digest task g advisory =
     join lf (digest_head task g RiskDecision @ [''## Sensitive surface touched'', []]
       @ (if gr_sensitive_files g = [] then [''- (sensitive path)'']
          else map (\<lambda>p. ''- `'' @ untrusted_inline p @ ''`'') (gr_sensitive_files g))
       @ (if advisory \<noteq> [] then advisory_lines task advisory else clean_lines task))"

definition infra_lines :: "string list" where
  "infra_lines =
     [''This branch changes the gate's own infrastructure, which the gate'',
      ''restores from trusted main before it runs, so re-running does not clear it:'',
      ''the next run restores the same paths. No gate here can judge the branch's'',
      ''own copy - landing those paths is your call, on a route you trust.'',
      [], ''Any red gate above may be the restore's doing rather than a defect:'',
      ''the suite ran against main's infra, not this branch's.'']"

definition remedy_lines :: "string list" where
  "remedy_lines =
     [''This change is not mergeable as-is. Re-run the task on the VPS to fix'',
      ''the failing gate(s), or address them and push a new revision of the'',
      ''branch.'',
      [], ''Or fix it right here on the trusted machine and re-judge locally:'',
      ''commit the fix ON TOP of this branch with ordinary git, then run'',
      ''`merge-verified.sh <task> --local <ref>` (a sha, branch, or worktree'',
      ''path). --local does not trust the code more - it trusts the route:'',
      ''you are the trusted author and the same applicable gate still judges'',
      ''the diff (the historical VPS artifact attestation is N/A),'',
      ''and the judged sha is the merged sha, so nothing unverified'',
      ''slips in. It is a stopgap until bounce-to-VPS exists (and a'',
      ''legitimate escape hatch after).'']"

definition inline_1500 :: "string \<Rightarrow> string" where
  "inline_1500 s = (case untrusted_inline_within 1500 s of Inr r \<Rightarrow> r | Inl _ \<Rightarrow> [])"

definition broken_digest :: "string \<Rightarrow> gate_results \<Rightarrow> string list \<Rightarrow> string" where
  "broken_digest task g reasons =
     join lf (digest_head task g Broken @ [''## What failed'', []] @ map bullet reasons
       @ (if security_blockers g = [] then []
          else [[], ''## Security panel findings'', []] @ map bullet (security_blockers g))
       @ (if rw2_blockers g = [] then []
          else [[], ''## rw2 findings'', []] @ map (\<lambda>f. bullet (fi_summary f)) (rw2_blockers g))
       @ (if gr_tests_passed g then []
          else [[], ''## Local test failure (tail)'', [], ''```'',
                inline_1500 (drop (length (gr_tests_tail g) - 1500) (gr_tests_tail g)), ''```''])
       @ [[], ''## What is needed'', []]
       @ (if gr_infra_overridden g \<noteq> [] then infra_lines else remedy_lines)
       @ [[], ''`'' @ untrusted_inline task @ ''` is NOT merged and NOT deleted.'', []])"

text \<open>\<open>build_digest\<close> is called with these two kinds only.\<close>

definition build_digest :: "string \<Rightarrow> gate_results \<Rightarrow> hold_kind \<Rightarrow> string list \<Rightarrow> string list \<Rightarrow> string" where
  "build_digest task g k reasons advisory =
     (if k = RiskDecision then risk_digest task g advisory else broken_digest task g reasons)"

section \<open>The decision\<close>

definition comma_join :: "string list \<Rightarrow> string" where
  "comma_join = join '', ''"

definition semi_join :: "string list \<Rightarrow> string" where
  "semi_join = join ''; ''"

definition deterministic_reasons :: "gate_results \<Rightarrow> string list" where
  "deterministic_reasons g =
     (if at_failed (gr_attestation g)
      then [''VPS artifact attestation failed/mismatch: '' @ untrusted_inline (at_detail (gr_attestation g))] else [])
   @ (if \<not> gr_tests_passed g then [''local full test suite is red''] else [])
   @ (if \<not> gr_coverage_ok g then [''diff-coverage below threshold: '' @ untrusted_inline (gr_coverage_detail g)] else [])
   @ (if gr_scan_findings g \<noteq> []
      then [''security scan flagged '' @ str_of_nat (length (gr_scan_findings g)) @ '' item(s): ''
            @ semi_join (map untrusted_inline (take 5 (gr_scan_findings g)))] else [])
   @ (if gr_infra_overridden g \<noteq> []
      then [''gate infra changed by this branch was NOT verified - the gate ran trusted main's copy of: ''
            @ comma_join (map untrusted_inline (gr_infra_overridden g))] else [])"

definition judgment_reasons :: "gate_results \<Rightarrow> string list" where
  "judgment_reasons g =
     (if security_blockers g \<noteq> []
      then [''security panel blocker(s): '' @ semi_join (map untrusted_inline (take 5 (security_blockers g)))] else [])
   @ (if rw2_blockers g \<noteq> []
      then [''rw2 blocker(s): '' @ semi_join (map (\<lambda>f. untrusted_inline (fi_summary f)) (take 5 (rw2_blockers g)))] else [])"

definition decide :: "string \<Rightarrow> gate_results \<Rightarrow> bool \<Rightarrow> merge_verdict" where
  "decide task g advisory_mode =
     (let blocking = deterministic_reasons g @ (if advisory_mode then [] else judgment_reasons g);
          advisory = (if advisory_mode then judgment_reasons g else [])
      in if blocking \<noteq> [] then hold task Broken blocking (build_digest task g Broken blocking [])
         else if gr_blast g = L3
           then (hold task RiskDecision [l3_reason] (build_digest task g RiskDecision [l3_reason] advisory))
                  \<lparr>mv_advisory := advisory\<rparr>
         else \<lparr>mv_task = task, mv_merged = True, mv_kind = KAutoMerge, mv_reasons = [], mv_digest = [],
               mv_advisory = advisory\<rparr>)"

definition render_advisory :: "string \<Rightarrow> string list \<Rightarrow> string" where
  "render_advisory task advisory =
     join lf ([''# Advisory merge: '' @ untrusted_inline task, [],
       ''This branch was merged under `--advisory`. The deterministic gates'',
       ''(VPS artifact attestation when applicable, local test suite,'',
       ''diff-coverage, secret/FS scan, and the infra-override guard) all passed,'',
       ''but the JUDGMENT gates below were'',
       ''WAIVED, not cleared. This is NOT a fully-verified merge: the findings'',
       ''were recorded and the branch merged anyway, for later cleanup.'',
       [], ''## Waived judgment-gate findings (security panel / rw2)'', []]
       @ (if advisory = [] then [''- (none recorded)''] else map bullet advisory) @ [[]])"

section \<open>The security panel\<close>

definition abstention_blocker :: "string \<Rightarrow> string \<Rightarrow> verdict" where
  "abstention_blocker member_name reason =
     (let detail0 = strip reason;
          detail = (if length detail0 > 300 then take 300 detail0 @ ''...'' else detail0)
      in \<lparr>v_verdict = ''CHANGES_REQUESTED'', v_risk_level = ''high'', v_files_reviewed = [], v_claims = [],
          v_findings =
            [\<lparr>fi_severity = ''blocker'', fi_category = ''security'', fi_file = [], fi_line = 0,
              fi_summary = ''security panel member '' @ repr_str member_name
                @ '' did not return a valid verdict; holding for human review''
                @ (if detail \<noteq> [] then '' - '' @ detail else []),
              fi_scenario = ''unreviewed change on a security-relevant path''\<rparr>],
          v_test_assessment = [], v_residual_risks = []\<rparr>)"

text \<open>The members are run in order; a request that fails for good is replaced by a blocker.\<close>

definition panel_member :: "json_lib \<Rightarrow> string \<times> 's runner \<Rightarrow> string \<Rightarrow> (verdict \<Rightarrow> exn + unit) option \<Rightarrow> ('s, verdict) prog" where
  "panel_member J m prompt validate =
     catchP (bindP (request_verdict J (snd m) prompt None 2 validate) (\<lambda>(v, _). retP v))
       (\<lambda>e. case e of VerdictError msg \<Rightarrow> retP (abstention_blocker (fst m) msg) | _ \<Rightarrow> throwP e)"

primrec run_security_panel :: "json_lib \<Rightarrow> (string \<times> 's runner) list \<Rightarrow> string \<Rightarrow> ('s, verdict list) prog" where
  "run_security_panel J [] prompt = retP []"
| "run_security_panel J (m # ms) prompt =
     bindP (panel_member J m prompt None) (\<lambda>v. bindP (run_security_panel J ms prompt) (\<lambda>vs. retP (v # vs)))"

section \<open>Properties of the decision\<close>

definition deterministic_green :: "gate_results \<Rightarrow> bool" where
  "deterministic_green g \<longleftrightarrow> at_state (gr_attestation g) \<noteq> Failed \<and> gr_tests_passed g \<and> gr_coverage_ok g
     \<and> gr_scan_findings g = [] \<and> gr_infra_overridden g = []"

definition judgment_green :: "gate_results \<Rightarrow> bool" where
  "judgment_green g \<longleftrightarrow> (\<forall>v\<in>set (gr_security g). blockers v = []) \<and> (\<forall>v. gr_rw2 g = Some v \<longrightarrow> blockers v = [])"

lemma deterministic_reasons_empty: "deterministic_reasons g = [] \<longleftrightarrow> deterministic_green g"
  by (auto simp: deterministic_reasons_def deterministic_green_def at_failed_def)

lemma security_blockers_empty: "security_blockers g = [] \<longleftrightarrow> (\<forall>v\<in>set (gr_security g). blockers v = [])"
  by (simp add: security_blockers_def)

lemma judgment_reasons_empty: "judgment_reasons g = [] \<longleftrightarrow> judgment_green g"
  by (auto simp: judgment_reasons_def judgment_green_def security_blockers_empty rw2_blockers_def split: option.split)

lemma decide_keeps_deterministic:
  "(mv_merged (decide t g adv) \<longleftrightarrow> deterministic_green g \<and> (adv \<or> judgment_green g) \<and> gr_blast g \<noteq> L3)
   \<and> (mv_kind (decide t g adv) = RiskDecision \<longleftrightarrow> deterministic_green g \<and> (adv \<or> judgment_green g) \<and> gr_blast g = L3)
   \<and> (mv_kind (decide t g adv) = Broken \<longleftrightarrow> \<not> (deterministic_green g \<and> (adv \<or> judgment_green g)))
   \<and> (mv_advisory (decide t g adv) \<noteq> [] \<longleftrightarrow> deterministic_green g \<and> adv \<and> \<not> judgment_green g)
   \<and> mv_task (decide t g adv) = t"
  by (auto simp: decide_def hold_def Let_def deterministic_reasons_empty judgment_reasons_empty)

text \<open>
  C16: The advisory switch waives judgment only: a branch is merged or offered for the risk decision
  exactly when every deterministic gate is green and, unless the switch is on, no reviewer raised a
  blocker; a sensitive diff is never merged but only offered; and with the switch on, the waived
  findings travel on the verdict exactly when there are any.
\<close>

theorem decide_never_waives_deterministic:
  "(mv_merged (decide t g adv) \<longleftrightarrow> deterministic_green g \<and> (adv \<or> judgment_green g) \<and> gr_blast g \<noteq> L3)
   \<and> (mv_kind (decide t g adv) = RiskDecision \<longleftrightarrow> deterministic_green g \<and> (adv \<or> judgment_green g) \<and> gr_blast g = L3)
   \<and> (mv_kind (decide t g adv) = Broken \<longleftrightarrow> \<not> (deterministic_green g \<and> (adv \<or> judgment_green g)))
   \<and> (mv_advisory (decide t g adv) \<noteq> [] \<longleftrightarrow> deterministic_green g \<and> adv \<and> \<not> judgment_green g)
   \<and> mv_task (decide t g adv) = t"
  by (rule decide_keeps_deterministic)

lemma abstention_blocks: "blockers (abstention_blocker m r) \<noteq> []"
  by (simp add: abstention_blocker_def blockers_def Let_def strip_def lstrip_def rstrip_def is_space_def)

text \<open>The vote of one member: the verdict its request returned, or a blocker.\<close>

definition vote :: "json_lib \<Rightarrow> string \<Rightarrow> string \<times> 's runner \<Rightarrow> verdict \<Rightarrow> bool" where
  "vote J prompt m v \<longleftrightarrow> (\<exists>t u. request_verdict J (snd m) prompt None 2 None t = u
     \<and> (case fst u of Inr (v', _) \<Rightarrow> v = v'
        | Inl e \<Rightarrow> (\<exists>msg. e = VerdictError msg) \<and> blockers v \<noteq> []))"

lemma panel_member_vote: "panel_member J m prompt None s = (Inr v, s') \<Longrightarrow> vote J prompt m v"
  using abstention_blocks unfolding vote_def panel_member_def catchP_def bindP_def retP_def throwP_def
  by (intro exI[of _ s]) (auto split: prod.splits sum.splits exn.splits)

text \<open>
  An absent reviewer is never a pass: each member of the panel contributes exactly one verdict, in
  order, which is the one its request returned, or, when the request failed for good, one with a
  blocker; a gate result built from a panel with such a member is not judgment-green.
\<close>

theorem panel_abstention_blocks:
  assumes "run_security_panel J ms prompt s = (Inr vs, s')"
  shows "list_all2 (vote J prompt) ms vs
    \<and> (gr_security g = vs \<longrightarrow> judgment_green g \<longrightarrow>
         list_all2 (\<lambda>m v. \<exists>t r u. request_verdict J (snd m) prompt None 2 None t = (Inr (v, r), u)) ms vs)"
proof -
  have votes: "list_all2 (vote J prompt) ms vs"
    using assms
  proof (induction ms arbitrary: s vs)
    case (Cons m ms)
    then show ?case
      by (cases m) (auto simp: bindP_Inr_iff retP_def intro: panel_member_vote)
  qed (simp add: retP_def)
  have ok: "\<exists>t r u. request_verdict J (snd m) prompt None 2 None t = (Inr (v, r), u)"
    if "vote J prompt m v" "blockers v = []" for m v
    using that unfolding vote_def by (fastforce split: sum.splits prod.splits)
  have "list_all2 (\<lambda>m v. \<exists>t r u. request_verdict J (snd m) prompt None 2 None t = (Inr (v, r), u)) ms vs"
    if "gr_security g = vs" "judgment_green g"
  proof (rule list_all2I)
    show "length ms = length vs" using votes by (rule list_all2_lengthD)
    show "\<forall>x\<in>set (zip ms vs). case x of (m, v) \<Rightarrow>
        \<exists>t r u. request_verdict J (snd m) prompt None 2 None t = (Inr (v, r), u)"
    proof
      fix x assume x: "x \<in> set (zip ms vs)"
      obtain m v where mv: "x = (m, v)" by (cases x)
      have "vote J prompt m v"
        using votes x mv by (auto simp: list_all2_iff)
      moreover have "blockers v = []"
        using that set_zip_rightD[of m v ms vs] x mv by (auto simp: judgment_green_def)
      ultimately show "case x of (m, v) \<Rightarrow> \<exists>t r u. request_verdict J (snd m) prompt None 2 None t = (Inr (v, r), u)"
        using ok mv by simp
    qed
  qed
  then show ?thesis
    using votes by blast
qed

definition demo_member :: "string \<times> unit runner" where
  "demo_member = (''codex'', \<lambda>_ _ s. (Inr \<lparr>ar_text = ''{2} then {1} end'', ar_session = None, ar_exit = ''ok'',
     ar_rc = 0, ar_reset_at = None\<rparr>, s))"

theorem panel_abstention_blocks_witness:
  "run_security_panel demo_lib [demo_member] [] () = (Inr [demo_verdict], ())
   \<and> list_all2 (vote demo_lib []) [demo_member] [demo_verdict]"
proof -
  have "run_security_panel demo_lib [demo_member] [] () = (Inr [demo_verdict], ())"
    by (simp add: demo_member_def panel_member_def catchP_def bindP_def request_verdict_def request_payload_def
        demo_parse retP_def Let_def res_simps numeral_2_eq_2)
  then show ?thesis
    using panel_abstention_blocks[of demo_lib "[demo_member]" "[]" "()" "[demo_verdict]" "()"] by simp
qed

end
