(* ===== verification/Merge_Engine.thy ===== *)
theory Merge_Engine
  imports Merge_Decide
begin

text \<open>
  The engine of \<open>src/orchestrator/local_merge.py\<close>: it judges every ready branch, asks for the
  confirmation of each merge and integrates what was confirmed. The collaborators it is built from
  are programs over one state; an engine run is a program over it.
\<close>

record merge_request =
  rq_task :: string
  rq_sha :: string
  rq_advisory :: "string list"

record 's merge_engine =
  me_ready :: "('s, string list) prog"
  me_verify :: "string \<Rightarrow> ('s, gate_results) prog"
  me_merge :: "merge_request \<Rightarrow> ('s, bool) prog"
  me_report :: "merge_verdict \<Rightarrow> ('s, unit) prog"
  me_confirm :: "merge_verdict \<Rightarrow> ('s, bool) prog"
  me_dry_run :: bool
  me_advisory :: bool
  me_repr :: "exn \<Rightarrow> string"

definition engine_failure_verdict :: "string \<Rightarrow> string \<Rightarrow> merge_verdict" where
  "engine_failure_verdict task exc_repr =
     (let safe_exc = untrusted_inline exc_repr; safe_task = untrusted_inline task in
      hold task Broken [''engine failure while processing this task: '' @ safe_exc]
        (''# Merge hold: '' @ safe_task @ ''  (broken - engine failure)'' @ lf @ lf @
         ''## What failed'' @ lf @ lf @ ''- '' @ safe_exc @ lf @ lf @
         ''The merge ENGINE failed while processing this task - an engine-side'' @ lf @
         ''error (e.g. a malformed committed artifact), NOT a policy stop and'' @ lf @
         ''NOT a gate verdict on the change: no gate result exists for it.'' @ lf @ lf @
         ''## What is needed'' @ lf @ lf @
         ''Inspect the error above and the branch's committed artifacts; push a'' @ lf @
         ''fixed revision of the branch (or fix the engine defect) and re-run.'' @ lf @
         ''The other ready tasks were processed normally.'' @ lf @ lf @
         ''`'' @ safe_task @ ''` is NOT merged and NOT deleted.'' @ lf))"

definition declined_verdict :: "string \<Rightarrow> merge_verdict" where
  "declined_verdict task =
     hold task Declined [''merge not confirmed (the exact task id was not typed); nothing merged'']
       (''# Merge hold: '' @ untrusted_inline task @ '' (not confirmed)'' @ lf @ lf @
        ''The merge-safety confirmation declined this merge: the exact'' @ lf @
        ''task id was not typed. Nothing was merged and no state was'' @ lf @
        ''changed; the branch stays ready. Re-run merge-verified.sh to'' @ lf @ ''be asked again.'' @ lf)"

definition dry_run_verdict :: "string \<Rightarrow> string list \<Rightarrow> merge_verdict" where
  "dry_run_verdict task advisory =
     (if advisory \<noteq> []
      then (hold task DryRun
             (''would merge under --advisory (dry run: --no-input, nothing changed); judgment gates WOULD be waived:'' # advisory)
             (''# Dry run (--advisory): '' @ untrusted_inline task @ lf @ lf @
              ''Would merge into local main under --advisory, WAIVING the '' @
              ''judgment-gate findings below and recording them in '' @
              ''merge-advisory.md. This is NOT a fully-verified merge.'' @ lf @ lf @
              ''## Judgment-gate findings that WOULD be waived'' @ lf @ lf @
              join lf (map (\<lambda>r. ''- '' @ r) advisory) @ lf @ lf @ ''Re-run without --no-input to apply.'' @ lf))
             \<lparr>mv_advisory := advisory\<rparr>
      else hold task DryRun [''would auto-merge (dry run: --no-input, nothing changed)'']
             (''# Dry run: '' @ untrusted_inline task @ lf @ lf @
              ''Would auto-merge into local main; re-run without --no-input to apply.'' @ lf))"

definition conflict_verdict :: "string \<Rightarrow> merge_verdict" where
  "conflict_verdict task =
     hold task Broken [''branch no longer applies cleanly to main after a prior merge; re-run the task'']
       (''# Merge hold: '' @ untrusted_inline task @ lf @ lf @
        ''Branch no longer applies cleanly to main. Re-run the task on the VPS.'' @ lf)"

definition unprepared_verdict :: "string \<Rightarrow> gate_results \<Rightarrow> string \<Rightarrow> merge_verdict" where
  "unprepared_verdict task g msg =
     (let reasons = [''merge preparation failed before commit; nothing landed: '' @ untrusted_inline msg]
      in hold task Broken reasons (build_digest task g Broken reasons []))"

text \<open>The confirmation: the risk decision turns into a merge, an unconfirmed merge is declined.\<close>

definition confirmed :: "'s merge_engine \<Rightarrow> string \<Rightarrow> merge_verdict \<Rightarrow> ('s, merge_verdict) prog" where
  "confirmed e task v =
     (if \<not> mv_merged v \<and> mv_kind v = RiskDecision then
        bindP (me_confirm e v) (\<lambda>yes. retP (if yes then v\<lparr>mv_merged := True\<rparr> else v))
      else if mv_merged v \<and> \<not> me_dry_run e then
        bindP (me_confirm e v) (\<lambda>yes. retP (if yes then v else declined_verdict task))
      else retP v)"

definition integrate :: "'s merge_engine \<Rightarrow> string \<Rightarrow> gate_results \<Rightarrow> merge_verdict \<Rightarrow> ('s, merge_verdict) prog" where
  "integrate e task g v =
     catchP (bindP (me_merge e \<lparr>rq_task = task, rq_sha = gr_head_sha g, rq_advisory = mv_advisory v\<rparr>)
              (\<lambda>landed. retP (if landed then v else conflict_verdict task)))
       (\<lambda>x. case x of MergePreparationError msg \<Rightarrow> retP (unprepared_verdict task g msg) | _ \<Rightarrow> throwP x)"

definition judge_one :: "'s merge_engine \<Rightarrow> string \<Rightarrow> ('s, merge_verdict) prog" where
  "judge_one e task =
     bindP (me_verify e task) (\<lambda>g.
     bindP (confirmed e task (decide task g (me_advisory e))) (\<lambda>v.
       let v' = (if mv_merged v \<and> me_dry_run e then dry_run_verdict task (mv_advisory v) else v)
       in if mv_merged v' then integrate e task g v' else retP v'))"

primrec judge_all :: "'s merge_engine \<Rightarrow> string list \<Rightarrow> ('s, merge_verdict list) prog" where
  "judge_all e [] = retP []"
| "judge_all e (t # ts) =
     bindP (catchP (judge_one e t) (\<lambda>x. retP (engine_failure_verdict t (me_repr e x)))) (\<lambda>v.
       thenP (me_report e v) (bindP (judge_all e ts) (\<lambda>vs. retP (v # vs))))"

definition engine_run :: "'s merge_engine \<Rightarrow> ('s, merge_verdict list) prog" where
  "engine_run e = bindP (me_ready e) (judge_all e)"

section \<open>Nothing merges unconfirmed\<close>

lemma keeps_bind: "keepsP I m \<Longrightarrow> (\<And>a. keepsP I (f a)) \<Longrightarrow> keepsP I (bindP m f)"
  by (rule validP_bind[where R = "\<lambda>_. I"])

lemma keeps_catch: "keepsP I m \<Longrightarrow> (\<And>x. keepsP I (h x)) \<Longrightarrow> keepsP I (catchP m h)"
  by (rule validP_catch[where R = "\<lambda>_. I"])

lemma keeps_ret: "keepsP I (retP a)"
  by (rule validP_ret)

text \<open>A confirmation that never says yes.\<close>

definition never_confirms :: "'s merge_engine \<Rightarrow> bool" where
  "never_confirms e = (\<forall>v s. fst (me_confirm e v s) \<noteq> Inr True)"

lemma declined_not_merged [simp]: "\<not> mv_merged (declined_verdict t)" "\<not> mv_merged (dry_run_verdict t a)"
  "\<not> mv_merged (conflict_verdict t)" "\<not> mv_merged (unprepared_verdict t g m)" "\<not> mv_merged (engine_failure_verdict t r)"
  "\<not> mv_merged (hold t k rs d)"
  by (simp_all add: declined_verdict_def dry_run_verdict_def conflict_verdict_def unprepared_verdict_def
      engine_failure_verdict_def hold_def Let_def)

lemma verdict_task [simp]: "mv_task (declined_verdict t) = t" "mv_task (dry_run_verdict t a) = t"
  "mv_task (conflict_verdict t) = t" "mv_task (unprepared_verdict t g m) = t" "mv_task (engine_failure_verdict t r) = t"
  "mv_task (decide t g adv) = t"
  by (simp_all add: declined_verdict_def dry_run_verdict_def conflict_verdict_def unprepared_verdict_def
      engine_failure_verdict_def hold_def Let_def decide_def)

lemma confirmed_keeps:
  assumes "\<And>v. keepsP I (me_confirm e v)"
  shows "validP I (confirmed e t v) (\<lambda>v' s. I s \<and> (me_dry_run e \<or> never_confirms e \<longrightarrow> mv_merged v' \<longrightarrow> me_dry_run e)) (\<lambda>_. I)"
proof (rule validPI)
  fix s x t'
  assume "I s" "confirmed e t v s = (Inl x, t')"
  then show "I t'"
    using assms unfolding confirmed_def by (auto simp: bindP_Inl_iff retP_def split: if_splits dest: validP_Inl)
next
  fix s v' t'
  assume s: "I s" "confirmed e t v s = (Inr v', t')"
  then have "I t'"
    using assms unfolding confirmed_def by (auto simp: bindP_Inr_iff retP_def split: if_splits dest: validP_Inr)
  moreover have "me_dry_run e" if "never_confirms e" "mv_merged v'"
  proof (rule ccontr)
    assume "\<not> me_dry_run e"
    then show False
      using s(2) that unfolding confirmed_def never_confirms_def
      by (auto simp: bindP_Inr_iff retP_def split: if_splits) (metis fst_conv)+
  qed
  ultimately show "I t' \<and> (me_dry_run e \<or> never_confirms e \<longrightarrow> mv_merged v' \<longrightarrow> me_dry_run e)"
    by blast
qed

lemma judge_one_keeps:
  assumes "me_dry_run e \<or> never_confirms e"
    and "\<And>t. keepsP I (me_verify e t)" "\<And>v. keepsP I (me_confirm e v)"
  shows "keepsP I (judge_one e t)"
  unfolding judge_one_def
proof (rule keeps_bind[OF assms(2)])
  fix g
  show "keepsP I (bindP (confirmed e t (decide t g (me_advisory e))) (\<lambda>v.
       let v' = (if mv_merged v \<and> me_dry_run e then dry_run_verdict t (mv_advisory v) else v)
       in if mv_merged v' then integrate e t g v' else retP v'))"
  proof (rule validP_bind[OF confirmed_keeps[OF assms(3)]])
    fix v
    show "validP (\<lambda>s. I s \<and> (me_dry_run e \<or> never_confirms e \<longrightarrow> mv_merged v \<longrightarrow> me_dry_run e))
       (let v' = (if mv_merged v \<and> me_dry_run e then dry_run_verdict t (mv_advisory v) else v)
        in if mv_merged v' then integrate e t g v' else retP v') (\<lambda>_. I) (\<lambda>_. I)"
      using assms(1) by (auto simp: Let_def validP_def retP_def)
  qed
qed

lemma judge_unconfirmed_keeps:
  assumes "me_dry_run e \<or> never_confirms e"
    and "keepsP I (me_ready e)" "\<And>t. keepsP I (me_verify e t)" "\<And>v. keepsP I (me_report e v)"
    and "\<And>v. keepsP I (me_confirm e v)"
  shows "keepsP I (engine_run e)"
proof -
  have "keepsP I (judge_all e ts)" for ts
  proof (induction ts)
    case (Cons t ts)
    then show ?case
      unfolding judge_all.simps thenP_def
      by (intro keeps_bind keeps_catch keeps_ret judge_one_keeps assms)
  qed (simp add: keeps_ret)
  then show ?thesis
    unfolding engine_run_def by (intro keeps_bind assms)
qed

text \<open>
  Nothing reaches local main unconfirmed: in a dry run, and whenever the confirmation never says
  yes, a whole batch never executes the merge operation. Every property of the state that the other
  collaborators keep is kept by the run, whatever the merge operation would have done to it.
\<close>

theorem no_merge_unconfirmed:
  assumes "me_dry_run e \<or> never_confirms e"
    and "keepsP I (me_ready e)" "\<And>t. keepsP I (me_verify e t)" "\<And>v. keepsP I (me_report e v)"
    and "\<And>v. keepsP I (me_confirm e v)"
  shows "keepsP I (engine_run e)"
  by (rule judge_unconfirmed_keeps[OF assms])

section \<open>What a merged verdict means\<close>

lemma integrate_merged:
  assumes "integrate e t g v s = (Inr v', s')" "mv_merged v'"
  shows "v' = v \<and> me_merge e \<lparr>rq_task = t, rq_sha = gr_head_sha g, rq_advisory = mv_advisory v\<rparr> s = (Inr True, s')"
proof -
  obtain r u where m: "me_merge e \<lparr>rq_task = t, rq_sha = gr_head_sha g, rq_advisory = mv_advisory v\<rparr> s = (r, u)"
    by (cases "me_merge e \<lparr>rq_task = t, rq_sha = gr_head_sha g, rq_advisory = mv_advisory v\<rparr> s")
  then show ?thesis
    using assms by (cases r) (auto simp: integrate_def catchP_def bindP_def retP_def throwP_def split: if_splits exn.splits)
qed

lemma confirmed_merged:
  assumes "confirmed e t v s = (Inr v', s')" "mv_merged v'" "\<not> me_dry_run e"
  shows "\<exists>v0. me_confirm e v s = (Inr True, s') \<and> v' = v\<lparr>mv_merged := True\<rparr> \<and> (mv_merged v \<or> mv_kind v = RiskDecision) \<and> v0 = v"
  using assms unfolding confirmed_def by (auto simp: bindP_Inr_iff retP_def split: if_splits)

lemma merged_verified:
  assumes "judge_one e t s = (Inr v, s')" "mv_merged v"
  shows "\<not> me_dry_run e \<and> mv_task v = t \<and> (\<exists>g s1 s2. me_verify e t s = (Inr g, s1)
     \<and> deterministic_green g \<and> (me_advisory e \<or> judgment_green g)
     \<and> me_confirm e (decide t g (me_advisory e)) s1 = (Inr True, s2)
     \<and> me_merge e \<lparr>rq_task = t, rq_sha = gr_head_sha g,
         rq_advisory = (if me_advisory e then judgment_reasons g else [])\<rparr> s2 = (Inr True, s'))"
proof -
  obtain g s1 where g: "me_verify e t s = (Inr g, s1)"
    and rest: "bindP (confirmed e t (decide t g (me_advisory e))) (\<lambda>v.
       let v' = (if mv_merged v \<and> me_dry_run e then dry_run_verdict t (mv_advisory v) else v)
       in if mv_merged v' then integrate e t g v' else retP v') s1 = (Inr v, s')"
    using assms(1) unfolding judge_one_def bindP_Inr_iff by blast
  then obtain v1 s2 where c: "confirmed e t (decide t g (me_advisory e)) s1 = (Inr v1, s2)"
    and go: "(let v' = (if mv_merged v1 \<and> me_dry_run e then dry_run_verdict t (mv_advisory v1) else v1)
       in if mv_merged v' then integrate e t g v' else retP v') s2 = (Inr v, s')"
    unfolding bindP_Inr_iff by blast
  have live: "\<not> me_dry_run e" "mv_merged v1"
    using go assms(2) by (auto simp: Let_def retP_def split: if_splits)
  then have "integrate e t g v1 s2 = (Inr v, s')"
    using go by (simp add: Let_def)
  note merged = integrate_merged[OF this assms(2)]
  let ?d = "decide t g (me_advisory e)"
  have conf: "me_confirm e ?d s1 = (Inr True, s2)" "v1 = ?d\<lparr>mv_merged := True\<rparr>" "mv_merged ?d \<or> mv_kind ?d = RiskDecision"
    using confirmed_merged[OF c live(2,1)] by auto
  have green: "deterministic_green g" "me_advisory e \<or> judgment_green g"
    using conf(3) decide_keeps_deterministic[of t g "me_advisory e"] by auto
  have "mv_advisory ?d = (if me_advisory e then judgment_reasons g else [])"
    using green by (auto simp: decide_def Let_def hold_def deterministic_reasons_empty judgment_reasons_empty)
  then show ?thesis
    using live g conf merged green by auto
qed

text \<open>
  C17: A merge is exactly what was verified and confirmed: when judging a branch ends merged, then this
  was no dry run, the gates were gathered, every deterministic gate was green (and the reviewers too,
  unless the advisory switch is on), the Director confirmed the verdict of this very task, and the
  commit handed to the merge is the one the gates pinned, with the waived findings.
\<close>

theorem merged_means_verified:
  assumes "judge_one e t s = (Inr v, s')" "mv_merged v"
  shows "\<not> me_dry_run e \<and> mv_task v = t \<and> (\<exists>g s1 s2. me_verify e t s = (Inr g, s1)
     \<and> deterministic_green g \<and> (me_advisory e \<or> judgment_green g)
     \<and> me_confirm e (decide t g (me_advisory e)) s1 = (Inr True, s2)
     \<and> me_merge e \<lparr>rq_task = t, rq_sha = gr_head_sha g,
         rq_advisory = (if me_advisory e then judgment_reasons g else [])\<rparr> s2 = (Inr True, s'))"
  by (rule merged_verified[OF assms])

text \<open>
  One bad branch never stops the batch: when the ready list was read and every verdict could be
  reported, the run returns one verdict per ready branch, in order and for that branch, whatever
  exceptions judging any of them raised.
\<close>

theorem batch_isolation:
  assumes "me_ready e s = (Inr tasks, s1)" "\<And>v t. \<exists>u. me_report e v t = (Inr (), u)"
  shows "\<exists>vs s'. engine_run e s = (Inr vs, s') \<and> map mv_task vs = tasks"
proof -
  have judged: "mv_task v = t" if "judge_one e t u = (Inr v, u')" for t u v u'
  proof (cases "mv_merged v")
    case True
    then show ?thesis using merged_verified[OF that] by blast
  next
    case False
    from that show ?thesis
      by (auto simp: judge_one_def bindP_Inr_iff Let_def retP_def confirmed_def integrate_def catchP_def throwP_def bindP_def
          split: if_splits prod.splits sum.splits exn.splits)
  qed
  have "\<exists>vs u. judge_all e ts s1 = (Inr vs, u) \<and> map mv_task vs = ts" for ts s1
  proof (induction ts arbitrary: s1)
    case (Cons t ts)
    obtain r u where r: "judge_one e t s1 = (r, u)"
      by (cases "judge_one e t s1")
    define v where "v = (case r of Inr v \<Rightarrow> v | Inl x \<Rightarrow> engine_failure_verdict t (me_repr e x))"
    have v: "catchP (judge_one e t) (\<lambda>x. retP (engine_failure_verdict t (me_repr e x))) s1 = (Inr v, u)" "mv_task v = t"
      using r judged[of t s1 _ u] by (cases r; simp add: v_def catchP_def retP_def)+
    obtain u1 where u1: "me_report e v u = (Inr (), u1)"
      using assms(2) by blast
    obtain vs u2 where "judge_all e ts u1 = (Inr vs, u2)" "map mv_task vs = ts"
      using Cons.IH by blast
    then show ?case
      using v u1 by (simp add: thenP_def bindP_def retP_def)
  qed (simp add: retP_def)
  then show ?thesis
    using assms(1) by (simp add: engine_run_def bindP_def)
qed

section \<open>The typed confirmation\<close>

definition interactive_confirm :: "string \<Rightarrow> merge_verdict \<Rightarrow> bool" where
  "interactive_confirm typed v = (strip typed = mv_task v)"

section \<open>A concrete engine\<close>

text \<open>Its state is the list of the commits merged so far.\<close>

definition green_results :: gate_results where
  "green_results = \<lparr>gr_blast = L2, gr_attestation = \<lparr>at_state = Passed, at_detail = []\<rparr>, gr_tests_passed = True,
     gr_tests_tail = [], gr_coverage_ok = True, gr_coverage_detail = [], gr_scan_findings = [], gr_rw2 = None,
     gr_security = [], gr_sensitive_files = [], gr_head_sha = ''sha1'', gr_infra_overridden = []\<rparr>"

definition demo_engine :: "bool \<Rightarrow> string list merge_engine" where
  "demo_engine dry = \<lparr>me_ready = retP [''t1''],
     me_verify = (\<lambda>t. if t = ''t1'' then retP green_results else throwP ValueError),
     me_merge = (\<lambda>rq s. (Inr True, s @ [rq_sha rq])), me_report = (\<lambda>_. retP ()),
     me_confirm = (\<lambda>v. retP (interactive_confirm ''t1'' v)), me_dry_run = dry, me_advisory = False,
     me_repr = (\<lambda>_. [])\<rparr>"

lemma demo_judged: "\<exists>v. judge_one (demo_engine False) ''t1'' [] = (Inr v, [''sha1'']) \<and> mv_merged v"
proof -
  have "mv_merged (decide ''t1'' green_results False)"
    using decide_keeps_deterministic[of "''t1''" green_results False]
    by (simp add: green_results_def deterministic_green_def judgment_green_def)
  then show ?thesis
    by (simp add: judge_one_def demo_engine_def bindP_def retP_def confirmed_def interactive_confirm_def strip_def
        lstrip_def rstrip_def is_space_def integrate_def catchP_def) (simp add: green_results_def)
qed

theorem no_merge_unconfirmed_witness: "keepsP (\<lambda>merged. merged = []) (engine_run (demo_engine True))"
proof (rule no_merge_unconfirmed)
  show "me_dry_run (demo_engine True) \<or> never_confirms (demo_engine True)"
    by (simp add: demo_engine_def)
qed (auto simp: demo_engine_def validP_def retP_def throwP_def)

theorem merged_means_verified_witness:
  "\<exists>v. judge_one (demo_engine False) ''t1'' [] = (Inr v, [''sha1'']) \<and> mv_task v = ''t1''
     \<and> deterministic_green green_results"
proof -
  obtain v where v: "judge_one (demo_engine False) ''t1'' [] = (Inr v, [''sha1''])" "mv_merged v"
    using demo_judged by blast
  show ?thesis
    using v merged_means_verified[OF v] by (auto simp: demo_engine_def retP_def)
qed

theorem batch_isolation_witness:
  "\<exists>vs s'. engine_run ((demo_engine False)\<lparr>me_ready := retP [''bad'', ''t1'']\<rparr>) [] = (Inr vs, s')
     \<and> map mv_task vs = [''bad'', ''t1'']"
  by (rule batch_isolation[of _ _ _ "[]"]) (simp_all add: demo_engine_def retP_def)

end
