(* ===== verification/Merge_Check.thy ===== *)
theory Merge_Check
  imports Loop_Derive Merge_Decide
begin

text \<open>
  Model of \<open>src/orchestrator/merge_check.py\<close> and \<open>merge_check_local.py\<close>: the recomputation of the merge
  decision from the tree of the branch under judgment. The tree is given by what reading it yields;
  reading may raise.
\<close>

record merge_tree =
  tr_json :: "string \<Rightarrow> exn + json"
  tr_text :: "string \<Rightarrow> exn + string option"
  tr_log :: "exn + entry list"
  tr_spec :: "exn + string"
  tr_file :: "string \<Rightarrow> exn + string"
  tr_changed :: "exn + string list"
  tr_statuses :: "exn + (string \<times> string) list"
  tr_lines :: "exn + int"
  tr_code_sha :: "exn + string"
  tr_base_policy :: "exn + target_policy"
  tr_sha256 :: "string \<Rightarrow> string"
  tr_repr :: "exn \<Rightarrow> string"
  tr_str :: "exn \<Rightarrow> string"
  tr_spec_error :: "spec_error \<Rightarrow> string"

text \<open>
  The typed views of the committed artifacts: \<open>None\<close> when the payload is no object; a field that is
  not text counts as absent.
\<close>

definition committed_decision :: "json \<Rightarrow> string option option" where
  "committed_decision payload = (case payload of JObj e \<Rightarrow> Some (as_str (dget e ''decision'')) | _ \<Rightarrow> None)"

definition committed_state :: "json \<Rightarrow> string option option" where
  "committed_state payload = (case payload of JObj e \<Rightarrow> Some (as_str (dget e ''head_sha'')) | _ \<Rightarrow> None)"

definition sensitive_reason :: "string \<Rightarrow> bool" where
  "sensitive_reason r = (prefix ''policy_sensitive_paths'' r \<or> prefix ''security_auth_paths'' r)"

definition leaking_stop_reasons :: "string list \<Rightarrow> string list" where
  "leaking_stop_reasons reasons =
     (let sensitive_present = list_ex sensitive_reason reasons in
      filter (\<lambda>r. \<not> sensitive_reason r \<and> \<not> (r = ''high_risk'' \<and> sensitive_present)) reasons)"

definition decision_name :: "decision \<Rightarrow> string" where
  "decision_name d = (case d of AutoMerge \<Rightarrow> ''auto_merge'' | AutoMergeNotify \<Rightarrow> ''auto_merge_notify''
     | StopBeforeMerge \<Rightarrow> ''stop_before_merge'')"

definition none_text :: "string option \<Rightarrow> string" where
  "none_text s = (case s of None \<Rightarrow> ''None'' | Some t \<Rightarrow> t)"

definition reason_list :: "string list \<Rightarrow> string" where
  "reason_list rs = py_repr (JArr (map JStr rs))"

text \<open>\<open>parse_spec\<close>: reading errors raise as they are, a malformed spec raises \<open>SpecError\<close>.\<close>

definition spec_of :: "merge_tree \<Rightarrow> exn + task_spec" where
  "spec_of t = bindR (tr_spec t) (\<lambda>text.
     case parse_spec_text text of Inl _ \<Rightarrow> Inl SpecError | Inr s \<Rightarrow> Inr s)"

definition verify_confirmed :: "merge_tree \<Rightarrow> exn + bool" where
  "verify_confirmed t =
     bindR (tr_text t ''report.md'') (\<lambda>rep. bindR (tr_text t ''findings.json'') (\<lambda>fnd.
     bindR (tr_log t) (\<lambda>entries. Inr (report_verify_confirmed (tr_sha256 t) rep fnd entries))))"

definition declared_of :: "merge_tree \<Rightarrow> exn + risk" where
  "declared_of t =
     bindR (tr_json t ''reviewer-a-verdict.json'') (\<lambda>v1. bindR (tr_json t ''reviewer-b-verdict.json'') (\<lambda>v2.
       Inr (declared_risk_from_verdicts v1 v2)))"

definition deadlocked :: "entry list \<Rightarrow> bool" where
  "deadlocked entries = list_ex (\<lambda>e. has_action ''senior'' e \<and> has_outcome ''deadlock'' e) entries"

definition recompute_report :: "merge_tree \<Rightarrow> string \<Rightarrow> string list \<Rightarrow> exn + merge_decision_rec" where
  "recompute_report t task changed =
     bindR (verify_confirmed t) (\<lambda>ok. bindR (nondraft_report_specs task changed (tr_file t)) (\<lambda>nd.
       Inr (report_only_decision task changed ok nd)))"

definition recompute_code :: "merge_tree \<Rightarrow> string list \<Rightarrow> string \<Rightarrow> exn + merge_decision_rec" where
  "recompute_code t changed sha =
     bindR (tr_log t) (\<lambda>entries.
     bindR (tr_base_policy t) (\<lambda>pol.
     bindR (tr_lines t) (\<lambda>lines.
     bindR (declared_of t) (\<lambda>declared.
     bindR (tr_statuses t) (\<lambda>statuses.
       merge_decision \<lparr>mi_policy = pol, mi_files = changed, mi_lines = lines, mi_declared = Some (risk_text declared),
         mi_gates = gate_states_from_log entries sha True True, mi_statuses = Some statuses,
         mi_migration_texts = Some (tr_file t), mi_deadlock = deadlocked entries, mi_unclear = False\<rparr>)))))"

text \<open>The comparison of the recomputed decision with the committed one.\<close>

definition compare_decision :: "bool \<Rightarrow> string option \<Rightarrow> merge_decision_rec \<Rightarrow> int \<times> string" where
  "compare_decision report_task committed d =
     (let name = decision_name (md_decision d) in
      if Some name \<noteq> committed then
        (1, ''reason=policy_mismatch committed='' @ none_text committed @ '' recomputed='' @ name
            @ '' recomputed_reasons='' @ reason_list (md_reasons d))
      else if name = ''stop_before_merge'' then
        (let leaking = (if report_task then md_reasons d else leaking_stop_reasons (md_reasons d)) in
         if leaking \<noteq> []
         then (1, ''reason=recomputed_stop_before_merge recomputed_reasons='' @ reason_list leaking)
         else (0, ''decision='' @ name))
      else (0, ''decision='' @ name))"

text \<open>Reading a committed artifact: an undecodable one fails the check, other errors raise.\<close>

definition read_view :: "merge_tree \<Rightarrow> string \<Rightarrow> string \<Rightarrow> exn + (string + json)" where
  "read_view t name label =
     (case tr_json t name of
        Inr v \<Rightarrow> Inr (Inr v)
      | Inl e \<Rightarrow> if e = ValueError \<or> e = UnicodeDecodeError
                then Inr (Inl (''reason='' @ label @ '': '' @ tr_repr t e)) else Inl e)"

definition spec_or_failure :: "merge_tree \<Rightarrow> exn + (string + task_spec)" where
  "spec_or_failure t =
     (case tr_spec t of
        Inl e \<Rightarrow> if e = OSError then Inr (Inl (''reason=unreadable_spec: '' @ tr_str t e)) else Inl e
      | Inr text \<Rightarrow>
          (case parse_spec_text text of
             Inl err \<Rightarrow> Inr (Inl (''reason=unreadable_spec: '' @ tr_spec_error t err))
           | Inr s \<Rightarrow> Inr (Inr s)))"

definition check_recomputed ::
  "merge_tree \<Rightarrow> string \<Rightarrow> string option \<Rightarrow> string option option \<Rightarrow> task_spec \<Rightarrow> string list \<Rightarrow> exn + (int \<times> string)" where
  "check_recomputed t task committed state spec changed =
     (if report_only spec then
        bindR (recompute_report t task changed) (\<lambda>d. Inr (compare_decision True committed d))
      else
        (case state of
           None \<Rightarrow> Inr (1, ''reason=missing_state'')
         | Some head \<Rightarrow>
             bindR (tr_code_sha t) (\<lambda>sha.
               if head \<noteq> Some sha then
                 Inr (1, ''reason=state_sha_mismatch state='' @ none_text head @ '' actual='' @ sha)
               else bindR (recompute_code t changed sha) (\<lambda>d. Inr (compare_decision False committed d)))))"

definition check :: "merge_tree \<Rightarrow> string \<Rightarrow> exn + (int \<times> string)" where
  "check t task =
     bindR (read_view t ''merge-decision.json'' ''unparseable_merge_decision'') (\<lambda>v.
       case v of Inl msg \<Rightarrow> Inr (1, msg)
       | Inr payload \<Rightarrow>
           (case committed_decision payload of
              None \<Rightarrow> Inr (1, ''reason=missing_merge_decision'')
            | Some committed \<Rightarrow>
                bindR (read_view t ''state.json'' ''unparseable_state'') (\<lambda>w.
                  case w of Inl msg \<Rightarrow> Inr (1, msg)
                  | Inr state_payload \<Rightarrow>
                      bindR (spec_or_failure t) (\<lambda>s.
                        case s of Inl msg \<Rightarrow> Inr (1, msg)
                        | Inr spec \<Rightarrow>
                            bindR (tr_changed t) (\<lambda>changed.
                              check_recomputed t task committed (committed_state state_payload) spec changed)))))"

section \<open>The Director's own fix\<close>

definition report_task_of :: "merge_tree \<Rightarrow> exn + bool" where
  "report_task_of t =
     (case spec_of t of Inr s \<Rightarrow> Inr (report_only s)
      | Inl e \<Rightarrow> if e = SpecError \<or> e = OSError then Inr False else Inl e)"

definition local_reasons ::
  "target_policy \<Rightarrow> (string \<times> string) list \<Rightarrow> string list \<Rightarrow> risk \<Rightarrow> entry list \<Rightarrow> string list" where
  "local_reasons pol statuses destructive declared entries =
     listed ''test_files_deleted'' (deleted_test_files pol statuses)
   @ listed ''destructive_migrations'' destructive
   @ reason_if (declared = High) (''high_risk: declared='' @ risk_text declared)
   @ reason_if (deadlocked entries) ''senior_escalation_without_clean_verdict''"

definition check_local_fix :: "merge_tree \<Rightarrow> string \<Rightarrow> exn + (int \<times> string)" where
  "check_local_fix t task =
     bindR (tr_changed t) (\<lambda>changed.
     bindR (report_task_of t) (\<lambda>report_task.
       if report_task then
         bindR (recompute_report t task changed) (\<lambda>d.
           if md_decision d = StopBeforeMerge
           then Inr (1, ''reason=recomputed_stop_before_merge recomputed_reasons='' @ reason_list (md_reasons d))
           else Inr (0, ''decision='' @ decision_name (md_decision d)))
       else
         bindR (tr_base_policy t) (\<lambda>pol.
         bindR (tr_statuses t) (\<lambda>statuses.
         bindR (destructive_migrations pol changed (tr_file t)) (\<lambda>destructive.
         bindR (declared_of t) (\<lambda>declared.
         bindR (tr_log t) (\<lambda>entries.
           let reasons = local_reasons pol statuses destructive declared entries in
           if reasons \<noteq> []
           then Inr (1, ''reason=recomputed_stop_before_merge recomputed_reasons='' @ reason_list reasons)
           else Inr (0, ''decision=local_fix_no_recomputable_stop''))))))))"

section \<open>What a passed check shows\<close>

lemma bindR_Inr: "bindR r f = Inr b \<longleftrightarrow> (\<exists>a. r = Inr a \<and> f a = Inr b)"
  by (cases r) (simp_all add: bindR_def)

lemma compare_zero:
  "compare_decision rt committed d = (0, msg) \<Longrightarrow>
     committed = Some (decision_name (md_decision d)) \<and>
     (md_decision d = StopBeforeMerge \<longrightarrow>
        (if rt then md_reasons d = [] else leaking_stop_reasons (md_reasons d) = []))"
  by (auto simp: compare_decision_def Let_def decision_name_def split: if_splits decision.splits)

lemma read_view_Inr: "read_view t n l = Inr (Inr v) \<longleftrightarrow> tr_json t n = Inr v"
  by (simp add: read_view_def split: sum.splits)

lemma spec_or_failure_Inr: "spec_or_failure t = Inr (Inr s) \<longleftrightarrow> spec_of t = Inr s"
  by (simp add: spec_or_failure_def spec_of_def bindR_def split: sum.splits)

lemma check_zeroE:
  assumes "check t task = Inr (0, msg)"
  obtains payload committed state_payload spec changed where
    "tr_json t ''merge-decision.json'' = Inr payload" "committed_decision payload = Some committed"
    "tr_json t ''state.json'' = Inr state_payload" "spec_of t = Inr spec" "tr_changed t = Inr changed"
    "check_recomputed t task committed (committed_state state_payload) spec changed = Inr (0, msg)"
proof -
  from assms obtain v where v: "read_view t ''merge-decision.json'' ''unparseable_merge_decision'' = Inr v"
    and a: "(case v of Inl m \<Rightarrow> Inr (1, m)
       | Inr payload \<Rightarrow>
           (case committed_decision payload of
              None \<Rightarrow> Inr (1, ''reason=missing_merge_decision'')
            | Some committed \<Rightarrow>
                bindR (read_view t ''state.json'' ''unparseable_state'') (\<lambda>w.
                  case w of Inl m \<Rightarrow> Inr (1, m)
                  | Inr state_payload \<Rightarrow>
                      bindR (spec_or_failure t) (\<lambda>s.
                        case s of Inl m \<Rightarrow> Inr (1, m)
                        | Inr spec \<Rightarrow>
                            bindR (tr_changed t) (\<lambda>changed.
                              check_recomputed t task committed (committed_state state_payload) spec changed))))) = Inr (0, msg)"
    by (auto simp only: check_def bindR_Inr)
  from a obtain payload committed where p: "v = Inr payload" "committed_decision payload = Some committed"
    by (simp split: sum.splits option.splits)
  from a p obtain w where w: "read_view t ''state.json'' ''unparseable_state'' = Inr w"
    and b: "(case w of Inl m \<Rightarrow> Inr (1, m)
       | Inr state_payload \<Rightarrow> bindR (spec_or_failure t) (\<lambda>s.
           case s of Inl m \<Rightarrow> Inr (1, m)
           | Inr spec \<Rightarrow> bindR (tr_changed t) (\<lambda>changed.
               check_recomputed t task committed (committed_state state_payload) spec changed))) = Inr (0, msg)"
    by (auto simp: bindR_Inr)
  from b obtain state_payload where q: "w = Inr state_payload"
    by (simp split: sum.splits)
  from b q obtain x where x: "spec_or_failure t = Inr x"
    and c: "(case x of Inl m \<Rightarrow> Inr (1, m)
           | Inr spec \<Rightarrow> bindR (tr_changed t) (\<lambda>changed.
               check_recomputed t task committed (committed_state state_payload) spec changed)) = Inr (0, msg)"
    by (auto simp: bindR_Inr)
  from c obtain s where s: "x = Inr s"
    by (simp split: sum.splits)
  from c s obtain changed where "tr_changed t = Inr changed"
    "check_recomputed t task committed (committed_state state_payload) s changed = Inr (0, msg)"
    by (auto simp: bindR_Inr)
  with v p w q x s that show thesis
    by (simp add: read_view_Inr spec_or_failure_Inr)
qed

text \<open>No sensitive path is among the reasons unless the diff touches one.\<close>

lemma merge_stop_reasons:
  assumes "merge_decision i = Inr d" "md_decision d = StopBeforeMerge" "leaking_stop_reasons (md_reasons d) = []"
  shows "sensitive_paths (mi_policy i) (mi_files i) \<noteq> [] \<or> security_paths (mi_policy i) (mi_files i) \<noteq> []"
proof (rule ccontr)
  assume none: "\<not> ?thesis"
  obtain destructive where d: "d = decision_of (input_risk i) (user_visible (mi_policy i) (mi_files i)) (merge_reasons i destructive)"
    using assms(1) by (auto simp: merge_decision_def bindR_Inr)
  then have reasons: "md_reasons d = merge_reasons i destructive" "merge_reasons i destructive \<noteq> []"
    using assms(2) by (auto simp: decision_of_def split: if_splits)
  have plain: "\<not> sensitive_reason r" if "r \<in> set (merge_reasons i destructive)" for r
    using that none
    by (auto simp: merge_reasons_def gate_reasons_def listed_def reason_if_def sensitive_reason_def
        split: option.splits if_splits)
  then have "leaking_stop_reasons (merge_reasons i destructive) = merge_reasons i destructive"
    by (auto simp: leaking_stop_reasons_def Let_def list_ex_iff intro!: filter_True)
  then show False
    using assms(3) reasons by simp
qed

text \<open>
  C20: The artifact chain of a branch is never taken at its word: when the check of a code task passes,
  the committed state names the commit recomputed from the history, and the committed decision is the
  one recomputed from the diff, the log and the policy of the trusted base; and if that decision is a
  stop, the diff touches a sensitive or security path, so that the branch is classified L3 and a human
  decides.
\<close>

theorem passed_check_is_recomputed:
  assumes "check t task = Inr (0, msg)" "spec_of t = Inr spec" "\<not> report_only spec"
  shows "\<exists>changed sha d pol payload state_payload.
     tr_changed t = Inr changed \<and> tr_code_sha t = Inr sha \<and> recompute_code t changed sha = Inr d
     \<and> tr_base_policy t = Inr pol
     \<and> tr_json t ''state.json'' = Inr state_payload \<and> committed_state state_payload = Some (Some sha)
     \<and> tr_json t ''merge-decision.json'' = Inr payload
     \<and> committed_decision payload = Some (Some (decision_name (md_decision d)))
     \<and> (md_decision d = StopBeforeMerge \<longrightarrow> classify_blast_radius pol changed = L3)"
  using assms(1)
proof (rule check_zeroE)
  fix payload committed state_payload spec' changed
  assume a: "tr_json t ''merge-decision.json'' = Inr payload" "committed_decision payload = Some committed"
    "tr_json t ''state.json'' = Inr state_payload" "spec_of t = Inr spec'" "tr_changed t = Inr changed"
    and c: "check_recomputed t task committed (committed_state state_payload) spec' changed = Inr (0, msg)"
  then obtain sha d where sha: "committed_state state_payload = Some (Some sha)" "tr_code_sha t = Inr sha"
    and d: "recompute_code t changed sha = Inr d" "compare_decision False committed d = (0, msg)"
    using assms(2,3) by (auto simp: check_recomputed_def bindR_Inr split: option.splits if_splits)
  obtain i where i: "merge_decision i = Inr d" "tr_base_policy t = Inr (mi_policy i)" "mi_files i = changed"
    using d(1) by (auto simp: recompute_code_def bindR_Inr)
  note cmp = compare_zero[OF d(2)]
  have "classify_blast_radius (mi_policy i) changed = L3" if "md_decision d = StopBeforeMerge"
    using merge_stop_reasons[OF i(1) that] cmp that i(3) by (auto simp: classify_blast_radius_def)
  then show ?thesis
    using a sha d i cmp by blast
qed

text \<open>
  The local route never launders a stop: when the recomputation on the Director's fix passes for a
  code task, no test file was deleted, no migration is destructive, neither inherited verdict declares
  high risk and no senior deadlock is on record; an unreadable spec counts as a code task.
\<close>

theorem local_fix_has_no_stop:
  assumes "check_local_fix t task = Inr (0, msg)" "report_task_of t = Inr False"
  shows "\<exists>changed pol statuses declared entries.
     tr_changed t = Inr changed \<and> tr_base_policy t = Inr pol \<and> tr_statuses t = Inr statuses
     \<and> deleted_test_files pol statuses = [] \<and> destructive_migrations pol changed (tr_file t) = Inr []
     \<and> declared_of t = Inr declared \<and> declared \<noteq> High \<and> tr_log t = Inr entries \<and> \<not> deadlocked entries"
  using assms
  by (auto simp: check_local_fix_def bindR_Inr Let_def local_reasons_def split: if_splits)

definition demo_tree :: merge_tree where
  "demo_tree = \<lparr>
     tr_json = (\<lambda>n. Inr (if n = ''state.json'' then JObj [(''head_sha'', JStr ''a1'')]
       else if n = ''merge-decision.json'' then JObj [(''decision'', JStr ''auto_merge'')]
       else JObj [(''risk'', JStr ''low'')])),
     tr_text = (\<lambda>_. Inr None), tr_log = Inr green_log, tr_spec = Inr [], tr_file = (\<lambda>_. Inl OSError),
     tr_changed = Inr [''app/x.py''], tr_statuses = Inr [(''app/x.py'', ''M'')], tr_lines = Inr 10,
     tr_code_sha = Inr ''a1'', tr_base_policy = Inr demo_policy, tr_sha256 = (\<lambda>_. []), tr_repr = (\<lambda>_. []),
     tr_str = (\<lambda>_. []), tr_spec_error = (\<lambda>_. [])\<rparr>"

lemma demo_tree_spec: "\<exists>s. spec_of demo_tree = Inr s \<and> \<not> report_only s"
proof -
  have "parse_front_matter [] = Inr []"
    by code_simp
  then show ?thesis
    by (simp add: spec_of_def demo_tree_def bindR_def parse_spec_text_def parse_roles_def field_or_def
        or_none_def report_only_def spec_tables)
qed

lemma demo_tree_code:
  "recompute_code demo_tree [''app/x.py''] ''a1'' = Inr \<lparr>md_decision = AutoMerge, md_risk = Low, md_reasons = []\<rparr>"
  by code_simp

lemma demo_tree_passes: "check demo_tree ''t1'' = Inr (0, ''decision=auto_merge'')"
proof -
  obtain s where s: "spec_of demo_tree = Inr s" "\<not> report_only s"
    using demo_tree_spec by blast
  have c: "compare_decision False (Some ''auto_merge'') \<lparr>md_decision = AutoMerge, md_risk = Low, md_reasons = []\<rparr>
      = (0, ''decision=auto_merge'')"
    by code_simp
  have parts: "tr_json demo_tree ''merge-decision.json'' = Inr (JObj [(''decision'', JStr ''auto_merge'')])"
    "tr_json demo_tree ''state.json'' = Inr (JObj [(''head_sha'', JStr ''a1'')])"
    "tr_changed demo_tree = Inr [''app/x.py'']" "tr_code_sha demo_tree = Inr ''a1''"
    "committed_decision (JObj [(''decision'', JStr ''auto_merge'')]) = Some (Some ''auto_merge'')"
    "committed_state (JObj [(''head_sha'', JStr ''a1'')]) = Some (Some ''a1'')"
    by (simp_all add: demo_tree_def committed_decision_def committed_state_def as_str_def dget_def)
  have sf: "spec_or_failure demo_tree = Inr (Inr s)"
    using s by (simp add: spec_or_failure_Inr)
  show ?thesis
    using s by (simp add: check_def read_view_def sf bindR_def check_recomputed_def parts
        demo_tree_code c)
qed

theorem passed_check_is_recomputed_witness:
  "\<exists>pol. tr_base_policy demo_tree = Inr pol \<and> tr_code_sha demo_tree = Inr ''a1''"
proof -
  obtain s where "spec_of demo_tree = Inr s" "\<not> report_only s"
    using demo_tree_spec by blast
  from passed_check_is_recomputed[OF demo_tree_passes this] show ?thesis
    by (auto simp: demo_tree_def)
qed

theorem local_fix_has_no_stop_witness:
  "\<not> deadlocked green_log \<and> deleted_test_files demo_policy [(''app/x.py'', ''M'')] = []"
proof -
  obtain s where "spec_of demo_tree = Inr s" "\<not> report_only s"
    using demo_tree_spec by blast
  then have r: "report_task_of demo_tree = Inr False"
    by (simp add: report_task_of_def)
  have "local_reasons demo_policy [(''app/x.py'', ''M'')] [] Low green_log = []"
    "destructive_migrations demo_policy [''app/x.py''] (\<lambda>_. Inl OSError) = Inr []"
    "declared_of demo_tree = Inr Low"
    by code_simp+
  then have "check_local_fix demo_tree ''t1'' = Inr (0, ''decision=local_fix_no_recomputable_stop'')"
    using r by (simp add: check_local_fix_def bindR_def Let_def demo_tree_def)
  from local_fix_has_no_stop[OF this r] show ?thesis
    by (auto simp: demo_tree_def)
qed

end
