(* ===== verification/Git_Host.thy ===== *)
theory Git_Host
  imports Prog
begin

text \<open>
  Git and the file system as the trusted machine uses them. Both are outside the program: a \<open>host\<close>
  answers every command and every query about a path, over a state of its own. The state of the model
  adds the list of the git commands run so far with their exit codes, the last one last. \<open>git\<close> is the
  helper \<open>_git\<close> of \<open>local_merge.py\<close>; with \<open>check\<close> off it is the one of \<open>hub_tripwire.py\<close>.
\<close>

record git_call =
  gc_dir :: string
  gc_args :: "string list"
  gc_code :: int

record 'w shell =
  sh_calls :: "git_call list"
  sh_world :: 'w

record 'w host =
  ho_git :: "string \<Rightarrow> string list \<Rightarrow> 'w \<Rightarrow> (int \<times> string \<times> string) \<times> 'w"
  ho_exists :: "string \<Rightarrow> 'w \<Rightarrow> bool"
  ho_symlink :: "string \<Rightarrow> 'w \<Rightarrow> bool"
  ho_is_dir :: "string \<Rightarrow> 'w \<Rightarrow> bool"
  ho_children :: "string \<Rightarrow> 'w \<Rightarrow> string list"
  ho_unlink :: "string \<Rightarrow> ('w, unit) prog"
  ho_rmtree :: "string \<Rightarrow> 'w \<Rightarrow> 'w"
  ho_write :: "string \<Rightarrow> string \<Rightarrow> ('w, unit) prog"
  ho_str :: "exn \<Rightarrow> string"

definition run_git :: "'w host \<Rightarrow> string \<Rightarrow> string list \<Rightarrow> ('w shell, int \<times> string \<times> string) prog" where
  "run_git h dir args s =
     (let ((code, out, err), w) = ho_git h dir args (sh_world s)
      in (Inr (code, out, err),
          s\<lparr>sh_calls := sh_calls s @ [\<lparr>gc_dir = dir, gc_args = args, gc_code = code\<rparr>], sh_world := w\<rparr>))"

definition git :: "'w host \<Rightarrow> bool \<Rightarrow> string \<Rightarrow> string list \<Rightarrow> ('w shell, int \<times> string) prog" where
  "git h check dir args =
     bindP (run_git h dir args) (\<lambda>(code, out, err).
       if check \<and> code \<noteq> 0
       then throwP (RuntimeError (''git '' @ join '' '' args @ '' failed: '' @ err))
       else retP (code, strip (out @ err)))"

lemmas git_defs = git_def run_git_def bindP_def prog_defs

text \<open>A query of the file system, and an operation on it.\<close>

definition ask :: "('w \<Rightarrow> 'a) \<Rightarrow> ('w shell, 'a) prog" where
  "ask f = getP (\<lambda>s. f (sh_world s))"

definition on_world :: "('w, 'a) prog \<Rightarrow> ('w shell, 'a) prog" where
  "on_world m s = (let (r, w) = m (sh_world s) in (r, s\<lparr>sh_world := w\<rparr>))"

definition change_world :: "('w \<Rightarrow> 'w) \<Rightarrow> ('w shell, unit) prog" where
  "change_world f = modifyP (\<lambda>s. s\<lparr>sh_world := f (sh_world s)\<rparr>)"

text \<open>A host that only answers git.\<close>

definition git_only :: "(string \<Rightarrow> string list \<Rightarrow> 'w \<Rightarrow> (int \<times> string \<times> string) \<times> 'w) \<Rightarrow> 'w host" where
  "git_only g = \<lparr>ho_git = g, ho_exists = (\<lambda>_ _. False), ho_symlink = (\<lambda>_ _. False), ho_is_dir = (\<lambda>_ _. False),
     ho_children = (\<lambda>_ _. []), ho_unlink = (\<lambda>_. retP ()), ho_rmtree = (\<lambda>_ w. w), ho_write = (\<lambda>_ _. retP ()),
     ho_str = (\<lambda>_. [])\<rparr>"

text \<open>A path below a directory.\<close>

definition sub_path :: "string \<Rightarrow> string \<Rightarrow> string" where
  "sub_path dir name = dir @ ''/'' @ name"

section \<open>The commands of a program\<close>

text \<open>
  \<open>calls_in C m\<close>: from any state, \<open>m\<close> only appends calls to the list, and each of them is in \<open>C\<close>.
\<close>

definition calls_in :: "(git_call \<Rightarrow> bool) \<Rightarrow> ('w shell, 'a) prog \<Rightarrow> bool" where
  "calls_in C m = (\<forall>s. \<exists>new. sh_calls (snd (m s)) = sh_calls s @ new \<and> list_all C new)"

named_theorems calls_intros

lemma calls_inI: "(\<And>s. \<exists>new. sh_calls (snd (m s)) = sh_calls s @ new \<and> list_all C new) \<Longrightarrow> calls_in C m"
  by (simp add: calls_in_def)

lemma calls_inE:
  assumes "calls_in C m" "m s = (r, t)"
  obtains new where "sh_calls t = sh_calls s @ new" "list_all C new"
  using assms unfolding calls_in_def by (metis snd_conv)

lemma calls_run_git [calls_intros]:
  "(\<And>code. C \<lparr>gc_dir = dir, gc_args = args, gc_code = code\<rparr>) \<Longrightarrow> calls_in C (run_git h dir args)"
  by (auto simp: calls_in_def run_git_def Let_def split: prod.split)

lemma calls_none [calls_intros]:
  "calls_in C (retP a)" "calls_in C (throwP e)" "calls_in C (liftP r)" "calls_in C (ask f)"
  "calls_in C (change_world g)" "calls_in C (getP k)"
  by (auto simp: calls_in_def ask_def change_world_def prog_defs)

lemma calls_world [calls_intros]: "calls_in C (on_world m)"
  by (auto simp: calls_in_def on_world_def Let_def split: prod.split)

lemma calls_bind [calls_intros]:
  assumes "calls_in C m" "\<And>a. calls_in C (f a)"
  shows "calls_in C (bindP m f)"
proof (rule calls_inI)
  fix s
  obtain r t where m: "m s = (r, t)"
    by (cases "m s")
  obtain new where new: "sh_calls t = sh_calls s @ new" "list_all C new"
    using assms(1) m by (rule calls_inE)
  show "\<exists>new. sh_calls (snd (bindP m f s)) = sh_calls s @ new \<and> list_all C new"
  proof (cases r)
    case (Inl e)
    then show ?thesis
      using m new by (auto simp: bindP_def)
  next
    case (Inr a)
    obtain q u where f: "f a t = (q, u)"
      by (cases "f a t")
    obtain new' where "sh_calls u = sh_calls t @ new'" "list_all C new'"
      using assms(2) f by (rule calls_inE)
    then show ?thesis
      using m new f Inr by (intro exI[of _ "new @ new'"]) (simp add: bindP_def)
  qed
qed

lemma calls_then [calls_intros]: "calls_in C m \<Longrightarrow> calls_in C k \<Longrightarrow> calls_in C (thenP m k)"
  unfolding thenP_def by (rule calls_bind)

lemma calls_catch [calls_intros]:
  assumes "calls_in C m" "\<And>e. calls_in C (g e)"
  shows "calls_in C (catchP m g)"
proof (rule calls_inI)
  fix s
  obtain r t where m: "m s = (r, t)"
    by (cases "m s")
  obtain new where new: "sh_calls t = sh_calls s @ new" "list_all C new"
    using assms(1) m by (rule calls_inE)
  show "\<exists>new. sh_calls (snd (catchP m g s)) = sh_calls s @ new \<and> list_all C new"
  proof (cases r)
    case (Inr a)
    then show ?thesis
      using m new by (auto simp: catchP_def)
  next
    case (Inl e)
    obtain q u where g: "g e t = (q, u)"
      by (cases "g e t")
    obtain new' where "sh_calls u = sh_calls t @ new'" "list_all C new'"
      using assms(2) g by (rule calls_inE)
    then show ?thesis
      using m new g Inl by (intro exI[of _ "new @ new'"]) (simp add: catchP_def)
  qed
qed

lemma calls_cases [calls_intros]:
  "(b \<Longrightarrow> calls_in C m) \<Longrightarrow> (\<not> b \<Longrightarrow> calls_in C n) \<Longrightarrow> calls_in C (if b then m else n)"
  "(b \<Longrightarrow> calls_in C k) \<Longrightarrow> calls_in C (whenP b k)"
  by (auto simp: whenP_def intro: calls_none)

lemma calls_pair [calls_intros]:
  "(\<And>a b. calls_in C (f a b)) \<Longrightarrow> calls_in C (case x of (a, b) \<Rightarrow> f a b)"
  by (cases x) simp

lemma calls_list [calls_intros]:
  "calls_in C m \<Longrightarrow> (\<And>a b. calls_in C (f a b)) \<Longrightarrow> calls_in C (case xs of [] \<Rightarrow> m | a # b \<Rightarrow> f a b)"
  by (cases xs) auto

lemma calls_option [calls_intros]:
  "calls_in C m \<Longrightarrow> (\<And>a. calls_in C (f a)) \<Longrightarrow> calls_in C (case x of None \<Rightarrow> m | Some a \<Rightarrow> f a)"
  by (cases x) auto

lemma calls_let [calls_intros]: "calls_in C (f x) \<Longrightarrow> calls_in C (let y = x in f y)"
  by simp

lemma calls_weaken: "calls_in C m \<Longrightarrow> (\<And>c. C c \<Longrightarrow> D c) \<Longrightarrow> calls_in D m"
  unfolding calls_in_def by (metis list.pred_mono_strong)

lemma calls_git [calls_intros]:
  "(\<And>code. C \<lparr>gc_dir = dir, gc_args = args, gc_code = code\<rparr>) \<Longrightarrow> calls_in C (git h check dir args)"
  unfolding git_def by (intro calls_intros) auto

end
