(* ===== verification/Gitdiff.thy ===== *)
theory Gitdiff
  imports Git_Host Policy
begin

text \<open>
  Model of \<open>src/orchestrator/gitdiff.py\<close>: the stateless helpers that size and classify a diff. The
  commands are parameters of the host; their output is parsed here.
\<close>

definition git_out :: "'w host \<Rightarrow> string \<Rightarrow> string list \<Rightarrow> ('w shell, string) prog" where
  "git_out h dir args =
     bindP (run_git h dir args) (\<lambda>(code, out, err). if code \<noteq> 0 then throwP GitError else retP (strip out))"

definition tasks_lane :: "string \<Rightarrow> string" where
  "tasks_lane task_id = ''.laddy/tasks/'' @ task_id"

definition policy_pathspec :: "string \<Rightarrow> string list" where
  "policy_pathspec task_id = [''--'', ''.'', '':(exclude,literal)'' @ tasks_lane task_id]"

definition commit_range :: "string \<Rightarrow> string" where
  "commit_range base_branch = ''origin/'' @ base_branch @ ''...HEAD''"

definition head_sha_of :: "'w host \<Rightarrow> string \<Rightarrow> ('w shell, string) prog" where
  "head_sha_of h wt = git_out h wt [''rev-parse'', ''HEAD'']"

definition code_sha :: "'w host \<Rightarrow> string \<Rightarrow> string \<Rightarrow> ('w shell, string) prog" where
  "code_sha h wt task_id =
     bindP (git_out h wt ([''rev-list'', ''-1'', ''HEAD''] @ policy_pathspec task_id)) (\<lambda>out.
       if out \<noteq> [] then retP out else head_sha_of h wt)"

text \<open>The parsers of the three listings.\<close>

definition parse_names :: "string \<Rightarrow> string list" where
  "parse_names out = filter (\<lambda>l. l \<noteq> []) (splitlines out)"

definition tab :: char where
  "tab = CHR 0x09"

definition stat_count :: "string \<Rightarrow> exn + int" where
  "stat_count f = (if f = ''-'' then Inr 0 else case py_int f of Some n \<Rightarrow> Inr n | None \<Rightarrow> Inl ValueError)"

definition numstat_line :: "string \<Rightarrow> exn + int" where
  "numstat_line line =
     (case split_on tab line of
        added # deleted # _ \<Rightarrow> bindR (stat_count added) (\<lambda>a. bindR (stat_count deleted) (\<lambda>d. Inr (a + d)))
      | _ \<Rightarrow> Inl ValueError)"

primrec numstat_total :: "int \<Rightarrow> string list \<Rightarrow> exn + int" where
  "numstat_total acc [] = Inr acc"
| "numstat_total acc (l # ls) = bindR (numstat_line l) (\<lambda>n. numstat_total (acc + n) ls)"

text \<open>A dict of texts: a key that is set again keeps its place.\<close>

definition set_status :: "string \<Rightarrow> string \<Rightarrow> (string \<times> string) list \<Rightarrow> (string \<times> string) list" where
  "set_status k v st =
     (if k \<in> fst ` set st then map (\<lambda>(k', v'). if k' = k then (k', v) else (k', v')) st else st @ [(k, v)])"

definition status_line :: "(string \<times> string) list \<Rightarrow> string \<Rightarrow> (string \<times> string) list" where
  "status_line st line =
     (let parts = split_on tab line in
      if length parts \<ge> 2 then set_status (last parts) (hd parts) st else st)"

definition parse_statuses :: "string \<Rightarrow> (string \<times> string) list" where
  "parse_statuses out = foldl status_line [] (splitlines out)"

definition diff_args :: "string \<Rightarrow> string \<Rightarrow> string \<Rightarrow> string list" where
  "diff_args mode task_id base_branch =
     [''diff'', ''--no-renames'', mode, commit_range base_branch] @ policy_pathspec task_id"

definition changed_files :: "'w host \<Rightarrow> string \<Rightarrow> string \<Rightarrow> string \<Rightarrow> ('w shell, string list) prog" where
  "changed_files h wt task_id base_branch =
     bindP (git_out h wt (diff_args ''--name-only'' task_id base_branch)) (\<lambda>out. retP (parse_names out))"

definition diff_text :: "'w host \<Rightarrow> string \<Rightarrow> string \<Rightarrow> ('w shell, string) prog" where
  "diff_text h wt base_branch = git_out h wt [''diff'', commit_range base_branch]"

definition diff_line_count :: "'w host \<Rightarrow> string \<Rightarrow> string \<Rightarrow> string \<Rightarrow> ('w shell, int) prog" where
  "diff_line_count h wt task_id base_branch =
     bindP (git_out h wt (diff_args ''--numstat'' task_id base_branch)) (\<lambda>out.
       liftP (numstat_total 0 (splitlines out)))"

definition changed_statuses :: "'w host \<Rightarrow> string \<Rightarrow> string \<Rightarrow> string \<Rightarrow> ('w shell, (string \<times> string) list) prog" where
  "changed_statuses h wt task_id base_branch =
     bindP (git_out h wt (diff_args ''--name-status'' task_id base_branch)) (\<lambda>out. retP (parse_statuses out))"

section \<open>Facts\<close>

lemma calls_git_out [calls_intros]:
  "(\<And>code. C \<lparr>gc_dir = dir, gc_args = args, gc_code = code\<rparr>) \<Longrightarrow> calls_in C (git_out h dir args)"
  unfolding git_out_def by (intro calls_intros) auto

text \<open>
  What git prints for a diff: one line per file. \<open>framed\<close> lines survive that \<open>git_out\<close> strips the
  white space around the whole output.
\<close>

definition printed :: "string list \<Rightarrow> string" where
  "printed ls = concat (map (\<lambda>l. l @ [CHR 0x0A]) ls)"

definition framed :: "string \<Rightarrow> bool" where
  "framed l = (l \<noteq> [] \<and> one_line l \<and> \<not> is_space (hd l) \<and> \<not> is_space (last l))"

lemma splitlines_single: "one_line l \<Longrightarrow> l \<noteq> [] \<Longrightarrow> splitlines l = [l]"
proof -
  have "one_line l \<Longrightarrow> splitlines_from cr acc l = (if acc = [] \<and> l = [] then [] else [rev acc @ l])" for cr acc
    by (induction l arbitrary: cr acc) (auto simp: one_line_def line_break_def Let_def)
  then show "one_line l \<Longrightarrow> l \<noteq> [] \<Longrightarrow> splitlines l = [l]"
    by (simp add: splitlines_def)
qed

lemma strip_framed:
  assumes "s \<noteq> []" "\<not> is_space (hd s)" "\<not> is_space (last s)" "list_all is_space t"
  shows "strip (s @ t) = s"
proof -
  have "lstrip (s @ t) = s @ t"
    using assms(1,2) by (cases s) (simp_all add: lstrip_def)
  moreover have "dropWhile is_space (rev (s @ t)) = rev s"
    using assms by (cases s rule: rev_cases) (simp_all add: dropWhile_append list_all_iff)
  ultimately show ?thesis
    by (simp add: strip_def rstrip_def)
qed

lemma strip_printed:
  assumes "ls \<noteq> []" "list_all framed ls"
  shows "strip (printed ls) = printed (butlast ls) @ last ls"
proof -
  have split: "printed ls = (printed (butlast ls) @ last ls) @ [CHR 0x0A]"
    using assms(1) by (cases ls rule: rev_cases) (simp_all add: printed_def)
  have "last ls \<in> set ls" "hd ls \<in> set ls"
    using assms(1) by simp_all
  then have f: "framed (last ls)" "framed (hd ls)"
    using assms(2) by (simp_all add: list_all_iff)
  have "hd (printed (butlast ls) @ last ls) = hd (hd ls)"
    using assms(1) f by (cases ls) (auto simp: printed_def framed_def)
  then show ?thesis
    unfolding split using f by (intro strip_framed) (auto simp: framed_def is_space_def)
qed

lemma splitlines_printed:
  assumes "list_all framed ls"
  shows "splitlines (strip (printed ls)) = ls"
proof (cases "ls = []")
  case True
  then show ?thesis
    by (simp add: printed_def splitlines_def)
next
  case False
  then have "list_all one_line (butlast ls)" "one_line (last ls)" "last ls \<noteq> []"
    using assms by (auto simp: list_all_iff framed_def dest: in_set_butlastD)
  then show ?thesis
    using False by (simp only: strip_printed[OF False assms])
      (simp add: printed_def splitlines_lines_append splitlines_single)
qed

text \<open>An entry of a diff: its status letter, its counts (none for a binary file), its name.\<close>

record diff_entry =
  de_status :: string
  de_counts :: "(nat \<times> nat) option"
  de_name :: string

definition count_text :: "nat option \<Rightarrow> string" where
  "count_text n = (case n of None \<Rightarrow> ''-'' | Some k \<Rightarrow> nat_digits k)"

definition numstat_text :: "diff_entry \<Rightarrow> string" where
  "numstat_text d = count_text (map_option fst (de_counts d)) @ [tab] @ count_text (map_option snd (de_counts d))
     @ [tab] @ de_name d"

definition status_text :: "diff_entry \<Rightarrow> string" where
  "status_text d = de_status d @ [tab] @ de_name d"

definition entry_lines :: "diff_entry \<Rightarrow> nat" where
  "entry_lines d = (case de_counts d of None \<Rightarrow> 0 | Some (a, r) \<Rightarrow> a + r)"

definition plain_entry :: "diff_entry \<Rightarrow> bool" where
  "plain_entry d = (de_status d \<in> {''A'', ''M'', ''D''} \<and> framed (de_name d) \<and> tab \<notin> set (de_name d)
     \<and> (case de_counts d of None \<Rightarrow> True
          | Some (a, r) \<Rightarrow> length (nat_digits a) \<le> 4300 \<and> length (nat_digits r) \<le> 4300))"

lemma split_on_none: "d \<notin> set s \<Longrightarrow> split_on d s = [s]"
  by (induction s) auto

lemma split_on_first: "d \<notin> set s \<Longrightarrow> split_on d (s @ d # t) = s # split_on d t"
  by (induction s) auto

lemma parse_names_printed:
  assumes "list_all plain_entry ds"
  shows "parse_names (strip (printed (map de_name ds))) = map de_name ds"
proof -
  have "list_all framed (map de_name ds)"
    using assms by (auto simp: list_all_iff plain_entry_def)
  moreover from this have "filter (\<lambda>l. l \<noteq> []) (map de_name ds) = map de_name ds"
    by (auto simp: list_all_iff framed_def filter_id_conv)
  ultimately show ?thesis
    by (simp add: parse_names_def splitlines_printed)
qed

text \<open>A count as printed is read back.\<close>

lemma digit_plain:
  assumes "is_digit c"
  shows "\<not> is_space c" "c \<noteq> CHR ''-''" "c \<noteq> CHR ''+''" "c \<noteq> CHR ''_''" "c \<noteq> tab" "\<not> line_break c"
  using assms by (auto simp: is_digit_def is_space_def tab_def line_break_def Let_def)

lemma digit_of_nat: "c \<in> set (nat_digits n) \<Longrightarrow> is_digit c"
  using nat_digits_digits[of n] by (simp add: list_all_iff)

lemma nat_digits_framed: "framed (nat_digits n)"
  using nat_digits_nonempty[of n] digit_plain(1,6)[OF digit_of_nat[of _ n]] by (auto simp: framed_def one_line_def list_all_iff)

lemma py_int_nat_digits: "length (nat_digits n) \<le> 4300 \<Longrightarrow> py_int (nat_digits n) = Some (int n)"
proof -
  assume len: "length (nat_digits n) \<le> 4300"
  have s: "strip (nat_digits n) = nat_digits n"
    using nat_digits_framed[of n] strip_framed[of "nat_digits n" "[]"] by (simp add: framed_def)
  have h: "hd (nat_digits n) \<noteq> CHR ''-''" "hd (nat_digits n) \<noteq> CHR ''+''"
    using digit_plain(2,3)[OF digit_of_nat[of "hd (nat_digits n)" n]] by simp_all
  have "\<not> prefix ''-'' (nat_digits n)" "\<not> prefix ''+'' (nat_digits n)"
    using h by (cases "nat_digits n"; simp)+
  moreover have "split_on CHR ''_'' (nat_digits n) = [nat_digits n]"
    using digit_plain(4)[OF digit_of_nat] by (intro split_on_none) blast
  ultimately show ?thesis
    using len s nat_digits_digits[of n] by (simp add: py_int_def Let_def digits_val_nat_digits)
qed

lemma stat_count_text:
  "(\<forall>k. n = Some k \<longrightarrow> length (nat_digits k) \<le> 4300) \<Longrightarrow>
   stat_count (count_text n) = Inr (case n of None \<Rightarrow> 0 | Some k \<Rightarrow> int k)"
proof (cases n)
  case (Some k)
  have "nat_digits k \<noteq> ''-''"
    using digit_plain(2)[OF digit_of_nat[of "CHR ''-''" k]] by auto
  moreover assume "\<forall>k. n = Some k \<longrightarrow> length (nat_digits k) \<le> 4300"
  ultimately show ?thesis
    using Some by (simp add: stat_count_def count_text_def py_int_nat_digits)
qed (simp add: stat_count_def count_text_def)

lemma count_text_plain: "tab \<notin> set (count_text n)" "framed (count_text n)"
proof -
  show "tab \<notin> set (count_text n)"
    using digit_plain(5)[OF digit_of_nat] by (cases n) (auto simp: count_text_def tab_def)
  have "framed ''-''"
    by code_simp
  then show "framed (count_text n)"
    using nat_digits_framed by (cases n) (simp_all add: count_text_def)
qed

lemma tab_space: "is_space tab" "\<not> line_break tab"
  by code_simp+

lemma framed_tab: "framed a \<Longrightarrow> framed b \<Longrightarrow> framed (a @ [tab] @ b)"
  using tab_space by (auto simp: framed_def one_line_def)

lemma numstat_line_text:
  assumes "plain_entry d"
  shows "numstat_line (numstat_text d) = Inr (int (entry_lines d))" "framed (numstat_text d)"
proof -
  have s: "split_on tab (numstat_text d) =
      [count_text (map_option fst (de_counts d)), count_text (map_option snd (de_counts d)), de_name d]"
    using assms by (simp add: numstat_text_def split_on_first split_on_none count_text_plain plain_entry_def)
  show "numstat_line (numstat_text d) = Inr (int (entry_lines d))"
    using assms by (cases "de_counts d")
      (auto simp: numstat_line_def s stat_count_text bindR_def entry_lines_def plain_entry_def)
  show "framed (numstat_text d)"
    using assms unfolding numstat_text_def by (intro framed_tab count_text_plain) (simp add: plain_entry_def)
qed

lemma numstat_total_text:
  "list_all plain_entry ds \<Longrightarrow>
   numstat_total acc (map numstat_text ds) = Inr (acc + int (sum_list (map entry_lines ds)))"
  by (induction ds arbitrary: acc) (simp_all add: numstat_line_text bindR_def)

lemma status_line_text:
  assumes "plain_entry d"
  shows "status_line st (status_text d) = set_status (de_name d) (de_status d) st" "framed (status_text d)"
proof -
  have "tab \<notin> set ''A'' \<and> framed ''A'' \<and> tab \<notin> set ''M'' \<and> framed ''M'' \<and> tab \<notin> set ''D'' \<and> framed ''D''"
    by code_simp
  then have letters: "tab \<notin> set (de_status d)" "framed (de_status d)"
    using assms by (auto simp: plain_entry_def)
  then show "status_line st (status_text d) = set_status (de_name d) (de_status d) st"
    using assms by (simp add: status_line_def status_text_def split_on_first split_on_none plain_entry_def Let_def)
  show "framed (status_text d)"
    using assms letters unfolding status_text_def by (intro framed_tab) (simp_all add: plain_entry_def)
qed

lemma statuses_text:
  "list_all plain_entry ds \<Longrightarrow> distinct (map fst st @ map de_name ds) \<Longrightarrow>
   foldl status_line st (map status_text ds) = st @ map (\<lambda>d. (de_name d, de_status d)) ds"
proof (induction ds arbitrary: st)
  case (Cons d ds)
  then have "de_name d \<notin> fst ` set st"
    by auto
  then show ?case
    using Cons by (simp add: status_line_text(1) set_status_def)
qed simp

lemma listings_read_back:
  assumes "list_all plain_entry ds"
  shows "numstat_total 0 (splitlines (strip (printed (map numstat_text ds)))) = Inr (int (sum_list (map entry_lines ds)))"
    and "distinct (map de_name ds) \<Longrightarrow>
      parse_statuses (strip (printed (map status_text ds))) = map (\<lambda>d. (de_name d, de_status d)) ds"
proof -
  have "list_all framed (map numstat_text ds)" "list_all framed (map status_text ds)"
    using assms numstat_line_text(2) status_line_text(2) by (auto simp: list_all_iff)
  then show "numstat_total 0 (splitlines (strip (printed (map numstat_text ds)))) = Inr (int (sum_list (map entry_lines ds)))"
    and "distinct (map de_name ds) \<Longrightarrow>
      parse_statuses (strip (printed (map status_text ds))) = map (\<lambda>d. (de_name d, de_status d)) ds"
    using assms statuses_text[OF assms, of "[]"]
    by (simp_all add: splitlines_printed numstat_total_text parse_statuses_def)
qed

text \<open>
  The three listings the policy is computed from lose nothing: when git answers the three diff
  commands with one line per file of a diff whose names start and end with visible characters and
  contain neither line breaks nor tabs, the helpers return the names in order, the sum of the added and
  deleted lines (a binary file counts nothing) and the status of every name.
\<close>

theorem diff_listings_roundtrip:
  assumes "list_all plain_entry ds" "distinct (map de_name ds)"
    and "\<And>w. \<exists>e w'. ho_git h wt (diff_args ''--name-only'' task base) w = ((0, printed (map de_name ds), e), w')"
    and "\<And>w. \<exists>e w'. ho_git h wt (diff_args ''--numstat'' task base) w = ((0, printed (map numstat_text ds), e), w')"
    and "\<And>w. \<exists>e w'. ho_git h wt (diff_args ''--name-status'' task base) w = ((0, printed (map status_text ds), e), w')"
  shows "fst (changed_files h wt task base s) = Inr (map de_name ds)
    \<and> fst (diff_line_count h wt task base s) = Inr (int (sum_list (map entry_lines ds)))
    \<and> fst (changed_statuses h wt task base s) = Inr (map (\<lambda>d. (de_name d, de_status d)) ds)"
proof -
  obtain e1 w1 e2 w2 e3 w3 where
    "ho_git h wt (diff_args ''--name-only'' task base) (sh_world s) = ((0, printed (map de_name ds), e1), w1)"
    "ho_git h wt (diff_args ''--numstat'' task base) (sh_world s) = ((0, printed (map numstat_text ds), e2), w2)"
    "ho_git h wt (diff_args ''--name-status'' task base) (sh_world s) = ((0, printed (map status_text ds), e3), w3)"
    using assms(3-5) by meson
  then show ?thesis
    using parse_names_printed[OF assms(1)] listings_read_back[OF assms(1)] assms(2)
    by (simp add: changed_files_def diff_line_count_def changed_statuses_def git_out_def git_defs Let_def)
qed

definition sample_diff :: "diff_entry list" where
  "sample_diff = [\<lparr>de_status = ''A'', de_counts = Some (3, 1), de_name = ''app/x.py''\<rparr>,
     \<lparr>de_status = ''M'', de_counts = None, de_name = ''logo.png''\<rparr>]"

definition sample_host :: "unit host" where
  "sample_host = git_only (\<lambda>dir args w. ((0,
     printed (map (if args ! 2 = ''--name-only'' then de_name
       else if args ! 2 = ''--numstat'' then numstat_text else status_text) sample_diff), []), w))"

theorem diff_listings_roundtrip_witness:
  "fst (changed_files sample_host [] ''t1'' ''main'' \<lparr>sh_calls = [], sh_world = ()\<rparr>) = Inr [''app/x.py'', ''logo.png'']
   \<and> fst (diff_line_count sample_host [] ''t1'' ''main'' \<lparr>sh_calls = [], sh_world = ()\<rparr>) = Inr 4"
proof -
  have "list_all plain_entry sample_diff" "distinct (map de_name sample_diff)"
    by code_simp+
  moreover have "map de_name sample_diff = [''app/x.py'', ''logo.png'']" "sum_list (map entry_lines sample_diff) = 4"
    by code_simp+
  ultimately show ?thesis
    using diff_listings_roundtrip[of sample_diff sample_host "[]" "''t1''" "''main''" "\<lparr>sh_calls = [], sh_world = ()\<rparr>"]
    by (simp add: sample_host_def git_only_def diff_args_def)
qed

section \<open>Quoted names\<close>

text \<open>
  By default git prints a name that has a character outside ASCII in double quotes, with the bytes of
  the character as octal escapes. The listings are not read with \<open>-z\<close>, so that the policy sees the
  quoted text.
\<close>

definition accented_path :: string where
  "accented_path = ''.github/workflows/'' @ [CHR 0xE9] @ ''.yml''"

definition quoted_path :: string where
  "quoted_path = [CHR 0x22] @ ''.github/workflows/'' @ [CHR 0x5C] @ ''303'' @ [CHR 0x5C] @ ''251.yml'' @ [CHR 0x22]"

text \<open>
  A change to a sensitive path can escape the classification: when git lists a changed workflow
  file whose name has a character outside ASCII, the helper returns the quoted form of the name, no
  glob matches it, and the diff is classified L2, while the path itself is L3.
\<close>

theorem quoted_name_escapes_policy:
  assumes "\<And>w. \<exists>e w'. ho_git h wt (diff_args ''--name-only'' task base) w = ((0, printed [quoted_path], e), w')"
  shows "\<exists>files. fst (changed_files h wt task base s) = Inr files
    \<and> classify_blast_radius demo_policy files = L2 \<and> classify_blast_radius demo_policy [accented_path] = L3"
proof -
  obtain e w' where "ho_git h wt (diff_args ''--name-only'' task base) (sh_world s) = ((0, printed [quoted_path], e), w')"
    using assms by meson
  moreover have "parse_names (strip (printed [quoted_path])) = [quoted_path]"
    by code_simp
  moreover have "classify_blast_radius demo_policy [quoted_path] = L2"
    by code_simp
  moreover have "classify_blast_radius demo_policy [accented_path] = L3"
    by code_simp
  ultimately show ?thesis
    by (simp add: changed_files_def git_out_def git_defs)
qed

theorem quoted_name_escapes_policy_witness:
  "\<exists>files. fst (changed_files (git_only (\<lambda>dir args w. ((0, printed [quoted_path], []), w))) [] ''t1'' ''main''
       \<lparr>sh_calls = [], sh_world = ()\<rparr>) = Inr files \<and> classify_blast_radius demo_policy files = L2"
  using quoted_name_escapes_policy[of "git_only (\<lambda>dir args w. ((0, printed [quoted_path], []), w))" "[]" "''t1''" "''main''"
      "\<lparr>sh_calls = [], sh_world = ()\<rparr>"]
  by (auto simp: git_only_def)

end
