(* ===== verification/Gitops.thy ===== *)
theory Gitops
  imports Gitdiff
begin

text \<open>
  Model of \<open>src/orchestrator/gitops.py\<close>: the clone of the repository, one worktree per task branch,
  commits and pushes. A task id is the name of its branch, so the default branch is refused as a task.
\<close>

record gitops =
  go_repo_url :: string
  go_work_root :: string
  go_default :: string

definition agent_identity :: "string list" where
  "agent_identity = [''-c'', ''user.name=myapp-agent'', ''-c'', ''user.email=agent@myapp.local'']"

definition base_dir :: "gitops \<Rightarrow> string" where
  "base_dir g = sub_path (go_work_root g) ''base''"

definition wt_dir :: "gitops \<Rightarrow> string \<Rightarrow> string" where
  "wt_dir g task_id = sub_path (sub_path (go_work_root g) ''wt'') task_id"

text \<open>A command whose output is dropped; a query of the exit code.\<close>

definition git_do :: "'w host \<Rightarrow> string \<Rightarrow> string list \<Rightarrow> ('w shell, unit) prog" where
  "git_do h dir args = thenP (git_out h dir args) (retP ())"

definition ref_exists :: "'w host \<Rightarrow> string \<Rightarrow> string \<Rightarrow> ('w shell, bool) prog" where
  "ref_exists h dir ref =
     bindP (git h False dir [''rev-parse'', ''--verify'', ''--quiet'', ref]) (\<lambda>(code, _). retP (code = 0))"

definition branch :: "gitops \<Rightarrow> string \<Rightarrow> ('w shell, string) prog" where
  "branch g task_id = (if task_id = go_default g then throwP GitError else retP task_id)"

definition ensure_base :: "'w host \<Rightarrow> gitops \<Rightarrow> ('w shell, string) prog" where
  "ensure_base h g =
     bindP (ask (ho_is_dir h (sub_path (base_dir g) ''.git''))) (\<lambda>cloned.
       thenP (if cloned then git_do h (base_dir g) [''fetch'', ''origin'']
              else git_do h [] [''clone'', go_repo_url g, base_dir g])
         (retP (base_dir g)))"

definition refresh_base :: "'w host \<Rightarrow> gitops \<Rightarrow> ('w shell, string) prog" where
  "refresh_base h g =
     bindP (ensure_base h g) (\<lambda>base.
       thenP (git_do h base [''checkout'', ''-q'', go_default g])
      (thenP (git_do h base [''reset'', ''--hard'', ''-q'', ''origin/'' @ go_default g])
         (retP base)))"

text \<open>The ref a new worktree starts at: the remote branch, the chain base, the default branch.\<close>

definition start_ref :: "'w host \<Rightarrow> gitops \<Rightarrow> string \<Rightarrow> string \<Rightarrow> string option \<Rightarrow> ('w shell, string) prog" where
  "start_ref h g base b base_task =
     bindP (ref_exists h base (''origin/'' @ b)) (\<lambda>resumed.
       if resumed then retP (''origin/'' @ b)
       else (case base_task of
           None \<Rightarrow> retP (''origin/'' @ go_default g)
         | Some pre \<Rightarrow>
             bindP (branch g pre) (\<lambda>pb.
             bindP (ref_exists h base (''origin/'' @ pb)) (\<lambda>pushed.
               if pushed then retP (''origin/'' @ pb) else throwP GitError))))"

definition task_worktree :: "'w host \<Rightarrow> gitops \<Rightarrow> string \<Rightarrow> string option \<Rightarrow> ('w shell, string) prog" where
  "task_worktree h g task_id base_task =
     bindP (branch g task_id) (\<lambda>b.
     bindP (ensure_base h g) (\<lambda>base.
     bindP (ask (ho_exists h (sub_path (wt_dir g task_id) ''.git''))) (\<lambda>present.
       if present then retP (wt_dir g task_id)
       else thenP (git_do h base [''worktree'', ''prune''])
         (bindP (start_ref h g base b base_task) (\<lambda>start.
            thenP (git_do h base [''worktree'', ''add'', ''-B'', b, wt_dir g task_id, start])
              (retP (wt_dir g task_id)))))))"

definition fetch_origin :: "'w host \<Rightarrow> string \<Rightarrow> ('w shell, unit) prog" where
  "fetch_origin h wt = git_do h wt [''fetch'', ''origin'']"

text \<open>\<open>show_file\<close> returns the output as it is, not stripped.\<close>

definition show_file :: "'w host \<Rightarrow> string \<Rightarrow> string \<Rightarrow> string \<Rightarrow> ('w shell, string option) prog" where
  "show_file h wt ref rel_path =
     bindP (run_git h wt [''show'', ref @ '':'' @ rel_path]) (\<lambda>(code, out, err).
       retP (if code = 0 then Some out else None))"

definition sync_worktree_to_origin :: "'w host \<Rightarrow> gitops \<Rightarrow> string \<Rightarrow> string \<Rightarrow> ('w shell, bool) prog" where
  "sync_worktree_to_origin h g wt task_id =
     bindP (branch g task_id) (\<lambda>b.
       thenP (git_do h wt [''fetch'', ''origin''])
      (bindP (ref_exists h wt (''origin/'' @ b)) (\<lambda>has_remote.
         if \<not> has_remote then retP False
         else thenP (git_do h wt [''reset'', ''--hard'', ''origin/'' @ b]) (retP True))))"

definition git_commit_all :: "'w host \<Rightarrow> string \<Rightarrow> string \<Rightarrow> ('w shell, string option) prog" where
  "git_commit_all h wt message =
     bindP (git_out h wt [''status'', ''--porcelain'']) (\<lambda>dirty.
       if dirty = [] then retP None
       else thenP (git_do h wt [''add'', ''-A''])
           (thenP (git_do h wt (agent_identity @ [''commit'', ''-q'', ''-m'', message]))
             (bindP (head_sha_of h wt) (\<lambda>sha. retP (Some sha)))))"

definition chain_base_satisfied :: "'w host \<Rightarrow> gitops \<Rightarrow> string \<Rightarrow> string \<Rightarrow> ('w shell, bool) prog" where
  "chain_base_satisfied h g wt base_task =
     bindP (branch g base_task) (\<lambda>b.
     bindP (run_git h wt [''rev-list'', ''--count'', ''origin/'' @ b, ''^HEAD'']) (\<lambda>(code, out, err).
       retP (code = 0 \<and> strip out = ''0'')))"

definition blob_sha :: "'w host \<Rightarrow> string \<Rightarrow> string \<Rightarrow> ('w shell, string) prog" where
  "blob_sha h wt rel_path = git_out h wt [''hash-object'', rel_path]"

definition push_branch :: "'w host \<Rightarrow> gitops \<Rightarrow> string \<Rightarrow> string \<Rightarrow> ('w shell, unit) prog" where
  "push_branch h g wt task_id =
     bindP (branch g task_id) (\<lambda>b. git_do h wt [''push'', ''origin'', ''HEAD:refs/heads/'' @ b])"

section \<open>The default branch is never written\<close>

text \<open>
  The commands that could write a branch of the remote or move the local one: a push goes to the
  branch of a task, a worktree is created on the branch of a task.
\<close>

definition spares_default :: "gitops \<Rightarrow> git_call \<Rightarrow> bool" where
  "spares_default g c =
     (case gc_args c of
        [] \<Rightarrow> True
      | verb # rest \<Rightarrow>
          (verb = ''push'' \<longrightarrow> (\<exists>b. rest = [''origin'', ''HEAD:refs/heads/'' @ b] \<and> b \<noteq> go_default g))
        \<and> (verb = ''worktree'' \<and> rest \<noteq> [''prune''] \<longrightarrow>
             (\<exists>b dir start. rest = [''add'', ''-B'', b, dir, start] \<and> b \<noteq> go_default g)))"

lemma calls_git_do [calls_intros]:
  "(\<And>code. C \<lparr>gc_dir = dir, gc_args = args, gc_code = code\<rparr>) \<Longrightarrow> calls_in C (git_do h dir args)"
  unfolding git_do_def by (intro calls_intros) auto

lemma calls_ref_exists [calls_intros]:
  "(\<And>code. C \<lparr>gc_dir = dir, gc_args = [''rev-parse'', ''--verify'', ''--quiet'', ref], gc_code = code\<rparr>) \<Longrightarrow>
   calls_in C (ref_exists h dir ref)"
  unfolding ref_exists_def by (intro calls_intros) auto

text \<open>A program that names the branch of a task first runs the rest only when it is not the default.\<close>

lemma calls_branch [calls_intros]:
  "(task_id \<noteq> go_default g \<Longrightarrow> calls_in C (f task_id)) \<Longrightarrow> calls_in C (bindP (branch g task_id) f)"
  by (auto simp: branch_def calls_in_def bindP_def prog_defs)

lemma calls_ensure_base [calls_intros]: "calls_in (spares_default g) (ensure_base h g)"
  unfolding ensure_base_def by (intro calls_intros) (simp_all add: spares_default_def)

lemma calls_queries [calls_intros]:
  "calls_in (spares_default g) (show_file h wt ref rel_path)"
  "calls_in (spares_default g) (chain_base_satisfied h g wt base_task)"
  unfolding show_file_def chain_base_satisfied_def by (intro calls_intros; simp add: spares_default_def)+

lemma calls_start_ref [calls_intros]: "calls_in (spares_default g) (start_ref h g base b base_task)"
  unfolding start_ref_def by (intro calls_intros) (simp_all add: spares_default_def)

lemma calls_provision:
  "calls_in (spares_default g) (refresh_base h g)"
  "calls_in (spares_default g) (task_worktree h g task_id base_task)"
  "calls_in (spares_default g) (fetch_origin h wt)"
  "calls_in (spares_default g) (sync_worktree_to_origin h g wt task_id)"
  "calls_in (spares_default g) (push_branch h g wt task_id)"
  unfolding refresh_base_def task_worktree_def fetch_origin_def sync_worktree_to_origin_def push_branch_def
  by (intro calls_intros; simp add: spares_default_def)+

lemma calls_readers:
  "calls_in (spares_default g) (head_sha_of h wt)"
  "calls_in (spares_default g) (code_sha h wt task_id)"
  "calls_in (spares_default g) (changed_files h wt task_id base)"
  "calls_in (spares_default g) (diff_text h wt base)"
  "calls_in (spares_default g) (diff_line_count h wt task_id base)"
  "calls_in (spares_default g) (changed_statuses h wt task_id base)"
  "calls_in (spares_default g) (blob_sha h wt rel_path)"
  unfolding head_sha_of_def code_sha_def changed_files_def diff_text_def diff_line_count_def changed_statuses_def
    blob_sha_def policy_pathspec_def diff_args_def
  by (intro calls_intros; simp add: spares_default_def)+

lemma calls_commit_all: "calls_in (spares_default g) (git_commit_all h wt message)"
  unfolding git_commit_all_def
  by (intro calls_intros calls_readers; simp add: spares_default_def agent_identity_def)


end
