(* ===== verification/Hub_Tripwire.thy ===== *)
theory Hub_Tripwire
  imports Git_Host
begin

text \<open>
  Model of \<open>src/orchestrator/hub_tripwire.py\<close>: where the main branch of the hub sits, compared with
  local main and with the commit seen last, which git keeps in the remote-tracking ref.
\<close>

datatype hub_main_state = HubOk | HubFresh | HubDeleted | HubRewound | HubDiverged | HubUnreachable

record hub_main_check =
  hc_state :: hub_main_state
  hc_detail :: string

definition hub_check :: "hub_main_state \<Rightarrow> string \<Rightarrow> ('w shell, hub_main_check) prog" where
  "hub_check st detail = retP \<lparr>hc_state = st, hc_detail = detail\<rparr>"

definition check_ok :: "hub_main_check \<Rightarrow> bool" where
  "check_ok c = (hc_state c = HubOk \<or> hc_state c = HubFresh)"

definition tracking_ref :: "string \<Rightarrow> string \<Rightarrow> string" where
  "tracking_ref branch_remote base_branch = ''refs/remotes/'' @ branch_remote @ ''/'' @ base_branch"

text \<open>The checks of a tip the hub has: known, contained in local main, ahead of the tip seen last.\<close>

definition is_rewound :: "'w host \<Rightarrow> string \<Rightarrow> string \<Rightarrow> string \<Rightarrow> ('w shell, bool) prog" where
  "is_rewound h repo last_seen hub_sha =
     (if last_seen \<noteq> [] then
        bindP (git h False repo [''merge-base'', ''--is-ancestor'', last_seen, hub_sha]) (\<lambda>(forward, _).
          retP (forward \<noteq> 0))
      else retP False)"

definition record_tip :: "'w host \<Rightarrow> string \<Rightarrow> string \<Rightarrow> string \<Rightarrow> string \<Rightarrow> string \<Rightarrow> ('w shell, unit) prog" where
  "record_tip h repo branch_remote base_branch last_seen hub_sha =
     (let tracking = tracking_ref branch_remote base_branch in
      if hub_sha \<noteq> last_seen then
        bindP (git h False repo [''update-ref'', tracking, hub_sha]) (\<lambda>(code, out).
          if code \<noteq> 0
          then throwP (RuntimeError (''could not record verified hub '' @ base_branch @ '' at '' @ tracking @ '': '' @ out))
          else retP ())
      else retP ())"

definition check_tip ::
  "'w host \<Rightarrow> string \<Rightarrow> string \<Rightarrow> string \<Rightarrow> string \<Rightarrow> string \<Rightarrow> ('w shell, hub_main_check) prog" where
  "check_tip h repo branch_remote base_branch last_seen hub_sha =
     bindP (git h False repo [''cat-file'', ''-e'', hub_sha @ ''^{commit}'']) (\<lambda>(known, _).
     if known \<noteq> 0 then hub_check HubDiverged
       (''hub '' @ base_branch @ '' points at '' @ hub_sha @ '', a commit unknown to local history'')
     else bindP (git h False repo [''merge-base'', ''--is-ancestor'', hub_sha, base_branch]) (\<lambda>(ancestor, _).
     if ancestor \<noteq> 0 then hub_check HubDiverged
       (''hub '' @ base_branch @ '' at '' @ hub_sha @ '' is not an ancestor of local '' @ base_branch)
     else bindP (is_rewound h repo last_seen hub_sha) (\<lambda>rewound.
     if rewound then hub_check HubRewound
       (''hub '' @ base_branch @ '' moved from last-seen '' @ last_seen @ '' to '' @ hub_sha
        @ '', which is NOT a fast-forward of it (an older or sideways commit)'')
     else thenP (record_tip h repo branch_remote base_branch last_seen hub_sha) (hub_check HubOk []))))"

definition compare_hub ::
  "'w host \<Rightarrow> string \<Rightarrow> string \<Rightarrow> string \<Rightarrow> string \<Rightarrow> int \<Rightarrow> string \<Rightarrow> ('w shell, hub_main_check) prog" where
  "compare_hub h repo branch_remote base_branch last_seen code out =
     (if code = 2 then
       (if last_seen \<noteq> [] then hub_check HubDeleted
          (''hub '' @ base_branch @ '' was last seen at '' @ last_seen
           @ '' and is now GONE from the hub; a fresh hub never had one'')
        else hub_check HubFresh (''hub has never had a '' @ base_branch @ ''; nothing to compare against''))
     else if code \<noteq> 0 then hub_check HubUnreachable out
     else (case words out of
         [] \<Rightarrow> hub_check HubUnreachable ''unexpected empty ls-remote output''
       | hub_sha # _ \<Rightarrow> check_tip h repo branch_remote base_branch last_seen hub_sha))"

definition check_hub_main :: "'w host \<Rightarrow> string \<Rightarrow> string \<Rightarrow> string \<Rightarrow> ('w shell, hub_main_check) prog" where
  "check_hub_main h repo branch_remote base_branch =
     bindP (git h False repo [''rev-parse'', ''--verify'', ''--quiet'', tracking_ref branch_remote base_branch])
       (\<lambda>(code, out). let last_seen = (if code = 0 then out else []) in
     bindP (git h False repo [''ls-remote'', ''--exit-code'', branch_remote, ''refs/heads/'' @ base_branch])
       (\<lambda>(code, out). compare_hub h repo branch_remote base_branch last_seen code out))"

definition hub_main_ancestor_of_local :: "'w host \<Rightarrow> string \<Rightarrow> string \<Rightarrow> string \<Rightarrow> ('w shell, bool) prog" where
  "hub_main_ancestor_of_local h repo branch_remote base_branch =
     bindP (check_hub_main h repo branch_remote base_branch) (\<lambda>c. retP (check_ok c))"

section \<open>The specification\<close>

text \<open>
  What the check is about: the tip of the hub, or why there is none, the tip seen last, the commits
  the local repository has and their order. \<open>hub_state\<close> classifies it.
\<close>

datatype hub_tip = Unreachable | Gone | Tip string

record hub_view =
  hv_tip :: hub_tip
  hv_seen :: "string option"
  hv_known :: "string set"
  hv_ancestor :: "string \<Rightarrow> string \<Rightarrow> bool"

definition hub_state :: "string \<Rightarrow> hub_view \<Rightarrow> hub_main_state" where
  "hub_state base v = (case hv_tip v of
       Unreachable \<Rightarrow> HubUnreachable
     | Gone \<Rightarrow> if hv_seen v = None then HubFresh else HubDeleted
     | Tip t \<Rightarrow>
         if t \<notin> hv_known v \<or> \<not> hv_ancestor v t base then HubDiverged
         else if \<exists>p. hv_seen v = Some p \<and> \<not> hv_ancestor v p t then HubRewound
         else HubOk)"

definition verified :: "string \<Rightarrow> hub_view \<Rightarrow> hub_view" where
  "verified base v = (case hv_tip v of
       Tip t \<Rightarrow> if hub_state base v = HubOk then v\<lparr>hv_seen := Some t\<rparr> else v
     | _ \<Rightarrow> v)"

text \<open>
  The documented behaviour of the five git commands, over a view of the state: the commands that read
  leave the view alone, \<open>update-ref\<close> sets the ref. Commit names are non-empty words.
\<close>

definition exit_is :: "bool \<Rightarrow> int \<Rightarrow> bool" where
  "exit_is b code = (code = 0 \<longleftrightarrow> b)"

definition commit_name :: "string \<Rightarrow> bool" where
  "commit_name s = (s \<noteq> [] \<and> list_all (\<lambda>c. \<not> is_space c) s)"

definition git_answers :: "'w host \<Rightarrow> string \<Rightarrow> string list \<Rightarrow> 'w \<Rightarrow> (int \<Rightarrow> string \<Rightarrow> 'w \<Rightarrow> bool) \<Rightarrow> bool" where
  "git_answers h repo args w Q = (case ho_git h repo args w of ((code, out, err), w') \<Rightarrow> Q code (out @ err) w')"

definition git_documented :: "'w host \<Rightarrow> string \<Rightarrow> string \<Rightarrow> string \<Rightarrow> ('w \<Rightarrow> hub_view) \<Rightarrow> bool" where
  "git_documented h repo remote base view = (\<forall>w.
     (\<forall>p. hv_seen (view w) = Some p \<longrightarrow> commit_name p)
   \<and> (\<forall>t. hv_tip (view w) = Tip t \<longrightarrow> commit_name t)
   \<and> git_answers h repo [''rev-parse'', ''--verify'', ''--quiet'', tracking_ref remote base] w (\<lambda>code out w'.
        view w' = view w \<and> (case hv_seen (view w) of Some p \<Rightarrow> code = 0 \<and> strip out = p | None \<Rightarrow> code \<noteq> 0))
   \<and> git_answers h repo [''ls-remote'', ''--exit-code'', remote, ''refs/heads/'' @ base] w (\<lambda>code out w'.
        view w' = view w \<and> (case hv_tip (view w) of
            Gone \<Rightarrow> code = 2 | Unreachable \<Rightarrow> code \<noteq> 0 \<and> code \<noteq> 2
          | Tip t \<Rightarrow> code = 0 \<and> (\<exists>rest. words (strip out) = t # rest)))
   \<and> (\<forall>c. git_answers h repo [''cat-file'', ''-e'', c @ ''^{commit}''] w (\<lambda>code out w'.
        view w' = view w \<and> exit_is (c \<in> hv_known (view w)) code))
   \<and> (\<forall>a b. git_answers h repo [''merge-base'', ''--is-ancestor'', a, b] w (\<lambda>code out w'.
        view w' = view w \<and> exit_is (hv_ancestor (view w) a b) code))
   \<and> (\<forall>c. c \<in> hv_known (view w) \<longrightarrow> git_answers h repo [''update-ref'', tracking_ref remote base, c] w (\<lambda>code out w'.
        view w' = (view w)\<lparr>hv_seen := Some c\<rparr> \<and> code = 0)))"

section \<open>The check implements the specification\<close>

text \<open>One command: what its answer shows.\<close>

lemma git_result:
  assumes "git_answers h repo args (sh_world s) Q" "git h False repo args s = (r, s')"
  obtains code out where "r = Inr (code, strip out)" "Q code out (sh_world s')"
  using assms unfolding git_answers_def by (auto simp: git_defs Let_def split: prod.splits)

lemma bindP_step: "m s = (Inr a, t) \<Longrightarrow> bindP m f s = f a t"
  by (simp add: bindP_def)

lemma git_step:
  assumes "git_answers h repo args (sh_world s) Q"
  obtains code out s' where "git h False repo args s = (Inr (code, strip out), s')" "Q code out (sh_world s')"
proof (cases "git h False repo args s")
  case (Pair r s')
  from assms Pair show thesis
    by (rule git_result) (use Pair that in blast)
qed

lemma documentedD:
  assumes "git_documented h repo remote base view"
  shows "hv_seen (view w) = Some p \<Longrightarrow> commit_name p"
    and "hv_tip (view w) = Tip t \<Longrightarrow> commit_name t"
    and "git_answers h repo [''rev-parse'', ''--verify'', ''--quiet'', tracking_ref remote base] w (\<lambda>code out w'.
        view w' = view w \<and> (case hv_seen (view w) of Some p \<Rightarrow> code = 0 \<and> strip out = p | None \<Rightarrow> code \<noteq> 0))"
    and "git_answers h repo [''ls-remote'', ''--exit-code'', remote, ''refs/heads/'' @ base] w (\<lambda>code out w'.
        view w' = view w \<and> (case hv_tip (view w) of
            Gone \<Rightarrow> code = 2 | Unreachable \<Rightarrow> code \<noteq> 0 \<and> code \<noteq> 2
          | Tip t \<Rightarrow> code = 0 \<and> (\<exists>rest. words (strip out) = t # rest)))"
    and "git_answers h repo [''cat-file'', ''-e'', c @ ''^{commit}''] w (\<lambda>code out w'.
        view w' = view w \<and> exit_is (c \<in> hv_known (view w)) code)"
    and "git_answers h repo [''merge-base'', ''--is-ancestor'', a, b] w (\<lambda>code out w'.
        view w' = view w \<and> exit_is (hv_ancestor (view w) a b) code)"
    and "c \<in> hv_known (view w) \<Longrightarrow> git_answers h repo [''update-ref'', tracking_ref remote base, c] w (\<lambda>code out w'.
        view w' = (view w)\<lparr>hv_seen := Some c\<rparr> \<and> code = 0)"
  using assms unfolding git_documented_def by blast+

lemma is_rewound_result:
  assumes "git_documented h repo remote base view" "last_seen = (case hv_seen (view (sh_world s)) of Some p \<Rightarrow> p | None \<Rightarrow> [])"
  obtains s' where "view (sh_world s') = view (sh_world s)"
    "is_rewound h repo last_seen tip s =
       (Inr (\<exists>p. hv_seen (view (sh_world s)) = Some p \<and> \<not> hv_ancestor (view (sh_world s)) p tip), s')"
proof (cases "hv_seen (view (sh_world s))")
  case None
  then show thesis
    using that[of s] assms(2) by (simp add: is_rewound_def retP_def)
next
  case (Some p)
  then have p: "last_seen = p" "p \<noteq> []"
    using assms documentedD(1)[OF assms(1) Some] by (simp_all add: commit_name_def)
  obtain code out s' where "git h False repo [''merge-base'', ''--is-ancestor'', p, tip] s = (Inr (code, strip out), s')"
    "view (sh_world s') = view (sh_world s) \<and> exit_is (hv_ancestor (view (sh_world s)) p tip) code"
    using documentedD(6)[OF assms(1)] by (rule git_step)
  then show thesis
    using that[of s'] p Some by (simp add: is_rewound_def bindP_step retP_def exit_is_def)
qed

lemma record_tip_result:
  assumes "git_documented h repo remote base view" "tip \<in> hv_known (view (sh_world s))" "commit_name tip"
    and "last_seen = (case hv_seen (view (sh_world s)) of Some p \<Rightarrow> p | None \<Rightarrow> [])"
  obtains s' where "record_tip h repo remote base last_seen tip s = (Inr (), s')"
    "view (sh_world s') = (view (sh_world s))\<lparr>hv_seen := Some tip\<rparr>"
proof (cases "tip = last_seen")
  case True
  then have "hv_seen (view (sh_world s)) = Some tip"
    using assms(3,4) by (auto simp: commit_name_def split: option.splits)
  then show thesis
    using that[of s] True by (simp add: record_tip_def Let_def retP_def)
next
  case False
  obtain code out s' where "git h False repo [''update-ref'', tracking_ref remote base, tip] s = (Inr (code, strip out), s')"
    "view (sh_world s') = (view (sh_world s))\<lparr>hv_seen := Some tip\<rparr> \<and> code = 0"
    using documentedD(7)[OF assms(1,2)] by (rule git_step)
  then show thesis
    using that[of s'] False by (simp add: record_tip_def Let_def bindP_step retP_def)
qed

lemma check_tip_refines:
  assumes doc: "git_documented h repo remote base view" and tip: "hv_tip (view (sh_world s)) = Tip t"
    and seen: "last_seen = (case hv_seen (view (sh_world s)) of Some p \<Rightarrow> p | None \<Rightarrow> [])"
  shows "\<exists>c s'. check_tip h repo remote base last_seen t s = (Inr c, s')
     \<and> hc_state c = hub_state base (view (sh_world s)) \<and> view (sh_world s') = verified base (view (sh_world s))"
proof -
  let ?v = "view (sh_world s)"
  obtain k o1 s1 where g1: "git h False repo [''cat-file'', ''-e'', t @ ''^{commit}''] s = (Inr (k, strip o1), s1)"
    and v1: "view (sh_world s1) = ?v \<and> exit_is (t \<in> hv_known ?v) k"
    using documentedD(5)[OF doc] by (rule git_step)
  obtain a o2 s2 where g2: "git h False repo [''merge-base'', ''--is-ancestor'', t, base] s1 = (Inr (a, strip o2), s2)"
    and v2: "view (sh_world s2) = view (sh_world s1) \<and> exit_is (hv_ancestor (view (sh_world s1)) t base) a"
    using documentedD(6)[OF doc] by (rule git_step)
  have seen2: "last_seen = (case hv_seen (view (sh_world s2)) of Some p \<Rightarrow> p | None \<Rightarrow> [])"
    using seen v1 v2 by simp
  obtain s3 where v3: "view (sh_world s3) = view (sh_world s2)"
    and g3: "is_rewound h repo last_seen t s2 =
       (Inr (\<exists>p. hv_seen (view (sh_world s2)) = Some p \<and> \<not> hv_ancestor (view (sh_world s2)) p t), s3)"
    using doc seen2 by (rule is_rewound_result)
  show ?thesis
  proof (cases "k = 0 \<and> a = 0 \<and> \<not> (\<exists>p. hv_seen ?v = Some p \<and> \<not> hv_ancestor ?v p t)")
    case True
    have known: "t \<in> hv_known (view (sh_world s3))" "commit_name t"
      using True v1 v2 v3 documentedD(2)[OF doc tip] by (simp_all add: exit_is_def)
    have seen3: "last_seen = (case hv_seen (view (sh_world s3)) of Some p \<Rightarrow> p | None \<Rightarrow> [])"
      using seen2 v3 by simp
    obtain s4 where "record_tip h repo remote base last_seen t s3 = (Inr (), s4)"
      "view (sh_world s4) = (view (sh_world s3))\<lparr>hv_seen := Some t\<rparr>"
      using doc known seen3 by (rule record_tip_result)
    then show ?thesis
      using True g1 g2 g3 v1 v2 v3 tip
      by (simp add: check_tip_def bindP_step thenP_def hub_check_def retP_def hub_state_def verified_def exit_is_def)
  next
    case False
    then show ?thesis
      using g1 g2 g3 v1 v2 v3 tip
      by (auto simp: check_tip_def bindP_step hub_check_def retP_def hub_state_def verified_def exit_is_def)
  qed
qed

lemma tripwire_refines:
  assumes doc: "git_documented h repo remote base view"
  shows "\<exists>c s'. check_hub_main h repo remote base s = (Inr c, s')
     \<and> hc_state c = hub_state base (view (sh_world s)) \<and> view (sh_world s') = verified base (view (sh_world s))"
proof -
  let ?v = "view (sh_world s)"
  obtain k o1 s1 where g1: "git h False repo [''rev-parse'', ''--verify'', ''--quiet'', tracking_ref remote base] s
      = (Inr (k, strip o1), s1)"
    and v1: "view (sh_world s1) = ?v \<and> (case hv_seen ?v of Some p \<Rightarrow> k = 0 \<and> strip o1 = p | None \<Rightarrow> k \<noteq> 0)"
    using documentedD(3)[OF doc] by (rule git_step)
  obtain l o2 s2 where g2: "git h False repo [''ls-remote'', ''--exit-code'', remote, ''refs/heads/'' @ base] s1
      = (Inr (l, strip o2), s2)"
    and v2: "view (sh_world s2) = view (sh_world s1) \<and> (case hv_tip (view (sh_world s1)) of
            Gone \<Rightarrow> l = 2 | Unreachable \<Rightarrow> l \<noteq> 0 \<and> l \<noteq> 2
          | Tip t \<Rightarrow> l = 0 \<and> (\<exists>rest. words (strip o2) = t # rest))"
    using documentedD(4)[OF doc] by (rule git_step)
  define last_seen where "last_seen = (if k = 0 then strip o1 else [])"
  have seen: "last_seen = (case hv_seen (view (sh_world s2)) of Some p \<Rightarrow> p | None \<Rightarrow> [])"
    using v1 v2 by (auto simp: last_seen_def split: option.splits)
  have name: "p \<noteq> []" if "hv_seen ?v = Some p" for p
    using documentedD(1)[OF doc that] by (simp add: commit_name_def)
  have start: "check_hub_main h repo remote base s = compare_hub h repo remote base last_seen l (strip o2) s2"
    using g1 g2 by (simp add: check_hub_main_def bindP_step last_seen_def Let_def)
  show ?thesis
  proof (cases "hv_tip ?v")
    case (Tip t)
    then obtain rest where "l = 0" "words (strip o2) = t # rest"
      using v1 v2 by auto
    moreover have "hv_tip (view (sh_world s2)) = Tip t"
      using Tip v1 v2 by simp
    ultimately show ?thesis
      using check_tip_refines[OF doc _ seen] v1 v2 unfolding start compare_hub_def by simp
  next
    case Unreachable
    then show ?thesis
      using v1 v2 unfolding start compare_hub_def by (simp add: hub_check_def retP_def hub_state_def verified_def)
  next
    case Gone
    then show ?thesis
      using v1 v2 seen name unfolding start compare_hub_def
      by (auto simp: hub_check_def retP_def hub_state_def verified_def split: option.splits)
  qed
qed


text \<open>
  A git that behaves as documented, over one line of history: the commit \<open>n\<close> is a word of \<open>n + 1\<close>
  letters, the state is the tip of the hub and the tip seen last.
\<close>

definition line_commit :: "nat \<Rightarrow> string" where
  "line_commit n = replicate (Suc n) (CHR ''a'')"

definition on_line :: "string \<Rightarrow> bool" where
  "on_line c = (c \<noteq> [] \<and> list_all (\<lambda>x. x = CHR ''a'') c)"

definition line_view :: "nat option \<times> nat option \<Rightarrow> hub_view" where
  "line_view w = \<lparr>hv_tip = (case fst w of None \<Rightarrow> Gone | Some n \<Rightarrow> Tip (line_commit n)),
     hv_seen = map_option line_commit (snd w), hv_known = {c. on_line c},
     hv_ancestor = (\<lambda>a b. length a \<le> length b)\<rparr>"

definition line_git :: "string \<Rightarrow> string list \<Rightarrow> nat option \<times> nat option \<Rightarrow> (int \<times> string \<times> string) \<times> (nat option \<times> nat option)" where
  "line_git dir args w =
     (if hd args = ''rev-parse'' then
        (case snd w of None \<Rightarrow> ((1, [], []), w) | Some n \<Rightarrow> ((0, line_commit n, []), w))
      else if hd args = ''ls-remote'' then
        (case fst w of None \<Rightarrow> ((2, [], []), w) | Some n \<Rightarrow> ((0, line_commit n, []), w))
      else if hd args = ''cat-file'' then
        ((if on_line (take (length (last args) - 9) (last args)) then 0 else 1, [], []), w)
      else if hd args = ''merge-base'' then
        ((if length (args ! 2) \<le> length (args ! 3) then 0 else 1, [], []), w)
      else ((0, [], []), (fst w, Some (length (last args) - 1))))"

definition line_host :: "(nat option \<times> nat option) host" where
  "line_host = git_only line_git"

lemma is_space_a [simp]: "\<not> is_space (CHR ''a'')"
  by code_simp

lemma line_commit_name [simp]: "commit_name (line_commit n)"
  by (simp add: commit_name_def line_commit_def list_all_iff)

lemma name_unspaced:
  assumes "commit_name c"
  shows "lstrip c = c" "rstrip c = c" "takeWhile (\<lambda>x. \<not> is_space x) c = c" "dropWhile (\<lambda>x. \<not> is_space x) c = []"
proof -
  have all: "\<not> is_space x" if "x \<in> set c" for x
    using assms that by (simp add: commit_name_def list_all_iff)
  then show "takeWhile (\<lambda>x. \<not> is_space x) c = c" "dropWhile (\<lambda>x. \<not> is_space x) c = []"
    by (simp_all add: takeWhile_eq_all_conv dropWhile_eq_Nil_conv)
  show "lstrip c = c"
    using all assms by (cases c) (simp_all add: lstrip_def)
  show "rstrip c = c"
    using all assms by (cases c rule: rev_cases) (simp_all add: rstrip_def)
qed

lemma strip_name: "commit_name c \<Longrightarrow> strip c = c"
  by (simp add: strip_def name_unspaced)

lemma words_Nil [simp]: "words [] = []"
  by (subst words.simps) (simp add: lstrip_def)

lemma words_name: "commit_name c \<Longrightarrow> words c = [c]"
  by (subst words.simps) (simp add: Let_def name_unspaced commit_name_def)

lemma line_commit_length: "on_line c \<Longrightarrow> line_commit (length c - Suc 0) = c"
  by (cases c) (simp_all add: on_line_def line_commit_def list_all_iff replicate_length_same)

lemma line_documented: "git_documented line_host repo remote base line_view"
  unfolding git_documented_def git_answers_def
  by (auto simp: line_host_def git_only_def line_git_def line_view_def exit_is_def strip_name words_name line_commit_length
      split: option.splits)

text \<open>
  The memory cannot be erased through the hub: once a tip passed, a hub whose main then disappears,
  or moves to a commit that does not contain that tip, never passes again - whatever else the state of
  the hub - and the refused check leaves the memory as it was, so that it goes on tripping.
\<close>

theorem tripwire_remembers:
  assumes "git_documented h repo remote base view" "view (sh_world s) = v" "hv_seen v = Some p"
    and "hv_tip v = Gone \<or> (\<exists>t. hv_tip v = Tip t \<and> \<not> hv_ancestor v p t)"
  shows "\<exists>c s'. check_hub_main h repo remote base s = (Inr c, s') \<and> \<not> check_ok c
     \<and> hc_state c \<in> {HubDeleted, HubRewound, HubDiverged} \<and> view (sh_world s') = v"
proof -
  obtain c s' where "check_hub_main h repo remote base s = (Inr c, s')"
    "hc_state c = hub_state base v" "view (sh_world s') = verified base v"
    using tripwire_refines assms(1,2) by blast
  then show ?thesis
    using assms(3,4) by (fastforce simp: hub_state_def verified_def check_ok_def split: if_splits hub_tip.splits)
qed


theorem tripwire_remembers_witness:
  "\<exists>c s'. check_hub_main line_host [] ''vps'' ''main'' \<lparr>sh_calls = [], sh_world = (None, Some 1)\<rparr> = (Inr c, s')
     \<and> hc_state c \<in> {HubDeleted, HubRewound, HubDiverged}"
  using tripwire_remembers[OF line_documented refl, of "\<lparr>sh_calls = [], sh_world = (None, Some 1)\<rparr>" "''aa''" "[]" "''vps''" "''main''"]
  by (auto simp: line_view_def line_commit_def)

end
