(* ===== verification/Merge_Worktree.thy ===== *)
theory Merge_Worktree
  imports Git_Host Json "HOL-Library.List_Lexorder"
begin

text \<open>
  The scratch worktrees of \<open>src/orchestrator/local_merge.py\<close>: the branch under judgment is checked out
  next to the Director's own tree, cleared of the agent configuration it ships, and removed again;
  leftovers of an interrupted run are found and cleared before a batch.
\<close>

section \<open>Agent configuration\<close>

text \<open>
  A directory as \<open>os.walk\<close> lists it: links to directories are listed among the directories and are
  not followed. \<open>neutral\<close> is the tree \<open>_neutralize_agent_config\<close> leaves.
\<close>

datatype node = WFile | WLink bool | WDir "(string \<times> node) list"

type_synonym tree = "(string \<times> node) list"

definition untrusted_dir_names :: "string list" where
  "untrusted_dir_names = [''.claude'', ''.codex'']"

definition untrusted_file_names :: "string list" where
  "untrusted_file_names = [''claude.md'', ''claude.local.md'', ''agents.md'', ''gemini.md'', ''.mcp.json'']"

definition listed_as_dir :: "node \<Rightarrow> bool" where
  "listed_as_dir n = (case n of WFile \<Rightarrow> False | WLink to_dir \<Rightarrow> to_dir | WDir _ \<Rightarrow> True)"

definition hostile :: "string \<Rightarrow> node \<Rightarrow> bool" where
  "hostile name n =
     (if listed_as_dir n then casefold name \<noteq> ''.git'' \<and> casefold name \<in> set untrusted_dir_names
      else casefold name \<in> set untrusted_file_names)"

fun neutral :: "tree \<Rightarrow> tree" where
  "neutral [] = []"
| "neutral ((name, n) # rest) =
     (if hostile name n then neutral rest
      else (name, case n of WDir sub \<Rightarrow> if casefold name = ''.git'' then WDir sub else WDir (neutral sub) | _ \<Rightarrow> n)
           # neutral rest)"

text \<open>What is reached by a path, and without entering the metadata of git.\<close>

inductive at :: "tree \<Rightarrow> string list \<Rightarrow> node \<Rightarrow> bool" where
  at_here: "(name, n) \<in> set es \<Longrightarrow> at es [name] n"
| at_below: "(name, WDir sub) \<in> set es \<Longrightarrow> casefold name \<noteq> ''.git'' \<Longrightarrow> at sub p n \<Longrightarrow> at es (name # p) n"

inductive_cases at_oneE: "at es [name] n"
inductive_cases at_stepE: "at es (name # p) n"

lemma at_nonempty: "at es p n \<Longrightarrow> p \<noteq> []"
  by (induction rule: at.induct) auto

lemma at_one [simp]: "at es [name] n \<longleftrightarrow> (name, n) \<in> set es"
  by (auto elim!: at_oneE dest: at_nonempty intro: at_here)

definition clean_node :: "string \<Rightarrow> node \<Rightarrow> node" where
  "clean_node name n =
     (case n of WDir sub \<Rightarrow> if casefold name = ''.git'' then WDir sub else WDir (neutral sub) | _ \<Rightarrow> n)"

lemma neutral_entries:
  "set (neutral es) = {(name, clean_node name n) | name n. (name, n) \<in> set es \<and> \<not> hostile name n}"
  by (induction es rule: neutral.induct) (auto simp: clean_node_def)

lemma hostile_clean [simp]: "hostile name (clean_node name n) = hostile name n"
  by (simp add: hostile_def clean_node_def listed_as_dir_def split: node.splits)

lemma clean_WDir: "clean_node name n = WDir sub \<Longrightarrow> casefold name \<noteq> ''.git'' \<Longrightarrow> \<exists>sub'. n = WDir sub' \<and> sub = neutral sub'"
  by (auto simp: clean_node_def split: node.splits)

lemma at_neutral:
  "at ts p n \<Longrightarrow> ts = neutral es \<Longrightarrow> \<not> hostile (last p) n \<and> (\<exists>n0. at es p n0 \<and> n = clean_node (last p) n0)"
proof (induction arbitrary: es rule: at.induct)
  case (at_here name n ts)
  then show ?case
    by (auto simp: neutral_entries)
next
  case (at_below name sub ts p n)
  then obtain n0 where n0: "(name, n0) \<in> set es" "WDir sub = clean_node name n0"
    by (auto simp: neutral_entries)
  then obtain sub' where "n0 = WDir sub'" "sub = neutral sub'"
    using clean_WDir[of name n0 sub] at_below.hyps(2) by auto
  then show ?case
    using at_below.IH[of sub'] n0 at_below.hyps at_nonempty[OF at_below.hyps(3)]
    by (auto intro: at.at_below)
qed

text \<open>The names on a path, each with what is there.\<close>

inductive harmless :: "tree \<Rightarrow> string list \<Rightarrow> node \<Rightarrow> bool" where
  "(name, n) \<in> set es \<Longrightarrow> \<not> hostile name n \<Longrightarrow> harmless es [name] n"
| "(name, WDir sub) \<in> set es \<Longrightarrow> casefold name \<noteq> ''.git'' \<Longrightarrow> \<not> hostile name (WDir sub) \<Longrightarrow> harmless sub p n \<Longrightarrow>
     harmless es (name # p) n"

lemma harmless_kept: "harmless es p n \<Longrightarrow> at (neutral es) p (clean_node (last p) n)"
proof (induction rule: harmless.induct)
  case (1 name n es)
  then show ?case
    by (auto simp: neutral_entries)
next
  case (2 name sub es p n)
  then have "(name, WDir (neutral sub)) \<in> set (neutral es)"
    by (auto simp: neutral_entries clean_node_def intro!: exI[of _ "WDir sub"])
  then show ?case
    using 2 at_nonempty[OF 2(5)] by (auto intro: at_below)
qed

text \<open>
  The reviewers never load the agent configuration of the branch: in the tree they run in, outside
  git's own metadata and at any depth, no directory carries the name of an agent configuration directory
  and no file the name of a steering or server configuration file, in any spelling of the case; and
  every file that lies on a path without such a name is still there.
\<close>

theorem review_tree_is_neutral:
  "(at (neutral es) p n \<longrightarrow> \<not> hostile (last p) n) \<and> (harmless es p WFile \<longrightarrow> at (neutral es) p WFile)"
  using at_neutral[OF _ refl] harmless_kept[of es p WFile] by (auto simp: clean_node_def)

definition shipped_tree :: tree where
  "shipped_tree = [(''Claude.md'', WFile), (''pkg'', WDir [(''.claude'', WDir [(''hooks'', WFile)]), (''x.py'', WFile)])]"

theorem review_tree_is_neutral_witness: "at (neutral shipped_tree) [''pkg'', ''x.py''] WFile"
proof -
  have "\<not> hostile ''pkg'' (WDir [(''.claude'', WDir [(''hooks'', WFile)]), (''x.py'', WFile)])"
    "\<not> hostile ''x.py'' WFile" "casefold ''pkg'' \<noteq> ''.git''"
    by code_simp+
  then have "harmless shipped_tree [''pkg'', ''x.py''] WFile"
    by (intro harmless.intros) (auto simp: shipped_tree_def)
  then show ?thesis
    using review_tree_is_neutral[of shipped_tree "[''pkg'', ''x.py'']" WFile] by blast
qed

section \<open>Scratch worktrees\<close>

text \<open>\<open>try\<close>/\<open>finally\<close>: the cleanup runs in every case, and its own exception replaces the result.\<close>

definition finallyP :: "('s, 'a) prog \<Rightarrow> ('s, unit) prog \<Rightarrow> ('s, 'a) prog" where
  "finallyP m f s =
     (let (r, t) = m s in case f t of (Inl e, u) \<Rightarrow> (Inl e, u) | (Inr _, u) \<Rightarrow> (r, u))"

definition git_run :: "'w host \<Rightarrow> bool \<Rightarrow> string \<Rightarrow> string list \<Rightarrow> ('w shell, unit) prog" where
  "git_run h check dir args = thenP (git h check dir args) (retP ())"

definition remove_worktree :: "'w host \<Rightarrow> string \<Rightarrow> string \<Rightarrow> ('w shell, unit) prog" where
  "remove_worktree h repo wt =
     thenP (git_run h True repo [''worktree'', ''prune''])
    (thenP
       (bindP (ask (ho_symlink h wt)) (\<lambda>link.
          if link then on_world (ho_unlink h wt)
          else bindP (ask (ho_exists h wt)) (\<lambda>present.
            whenP present
              (thenP (git_run h False repo [''worktree'', ''remove'', ''--force'', wt])
                (bindP (ask (ho_exists h wt)) (\<lambda>left. whenP left (change_world (ho_rmtree h wt))))))))
       (git_run h True repo [''worktree'', ''prune'']))"

definition clear_worktree_path :: "'w host \<Rightarrow> string \<Rightarrow> string \<Rightarrow> ('w shell, unit) prog" where
  "clear_worktree_path h repo wt =
     thenP (remove_worktree h repo wt)
       (bindP (ask (ho_exists h wt)) (\<lambda>left.
          if left then throwP (RuntimeError (''could not clear the stale worktree path '' @ wt
            @ '' before re-adding it - a process may be holding a file open on it. Close it (or delete ''
            @ ''the directory by hand) and re-run.''))
          else retP ()))"

definition stale_verify_worktrees :: "'w host \<Rightarrow> string \<Rightarrow> 'w \<Rightarrow> string list" where
  "stale_verify_worktrees h work_root w =
     (if \<not> ho_is_dir h work_root w then []
      else sort (filter (\<lambda>c. prefix ''verify-'' c \<and> \<not> ho_symlink h (sub_path work_root c) w
                              \<and> ho_is_dir h (sub_path work_root c) w) (ho_children h work_root w)))"

primrec remove_all :: "'w host \<Rightarrow> string \<Rightarrow> string \<Rightarrow> string list \<Rightarrow> ('w shell, unit) prog" where
  "remove_all h repo work_root [] = retP ()"
| "remove_all h repo work_root (c # cs) =
     thenP (remove_worktree h repo (sub_path work_root c)) (remove_all h repo work_root cs)"

definition reconcile_stale_worktrees ::
  "'w host \<Rightarrow> string \<Rightarrow> string \<Rightarrow> (string \<Rightarrow> ('w shell, bool) prog) \<Rightarrow> bool \<Rightarrow> ('w shell, bool) prog" where
  "reconcile_stale_worktrees h repo work_root ask_user interactive =
     bindP (ask (stale_verify_worktrees h work_root)) (\<lambda>stale.
       if stale = [] then retP True
       else bindP (if interactive then ask_user ''[cleanup] delete them and continue? (y/N) > '' else retP True) (\<lambda>yes.
         if \<not> yes then retP False
         else thenP (remove_all h repo work_root stale)
           (bindP (ask (stale_verify_worktrees h work_root)) (\<lambda>remaining. retP (remaining = [])))))"

definition rev_parse :: "'w host \<Rightarrow> string \<Rightarrow> string \<Rightarrow> ('w shell, string) prog" where
  "rev_parse h repo ref = bindP (git h True repo [''rev-parse'', ref]) (\<lambda>(_, sha). retP sha)"

definition worktree_sha :: "'w host \<Rightarrow> string \<Rightarrow> ('w shell, string) prog" where
  "worktree_sha h wt = bindP (git h True wt [''rev-parse'', ''HEAD'']) (\<lambda>(_, sha). retP sha)"

text \<open>\<open>edit\<close> applies a change to the tree of a directory.\<close>

definition worktree_at_sha ::
  "'w host \<Rightarrow> (string \<Rightarrow> (tree \<Rightarrow> tree) \<Rightarrow> 'w \<Rightarrow> 'w) \<Rightarrow> string \<Rightarrow> string \<Rightarrow> string \<Rightarrow> string \<Rightarrow> ('w shell, string) prog" where
  "worktree_at_sha h edit repo task_id work_root sha =
     (let wt = sub_path work_root (''verify-'' @ task_id) in
      thenP (clear_worktree_path h repo wt)
     (thenP (git_run h True repo [''worktree'', ''add'', ''--detach'', wt, sha])
     (thenP (change_world (edit wt neutral)) (retP wt))))"

definition branch_worktree ::
  "'w host \<Rightarrow> (string \<Rightarrow> (tree \<Rightarrow> tree) \<Rightarrow> 'w \<Rightarrow> 'w) \<Rightarrow> string \<Rightarrow> string \<Rightarrow> string \<Rightarrow> string \<Rightarrow> ('w shell, string) prog" where
  "branch_worktree h edit repo task_id work_root branch_remote =
     thenP (git_run h True repo [''fetch'', branch_remote, task_id])
       (bindP (rev_parse h repo (branch_remote @ ''/'' @ task_id)) (\<lambda>sha.
          worktree_at_sha h edit repo task_id work_root sha))"

definition unresolved :: "string \<Rightarrow> string \<Rightarrow> exn" where
  "unresolved repo ref = RuntimeError (''--local ref '' @ repr_str ref @ '' does not resolve to a commit in '' @ repo
     @ '' - commit the fix and pass its sha, branch, or worktree path'')"

definition resolve_local_ref :: "'w host \<Rightarrow> string \<Rightarrow> string \<Rightarrow> ('w shell, string) prog" where
  "resolve_local_ref h repo ref =
     bindP (git h False repo [''rev-parse'', ''--verify'', ''--quiet'', ref @ ''^{commit}'']) (\<lambda>(code, sha).
       if code = 0 \<and> sha \<noteq> [] then retP sha
       else bindP (ask (ho_is_dir h ref)) (\<lambda>dir.
         if \<not> dir then throwP (unresolved repo ref)
         else bindP (git h False ref [''rev-parse'', ''--verify'', ''--quiet'', ''HEAD^{commit}'']) (\<lambda>(code, sha).
           if \<not> (code = 0 \<and> sha \<noteq> []) then throwP (unresolved repo ref)
           else bindP (git h False repo [''cat-file'', ''-e'', sha]) (\<lambda>(present, _).
             if present = 0 then retP sha else throwP (unresolved repo ref)))))"

definition local_worktree ::
  "'w host \<Rightarrow> (string \<Rightarrow> (tree \<Rightarrow> tree) \<Rightarrow> 'w \<Rightarrow> 'w) \<Rightarrow> string \<Rightarrow> string \<Rightarrow> string \<Rightarrow> string \<Rightarrow> ('w shell, string) prog" where
  "local_worktree h edit repo task_id work_root ref =
     bindP (resolve_local_ref h repo ref) (\<lambda>sha. worktree_at_sha h edit repo task_id work_root sha)"

section \<open>Ready branches\<close>

definition merge_decision_of :: "string \<Rightarrow> string" where
  "merge_decision_of task = ''.laddy/tasks/'' @ task @ ''/merge-decision.json''"

primrec ready_tasks :: "'w host \<Rightarrow> string \<Rightarrow> string \<Rightarrow> string \<Rightarrow> string list \<Rightarrow> ('w shell, string list) prog" where
  "ready_tasks h repo base_branch branch_remote [] = retP []"
| "ready_tasks h repo base_branch branch_remote (task # tasks) =
     (if task = base_branch \<or> task = ''HEAD'' \<or> task = [] then ready_tasks h repo base_branch branch_remote tasks
      else bindP (git h False repo [''cat-file'', ''-e'', branch_remote @ ''/'' @ task @ '':'' @ merge_decision_of task])
        (\<lambda>(code, _). bindP (ready_tasks h repo base_branch branch_remote tasks) (\<lambda>rest.
           retP (if code = 0 then task # rest else rest))))"

definition discover_ready :: "'w host \<Rightarrow> string \<Rightarrow> string \<Rightarrow> string \<Rightarrow> ('w shell, string list) prog" where
  "discover_ready h repo base_branch branch_remote =
     thenP (git_run h True repo [''fetch'', ''--prune'', branch_remote,
         ''+refs/heads/*:refs/remotes/'' @ branch_remote @ ''/*'', ''^refs/heads/'' @ base_branch])
       (bindP (git h True repo [''for-each-ref'', ''--format=%(refname:strip=3)'', ''refs/remotes/'' @ branch_remote])
         (\<lambda>(_, out). ready_tasks h repo base_branch branch_remote (splitlines out)))"

end
