(* ===== verification/Merge_Gates.thy ===== *)
theory Merge_Gates
  imports Merge_Worktree Merge_Decide Gitdiff Testgate
begin

text \<open>
  The gathering of the gates of \<open>src/orchestrator/local_merge.py\<close> for one branch: the scratch worktree,
  the attestation, the classification against the policy of the trusted base, the binding gate on the
  trial merge, the security panel and the second review. The tools are injected, as in the code.
\<close>

record 'w gate_tools =
  gt_merge_check :: "string \<Rightarrow> string \<Rightarrow> string \<Rightarrow> ('w shell, int \<times> string) prog"
  gt_local_check :: "string \<Rightarrow> string \<Rightarrow> string \<Rightarrow> ('w shell, int \<times> string) prog"
  gt_binding :: "string \<Rightarrow> string \<Rightarrow> string \<Rightarrow> string option \<Rightarrow> string \<Rightarrow> string \<Rightarrow> ('w shell, binding_result) prog"
  gt_rw2 :: "string \<Rightarrow> 'w shell runner"
  gt_security :: "(string \<times> (string \<Rightarrow> 'w shell runner)) list"
  gt_role :: "string \<Rightarrow> ('w shell, string) prog"
  gt_json :: json_lib
  gt_toml :: "string \<Rightarrow> entry option"
  gt_edit :: "string \<Rightarrow> (tree \<Rightarrow> tree) \<Rightarrow> 'w \<Rightarrow> 'w"

definition security_panel_prompt :: "string \<Rightarrow> string \<Rightarrow> string \<Rightarrow> string" where
  "security_panel_prompt role task base =
     role @ lf @ lf @ ''Task ID: '' @ task @ lf @ lf
     @ ''Adversarially review the current branch (diff against origin/'' @ base @ '') for a'' @ lf
     @ ''SECURITY defect only. Output ONLY the verdict JSON object.'' @ lf"

definition rw2_local_prompt :: "string \<Rightarrow> string \<Rightarrow> string \<Rightarrow> string" where
  "rw2_local_prompt role task base =
     role @ lf @ lf @ ''Task ID: '' @ task @ lf @ lf
     @ ''Re-review the current branch (diff against origin/'' @ base @ '') as an independent'' @ lf
     @ ''cross-vendor guard on TRUSTED infrastructure. Output ONLY the verdict JSON.'' @ lf"

text \<open>The policy of a trusted commit.\<close>

definition policy_at :: "'w host \<Rightarrow> (string \<Rightarrow> entry option) \<Rightarrow> string \<Rightarrow> string \<Rightarrow> ('w shell, target_policy) prog" where
  "policy_at h toml repo ref =
     bindP (run_git h repo [''show'', ref @ '':'' @ policy_rel]) (\<lambda>(code, out, err).
       if code \<noteq> 0 then throwP TargetPolicyError else liftP (parse_target_policy toml out))"

definition conflict_message :: string where
  "conflict_message = ''branch does not merge cleanly into current main (conflict); re-run the task''"

definition conflict_result :: binding_result where
  "conflict_result = \<lparr>br_tests_passed = False, br_tail = conflict_message, br_coverage_ok = False,
     br_coverage_detail = conflict_message, br_scan_findings = [conflict_message]\<rparr>"

definition trial_dir :: "string \<Rightarrow> string \<Rightarrow> string" where
  "trial_dir work_root task_id = sub_path work_root (''verify-merge-'' @ task_id)"

definition trial_merge_args :: "string \<Rightarrow> string \<Rightarrow> string list" where
  "trial_merge_args task_id branch_sha =
     [''-c'', ''core.hooksPath=/dev/null'', ''-c'', ''user.name=myapp-verify'', ''-c'', ''user.email=verify@myapp.local'',
      ''merge'', ''--no-ff'', branch_sha, ''-m'', ''verify trial-merge '' @ task_id]"

definition binding_on_merged_tree ::
  "'w host \<Rightarrow> 'w gate_tools \<Rightarrow> string \<Rightarrow> string \<Rightarrow> string \<Rightarrow> string \<Rightarrow> string \<Rightarrow> string \<Rightarrow> string \<Rightarrow>
   ('w shell, binding_result) prog" where
  "binding_on_merged_tree h tools repo task_id work_root base_sha branch_sha cov gate =
     (let mwt = trial_dir work_root task_id in
      thenP (clear_worktree_path h repo mwt)
     (thenP (git_run h True repo [''worktree'', ''add'', ''--detach'', mwt, base_sha])
       (finallyP
          (bindP (git h False mwt (trial_merge_args task_id branch_sha)) (\<lambda>(code, _).
             if code \<noteq> 0 then thenP (git_run h False mwt [''merge'', ''--abort'']) (retP conflict_result)
             else bindP (worktree_sha h mwt) (\<lambda>merge_sha.
               gt_binding tools mwt merge_sha cov (Some base_sha) base_sha gate)))
          (remove_worktree h repo mwt))))"

definition attestation ::
  "'w gate_tools \<Rightarrow> string \<Rightarrow> string \<Rightarrow> string \<Rightarrow> string option \<Rightarrow> ('w shell, artifact_attestation) prog" where
  "attestation tools wt base_branch task_id local_ref =
     (case local_ref of
        None \<Rightarrow>
          bindP (gt_merge_check tools wt base_branch task_id) (\<lambda>(code, msg).
            retP \<lparr>at_state = (if code = 0 then Passed else Failed), at_detail = msg\<rparr>)
      | Some _ \<Rightarrow>
          bindP (gt_local_check tools wt base_branch task_id) (\<lambda>(code, msg).
            retP (if code = 0
              then \<lparr>at_state = NotApplicable, at_detail = ''Director-authored --local commit is judged by fresh ''
                     @ ''trusted-local gates; policy recompute found no stop ('' @ msg @ '')''\<rparr>
              else \<lparr>at_state = Failed, at_detail = msg\<rparr>)))"

definition security_panel ::
  "'w gate_tools \<Rightarrow> string \<Rightarrow> string \<Rightarrow> string \<Rightarrow> blast_radius \<Rightarrow> ('w shell, verdict list) prog" where
  "security_panel tools task_id base_branch wt blast =
     (if blast = L2 \<or> blast = L3 then
        bindP (gt_role tools ''security'') (\<lambda>role.
          run_security_panel (gt_json tools) (map (\<lambda>(name, run). (name, run wt)) (gt_security tools))
            (security_panel_prompt role task_id base_branch))
      else retP [])"

definition rw2_rerun ::
  "'w gate_tools \<Rightarrow> string \<Rightarrow> string \<Rightarrow> string \<Rightarrow> blast_radius \<Rightarrow> ('w shell, verdict option) prog" where
  "rw2_rerun tools task_id base_branch wt blast =
     (if blast = L2 then
        bindP (gt_role tools ''rw2'') (\<lambda>role.
          bindP (panel_member (gt_json tools) (''rw2'', gt_rw2 tools wt) (rw2_local_prompt role task_id base_branch)
                   (Some validate_review)) (\<lambda>v. retP (Some v)))
      else retP None)"

definition gates_in_worktree ::
  "'w host \<Rightarrow> 'w gate_tools \<Rightarrow> string \<Rightarrow> string \<Rightarrow> string \<Rightarrow> string \<Rightarrow> string option \<Rightarrow> string \<Rightarrow> ('w shell, gate_results) prog" where
  "gates_in_worktree h tools task_id repo work_root base_branch local_ref wt =
     bindP (worktree_sha h wt) (\<lambda>verified_sha.
     bindP (attestation tools wt base_branch task_id local_ref) (\<lambda>att.
     bindP (changed_files h wt task_id base_branch) (\<lambda>changed.
     bindP (changed_statuses h wt task_id base_branch) (\<lambda>statuses.
     bindP (rev_parse h repo base_branch) (\<lambda>base_sha.
     bindP (policy_at h (gt_toml tools) repo base_sha) (\<lambda>pol.
       let blast = classify_blast_radius pol changed;
           sensitive = sensitive_paths pol changed @ security_paths pol changed;
           gate = (if frontend_touched changed (frontend_prefixes pol) then frontend_gate pol else [])
       in
     bindP (binding_on_merged_tree h tools repo task_id work_root base_sha verified_sha (coverage_package pol) gate)
       (\<lambda>binding.
     bindP (security_panel tools task_id base_branch wt blast) (\<lambda>security.
     bindP (rw2_rerun tools task_id base_branch wt blast) (\<lambda>rw2.
       retP \<lparr>gr_blast = blast, gr_attestation = att, gr_tests_passed = br_tests_passed binding,
              gr_tests_tail = br_tail binding, gr_coverage_ok = br_coverage_ok binding,
              gr_coverage_detail = br_coverage_detail binding, gr_scan_findings = br_scan_findings binding,
              gr_rw2 = rw2, gr_security = security, gr_sensitive_files = sensitive, gr_head_sha = verified_sha,
              gr_infra_overridden = restored_infra_paths changed\<rparr>)))))))))"

definition gather_gates ::
  "'w host \<Rightarrow> 'w gate_tools \<Rightarrow> string \<Rightarrow> string \<Rightarrow> string \<Rightarrow> string \<Rightarrow> string \<Rightarrow> string option \<Rightarrow> ('w shell, gate_results) prog" where
  "gather_gates h tools task_id repo work_root branch_remote base_branch local_ref =
     bindP (case local_ref of
              Some ref \<Rightarrow> local_worktree h (gt_edit tools) repo task_id work_root ref
            | None \<Rightarrow> branch_worktree h (gt_edit tools) repo task_id work_root branch_remote) (\<lambda>wt.
       finallyP (gates_in_worktree h tools task_id repo work_root base_branch local_ref wt)
         (remove_worktree h repo wt))"

section \<open>What green gates show\<close>

lemma finallyP_Inr:
  "finallyP m f s = (Inr a, u) \<longleftrightarrow> (\<exists>t. m s = (Inr a, t) \<and> f t = (Inr (), u))"
  by (auto simp: finallyP_def Let_def split: prod.splits sum.splits)

lemma then_result: "thenP m k s = (Inr b, u) \<longleftrightarrow> (\<exists>t. m s = (Inr (), t) \<and> k t = (Inr b, u))"
  for m :: "('s, unit) prog"
  by (auto simp: thenP_def bindP_Inr_iff)

lemma panel_length: "run_security_panel J ms prompt s = (Inr vs, t) \<Longrightarrow> length vs = length ms"
  by (induction ms arbitrary: s vs t) (auto simp: bindP_Inr_iff retP_def)

lemma security_panel_length:
  "security_panel tools t base wt blast s = (Inr vs, s') \<Longrightarrow> blast \<noteq> L1 \<Longrightarrow> length vs = length (gt_security tools)"
  by (cases blast) (auto simp: security_panel_def bindP_Inr_iff dest: panel_length)

lemma rw2_rerun_some: "rw2_rerun tools t base wt L2 s = (Inr v, s') \<Longrightarrow> v \<noteq> None"
  by (auto simp: rw2_rerun_def bindP_Inr_iff retP_def)

text \<open>The binding gate run passed on the trial merge of the commit.\<close>

definition trial_passed ::
  "'w host \<Rightarrow> 'w gate_tools \<Rightarrow> string \<Rightarrow> string \<Rightarrow> string \<Rightarrow> string \<Rightarrow> string \<Rightarrow> string \<Rightarrow> bool" where
  "trial_passed h tools work_root task_id base_sha sha cov gate \<longleftrightarrow>
     (\<exists>out merge_sha b s1 s2 s3 s4.
        git h False (trial_dir work_root task_id) (trial_merge_args task_id sha) s1 = (Inr (0, out), s2)
      \<and> worktree_sha h (trial_dir work_root task_id) s2 = (Inr merge_sha, s3)
      \<and> gt_binding tools (trial_dir work_root task_id) merge_sha cov (Some base_sha) base_sha gate s3 = (Inr b, s4)
      \<and> all_pass b)"

lemma binding_green:
  assumes "binding_on_merged_tree h tools repo t wr base_sha sha cov gate s = (Inr b, s')" "all_pass b"
  shows "trial_passed h tools wr t base_sha sha cov gate"
proof -
  let ?mwt = "trial_dir wr t"
  obtain s1 s4 where run: "bindP (git h False ?mwt (trial_merge_args t sha)) (\<lambda>(code, _).
             if code \<noteq> 0 then thenP (git_run h False ?mwt [''merge'', ''--abort'']) (retP conflict_result)
             else bindP (worktree_sha h ?mwt) (\<lambda>merge_sha.
               gt_binding tools ?mwt merge_sha cov (Some base_sha) base_sha gate)) s1 = (Inr b, s4)"
    using assms(1) unfolding binding_on_merged_tree_def Let_def then_result finallyP_Inr by blast
  then obtain code out s2 where g: "git h False ?mwt (trial_merge_args t sha) s1 = (Inr (code, out), s2)"
    and k: "(if code \<noteq> 0 then thenP (git_run h False ?mwt [''merge'', ''--abort'']) (retP conflict_result)
             else bindP (worktree_sha h ?mwt) (\<lambda>merge_sha.
               gt_binding tools ?mwt merge_sha cov (Some base_sha) base_sha gate)) s2 = (Inr b, s4)"
    unfolding bindP_Inr_iff by auto
  have zero: "code = 0"
  proof (rule ccontr)
    assume "code \<noteq> 0"
    then have "b = conflict_result"
      using k by (auto simp: then_result retP_def)
    then show False
      using assms(2) by (simp add: all_pass_def conflict_result_def)
  qed
  then obtain merge_sha s3 where "worktree_sha h ?mwt s2 = (Inr merge_sha, s3)"
    "gt_binding tools ?mwt merge_sha cov (Some base_sha) base_sha gate s3 = (Inr b, s4)"
    using k by (auto simp: bindP_Inr_iff)
  then show ?thesis
    using g zero assms(2) unfolding trial_passed_def by blast
qed

lemma gates_in_worktree_green:
  assumes "gates_in_worktree h tools t repo wr base lref wt s = (Inr g, s')" "deterministic_green g"
  shows "(\<exists>s1 s2. worktree_sha h wt s1 = (Inr (gr_head_sha g), s2))
    \<and> (\<exists>base_sha cov gate. trial_passed h tools wr t base_sha (gr_head_sha g) cov gate)
    \<and> (gr_blast g \<noteq> L1 \<longrightarrow> length (gr_security g) = length (gt_security tools))
    \<and> (gr_blast g = L2 \<longrightarrow> gr_rw2 g \<noteq> None)"
proof -
  obtain sha att changed base_sha pol gate binding security rw2 s1 s2 s3 s4 s5 where
    sha: "worktree_sha h wt s = (Inr sha, s1)"
    and binding: "binding_on_merged_tree h tools repo t wr base_sha sha (coverage_package pol) gate s2 = (Inr binding, s3)"
    and sec: "security_panel tools t base wt (classify_blast_radius pol changed) s3 = (Inr security, s4)"
    and rw2: "rw2_rerun tools t base wt (classify_blast_radius pol changed) s4 = (Inr rw2, s5)"
    and g: "g = \<lparr>gr_blast = classify_blast_radius pol changed, gr_attestation = att,
              gr_tests_passed = br_tests_passed binding,
              gr_tests_tail = br_tail binding, gr_coverage_ok = br_coverage_ok binding,
              gr_coverage_detail = br_coverage_detail binding, gr_scan_findings = br_scan_findings binding,
              gr_rw2 = rw2, gr_security = security, gr_sensitive_files = sensitive_paths pol changed @ security_paths pol changed,
              gr_head_sha = sha, gr_infra_overridden = restored_infra_paths changed\<rparr>"
    using assms(1) unfolding gates_in_worktree_def bindP_Inr_iff Let_def retP_def by blast
  have "all_pass binding"
    using assms(2) by (simp add: g deterministic_green_def all_pass_def)
  then have "trial_passed h tools wr t base_sha sha (coverage_package pol) gate"
    using binding by (rule binding_green[rotated])
  then show ?thesis
    using sha security_panel_length[OF sec] rw2 rw2_rerun_some[of tools t base wt s4 rw2 s5] by (auto simp: g)
qed


text \<open>
  The cleanup is not silent: \<open>_remove_worktree\<close> is documented never to raise, so that the gate's own
  result is not masked, but it prunes with the checking helper; when that command fails, the cleanup
  raises, and a block that has already produced its result ends with the exception of the cleanup.
\<close>

theorem cleanup_can_mask_result:
  assumes "\<And>w. \<exists>c out err w'. ho_git h repo [''worktree'', ''prune''] w = ((c, out, err), w') \<and> c \<noteq> 0"
    and "m s = (Inr g, t)"
  shows "\<exists>msg. fst (finallyP m (remove_worktree h repo wt) s) = Inl (RuntimeError msg)"
proof -
  obtain c out err w' where "ho_git h repo [''worktree'', ''prune''] (sh_world t) = ((c, out, err), w')" "c \<noteq> 0"
    using assms(1) by meson
  then show ?thesis
    using assms(2) by (simp add: finallyP_def remove_worktree_def git_run_def thenP_def git_defs Let_def)
qed

theorem cleanup_can_mask_result_witness:
  "\<exists>msg. fst (finallyP (retP (5 :: int)) (remove_worktree (git_only (\<lambda>dir args w. ((1, [], []), w))) [] [])
      \<lparr>sh_calls = [], sh_world = ()\<rparr>) = Inl (RuntimeError msg)"
  using cleanup_can_mask_result[of "git_only (\<lambda>dir args w. ((1, [], []), w))" "[]" "retP (5 :: int)"
      "\<lparr>sh_calls = [], sh_world = ()\<rparr>" 5 "\<lparr>sh_calls = [], sh_world = ()\<rparr>" "[]"]
  by (simp add: git_only_def retP_def)

section \<open>A concrete trusted machine\<close>

text \<open>Every command succeeds; the diff is one translation file, and the binding gate passes.\<close>

definition calm_git :: "string \<Rightarrow> string list \<Rightarrow> unit \<Rightarrow> (int \<times> string \<times> string) \<times> unit" where
  "calm_git dir args w =
     ((0, if hd args = ''rev-parse'' then ''a1''
          else if hd args = ''diff'' then
            (if args ! 2 = ''--name-only'' then ''i18n/cs.json'' else ''M'' @ [tab] @ ''i18n/cs.json'')
          else [], []), w)"

definition passing :: binding_result where
  "passing = \<lparr>br_tests_passed = True, br_tail = [], br_coverage_ok = True, br_coverage_detail = [], br_scan_findings = []\<rparr>"

definition calm_tools :: "unit gate_tools" where
  "calm_tools = \<lparr>gt_merge_check = (\<lambda>_ _ _. retP (0, [])), gt_local_check = (\<lambda>_ _ _. retP (0, [])),
     gt_binding = (\<lambda>_ _ _ _ _ _. retP passing), gt_rw2 = (\<lambda>_ _ _. throwP ValueError), gt_security = [],
     gt_role = (\<lambda>_. retP []), gt_json = demo_lib, gt_toml = (\<lambda>_. Some demo_entry), gt_edit = (\<lambda>_ _ w. w)\<rparr>"

definition calm_gates :: gate_results where
  "calm_gates = \<lparr>gr_blast = L1, gr_attestation = \<lparr>at_state = Passed, at_detail = []\<rparr>, gr_tests_passed = True,
     gr_tests_tail = [], gr_coverage_ok = True, gr_coverage_detail = [], gr_scan_findings = [], gr_rw2 = None,
     gr_security = [], gr_sensitive_files = [], gr_head_sha = ''a1'', gr_infra_overridden = []\<rparr>"

definition calm_answer :: "string list \<Rightarrow> string" where
  "calm_answer args = fst (snd (fst (calm_git [] args ())))"

lemma calm_answers:
  "calm_answer [''rev-parse'', r] = ''a1''" "calm_answer (diff_args ''--name-only'' t b) = ''i18n/cs.json''"
  "calm_answer (diff_args ''--name-status'' t b) = ''M'' @ [tab] @ ''i18n/cs.json''"
  by (simp_all add: calm_answer_def calm_git_def diff_args_def)

text \<open>A program that returns a value from every state.\<close>

definition returns :: "('s, 'a) prog \<Rightarrow> 'a \<Rightarrow> bool" where
  "returns m a \<longleftrightarrow> (\<forall>s. \<exists>s'. m s = (Inr a, s'))"

lemma returns_bind: "returns m a \<Longrightarrow> returns (f a) b \<Longrightarrow> returns (bindP m f) b"
  unfolding returns_def bindP_def by (metis (no_types, lifting) case_prod_conv sum.case(2))

lemma returns_basic: "returns (retP a) a" "returns (change_world g) ()"
  by (simp_all add: returns_def change_world_def prog_defs)

lemma returns_then: "returns m () \<Longrightarrow> returns k b \<Longrightarrow> returns (thenP m k) b"
  unfolding thenP_def by (rule returns_bind)

lemma returns_finally:
  assumes "returns m a" "returns f ()"
  shows "returns (finallyP m f) a"
  unfolding returns_def
proof
  fix s
  obtain t u where "m s = (Inr a, t)" "f t = (Inr (), u)"
    using assms unfolding returns_def by meson
  then show "\<exists>s'. finallyP m f s = (Inr a, s')"
    by (simp add: finallyP_def)
qed

abbreviation calm :: "unit host" where
  "calm \<equiv> git_only calm_git"

lemma calm_run: "returns (run_git calm dir args) (0, calm_answer args, [])"
  by (simp add: returns_def run_git_def git_only_def calm_git_def calm_answer_def)

lemma calm_git_returns: "returns (git calm check dir args) (0, strip (calm_answer args))"
  unfolding git_def by (rule returns_bind[OF calm_run]) (simp add: returns_basic)

lemma calm_do: "returns (git_run calm check dir args) ()"
  unfolding git_run_def thenP_def by (rule returns_bind[OF calm_git_returns returns_basic(1)])

lemma calm_out: "returns (git_out calm dir args) (strip (calm_answer args))"
  unfolding git_out_def by (rule returns_bind[OF calm_run]) (simp add: returns_basic)

lemma calm_paths: "returns (ask (ho_symlink calm p)) False" "returns (ask (ho_exists calm p)) False"
  by (simp_all add: returns_def ask_def git_only_def prog_defs)

lemma calm_parsed:
  "parse_names (strip ''i18n/cs.json'') = [''i18n/cs.json'']" "strip ''a1'' = ''a1''"
  "parse_target_policy (\<lambda>_. Some demo_entry) x = Inr demo_policy" "classify_blast_radius demo_policy [''i18n/cs.json''] = L1"
  "sensitive_paths demo_policy [''i18n/cs.json''] = []" "security_paths demo_policy [''i18n/cs.json''] = []"
  "restored_infra_paths [''i18n/cs.json''] = []"
  by (code_simp+)

lemma calm_shas: "returns (worktree_sha calm wt) ''a1''" "returns (rev_parse calm repo r) ''a1''"
  unfolding worktree_sha_def rev_parse_def
  by (rule returns_bind[OF calm_git_returns], simp add: returns_basic calm_answers calm_parsed)+

lemma calm_removed: "returns (remove_worktree calm repo wt) ()"
  unfolding remove_worktree_def
  by (intro returns_then calm_do returns_bind[OF calm_paths(1)]) (simp add: returns_bind[OF calm_paths(2)] whenP_def returns_basic)

lemma calm_cleared: "returns (clear_worktree_path calm repo wt) ()"
  unfolding clear_worktree_path_def
  by (intro returns_then calm_removed returns_bind[OF calm_paths(2)]) (simp add: returns_basic)

lemma calm_bound: "returns (binding_on_merged_tree calm calm_tools repo t wr b sha cov gate) passing"
  unfolding binding_on_merged_tree_def Let_def
  by (intro returns_then calm_cleared calm_do returns_finally calm_removed returns_bind[OF calm_git_returns])
    (simp add: returns_bind[OF calm_shas(1)] calm_tools_def returns_basic)

lemma calm_policy: "returns (policy_at calm (gt_toml calm_tools) repo ref) demo_policy"
  unfolding policy_at_def
  by (rule returns_bind[OF calm_run]) (simp add: calm_tools_def calm_parsed returns_def prog_defs)

lemma calm_files: "returns (changed_files calm wt t b) [''i18n/cs.json'']"
  unfolding changed_files_def
  by (rule returns_bind[OF calm_out]) (simp add: calm_answers calm_parsed returns_basic)

lemma calm_statuses: "\<exists>st. returns (changed_statuses calm wt t b) st"
  unfolding changed_statuses_def by (rule exI, rule returns_bind[OF calm_out], rule returns_basic(1))

lemma calm_in_worktree: "returns (gates_in_worktree calm calm_tools t repo wr base None wt) calm_gates"
proof -
  obtain st where st: "returns (changed_statuses calm wt t base) st"
    using calm_statuses by blast
  have att: "returns (attestation calm_tools wt base t None) \<lparr>at_state = Passed, at_detail = []\<rparr>"
    by (simp add: attestation_def calm_tools_def returns_def bindP_def prog_defs)
  have none: "security_panel calm_tools t base wt L1 = retP []" "rw2_rerun calm_tools t base wt L1 = retP None"
    by (simp_all add: security_panel_def rw2_rerun_def)
  show ?thesis
    unfolding gates_in_worktree_def Let_def
    by (rule returns_bind[OF calm_shas(1)], rule returns_bind[OF att], rule returns_bind[OF calm_files],
        rule returns_bind[OF st], rule returns_bind[OF calm_shas(2)], rule returns_bind[OF calm_policy],
        rule returns_bind[OF calm_bound])
      (simp add: calm_parsed none returns_bind[OF returns_basic(1)] returns_basic(1) passing_def calm_gates_def)
qed

lemma calm_gathered:
  "\<exists>s'. gather_gates calm calm_tools t repo wr remote base None s = (Inr calm_gates, s')"
proof -
  have "returns (branch_worktree calm (gt_edit calm_tools) repo t wr remote) (sub_path wr (''verify-'' @ t))"
    unfolding branch_worktree_def worktree_at_sha_def Let_def
    by (intro returns_then calm_do returns_bind[OF calm_shas(2)] calm_cleared returns_basic)
  then have "returns (gather_gates calm calm_tools t repo wr remote base None) calm_gates"
    unfolding gather_gates_def by (auto intro!: returns_bind returns_finally calm_in_worktree calm_removed)
  then show ?thesis
    by (simp add: returns_def)
qed


end
