(* ===== verification/Merge_Git.thy ===== *)
theory Merge_Git
  imports Merge_Gates Merge_Engine Merge_Subject
begin

text \<open>
  The integration of \<open>src/orchestrator/local_merge.py\<close> into the trusted main branch: the one atomic
  merge commit, the push of main and the removal of the merged branches.
\<close>

definition advisory_path :: "string \<Rightarrow> string" where
  "advisory_path task_id = ''.laddy/tasks/'' @ task_id @ ''/merge-advisory.md''"

definition merge_identity :: "string list" where
  "merge_identity = [''-c'', ''core.hooksPath=/dev/null'', ''-c'', ''user.name=myapp-merge'', ''-c'',
     ''user.email=merge@myapp.local'']"

definition merge_args :: "string \<Rightarrow> string list" where
  "merge_args verified_sha = merge_identity @ [''merge'', ''--no-ff'', ''--no-commit'', verified_sha]"

definition commit_args :: "string \<Rightarrow> string \<Rightarrow> string list" where
  "commit_args task_id verified_sha = merge_identity @ [''commit'', ''-m'', merge_subject task_id verified_sha]"

definition stage_advisory :: "'w host \<Rightarrow> string \<Rightarrow> string \<Rightarrow> string list \<Rightarrow> ('w shell, unit) prog" where
  "stage_advisory h repo task_id advisory =
     (let record = sub_path repo (advisory_path task_id) in
      whenP (advisory \<noteq> [])
        (bindP (ask (\<lambda>w. ho_symlink h record w \<or> ho_exists h record w)) (\<lambda>present.
           if present
           then throwP (MergePreparationError (''advisory record path already exists: '' @ advisory_path task_id))
           else thenP (on_world (ho_write h record (render_advisory task_id advisory)))
                  (git_run h True repo [''add'', ''--'', advisory_path task_id]))))"

definition commit_merge :: "'w host \<Rightarrow> string \<Rightarrow> string \<Rightarrow> string \<Rightarrow> ('w shell, unit) prog" where
  "commit_merge h repo task_id verified_sha =
     bindP (git h False repo (commit_args task_id verified_sha)) (\<lambda>(code, out).
       if code \<noteq> 0
       then throwP (MergePreparationError (''git could not create the atomic merge commit: '' @ out))
       else retP ())"

text \<open>The merge is undone and the exception turned into a preparation error, after a look at main.\<close>

definition preparation_error :: "'w host \<Rightarrow> exn \<Rightarrow> exn" where
  "preparation_error h e = (case e of MergePreparationError _ \<Rightarrow> e | _ \<Rightarrow> MergePreparationError (ho_str h e))"

definition undo_merge :: "'w host \<Rightarrow> string \<Rightarrow> string \<Rightarrow> exn \<Rightarrow> ('w shell, unit) prog" where
  "undo_merge h repo original_head e =
     thenP (git_run h False repo [''merge'', ''--abort''])
       (bindP (rev_parse h repo ''HEAD'') (\<lambda>restored_head.
          if restored_head \<noteq> original_head
          then throwP (RuntimeError ''merge abort did not restore the original trusted main commit'')
          else throwP (preparation_error h e)))"

definition merge_branch ::
  "'w host \<Rightarrow> string \<Rightarrow> string \<Rightarrow> string \<Rightarrow> string \<Rightarrow> string \<Rightarrow> bool \<Rightarrow> string list \<Rightarrow> ('w shell, bool) prog" where
  "merge_branch h repo task_id verified_sha base_branch branch_remote fetch advisory =
     (if verified_sha = [] then throwP ValueError
      else thenP (whenP fetch (git_run h True repo [''fetch'', branch_remote, task_id]))
     (thenP (git_run h True repo [''checkout'', base_branch])
     (bindP (rev_parse h repo ''HEAD'') (\<lambda>original_head.
      bindP (git h False repo (merge_args verified_sha)) (\<lambda>(code, _).
        if code \<noteq> 0 then thenP (git_run h False repo [''merge'', ''--abort'']) (retP False)
        else bindP (git h False repo [''rev-parse'', ''--verify'', ''MERGE_HEAD'']) (\<lambda>(merging, _).
          if merging \<noteq> 0 then retP False
          else thenP (catchP (thenP (stage_advisory h repo task_id advisory)
                                    (commit_merge h repo task_id verified_sha))
                       (undo_merge h repo original_head))
                 (retP True)))))))"

primrec delete_branches :: "'w host \<Rightarrow> string \<Rightarrow> string \<Rightarrow> string list \<Rightarrow> ('w shell, unit) prog" where
  "delete_branches h repo branch_remote [] = retP ()"
| "delete_branches h repo branch_remote (t # ts) =
     thenP (git_run h False repo [''push'', branch_remote, ''--delete'', t]) (delete_branches h repo branch_remote ts)"

definition push_and_cleanup ::
  "'w host \<Rightarrow> string \<Rightarrow> string list \<Rightarrow> string \<Rightarrow> string \<Rightarrow> ('w shell, unit) prog" where
  "push_and_cleanup h repo merged_tasks base_branch branch_remote =
     thenP (git_run h True repo [''push'', ''origin'', base_branch]) (delete_branches h repo branch_remote merged_tasks)"

section \<open>The merge is atomic\<close>

definition commit_call :: "string \<Rightarrow> string \<Rightarrow> string \<Rightarrow> git_call" where
  "commit_call repo task_id sha = \<lparr>gc_dir = repo, gc_args = commit_args task_id sha, gc_code = 0\<rparr>"

definition merge_call :: "string \<Rightarrow> string \<Rightarrow> git_call" where
  "merge_call repo sha = \<lparr>gc_dir = repo, gc_args = merge_args sha, gc_code = 0\<rparr>"

text \<open>The commands that neither create a commit nor bring in any other commit than the verified one.\<close>

definition quiet :: "string \<Rightarrow> string \<Rightarrow> string \<Rightarrow> git_call \<Rightarrow> bool" where
  "quiet repo task_id sha c \<longleftrightarrow> gc_dir c = repo \<and>
     (hd (gc_args c) \<in> {''fetch'', ''checkout'', ''rev-parse'', ''add''} \<or> gc_args c = [''merge'', ''--abort'']
      \<or> gc_args c = merge_args sha \<or> (gc_args c = commit_args task_id sha \<and> gc_code c \<noteq> 0))"

definition all_quiet :: "string \<Rightarrow> string \<Rightarrow> string \<Rightarrow> git_call list \<Rightarrow> bool" where
  "all_quiet repo task_id sha cs = list_all (quiet repo task_id sha) cs"

definition in_merge :: "string \<Rightarrow> string \<Rightarrow> string \<Rightarrow> git_call list \<Rightarrow> bool" where
  "in_merge repo task_id sha cs \<longleftrightarrow> all_quiet repo task_id sha cs \<and> merge_call repo sha \<in> set cs"

definition landed :: "string \<Rightarrow> string \<Rightarrow> string \<Rightarrow> git_call list \<Rightarrow> bool" where
  "landed repo task_id sha cs \<longleftrightarrow> (\<exists>ys. cs = ys @ [commit_call repo task_id sha] \<and> in_merge repo task_id sha ys)"

definition since :: "git_call list \<Rightarrow> (git_call list \<Rightarrow> bool) \<Rightarrow> 'w shell \<Rightarrow> bool" where
  "since pre I s \<longleftrightarrow> (\<exists>cs. sh_calls s = pre @ cs \<and> I cs)"

lemma since_append: "since pre I s \<Longrightarrow> sh_calls s' = sh_calls s @ new \<Longrightarrow> (\<And>cs. I cs \<Longrightarrow> J (cs @ new)) \<Longrightarrow> since pre J s'"
  by (auto simp: since_def)

lemma since_weaken: "since pre I s \<Longrightarrow> (\<And>cs. I cs \<Longrightarrow> J cs) \<Longrightarrow> since pre J s"
  by (auto simp: since_def)

lemma calls_keep:
  assumes "calls_in C m" "\<And>xs ys. I xs \<Longrightarrow> list_all C ys \<Longrightarrow> I (xs @ ys)"
  shows "keepsP (since pre I) m"
proof -
  have "since pre I t" if "since pre I s" "m s = (r, t)" for s t r
    using calls_inE[OF assms(1) that(2)] since_append[OF that(1)] assms(2) by metis
  then show ?thesis
    by (fastforce simp: validP_def split: prod.splits sum.splits)
qed

lemma validP_git:
  "(\<And>s code out s'. P s \<Longrightarrow> sh_calls s' = sh_calls s @ [\<lparr>gc_dir = dir, gc_args = args, gc_code = code\<rparr>] \<Longrightarrow> Q (code, out) s') \<Longrightarrow>
   validP P (git h False dir args) Q E"
  by (auto simp: validP_def git_defs split: prod.splits)

lemma calls_git_run [calls_intros]:
  "(\<And>code. C \<lparr>gc_dir = dir, gc_args = args, gc_code = code\<rparr>) \<Longrightarrow> calls_in C (git_run h check dir args)"
  unfolding git_run_def by (intro calls_intros) auto

lemma quiet_stage: "calls_in (quiet repo task sha) (stage_advisory h repo t advisory)"
  unfolding stage_advisory_def Let_def by (intro calls_intros) (simp_all add: quiet_def)

lemma quiet_rev: "calls_in (quiet repo task sha) (rev_parse h repo ref)"
  unfolding rev_parse_def by (intro calls_intros) (simp_all add: quiet_def)

lemma quiet_undo: "calls_in (quiet repo task sha) (undo_merge h repo orig e)"
  unfolding undo_merge_def by (intro calls_intros quiet_rev) (simp_all add: quiet_def)

lemma grow: "all_quiet r t sha xs \<Longrightarrow> list_all (quiet r t sha) ys \<Longrightarrow> all_quiet r t sha (xs @ ys)"
  "in_merge r t sha xs \<Longrightarrow> list_all (quiet r t sha) ys \<Longrightarrow> in_merge r t sha (xs @ ys)"
  by (auto simp: all_quiet_def in_merge_def)

lemmas keep_quiet = calls_keep[where I = "all_quiet r t sha" and C = "quiet r t sha" for r t sha, OF _ grow(1)]
lemmas keep_merge = calls_keep[where I = "in_merge r t sha" and C = "quiet r t sha" for r t sha, OF _ grow(2)]

lemma commit_merge_valid:
  "validP (since pre (in_merge repo task sha)) (commit_merge h repo task sha)
     (\<lambda>_. since pre (landed repo task sha)) (\<lambda>_. since pre (in_merge repo task sha))"
  for h :: "'w host"
  unfolding commit_merge_def
proof (rule validP_bind[OF validP_git[where Q = "\<lambda>a s. if fst a = 0 then since pre (landed repo task sha) s
    else since pre (in_merge repo task sha) s"]])
  fix s s' :: "'w shell" and code and out :: string
  assume "since pre (in_merge repo task sha) s"
    "sh_calls s' = sh_calls s @ [\<lparr>gc_dir = repo, gc_args = commit_args task sha, gc_code = code\<rparr>]"
  then show "if fst (code, out) = 0 then since pre (landed repo task sha) s' else since pre (in_merge repo task sha) s'"
    by (auto elim!: since_append simp: landed_def commit_call_def intro!: grow(2)) (simp add: quiet_def)
next
  fix a :: "int \<times> string"
  show "validP (\<lambda>s. if fst a = 0 then since pre (landed repo task sha) s else since pre (in_merge repo task sha) s)
     (case a of (code, out) \<Rightarrow> if code \<noteq> 0
       then throwP (MergePreparationError (''git could not create the atomic merge commit: '' @ out)) else retP ())
     (\<lambda>_. since pre (landed repo task sha)) (\<lambda>_. since pre (in_merge repo task sha))"
    by (cases a) (auto simp: validP_def prog_defs)
qed

text \<open>What a result says about the commands run.\<close>

definition merge_outcome :: "string \<Rightarrow> string \<Rightarrow> string \<Rightarrow> git_call list \<Rightarrow> bool \<Rightarrow> 'w shell \<Rightarrow> bool" where
  "merge_outcome repo task sha pre b s =
     (if b then since pre (landed repo task sha) s else since pre (all_quiet repo task sha) s)"

lemma merge_quiet: "since pre (in_merge r t sha) s \<Longrightarrow> since pre (all_quiet r t sha) s"
  by (erule since_weaken) (simp add: in_merge_def)

lemma merge_branch_valid:
  "validP (since pre (all_quiet repo t sha)) (merge_branch h repo t sha base remote fetch advisory)
     (merge_outcome repo t sha pre) (\<lambda>_. since pre (all_quiet repo t sha))"
  for h :: "'w host"
proof -
  let ?q = "since pre (all_quiet repo t sha)" and ?m = "since pre (in_merge repo t sha)"
  have q1: "keepsP ?q (git_run h True repo [''checkout'', base])" "keepsP ?q (rev_parse h repo ''HEAD'')"
    "keepsP ?q (whenP fetch (git_run h True repo [''fetch'', remote, t]))"
    "keepsP ?q (git_run h False repo [''merge'', ''--abort''])"
    by (intro keep_quiet calls_intros quiet_rev; simp add: quiet_def)+
  have abort: "validP ?q (thenP (git_run h False repo [''merge'', ''--abort'']) (retP False)) (merge_outcome repo t sha pre) (\<lambda>_. ?q)"
    by (rule validP_then[OF q1(4)]) (simp add: validP_def retP_def merge_outcome_def)
  have body: "validP ?m (thenP (catchP (thenP (stage_advisory h repo t advisory) (commit_merge h repo t sha))
      (undo_merge h repo orig)) (retP True)) (merge_outcome repo t sha pre) (\<lambda>_. ?q)" for orig
  proof (rule validP_then[OF validP_catch[where R = "\<lambda>_. ?m"]])
    show "validP ?m (thenP (stage_advisory h repo t advisory) (commit_merge h repo t sha))
       (\<lambda>_. since pre (landed repo t sha)) (\<lambda>_. ?m)"
      by (rule validP_then[OF keep_merge[OF quiet_stage] commit_merge_valid])
    show "validP ?m (undo_merge h repo orig e) (\<lambda>_. since pre (landed repo t sha)) (\<lambda>_. ?q)" for e
    proof (rule validPI)
      fix s e' t'
      assume "?m s" "undo_merge h repo orig e s = (Inl e', t')"
      then show "?q t'"
        using keepsP_result[OF keep_merge[OF quiet_undo]] merge_quiet by blast
    next
      fix s a t'
      assume "?m s" "undo_merge h repo orig e s = (Inr a, t')"
      then show "since pre (landed repo t sha) t'"
        by (auto simp: undo_merge_def thenP_def bindP_Inr_iff throwP_def split: if_splits)
    qed
    show "validP (since pre (landed repo t sha)) (retP True) (merge_outcome repo t sha pre) (\<lambda>_. ?q)"
      by (simp add: validP_def retP_def merge_outcome_def)
  qed
  have checked: "validP ?m (bindP (git h False repo [''rev-parse'', ''--verify'', ''MERGE_HEAD'']) (\<lambda>(merging, _).
          if merging \<noteq> 0 then retP False
          else thenP (catchP (thenP (stage_advisory h repo t advisory) (commit_merge h repo t sha))
                       (undo_merge h repo orig)) (retP True))) (merge_outcome repo t sha pre) (\<lambda>_. ?q)" for orig
  proof (rule validP_bind[where R = "\<lambda>_. ?m"])
    show "validP ?m (git h False repo [''rev-parse'', ''--verify'', ''MERGE_HEAD'']) (\<lambda>_. ?m) (\<lambda>_. ?q)"
      by (rule validP_git, erule since_append, assumption, rule grow(2)) (simp_all add: quiet_def)
    show "validP ?m (case a of (merging, _) \<Rightarrow>
          if merging \<noteq> 0 then retP False
          else thenP (catchP (thenP (stage_advisory h repo t advisory) (commit_merge h repo t sha))
                       (undo_merge h repo orig)) (retP True)) (merge_outcome repo t sha pre) (\<lambda>_. ?q)" for a
      using body merge_quiet by (cases a) (auto simp: validP_def retP_def merge_outcome_def)
  qed
  have merge: "validP ?q (git h False repo (merge_args sha)) (\<lambda>a s. if fst a = 0 then ?m s else ?q s) (\<lambda>_. ?q)"
  proof (rule validP_git)
    fix s s' :: "'w shell" and code and out :: string
    assume "?q s" "sh_calls s' = sh_calls s @ [\<lparr>gc_dir = repo, gc_args = merge_args sha, gc_code = code\<rparr>]"
    then show "if fst (code, out) = 0 then ?m s' else ?q s'"
      by (auto elim!: since_append simp: in_merge_def merge_call_def all_quiet_def) (simp_all add: quiet_def)
  qed
  show ?thesis
    unfolding merge_branch_def
    apply (rule validP_if)
     apply (simp add: validP_def throwP_def)
    apply (rule validP_then[OF q1(3)], rule validP_then[OF q1(1)], rule validP_bind[OF q1(2)], rule validP_bind[OF merge])
    subgoal for orig a using abort checked[of orig] by (cases a) (auto simp: validP_def)
    done
qed

text \<open>
  C18: The merge into trusted main is one commit of the verified commit, or nothing: whatever git
  answers, the only commit any command names for integration is the verified one; the call returns true
  exactly when its last command, after a successful merge of that commit, created the merge commit; and
  when it returns false or raises, no commit was created.
\<close>

theorem merge_lands_only_verified:
  assumes "merge_branch h repo t sha base remote fetch advisory s = (r, s')"
  shows "\<exists>new. sh_calls s' = sh_calls s @ new
    \<and> (if r = Inr True then landed repo t sha new else all_quiet repo t sha new)"
proof -
  have start: "since (sh_calls s) (all_quiet repo t sha) s"
    by (simp add: since_def all_quiet_def)
  show ?thesis
  proof (cases r)
    case (Inl e)
    then show ?thesis
      using validP_Inl[OF merge_branch_valid start] assms by (auto simp: since_def)
  next
    case (Inr b)
    then have "merge_outcome repo t sha (sh_calls s) b s'"
      using validP_Inr[OF merge_branch_valid start] assms by blast
    then show ?thesis
      using Inr by (cases b) (auto simp: since_def merge_outcome_def)
  qed
qed

lemma git_error: "git h check dir args s = (Inl e, t) \<Longrightarrow> \<exists>m. e = RuntimeError m"
  by (auto simp: git_defs split: prod.splits if_splits)

lemma git_run_error: "git_run h check dir args s = (Inl e, t) \<Longrightarrow> \<exists>m. e = RuntimeError m"
  by (auto simp: git_run_def thenP_def bindP_Inl_iff prog_defs dest: git_error)

lemma rev_parse_error: "rev_parse h repo ref s = (Inl e, t) \<Longrightarrow> \<exists>m. e = RuntimeError m"
  by (auto simp: rev_parse_def bindP_Inl_iff prog_defs dest: git_error)

lemma whenP_error: "whenP b m s = (Inl e, t) \<Longrightarrow> b \<and> m s = (Inl e, t)"
  by (auto simp: whenP_def prog_defs split: if_splits)


definition delete_call :: "string \<Rightarrow> string \<Rightarrow> string \<Rightarrow> git_call \<Rightarrow> bool" where
  "delete_call repo remote t c \<longleftrightarrow> gc_dir c = repo \<and> gc_args c = [''push'', remote, ''--delete'', t]"

lemma delete_callI:
  "delete_call repo remote t \<lparr>gc_dir = repo, gc_args = [''push'', remote, ''--delete'', t], gc_code = c\<rparr>"
  by (simp add: delete_call_def)

lemma delete_branches_calls:
  "\<exists>new s'. delete_branches h repo remote ts s = (Inr (), s') \<and> sh_calls s' = sh_calls s @ new
     \<and> list_all2 (delete_call repo remote) ts new"
proof (induction ts arbitrary: s)
  case (Cons t ts)
  obtain code out u where g: "git h False repo [''push'', remote, ''--delete'', t] s = (Inr (code, out), u)"
    and u: "sh_calls u = sh_calls s @ [\<lparr>gc_dir = repo, gc_args = [''push'', remote, ''--delete'', t], gc_code = code\<rparr>]"
    by (cases "ho_git h repo [''push'', remote, ''--delete'', t] (sh_world s)") (auto simp: git_defs)
  obtain new s' where "delete_branches h repo remote ts u = (Inr (), s')" "sh_calls s' = sh_calls u @ new"
    "list_all2 (delete_call repo remote) ts new"
    using Cons.IH by blast
  then show ?case
    using g u by (auto simp: git_run_def thenP_def bindP_def retP_def delete_callI)
qed (simp add: retP_def)

text \<open>
  Merged branches are deleted only after main was pushed: the push of main comes first; if it fails
  the cleanup raises and deletes nothing, else exactly the branches of the merged tasks are deleted, in
  order, and a deletion that fails does not stop the others.
\<close>

theorem push_comes_before_delete:
  "\<exists>code new. sh_calls (snd (push_and_cleanup h repo ts base remote s)) =
      sh_calls s @ \<lparr>gc_dir = repo, gc_args = [''push'', ''origin'', base], gc_code = code\<rparr> # new
    \<and> (if code = 0 then list_all2 (delete_call repo remote) ts new \<and> is_ok (fst (push_and_cleanup h repo ts base remote s))
       else new = [] \<and> \<not> is_ok (fst (push_and_cleanup h repo ts base remote s)))"
proof -
  obtain code out err w where g: "ho_git h repo [''push'', ''origin'', base] (sh_world s) = ((code, out, err), w)"
    by (metis prod.collapse)
  let ?u = "s\<lparr>sh_calls := sh_calls s @ [\<lparr>gc_dir = repo, gc_args = [''push'', ''origin'', base], gc_code = code\<rparr>], sh_world := w\<rparr>"
  obtain new s' where "delete_branches h repo remote ts ?u = (Inr (), s')" "sh_calls s' = sh_calls ?u @ new"
    "list_all2 (delete_call repo remote) ts new"
    using delete_branches_calls by blast
  then show ?thesis
    using g by (cases "code = 0") (auto simp: push_and_cleanup_def git_run_def thenP_def git_defs is_ok_def)
qed

text \<open>A git whose commits fail.\<close>

definition stubborn_git :: "string \<Rightarrow> string list \<Rightarrow> unit \<Rightarrow> (int \<times> string \<times> string) \<times> unit" where
  "stubborn_git dir args w = ((if ''commit'' \<in> set args then 1 else 0, ''a1'', []), w)"

definition idle_shell :: "unit shell" where
  "idle_shell = \<lparr>sh_calls = [], sh_world = ()\<rparr>"

theorem merge_lands_only_verified_witness:
  "\<exists>s'. merge_branch (git_only calm_git) ''r'' ''t1'' ''a1'' ''main'' ''vps'' False [''waived''] idle_shell = (Inr True, s')
     \<and> landed ''r'' ''t1'' ''a1'' (sh_calls s')"
proof -
  have "fst (merge_branch (git_only calm_git) ''r'' ''t1'' ''a1'' ''main'' ''vps'' False [''waived''] idle_shell) = Inr True"
    by code_simp
  then obtain s' where m: "merge_branch (git_only calm_git) ''r'' ''t1'' ''a1'' ''main'' ''vps'' False [''waived''] idle_shell = (Inr True, s')"
    by (metis prod.collapse)
  then show ?thesis
    using merge_lands_only_verified[OF m] by (auto simp: idle_shell_def)
qed


end
