(* ===== verification/Merge_Main.thy ===== *)
theory Merge_Main
  imports Merge_Git Hub_Tripwire
begin

text \<open>
  The command of \<open>src/orchestrator/local_merge.py\<close>: the guards before a batch, the engine wired to the
  gates and to the merge, and the push after it. What is typed at a prompt and the notice of the oracle
  are programs given from outside; what is printed is not modelled.
\<close>

record merge_options =
  mo_no_input :: bool
  mo_local :: "string option"
  mo_advisory :: bool
  mo_tasks :: "string list"

record 'w merge_site =
  ms_repo :: string
  ms_work_root :: string
  ms_remote :: string
  ms_base :: string
  ms_tools :: "'w gate_tools"
  ms_typed :: "string \<Rightarrow> ('w shell, string) prog"
  ms_notice :: "('w shell, unit) prog"

text \<open>The usage errors of \<open>--local\<close>.\<close>

definition usage_ok :: "merge_options \<Rightarrow> bool" where
  "usage_ok o' = (case mo_local o' of None \<Rightarrow> True | Some ref \<Rightarrow> length (mo_tasks o') = 1 \<and> strip ref \<noteq> [])"

definition confirm_merge :: "'w merge_site \<Rightarrow> merge_options \<Rightarrow> merge_verdict \<Rightarrow> ('w shell, bool) prog" where
  "confirm_merge site o' v =
     (if mo_no_input o' then retP False
      else bindP (ms_typed site ''[confirm] type the exact task id to merge (blank declines) > '') (\<lambda>typed.
        retP (interactive_confirm typed v)))"

definition ask_user :: "'w merge_site \<Rightarrow> merge_options \<Rightarrow> string \<Rightarrow> ('w shell, bool) prog" where
  "ask_user site o' prompt =
     (if mo_no_input o' then retP False
      else bindP (ms_typed site prompt) (\<lambda>typed. retP (lower (strip typed) = ''y'')))"

definition report_verdict :: "'w host \<Rightarrow> 'w merge_site \<Rightarrow> merge_verdict \<Rightarrow> ('w shell, unit) prog" where
  "report_verdict h site v =
     whenP (\<not> mv_merged v)
       (on_world (ho_write h (sub_path (ms_repo site) (''.laddy/tasks/'' @ mv_task v @ ''/merge-hold.md'')) (mv_digest v)))"

definition site_engine :: "'w host \<Rightarrow> 'w merge_site \<Rightarrow> merge_options \<Rightarrow> 'w shell merge_engine" where
  "site_engine h site o' =
     \<lparr>me_ready = (if mo_local o' \<noteq> None \<or> mo_tasks o' \<noteq> [] then retP (mo_tasks o')
                  else discover_ready h (ms_repo site) (ms_base site) (ms_remote site)),
      me_verify = (\<lambda>t. gather_gates h (ms_tools site) t (ms_repo site) (ms_work_root site) (ms_remote site)
                         (ms_base site) (mo_local o')),
      me_merge = (\<lambda>rq. merge_branch h (ms_repo site) (rq_task rq) (rq_sha rq) (ms_base site) (ms_remote site)
                         (mo_local o' = None) (rq_advisory rq)),
      me_report = report_verdict h site,
      me_confirm = confirm_merge site o',
      me_dry_run = mo_no_input o',
      me_advisory = mo_advisory o',
      me_repr = ho_str h\<rparr>"

definition merged_tasks :: "merge_verdict list \<Rightarrow> string list" where
  "merged_tasks vs = map mv_task (filter mv_merged vs)"

definition run_batch :: "'w host \<Rightarrow> 'w merge_site \<Rightarrow> merge_options \<Rightarrow> ('w shell, int) prog" where
  "run_batch h site o' =
     bindP (engine_run (site_engine h site o')) (\<lambda>results.
       thenP (ms_notice site)
      (thenP (if merged_tasks results = [] then retP ()
              else bindP (ask_user site o' ''[push] push main to origin and delete merged branch(es)? (y/N) > '') (\<lambda>yes.
                whenP yes (push_and_cleanup h (ms_repo site) (merged_tasks results) (ms_base site) (ms_remote site))))
        (retP (if filter (\<lambda>v. \<not> mv_merged v) results = [] then 0 else 1))))"

definition dirty_args :: "string list" where
  "dirty_args = [''status'', ''--porcelain'', ''--'', ''.'', '':(exclude).laddy/tasks'']"

definition merge_main :: "'w host \<Rightarrow> 'w merge_site \<Rightarrow> merge_options \<Rightarrow> ('w shell, int) prog" where
  "merge_main h site o' =
     (if \<not> usage_ok o' then throwP (OtherError ''SystemExit'')
      else bindP (git h True (ms_repo site) dirty_args) (\<lambda>(_, porcelain).
        if strip porcelain \<noteq> [] then retP 1
        else bindP (check_hub_main h (ms_repo site) (ms_remote site) (ms_base site)) (\<lambda>c.
          if hc_state c = HubUnreachable \<and> mo_local o' = None then retP 2
          else if hc_state c \<noteq> HubUnreachable \<and> \<not> check_ok c then retP 2
          else bindP (reconcile_stale_worktrees h (ms_repo site) (ms_work_root site) (ask_user site o') (\<not> mo_no_input o'))
            (\<lambda>ready. if \<not> ready then retP 1 else run_batch h site o'))))"

section \<open>A dry run changes nothing\<close>

text \<open>The commands that change the main branch or a remote.\<close>

definition integrates :: "git_call \<Rightarrow> bool" where
  "integrates c \<longleftrightarrow> hd (gc_args c) = ''push'' \<or> (\<exists>sha. gc_args c = merge_args sha) \<or> (\<exists>t sha. gc_args c = commit_args t sha)"

abbreviation harmless_call :: "git_call \<Rightarrow> bool" where
  "harmless_call c \<equiv> \<not> integrates c"

text \<open>The injected tools, the prompt and the notice run no such command either.\<close>

definition tools_harmless :: "'w merge_site \<Rightarrow> bool" where
  "tools_harmless site \<longleftrightarrow>
     (\<forall>a b c. calls_in harmless_call (gt_merge_check (ms_tools site) a b c))
   \<and> (\<forall>a b c. calls_in harmless_call (gt_local_check (ms_tools site) a b c))
   \<and> (\<forall>a b c d e f. calls_in harmless_call (gt_binding (ms_tools site) a b c d e f))
   \<and> (\<forall>a p q. calls_in harmless_call (gt_rw2 (ms_tools site) a p q))
   \<and> (\<forall>m\<in>set (gt_security (ms_tools site)). \<forall>a p q. calls_in harmless_call (snd m a p q))
   \<and> (\<forall>n. calls_in harmless_call (gt_role (ms_tools site) n))
   \<and> (\<forall>p. calls_in harmless_call (ms_typed site p)) \<and> calls_in harmless_call (ms_notice site)"

lemma harmless_plain:
  "a \<noteq> ''push'' \<Longrightarrow> a \<noteq> ''-c'' \<Longrightarrow> harmless_call \<lparr>gc_dir = d, gc_args = a # as, gc_code = c\<rparr>"
  by (simp add: integrates_def merge_args_def commit_args_def merge_identity_def)

lemma calls_keepsP: "calls_in C m \<longleftrightarrow> (\<forall>pre. keepsP (since pre (list_all C)) m)"
  for m :: "('w shell, 'a) prog"
proof
  show "calls_in C m \<Longrightarrow> \<forall>pre. keepsP (since pre (list_all C)) m"
    by (simp add: calls_keep)
next
  assume k: "\<forall>pre. keepsP (since pre (list_all C)) m"
  show "calls_in C m"
  proof (rule calls_inI)
    fix s :: "'w shell"
    obtain r t where m: "m s = (r, t)"
      by (cases "m s")
    have "since (sh_calls s) (list_all C) s"
      by (simp add: since_def)
    then have "since (sh_calls s) (list_all C) t"
      using keepsP_result[OF k[rule_format] _ m] by blast
    then show "\<exists>new. sh_calls (snd (m s)) = sh_calls s @ new \<and> list_all C new"
      using m by (simp add: since_def)
  qed
qed

lemma calls_keepsI: "(\<And>pre. keepsP (since pre (list_all C)) m) \<Longrightarrow> calls_in C m"
  by (simp add: calls_keepsP)

lemma calls_keepsD: "calls_in C m \<Longrightarrow> keepsP (since pre (list_all C)) m"
  by (simp add: calls_keepsP)

lemma calls_finally [calls_intros]:
  assumes "calls_in C m" "calls_in C f"
  shows "calls_in C (finallyP m f)"
proof (rule calls_inI)
  fix s
  obtain r t q u where m: "m s = (r, t)" and f: "f t = (q, u)"
    by (cases "m s", cases "f (snd (m s))") auto
  obtain xs where xs: "sh_calls t = sh_calls s @ xs" "list_all C xs"
    using assms(1) m by (rule calls_inE)
  obtain ys where ys: "sh_calls u = sh_calls t @ ys" "list_all C ys"
    using assms(2) f by (rule calls_inE)
  show "\<exists>new. sh_calls (snd (finallyP m f s)) = sh_calls s @ new \<and> list_all C new"
    using m f xs ys by (intro exI[of _ "xs @ ys"]) (simp add: finallyP_def split: sum.split)
qed

lemma calls_worktrees [calls_intros]:
  "calls_in harmless_call (remove_worktree h repo wt)"
  "calls_in harmless_call (rev_parse h repo ref)"
  "calls_in harmless_call (worktree_sha h wt)"
  unfolding remove_worktree_def rev_parse_def worktree_sha_def
  by (intro calls_intros; simp add: harmless_plain)+

lemma calls_clear [calls_intros]: "calls_in harmless_call (clear_worktree_path h repo wt)"
  unfolding clear_worktree_path_def by (intro calls_intros)

lemma calls_at_sha [calls_intros]: "calls_in harmless_call (worktree_at_sha h edit repo t wr sha)"
  unfolding worktree_at_sha_def by (intro calls_intros) (simp_all add: harmless_plain)

lemma calls_checkout [calls_intros]:
  "calls_in harmless_call (branch_worktree h edit repo t wr remote)"
  "calls_in harmless_call (local_worktree h edit repo t wr ref)"
  unfolding branch_worktree_def local_worktree_def resolve_local_ref_def
  by (intro calls_intros; simp add: harmless_plain)+

lemma calls_ready [calls_intros]: "calls_in harmless_call (discover_ready h repo base remote)"
proof -
  have "calls_in harmless_call (ready_tasks h repo base remote ts)" for ts
    by (induction ts) (auto intro!: calls_intros simp: harmless_plain)
  then show ?thesis
    unfolding discover_ready_def by (intro calls_intros) (simp_all add: harmless_plain)
qed

lemma calls_diffs [calls_intros]:
  "calls_in harmless_call (changed_files h wt t base)" "calls_in harmless_call (changed_statuses h wt t base)"
  unfolding changed_files_def changed_statuses_def diff_args_def
  by (intro calls_intros; simp add: harmless_plain)+

lemma calls_policy [calls_intros]: "calls_in harmless_call (policy_at h toml repo ref)"
  unfolding policy_at_def by (intro calls_intros) (simp_all add: harmless_plain)

text \<open>The trial merge is another command than the one that integrates.\<close>

lemma trial_harmless: "harmless_call \<lparr>gc_dir = d, gc_args = trial_merge_args t sha, gc_code = c\<rparr>"
  by (simp add: integrates_def trial_merge_args_def merge_args_def commit_args_def merge_identity_def)

lemma calls_panel_member [calls_intros]:
  assumes "\<And>p q. calls_in C (snd m p q)"
  shows "calls_in C (panel_member J m prompt v)"
proof -
  have "calls_in C (request_verdict J (snd m) prompt None 2 v)"
    by (rule calls_keepsI, rule request_verdict_keeps, rule calls_keepsD, rule assms)
  moreover have "calls_in C (case e of VerdictError msg \<Rightarrow> retP (abstention_blocker (fst m) msg) | _ \<Rightarrow> throwP e)" for e
    by (cases e) (simp_all add: calls_none)
  ultimately show ?thesis
    unfolding panel_member_def by (intro calls_catch calls_bind calls_pair calls_none)
qed

lemma calls_panel:
  "(\<And>m p q. m \<in> set ms \<Longrightarrow> calls_in C (snd m p q)) \<Longrightarrow> calls_in C (run_security_panel J ms prompt)"
  by (induction ms) (auto intro!: calls_intros)

lemma calls_gathered:
  assumes "tools_harmless site"
  shows "calls_in harmless_call (gather_gates h (ms_tools site) t repo wr remote base lref)"
proof -
  let ?T = "ms_tools site"
  have tools: "calls_in harmless_call (gt_merge_check ?T a b c)" "calls_in harmless_call (gt_local_check ?T a b c)"
    "calls_in harmless_call (gt_binding ?T a b c d e f)" "calls_in harmless_call (gt_rw2 ?T a p q)"
    "calls_in harmless_call (gt_role ?T a)"
    "m \<in> set (gt_security ?T) \<Longrightarrow> calls_in harmless_call (snd m a p q)" for a b c d e f p q m
    using assms by (simp_all add: tools_harmless_def)
  have att: "calls_in harmless_call (attestation ?T wt base t lref)" for wt
    unfolding attestation_def by (intro calls_intros tools)
  have bound: "calls_in harmless_call (binding_on_merged_tree h ?T repo t wr b sha cov gate)" for b sha cov gate
    unfolding binding_on_merged_tree_def by (intro calls_intros tools trial_harmless) (simp_all add: harmless_plain)
  have panel: "calls_in harmless_call (security_panel ?T t base wt blast)" for wt blast
    unfolding security_panel_def by (intro calls_intros calls_panel tools)
      (auto intro: tools(6)[where m = "(x, y)" for x y, unfolded snd_conv])
  have rw2: "calls_in harmless_call (rw2_rerun ?T t base wt blast)" for wt blast
    unfolding rw2_rerun_def by (intro calls_intros tools) (simp add: tools)
  show ?thesis
    unfolding gather_gates_def gates_in_worktree_def by (intro calls_intros att bound panel rw2)
qed

lemma calls_reconcile:
  assumes "\<And>p. calls_in harmless_call (ask_fn p)"
  shows "calls_in harmless_call (reconcile_stale_worktrees h repo wr ask_fn interactive)"
proof -
  have "calls_in harmless_call (remove_all h repo wr cs)" for cs
    by (induction cs) (auto intro!: calls_intros)
  then show ?thesis
    unfolding reconcile_stale_worktrees_def by (intro calls_intros assms)
qed

lemma calls_tripwire: "calls_in harmless_call (check_hub_main h repo remote base)"
  unfolding check_hub_main_def compare_hub_def check_tip_def is_rewound_def record_tip_def hub_check_def
  by (intro calls_intros) (simp_all add: harmless_plain)

lemma calls_batch_dry:
  fixes site :: "'w merge_site"
  assumes "tools_harmless site" "mo_no_input o'"
  shows "calls_in harmless_call (run_batch h site o')"
proof -
  have confirm: "confirm_merge site o' v = retP False" "ask_user site o' p = retP False" for v p
    using assms(2) by (simp_all add: confirm_merge_def ask_user_def)
  have "calls_in harmless_call (engine_run (site_engine h site o'))"
  proof (rule calls_keepsI, rule judge_unconfirmed_keeps)
    show "me_dry_run (site_engine h site o') \<or> never_confirms (site_engine h site o')"
      using assms(2) by (simp add: site_engine_def)
  qed (auto simp: site_engine_def confirm report_verdict_def intro!: calls_keepsD calls_gathered assms(1) calls_intros)
  moreover have unpushed: "bindP (retP False) (\<lambda>yes. whenP yes m) = retP ()" for m :: "('w shell, unit) prog"
    by (simp add: fun_eq_iff bindP_def whenP_def prog_defs)
  moreover have "calls_in harmless_call (ms_notice site)"
    using assms(1) by (simp add: tools_harmless_def)
  ultimately show ?thesis
    unfolding run_batch_def confirm unpushed by (auto intro!: calls_intros)
qed

text \<open>
  A dry run changes nothing: with \<open>--no-input\<close> the whole command, from the guards to the push,
  runs no command that merges or commits on the trusted tree or pushes to a remote, whatever git answers
  and whatever is waiting, as long as the injected tools run none themselves.
\<close>

theorem dry_run_changes_nothing:
  assumes "tools_harmless site" "mo_no_input o'"
  shows "\<exists>new. sh_calls (snd (merge_main h site o' s)) = sh_calls s @ new \<and> list_all (\<lambda>c. \<not> integrates c) new"
proof -
  have "calls_in harmless_call (ask_user site o' p)" for p
    using assms(2) by (simp add: ask_user_def calls_none)
  then have "calls_in harmless_call (merge_main h site o')"
    unfolding merge_main_def dirty_args_def
    by (intro calls_intros calls_reconcile calls_tripwire calls_batch_dry assms) (simp_all add: harmless_plain)
  then show ?thesis
    by (simp add: calls_in_def)
qed

text \<open>
  The guards come first: on a dirty tree the command ends with 1, and on an alarm of the tripwire
  with 2 - an unreachable hub counts as an alarm except with \<open>--local\<close> - before the batch starts, having
  only read and recorded refs; nothing was merged, committed or pushed.
\<close>

theorem alarm_stops_the_batch:
  assumes "usage_ok o'" "git h True (ms_repo site) dirty_args s = (Inr (code, out), s1)"
    and "strip out = [] \<longrightarrow> check_hub_main h (ms_repo site) (ms_remote site) (ms_base site) s1 = (Inr c, s2)
           \<and> \<not> check_ok c \<and> (hc_state c = HubUnreachable \<longrightarrow> mo_local o' = None)"
  shows "\<exists>s' new. merge_main h site o' s = (Inr (if strip out = [] then 2 else 1), s')
    \<and> sh_calls s' = sh_calls s @ new \<and> list_all (\<lambda>c. \<not> integrates c) new"
proof -
  have git: "calls_in harmless_call (git h True (ms_repo site) dirty_args)"
    unfolding dirty_args_def by (intro calls_intros) (simp add: harmless_plain)
  obtain xs where xs: "sh_calls s1 = sh_calls s @ xs" "list_all harmless_call xs"
    using git assms(2) by (rule calls_inE)
  show ?thesis
  proof (cases "strip out = []")
    case False
    then show ?thesis
      using xs assms(1,2) by (auto simp: merge_main_def bindP_def retP_def)
  next
    case True
    then have c: "check_hub_main h (ms_repo site) (ms_remote site) (ms_base site) s1 = (Inr c, s2)"
      using assms(3) by simp
    obtain ys where "sh_calls s2 = sh_calls s1 @ ys" "list_all harmless_call ys"
      using calls_tripwire c by (rule calls_inE)
    then show ?thesis
      using True xs assms c by (intro exI[of _ s2] exI[of _ "xs @ ys"]) (auto simp: merge_main_def bindP_def retP_def)
  qed
qed

section \<open>A concrete site\<close>

definition calm_site :: "unit merge_site" where
  "calm_site = \<lparr>ms_repo = ''r'', ms_work_root = ''w'', ms_remote = ''vps'', ms_base = ''main'', ms_tools = calm_tools,
     ms_typed = (\<lambda>_. retP ''t1''), ms_notice = retP ()\<rparr>"

definition dry_options :: merge_options where
  "dry_options = \<lparr>mo_no_input = True, mo_local = None, mo_advisory = False, mo_tasks = [''t1'']\<rparr>"

theorem dry_run_changes_nothing_witness:
  "\<exists>new. sh_calls (snd (merge_main (git_only calm_git) calm_site dry_options idle_shell)) = new
     \<and> list_all (\<lambda>c. \<not> integrates c) new"
proof -
  have "tools_harmless calm_site"
    by (simp add: tools_harmless_def calm_site_def calm_tools_def calls_none)
  then show ?thesis
    using dry_run_changes_nothing[of calm_site dry_options "git_only calm_git" idle_shell]
    by (simp add: dry_options_def idle_shell_def)
qed

theorem alarm_stops_the_batch_witness:
  "\<exists>s'. merge_main (git_only (\<lambda>dir args w. ((0, '' M x.py'', []), w))) calm_site dry_options idle_shell = (Inr 1, s')"
proof -
  let ?h = "git_only (\<lambda>dir args w. ((0, '' M x.py'', []), w)) :: unit host"
  obtain s1 where g: "git ?h True (ms_repo calm_site) dirty_args idle_shell = (Inr (0, ''M x.py''), s1)"
    and p: "strip ''M x.py'' \<noteq> []"
    by (auto simp: git_defs git_only_def strip_def lstrip_def rstrip_def is_space_def)
  show ?thesis
    using alarm_stops_the_batch[of dry_options ?h calm_site idle_shell 0 "''M x.py''" s1] g p
    by (auto simp: usage_ok_def dry_options_def)
qed

end
