(* ===== verification/Artifact_Store.thy ===== *)
theory Artifact_Store
  imports Json
begin

text \<open>
  Model of \<open>src/orchestrator/artifacts.py\<close> over a disk: the files of one task under the agent directory
  of its worktree, and the append-only JSON lines log. A path is the list of its components from the
  root, a link holds the absolute path it points to, a file holds bytes. The branch under work may ship
  any part of the directory as a link, which is why every write refuses to follow one.

  \<open>World\<close> is the abstraction of this module the loop is verified over: the log as a list of entries.
  The link check and the write are one step here; a link planted between them is not modelled.
\<close>

section \<open>The disk\<close>

datatype fnode = Reg string | Link "string list" | Dir

type_synonym path = "string list"
type_synonym disk = "path \<Rightarrow> fnode option"

datatype errno = ELOOP | ENOENT | ENOTDIR | EEXIST | EISDIR

definition is_directory :: "disk \<Rightarrow> path \<Rightarrow> bool" where
  "is_directory d p = (p = [] \<or> d p = Some Dir)"

text \<open>
  The kernel's path resolution: \<open>walk n d cur p\<close> follows \<open>p\<close> from the real directory \<open>cur\<close>, through at
  most \<open>n\<close> links; the number of links left and the real path.
\<close>

fun walk :: "nat \<Rightarrow> disk \<Rightarrow> path \<Rightarrow> path \<Rightarrow> errno + nat \<times> path" where
  "walk n d cur [] = Inr (n, cur)"
| "walk n d cur (c # cs) =
     (if \<not> is_directory d cur then Inl ENOTDIR
      else if c = ''..'' then walk n d (butlast cur) cs
      else (case d (cur @ [c]) of
          None \<Rightarrow> Inl ENOENT
        | Some (Link t) \<Rightarrow> (case n of 0 \<Rightarrow> Inl ELOOP | Suc m \<Rightarrow> walk m d [] (t @ cs))
        | Some _ \<Rightarrow> walk n d (cur @ [c]) cs))"

definition max_links :: nat where
  "max_links = 40"

definition resolve :: "disk \<Rightarrow> path \<Rightarrow> errno + nat \<times> path" where
  "resolve d p = walk max_links d [] p"

text \<open>The directory entry a path names, its own link not followed.\<close>

definition entry_of :: "disk \<Rightarrow> path \<Rightarrow> errno + path" where
  "entry_of d p =
     bindR (resolve d (butlast p)) (\<lambda>(_, q). if is_directory d q then Inr (q @ [last p]) else Inl ENOTDIR)"

definition is_symlink :: "disk \<Rightarrow> path \<Rightarrow> bool" where
  "is_symlink d p =
     (p \<noteq> [] \<and> last p \<noteq> ''..'' \<and>
      (case entry_of d p of Inr f \<Rightarrow> (case d f of Some (Link _) \<Rightarrow> True | _ \<Rightarrow> False) | Inl _ \<Rightarrow> False))"

definition file_at :: "disk \<Rightarrow> path \<Rightarrow> string option" where
  "file_at d p =
     (case resolve d p of
        Inr (_, q) \<Rightarrow> (case d q of Some (Reg b) \<Rightarrow> Some b | _ \<Rightarrow> None)
      | Inl _ \<Rightarrow> None)"

definition is_dir_at :: "disk \<Rightarrow> path \<Rightarrow> bool" where
  "is_dir_at d p = (case resolve d p of Inr (_, q) \<Rightarrow> is_directory d q | Inl _ \<Rightarrow> False)"

definition os_mkdir :: "disk \<Rightarrow> path \<Rightarrow> errno + disk" where
  "os_mkdir d p =
     (if p = [] \<or> last p = ''..'' then Inl EEXIST
      else bindR (entry_of d p) (\<lambda>f. if d f = None then Inr (d(f \<mapsto> Dir)) else Inl EEXIST))"

text \<open>\<open>Path.mkdir(exist_ok=True)\<close> and \<open>Path.mkdir(parents=True, exist_ok=True)\<close>.\<close>

definition mkdir_exist_ok :: "disk \<Rightarrow> path \<Rightarrow> errno + disk" where
  "mkdir_exist_ok d p =
     (case os_mkdir d p of
        Inr d' \<Rightarrow> Inr d'
      | Inl e \<Rightarrow> if e \<noteq> ENOENT \<and> is_dir_at d p then Inr d else Inl e)"

definition missing_parent :: "errno + disk \<Rightarrow> bool" where
  "missing_parent r = (case r of Inl e \<Rightarrow> e = ENOENT | Inr _ \<Rightarrow> False)"

function mkdirs :: "disk \<Rightarrow> path \<Rightarrow> errno + disk" where
  "mkdirs d p =
     (if missing_parent (os_mkdir d p) \<and> p \<noteq> []
      then bindR (mkdirs d (butlast p)) (\<lambda>d'. mkdir_exist_ok d' p)
      else mkdir_exist_ok d p)"
  by pat_completeness auto
termination
  by (relation "measure (length \<circ> snd)") simp_all

declare mkdirs.simps [simp del]

text \<open>\<open>os.open\<close> for writing, with \<open>O_CREAT\<close> and \<open>O_NOFOLLOW\<close>: the entry that is written.\<close>

definition open_nofollow :: "disk \<Rightarrow> path \<Rightarrow> errno + path" where
  "open_nofollow d p =
     (if p = [] \<or> last p = ''..'' then Inl EISDIR
      else bindR (entry_of d p) (\<lambda>f. case d f of
          Some (Link _) \<Rightarrow> Inl ELOOP
        | Some Dir \<Rightarrow> Inl EISDIR
        | _ \<Rightarrow> Inr f))"

section \<open>Text and bytes\<close>

text \<open>UTF-8 on the modelled code points: one byte up to U+007F, two above.\<close>

definition utf8_char :: "char \<Rightarrow> string" where
  "utf8_char c =
     (let n = of_char c :: nat in
      if n < 128 then [c] else [char_of (192 + n div 64), char_of (128 + n mod 64)])"

definition utf8_encode :: "string \<Rightarrow> string" where
  "utf8_encode s = concat (map utf8_char s)"

text \<open>\<open>None\<close> is \<open>UnicodeDecodeError\<close>. (Code points above U+00FF do not occur.)\<close>

fun utf8_decode :: "string \<Rightarrow> string option" where
  "utf8_decode [] = Some []"
| "utf8_decode (b # bs) =
     (if (of_char b :: nat) < 128 then map_option (\<lambda>t. b # t) (utf8_decode bs)
      else (case bs of
          [] \<Rightarrow> None
        | c # cs \<Rightarrow>
            (let n = of_char b :: nat; k = of_char c :: nat in
             if 194 \<le> n \<and> n \<le> 195 \<and> 128 \<le> k \<and> k < 192
             then map_option (\<lambda>t. char_of (64 * (n - 192) + (k - 128)) # t) (utf8_decode cs)
             else None)))"

text \<open>The translation of line ends a text file is read with.\<close>

primrec newlines_from :: "bool \<Rightarrow> string \<Rightarrow> string" where
  "newlines_from cr [] = []"
| "newlines_from cr (c # cs) =
     (if c = CHR 0x0D then CHR 0x0A # newlines_from True cs
      else if cr \<and> c = CHR 0x0A then newlines_from False cs
      else c # newlines_from False cs)"

definition universal_newlines :: "string \<Rightarrow> string" where
  "universal_newlines s = newlines_from False s"

definition decode_text :: "string \<Rightarrow> exn + string" where
  "decode_text b = (case utf8_decode b of None \<Rightarrow> Inl UnicodeDecodeError | Some t \<Rightarrow> Inr (universal_newlines t))"

section \<open>Writing without following links\<close>

definition refuse_symlink :: "errno \<Rightarrow> exn" where
  "refuse_symlink e = (if e = ELOOP then ArtifactPathError else OSError)"

definition os_error :: "errno + 'a \<Rightarrow> exn + 'a" where
  "os_error r = (case r of Inl e \<Rightarrow> Inl OSError | Inr a \<Rightarrow> Inr a)"

definition opened :: "disk \<Rightarrow> path \<Rightarrow> exn + path" where
  "opened d p = (case open_nofollow d p of Inl e \<Rightarrow> Inl (refuse_symlink e) | Inr f \<Rightarrow> Inr f)"

definition write_text_nofollow :: "disk \<Rightarrow> path \<Rightarrow> string \<Rightarrow> exn + disk" where
  "write_text_nofollow d p txt' = bindR (opened d p) (\<lambda>f. Inr (d(f \<mapsto> Reg (utf8_encode txt'))))"

definition write_bytes_nofollow :: "disk \<Rightarrow> path \<Rightarrow> string \<Rightarrow> exn + disk" where
  "write_bytes_nofollow d p bytes = bindR (opened d p) (\<lambda>f. Inr (d(f \<mapsto> Reg bytes)))"

section \<open>JSON lines\<close>

text \<open>\<open>json.dumps(v, ensure_ascii=False)\<close> and \<open>json.loads\<close>, of the standard library.\<close>

record jsonl_lib =
  jl_dump :: "json \<Rightarrow> string"
  jl_load :: "string \<Rightarrow> json option"

definition append_jsonl :: "jsonl_lib \<Rightarrow> disk \<Rightarrow> path \<Rightarrow> json \<Rightarrow> exn + disk" where
  "append_jsonl jl d p event =
     bindR (os_error (mkdirs d (butlast p))) (\<lambda>d'.
     bindR (opened d' p) (\<lambda>f.
       let old = (case d' f of Some (Reg b) \<Rightarrow> b | _ \<Rightarrow> [])
       in Inr (d'(f \<mapsto> Reg (old @ utf8_encode (jl_dump jl event @ [CHR 0x0A]))))))"

text \<open>A line is the last one when no line follows it.\<close>

primrec read_entries :: "jsonl_lib \<Rightarrow> string list \<Rightarrow> exn + json list" where
  "read_entries jl [] = Inr []"
| "read_entries jl (raw # rest) =
     (if strip raw = [] then read_entries jl rest
      else (case jl_load jl raw of
          Some v \<Rightarrow> bindR (read_entries jl rest) (\<lambda>vs. Inr (v # vs))
        | None \<Rightarrow> if rest = [] then Inr [] else Inl LogCorruptionError))"

definition read_jsonl :: "jsonl_lib \<Rightarrow> disk \<Rightarrow> path \<Rightarrow> exn + json list" where
  "read_jsonl jl d p =
     (case file_at d p of
        None \<Rightarrow> Inr []
      | Some b \<Rightarrow> bindR (decode_text b) (\<lambda>t. read_entries jl (splitlines t)))"

section \<open>The artifacts of a task\<close>

record artifacts =
  ar_root :: path
  ar_task :: string

text \<open>A task id may hold slashes; an absolute one replaces the directory it is joined to.\<close>

definition task_parts :: "string \<Rightarrow> path" where
  "task_parts task_id = filter (\<lambda>c. c \<noteq> [] \<and> c \<noteq> ''.'') (split_on CHR ''/'' task_id)"

definition rel_parts :: "artifacts \<Rightarrow> path" where
  "rel_parts a = [''.laddy'', ''tasks''] @ task_parts (ar_task a)"

definition art_dir :: "artifacts \<Rightarrow> path" where
  "art_dir a = (if prefix ''/'' (ar_task a) then task_parts (ar_task a) else ar_root a @ rel_parts a)"

definition spec_path :: "artifacts \<Rightarrow> path" where
  "spec_path a = art_dir a @ [''spec.md'']"

definition log_path :: "artifacts \<Rightarrow> path" where
  "log_path a = art_dir a @ [''iteration-log.jsonl'']"

fun refuse_links :: "disk \<Rightarrow> path \<Rightarrow> path \<Rightarrow> exn + unit" where
  "refuse_links d cur [] = Inr ()"
| "refuse_links d cur (c # cs) =
     (if is_symlink d (cur @ [c]) then Inl ArtifactPathError else refuse_links d (cur @ [c]) cs)"

definition ensure_dir :: "disk \<Rightarrow> artifacts \<Rightarrow> exn + disk" where
  "ensure_dir d a =
     (if prefix ''/'' (ar_task a) then Inl ValueError
      else bindR (refuse_links d (ar_root a) (rel_parts a)) (\<lambda>_. os_error (mkdirs d (art_dir a))))"

definition art_append_log :: "jsonl_lib \<Rightarrow> json \<Rightarrow> disk \<Rightarrow> artifacts \<Rightarrow> entry \<Rightarrow> exn + disk" where
  "art_append_log jl now d a flds =
     bindR (ensure_dir d a) (\<lambda>d'. append_jsonl jl d' (log_path a) (JObj ((''ts'', now) # flds)))"

definition art_read_log :: "jsonl_lib \<Rightarrow> disk \<Rightarrow> artifacts \<Rightarrow> exn + json list" where
  "art_read_log jl d a = read_jsonl jl d (log_path a)"

definition art_write_text :: "disk \<Rightarrow> artifacts \<Rightarrow> string \<Rightarrow> string \<Rightarrow> exn + disk" where
  "art_write_text d a name txt' = bindR (ensure_dir d a) (\<lambda>d'. write_text_nofollow d' (art_dir a @ [name]) txt')"

definition art_write_json :: "json_lib \<Rightarrow> disk \<Rightarrow> artifacts \<Rightarrow> string \<Rightarrow> json \<Rightarrow> exn + disk" where
  "art_write_json js d a name v = art_write_text d a name (dumps_raw js v @ [CHR 0x0A])"

definition art_read_text :: "disk \<Rightarrow> artifacts \<Rightarrow> string \<Rightarrow> exn + string option" where
  "art_read_text d a name =
     (case file_at d (art_dir a @ [name]) of
        None \<Rightarrow> Inr None
      | Some b \<Rightarrow> bindR (decode_text b) (\<lambda>t. Inr (Some t)))"

definition art_read_json :: "json_lib \<Rightarrow> disk \<Rightarrow> artifacts \<Rightarrow> string \<Rightarrow> exn + json option" where
  "art_read_json js d a name =
     (case file_at d (art_dir a @ [name]) of
        None \<Rightarrow> Inr None
      | Some b \<Rightarrow> bindR (decode_text b) (\<lambda>t.
          case loads js t of None \<Rightarrow> Inl ValueError | Some v \<Rightarrow> Inr (Some v)))"

definition copy_spec :: "disk \<Rightarrow> artifacts \<Rightarrow> path \<Rightarrow> exn + disk" where
  "copy_spec d a src =
     bindR (ensure_dir d a) (\<lambda>d'.
       case file_at d' src of
         None \<Rightarrow> Inl OSError
       | Some b \<Rightarrow> write_bytes_nofollow d' (spec_path a) b)"

section \<open>Reading back what was appended\<close>

lemma high_byte: "(n :: nat) < 256 \<Longrightarrow> 128 \<le> n \<Longrightarrow> n div 64 = 2 \<or> n div 64 = 3"
  using less_mult_imp_div_less[of n 4 64] div_le_mono[of 128 n 64] by auto

lemma utf8_decode_char: "utf8_decode (utf8_char c @ bs) = map_option (\<lambda>t. c # t) (utf8_decode bs)"
proof -
  let ?n = "of_char c :: nat"
  have n: "?n < 256"
    by (rule nat_of_char_less_256)
  show ?thesis
  proof (cases "?n < 128")
    case True
    then show ?thesis
      by (simp add: utf8_char_def)
  next
    case False
    define h where "h = ?n div 64"
    define k where "k = ?n mod 64"
    have high: "h = 2 \<or> h = 3"
      using high_byte[of ?n] n False by (simp add: h_def)
    have low: "k < 64" and sum: "64 * h + k = ?n"
      by (simp_all add: h_def k_def)
    have b: "of_char (char_of (192 + h) :: char) = 192 + h" "194 \<le> 192 + h" "192 + h \<le> 195"
      "of_char (char_of (128 + k) :: char) = 128 + k"
      using high low by (auto simp: of_char_of take_bit_eq_mod)
    have "char_of (64 * (192 + h - 192) + (128 + k - 128)) = c"
      using sum by (metis add_diff_cancel_left' char_of_char)
    moreover have "utf8_char c = [char_of (192 + h), char_of (128 + k)]"
      using False by (simp add: utf8_char_def h_def k_def Let_def)
    ultimately show ?thesis
      using b low by (simp add: Let_def)
  qed
qed

lemma utf8_decode_append:
  "utf8_decode (utf8_encode s @ bs) = map_option (\<lambda>t. s @ t) (utf8_decode bs)"
proof (induction s)
  case (Cons c s)
  have "utf8_decode (utf8_encode (c # s) @ bs) = utf8_decode (utf8_char c @ utf8_encode s @ bs)"
    by (simp add: utf8_encode_def)
  then show ?case
    by (simp only: utf8_decode_char Cons.IH option.map_comp o_def append_Cons)
qed (simp add: utf8_encode_def option.map_ident)

lemma utf8_encode_Nil [simp]: "utf8_encode [] = []"
  by (simp add: utf8_encode_def)

lemma utf8_encode_append: "utf8_encode (s @ t) = utf8_encode s @ utf8_encode t"
  by (simp add: utf8_encode_def)

lemma utf8_decode_encode [simp]: "utf8_decode (utf8_encode s) = Some s"
  using utf8_decode_append[of s "[]"] by simp

lemma universal_newlines_plain: "CHR 0x0D \<notin> set t \<Longrightarrow> universal_newlines t = t"
  unfolding universal_newlines_def by (induction t) auto

lemma decode_text_plain: "CHR 0x0D \<notin> set t \<Longrightarrow> decode_text (utf8_encode t) = Inr t"
  by (simp add: decode_text_def universal_newlines_plain)

text \<open>The text of a log of complete lines; the events the standard library writes on one line and reads back.\<close>

definition log_text :: "jsonl_lib \<Rightarrow> json list \<Rightarrow> string" where
  "log_text jl evs = concat (map (\<lambda>l. l @ [CHR 0x0A]) (map (jl_dump jl) evs))"

definition line_ok :: "jsonl_lib \<Rightarrow> json \<Rightarrow> bool" where
  "line_ok jl e =
     (jl_load jl (jl_dump jl e) = Some e \<and> one_line (jl_dump jl e) \<and> strip (jl_dump jl e) \<noteq> [])"

lemma log_text_snoc: "log_text jl (evs @ [e]) = log_text jl evs @ jl_dump jl e @ [CHR 0x0A]"
  by (simp add: log_text_def)

lemma one_line_no_CR: "one_line l \<Longrightarrow> CHR 0x0D \<notin> set l"
  by (auto simp: one_line_def list_all_iff line_break_def)

lemma log_text_no_CR: "list_all (line_ok jl) evs \<Longrightarrow> CHR 0x0D \<notin> set (log_text jl evs)"
  by (auto simp: log_text_def list_all_iff line_ok_def dest: one_line_no_CR)

lemma splitlines_log:
  "list_all (line_ok jl) evs \<Longrightarrow> splitlines (log_text jl evs @ t) = map (jl_dump jl) evs @ splitlines t"
  unfolding log_text_def by (rule splitlines_lines_append) (simp add: list_all_iff line_ok_def)

lemma read_entries_log:
  "list_all (line_ok jl) evs \<Longrightarrow>
   read_entries jl (map (jl_dump jl) evs @ rest) = bindR (read_entries jl rest) (\<lambda>vs. Inr (evs @ vs))"
proof (induction evs)
  case Nil
  then show ?case by (cases "read_entries jl rest") simp_all
next
  case (Cons e evs)
  then show ?case
    by (cases "read_entries jl rest") (simp_all add: line_ok_def)
qed

lemma read_log_text:
  assumes "list_all (line_ok jl) evs" "CHR 0x0D \<notin> set t"
  shows "bindR (decode_text (utf8_encode (log_text jl evs @ t))) (\<lambda>t. read_entries jl (splitlines t)) =
         bindR (read_entries jl (splitlines t)) (\<lambda>vs. Inr (evs @ vs))"
proof -
  have "CHR 0x0D \<notin> set (log_text jl evs @ t)"
    using assms log_text_no_CR by auto
  from decode_text_plain[OF this] show ?thesis
    using assms(1) by (simp add: splitlines_log read_entries_log)
qed

section \<open>Path resolution\<close>

lemma walk_append:
  "walk n d cur (p @ q) = bindR (walk n d cur p) (\<lambda>(m, r). walk m d r q)"
  by (induction n d cur p rule: walk.induct) (auto split: option.split fnode.split nat.split)

lemma walk_snoc:
  "walk n d cur (p @ [c]) = Inr (m, q) \<Longrightarrow>
   \<exists>k r. walk n d cur p = Inr (k, r) \<and> is_directory d r \<and> walk k d r [c] = Inr (m, q)"
  by (auto simp: walk_append bindR_Inr_iff split: if_splits)

text \<open>A path that resolves to a directory resolves the same after a file or nothing is overwritten.\<close>

lemma walk_upd:
  assumes "walk n d cur p = Inr (m, q)" "is_directory d q" "\<not> is_directory d f" "\<And>l. d f \<noteq> Some (Link l)"
  shows "walk n (d(f := Some v)) cur p = Inr (m, q)"
  using assms
proof (induction n d cur p rule: walk.induct)
  case (2 n d cur c cs)
  have cur: "is_directory d cur"
    using "2.prems" by (auto split: if_splits)
  then have cur': "is_directory (d(f := Some v)) cur"
    using "2.prems" by (auto simp: is_directory_def)
  show ?case
  proof (cases "c = ''..''")
    case True
    then show ?thesis
      using 2 cur cur' by (simp del: fun_upd_apply)
  next
    case False
    then obtain x where x: "d (cur @ [c]) = Some x"
      using "2.prems" cur by (auto split: option.splits)
    have ne: "cur @ [c] \<noteq> f"
    proof
      assume f: "cur @ [c] = f"
      then obtain b where "x = Reg b"
        using x "2.prems"(3,4) by (cases x) (auto simp: is_directory_def)
      then have "walk n d f cs = Inr (m, q)"
        using "2.prems"(1) cur False x f by simp
      then show False
        using "2.prems"(2,3) by (cases cs) auto
    qed
    show ?thesis
    proof (cases x)
      case (Link t)
      then obtain k where n: "n = Suc k"
        using "2.prems"(1) cur False x by (cases n) auto
      then have "walk k d [] (t @ cs) = Inr (m, q)"
        using "2.prems"(1) cur False x Link by simp
      then have "walk k (d(f := Some v)) [] (t @ cs) = Inr (m, q)"
        using "2.IH"(3)[OF _ False x Link n] cur "2.prems"(2-4) by blast
      then show ?thesis
        using cur' False x Link n ne by (simp del: fun_upd_apply add: fun_upd_other)
    qed (use "2.IH" "2.prems" cur cur' False x ne in \<open>auto simp del: fun_upd_apply simp: fun_upd_other\<close>)
  qed
qed simp

lemma is_directory_upd: "\<not> is_directory d f \<Longrightarrow> is_directory d q \<Longrightarrow> is_directory (d(f := Some v)) q"
  by (auto simp: is_directory_def)

lemma mkdir_existing:
  assumes "resolve d p = Inr (m, q)" "is_directory d q"
  shows "os_mkdir d p = Inl EEXIST" "is_dir_at d p" "mkdirs d p = Inr d"
proof -
  show dir: "is_dir_at d p"
    using assms by (simp add: is_dir_at_def)
  show mk: "os_mkdir d p = Inl EEXIST"
  proof (cases "p = [] \<or> last p = ''..''")
    case False
    then obtain k r where r: "resolve d (butlast p) = Inr (k, r)" "is_directory d r" "walk k d r [last p] = Inr (m, q)"
      using walk_snoc[of max_links d "[]" "butlast p" "last p" m q] assms(1) by (auto simp: resolve_def)
    then have "d (r @ [last p]) \<noteq> None"
      using False by (auto split: if_splits option.splits)
    then show ?thesis
      using False r by (simp add: os_mkdir_def entry_of_def)
  qed (auto simp: os_mkdir_def)
  show "mkdirs d p = Inr d"
    using mk dir by (simp add: mkdirs.simps mkdir_exist_ok_def missing_parent_def)
qed

text \<open>
  \<open>log_holds jl d p evs t\<close>: the file at \<open>p\<close> holds the lines of \<open>evs\<close> and then the bytes \<open>t\<close> (a missing
  file holds no line), and no component of its directory is missing.
\<close>

definition log_holds :: "jsonl_lib \<Rightarrow> disk \<Rightarrow> path \<Rightarrow> json list \<Rightarrow> string \<Rightarrow> bool" where
  "log_holds jl d p evs t =
     (p \<noteq> [] \<and> last p \<noteq> ''..'' \<and>
      (\<exists>m q. resolve d (butlast p) = Inr (m, q) \<and> is_directory d q \<and>
         (d (q @ [last p]) = Some (Reg (utf8_encode (log_text jl evs) @ t))
          \<or> evs = [] \<and> t = [] \<and> d (q @ [last p]) = None)))"

lemma file_at_entry:
  assumes "p \<noteq> []" "last p \<noteq> ''..''" "resolve d (butlast p) = Inr (m, q)" "is_directory d q"
  shows "d (q @ [last p]) = Some (Reg b) \<Longrightarrow> file_at d p = Some b"
    and "d (q @ [last p]) = None \<Longrightarrow> file_at d p = None"
proof -
  have "resolve d p = walk m d q [last p]"
    using walk_append[of max_links d "[]" "butlast p" "[last p]"] assms(1,3) by (simp add: resolve_def)
  then show "d (q @ [last p]) = Some (Reg b) \<Longrightarrow> file_at d p = Some b"
    "d (q @ [last p]) = None \<Longrightarrow> file_at d p = None"
    using assms(2,4) by (simp_all add: file_at_def)
qed

lemma read_log_holds:
  assumes "log_holds jl d p evs (utf8_encode t)" "list_all (line_ok jl) evs" "CHR 0x0D \<notin> set t"
  shows "read_jsonl jl d p = bindR (read_entries jl (splitlines t)) (\<lambda>vs. Inr (evs @ vs))"
proof -
  obtain m q where q: "p \<noteq> []" "last p \<noteq> ''..''" "resolve d (butlast p) = Inr (m, q)" "is_directory d q"
    and f: "d (q @ [last p]) = Some (Reg (utf8_encode (log_text jl evs @ t)))
            \<or> evs = [] \<and> utf8_encode t = [] \<and> d (q @ [last p]) = None"
    using assms(1) by (auto simp: log_holds_def utf8_encode_append)
  show ?thesis
  proof (cases "d (q @ [last p]) = None")
    case True
    then have "evs = []" "utf8_decode (utf8_encode t) = Some []"
      using f by auto
    then show ?thesis
      using file_at_entry(2)[OF q True] by (simp add: read_jsonl_def splitlines_def)
  next
    case False
    then have "file_at d p = Some (utf8_encode (log_text jl evs @ t))"
      using f file_at_entry(1)[OF q, of "utf8_encode (log_text jl evs @ t)"] by auto
    then show ?thesis
      using read_log_text[OF assms(2,3)] by (simp add: read_jsonl_def)
  qed
qed

text \<open>An append adds its line after whatever the file held, complete or not.\<close>

lemma append_holds:
  assumes "log_holds jl d p evs (utf8_encode t)"
  shows "\<exists>d'. append_jsonl jl d p e = Inr d' \<and>
           log_holds jl d' p evs (utf8_encode (t @ jl_dump jl e @ [CHR 0x0A]))"
proof -
  obtain m q where q: "p \<noteq> []" "last p \<noteq> ''..''" "resolve d (butlast p) = Inr (m, q)" "is_directory d q"
    and f: "d (q @ [last p]) = Some (Reg (utf8_encode (log_text jl evs) @ utf8_encode t))
            \<or> evs = [] \<and> utf8_encode t = [] \<and> d (q @ [last p]) = None"
    using assms by (auto simp: log_holds_def)
  let ?f = "q @ [last p]"
  let ?new = "utf8_encode (log_text jl evs) @ utf8_encode (t @ jl_dump jl e @ [CHR 0x0A])"
  let ?d = "d(?f := Some (Reg ?new))"
  have not_dir: "\<not> is_directory d ?f" "\<And>l. d ?f \<noteq> Some (Link l)"
    using f by (auto simp: is_directory_def)
  have "entry_of d p = Inr ?f"
    using q by (simp add: entry_of_def)
  then have "opened d p = Inr ?f"
    using q f by (auto simp: opened_def open_nofollow_def)
  moreover have "mkdirs d (butlast p) = Inr d"
    using mkdir_existing(3)[OF q(3,4)] .
  ultimately have app: "append_jsonl jl d p e = Inr ?d"
    using f by (auto simp: append_jsonl_def os_error_def Let_def utf8_encode_append log_text_def)
  have "resolve ?d (butlast p) = Inr (m, q)"
    using walk_upd[of max_links d "[]" "butlast p" m q ?f] q(3,4) not_dir unfolding resolve_def by blast
  moreover have "is_directory ?d q"
    using is_directory_upd[OF not_dir(1) q(4)] .
  ultimately have "log_holds jl ?d p evs (utf8_encode (t @ jl_dump jl e @ [CHR 0x0A]))"
    using q unfolding log_holds_def by simp
  then show ?thesis
    using app by blast
qed

lemma log_holds_snoc:
  "log_holds jl d p evs (utf8_encode (jl_dump jl e @ [CHR 0x0A])) \<Longrightarrow> log_holds jl d p (evs @ [e]) []"
  unfolding log_holds_def log_text_snoc utf8_encode_append
  by (auto simp: utf8_encode_def[of "[CHR 0x0A]"] utf8_char_def)

text \<open>
  A log that holds complete lines is extended by exactly the event appended: the append succeeds, the
  file again holds complete lines, and reading it back gives the events read before and the new one last,
  for every event that the standard library writes on one line and reads back.
\<close>

theorem append_then_read:
  assumes "log_holds jl d p evs []" "list_all (line_ok jl) evs" "line_ok jl e"
  shows "\<exists>d'. append_jsonl jl d p e = Inr d' \<and> log_holds jl d' p (evs @ [e]) []
            \<and> read_jsonl jl d p = Inr evs \<and> read_jsonl jl d' p = Inr (evs @ [e])"
proof -
  obtain d' where d': "append_jsonl jl d p e = Inr d'"
    "log_holds jl d' p evs (utf8_encode (jl_dump jl e @ [CHR 0x0A]))"
    using append_holds[of jl d p evs "[]" e] assms(1) by auto
  then have snoc: "log_holds jl d' p (evs @ [e]) []"
    using log_holds_snoc by blast
  have "read_jsonl jl d p = Inr evs" "read_jsonl jl d' p = Inr (evs @ [e])"
    using read_log_holds[of jl d p evs "[]"] read_log_holds[of jl d' p "evs @ [e]" "[]"] assms snoc
    by (simp_all add: splitlines_def)
  then show ?thesis
    using d' snoc by blast
qed

section \<open>A torn append\<close>

lemma splitlines_one: "one_line t \<Longrightarrow> t \<noteq> [] \<Longrightarrow> splitlines t = [t]"
proof -
  have "one_line t \<Longrightarrow> splitlines_from False acc t = (if acc = [] \<and> t = [] then [] else [rev acc @ t])" for acc
    by (induction t arbitrary: acc) (auto simp: one_line_def)
  then show "one_line t \<Longrightarrow> t \<noteq> [] \<Longrightarrow> splitlines t = [t]"
    by (simp add: splitlines_def)
qed

lemma splitlines_line: "one_line l \<Longrightarrow> splitlines (l @ CHR 0x0A # rest) = l # splitlines rest"
  using splitlines_from_line[of l False "[]" rest] by (simp add: splitlines_def)

text \<open>
  An append that a crash cuts short is tolerated as the last line, and costs the next event: the log
  still reads as the events before it; the next append succeeds but is glued to the torn text, and the log
  reads as if it had not happened; after one more append the glued line is an interior one and every read
  raises \<open>LogCorruptionError\<close>. (The torn text is a part of a line, of ASCII or of whole characters, that
  does not parse, alone or glued.)
\<close>

theorem torn_append_costs_next_event:
  assumes "log_holds jl d p evs (utf8_encode t)" "list_all (line_ok jl) evs" "line_ok jl e" "line_ok jl e'"
    and torn: "one_line t" "strip t \<noteq> []" "jl_load jl t = None"
      "jl_load jl (t @ jl_dump jl e) = None" "strip (t @ jl_dump jl e) \<noteq> []"
  shows "read_jsonl jl d p = Inr evs \<and>
         (\<exists>d' d''. append_jsonl jl d p e = Inr d' \<and> read_jsonl jl d' p = Inr evs
            \<and> append_jsonl jl d' p e' = Inr d'' \<and> read_jsonl jl d'' p = Inl LogCorruptionError)"
proof -
  let ?l = "t @ jl_dump jl e"
  have lines: "one_line ?l" "one_line (jl_dump jl e')"
    using assms by (auto simp: one_line_def line_ok_def)
  obtain d' where d': "append_jsonl jl d p e = Inr d'"
    "log_holds jl d' p evs (utf8_encode (t @ jl_dump jl e @ [CHR 0x0A]))"
    using append_holds[OF assms(1)] by blast
  obtain d'' where d'': "append_jsonl jl d' p e' = Inr d''"
    "log_holds jl d'' p evs (utf8_encode ((t @ jl_dump jl e @ [CHR 0x0A]) @ jl_dump jl e' @ [CHR 0x0A]))"
    using append_holds[OF d'(2)] by blast
  have cr: "CHR 0x0D \<notin> set ?l" "CHR 0x0D \<notin> set (jl_dump jl e')"
    using lines one_line_no_CR by blast+
  have "read_jsonl jl d p = Inr evs"
    using read_log_holds[OF assms(1,2)] cr torn splitlines_one[OF torn(1)] by (cases "t = []") auto
  moreover have "splitlines (t @ jl_dump jl e @ [CHR 0x0A]) = [?l]"
    using splitlines_line[OF lines(1), of "[]"] by (simp add: splitlines_def)
  then have "read_jsonl jl d' p = Inr evs"
    using read_log_holds[OF d'(2) assms(2)] cr torn by auto
  moreover have "splitlines ((t @ jl_dump jl e @ [CHR 0x0A]) @ jl_dump jl e' @ [CHR 0x0A]) = [?l, jl_dump jl e']"
    using splitlines_line[OF lines(1), of "jl_dump jl e' @ [CHR 0x0A]"] splitlines_line[OF lines(2), of "[]"]
    by (simp add: splitlines_def)
  then have "read_jsonl jl d'' p = Inl LogCorruptionError"
    using read_log_holds[OF d''(2) assms(2)] cr torn by auto
  ultimately show ?thesis
    using d' d'' by blast
qed

lemma utf8_decode_cut:
  assumes "128 \<le> (of_char b :: nat)" "rest = [] \<or> (of_char (hd rest) :: nat) < 128"
  shows "utf8_decode (utf8_encode t @ b # rest) = None"
  using assms by (cases rest) (auto simp: utf8_decode_append Let_def)

text \<open>
  An append cut short inside a character is not tolerated: when the file ends with the first byte of a
  two-byte character, reading the log raises \<open>UnicodeDecodeError\<close> instead of skipping the torn line, and
  it still does after the next append, which succeeds.
\<close>

theorem torn_character_blocks_reads:
  assumes "log_holds jl d p evs (utf8_encode t @ [b])" "128 \<le> (of_char b :: nat)"
    and "jl_dump jl e \<noteq> []" "(of_char (hd (jl_dump jl e)) :: nat) < 128"
  shows "read_jsonl jl d p = Inl UnicodeDecodeError \<and>
         (\<exists>d'. append_jsonl jl d p e = Inr d' \<and> read_jsonl jl d' p = Inl UnicodeDecodeError)"
proof -
  obtain m q where q: "p \<noteq> []" "last p \<noteq> ''..''" "resolve d (butlast p) = Inr (m, q)" "is_directory d q"
    and f: "d (q @ [last p]) = Some (Reg (utf8_encode (log_text jl evs @ t) @ [b]))"
    using assms(1) by (auto simp: log_holds_def utf8_encode_append)
  let ?f = "q @ [last p]"
  let ?line = "utf8_encode (jl_dump jl e @ [CHR 0x0A])"
  let ?d = "d(?f := Some (Reg (utf8_encode (log_text jl evs @ t) @ b # ?line)))"
  have not_dir: "\<not> is_directory d ?f" "\<And>l. d ?f \<noteq> Some (Link l)"
    using f by (auto simp: is_directory_def)
  have "opened d p = Inr ?f"
    using q f by (simp add: opened_def open_nofollow_def entry_of_def)
  then have "append_jsonl jl d p e = Inr ?d"
    using f mkdir_existing(3)[OF q(3,4)] by (simp add: append_jsonl_def os_error_def)
  moreover have "resolve ?d (butlast p) = Inr (m, q)" "is_directory ?d q"
    using walk_upd[of max_links d "[]" "butlast p" m q ?f] is_directory_upd[OF not_dir(1) q(4)] q(3,4) not_dir
    unfolding resolve_def by blast+
  then have "file_at ?d p = Some (utf8_encode (log_text jl evs @ t) @ b # ?line)"
    using file_at_entry(1)[OF q(1,2), of ?d m q "utf8_encode (log_text jl evs @ t) @ b # ?line"] by simp
  moreover have "?line \<noteq> [] \<and> (of_char (hd ?line) :: nat) < 128"
    using assms(3,4) by (cases "jl_dump jl e") (simp_all add: utf8_encode_def utf8_char_def)
  then have "utf8_decode (utf8_encode (log_text jl evs @ t) @ b # ?line) = None"
    using utf8_decode_cut[OF assms(2)] by blast
  moreover have "utf8_decode (utf8_encode (log_text jl evs @ t) @ [b]) = None"
    using utf8_decode_cut[OF assms(2), of "[]"] by blast
  ultimately show ?thesis
    using file_at_entry(1)[OF q f] by (simp add: read_jsonl_def decode_text_def)
qed

text \<open>
  An event whose text holds a character that \<open>splitlines\<close> takes for a line boundary and the printer
  leaves alone (U+0085) makes the log unreadable, although its append was complete.
\<close>

lemma line_break_in_event_corrupts:
  assumes "log_holds jl d p evs []" "list_all (line_ok jl) evs"
    and e: "jl_dump jl e = x @ CHR 0x85 # y" "one_line x" "one_line y" "strip x \<noteq> []" "jl_load jl x = None" "y \<noteq> []"
  shows "\<exists>d'. append_jsonl jl d p e = Inr d' \<and> read_jsonl jl d' p = Inl LogCorruptionError"
proof -
  obtain d' where d': "append_jsonl jl d p e = Inr d'"
    "log_holds jl d' p evs (utf8_encode (jl_dump jl e @ [CHR 0x0A]))"
    using append_holds[of jl d p evs "[]" e] assms(1) by auto
  have break: "splitlines_from False acc (x @ CHR 0x85 # z) = (rev acc @ x) # splitlines z" if "one_line x" for acc x z
    using that by (induction x arbitrary: acc) (auto simp: one_line_def splitlines_def line_break_def)
  have "splitlines (jl_dump jl e @ [CHR 0x0A]) = [x, y]"
    using break[OF e(2), of "[]"] splitlines_line[OF e(3), of "[]"] e(1) by (simp add: splitlines_def)
  moreover have "CHR 0x0D \<notin> set (jl_dump jl e @ [CHR 0x0A])"
    using e(1) one_line_no_CR[OF e(2)] one_line_no_CR[OF e(3)] by auto
  ultimately have "read_jsonl jl d' p = Inl LogCorruptionError"
    using read_log_holds[OF d'(2) assms(2)] e(4,5) by auto
  then show ?thesis
    using d'(1) by blast
qed

section \<open>Writes stay in the directory of the task\<close>

definition wf_disk :: "disk \<Rightarrow> bool" where
  "wf_disk d = (\<forall>p c. d (p @ [c]) \<noteq> None \<longrightarrow> is_directory d p)"

lemma refuse_links_entry:
  "refuse_links d cur (a @ c # b) = Inr () \<Longrightarrow> \<not> is_symlink d (cur @ a @ [c])"
proof (induction a arbitrary: cur)
  case (Cons x a)
  then show ?case
    using Cons.IH[of "cur @ [x]"] by (simp split: if_splits)
qed (simp split: if_splits)

text \<open>Below a real directory, a path without links and parent components resolves to itself.\<close>

lemma resolve_straight:
  assumes "resolve d root = Inr (m, r)" "refuse_links d root parts = Inr ()" "''..'' \<notin> set parts"
    and "parts = a @ b" "resolve d (root @ a) = Inr (k, q)"
  shows "k = m \<and> q = r @ a"
  using assms(4,5)
proof (induction a arbitrary: b k q rule: rev_induct)
  case Nil
  then show ?case
    using assms(1) by simp
next
  case (snoc c a)
  have "walk max_links d [] ((root @ a) @ [c]) = Inr (k, q)"
    using snoc.prems(2) by (simp add: resolve_def)
  then obtain k' r' where r': "walk max_links d [] (root @ a) = Inr (k', r')" "is_directory d r'"
    "walk k' d r' [c] = Inr (k, q)"
    using walk_snoc by blast
  have eq: "k' = m \<and> r' = r @ a"
    using snoc.IH[of "c # b" k' r'] snoc.prems(1) r'(1) by (simp add: resolve_def)
  have dots: "c \<noteq> ''..''"
    using snoc.prems(1) assms(3) by auto
  have "\<not> is_symlink d (root @ a @ [c])"
    using refuse_links_entry[of d root a c b] assms(2) snoc.prems(1) by simp
  moreover have "entry_of d (root @ a @ [c]) = Inr (r' @ [c])"
    using r' by (simp add: entry_of_def resolve_def butlast_append)
  ultimately have "\<And>l. d (r' @ [c]) \<noteq> Some (Link l)"
    using dots by (auto simp: is_symlink_def)
  then show ?case
    using r'(2,3) eq dots by (auto split: option.splits fnode.splits)
qed

text \<open>The directories below \<open>r\<close> that \<open>mkdirs\<close> may create.\<close>

definition made_dirs :: "disk \<Rightarrow> disk \<Rightarrow> path \<Rightarrow> path \<Rightarrow> bool" where
  "made_dirs d d' r parts =
     (\<forall>p. d' p \<noteq> d p \<longrightarrow> d p = None \<and> d' p = Some Dir \<and> (\<exists>a. a \<noteq> [] \<and> prefix a parts \<and> p = r @ a))"

lemma made_dirs_refl [simp]: "made_dirs d d r parts"
  by (simp add: made_dirs_def)

lemma made_dirs_step:
  assumes "made_dirs d d1 r a" "d1 (r @ a @ [c]) = None"
  shows "made_dirs d (d1(r @ a @ [c] := Some Dir)) r (a @ [c])"
proof -
  have "d (r @ a @ [c]) = None"
    using assms unfolding made_dirs_def by metis
  then show ?thesis
    using assms(1) unfolding made_dirs_def by (auto intro: prefix_order.trans)
qed

lemma made_dirs_mono: "made_dirs d d' r a \<Longrightarrow> made_dirs d d' r (a @ b)"
  unfolding made_dirs_def by (metis prefix_prefix)

lemma resolve_after_mkdir:
  assumes "resolve d1 p = Inr (m, q)" "is_directory d1 q" "d1 (q @ [c]) = None" "c \<noteq> ''..''"
  shows "resolve (d1(q @ [c] := Some Dir)) (p @ [c]) = Inr (m, q @ [c])"
proof -
  let ?d = "d1(q @ [c] := Some Dir)"
  have nd: "\<not> is_directory d1 (q @ [c])"
    using assms(3) by (simp add: is_directory_def)
  have "walk max_links ?d [] p = Inr (m, q)"
    using walk_upd[of max_links d1 "[]" p m q "q @ [c]" Dir] assms(1-3) nd by (simp add: resolve_def)
  moreover have "is_directory ?d q"
    using is_directory_upd[OF nd assms(2)] .
  ultimately show ?thesis
    using assms(4) by (simp add: resolve_def walk_append del: fun_upd_apply add: fun_upd_same)
qed

lemma resolve_real:
  assumes "wf_disk d" "resolve d root = Inr (m, r)"
  shows "is_directory d (r @ a) \<Longrightarrow> ''..'' \<notin> set a \<Longrightarrow> resolve d (root @ a) = Inr (m, r @ a)"
proof (induction a rule: rev_induct)
  case Nil
  then show ?case
    using assms(2) by simp
next
  case (snoc c a)
  have c: "d ((r @ a) @ [c]) = Some Dir"
    using snoc.prems(1) by (simp add: is_directory_def)
  then have dir: "is_directory d (r @ a)"
    using assms(1) unfolding wf_disk_def by blast
  then have "walk max_links d [] (root @ a) = Inr (m, r @ a)"
    using snoc by (simp add: resolve_def)
  then show ?case
    using c dir snoc.prems(2) walk_append[of max_links d "[]" "root @ a" "[c]"] by (auto simp: resolve_def)
qed

lemma mkdir_step:
  assumes "made_dirs d d1 r a" "resolve d1 (root @ a) = Inr (m, r @ a)" "is_directory d1 (r @ a)"
    and "\<And>l. d (r @ a @ [c]) \<noteq> Some (Link l)" "c \<noteq> ''..''" "mkdir_exist_ok d1 (root @ a @ [c]) = Inr d'"
  shows "made_dirs d d' r (a @ [c]) \<and> resolve d' (root @ a @ [c]) = Inr (m, r @ a @ [c])
         \<and> is_directory d' (r @ a @ [c])"
proof (cases "d1 (r @ a @ [c]) = None")
  case True
  have "os_mkdir d1 (root @ a @ [c]) = Inr (d1(r @ a @ [c] := Some Dir))"
    using assms(2,3,5) True by (simp add: os_mkdir_def entry_of_def butlast_append)
  then have "d' = d1(r @ a @ [c] := Some Dir)"
    using assms(6) by (simp add: mkdir_exist_ok_def)
  then show ?thesis
    using made_dirs_step[OF assms(1) True] resolve_after_mkdir[OF assms(2,3) _ assms(5)] True
    by (simp add: is_directory_def)
next
  case False
  then have "os_mkdir d1 (root @ a @ [c]) = Inl EEXIST"
    using assms(2,3,5) by (simp add: os_mkdir_def entry_of_def butlast_append)
  then have d': "d' = d1" "is_dir_at d1 (root @ a @ [c])"
    using assms(6) by (simp_all add: mkdir_exist_ok_def split: if_splits)
  have "\<And>l. d1 (r @ a @ [c]) \<noteq> Some (Link l)"
    using assms(1,4) unfolding made_dirs_def by (metis fnode.distinct(5) option.inject)
  then have "walk m d1 (r @ a) [c] = Inr (m, r @ a @ [c])"
    using False assms(3,5) by (auto split: option.split fnode.split)
  then have "resolve d1 (root @ a @ [c]) = Inr (m, r @ a @ [c])"
    using walk_append[of max_links d1 "[]" "root @ a" "[c]"] assms(2) by (simp add: resolve_def)
  then show ?thesis
    using d' made_dirs_mono[OF assms(1)] by (simp add: is_dir_at_def)
qed

lemma mkdirs_straight:
  assumes "wf_disk d" "resolve d root = Inr (m, r)" "is_directory d r" "''..'' \<notin> set parts"
    and "refuse_links d root parts = Inr ()"
  shows "parts = a @ b \<Longrightarrow> mkdirs d (root @ a) = Inr d' \<Longrightarrow>
           made_dirs d d' r a \<and> resolve d' (root @ a) = Inr (m, r @ a) \<and> is_directory d' (r @ a)"
proof (induction a arbitrary: b d' rule: rev_induct)
  case Nil
  then show ?case
    using mkdir_existing(3)[OF assms(2,3)] assms(2,3) by simp
next
  case (snoc c a)
  let ?p = "root @ a @ [c]"
  have dots: "c \<noteq> ''..''" "''..'' \<notin> set a" and plain: "\<not> is_symlink d ?p"
    using snoc.prems(1) assms(4,5) refuse_links_entry[of d root a c b] by auto
  have no_link: "d (r @ a @ [c]) \<noteq> Some (Link l)" for l
  proof
    assume l: "d (r @ a @ [c]) = Some (Link l)"
    then have "d ((r @ a) @ [c]) \<noteq> None"
      by simp
    then have dir: "is_directory d (r @ a)"
      using assms(1) unfolding wf_disk_def by blast
    from resolve_real[OF assms(1,2) dir dots(2)] show False
      using l dir plain dots(1) by (simp add: is_symlink_def entry_of_def butlast_append)
  qed
  show ?case
  proof (cases "missing_parent (os_mkdir d ?p)")
    case True
    then obtain d1 where d1: "mkdirs d (root @ a) = Inr d1" "mkdir_exist_ok d1 ?p = Inr d'"
      using snoc.prems(2) by (subst (asm) mkdirs.simps) (auto simp: butlast_append bindR_Inr_iff)
    show ?thesis
      using mkdir_step[of d d1 r a root m c d', OF _ _ _ no_link dots(1) d1(2)] snoc.IH[OF _ d1(1), of "c # b"] snoc.prems(1) by simp
  next
    case False
    then have mk: "mkdir_exist_ok d ?p = Inr d'"
      using snoc.prems(2) by (subst (asm) mkdirs.simps) simp
    then have "(\<exists>f. entry_of d ?p = Inr f) \<or> is_dir_at d ?p"
      using dots(1) by (auto simp: mkdir_exist_ok_def os_mkdir_def bindR_Inr_iff split: sum.splits if_splits)
    then obtain k q where q: "resolve d (root @ a) = Inr (k, q)" "is_directory d q"
      using walk_snoc[of max_links d "[]" "root @ a" c]
      by (auto simp: entry_of_def is_dir_at_def butlast_append resolve_def bindR_Inr_iff split: sum.splits if_splits)
    then have "k = m \<and> q = r @ a"
      using resolve_straight[OF assms(2,5,4), of a "c # b"] snoc.prems(1) by simp
    then show ?thesis
      using mkdir_step[of d d r a root m c d', OF made_dirs_refl _ _ no_link dots(1) mk] q by simp
  qed
qed

text \<open>
  The change a write may make: directories of the task's path below the real root, and the file itself,
  which is not reached through a link.
\<close>

definition confined :: "disk \<Rightarrow> disk \<Rightarrow> path \<Rightarrow> path \<Rightarrow> string \<Rightarrow> bool" where
  "confined d d' r parts name =
     (\<forall>p. d' p \<noteq> d p \<longrightarrow>
        (d p = None \<and> d' p = Some Dir \<and> (\<exists>a. a \<noteq> [] \<and> prefix a parts \<and> p = r @ a))
        \<or> (p = r @ parts @ [name] \<and> (\<forall>l. d p \<noteq> Some (Link l)) \<and> (\<exists>b. d' p = Some (Reg b))))"

lemma ensure_dir_straight:
  assumes "wf_disk d" "resolve d (ar_root a) = Inr (m, r)" "is_directory d r" "''..'' \<notin> set (task_parts (ar_task a))"
    and "ensure_dir d a = Inr d'"
  shows "art_dir a = ar_root a @ rel_parts a \<and> made_dirs d d' r (rel_parts a)
         \<and> resolve d' (art_dir a) = Inr (m, r @ rel_parts a) \<and> is_directory d' (r @ rel_parts a)"
proof -
  have rel: "\<not> prefix ''/'' (ar_task a)" and refuse: "refuse_links d (ar_root a) (rel_parts a) = Inr ()"
    and mk: "mkdirs d (art_dir a) = Inr d'"
    using assms(5) by (auto simp: ensure_dir_def bindR_Inr_iff os_error_def split: if_splits sum.splits)
  have dir: "art_dir a = ar_root a @ rel_parts a"
    using rel by (simp add: art_dir_def)
  have "''..'' \<notin> set (rel_parts a)"
    using assms(4) by (simp add: rel_parts_def)
  from mkdirs_straight[OF assms(1,2,3) this refuse, of "rel_parts a" "[]" d'] show ?thesis
    using mk dir by simp
qed

lemma opened_straight:
  assumes "resolve d1 dir = Inr (m, q)" "is_directory d1 q" "opened d1 (dir @ [name]) = Inr f"
  shows "f = q @ [name] \<and> (\<forall>l. d1 f \<noteq> Some (Link l))"
  using assms by (auto simp: opened_def open_nofollow_def entry_of_def split: sum.splits if_splits option.splits fnode.splits)

lemma confined_write:
  assumes "made_dirs d d1 r parts" "\<forall>l. d1 (r @ parts @ [name]) \<noteq> Some (Link l)"
  shows "confined d (d1(r @ parts @ [name] := Some (Reg b))) r parts name"
proof -
  have "d (r @ parts @ [name]) \<noteq> Some (Link l)" for l
    using assms unfolding made_dirs_def by (metis option.distinct(1))
  then show ?thesis
    using assms(1) unfolding confined_def made_dirs_def by auto
qed

lemma confined_open:
  assumes "made_dirs d e r parts \<and> resolve e dir = Inr (m, r @ parts) \<and> is_directory e (r @ parts)"
    and "opened e (dir @ [name]) = Inr f"
  shows "confined d (e(f := Some (Reg b))) r parts name"
proof -
  have "f = (r @ parts) @ [name] \<and> (\<forall>l. e f \<noteq> Some (Link l))"
    using assms opened_straight by blast
  then show ?thesis
    using confined_write[of d e r parts name] assms(1) by auto
qed

text \<open>
  C28: Nothing a task's branch ships can redirect a write of its artifacts: below a worktree root that is a
  real directory, a text, a log entry or the copy of the spec that is written without raising changes
  nothing on the disk but the missing directories of the task's own path and the one file it names there,
  and that file was not a link.
\<close>

theorem writes_stay_in_task_dir:
  assumes "wf_disk d" "resolve d (ar_root a) = Inr (m, r)" "is_directory d r" "''..'' \<notin> set (task_parts (ar_task a))"
  shows "(art_write_text d a name t = Inr d1 \<longrightarrow> confined d d1 r (rel_parts a) name)
       \<and> (art_append_log jl now d a flds = Inr d2 \<longrightarrow> confined d d2 r (rel_parts a) ''iteration-log.jsonl'')
       \<and> (copy_spec d a src = Inr d3 \<longrightarrow> confined d d3 r (rel_parts a) ''spec.md'')"
proof (intro conjI impI)
  note ensured = ensure_dir_straight[OF assms]
  show "confined d d1 r (rel_parts a) name" if w: "art_write_text d a name t = Inr d1"
  proof -
    obtain e f where e: "ensure_dir d a = Inr e" "opened e (art_dir a @ [name]) = Inr f"
      "d1 = e(f := Some (Reg (utf8_encode t)))"
      using w by (auto simp: art_write_text_def write_text_nofollow_def bindR_Inr_iff)
    then show ?thesis
      using confined_open[OF conjunct2[OF ensured[OF e(1)]] e(2)] by simp
  qed
  show "confined d d2 r (rel_parts a) ''iteration-log.jsonl''" if w: "art_append_log jl now d a flds = Inr d2"
  proof -
    let ?n = "''iteration-log.jsonl''"
    obtain e where e: "ensure_dir d a = Inr e" "append_jsonl jl e (log_path a) (JObj ((''ts'', now) # flds)) = Inr d2"
      using w by (auto simp: art_append_log_def bindR_Inr_iff)
    note real = ensured[OF e(1)]
    have "mkdirs e (butlast (log_path a)) = Inr e"
      using mkdir_existing(3)[of e "art_dir a" m "r @ rel_parts a"] real by (auto simp: log_path_def butlast_append)
    then obtain f b where f: "opened e (art_dir a @ [?n]) = Inr f" "d2 = e(f := Some (Reg b))"
      using e(2) by (auto simp: append_jsonl_def os_error_def log_path_def bindR_Inr_iff)
    then show ?thesis
      using confined_open[OF conjunct2[OF real] f(1)] by simp
  qed
  show "confined d d3 r (rel_parts a) ''spec.md''" if w: "copy_spec d a src = Inr d3"
  proof -
    obtain e f b where e: "ensure_dir d a = Inr e" "opened e (art_dir a @ [''spec.md'']) = Inr f"
      "d3 = e(f := Some (Reg b))"
      using w by (auto simp: copy_spec_def write_bytes_nofollow_def spec_path_def bindR_Inr_iff split: option.splits)
    then show ?thesis
      using confined_open[OF conjunct2[OF ensured[OF e(1)]] e(2)] by simp
  qed
qed

section \<open>Witnesses\<close>

text \<open>A worktree with the log of one event, written by a printer and a reader of the events at hand.\<close>

definition demo_disk :: "string \<Rightarrow> disk" where
  "demo_disk content = [[''w''] \<mapsto> Dir, [''w'', ''log''] \<mapsto> Reg content]"

definition demo_jsonl :: jsonl_lib where
  "demo_jsonl = \<lparr>jl_dump = (\<lambda>v. if v = JInt 1 then ''[1]'' else if v = JInt 2 then ''[2]'' else ''[3]''),
     jl_load = (\<lambda>s. if s = ''[1]'' then Some (JInt 1) else if s = ''[2]'' then Some (JInt 2)
                else if s = ''[3]'' then Some (JInt 3) else None)\<rparr>"

lemma demo_lines:
  "line_ok demo_jsonl (JInt 1)" "line_ok demo_jsonl (JInt 2)" "line_ok demo_jsonl (JInt 3)"
  by code_simp+

lemma demo_holds:
  "log_holds demo_jsonl (demo_disk (utf8_encode (log_text demo_jsonl [JInt 1]) @ t)) [''w'', ''log''] [JInt 1] t"
  by (simp add: log_holds_def demo_disk_def resolve_def max_links_def is_directory_def)

theorem append_then_read_witness:
  "\<exists>d'. append_jsonl demo_jsonl (demo_disk (utf8_encode (log_text demo_jsonl [JInt 1]) @ [])) [''w'', ''log''] (JInt 2) = Inr d'
      \<and> read_jsonl demo_jsonl d' [''w'', ''log''] = Inr [JInt 1, JInt 2]"
  using append_then_read[OF demo_holds[of "[]"] _ demo_lines(2)] demo_lines(1) by auto

theorem torn_append_costs_next_event_witness:
  "\<exists>d' d''. append_jsonl demo_jsonl (demo_disk (utf8_encode (log_text demo_jsonl [JInt 1]) @ utf8_encode ''[9'')) [''w'', ''log''] (JInt 2) = Inr d'
      \<and> read_jsonl demo_jsonl d' [''w'', ''log''] = Inr [JInt 1]
      \<and> append_jsonl demo_jsonl d' [''w'', ''log''] (JInt 3) = Inr d''
      \<and> read_jsonl demo_jsonl d'' [''w'', ''log''] = Inl LogCorruptionError"
proof -
  have "one_line ''[9''" "strip ''[9'' \<noteq> []" "jl_load demo_jsonl ''[9'' = None"
    "jl_load demo_jsonl (''[9'' @ jl_dump demo_jsonl (JInt 2)) = None"
    "strip (''[9'' @ jl_dump demo_jsonl (JInt 2)) \<noteq> []"
    by code_simp+
  then show ?thesis
    using torn_append_costs_next_event[OF demo_holds _ demo_lines(2,3)] demo_lines(1) by auto
qed

theorem torn_character_blocks_reads_witness:
  "\<exists>d'. append_jsonl demo_jsonl (demo_disk (utf8_encode (log_text demo_jsonl [JInt 1]) @ utf8_encode ''['' @ [CHR 0xC3]))
           [''w'', ''log''] (JInt 2) = Inr d'
      \<and> read_jsonl demo_jsonl d' [''w'', ''log''] = Inl UnicodeDecodeError"
  using torn_character_blocks_reads[OF demo_holds, of "CHR 0xC3" "JInt 2"] by (simp add: demo_jsonl_def)

lemma demo_wf: "wf_disk (demo_disk b)"
  by (auto simp: wf_disk_def demo_disk_def is_directory_def append_eq_Cons_conv split: if_splits)

definition demo_artifacts :: artifacts where
  "demo_artifacts = \<lparr>ar_root = [''w''], ar_task = ''t1''\<rparr>"

lemma demo_root: "resolve (demo_disk b) (ar_root demo_artifacts) = Inr (max_links, [''w''])"
  by (simp add: resolve_def max_links_def demo_disk_def demo_artifacts_def is_directory_def)

lemma demo_write_succeeds: "is_ok (art_write_text (demo_disk []) demo_artifacts ''report.md'' ''x'')"
  by code_simp

theorem writes_stay_in_task_dir_witness:
  "\<exists>d'. art_write_text (demo_disk []) demo_artifacts ''report.md'' ''x'' = Inr d'
      \<and> confined (demo_disk []) d' [''w''] (rel_parts demo_artifacts) ''report.md''"
proof -
  have "is_directory (demo_disk []) [''w'']" "''..'' \<notin> set (task_parts (ar_task demo_artifacts))"
    by code_simp+
  then show ?thesis
    using writes_stay_in_task_dir[OF demo_wf demo_root] demo_write_succeeds by (auto simp: is_ok_iff)
qed

end
