(* ===== verification/Run_Lock.thy ===== *)
theory Run_Lock
  imports Json Prog
begin

text \<open>
  Model of the locks of \<open>src/orchestrator/queue.py\<close>: a file with the pid of the loop that runs a task
  (or the queue), taken under an exclusive \<open>flock\<close> on a guard file and reclaimed when the recorded
  process is gone. First the operations on the contents of the lock file, as one process performs
  them; then the protocol as a step relation between any number of processes that may crash anywhere.

  A process is its pid. A pid that is reused while a stale lock still names it is outside the model, as
  the code documents.
\<close>

section \<open>Operations\<close>

text \<open>The lock file: missing, with a text, or a link (whose target exists or not).\<close>

datatype lock_file = NoLock | LockText string | LockLink bool

datatype kill_result = KillOk | NoProcess | NotPermitted

definition refused_link :: "string \<Rightarrow> exn" where
  "refused_link name = QueueLocked (''lock path '' @ name @ '' is a symlink - refusing to follow it'')"

text \<open>Zero stands for a missing, empty or unreadable record.\<close>

definition recorded_pid :: "string \<Rightarrow> int" where
  "recorded_pid txt' = (case py_int (nonempty_or (strip txt') ''0'') of Some n \<Rightarrow> n | None \<Rightarrow> 0)"

definition read_lock_pid :: "string \<Rightarrow> lock_file \<Rightarrow> exn + int" where
  "read_lock_pid name l = (case l of
      NoLock \<Rightarrow> Inr 0
    | LockLink _ \<Rightarrow> Inl (refused_link name)
    | LockText t \<Rightarrow> Inr (recorded_pid t))"

text \<open>\<open>os.kill(pid, 0)\<close>; a number that is not a C \<open>int\<close> raises \<open>OverflowError\<close>.\<close>

definition pid_alive :: "(int \<Rightarrow> kill_result) \<Rightarrow> int \<Rightarrow> exn + bool" where
  "pid_alive kill pid =
     (if pid \<le> 0 then Inr False
      else if pid \<ge> 2 ^ 31 then Inl (OtherError ''OverflowError'')
      else Inr (kill pid \<noteq> NoProcess))"

definition pid_text :: "int \<Rightarrow> string" where
  "pid_text pid = str_of_int pid @ [CHR 0x0A]"

definition write_lock_pid :: "string \<Rightarrow> int \<Rightarrow> lock_file \<Rightarrow> exn + lock_file" where
  "write_lock_pid name me l =
     (case l of LockLink _ \<Rightarrow> Inl (refused_link name) | _ \<Rightarrow> Inr (LockText (pid_text me)))"

definition acquire_lock :: "(int \<Rightarrow> kill_result) \<Rightarrow> int \<Rightarrow> string \<Rightarrow> lock_file \<Rightarrow> exn + lock_file" where
  "acquire_lock kill me name l =
     bindR (read_lock_pid name l) (\<lambda>old.
     bindR (pid_alive kill old) (\<lambda>live.
       if live then Inl (QueueLocked (''task '' @ name @ '' already has a running loop (pid '' @ str_of_int old @ '')''))
       else write_lock_pid name me l))"

text \<open>The context manager around a program, with the lock file a part of its state.\<close>

definition with_lock ::
  "('s \<Rightarrow> lock_file) \<Rightarrow> (lock_file \<Rightarrow> 's \<Rightarrow> 's) \<Rightarrow> (int \<Rightarrow> kill_result) \<Rightarrow> int \<Rightarrow> string \<Rightarrow>
   ('s, 'a) prog \<Rightarrow> ('s, 'a) prog" where
  "with_lock get put kill me name m s =
     (case acquire_lock kill me name (get s) of
        Inl e \<Rightarrow> (Inl e, s)
      | Inr l \<Rightarrow> (let (r, t) = m (put l s) in (r, put NoLock t)))"

definition lock_exists :: "lock_file \<Rightarrow> bool" where
  "lock_exists l = (case l of NoLock \<Rightarrow> False | LockText _ \<Rightarrow> True | LockLink target \<Rightarrow> target)"

section \<open>What a process records is what the next one reads\<close>

lemma digit_not_sign: "is_digit c \<Longrightarrow> \<not> is_space c \<and> c \<noteq> CHR ''_'' \<and> c \<noteq> CHR ''-'' \<and> c \<noteq> CHR ''+''"
  by (auto simp: is_digit_def is_space_def Let_def)

lemma split_on_absent: "d \<notin> set t \<Longrightarrow> split_on d t = [t]"
  by (induction t) auto

lemma strip_digits:
  assumes "list_all is_digit ds" "list_all is_space t"
  shows "strip (ds @ t) = ds"
proof (cases ds)
  case Nil
  then have "lstrip (ds @ t) = []"
    using assms by (simp add: lstrip_def list_all_iff)
  then show ?thesis
    using Nil by (simp add: strip_def rstrip_def)
next
  case (Cons c cs)
  then have "lstrip (ds @ t) = ds @ t"
    using assms digit_not_sign[of c] by (simp add: lstrip_def)
  moreover have "is_digit (last ds)"
    using assms(1) Cons last_in_set[of ds] by (auto simp: list_all_iff simp del: last.simps)
  then have "\<not> is_space (hd (rev ds))"
    using digit_not_sign[of "last ds"] by (simp add: hd_rev)
  then have "dropWhile is_space (rev t @ rev ds) = rev ds"
    using assms(2) by (subst dropWhile_append2) (simp_all add: list_all_iff dropWhile_eq_self_iff)
  ultimately show ?thesis
    by (simp add: strip_def rstrip_def)
qed

lemma py_int_digits:
  assumes "list_all is_digit ds" "ds \<noteq> []" "length ds \<le> 4300" "list_all is_space t"
  shows "py_int (ds @ t) = Some (int (digits_val 0 ds))"
proof -
  have plain: "c \<in> set ds \<Longrightarrow> c \<noteq> CHR ''_'' \<and> c \<noteq> CHR ''-'' \<and> c \<noteq> CHR ''+''" for c
    using assms(1) digit_not_sign by (auto simp: list_all_iff)
  then have "\<not> prefix ''-'' ds" "\<not> prefix ''+'' ds" "CHR ''_'' \<notin> set ds"
    using assms(2) by (cases ds; auto)+
  then show ?thesis
    using assms strip_digits[OF assms(1,4)] by (simp add: py_int_def split_on_absent)
qed

lemma length_nat_digits: "n < 10 ^ Suc k \<Longrightarrow> length (nat_digits n) \<le> Suc k"
proof (induction k arbitrary: n)
  case 0
  then show ?case
    by (subst nat_digits.simps) simp
next
  case (Suc k)
  then have "n div 10 < 10 ^ Suc k"
    by (simp add: less_mult_imp_div_less)
  then show ?case
    using Suc.IH[of "n div 10"] by (subst nat_digits.simps) simp
qed

definition valid_pid :: "int \<Rightarrow> bool" where
  "valid_pid p = (0 < p \<and> p < 2 ^ 31)"

lemma recorded_pid_text [simp]: "valid_pid p \<Longrightarrow> recorded_pid (pid_text p) = p"
proof -
  assume p: "valid_pid p"
  then have len: "length (nat_digits (nat p)) \<le> 4300"
    using length_nat_digits[of "nat p" 9] nat_less_iff[of p "10 ^ 10"] by (simp add: valid_pid_def)
  have sp: "list_all is_space [CHR 0x0A]"
    by (simp add: is_space_def)
  have t: "strip (pid_text p) = nat_digits (nat p)"
    using p strip_digits[OF nat_digits_digits sp] by (simp add: pid_text_def str_of_int_def valid_pid_def)
  have "py_int (nat_digits (nat p) @ []) = Some p"
    using p len py_int_digits[OF nat_digits_digits, of "nat p" "[]"]
    by (simp add: digits_val_nat_digits valid_pid_def)
  then show ?thesis
    using t by (simp add: recorded_pid_def nonempty_or_def)
qed

lemma read_own_record [simp]: "valid_pid p \<Longrightarrow> read_lock_pid name (LockText (pid_text p)) = Inr p"
  by (simp add: read_lock_pid_def)

section \<open>The protocol between processes\<close>

datatype lock_pc =
    Outside
  | Waiting
  | Guarded
  | Checking int
  | Reclaiming
  | Truncated
  | Written
  | Refusing
  | Inside

record lock_sys =
  ls_file :: lock_file
  ls_guard :: "int option"
  ls_pc :: "int \<Rightarrow> lock_pc"
  ls_alive :: "int set"

definition sys_kill :: "lock_sys \<Rightarrow> int \<Rightarrow> kill_result" where
  "sys_kill s pid = (if pid \<in> ls_alive s then KillOk else NoProcess)"

definition goto :: "int \<Rightarrow> lock_pc \<Rightarrow> lock_sys \<Rightarrow> lock_sys" where
  "goto p pc s = s\<lparr>ls_pc := (ls_pc s)(p := pc)\<rparr>"

lemma goto_simps [simp]:
  "ls_pc (goto p pc s) = (ls_pc s)(p := pc)" "ls_file (goto p pc s) = ls_file s"
  "ls_guard (goto p pc s) = ls_guard s" "ls_alive (goto p pc s) = ls_alive s"
  by (simp_all add: goto_def)

text \<open>
  One system call of one process, a crash (the kernel releases the guard), or a new process, whose pid
  may even be one a stale lock names.
\<close>

inductive lock_step :: "string \<Rightarrow> lock_sys \<Rightarrow> lock_sys \<Rightarrow> bool" for name where
  request: "ls_pc s p = Outside \<Longrightarrow> p \<in> ls_alive s \<Longrightarrow> valid_pid p \<Longrightarrow> lock_step name s (goto p Waiting s)"
| flock: "ls_pc s p = Waiting \<Longrightarrow> ls_guard s = None \<Longrightarrow>
    lock_step name s (goto p Guarded (s\<lparr>ls_guard := Some p\<rparr>))"
| read_pid: "ls_pc s p = Guarded \<Longrightarrow> read_lock_pid name (ls_file s) = Inr n \<Longrightarrow>
    lock_step name s (goto p (Checking n) s)"
| read_link: "ls_pc s p = Guarded \<Longrightarrow> read_lock_pid name (ls_file s) = Inl e \<Longrightarrow>
    lock_step name s (goto p Refusing s)"
| holder_gone: "ls_pc s p = Checking n \<Longrightarrow> pid_alive (sys_kill s) n = Inr False \<Longrightarrow>
    lock_step name s (goto p Reclaiming s)"
| holder_lives: "ls_pc s p = Checking n \<Longrightarrow> pid_alive (sys_kill s) n \<noteq> Inr False \<Longrightarrow>
    lock_step name s (goto p Refusing s)"
| truncate: "ls_pc s p = Reclaiming \<Longrightarrow> write_lock_pid name p (ls_file s) = Inr l \<Longrightarrow>
    lock_step name s (goto p Truncated (s\<lparr>ls_file := LockText []\<rparr>))"
| write_link: "ls_pc s p = Reclaiming \<Longrightarrow> write_lock_pid name p (ls_file s) = Inl e \<Longrightarrow>
    lock_step name s (goto p Refusing s)"
| record_pid: "ls_pc s p = Truncated \<Longrightarrow>
    lock_step name s (goto p Written (s\<lparr>ls_file := LockText (pid_text p)\<rparr>))"
| enter: "ls_pc s p = Written \<Longrightarrow> lock_step name s (goto p Inside (s\<lparr>ls_guard := None\<rparr>))"
| refuse: "ls_pc s p = Refusing \<Longrightarrow> lock_step name s (goto p Outside (s\<lparr>ls_guard := None\<rparr>))"
| leave: "ls_pc s p = Inside \<Longrightarrow> lock_step name s (goto p Outside (s\<lparr>ls_file := NoLock\<rparr>))"
| crash: "p \<in> ls_alive s \<Longrightarrow>
    lock_step name s (goto p Outside
      (s\<lparr>ls_alive := ls_alive s - {p}, ls_guard := (if ls_guard s = Some p then None else ls_guard s)\<rparr>))"
| spawn: "p \<notin> ls_alive s \<Longrightarrow> lock_step name s (s\<lparr>ls_alive := insert p (ls_alive s)\<rparr>)"

definition lock_init :: "lock_sys \<Rightarrow> bool" where
  "lock_init s = (ls_guard s = None \<and> (\<forall>p. ls_pc s p = Outside))"

section \<open>Mutual exclusion\<close>

text \<open>The contract of a transition system with an invariant.\<close>

locale transition_system =
  fixes init :: "'s \<Rightarrow> bool" and step :: "'s \<Rightarrow> 's \<Rightarrow> bool" and inv :: "'s \<Rightarrow> bool"
  assumes init_inv: "init s \<Longrightarrow> inv s"
    and step_inv: "inv s \<Longrightarrow> step s t \<Longrightarrow> inv t"
begin

lemma reachable_inv: "init s \<Longrightarrow> step\<^sup>*\<^sup>* s t \<Longrightarrow> inv t"
  by (rotate_tac, induction rule: rtranclp_induct) (auto intro: init_inv step_inv)

end

primrec holds_guard :: "lock_pc \<Rightarrow> bool" where
  "holds_guard Outside = False"
| "holds_guard Waiting = False"
| "holds_guard Guarded = True"
| "holds_guard (Checking n) = True"
| "holds_guard Reclaiming = True"
| "holds_guard Truncated = True"
| "holds_guard Written = True"
| "holds_guard Refusing = True"
| "holds_guard Inside = False"

definition nobody_inside :: "lock_sys \<Rightarrow> bool" where
  "nobody_inside s = (\<forall>q. ls_pc s q \<noteq> Inside)"

text \<open>
  The guard is held by the process between its \<open>flock\<close> and its release; what that process knows about
  who is inside; and a process inside is the one the file names.
\<close>

definition guard_ok :: "lock_sys \<Rightarrow> bool" where
  "guard_ok s = (\<forall>q. holds_guard (ls_pc s q) = (ls_guard s = Some q))"

definition live_ok :: "lock_sys \<Rightarrow> bool" where
  "live_ok s = (\<forall>q. ls_pc s q \<noteq> Outside \<longrightarrow> q \<in> ls_alive s \<and> valid_pid q)"

definition record_ok :: "lock_sys \<Rightarrow> bool" where
  "record_ok s = (\<forall>q. ls_pc s q = Inside \<longrightarrow> ls_file s = LockText (pid_text q))"

definition known :: "lock_sys \<Rightarrow> int \<Rightarrow> lock_pc \<Rightarrow> bool" where
  "known s p pc = (case pc of
      Checking n \<Rightarrow> (\<forall>q. ls_pc s q = Inside \<longrightarrow> n = q)
    | Reclaiming \<Rightarrow> nobody_inside s
    | Truncated \<Rightarrow> nobody_inside s
    | Written \<Rightarrow> nobody_inside s \<and> ls_file s = LockText (pid_text p)
    | _ \<Rightarrow> True)"

definition holder_ok :: "lock_sys \<Rightarrow> bool" where
  "holder_ok s = (\<forall>p. ls_guard s = Some p \<longrightarrow> known s p (ls_pc s p))"

definition lock_inv :: "lock_sys \<Rightarrow> bool" where
  "lock_inv s = (guard_ok s \<and> live_ok s \<and> record_ok s \<and> holder_ok s)"

lemma lock_inv_init: "lock_init s \<Longrightarrow> lock_inv s"
  by (simp add: lock_init_def lock_inv_def guard_ok_def live_ok_def record_ok_def holder_ok_def)

text \<open>A process holding the guard moves on, with the guard or by giving it back.\<close>

lemma reclaim_guard_keeps:
  "guard_ok s \<Longrightarrow> holds_guard (ls_pc s p) \<Longrightarrow> holds_guard pc \<Longrightarrow> guard_ok (goto p pc (s\<lparr>ls_file := f\<rparr>))"
  "guard_ok s \<Longrightarrow> holds_guard (ls_pc s p) \<Longrightarrow> holds_guard pc \<Longrightarrow> guard_ok (goto p pc s)"
  "guard_ok s \<Longrightarrow> holds_guard (ls_pc s p) \<Longrightarrow> \<not> holds_guard pc \<Longrightarrow> guard_ok (goto p pc (s\<lparr>ls_guard := None\<rparr>))"
  by (auto simp: guard_ok_def)

text \<open>What the holder of the guard knows stays true while others only leave or start.\<close>

lemma known_mono:
  "known s h pc \<Longrightarrow> (\<And>q. ls_pc t q = Inside \<Longrightarrow> ls_pc s q = Inside) \<Longrightarrow> ls_file t = ls_file s \<or> pc \<noteq> Written \<Longrightarrow>
   known t h pc"
  by (cases pc) (auto simp: known_def nobody_inside_def)

lemma holder_frame:
  assumes "lock_inv s" "\<And>h. ls_guard t = Some h \<Longrightarrow> ls_guard s = Some h \<and> ls_pc t h = ls_pc s h"
    and "\<And>q. ls_pc t q = Inside \<Longrightarrow> ls_pc s q = Inside"
    and "\<And>h. ls_guard s = Some h \<Longrightarrow> ls_pc s h = Written \<Longrightarrow> ls_file t = ls_file s"
  shows "holder_ok t"
  unfolding holder_ok_def
proof (intro allI impI)
  fix h
  assume "ls_guard t = Some h"
  then have h: "ls_guard s = Some h" "ls_pc t h = ls_pc s h"
    using assms(2) by blast+
  then have "known s h (ls_pc s h)"
    using assms(1) by (simp add: lock_inv_def holder_ok_def)
  then show "known t h (ls_pc t h)"
    using known_mono[of s h "ls_pc s h" t] assms(3,4) h by metis
qed

lemma guard_holds: "lock_inv s \<Longrightarrow> ls_guard s = Some h \<longleftrightarrow> holds_guard (ls_pc s h)"
  by (simp add: lock_inv_def guard_ok_def)

lemma inside_unique: "lock_inv s \<Longrightarrow> ls_pc s p = Inside \<Longrightarrow> ls_pc s q = Inside \<Longrightarrow> p = q"
  unfolding lock_inv_def record_ok_def live_ok_def by (metis lock_file.inject(1) lock_pc.distinct(15) recorded_pid_text)

lemma lock_inv_step: "lock_step name s t \<Longrightarrow> lock_inv s \<Longrightarrow> lock_inv t"
proof (induction rule: lock_step.induct)
  case (request s p)
  then have "holder_ok (goto p Waiting s)"
    by (intro holder_frame[of s]) (auto simp: guard_holds split: if_splits)
  then show ?case
    using request guard_holds[of s p] by (auto simp: lock_inv_def guard_ok_def live_ok_def record_ok_def)
next
  case (flock s p)
  then show ?case
    by (auto simp: lock_inv_def guard_ok_def live_ok_def record_ok_def holder_ok_def known_def)
next
  case (read_pid s p n)
  have "n = q" if "ls_pc s q = Inside" for q
    using read_pid that by (auto simp: lock_inv_def record_ok_def live_ok_def)
  moreover have "ls_guard s = Some p"
    using read_pid by (metis guard_ok_def holds_guard.simps(3) lock_inv_def)
  ultimately show ?case
    using read_pid reclaim_guard_keeps(2)[of s p "Checking n"]
    by (auto simp: lock_inv_def live_ok_def record_ok_def holder_ok_def known_def)
next
  case (read_link s p e)
  then show ?case
    using reclaim_guard_keeps(2)[of s p Refusing]
    by (auto simp: lock_inv_def live_ok_def record_ok_def holder_ok_def known_def guard_ok_def)
next
  case (holder_gone s p n)
  have g: "ls_guard s = Some p"
    using holder_gone by (metis guard_ok_def holds_guard.simps(4) lock_inv_def)
  have none: "ls_pc s q \<noteq> Inside" for q
  proof
    assume q: "ls_pc s q = Inside"
    then have "n = q" "q \<in> ls_alive s" "valid_pid q"
      using holder_gone g by (auto simp: lock_inv_def holder_ok_def known_def live_ok_def)
    then show False
      using holder_gone(2) by (simp add: pid_alive_def sys_kill_def valid_pid_def split: if_splits)
  qed
  then show ?case
    using holder_gone g reclaim_guard_keeps(2)[of s p Reclaiming]
    by (auto simp: lock_inv_def live_ok_def record_ok_def holder_ok_def known_def nobody_inside_def)
next
  case (holder_lives s p n)
  then show ?case
    using reclaim_guard_keeps(2)[of s p Refusing]
    by (auto simp: lock_inv_def live_ok_def record_ok_def holder_ok_def known_def guard_ok_def)
next
  case (truncate s p l)
  have g: "ls_guard s = Some p"
    using truncate by (metis guard_ok_def holds_guard.simps(5) lock_inv_def)
  then have "nobody_inside s"
    using truncate by (auto simp: lock_inv_def holder_ok_def known_def)
  then show ?case
    using truncate g reclaim_guard_keeps(1)[of s p Truncated]
    by (auto simp: lock_inv_def live_ok_def record_ok_def holder_ok_def known_def nobody_inside_def)
next
  case (write_link s p e)
  then show ?case
    using reclaim_guard_keeps(2)[of s p Refusing]
    by (auto simp: lock_inv_def live_ok_def record_ok_def holder_ok_def known_def guard_ok_def)
next
  case (record_pid s p)
  have g: "ls_guard s = Some p"
    using record_pid by (metis guard_ok_def holds_guard.simps(6) lock_inv_def)
  then have "nobody_inside s"
    using record_pid by (auto simp: lock_inv_def holder_ok_def known_def)
  then show ?case
    using record_pid g reclaim_guard_keeps(1)[of s p Written]
    by (auto simp: lock_inv_def live_ok_def record_ok_def holder_ok_def known_def nobody_inside_def)
next
  case (enter s p)
  have "ls_guard s = Some p"
    using enter by (metis guard_ok_def holds_guard.simps(7) lock_inv_def)
  then have "nobody_inside s" "ls_file s = LockText (pid_text p)"
    using enter by (auto simp: lock_inv_def holder_ok_def known_def)
  then show ?case
    using enter reclaim_guard_keeps(3)[of s p Inside]
    by (auto simp: lock_inv_def live_ok_def record_ok_def holder_ok_def nobody_inside_def)
next
  case (refuse s p)
  then show ?case
    using reclaim_guard_keeps(3)[of s p Outside]
    by (auto simp: lock_inv_def live_ok_def record_ok_def holder_ok_def)
next
  case (leave s p)
  let ?t = "goto p Outside (s\<lparr>ls_file := NoLock\<rparr>)"
  have g: "ls_guard s \<noteq> Some p"
    using leave by (simp add: guard_holds)
  moreover have "ls_pc s h \<noteq> Written" if "ls_guard s = Some h" for h
    using leave that by (auto simp: lock_inv_def holder_ok_def known_def nobody_inside_def)
  ultimately have "holder_ok ?t"
    using leave by (intro holder_frame[of s]) (auto split: if_splits)
  moreover have "record_ok ?t"
    unfolding record_ok_def using inside_unique[OF leave(2,1)] by auto
  ultimately show ?case
    using leave g by (auto simp: lock_inv_def guard_ok_def live_ok_def)
next
  case (crash p s)
  let ?t = "goto p Outside (s\<lparr>ls_alive := ls_alive s - {p}, ls_guard := (if ls_guard s = Some p then None else ls_guard s)\<rparr>)"
  have "holder_ok ?t"
    using crash by (intro holder_frame[of s]) (auto split: if_splits)
  then show ?case
    using crash by (auto simp: lock_inv_def guard_ok_def live_ok_def record_ok_def)
next
  case (spawn p s)
  have "holder_ok (s\<lparr>ls_alive := insert p (ls_alive s)\<rparr>)"
    using spawn by (intro holder_frame[of s]) auto
  then show ?case
    using spawn by (auto simp: lock_inv_def guard_ok_def live_ok_def record_ok_def)
qed

interpretation run_lock: transition_system lock_init "lock_step name" lock_inv for name
  by unfold_locales (blast intro: lock_inv_init lock_inv_step)+

lemma inside_alone:
  assumes "lock_init s0" "(lock_step name)\<^sup>*\<^sup>* s0 s" "ls_pc s p = Inside" "ls_pc s q = Inside"
  shows "p = q \<and> p \<in> ls_alive s \<and> ls_file s = LockText (pid_text p)"
proof -
  have inv: "lock_inv s"
    using run_lock.reachable_inv[OF assms(1,2)] .
  have "p = q"
    using inside_unique[OF inv assms(3,4)] .
  moreover have "p \<in> ls_alive s"
    using inv assms(3) unfolding lock_inv_def live_ok_def by (metis lock_pc.distinct(15))
  moreover have "ls_file s = LockText (pid_text p)"
    using inv assms(3) unfolding lock_inv_def record_ok_def by blast
  ultimately show ?thesis
    by blast
qed

text \<open>
  C13: At most one loop runs a task: whatever the lock file held at the start and however the processes
  interleave, crash and are started, two processes inside the lock are the same process, it is alive, and
  the lock file names it.
\<close>

theorem lock_is_exclusive:
  assumes "lock_init s0" "(lock_step name)\<^sup>*\<^sup>* s0 s" "ls_pc s p = Inside" "ls_pc s q = Inside"
  shows "p = q \<and> p \<in> ls_alive s \<and> ls_file s = LockText (pid_text p)"
  by (rule inside_alone[OF assms])

text \<open>
  A process alone takes the lock in these calls; it is refused exactly when the recorded process lives or
  the file is a link.
\<close>

lemma lock_run_alone:
  assumes "ls_pc s p = Outside" "p \<in> ls_alive s" "valid_pid p" "ls_guard s = None"
    and n: "read_lock_pid name (ls_file s) = Inr n" "pid_alive (sys_kill s) n = Inr False"
  shows "\<exists>t. (lock_step name)\<^sup>*\<^sup>* s t \<and> ls_pc t p = Inside \<and> ls_file t = LockText (pid_text p)"
proof -
  let ?s1 = "goto p Waiting s"
  let ?s2 = "goto p Guarded (?s1\<lparr>ls_guard := Some p\<rparr>)"
  let ?s3 = "goto p (Checking n) ?s2"
  let ?s4 = "goto p Reclaiming ?s3"
  let ?s5 = "goto p Truncated (?s4\<lparr>ls_file := LockText []\<rparr>)"
  let ?s6 = "goto p Written (?s5\<lparr>ls_file := LockText (pid_text p)\<rparr>)"
  let ?s7 = "goto p Inside (?s6\<lparr>ls_guard := None\<rparr>)"
  obtain l where l: "write_lock_pid name p (ls_file s) = Inr l"
    using n(1) by (cases "ls_file s") (auto simp: read_lock_pid_def write_lock_pid_def)
  have alive: "sys_kill ?s3 = sys_kill s"
    by (simp add: sys_kill_def fun_eq_iff)
  have "lock_step name s ?s1"
    by (rule request[OF assms(1,2,3)])
  moreover have "lock_step name ?s1 ?s2"
    by (rule flock) (simp_all add: assms(4))
  moreover have "lock_step name ?s2 ?s3"
    by (rule read_pid) (simp_all add: n(1))
  moreover have "lock_step name ?s3 ?s4"
    by (rule holder_gone[where n = n]) (simp_all only: goto_simps alive n(2) fun_upd_same)
  moreover have "lock_step name ?s4 ?s5"
    by (rule truncate[where l = l]) (simp_all add: l)
  moreover have "lock_step name ?s5 ?s6"
    by (rule record_pid) simp
  moreover have "lock_step name ?s6 ?s7"
    by (rule enter) simp
  ultimately have "(lock_step name)\<^sup>*\<^sup>* s ?s7"
    by (meson converse_rtranclp_into_rtranclp rtranclp.rtrancl_refl)
  then show ?thesis
    by (intro exI[of _ ?s7]) simp
qed

text \<open>
  A crashed loop never locks its task out: from every reachable state in which no process is deciding
  about the lock and the lock file, missing, unreadable or naming a process that is gone, names no live
  one, a live process outside can take the lock, and then the file names it.
\<close>

theorem crashed_lock_is_reclaimed:
  assumes "lock_init s0" "(lock_step name)\<^sup>*\<^sup>* s0 s" "\<forall>q. \<not> holds_guard (ls_pc s q)"
    and "ls_pc s p = Outside" "p \<in> ls_alive s" "valid_pid p"
    and "read_lock_pid name (ls_file s) = Inr d" "d < 2 ^ 31" "d \<notin> ls_alive s"
  shows "\<exists>t. (lock_step name)\<^sup>*\<^sup>* s t \<and> ls_pc t p = Inside \<and> ls_file t = LockText (pid_text p)"
proof -
  have "guard_ok s"
    using run_lock.reachable_inv[OF assms(1,2)] by (simp add: lock_inv_def)
  then have "ls_guard s = None"
    using assms(3) by (cases "ls_guard s") (auto simp: guard_ok_def)
  moreover have "pid_alive (sys_kill s) d = Inr False"
    using assms(8,9) by (simp add: pid_alive_def sys_kill_def)
  ultimately show ?thesis
    using lock_run_alone assms(4-7) by blast
qed

text \<open>
  \<open>is_running\<close> only asks whether the lock file exists: after the process inside has crashed, the task
  still counts as running, although nobody runs it.
\<close>

lemma crashed_loop_looks_running:
  assumes "lock_init s0" "(lock_step name)\<^sup>*\<^sup>* s0 s" "ls_pc s p = Inside"
  shows "\<exists>t. lock_step name s t \<and> p \<notin> ls_alive t \<and> (\<forall>q. ls_pc t q \<noteq> Inside) \<and> lock_exists (ls_file t)"
proof -
  let ?t = "goto p Outside (s\<lparr>ls_alive := ls_alive s - {p}, ls_guard := (if ls_guard s = Some p then None else ls_guard s)\<rparr>)"
  have p: "p \<in> ls_alive s" "ls_file s = LockText (pid_text p)"
    using inside_alone[OF assms assms(3)] by simp_all
  have "lock_step name s ?t"
    by (rule crash[OF p(1)])
  moreover have "ls_pc ?t q \<noteq> Inside" for q
    using inside_alone[OF assms(1-3), of q] by auto
  ultimately show ?thesis
    using p by (intro exI[of _ ?t]) (simp add: lock_exists_def)
qed

section \<open>Witnesses\<close>

definition demo_sys :: "lock_file \<Rightarrow> lock_sys" where
  "demo_sys f = \<lparr>ls_file = f, ls_guard = None, ls_pc = (\<lambda>_. Outside), ls_alive = {7}\<rparr>"

lemma demo_init: "lock_init (demo_sys f)"
  by (simp add: lock_init_def demo_sys_def)

lemma demo_inside: "\<exists>t. (lock_step ''t'')\<^sup>*\<^sup>* (demo_sys NoLock) t \<and> ls_pc t 7 = Inside"
proof -
  have "read_lock_pid ''t'' (ls_file (demo_sys NoLock)) = Inr 0" "pid_alive (sys_kill (demo_sys NoLock)) 0 = Inr False"
    by (simp_all add: demo_sys_def read_lock_pid_def pid_alive_def)
  then show ?thesis
    using lock_run_alone[of "demo_sys NoLock" 7 "''t''" 0] by (auto simp: demo_sys_def valid_pid_def)
qed

theorem lock_is_exclusive_witness:
  "\<exists>t. (lock_step ''t'')\<^sup>*\<^sup>* (demo_sys NoLock) t \<and> ls_pc t 7 = Inside \<and> ls_file t = LockText (pid_text 7)
     \<and> (\<forall>q. ls_pc t q = Inside \<longrightarrow> q = 7)"
proof -
  obtain t where t: "(lock_step ''t'')\<^sup>*\<^sup>* (demo_sys NoLock) t" "ls_pc t 7 = Inside"
    using demo_inside by blast
  then show ?thesis
    using lock_is_exclusive[OF demo_init t(1) t(2)] by blast
qed

theorem crashed_lock_is_reclaimed_witness:
  "\<exists>t. (lock_step ''t'')\<^sup>*\<^sup>* (demo_sys (LockText (pid_text 8))) t \<and> ls_pc t 7 = Inside"
proof -
  have "read_lock_pid ''t'' (ls_file (demo_sys (LockText (pid_text 8)))) = Inr 8"
    by (simp add: demo_sys_def valid_pid_def)
  from crashed_lock_is_reclaimed[OF demo_init rtranclp.rtrancl_refl _ _ _ _ this, of 7] show ?thesis
    by (auto simp: demo_sys_def holds_guard_def valid_pid_def)
qed

end
