(* ===== verification/Task_Queue.thy ===== *)
theory Task_Queue
  imports Artifact_Store Run_Lock Glob "HOL-Library.AList"
begin

text \<open>
  Model of the queue of \<open>src/orchestrator/queue.py\<close>: one JSON file per task in a directory, ordered by the
  number its name starts with. The state is the directory (the files with their bytes, in the order the
  directory lists them, without repeated names) and the lock file. The library that prints and reads JSON
  and the process table are arguments. The lemmas show that the directory is a first-in-first-out queue.
\<close>

section \<open>Items\<close>

record queue_item =
  qi_name :: string
  qi_task :: string
  qi_enqueued :: string
  qi_skip :: bool
  qi_base :: "string option"

type_synonym qfiles = "(string \<times> string) list"

record taskq =
  tq_files :: qfiles
  tq_lock :: lock_file

definition item_glob :: string where
  "item_glob = ''[0-9]*-*.json''"

definition item_files :: "qfiles \<Rightarrow> qfiles" where
  "item_files fs = filter (\<lambda>(n, _). fnmatchcase n item_glob) fs"

definition seq_of :: "string \<Rightarrow> exn + int" where
  "seq_of name = (case py_int (before_char CHR ''-'' name) of None \<Rightarrow> Inl ValueError | Some n \<Rightarrow> Inr n)"

definition next_seq :: "qfiles \<Rightarrow> exn + int" where
  "next_seq fs =
     bindR (mapR (\<lambda>(n, _). seq_of n) (item_files fs)) (\<lambda>taken.
       Inr ((if taken = [] then 0 else Max (set taken)) + 1))"

text \<open>The format \<open>04d\<close> of a number that is not negative.\<close>

definition seq_text :: "int \<Rightarrow> string" where
  "seq_text n = (let ds = nat_digits (nat n) in replicate (4 - length ds) CHR ''0'' @ ds)"

definition item_name :: "int \<Rightarrow> string \<Rightarrow> string" where
  "item_name n task_id = seq_text n @ CHR ''-'' # task_id @ ''.json''"

definition item_payload :: "string \<Rightarrow> string \<Rightarrow> bool \<Rightarrow> string option \<Rightarrow> json" where
  "item_payload task_id now skip base_task =
     JObj ([(''task_id'', JStr task_id), (''enqueued_at'', JStr now), (''skip_clarify'', JBool skip)]
           @ (case base_task of None \<Rightarrow> [] | Some b \<Rightarrow> [(''base_task'', JStr b)]))"

definition item_of :: "string \<Rightarrow> entry \<Rightarrow> exn + queue_item" where
  "item_of name e =
     bindR (dsub e ''task_id'') (\<lambda>task_id.
     bindR (dsub e ''enqueued_at'') (\<lambda>at.
       Inr \<lparr>qi_name = name, qi_task = py_str task_id, qi_enqueued = py_str at,
            qi_skip = truthy (dget_or e ''skip_clarify'' (JBool False)),
            qi_base = (case dget e ''base_task'' of JNull \<Rightarrow> None | v \<Rightarrow> Some (py_str v))\<rparr>))"

definition load_item :: "jsonl_lib \<Rightarrow> string \<times> string \<Rightarrow> exn + queue_item" where
  "load_item jl f =
     bindR (decode_text (snd f)) (\<lambda>t.
       case jl_load jl t of
         None \<Rightarrow> Inl ValueError
       | Some (JObj e) \<Rightarrow> item_of (fst f) e
       | Some _ \<Rightarrow> Inl AttributeError)"

definition items :: "jsonl_lib \<Rightarrow> qfiles \<Rightarrow> exn + queue_item list" where
  "items jl fs =
     bindR (mapR (\<lambda>f. bindR (seq_of (fst f)) (\<lambda>n. Inr (n, f))) (item_files fs)) (\<lambda>keyed.
       mapR (load_item jl) (map snd (sort_key fst keyed)))"

section \<open>Operations\<close>

definition queue_lock :: "(int \<Rightarrow> kill_result) \<Rightarrow> int \<Rightarrow> (taskq, 'a) prog \<Rightarrow> (taskq, 'a) prog" where
  "queue_lock kill me m = with_lock tq_lock (\<lambda>l q. q\<lparr>tq_lock := l\<rparr>) kill me ''queue'' m"

text \<open>A task id with a slash names a file of a directory that does not exist.\<close>

definition enqueue_held ::
  "jsonl_lib \<Rightarrow> string \<Rightarrow> string \<Rightarrow> bool \<Rightarrow> string option \<Rightarrow> (taskq, queue_item) prog" where
  "enqueue_held jl now task_id skip base_task =
     bindP (getP tq_files) (\<lambda>fs.
     bindP (liftP (items jl fs)) (\<lambda>its.
       if \<exists>it\<in>set its. qi_task it = task_id then throwP (QueueError (''task '' @ task_id @ '' is already queued''))
       else bindP (liftP (next_seq fs)) (\<lambda>n.
         if CHR ''/'' \<in> set task_id then throwP OSError
         else
           (let name = item_name n task_id;
                line = jl_dump jl (item_payload task_id now skip base_task) @ [CHR 0x0A]
            in thenP (modifyP (\<lambda>q. q\<lparr>tq_files := AList.update name (utf8_encode line) (tq_files q)\<rparr>))
                 (retP \<lparr>qi_name = name, qi_task = task_id, qi_enqueued = now, qi_skip = skip, qi_base = base_task\<rparr>)))))"

definition enqueue ::
  "jsonl_lib \<Rightarrow> (int \<Rightarrow> kill_result) \<Rightarrow> int \<Rightarrow> string \<Rightarrow> string \<Rightarrow> bool \<Rightarrow> string option \<Rightarrow> (taskq, queue_item) prog" where
  "enqueue jl kill me now task_id skip base_task =
     queue_lock kill me (enqueue_held jl now task_id skip base_task)"

definition remove_item :: "queue_item \<Rightarrow> (taskq, unit) prog" where
  "remove_item it = modifyP (\<lambda>q. q\<lparr>tq_files := AList.delete (qi_name it) (tq_files q)\<rparr>)"

section \<open>The name of a new item\<close>

lemma digits_val_zeros: "digits_val 0 (replicate k CHR ''0'' @ ds) = digits_val 0 ds"
  by (induction k) simp_all

lemma seq_text_digits: "list_all is_digit (seq_text n)" "seq_text n \<noteq> []" "digits_val 0 (seq_text n) = nat n"
proof -
  have "is_digit CHR ''0''"
    by code_simp
  then show "list_all is_digit (seq_text n)"
    using nat_digits_digits[of "nat n"] by (auto simp: seq_text_def Let_def list_all_iff)
  show "seq_text n \<noteq> []" "digits_val 0 (seq_text n) = nat n"
    by (simp_all add: seq_text_def Let_def digits_val_zeros digits_val_nat_digits)
qed

lemma before_dash: "list_all is_digit ds \<Longrightarrow> before_char CHR ''-'' (ds @ CHR ''-'' # rest) = ds"
  using digit_not_sign by (auto simp: before_char_def list_all_iff takeWhile_append2)

lemma seq_of_item_name:
  assumes "0 \<le> n" "length (seq_text n) \<le> 4300"
  shows "seq_of (item_name n t) = Inr n"
proof -
  have "py_int (seq_text n @ []) = Some (int (nat n))"
    using py_int_digits[OF seq_text_digits(1,2) assms(2), of "[]"] seq_text_digits(3)[of n] by simp
  then show ?thesis
    using assms(1) before_dash[OF seq_text_digits(1), of n "t @ ''.json''"] by (simp add: seq_of_def item_name_def)
qed

lemma item_glob_tokens:
  "glob_tokens item_glob = Cls False [Range CHR ''0'' CHR ''9''] # Star # Lit CHR ''-'' # Star # map Lit ''.json''"
  by code_simp

lemma item_name_matches: "fnmatchcase (item_name n t) item_glob"
proof -
  obtain c cs where c: "seq_text n = c # cs" "is_digit c"
    using seq_text_digits(1,2)[of n] by (cases "seq_text n") auto
  have "gmatch (map Lit ''.json'') ''.json''"
    by code_simp
  then have "gmatch (Star # map Lit ''.json'') (t @ ''.json'')"
    unfolding gmatch_Star_iff by blast
  then have "gmatch (Lit CHR ''-'' # Star # map Lit ''.json'') (CHR ''-'' # t @ ''.json'')"
    by simp
  then have "gmatch (Star # Lit CHR ''-'' # Star # map Lit ''.json'') (cs @ CHR ''-'' # t @ ''.json'')"
    unfolding gmatch_Star_iff[of "Lit CHR ''-'' # _"] by blast
  moreover have "citem_matches c (Range CHR ''0'' CHR ''9'')"
    using c(2) by (simp add: citem_matches_def is_digit_def Let_def)
  ultimately show ?thesis
    using c(1) by (simp add: fnmatchcase_def item_glob_tokens item_name_def)
qed

section \<open>First in, first out\<close>

lemma insort_key_snoc: "f y \<le> f x \<Longrightarrow> insort_key f y (zs @ [x]) = insort_key f y zs @ [x]"
  by (induction zs) auto

lemma sort_key_snoc: "\<forall>y\<in>set xs. f y < f x \<Longrightarrow> sort_key f (xs @ [x]) = sort_key f xs @ [x]"
  unfolding sort_key_def by (induction xs) (auto simp: insort_key_snoc less_imp_le)

lemma mapR_append: "mapR f (xs @ ys) = bindR (mapR f xs) (\<lambda>us. bindR (mapR f ys) (\<lambda>vs. Inr (us @ vs)))"
proof (induction xs)
  case Nil
  then show ?case by (cases "mapR f ys") simp_all
next
  case (Cons x xs)
  then show ?case
    by (cases "f x"; cases "mapR f xs"; cases "mapR f ys") simp_all
qed

definition keyed :: "qfiles \<Rightarrow> exn + (int \<times> string \<times> string) list" where
  "keyed fs = mapR (\<lambda>f. bindR (seq_of (fst f)) (\<lambda>n. Inr (n, f))) (item_files fs)"

lemma items_keyed: "items jl fs = bindR (keyed fs) (\<lambda>kfs. mapR (load_item jl) (map snd (sort_key fst kfs)))"
  by (simp add: items_def keyed_def)

lemma keyed_seqs: "keyed fs = Inr kfs \<Longrightarrow> mapR (\<lambda>(n, _). seq_of n) (item_files fs) = Inr (map fst kfs) \<and> map snd kfs = item_files fs"
proof -
  have "mapR (\<lambda>f. bindR (seq_of (fst f)) (\<lambda>n. Inr (n, f))) xs = Inr kfs \<Longrightarrow>
        mapR (\<lambda>(n, _). seq_of n) xs = Inr (map fst kfs) \<and> map snd kfs = xs" for xs kfs
    by (induction xs arbitrary: kfs) (auto simp: bindR_Inr_iff)
  then show "keyed fs = Inr kfs \<Longrightarrow> ?thesis"
    by (simp add: keyed_def)
qed

lemma py_int_nonneg:
  assumes "is_digit c" "py_int (c # cs) = Some n"
  shows "0 \<le> n"
proof -
  have c: "\<not> is_space c" "c \<noteq> CHR ''-''"
    using digit_not_sign[OF assms(1)] by simp_all
  then have l: "lstrip (c # cs) = c # cs"
    by (simp add: lstrip_def)
  have "\<exists>ds. strip (c # cs) = c # ds"
  proof -
    have "dropWhile is_space (rev cs @ [c]) \<noteq> []"
      using c by simp
    moreover have "last (dropWhile is_space (rev cs @ [c])) = c"
      using c dropWhile_last[of c "rev cs @ [c]" is_space] by simp
    ultimately have "hd (strip (c # cs)) = c \<and> strip (c # cs) \<noteq> []"
      by (simp add: strip_def rstrip_def l hd_rev)
    then show ?thesis
      by (metis list.exhaust_sel)
  qed
  then show ?thesis
    using assms(2) c by (auto simp: py_int_def Let_def split: if_splits)
qed

lemma item_seq_nonneg: "fnmatchcase name item_glob \<Longrightarrow> seq_of name = Inr n \<Longrightarrow> 0 \<le> n"
proof -
  assume m: "fnmatchcase name item_glob" and n: "seq_of name = Inr n"
  obtain c cs where name: "name = c # cs" "citem_matches c (Range CHR ''0'' CHR ''9'')"
    using m by (auto simp: fnmatchcase_def item_glob_tokens split: list.splits)
  then have d: "is_digit c"
    by (simp add: is_digit_def citem_matches_def Let_def)
  then have "before_char CHR ''-'' name = c # before_char CHR ''-'' cs"
    using name(1) digit_not_sign[OF d] by (simp add: before_char_def)
  then show ?thesis
    using n py_int_nonneg[OF d] by (simp add: seq_of_def split: option.splits)
qed

lemma keyed_nonneg: "keyed fs = Inr kfs \<Longrightarrow> k \<in> set kfs \<Longrightarrow> 0 \<le> fst k"
proof -
  assume k: "keyed fs = Inr kfs" "k \<in> set kfs"
  then obtain f where f: "f \<in> set (item_files fs)" "bindR (seq_of (fst f)) (\<lambda>n. Inr (n, f)) = Inr k"
    unfolding keyed_def by (meson mapR_Inr_mem)
  then show ?thesis
    using item_seq_nonneg by (auto simp: item_files_def bindR_Inr_iff)
qed

lemma next_seq_fresh:
  assumes "keyed fs = Inr kfs" "next_seq fs = Inr n"
  shows "0 \<le> n \<and> (\<forall>k\<in>set kfs. fst k < n)"
proof -
  have n: "n = (if kfs = [] then 0 else Max (fst ` set kfs)) + 1"
    using assms keyed_seqs[OF assms(1)] by (auto simp: next_seq_def)
  have less: "fst k < n" if k: "k \<in> set kfs" for k
    using Max_ge[of "fst ` set kfs" "fst k"] n k by (cases kfs) auto
  have "0 \<le> n"
  proof (cases kfs)
    case (Cons k ks)
    then show ?thesis
      using less[of k] keyed_nonneg[OF assms(1), of k] by simp
  qed (simp add: n)
  then show ?thesis
    using less by blast
qed

text \<open>The library writes the payload on one line of ASCII and reads it back.\<close>

definition payload_ok :: "jsonl_lib \<Rightarrow> json \<Rightarrow> bool" where
  "payload_ok jl v =
     (jl_load jl (jl_dump jl v @ [CHR 0x0A]) = Some v \<and> CHR 0x0D \<notin> set (jl_dump jl v))"

lemma load_new_item:
  assumes "payload_ok jl (item_payload t now skip base)"
  shows "load_item jl (name, utf8_encode (jl_dump jl (item_payload t now skip base) @ [CHR 0x0A])) =
           Inr \<lparr>qi_name = name, qi_task = t, qi_enqueued = now, qi_skip = skip, qi_base = base\<rparr>"
proof -
  have "CHR 0x0D \<notin> set (jl_dump jl (item_payload t now skip base) @ [CHR 0x0A])"
    using assms by (simp add: payload_ok_def)
  from decode_text_plain[OF this] show ?thesis
    using assms by (cases base)
      (simp_all add: load_item_def item_of_def payload_ok_def item_payload_def dsub_def dget_or_def)
qed

lemma new_name_absent:
  assumes "items jl fs = Inr its" "next_seq fs = Inr n" "length (seq_text n) \<le> 4300"
  shows "item_name n task_id \<notin> fst ` set fs"
proof
  let ?name = "item_name n task_id"
  obtain kfs where k: "keyed fs = Inr kfs"
    using assms(1) by (auto simp: items_keyed bindR_Inr_iff)
  have seq: "seq_of ?name = Inr n" and less: "\<forall>k\<in>set kfs. fst k < n"
    using next_seq_fresh[OF k assms(2)] seq_of_item_name[OF _ assms(3)] by simp_all
  assume "?name \<in> fst ` set fs"
  then obtain b where "(?name, b) \<in> set (item_files fs)"
    using item_name_matches[of n task_id] by (auto simp: item_files_def)
  then have "(?name, b) \<in> snd ` set kfs"
    using keyed_seqs[OF k] by (metis list.set_map)
  then obtain i where i: "(i, ?name, b) \<in> set kfs"
    by auto
  then obtain f where "bindR (seq_of (fst f)) (\<lambda>n. Inr (n, f)) = Inr (i, ?name, b)"
    using k unfolding keyed_def by (meson mapR_Inr_mem)
  then have "i = n"
    using seq by (auto simp: bindR_Inr_iff)
  then show False
    using less i by fastforce
qed

lemma update_new: "k \<notin> fst ` set fs \<Longrightarrow> AList.update k v fs = fs @ [(k, v)]"
  by (induction fs) auto

text \<open>What \<open>enqueue\<close> adds, without the lock.\<close>

lemma enqueue_held_appends:
  assumes its: "items jl (tq_files q) = Inr its" and n: "next_seq (tq_files q) = Inr n"
    and fresh: "task_id \<notin> qi_task ` set its" and fits: "length (seq_text n) \<le> 4300" "CHR ''/'' \<notin> set task_id"
    and ok: "payload_ok jl (item_payload task_id now skip base)"
  shows "\<exists>it fs'. enqueue_held jl now task_id skip base q = (Inr it, q\<lparr>tq_files := fs'\<rparr>)
           \<and> it = \<lparr>qi_name = item_name n task_id, qi_task = task_id, qi_enqueued = now, qi_skip = skip, qi_base = base\<rparr>
           \<and> fs' = tq_files q @ [(item_name n task_id, utf8_encode (jl_dump jl (item_payload task_id now skip base) @ [CHR 0x0A]))]
           \<and> items jl fs' = Inr (its @ [it])"
proof -
  let ?fs = "tq_files q" and ?name = "item_name n task_id"
  let ?bytes = "utf8_encode (jl_dump jl (item_payload task_id now skip base) @ [CHR 0x0A])"
  let ?it = "\<lparr>qi_name = ?name, qi_task = task_id, qi_enqueued = now, qi_skip = skip, qi_base = base\<rparr>"
  obtain kfs where k: "keyed ?fs = Inr kfs" and l: "mapR (load_item jl) (map snd (sort_key fst kfs)) = Inr its"
    using its by (auto simp: items_keyed bindR_Inr_iff)
  have nn: "0 \<le> n" and less: "\<forall>k\<in>set kfs. fst k < n"
    using next_seq_fresh[OF k n] by simp_all
  have seq: "seq_of ?name = Inr n"
    by (rule seq_of_item_name[OF nn fits(1)])
  have new: "?name \<notin> fst ` set ?fs"
    by (rule new_name_absent[OF its n fits(1)])
  have upd: "AList.update ?name ?bytes ?fs = ?fs @ [(?name, ?bytes)]"
    using new by (rule update_new)
  have "keyed (?fs @ [(?name, ?bytes)]) = Inr (kfs @ [(n, ?name, ?bytes)])"
    using k seq item_name_matches[of n task_id] by (simp add: keyed_def item_files_def mapR_append)
  moreover have "sort_key fst (kfs @ [(n, ?name, ?bytes)]) = sort_key fst kfs @ [(n, ?name, ?bytes)]"
    using less by (intro sort_key_snoc) auto
  ultimately have "items jl (?fs @ [(?name, ?bytes)]) = Inr (its @ [?it])"
    using l load_new_item[OF ok, of ?name] by (simp add: items_keyed mapR_append)
  moreover have "enqueue_held jl now task_id skip base q = (Inr ?it, q\<lparr>tq_files := ?fs @ [(?name, ?bytes)]\<rparr>)"
    using its n fresh fits(2) upd by (auto simp: enqueue_held_def bindP_def thenP_def prog_defs Let_def)
  ultimately show ?thesis
    by blast
qed

lemma mapR_filter:
  "mapR f xs = Inr ys \<Longrightarrow> (\<And>x y. f x = Inr y \<Longrightarrow> P x = Q y) \<Longrightarrow> mapR f (filter P xs) = Inr (filter Q ys)"
  by (induction xs arbitrary: ys) (auto simp: bindR_Inr_iff)

lemma item_of_name: "item_of name e = Inr it \<Longrightarrow> qi_name it = name"
  by (auto simp: item_of_def bindR_Inr_iff)

lemma load_item_name:
  assumes "load_item jl f = Inr it"
  shows "qi_name it = fst f"
proof -
  obtain t where t: "(case jl_load jl t of None \<Rightarrow> Inl ValueError | Some (JObj e) \<Rightarrow> item_of (fst f) e
      | Some _ \<Rightarrow> Inl AttributeError) = Inr it"
    using assms unfolding load_item_def bindR_Inr_iff by blast
  then show ?thesis
  proof (cases "jl_load jl t")
    case (Some v)
    then show ?thesis
      using t item_of_name by (cases v) simp_all
  qed simp
qed

lemma items_delete:
  assumes "items jl fs = Inr its"
  shows "items jl (AList.delete name fs) = Inr (filter (\<lambda>it. qi_name it \<noteq> name) its)"
proof -
  let ?P = "\<lambda>k :: int \<times> string \<times> string. fst (snd k) \<noteq> name"
  obtain kfs where k: "keyed fs = Inr kfs" and l: "mapR (load_item jl) (map snd (sort_key fst kfs)) = Inr its"
    using assms by (auto simp: items_keyed bindR_Inr_iff)
  have "item_files (AList.delete name fs) = filter (\<lambda>f. fst f \<noteq> name) (item_files fs)"
    by (auto simp: item_files_def AList.delete_eq filter_filter intro!: filter_cong)
  then have "keyed (AList.delete name fs) = Inr (filter ?P kfs)"
    using k mapR_filter[of "\<lambda>f. bindR (seq_of (fst f)) (\<lambda>n. Inr (n, f))" "item_files fs" kfs "\<lambda>f. fst f \<noteq> name" ?P] by (auto simp: keyed_def bindR_Inr_iff)
  moreover have "map snd (sort_key fst (filter ?P kfs)) = filter (\<lambda>f. fst f \<noteq> name) (map snd (sort_key fst kfs))"
    by (simp add: filter_sort[symmetric] filter_map o_def)
  ultimately show ?thesis
    using mapR_filter[OF l, of "\<lambda>f. fst f \<noteq> name" "\<lambda>it. qi_name it \<noteq> name"] load_item_name
    by (simp add: items_keyed)
qed

lemma item_names_distinct:
  assumes "items jl fs = Inr its" "distinct (map fst fs)"
  shows "distinct (map qi_name its)"
proof -
  obtain kfs where k: "keyed fs = Inr kfs" and l: "mapR (load_item jl) (map snd (sort_key fst kfs)) = Inr its"
    using assms by (auto simp: items_keyed bindR_Inr_iff)
  have names: "mapR (load_item jl) xs = Inr ys \<Longrightarrow> map qi_name ys = map fst xs" for xs ys
    by (induction xs arbitrary: ys) (auto simp: bindR_Inr_iff load_item_name)
  have "distinct (map fst (item_files fs))"
    using assms(2) by (simp add: item_files_def distinct_map_filter)
  then have "distinct (map (fst \<circ> snd) kfs)"
    using keyed_seqs[OF k] by (metis map_map)
  then have "distinct (map (fst \<circ> snd) (sort_key fst kfs))"
    by (metis distinct_map distinct_sort set_sort)
  then show ?thesis
    using names[OF l] by simp
qed

section \<open>The queue as a first-in-first-out queue\<close>

locale fifo_queue =
  fixes inv :: "'q \<Rightarrow> bool" and contents :: "'q \<Rightarrow> 'i list" and fits :: "'x \<Rightarrow> 'q \<Rightarrow> bool"
    and enq :: "'x \<Rightarrow> 'q \<Rightarrow> ('i \<times> 'q) option" and deq :: "'q \<Rightarrow> 'q"
  assumes enq_law: "inv q \<Longrightarrow> fits x q \<Longrightarrow> \<exists>i q'. enq x q = Some (i, q') \<and> inv q' \<and> contents q' = contents q @ [i]"
    and deq_law: "inv q \<Longrightarrow> contents q = i # rest \<Longrightarrow> inv (deq q) \<and> contents (deq q) = rest"
begin

lemma deq_many: "inv q \<Longrightarrow> contents q = front @ rest \<Longrightarrow> inv ((deq ^^ length front) q) \<and> contents ((deq ^^ length front) q) = rest"
proof (induction front arbitrary: q)
  case (Cons i front)
  then show ?case
    using deq_law[of q i "front @ rest"] Cons.IH[of "deq q"] by (simp add: funpow_swap1)
qed simp

lemma enq_comes_out_last:
  "inv q \<Longrightarrow> fits x q \<Longrightarrow>
   \<exists>i q'. enq x q = Some (i, q') \<and> contents q' = contents q @ [i] \<and> contents ((deq ^^ length (contents q)) q') = [i]"
  using enq_law deq_many by metis

end

definition queue_items :: "jsonl_lib \<Rightarrow> taskq \<Rightarrow> queue_item list" where
  "queue_items jl q = (case items jl (tq_files q) of Inr its \<Rightarrow> its | Inl _ \<Rightarrow> [])"

definition queue_inv :: "jsonl_lib \<Rightarrow> taskq \<Rightarrow> bool" where
  "queue_inv jl q = (distinct (map fst (tq_files q)) \<and> is_ok (items jl (tq_files q)))"

text \<open>
  What an \<open>enqueue\<close> needs: the lock is free or stale, the task is new and names a file, and the library
  prints and reads its payload.
\<close>

definition enqueue_fits ::
  "jsonl_lib \<Rightarrow> (int \<Rightarrow> kill_result) \<Rightarrow> int \<Rightarrow> string \<Rightarrow> string \<times> bool \<times> string option \<Rightarrow> taskq \<Rightarrow> bool" where
  "enqueue_fits jl kill me now x q = (case x of (task_id, skip, base) \<Rightarrow>
     is_ok (acquire_lock kill me ''queue'' (tq_lock q)) \<and> task_id \<notin> qi_task ` set (queue_items jl q)
     \<and> (case next_seq (tq_files q) of Inr n \<Rightarrow> length (seq_text n) \<le> 4300 | Inl _ \<Rightarrow> False)
     \<and> CHR ''/'' \<notin> set task_id \<and> payload_ok jl (item_payload task_id now skip base))"

definition enqueue_some ::
  "jsonl_lib \<Rightarrow> (int \<Rightarrow> kill_result) \<Rightarrow> int \<Rightarrow> string \<Rightarrow> string \<times> bool \<times> string option \<Rightarrow> taskq \<Rightarrow>
   (queue_item \<times> taskq) option" where
  "enqueue_some jl kill me now x q = (case x of (task_id, skip, base) \<Rightarrow>
     (case enqueue jl kill me now task_id skip base q of (Inr it, q') \<Rightarrow> Some (it, q') | (Inl _, _) \<Rightarrow> None))"

definition remove_first :: "jsonl_lib \<Rightarrow> taskq \<Rightarrow> taskq" where
  "remove_first jl q = snd (remove_item (hd (queue_items jl q)) q)"

lemma enqueue_appends:
  assumes "queue_inv jl q" "enqueue_fits jl kill me now (task_id, skip, base) q"
  shows "\<exists>it q'. enqueue jl kill me now task_id skip base q = (Inr it, q') \<and> queue_inv jl q' \<and> tq_lock q' = NoLock
           \<and> queue_items jl q' = queue_items jl q @ [it] \<and> qi_task it = task_id \<and> qi_base it = base"
proof -
  obtain its n l where its: "items jl (tq_files q) = Inr its" and n: "next_seq (tq_files q) = Inr n"
    and l: "acquire_lock kill me ''queue'' (tq_lock q) = Inr l"
    using assms by (auto simp: queue_inv_def enqueue_fits_def is_ok_iff split: sum.splits)
  let ?q = "q\<lparr>tq_lock := l\<rparr>"
  let ?new = "(item_name n task_id, utf8_encode (jl_dump jl (item_payload task_id now skip base) @ [CHR 0x0A]))"
  have fresh: "task_id \<notin> qi_task ` set its" "length (seq_text n) \<le> 4300" "CHR ''/'' \<notin> set task_id"
    "payload_ok jl (item_payload task_id now skip base)"
    using assms(2) its n by (simp_all add: enqueue_fits_def queue_items_def)
  obtain it where it: "enqueue_held jl now task_id skip base ?q = (Inr it, ?q\<lparr>tq_files := tq_files q @ [?new]\<rparr>)"
    "qi_task it = task_id" "qi_base it = base" "items jl (tq_files q @ [?new]) = Inr (its @ [it])" "qi_name it = fst ?new"
    using enqueue_held_appends[of jl ?q its n task_id now skip base] its n fresh by auto
  let ?q' = "q\<lparr>tq_lock := NoLock, tq_files := tq_files q @ [?new]\<rparr>"
  have run: "enqueue jl kill me now task_id skip base q = (Inr it, ?q')"
    using l it(1) by (simp add: enqueue_def queue_lock_def with_lock_def)
  have "item_name n task_id \<notin> fst ` set (tq_files q)"
    using new_name_absent[OF its n fresh(2)] .
  then have "queue_inv jl ?q'"
    using assms(1) it(4) by (simp add: queue_inv_def)
  then show ?thesis
    using run it its by (intro exI[of _ it] exI[of _ ?q']) (simp add: queue_items_def)
qed

interpretation task_fifo: fifo_queue "queue_inv jl" "queue_items jl" "enqueue_fits jl kill me now"
    "enqueue_some jl kill me now" "remove_first jl" for jl kill me now
proof
  fix q x
  assume "queue_inv jl q" "enqueue_fits jl kill me now x q"
  then show "\<exists>i q'. enqueue_some jl kill me now x q = Some (i, q') \<and> queue_inv jl q' \<and> queue_items jl q' = queue_items jl q @ [i]"
    using enqueue_appends by (cases x) (fastforce simp: enqueue_some_def)
next
  fix q i rest
  assume inv: "queue_inv jl q" and its: "queue_items jl q = i # rest"
  then have ok: "items jl (tq_files q) = Inr (i # rest)"
    by (auto simp: queue_inv_def queue_items_def is_ok_iff)
  then have "qi_name i \<notin> qi_name ` set rest"
    using item_names_distinct[OF ok] inv by (simp add: queue_inv_def)
  then have "\<forall>it\<in>set rest. qi_name it \<noteq> qi_name i"
    by (metis imageI)
  then have "filter (\<lambda>it. qi_name it \<noteq> qi_name i) (i # rest) = rest"
    by simp
  then show "queue_inv jl (remove_first jl q) \<and> queue_items jl (remove_first jl q) = rest"
    using items_delete[OF ok, of "qi_name i"] inv its
    by (simp add: remove_first_def remove_item_def modifyP_def queue_inv_def queue_items_def distinct_delete)
qed

text \<open>
  C14: The queue is first in, first out, also when the previous holder of its lock crashed: enqueuing a new
  task succeeds, releases the lock and adds one item with the task and its chain base after all others;
  the item comes out after exactly the items that were queued before it; a task that is already queued is
  refused with \<open>QueueError\<close> and no file changes; and while a live process holds the lock nothing changes.
\<close>

theorem queue_is_fifo:
  assumes "queue_inv jl q"
  shows "(enqueue_fits jl kill me now (task_id, skip, base) q \<longrightarrow>
            (\<exists>it q'. enqueue jl kill me now task_id skip base q = (Inr it, q') \<and> tq_lock q' = NoLock
               \<and> queue_items jl q' = queue_items jl q @ [it] \<and> qi_task it = task_id \<and> qi_base it = base
               \<and> queue_items jl ((remove_first jl ^^ length (queue_items jl q)) q') = [it]))
       \<and> (is_ok (acquire_lock kill me ''queue'' (tq_lock q)) \<and> task_id \<in> qi_task ` set (queue_items jl q) \<longrightarrow>
            enqueue jl kill me now task_id skip base q =
              (Inl (QueueError (''task '' @ task_id @ '' is already queued'')), q\<lparr>tq_lock := NoLock\<rparr>))
       \<and> (acquire_lock kill me ''queue'' (tq_lock q) = Inl e \<longrightarrow>
            enqueue jl kill me now task_id skip base q = (Inl e, q))"
proof (intro conjI impI)
  assume fits: "enqueue_fits jl kill me now (task_id, skip, base) q"
  obtain it q' where it: "enqueue jl kill me now task_id skip base q = (Inr it, q')" "tq_lock q' = NoLock"
    "queue_items jl q' = queue_items jl q @ [it]" "qi_task it = task_id" "qi_base it = base"
    using enqueue_appends[OF assms fits] by blast
  moreover have "queue_items jl ((remove_first jl ^^ length (queue_items jl q)) q') = [it]"
    using task_fifo.enq_comes_out_last[OF assms fits] it(1) by (simp add: enqueue_some_def)
  ultimately show "\<exists>it q'. enqueue jl kill me now task_id skip base q = (Inr it, q') \<and> tq_lock q' = NoLock
               \<and> queue_items jl q' = queue_items jl q @ [it] \<and> qi_task it = task_id \<and> qi_base it = base
               \<and> queue_items jl ((remove_first jl ^^ length (queue_items jl q)) q') = [it]"
    by blast
next
  assume dup: "is_ok (acquire_lock kill me ''queue'' (tq_lock q)) \<and> task_id \<in> qi_task ` set (queue_items jl q)"
  then obtain l its where "acquire_lock kill me ''queue'' (tq_lock q) = Inr l" "items jl (tq_files q) = Inr its"
    using assms by (auto simp: is_ok_iff queue_inv_def)
  moreover from this(2) have "\<exists>it\<in>set its. qi_task it = task_id"
    using dup by (auto simp: queue_items_def)
  ultimately show "enqueue jl kill me now task_id skip base q =
              (Inl (QueueError (''task '' @ task_id @ '' is already queued'')), q\<lparr>tq_lock := NoLock\<rparr>)"
    by (auto simp: enqueue_def queue_lock_def with_lock_def enqueue_held_def bindP_def prog_defs)
next
  assume "acquire_lock kill me ''queue'' (tq_lock q) = Inl e"
  then show "enqueue jl kill me now task_id skip base q = (Inl e, q)"
    by (simp add: enqueue_def queue_lock_def with_lock_def)
qed

section \<open>Witness\<close>

text \<open>A queue with the task \<open>a\<close> and a lock left by a process that is gone.\<close>

definition demo_payload :: "string \<Rightarrow> string option \<Rightarrow> json" where
  "demo_payload t base = item_payload t ''now'' False base"

definition demo_queue_lib :: jsonl_lib where
  "demo_queue_lib = \<lparr>jl_dump = (\<lambda>v. if v = demo_payload ''a'' None then ''A'' else ''B''),
     jl_load = (\<lambda>s. if s = [CHR ''A'', CHR 0x0A] then Some (demo_payload ''a'' None)
                else Some (demo_payload ''b'' (Some ''a'')))\<rparr>"

definition demo_queue :: taskq where
  "demo_queue = \<lparr>tq_files = [(''0009-a.json'', [CHR ''A'', CHR 0x0A]), (''.lock'', [])], tq_lock = LockText (pid_text 8)\<rparr>"

definition demo_kill :: "int \<Rightarrow> kill_result" where
  "demo_kill p = (if p = 7 then KillOk else NoProcess)"

lemma demo_queue_inv: "queue_inv demo_queue_lib demo_queue"
  by code_simp

lemma demo_queue_fits: "enqueue_fits demo_queue_lib demo_kill 7 ''now'' (''b'', False, Some ''a'') demo_queue"
  by code_simp

lemma demo_queue_dup:
  "is_ok (acquire_lock demo_kill 7 ''queue'' (tq_lock demo_queue))" "''a'' \<in> qi_task ` set (queue_items demo_queue_lib demo_queue)"
  by code_simp+

theorem queue_is_fifo_witness:
  "(\<exists>it q'. enqueue demo_queue_lib demo_kill 7 ''now'' ''b'' False (Some ''a'') demo_queue = (Inr it, q')
       \<and> queue_items demo_queue_lib (remove_first demo_queue_lib q') = [it] \<and> qi_task it = ''b'')
   \<and> (\<exists>m. enqueue demo_queue_lib demo_kill 7 ''now'' ''a'' False None demo_queue =
        (Inl (QueueError m), demo_queue\<lparr>tq_lock := NoLock\<rparr>))"
proof -
  have one: "length (queue_items demo_queue_lib demo_queue) = Suc 0"
    by code_simp
  note fifo = queue_is_fifo[OF demo_queue_inv, of demo_kill 7 "''now''"]
  show ?thesis
    using fifo[of "''b''" False "Some ''a''", THEN conjunct1, THEN mp, OF demo_queue_fits]
      fifo[of "''a''" False None, THEN conjunct2, THEN conjunct1, THEN mp, OF conjI, OF demo_queue_dup]
    unfolding one by auto
qed

end
