(* ===== verification/Clarify.thy ===== *)
theory Clarify
  imports Agents
begin

text \<open>
  Model of \<open>src/orchestrator/clarify.py\<close>: an agent reads the spec and returns questions, the Director
  answers them, and the answers become a section of the spec. The agent, the Director, the spec file and
  the task log are operations on a state of their own. A broken clarify must not block a kickoff.
\<close>

definition clarify_prompt :: "string \<Rightarrow> string" where
  \<open>clarify_prompt rel =
     ''You are the clarify gate of an autonomous dev loop.\<newline>''
   @ ''\<newline>''
   @ ''Read the task spec at '' @ rel @ '' and inspect the repository code it\<newline>''
   @ ''touches. Identify questions that MUST be answered by the human Director\<newline>''
   @ ''before an autonomous implementation can start: ambiguous scope, missing\<newline>''
   @ ''acceptance criteria, product decisions, conflicting constraints.\<newline>''
   @ ''\<newline>''
   @ ''Do NOT ask about things the code or the spec already answers.\<newline>''
   @ ''If the spec is clear enough to implement, return an empty list.\<newline>''
   @ ''\<newline>''
   @ ''Output ONLY a JSON object, no other text:\<newline>''
   @ ''{"questions": ["...", "..."]}\<newline>''\<close>

definition max_questions :: nat where
  "max_questions = 10"

text \<open>A text the decoder rejects is \<open>ValueError\<close> here, the class \<open>JSONDecodeError\<close> is a subclass of.\<close>

definition not_questions :: exn where
  "not_questions =
     VerdictError (''clarify output must be {'' @ [CHR 0x22] @ ''questions'' @ [CHR 0x22] @ '': [...]}'')"

definition questions_of :: "json \<Rightarrow> exn + string list" where
  "questions_of payload = (case payload of
      JObj e \<Rightarrow> (case dget e ''questions'' of
          JArr qs \<Rightarrow>
            if list_all (\<lambda>q. as_str q \<noteq> None) qs then Inr (take max_questions (map the_str qs))
            else Inl (VerdictError ''clarify questions must be strings'')
        | _ \<Rightarrow> Inl not_questions)
    | _ \<Rightarrow> Inl not_questions)"

definition parse_questions :: "json_lib \<Rightarrow> string \<Rightarrow> exn + string list" where
  "parse_questions J txt' =
     bindR (extract_json J txt') (\<lambda>obj.
       case loads J obj of None \<Rightarrow> Inl ValueError | Some v \<Rightarrow> questions_of v)"

definition clarification_lines :: "(string \<times> string) list \<Rightarrow> string list" where
  "clarification_lines pairs =
     [[], ''## Clarifications'', []]
     @ concat (map (\<lambda>(i, q, a). [''**Q'' @ str_of_int (int i) @ '':** '' @ q, ''**A'' @ str_of_int (int i) @ '':** '' @ a, []])
         (zip [1..<Suc (length pairs)] pairs))"

definition append_clarifications :: "string \<Rightarrow> (string \<times> string) list \<Rightarrow> string" where
  "append_clarifications existing pairs = existing @ join [CHR 0x0A] (clarification_lines pairs)"

text \<open>The collaborators of the gate; the text of a decoder error.\<close>

record 's clarify_io =
  ci_run :: "'s runner"
  ci_ask :: "string \<Rightarrow> ('s, string) prog"
  ci_read_spec :: "('s, string) prog"
  ci_write_spec :: "string \<Rightarrow> ('s, unit) prog"
  ci_append :: "entry \<Rightarrow> ('s, unit) prog"
  ci_json :: json_lib
  ci_decode_error :: "string \<Rightarrow> string"

definition not_complete :: "nat \<Rightarrow> agent_result \<Rightarrow> string" where
  "not_complete attempt r =
     ''clarify run did not complete cleanly (attempt '' @ str_of_int (int attempt) @ ''): exit_reason=''
     @ repr_str (ar_exit r) @ '', rc='' @ str_of_int (ar_rc r)"

definition rerun_prompt :: "string \<Rightarrow> string" where
  "rerun_prompt rel =
     clarify_prompt rel @ [CHR 0x0A] @ ''Your previous run did not complete. Output ONLY the JSON object.''"

definition invalid_prompt :: "string \<Rightarrow> string \<Rightarrow> string" where
  "invalid_prompt rel err =
     clarify_prompt rel @ [CHR 0x0A] @ ''Your previous output was invalid: '' @ err @ [CHR 0x0A] @ ''Output ONLY the JSON object.''"

text \<open>
  The attempts, numbered from one: the questions, and the detail of the last attempt that failed.
\<close>

primrec clarify_attempts ::
  "'s clarify_io \<Rightarrow> string \<Rightarrow> nat \<Rightarrow> nat \<Rightarrow> string \<Rightarrow> string \<Rightarrow> ('s, string list \<times> string) prog" where
  "clarify_attempts io rel 0 attempt prompt detail = retP ([], detail)"
| "clarify_attempts io rel (Suc n) attempt prompt detail =
     bindP (ci_run io prompt None) (\<lambda>r.
       if ar_exit r \<noteq> ''ok'' then
         clarify_attempts io rel n (attempt + 1) (rerun_prompt rel) (not_complete attempt r)
       else
         (let malformed = (\<lambda>err. clarify_attempts io rel n (attempt + 1) (invalid_prompt rel err)
                (''malformed clarify output (attempt '' @ str_of_int (int attempt) @ ''): '' @ err))
          in case parse_questions (ci_json io) (ar_text r) of
               Inr qs \<Rightarrow> retP (qs, detail)
             | Inl (VerdictError m) \<Rightarrow> malformed m
             | Inl _ \<Rightarrow> malformed (ci_decode_error io (ar_text r))))"

primrec ask_all :: "'s clarify_io \<Rightarrow> string list \<Rightarrow> ('s, (string \<times> string) list) prog" where
  "ask_all io [] = retP []"
| "ask_all io (q # qs) =
     bindP (ci_ask io q) (\<lambda>a. bindP (ask_all io qs) (\<lambda>rest. retP ((q, a) # rest)))"

definition run_clarify_gate :: "'s clarify_io \<Rightarrow> string \<Rightarrow> ('s, nat) prog" where
  "run_clarify_gate io rel =
     bindP (clarify_attempts io rel 2 1 (clarify_prompt rel) []) (\<lambda>(questions, detail).
       if questions = [] then
         thenP (ci_append io [(''action'', JStr ''clarify''), (''outcome'', JStr ''no_questions''), (''detail'', JStr detail)])
           (retP 0)
       else
         bindP (ask_all io questions) (\<lambda>pairs.
         bindP (ci_read_spec io) (\<lambda>existing.
           thenP (ci_write_spec io (append_clarifications existing pairs))
          (thenP (ci_append io [(''action'', JStr ''clarify''), (''outcome'', JStr ''answered''),
                    (''questions'', JInt (int (length pairs)))])
             (retP (length pairs))))))"

definition has_clarify :: "entry list \<Rightarrow> bool" where
  "has_clarify entries = list_ex (\<lambda>e. dget e ''action'' = JStr ''clarify'') entries"

section \<open>A broken clarify never blocks\<close>

lemma questions_of_bound: "questions_of v = Inr qs \<Longrightarrow> length qs \<le> max_questions"
proof (cases v)
  case (JObj e)
  assume "questions_of v = Inr qs"
  then show ?thesis
    using JObj by (cases "dget e ''questions''") (auto simp: questions_of_def split: if_splits)
qed (simp_all add: questions_of_def)

lemma parse_questions_bound: "parse_questions J t = Inr qs \<Longrightarrow> length qs \<le> max_questions"
  using questions_of_bound by (auto simp: parse_questions_def bindR_Inr_iff split: option.splits)

text \<open>Collaborators that return.\<close>

definition answering :: "'s clarify_io \<Rightarrow> bool" where
  "answering io =
     ((\<forall>p q s. is_ok (fst (ci_run io p q s))) \<and> (\<forall>q s. is_ok (fst (ci_ask io q s)))
      \<and> (\<forall>s. is_ok (fst (ci_read_spec io s))) \<and> (\<forall>t s. is_ok (fst (ci_write_spec io t s)))
      \<and> (\<forall>e s. is_ok (fst (ci_append io e s))))"

lemma okE: "is_ok (fst (m s)) \<Longrightarrow> (\<And>a t. m s = (Inr a, t) \<Longrightarrow> P) \<Longrightarrow> P"
  by (cases "m s") (auto simp: is_ok_iff)

lemma attempts_return:
  assumes "answering io"
  shows "\<exists>qs d t. clarify_attempts io rel n k p d0 s = (Inr (qs, d), t) \<and> length qs \<le> max_questions"
proof (induction n arbitrary: k p d0 s)
  case 0
  then show ?case by (simp add: retP_def)
next
  case (Suc n)
  have "is_ok (fst (ci_run io p None s))"
    using assms by (simp add: answering_def)
  then obtain r t where r: "ci_run io p None s = (Inr r, t)"
    by (rule okE)
  show ?case
  proof (cases "ar_exit r = ''ok''")
    case False
    then show ?thesis
      using r Suc.IH by (simp add: bindP_def)
  next
    case True
    then show ?thesis
      using r Suc.IH parse_questions_bound[of "ci_json io" "ar_text r"]
      by (cases "parse_questions (ci_json io) (ar_text r)")
        (auto simp: bindP_def retP_def Let_def split: exn.split)
  qed
qed

lemma ask_all_returns: "answering io \<Longrightarrow> \<exists>ps t. ask_all io qs s = (Inr ps, t) \<and> length ps = length qs"
proof (induction qs arbitrary: s)
  case (Cons q qs)
  then have "is_ok (fst (ci_ask io q s))"
    by (simp add: answering_def)
  then obtain a t where a: "ci_ask io q s = (Inr a, t)"
    by (rule okE)
  then show ?case
    using Cons.IH[OF Cons.prems, of t] by (auto simp: bindP_def retP_def)
qed (simp add: retP_def)

text \<open>
  A broken clarify gate never blocks a kickoff: when the agent's runs, the Director's answers and the
  files do not raise, the gate returns, after at most two runs, with at most ten questions, whatever the
  agent printed; and when every run failed (timed out, quota, error) no question is asked and the spec is
  not touched, even if a failed run printed well-formed questions.
\<close>

theorem clarify_never_blocks:
  assumes "answering io"
  shows "(\<exists>n t. run_clarify_gate io rel s = (Inr n, t) \<and> n \<le> max_questions)
       \<and> ((\<forall>p q s r t. ci_run io p q s = (Inr r, t) \<longrightarrow> ar_exit r \<noteq> ''ok'') \<longrightarrow>
           run_clarify_gate io rel s =
             bindP (clarify_attempts io rel 2 1 (clarify_prompt rel) []) (\<lambda>(_, detail).
               thenP (ci_append io [(''action'', JStr ''clarify''), (''outcome'', JStr ''no_questions''), (''detail'', JStr detail)])
                 (retP 0)) s)"
proof (intro conjI impI)
  obtain qs d t where qs: "clarify_attempts io rel 2 1 (clarify_prompt rel) [] s = (Inr (qs, d), t)"
    "length qs \<le> max_questions"
    using attempts_return[OF assms] by metis
  show "\<exists>n t. run_clarify_gate io rel s = (Inr n, t) \<and> n \<le> max_questions"
  proof (cases "qs = []")
    case True
    let ?e = "[(''action'', JStr ''clarify''), (''outcome'', JStr ''no_questions''), (''detail'', JStr d)]"
    have "is_ok (fst (ci_append io ?e t))"
      using assms by (simp add: answering_def)
    then obtain x u where "ci_append io ?e t = (Inr x, u)"
      by (rule okE)
    then show ?thesis
      using qs(1) True by (simp add: run_clarify_gate_def bindP_def thenP_def retP_def)
  next
    case False
    obtain ps t1 where ps: "ask_all io qs t = (Inr ps, t1)" "length ps = length qs"
      using ask_all_returns[OF assms] by metis
    have "is_ok (fst (ci_read_spec io t1))"
      using assms by (simp add: answering_def)
    then obtain ex t2 where ex: "ci_read_spec io t1 = (Inr ex, t2)"
      by (rule okE)
    have "is_ok (fst (ci_write_spec io (append_clarifications ex ps) t2))"
      using assms by (simp add: answering_def)
    then obtain y t3 where y: "ci_write_spec io (append_clarifications ex ps) t2 = (Inr y, t3)"
      by (rule okE)
    let ?e = "[(''action'', JStr ''clarify''), (''outcome'', JStr ''answered''), (''questions'', JInt (int (length ps)))]"
    have "is_ok (fst (ci_append io ?e t3))"
      using assms by (simp add: answering_def)
    then obtain x u where "ci_append io ?e t3 = (Inr x, u)"
      by (rule okE)
    then show ?thesis
      using qs False ps ex y by (simp add: run_clarify_gate_def bindP_def thenP_def retP_def)
  qed
next
  assume fail: "\<forall>p q s r t. ci_run io p q s = (Inr r, t) \<longrightarrow> ar_exit r \<noteq> ''ok''"
  have none: "clarify_attempts io rel n k p d0 s = (Inr (qs, d), t) \<Longrightarrow> qs = []" for n k p d0 s qs d t
  proof (induction n arbitrary: k p d0 s)
    case (Suc n)
    obtain a ta where a: "ci_run io p None s = (Inr a, ta)"
      using Suc.prems by (auto simp: bindP_Inr_iff)
    then have "ar_exit a \<noteq> ''ok''"
      using fail by blast
    then show ?case
      using Suc.IH Suc.prems a by (simp add: bindP_def)
  qed (simp add: retP_def)
  show "run_clarify_gate io rel s =
      bindP (clarify_attempts io rel 2 1 (clarify_prompt rel) []) (\<lambda>(_, detail).
        thenP (ci_append io [(''action'', JStr ''clarify''), (''outcome'', JStr ''no_questions''), (''detail'', JStr detail)])
          (retP 0)) s"
    unfolding run_clarify_gate_def using none by (intro bindP_cong) auto
qed

section \<open>Witness\<close>

text \<open>An agent that times out with a question on its lips.\<close>

definition demo_clarify :: "nat clarify_io" where
  "demo_clarify = \<lparr>ci_run = (\<lambda>_ _. retP \<lparr>ar_text = ''{}'', ar_session = None, ar_exit = ''timeout'', ar_rc = 1, ar_reset_at = None\<rparr>),
     ci_ask = (\<lambda>_. retP ''yes''), ci_read_spec = retP [], ci_write_spec = (\<lambda>_. retP ()), ci_append = (\<lambda>_. modifyP Suc),
     ci_json = \<lparr>loads = (\<lambda>_. None), object_span = (\<lambda>_. None), dumps = (\<lambda>_. []), dumps_raw = (\<lambda>_. [])\<rparr>, ci_decode_error = (\<lambda>_. [])\<rparr>"

theorem clarify_never_blocks_witness:
  "\<exists>t. run_clarify_gate demo_clarify ''s.md'' 0 = (Inr 0, t)"
proof -
  have a: "answering demo_clarify"
    by (simp add: answering_def demo_clarify_def prog_defs)
  have f: "\<forall>p q s r t. ci_run demo_clarify p q s = (Inr r, t) \<longrightarrow> ar_exit r \<noteq> ''ok''"
    by (auto simp: demo_clarify_def prog_defs)
  show ?thesis
    using clarify_never_blocks[OF a, of "''s.md''" 0] f attempts_return[OF a, of "''s.md''" 2 1 "clarify_prompt ''s.md''" "[]" 0]
    by (auto simp: bindP_def thenP_def demo_clarify_def prog_defs)
qed

end
