(* ===== verification/Cli_Node.thy ===== *)
theory Cli_Node
  imports Loop_Run Loop_Theorems Task_Queue Clarify Gitops
begin

text \<open>
  The machine the command line of \<open>src/orchestrator/run.py\<close> acts on, and its building blocks: the
  worktrees of the tasks with their logs and artifacts, the queue and the run locks, and the
  collaborators (git, the Director, the agents, the process table).

  Everything outside the logs, the artifacts, the queue and the locks is one abstract environment.
  Operations of git may change a task's log, since the log is a file of the branch. The trace records
  what the commands do to a task: log entries, commits, pushes, resets, the start of its loop and the
  effects of it, and the exit code the queue runner reports. What a command prints is not modelled
  otherwise, except for the commands that only report.
\<close>

section \<open>State\<close>

record 'e wtree =
  tr_env :: 'e
  tr_log :: "string \<Rightarrow> entry list"
  tr_files :: "string \<Rightarrow> string \<Rightarrow> string option"

datatype cli_event =
    DidAppend string entry
  | DidCommit string string
  | DidPush string
  | DidSync string
  | DidWriteSpec string
  | DidRun string
  | DidFinish string int
  | TaskEvent string event

record 'e machine =
  nd_tree :: "'e wtree"
  nd_queue :: taskq
  nd_locks :: "string \<Rightarrow> lock_file"
  nd_trace :: "cli_event list"

text \<open>The checkout a spec is read from: the clone of the default branch, or a task's worktree.\<close>

datatype root = BaseClone | TaskTree string

record 'e deps =
  dp_worktree :: "string \<Rightarrow> string option \<Rightarrow> ('e wtree, unit) prog"
  dp_refresh :: "('e wtree, unit) prog"
  dp_ensure_base :: "('e wtree, unit) prog"
  dp_chain_ok :: "string \<Rightarrow> string \<Rightarrow> ('e wtree, bool) prog"
  dp_sync :: "string \<Rightarrow> ('e wtree, unit) prog"
  dp_commit :: "string \<Rightarrow> string \<Rightarrow> ('e wtree, unit) prog"
  dp_push :: "string \<Rightarrow> ('e wtree, unit) prog"
  dp_fetch :: "string \<Rightarrow> ('e wtree, unit) prog"
  dp_hub_spec :: "string \<Rightarrow> ('e wtree, string option) prog"
  dp_changed :: "string \<Rightarrow> ('e wtree, string list) prog"
  dp_spec_sha :: "string \<Rightarrow> ('e wtree, string) prog"
  dp_present :: "string \<Rightarrow> 'e wtree \<Rightarrow> bool"
  dp_is_dir :: "string \<Rightarrow> 'e wtree \<Rightarrow> bool"
  dp_worktrees :: "'e wtree \<Rightarrow> string list"
  dp_spec :: "root \<Rightarrow> string \<Rightarrow> 'e wtree \<Rightarrow> string option"
  dp_specs :: "'e wtree \<Rightarrow> string list"
  dp_write_spec :: "string \<Rightarrow> string \<Rightarrow> ('e wtree, unit) prog"
  dp_copy_spec :: "string \<Rightarrow> ('e wtree, unit) prog"
  dp_policy :: "root \<Rightarrow> ('e wtree, target_policy) prog"
  dp_log_fault :: "string \<Rightarrow> 'e wtree \<Rightarrow> exn option"
  dp_write_fault :: "string \<Rightarrow> string \<Rightarrow> 'e wtree \<Rightarrow> exn option"
  dp_now :: "'e wtree \<Rightarrow> json"
  dp_ask :: "string \<Rightarrow> ('e wtree, string) prog"
  dp_author :: "string \<Rightarrow> string option \<Rightarrow> ('e wtree, unit) prog"
  dp_clarify :: "string \<Rightarrow> 'e wtree runner"
  dp_decode_error :: "string \<Rightarrow> string"
  dp_kill :: "'e \<Rightarrow> int \<Rightarrow> kill_result"
  dp_pid :: int
  dp_jsonl :: jsonl_lib
  dp_queue_now :: "'e \<Rightarrow> string"
  dp_collab :: "string \<Rightarrow> 'e collab"

text \<open>The knobs of the configuration a run of the loop gets.\<close>

record cli_config =
  cc_max_loops :: int
  cc_fast_commands :: string
  cc_setup_commands :: string
  cc_quota :: quota_policy

section \<open>Primitives\<close>

definition treeP :: "('e wtree, 'a) prog \<Rightarrow> ('e machine, 'a) prog" where
  "treeP m n = (case m (nd_tree n) of (r, t) \<Rightarrow> (r, n\<lparr>nd_tree := t\<rparr>))"

definition askT :: "('e wtree \<Rightarrow> 'a) \<Rightarrow> ('e machine, 'a) prog" where
  "askT f = getP (\<lambda>n. f (nd_tree n))"

definition did :: "cli_event \<Rightarrow> ('e machine, unit) prog" where
  "did ev = modifyP (\<lambda>n. n\<lparr>nd_trace := nd_trace n @ [ev]\<rparr>)"

definition raises :: "exn option \<Rightarrow> ('s, unit) prog" where
  "raises x = (case x of Some e \<Rightarrow> throwP e | None \<Rightarrow> retP ())"

definition read_task_log :: "'e deps \<Rightarrow> string \<Rightarrow> ('e machine, entry list) prog" where
  "read_task_log d t = bindP (askT (dp_log_fault d t)) (\<lambda>x. thenP (raises x) (askT (\<lambda>tr. tr_log tr t)))"

definition append_task :: "'e deps \<Rightarrow> string \<Rightarrow> entry \<Rightarrow> ('e machine, unit) prog" where
  "append_task d t flds =
     bindP (askT (dp_write_fault d t ''iteration-log.jsonl'')) (\<lambda>x.
     thenP (raises x)
    (bindP (askT (dp_now d)) (\<lambda>ts.
       let e = (''ts'', ts) # flds in
       thenP (modifyP (\<lambda>n. n\<lparr>nd_tree := (nd_tree n)\<lparr>tr_log := (tr_log (nd_tree n))(t := tr_log (nd_tree n) t @ [e])\<rparr>\<rparr>))
         (did (DidAppend t e)))))"

definition write_task_file :: "'e deps \<Rightarrow> string \<Rightarrow> string \<Rightarrow> string \<Rightarrow> ('e machine, unit) prog" where
  "write_task_file d t name txt' =
     bindP (askT (dp_write_fault d t name)) (\<lambda>x.
     thenP (raises x)
       (modifyP (\<lambda>n. n\<lparr>nd_tree := (nd_tree n)\<lparr>tr_files :=
          (tr_files (nd_tree n))(t := (tr_files (nd_tree n) t)(name \<mapsto> txt'))\<rparr>\<rparr>)))"

definition commit_task :: "'e deps \<Rightarrow> string \<Rightarrow> string \<Rightarrow> ('e machine, unit) prog" where
  "commit_task d t msg = thenP (did (DidCommit t msg)) (treeP (dp_commit d t msg))"

definition push_task :: "'e deps \<Rightarrow> string \<Rightarrow> ('e machine, unit) prog" where
  "push_task d t = thenP (did (DidPush t)) (treeP (dp_push d t))"

definition sync_task :: "'e deps \<Rightarrow> string \<Rightarrow> ('e machine, unit) prog" where
  "sync_task d t = thenP (did (DidSync t)) (treeP (dp_sync d t))"

definition write_spec :: "'e deps \<Rightarrow> string \<Rightarrow> string \<Rightarrow> ('e machine, unit) prog" where
  "write_spec d t txt' = thenP (did (DidWriteSpec t)) (treeP (dp_write_spec d t txt'))"

definition cli_spec_rel :: "string \<Rightarrow> string" where
  "cli_spec_rel t = ''.laddy/specs/'' @ t @ ''.md''"

text \<open>\<open>_local_task_log\<close>: the log of a worktree of this machine, or nothing.\<close>

definition local_task_log :: "'e deps \<Rightarrow> string \<Rightarrow> ('e machine, entry list) prog" where
  "local_task_log d t = bindP (askT (dp_is_dir d t)) (\<lambda>b. if b then read_task_log d t else retP [])"

section \<open>Specs\<close>

text \<open>
  \<open>_load_spec\<close> is a function of the files: the exit code 2, or the spec. Only a \<open>SpecError\<close> is caught, so
  that bytes which are not UTF-8 raise.
\<close>

definition spec_result :: "'e deps \<Rightarrow> root \<Rightarrow> string \<Rightarrow> 'e wtree \<Rightarrow> exn + (int + task_spec)" where
  "spec_result d r t tr =
     (case dp_spec d r t tr of
        None \<Rightarrow> Inr (Inl 2)
      | Some bytes \<Rightarrow>
          bindR (decode_text bytes) (\<lambda>txt'.
            case parse_spec_text txt' of
              Inl _ \<Rightarrow> Inr (Inl 2)
            | Inr spec \<Rightarrow> if is_draft spec then Inr (Inl 2) else Inr (Inr spec)))"

definition load_spec :: "'e deps \<Rightarrow> root \<Rightarrow> string \<Rightarrow> ('e machine, int + task_spec) prog" where
  "load_spec d r t = bindP (askT (spec_result d r t)) liftP"

definition spec_text :: "'e deps \<Rightarrow> root \<Rightarrow> string \<Rightarrow> 'e wtree \<Rightarrow> exn + string" where
  "spec_text d r t tr = (case dp_spec d r t tr of None \<Rightarrow> Inl OSError | Some bytes \<Rightarrow> decode_text bytes)"

definition design_approved :: "entry list \<Rightarrow> bool" where
  "design_approved es =
     list_ex (\<lambda>e. dget e ''action'' = JStr ''design'' \<and> dget e ''outcome'' = JStr ''approved'') es"

text \<open>Whether the design gate stops a task: a high-risk spec whose approval is not in the log.\<close>

definition unapproved :: "'e deps \<Rightarrow> root \<Rightarrow> string \<Rightarrow> task_spec \<Rightarrow> ('e machine, entry list) prog \<Rightarrow> ('e machine, bool) prog" where
  "unapproved d r t spec entries =
     bindP (bindP (askT (spec_text d r t)) liftP) (\<lambda>txt'.
     bindP (treeP (dp_policy d r)) (\<lambda>pol.
       if spec_is_high_risk pol txt' (spec_risk spec)
       then bindP entries (\<lambda>es. retP (\<not> design_approved es))
       else retP False))"

section \<open>The loop of one task\<close>

text \<open>\<open>_build_orchestrator\<close>: the roles of the spec decide which collaborators the loop has.\<close>

definition task_config :: "cli_config \<Rightarrow> string \<Rightarrow> task_spec \<Rightarrow> config" where
  "task_config cc t spec =
     \<lparr>cf_task = t, cf_max_loops = cc_max_loops cc, cf_fast_commands = cc_fast_commands cc,
      cf_setup_commands = cc_setup_commands cc, cf_composition = Some (spec_roles spec),
      cf_policy_enabled = True, cf_quota = Some (cc_quota cc)\<rparr>"

definition task_collab :: "'e deps \<Rightarrow> string \<Rightarrow> task_spec \<Rightarrow> 'e collab" where
  "task_collab d t spec =
     (let c = dp_collab d t; two = (''rw2'' \<in> set (spec_roles spec)) in
      c\<lparr>c_rw2 := (if two then c_rw2 c else None), c_senior := (if two then c_senior c else None),
        c_docker := (if report_only spec then None else c_docker c)\<rparr>)"

definition task_world :: "string \<Rightarrow> 'e wtree \<Rightarrow> 'e world" where
  "task_world t tr =
     \<lparr>w_env = tr_env tr, w_log = tr_log tr t, w_files = tr_files tr t, w_spent = 0, w_trace = []\<rparr>"

definition back_from :: "string \<Rightarrow> 'e world \<Rightarrow> 'e machine \<Rightarrow> 'e machine" where
  "back_from t w n =
     n\<lparr>nd_tree := (nd_tree n)\<lparr>tr_env := w_env w, tr_log := (tr_log (nd_tree n))(t := w_log w),
                              tr_files := (tr_files (nd_tree n))(t := w_files w)\<rparr>,
       nd_trace := nd_trace n @ map (TaskEvent t) (w_trace w)\<rparr>"

text \<open>
  The loop with the fuel that \<open>run_terminates\<close> shows to be enough; its other outcome does not occur
  (\<open>orchestrate_ends\<close>).
\<close>

definition orchestrate :: "cli_config \<Rightarrow> 'e deps \<Rightarrow> string \<Rightarrow> task_spec \<Rightarrow> ('e machine, string) prog" where
  "orchestrate cc d t spec =
     thenP (did (DidRun t)) (\<lambda>n.
       case Loop_Run.run (task_config cc t spec) (task_collab d t spec) (loop_fuel (cc_max_loops cc))
              (task_world t (nd_tree n)) of
         Some (r, w) \<Rightarrow> (r, back_from t w n)
       | None \<Rightarrow> (Inl (OtherError ''endless loop''), n))"

definition explore_task :: "cli_config \<Rightarrow> 'e deps \<Rightarrow> string \<Rightarrow> task_spec \<Rightarrow> ('e machine, string) prog" where
  "explore_task cc d t spec n =
     (case explore (task_config cc t spec) (task_collab d t spec) (task_world t (nd_tree n)) of
        (r, w) \<Rightarrow> (r, back_from t w n))"

text \<open>The container gate is built from the target's policy, for every task that is not report-only.\<close>

definition build_gate :: "'e deps \<Rightarrow> string \<Rightarrow> task_spec \<Rightarrow> ('e machine, unit) prog" where
  "build_gate d t spec =
     (if report_only spec then retP () else thenP (treeP (dp_policy d (TaskTree t))) (retP ()))"

section \<open>Facts\<close>

lemma orchestrate_ends:
  "\<exists>r w. Loop_Run.run (task_config cc t spec) c (loop_fuel (cc_max_loops cc)) w0 = Some (r, w)"
  using every_run_ends[of "task_config cc t spec" "loop_fuel (cc_max_loops cc)" c w0] by (simp add: task_config_def)

text \<open>Programs that leave the queue, the locks and the trace alone.\<close>

definition frame :: "'e machine \<Rightarrow> 'e machine \<Rightarrow> bool" where
  "frame n m = (nd_queue m = nd_queue n \<and> nd_locks m = nd_locks n \<and> nd_trace m = nd_trace n)"

lemma frame_refl [simp]: "frame n n"
  by (simp add: frame_def)

lemma frame_tree [simp]: "frame n (n\<lparr>nd_tree := t\<rparr>)"
  by (simp add: frame_def)

definition quiet :: "('e machine, 'a) prog \<Rightarrow> bool" where
  "quiet m = (\<forall>n. frame n (snd (m n)))"

named_theorems quiet_intros

lemma quietD: "quiet m \<Longrightarrow> m n = (r, n') \<Longrightarrow> frame n n'"
  unfolding quiet_def by (metis snd_conv)

lemma quiet_basic [quiet_intros]:
  "quiet (retP a)" "quiet (throwP e)" "quiet (liftP r)" "quiet (askT f)" "quiet (treeP m)" "quiet (raises x)"
  "quiet (getP g)"
  by (auto simp: quiet_def frame_def askT_def treeP_def raises_def prog_defs split: prod.split option.split)

lemma quiet_bind [quiet_intros]: "quiet m \<Longrightarrow> (\<And>a. quiet (f a)) \<Longrightarrow> quiet (bindP m f)"
  unfolding quiet_def frame_def bindP_def
  by (auto split: prod.split sum.split) (metis snd_conv)+

lemma quiet_then [quiet_intros]: "quiet m \<Longrightarrow> quiet k \<Longrightarrow> quiet (thenP m k)"
  unfolding thenP_def by (rule quiet_bind)

lemma quiet_catch [quiet_intros]: "quiet m \<Longrightarrow> (\<And>e. quiet (h e)) \<Longrightarrow> quiet (catchP m h)"
  unfolding quiet_def frame_def catchP_def
  by (auto split: prod.split sum.split) (metis snd_conv)+

lemma quiet_cases [quiet_intros]:
  "(b \<Longrightarrow> quiet m) \<Longrightarrow> (\<not> b \<Longrightarrow> quiet k) \<Longrightarrow> quiet (if b then m else k)"
  by simp

lemma quiet_option [quiet_intros]:
  "quiet m \<Longrightarrow> (\<And>a. quiet (f a)) \<Longrightarrow> quiet (case x of None \<Rightarrow> m | Some a \<Rightarrow> f a)"
  by (cases x) auto

lemma quiet_sum [quiet_intros]:
  "(\<And>a. quiet (g a)) \<Longrightarrow> (\<And>a. quiet (f a)) \<Longrightarrow> quiet (case x of Inl a \<Rightarrow> g a | Inr a \<Rightarrow> f a)"
  by (cases x) auto

lemma quiet_readers [quiet_intros]:
  "quiet (read_task_log d t)" "quiet (local_task_log d t)" "quiet (load_spec d r t)"
  unfolding read_task_log_def local_task_log_def load_spec_def by (intro quiet_intros)+

lemma quiet_unapproved [quiet_intros]: "quiet es \<Longrightarrow> quiet (unapproved d r t spec es)"
  unfolding unapproved_def by (intro quiet_intros)

lemma read_task_log_Inr: "read_task_log d t n = (Inr es, m) \<longleftrightarrow> dp_log_fault d t (nd_tree n) = None \<and> es = tr_log (nd_tree n) t \<and> m = n"
  by (auto simp: read_task_log_def bindP_def thenP_def askT_def raises_def prog_defs split: option.splits)

lemma spec_result_runnable: "spec_result d r t tr = Inr (Inr spec) \<Longrightarrow> \<not> is_draft spec"
proof -
  assume a: "spec_result d r t tr = Inr (Inr spec)"
  then obtain bytes tx where b: "dp_spec d r t tr = Some bytes" "decode_text bytes = Inr tx"
    by (auto simp: spec_result_def bindR_Inr_iff split: option.splits)
  then show ?thesis
    using a by (cases "parse_spec_text tx") (auto simp: spec_result_def split: if_splits)
qed

lemma load_spec_Inr: "load_spec d r t n = (Inr x, m) \<longleftrightarrow> spec_result d r t (nd_tree n) = Inr x \<and> m = n"
  by (auto simp: load_spec_def bindP_def askT_def prog_defs)

end
