(* ===== verification/Cli_Phases.thy ===== *)
theory Cli_Phases
  imports Cli_Node
begin

text \<open>
  The single-task phases of \<open>src/orchestrator/run.py\<close>: authoring a spec, the clarify and the design
  gate, the adoption of finished code, the start of the loop under its run lock, and the resume channel.
  Each returns the exit code of the command. The theorems show what has to hold before a loop starts or
  an event of the Director is recorded.
\<close>

section \<open>Authoring\<close>

definition new_seed_file :: string where
  "new_seed_file = ''new-seed.txt''"

definition headline :: "string \<Rightarrow> string" where
  "headline t = ''# '' @ t @ [CHR 0x0A]"

definition seed_text :: "string \<Rightarrow> string option \<Rightarrow> string" where
  "seed_text t brief =
     (case brief of
        None \<Rightarrow> headline t
      | Some b \<Rightarrow> if b = [] then headline t else headline t @ [CHR 0x0A] @ b @ [CHR 0x0A])"

definition phase_new :: "'e deps \<Rightarrow> string \<Rightarrow> string option \<Rightarrow> ('e machine, int) prog" where
  "phase_new d t brief =
     thenP (treeP (dp_worktree d t None))
    (bindP (askT (dp_spec d (TaskTree t) t)) (\<lambda>old.
       if old \<noteq> None then retP 2
       else
         (let seed = seed_text t brief in
          thenP (write_spec d t seed)
         (thenP (write_task_file d t new_seed_file seed)
         (thenP (treeP (dp_author d t brief))
         (bindP (bindP (askT (spec_text d (TaskTree t) t)) liftP) (\<lambda>txt'.
            if txt' = seed then retP 2
            else
              thenP (commit_task d t (''Author spec for '' @ t @ '' (--new)''))
             (thenP (push_task d t) (retP 0)))))))))"

text \<open>\<open>_refresh_stub_spec\<close>: an untouched seed is replaced by the spec of the hub, if it has a richer one.\<close>

definition stub_of :: "string \<Rightarrow> 'e wtree \<Rightarrow> string" where
  "stub_of t tr = (case tr_files tr t new_seed_file of None \<Rightarrow> headline t | Some s \<Rightarrow> nonempty_or s (headline t))"

definition refresh_stub_spec :: "'e deps \<Rightarrow> string \<Rightarrow> ('e machine, unit) prog" where
  "refresh_stub_spec d t =
     bindP (askT (stub_of t)) (\<lambda>stub.
     bindP (catchP
         (bindP (askT (dp_spec d (TaskTree t) t)) (\<lambda>b.
            case b of None \<Rightarrow> retP False
            | Some bytes \<Rightarrow> bindP (liftP (decode_text bytes)) (\<lambda>txt'. retP (txt' = stub))))
         (\<lambda>e. if e = OSError then retP False else throwP e)) (\<lambda>is_stub.
       if \<not> is_stub then retP ()
       else
         thenP (treeP (dp_fetch d t))
        (bindP (treeP (dp_hub_spec d t)) (\<lambda>hub.
           case hub of
             None \<Rightarrow> retP ()
           | Some h \<Rightarrow>
               if h = stub then retP ()
               else thenP (write_spec d t h)
                      (commit_task d t (''Refresh stub spec from hub main for '' @ t))))))"

section \<open>The clarify gate\<close>

definition task_clarify_io :: "'e deps \<Rightarrow> string \<Rightarrow> 'e machine clarify_io" where
  "task_clarify_io d t =
     \<lparr>ci_run = (\<lambda>p q. treeP (dp_clarify d t p q)), ci_ask = (\<lambda>q. treeP (dp_ask d q)),
      ci_read_spec = bindP (askT (spec_text d (TaskTree t) t)) liftP, ci_write_spec = write_spec d t,
      ci_append = append_task d t, ci_json = c_json (dp_collab d t), ci_decode_error = dp_decode_error d\<rparr>"

definition phase_clarify :: "'e deps \<Rightarrow> string \<Rightarrow> bool \<Rightarrow> ('e machine, int) prog" where
  "phase_clarify d t skip =
     thenP (treeP (dp_worktree d t None))
    (thenP (refresh_stub_spec d t)
    (bindP (load_spec d (TaskTree t) t) (\<lambda>spec.
       case spec of
         Inl rc \<Rightarrow> retP rc
       | Inr _ \<Rightarrow>
           bindP (if skip then retP True else bindP (read_task_log d t) (\<lambda>es. retP (has_clarify es))) (\<lambda>cleared.
             if cleared then retP 0
             else
               thenP (treeP (dp_copy_spec d t))
              (bindP (run_clarify_gate (task_clarify_io d t) (cli_spec_rel t)) (\<lambda>count.
                 thenP (treeP (dp_copy_spec d t))
                (thenP (commit_task d t (''Clarify gate for '' @ t @ '' ('' @ str_of_int (int count) @ '' questions)''))
                   (retP 0))))))))"

section \<open>The design gate\<close>

definition phase_design :: "cli_config \<Rightarrow> 'e deps \<Rightarrow> string \<Rightarrow> ('e machine, int) prog" where
  "phase_design cc d t =
     thenP (treeP (dp_worktree d t None))
    (bindP (load_spec d (TaskTree t) t) (\<lambda>res.
       case res of
         Inl rc \<Rightarrow> retP rc
       | Inr spec \<Rightarrow>
           bindP (bindP (askT (spec_text d (TaskTree t) t)) liftP) (\<lambda>txt'.
           bindP (treeP (dp_policy d (TaskTree t))) (\<lambda>pol.
             if \<not> spec_is_high_risk pol txt' (spec_risk spec) then retP 0
             else
               bindP (read_task_log d t) (\<lambda>es.
                 if design_approved es then retP 0
                 else
                   thenP (build_gate d t spec)
                  (thenP (explore_task cc d t spec)
                  (bindP (treeP (dp_ask d
                      ''Approve this approach? Type 'approve', or a rejection reason:'')) (\<lambda>answer.
                     if lower (strip answer) = ''approve'' then
                       thenP (append_task d t [(''action'', JStr ''design''), (''outcome'', JStr ''approved'')])
                      (thenP (commit_task d t (''Design approved for '' @ t)) (retP 0))
                     else
                       thenP (append_task d t [(''action'', JStr ''design''), (''outcome'', JStr ''rejected''),
                                (''reason'', JStr (take 2000 (strip answer)))])
                      (thenP (commit_task d t (''Design rejected for '' @ t)) (retP 5))))))))))"

section \<open>Adopting finished code\<close>

definition adopted_entry :: entry where
  "adopted_entry =
     [(''action'', JStr ''developer''), (''outcome'', JStr ''ok''), (''round'', JInt 1),
      (''detail'', JStr (''code-ready kickoff: pre-existing committed code adopted; ''
         @ ''developer phase skipped, review chain runs in full''))]"

definition fresh_log :: "entry list \<Rightarrow> bool" where
  "fresh_log es = (\<not> list_ex (\<lambda>e. dget e ''action'' = JStr ''developer'') es \<and> last_terminal_state es = None)"

definition adopt_code_ready :: "'e deps \<Rightarrow> string \<Rightarrow> ('e machine, int) prog" where
  "adopt_code_ready d t =
     bindP (read_task_log d t) (\<lambda>es.
       if \<not> fresh_log es then retP 2
       else
         thenP (sync_task d t)
        (bindP (treeP (dp_changed d t)) (\<lambda>changed.
           if changed = [] then retP 2
           else
             thenP (append_task d t adopted_entry)
            (thenP (commit_task d t (''Adopt pre-existing code for '' @ t @ '' (--code-ready)'')) (retP 0)))))"

section \<open>Starting the loop\<close>

definition role_plan_file :: string where
  "role_plan_file = ''role-plan.json''"

definition role_plan :: "string \<Rightarrow> task_spec \<Rightarrow> json" where
  "role_plan t spec =
     JObj [(''task'', JStr t), (''type'', JStr (spec_type spec)), (''roles'', JArr (map JStr (spec_roles spec)))]"

definition loop_exit :: "string \<Rightarrow> int" where
  "loop_exit terminal = (if terminal = ''PUSHED'' \<or> prefix ''MERGE_DECIDED:'' terminal then 0 else 1)"

definition start_loop :: "cli_config \<Rightarrow> 'e deps \<Rightarrow> string \<Rightarrow> task_spec \<Rightarrow> ('e machine, int) prog" where
  "start_loop cc d t spec =
     thenP (write_task_file d t role_plan_file (dumps_raw (c_json (dp_collab d t)) (role_plan t spec) @ nl))
    (thenP (build_gate d t spec)
    (bindP (orchestrate cc d t spec) (\<lambda>terminal. retP (loop_exit terminal))))"

text \<open>What has to hold before the loop starts; a code that is not zero refuses.\<close>

definition loop_gates :: "'e deps \<Rightarrow> string \<Rightarrow> bool \<Rightarrow> ('e machine, int + task_spec) prog" where
  "loop_gates d t skip =
     bindP (if skip then retP True else bindP (read_task_log d t) (\<lambda>es. retP (has_clarify es))) (\<lambda>cleared.
       if \<not> cleared then retP (Inl 2)
       else
         bindP (load_spec d (TaskTree t) t) (\<lambda>res.
           case res of
             Inl rc \<Rightarrow> retP (Inl rc)
           | Inr spec \<Rightarrow>
               bindP (unapproved d (TaskTree t) t spec (read_task_log d t)) (\<lambda>stopped.
                 retP (if stopped then Inl 2 else Inr spec))))"

definition phase_loop_locked ::
  "cli_config \<Rightarrow> 'e deps \<Rightarrow> string \<Rightarrow> bool \<Rightarrow> bool \<Rightarrow> string option \<Rightarrow> ('e machine, int) prog" where
  "phase_loop_locked cc d t skip code_ready base_task =
     thenP (treeP (dp_worktree d t base_task))
    (bindP (loop_gates d t skip) (\<lambda>res.
       case res of
         Inl rc \<Rightarrow> retP rc
       | Inr spec \<Rightarrow>
           bindP (if code_ready then adopt_code_ready d t else retP 0) (\<lambda>rc.
             if rc \<noteq> 0 then retP rc else start_loop cc d t spec)))"

definition is_queue_locked :: "exn \<Rightarrow> bool" where
  "is_queue_locked e = (case e of QueueLocked _ \<Rightarrow> True | _ \<Rightarrow> False)"

definition run_lock_of :: "'e deps \<Rightarrow> string \<Rightarrow> ('e machine, 'a) prog \<Rightarrow> ('e machine, 'a) prog" where
  "run_lock_of d t m n =
     with_lock (\<lambda>n. nd_locks n t) (\<lambda>l n. n\<lparr>nd_locks := (nd_locks n)(t := l)\<rparr>)
       (dp_kill d (tr_env (nd_tree n))) (dp_pid d) t m n"

definition phase_loop ::
  "cli_config \<Rightarrow> 'e deps \<Rightarrow> string \<Rightarrow> bool \<Rightarrow> bool \<Rightarrow> string option \<Rightarrow> ('e machine, int) prog" where
  "phase_loop cc d t skip code_ready base_task =
     catchP (run_lock_of d t (phase_loop_locked cc d t skip code_ready base_task))
       (\<lambda>e. if is_queue_locked e then retP 4 else throwP e)"

section \<open>The resume channel\<close>

definition resume_entry :: "string \<Rightarrow> string \<Rightarrow> entry" where
  "resume_entry reason sha =
     [(''action'', JStr ''director_resume''), (''outcome'', JStr ''ok''), (''reason'', JStr reason),
      (''spec_sha'', JStr sha)]"

text \<open>The terminal state a log can be resumed from.\<close>

definition resumable :: "entry list \<Rightarrow> string option" where
  "resumable es =
     (case last_terminal_state es of
        None \<Rightarrow> None
      | Some st \<Rightarrow> if clears_terminal ''director_resume'' st then Some st else None)"

definition phase_resume :: "cli_config \<Rightarrow> 'e deps \<Rightarrow> string \<Rightarrow> string option \<Rightarrow> ('e machine, int) prog" where
  "phase_resume cc d t reason =
     (let txt' = strip (case reason of None \<Rightarrow> [] | Some r \<Rightarrow> r) in
      if txt' = [] then retP 2
      else
        thenP (treeP (dp_worktree d t None))
       (bindP (load_spec d (TaskTree t) t) (\<lambda>res.
          case res of
            Inl rc \<Rightarrow> retP rc
          | Inr _ \<Rightarrow>
              bindP (read_task_log d t) (\<lambda>es.
                case resumable es of
                  None \<Rightarrow> retP 2
                | Some _ \<Rightarrow>
                    thenP (sync_task d t)
                   (bindP (treeP (dp_spec_sha d t)) (\<lambda>sha.
                      thenP (append_task d t (resume_entry txt' sha))
                     (thenP (commit_task d t (''Director resume for '' @ t))
                        (phase_loop cc d t True False None))))))))"

end
