(* ===== verification/Cli_Safety.thy ===== *)
theory Cli_Safety
  imports Cli_Phases
begin

text \<open>
  What has to hold before a command of \<open>src/orchestrator/run.py\<close> records an event of the Director or starts
  the loop of a task. A command that is refused leaves the queue, the locks and the trace as they were.
\<close>

section \<open>The gates of the loop\<close>

text \<open>The gates hold in a tree: clarify, a runnable spec, and for a high-risk spec the approved design.\<close>

definition may_start :: "'e deps \<Rightarrow> string \<Rightarrow> bool \<Rightarrow> 'e wtree \<Rightarrow> task_spec \<Rightarrow> bool" where
  "may_start d t skip tr spec =
     ((skip \<or> has_clarify (tr_log tr t)) \<and> spec_result d (TaskTree t) t tr = Inr (Inr spec) \<and>
      (\<exists>txt' pol tr'. spec_text d (TaskTree t) t tr = Inr txt' \<and> dp_policy d (TaskTree t) tr = (Inr pol, tr')
         \<and> (spec_is_high_risk pol txt' (spec_risk spec) \<longrightarrow> design_approved (tr_log tr' t))))"

lemma quiet_loop_gates [quiet_intros]: "quiet (loop_gates d t skip)"
  unfolding loop_gates_def by (intro quiet_intros)

lemma unapproved_Inr:
  assumes "unapproved d r t spec (read_task_log d t) n = (Inr stopped, m)"
  shows "\<exists>txt' pol tr'. spec_text d r t (nd_tree n) = Inr txt' \<and> dp_policy d r (nd_tree n) = (Inr pol, tr')
           \<and> m = n\<lparr>nd_tree := tr'\<rparr> \<and> (stopped \<longleftrightarrow> spec_is_high_risk pol txt' (spec_risk spec) \<and> \<not> design_approved (tr_log tr' t))"
proof -
  obtain txt' where tx: "spec_text d r t (nd_tree n) = Inr txt'"
    using assms by (auto simp: unapproved_def bindP_Inr_iff askT_def prog_defs)
  obtain pol tr' where pol: "dp_policy d r (nd_tree n) = (Inr pol, tr')"
    using assms tx by (cases "dp_policy d r (nd_tree n)"; cases "fst (dp_policy d r (nd_tree n))")
      (auto simp: unapproved_def bindP_def askT_def treeP_def prog_defs)
  have "(if spec_is_high_risk pol txt' (spec_risk spec)
         then bindP (read_task_log d t) (\<lambda>es. retP (\<not> design_approved es)) else retP False) (n\<lparr>nd_tree := tr'\<rparr>) = (Inr stopped, m)"
    using assms tx pol by (simp add: unapproved_def bindP_def askT_def treeP_def prog_defs)
  then show ?thesis
    using tx pol by (auto simp: bindP_Inr_iff read_task_log_Inr retP_def split: if_splits)
qed

lemma loop_gates_pass:
  assumes "loop_gates d t skip n = (Inr (Inr spec), m)"
  shows "may_start d t skip (nd_tree n) spec"
proof -
  let ?next = "\<lambda>x. case x of Inl rc \<Rightarrow> retP (Inl rc)
    | Inr spec \<Rightarrow> bindP (unapproved d (TaskTree t) t spec (read_task_log d t)) (\<lambda>stopped. retP (if stopped then Inl 2 else Inr spec))"
  obtain x where cleared: "skip \<or> has_clarify (tr_log (nd_tree n) t)"
    and x: "spec_result d (TaskTree t) t (nd_tree n) = Inr x" "?next x n = (Inr (Inr spec), m)"
    using assms by (auto simp: loop_gates_def bindP_Inr_iff read_task_log_Inr load_spec_Inr retP_def split: if_splits)
  obtain s where s: "x = Inr s"
    using x(2) by (cases x) (auto simp: retP_def)
  then obtain stopped m' where u: "unapproved d (TaskTree t) t s (read_task_log d t) n = (Inr stopped, m')"
    "\<not> stopped" "s = spec"
    using x(2) by (auto simp: bindP_Inr_iff retP_def split: if_splits)
  then show ?thesis
    using cleared x(1) s unapproved_Inr[OF u(1)] by (auto simp: may_start_def)
qed

section \<open>Traces\<close>

text \<open>A program only appends to the trace, and what it appends satisfies \<open>C\<close>.\<close>

definition adds :: "(cli_event \<Rightarrow> bool) \<Rightarrow> ('e machine, 'a) prog \<Rightarrow> bool" where
  "adds C m = (\<forall>n. \<exists>new. nd_trace (snd (m n)) = nd_trace n @ new \<and> list_all C new)"

named_theorems adds_intros

lemma addsE:
  assumes "adds C m" "m n = (r, n')"
  obtains new where "nd_trace n' = nd_trace n @ new" "list_all C new"
  using assms unfolding adds_def by (metis snd_conv)

lemma adds_quiet: "quiet m \<Longrightarrow> adds C m"
  by (auto simp: adds_def quiet_def frame_def)

lemma quiet_modify_tree: "quiet (modifyP (\<lambda>n. n\<lparr>nd_tree := f n\<rparr>))"
  by (simp add: quiet_def frame_def prog_defs)

lemmas adds_basic [adds_intros] =
  quiet_basic [THEN adds_quiet] quiet_readers [THEN adds_quiet] quiet_modify_tree [THEN adds_quiet]

lemma adds_did [adds_intros]: "C ev \<Longrightarrow> adds C (did ev)"
  by (simp add: adds_def did_def prog_defs)

lemma adds_bind [adds_intros]:
  assumes "adds C m" "\<And>a. adds C (f a)"
  shows "adds C (bindP m f)"
  unfolding adds_def
proof
  fix n
  obtain r t where m: "m n = (r, t)"
    by (cases "m n")
  obtain new where new: "nd_trace t = nd_trace n @ new" "list_all C new"
    using assms(1) m by (rule addsE)
  show "\<exists>new. nd_trace (snd (bindP m f n)) = nd_trace n @ new \<and> list_all C new"
  proof (cases r)
    case (Inr a)
    obtain q u where f: "f a t = (q, u)"
      by (cases "f a t")
    obtain new' where "nd_trace u = nd_trace t @ new'" "list_all C new'"
      using assms(2) f by (rule addsE)
    then show ?thesis
      using m new f Inr by (intro exI[of _ "new @ new'"]) (simp add: bindP_def)
  qed (use m new in \<open>auto simp: bindP_def\<close>)
qed

lemma adds_then [adds_intros]: "adds C m \<Longrightarrow> adds C k \<Longrightarrow> adds C (thenP m k)"
  unfolding thenP_def by (rule adds_bind)

lemma adds_cases [adds_intros]:
  "(b \<Longrightarrow> adds C m) \<Longrightarrow> (\<not> b \<Longrightarrow> adds C k) \<Longrightarrow> adds C (if b then m else k)"
  by simp

lemma adds_sum [adds_intros]:
  "(\<And>a. adds C (g a)) \<Longrightarrow> (\<And>a. adds C (f a)) \<Longrightarrow> adds C (case x of Inl a \<Rightarrow> g a | Inr a \<Rightarrow> f a)"
  by (cases x) auto

lemma adds_option [adds_intros]:
  "adds C m \<Longrightarrow> (\<And>a. adds C (f a)) \<Longrightarrow> adds C (case x of None \<Rightarrow> m | Some a \<Rightarrow> f a)"
  by (cases x) auto

lemma adds_catch [adds_intros]:
  assumes "adds C m" "\<And>e. adds C (h e)"
  shows "adds C (catchP m h)"
  unfolding adds_def
proof
  fix n
  obtain r t where m: "m n = (r, t)"
    by (cases "m n")
  obtain new where new: "nd_trace t = nd_trace n @ new" "list_all C new"
    using assms(1) m by (rule addsE)
  show "\<exists>new. nd_trace (snd (catchP m h n)) = nd_trace n @ new \<and> list_all C new"
  proof (cases r)
    case (Inl e)
    obtain q u where f: "h e t = (q, u)"
      by (cases "h e t")
    obtain new' where "nd_trace u = nd_trace t @ new'" "list_all C new'"
      using assms(2) f by (rule addsE)
    then show ?thesis
      using m new f Inl by (intro exI[of _ "new @ new'"]) (simp add: catchP_def)
  qed (use m new in \<open>auto simp: catchP_def\<close>)
qed

lemma adds_append [adds_intros]: "(\<And>ts. C (DidAppend t ((''ts'', ts) # e))) \<Longrightarrow> adds C (append_task d t e)"
  unfolding append_task_def Let_def
  by (intro adds_intros) simp

lemma adds_writes [adds_intros]:
  "adds C (write_task_file d t name x)"
  "C (DidCommit t msg) \<Longrightarrow> adds C (commit_task d t msg)"
  "C (DidSync t) \<Longrightarrow> adds C (sync_task d t)"
  unfolding write_task_file_def commit_task_def sync_task_def
  by (intro adds_intros; assumption)+

lemma adds_adopt: "adds (\<lambda>ev. ev \<noteq> DidRun t) (adopt_code_ready d t)"
  unfolding adopt_code_ready_def by (intro adds_intros) simp_all

section \<open>No loop before its gates\<close>

definition started :: "string \<Rightarrow> 'e machine \<Rightarrow> 'e machine \<Rightarrow> bool" where
  "started t n n' = (DidRun t \<in> set (drop (length (nd_trace n)) (nd_trace n')))"

lemma not_started: "adds (\<lambda>ev. ev \<noteq> DidRun t) m \<Longrightarrow> m n = (r, n') \<Longrightarrow> \<not> started t n n'"
  by (erule (1) addsE) (auto simp: started_def list_all_iff)

lemma locked_started:
  assumes "phase_loop_locked cc d t skip code_ready base_task n = (r, n')" "started t n n'"
  shows "\<exists>tr spec. dp_worktree d t base_task (nd_tree n) = (Inr (), tr) \<and> may_start d t skip tr spec"
proof -
  let ?none = "\<lambda>m. adds (\<lambda>ev. ev \<noteq> DidRun t) (m :: ('a machine, int) prog)"
  obtain x tr where w: "dp_worktree d t base_task (nd_tree n) = (x, tr)"
    by (cases "dp_worktree d t base_task (nd_tree n)")
  let ?n1 = "n\<lparr>nd_tree := tr\<rparr>"
  show ?thesis
  proof (cases x)
    case (Inl e)
    then show ?thesis
      using assms w by (auto simp: phase_loop_locked_def thenP_def bindP_def treeP_def started_def)
  next
    case (Inr u)
    obtain g n2 where g: "loop_gates d t skip ?n1 = (g, n2)"
      by (cases "loop_gates d t skip ?n1")
    have tr2: "nd_trace n2 = nd_trace n"
      using quietD[OF quiet_loop_gates g] by (simp add: frame_def)
    show ?thesis
    proof (cases "\<exists>spec. g = Inr (Inr spec)")
      case True
      then show ?thesis
        using loop_gates_pass g w Inr by fastforce
    next
      case False
      then have "n' = n2"
        using assms(1) w Inr g
        by (auto simp: phase_loop_locked_def thenP_def bindP_def treeP_def retP_def split: sum.splits)
      then show ?thesis
        using assms(2) tr2 by (simp add: started_def)
    qed
  qed
qed

text \<open>
  No agent works on a task before its gates: when a command starts the loop of a task, the run lock
  was free or stale and is released at the end, and in the worktree the command was given the clarify gate
  has run (or the Director skipped it), the spec parses and is not a draft, and a high-risk spec has its
  design approved in the log. A task whose lock a live process holds is refused with code 4 and nothing
  changes.
\<close>

theorem no_loop_before_gates:
  assumes "phase_loop cc d t skip code_ready base_task n = (r, n')"
  shows "(started t n n' \<longrightarrow>
            nd_locks n' t = NoLock
            \<and> is_ok (acquire_lock (dp_kill d (tr_env (nd_tree n))) (dp_pid d) t (nd_locks n t))
            \<and> (\<exists>tr spec. dp_worktree d t base_task (nd_tree n) = (Inr (), tr) \<and> may_start d t skip tr spec
                 \<and> \<not> is_draft spec))
       \<and> (acquire_lock (dp_kill d (tr_env (nd_tree n))) (dp_pid d) t (nd_locks n t) = Inl (QueueLocked msg) \<longrightarrow>
            r = Inr 4 \<and> n' = n)"
proof -
  let ?acq = "acquire_lock (dp_kill d (tr_env (nd_tree n))) (dp_pid d) t (nd_locks n t)"
  let ?body = "phase_loop_locked cc d t skip code_ready base_task"
  show ?thesis
  proof (cases ?acq)
    case (Inl e)
    then have "n' = n \<and> (is_queue_locked e \<longrightarrow> r = Inr 4)"
      using assms by (auto simp: phase_loop_def run_lock_of_def with_lock_def catchP_def prog_defs split: if_splits)
    then show ?thesis
      using Inl by (auto simp: started_def is_queue_locked_def)
  next
    case (Inr l)
    let ?n1 = "n\<lparr>nd_locks := (nd_locks n)(t := l)\<rparr>"
    obtain x m where x: "?body ?n1 = (x, m)"
      by (cases "?body ?n1")
    have n': "n' = m\<lparr>nd_locks := (nd_locks m)(t := NoLock)\<rparr>"
      using assms Inr x
      by (auto simp: phase_loop_def run_lock_of_def with_lock_def catchP_def prog_defs split: if_splits sum.splits)
    have "\<exists>tr spec. dp_worktree d t base_task (nd_tree n) = (Inr (), tr) \<and> may_start d t skip tr spec" if "started t n n'"
      using locked_started[OF x] that n' by (simp add: started_def)
    moreover have "\<not> is_draft spec" if "may_start d t skip tr spec" for tr spec
      using that spec_result_runnable unfolding may_start_def by blast
    ultimately show ?thesis
      using Inr n' by auto
  qed
qed

section \<open>The resume channel\<close>

lemma resumable_kind:
  assumes "resumable es = Some st"
  shows "last_terminal_state es = Some st" "sticky (terminal_spec st)" "ts_push (terminal_spec st)"
    "st \<noteq> ''PATH_GUARD_VIOLATION''"
proof -
  have st: "last_terminal_state es = Some st" "clears_terminal ''director_resume'' st"
    using assms by (auto simp: resumable_def split: option.splits if_splits)
  from st(2) have k: "sticky (terminal_spec st) \<and> ts_push (terminal_spec st)"
    unfolding clears_terminal_exact by blast
  then show "last_terminal_state es = Some st" "sticky (terminal_spec st)" "ts_push (terminal_spec st)"
    using st(1) by simp_all
  have "\<not> ts_push (terminal_spec ''PATH_GUARD_VIOLATION'')"
    by simp
  then show "st \<noteq> ''PATH_GUARD_VIOLATION''"
    using k by metis
qed


end
