(* ===== verification/Cli_Queue.thy ===== *)
theory Cli_Queue
  imports Cli_Phases
begin

text \<open>
  The phases of \<open>src/orchestrator/run.py\<close> around the queue: the derived status of a task, the enqueue
  variants with their validation, the selection a Director types, and the queue runner with its chains.
\<close>

section \<open>Derived status\<close>

definition non_progress_actions :: "string list" where
  "non_progress_actions = [''clarify'', ''design'', ''flag'', ''flag-resolved'']"

datatype task_status = Unparseable | Draft | Done | Running | Queued | Pushed | Failed string | InProgress | Ready

definition last_terminal_entry :: "entry list \<Rightarrow> entry option" where
  "last_terminal_entry es = find (\<lambda>e. dget e ''action'' = JStr ''terminal'') (rev es)"

definition log_status :: "entry list \<Rightarrow> task_status" where
  "log_status es =
     (case last_terminal_entry es of
        Some e \<Rightarrow>
          (let outcome = py_str (dget_or e ''outcome'' (JStr ''?'')) in
           if ts_kind (terminal_spec outcome) = Success then Pushed else Failed outcome)
      | None \<Rightarrow>
          if list_ex (\<lambda>e. dget e ''action'' = JStr ''push'' \<and> dget e ''outcome'' = JStr ''ok'') es then Pushed
          else if list_ex (\<lambda>e. \<not> list_ex (\<lambda>a. dget e ''action'' = JStr a) non_progress_actions) es then InProgress
          else Ready)"

text \<open>\<open>_derive_status\<close> of a spec of the base clone; only a \<open>SpecError\<close> is caught.\<close>

definition derive_status :: "'e deps \<Rightarrow> string list \<Rightarrow> string \<Rightarrow> ('e machine, task_status) prog" where
  "derive_status d queued t =
     bindP (bindP (askT (spec_text d BaseClone t)) liftP) (\<lambda>txt'.
       case parse_spec_text txt' of
         Inl _ \<Rightarrow> retP Unparseable
       | Inr spec \<Rightarrow>
           if is_draft spec then retP Draft
           else if is_done spec then retP Done
           else
             bindP (getP (\<lambda>n. lock_exists (nd_locks n t))) (\<lambda>running.
               if running then retP Running
               else if t \<in> set queued then retP Queued
               else bindP (local_task_log d t) (\<lambda>es. retP (log_status es))))"

definition queued_items :: "'e deps \<Rightarrow> ('e machine, queue_item list) prog" where
  "queued_items d = bindP (getP (\<lambda>n. items (dp_jsonl d) (tq_files (nd_queue n)))) liftP"

definition queued_tasks :: "'e deps \<Rightarrow> ('e machine, string list) prog" where
  "queued_tasks d = bindP (queued_items d) (\<lambda>its. retP (map qi_task its))"

primrec statuses :: "'e deps \<Rightarrow> string list \<Rightarrow> string list \<Rightarrow> ('e machine, (string \<times> task_status) list) prog" where
  "statuses d queued [] = retP []"
| "statuses d queued (t # ts) =
     bindP (derive_status d queued t) (\<lambda>st. bindP (statuses d queued ts) (\<lambda>rest. retP ((t, st) # rest)))"

text \<open>\<open>--phase status\<close>: the lines it prints, as pairs.\<close>

definition phase_status :: "'e deps \<Rightarrow> ('e machine, (string \<times> task_status) list) prog" where
  "phase_status d =
     thenP (treeP (dp_refresh d))
    (bindP (queued_tasks d) (\<lambda>queued. bindP (askT (dp_specs d)) (\<lambda>ts. statuses d queued ts)))"

definition enqueue_candidates :: "'e deps \<Rightarrow> bool \<Rightarrow> ('e machine, (string \<times> task_status) list) prog" where
  "enqueue_candidates d include_in_progress =
     bindP (queued_tasks d) (\<lambda>queued.
     bindP (askT (dp_specs d)) (\<lambda>ts.
     bindP (statuses d queued ts) (\<lambda>all.
       retP (filter (\<lambda>(_, st). st = Ready \<or> include_in_progress \<and> st = InProgress) all))))"

section \<open>Enqueuing\<close>

definition queueP :: "(taskq, 'a) prog \<Rightarrow> ('e machine, 'a) prog" where
  "queueP m n = (case m (nd_queue n) of (r, q) \<Rightarrow> (r, n\<lparr>nd_queue := q\<rparr>))"

definition enqueue_task :: "'e deps \<Rightarrow> string \<Rightarrow> bool \<Rightarrow> string option \<Rightarrow> ('e machine, queue_item) prog" where
  "enqueue_task d t skip base_task n =
     queueP (enqueue (dp_jsonl d) (dp_kill d (tr_env (nd_tree n))) (dp_pid d) (dp_queue_now d (tr_env (nd_tree n))) t skip base_task) n"

definition is_queue_error :: "exn \<Rightarrow> bool" where
  "is_queue_error e = (case e of QueueError _ \<Rightarrow> True | QueueLocked _ \<Rightarrow> True | _ \<Rightarrow> False)"

text \<open>The queueing loop; the code of the first queue error, after the items already queued.\<close>

primrec enqueue_list :: "'e deps \<Rightarrow> bool \<Rightarrow> (string \<times> string option) list \<Rightarrow> ('e machine, int) prog" where
  "enqueue_list d skip [] = retP 0"
| "enqueue_list d skip (tb # rest) =
     bindP (catchP (thenP (enqueue_task d (fst tb) skip (snd tb)) (retP True))
              (\<lambda>e. if is_queue_error e then retP False else throwP e)) (\<lambda>ok.
       if ok then enqueue_list d skip rest else retP 2)"

text \<open>The links of a chain: each task with the one before it.\<close>

definition chain_links :: "bool \<Rightarrow> string list \<Rightarrow> (string \<times> string option) list" where
  "chain_links chain ts =
     (if chain then zip ts (None # map Some (butlast ts)) else map (\<lambda>t. (t, None)) ts)"

definition validate_task ::
  "'e deps \<Rightarrow> bool \<Rightarrow> bool \<Rightarrow> string list \<Rightarrow> string \<Rightarrow> ('e machine, int) prog" where
  "validate_task d skip chain already t =
     bindP (if chain
            then bindP (askT (dp_present d t)) (\<lambda>p.
                   bindP (if p then read_task_log d t else retP []) (\<lambda>es. retP (BaseClone, es)))
            else thenP (treeP (dp_worktree d t None))
                   (bindP (read_task_log d t) (\<lambda>es. retP (TaskTree t, es)))) (\<lambda>(r, es).
     bindP (load_spec d r t) (\<lambda>res.
       case res of
         Inl rc \<Rightarrow> retP rc
       | Inr spec \<Rightarrow>
           if t \<in> set already then retP 2
           else if \<not> skip \<and> \<not> has_clarify es then retP 2
           else bindP (unapproved d r t spec (retP es)) (\<lambda>stopped. retP (if stopped then 2 else 0))))"

primrec validate_all :: "'e deps \<Rightarrow> bool \<Rightarrow> bool \<Rightarrow> string list \<Rightarrow> string list \<Rightarrow> ('e machine, int) prog" where
  "validate_all d skip chain already [] = retP 0"
| "validate_all d skip chain already (t # ts) =
     bindP (validate_task d skip chain already t) (\<lambda>rc.
       if rc \<noteq> 0 then retP rc else validate_all d skip chain already ts)"

definition phase_enqueue :: "'e deps \<Rightarrow> string list \<Rightarrow> bool \<Rightarrow> bool \<Rightarrow> ('e machine, int) prog" where
  "phase_enqueue d ts skip chain =
     bindP (queued_tasks d) (\<lambda>already.
       if \<not> distinct ts then retP 2
       else
         thenP (if chain then treeP (dp_refresh d) else retP ())
        (bindP (validate_all d skip chain already ts) (\<lambda>rc.
           if rc \<noteq> 0 then retP rc else enqueue_list d skip (chain_links chain ts))))"

text \<open>\<open>--all\<close>: the ready tasks that are clarified and, when high-risk, approved.\<close>

definition collectable :: "'e deps \<Rightarrow> bool \<Rightarrow> string \<Rightarrow> ('e machine, bool) prog" where
  "collectable d skip t =
     thenP (treeP (dp_worktree d t None))
    (bindP (if skip then retP True else bindP (read_task_log d t) (\<lambda>es. retP (has_clarify es))) (\<lambda>cleared.
       if \<not> cleared then retP False
       else
         bindP (load_spec d (TaskTree t) t) (\<lambda>res.
           case res of
             Inl _ \<Rightarrow> retP True
           | Inr spec \<Rightarrow>
               bindP (unapproved d (TaskTree t) t spec (read_task_log d t)) (\<lambda>stopped. retP (\<not> stopped)))))"

primrec collect :: "'e deps \<Rightarrow> bool \<Rightarrow> string list \<Rightarrow> ('e machine, string list) prog" where
  "collect d skip [] = retP []"
| "collect d skip (t # ts) =
     bindP (collectable d skip t) (\<lambda>ok. bindP (collect d skip ts) (\<lambda>rest. retP (if ok then t # rest else rest)))"

definition phase_enqueue_all :: "'e deps \<Rightarrow> bool \<Rightarrow> ('e machine, int) prog" where
  "phase_enqueue_all d skip =
     thenP (treeP (dp_refresh d))
    (bindP (enqueue_candidates d False) (\<lambda>cands.
     bindP (collect d skip (map fst cands)) (\<lambda>ready. enqueue_list d skip (map (\<lambda>t. (t, None)) ready))))"

section \<open>The selection\<close>

definition token_range :: "int \<Rightarrow> string \<Rightarrow> exn + int list" where
  "token_range upper token =
     (let lo = before_char CHR ''-'' token; dash = CHR ''-'' \<in> set token; hi = after_char CHR ''-'' token in
      case py_int lo of
        None \<Rightarrow> Inl ValueError
      | Some start \<Rightarrow>
          (case (if dash then py_int hi else Some start) of
             None \<Rightarrow> Inl ValueError
           | Some stop \<Rightarrow>
               if start > stop then Inl ValueError
               else if start < 1 \<or> stop > upper then Inl ValueError
               else Inr [start..stop]))"

definition commas_to_spaces :: "string \<Rightarrow> string" where
  "commas_to_spaces s = map (\<lambda>c. if c = CHR '','' then CHR '' '' else c) s"

primrec parse_tokens :: "int \<Rightarrow> int list \<Rightarrow> string list \<Rightarrow> exn + int list" where
  "parse_tokens upper picked [] = Inr picked"
| "parse_tokens upper picked (t # ts) = bindR (token_range upper t) (\<lambda>r. parse_tokens upper (picked @ r) ts)"

definition parse_selection :: "string \<Rightarrow> int \<Rightarrow> exn + int list" where
  "parse_selection raw upper = parse_tokens upper [] (words (commas_to_spaces raw))"

definition pick_question :: string where
  "pick_question = ''Which tasks to queue? (e.g. '1 3-5'; empty = none)''"

definition phase_enqueue_pick :: "'e deps \<Rightarrow> bool \<Rightarrow> ('e machine, int) prog" where
  "phase_enqueue_pick d skip =
     thenP (treeP (dp_refresh d))
    (bindP (enqueue_candidates d True) (\<lambda>cands.
       if cands = [] then retP 0
       else
         bindP (treeP (dp_ask d pick_question)) (\<lambda>raw.
           case parse_selection raw (int (length cands)) of
             Inl _ \<Rightarrow> retP 2
           | Inr [] \<Rightarrow> retP 0
           | Inr picked \<Rightarrow> phase_enqueue d (map (\<lambda>i. fst (cands ! nat (i - 1))) picked) skip False)))"

section \<open>The queue runner\<close>

text \<open>What a pass remembers: the tasks it left in the queue, and those whose chain must not go on.\<close>

record pass =
  ps_deferred :: "string list"
  ps_blocked :: "string list"

definition defer_task :: "string \<Rightarrow> pass \<Rightarrow> pass" where
  "defer_task t p = p\<lparr>ps_deferred := t # ps_deferred p, ps_blocked := t # ps_blocked p\<rparr>"

definition block_task :: "string \<Rightarrow> pass \<Rightarrow> pass" where
  "block_task t p = p\<lparr>ps_blocked := t # ps_blocked p\<rparr>"

definition stale_worktree :: "'e deps \<Rightarrow> queue_item \<Rightarrow> ('e machine, bool) prog" where
  "stale_worktree d it =
     (case qi_base it of
        None \<Rightarrow> retP False
      | Some b \<Rightarrow>
          bindP (askT (dp_present d (qi_task it))) (\<lambda>p.
            if \<not> p then retP False
            else thenP (treeP (dp_ensure_base d))
                   (bindP (treeP (dp_chain_ok d (qi_task it) b)) (\<lambda>ok. retP (\<not> ok)))))"

definition run_item :: "cli_config \<Rightarrow> 'e deps \<Rightarrow> queue_item \<Rightarrow> pass \<Rightarrow> ('e machine, pass) prog" where
  "run_item cc d it p =
     bindP (catchP (bindP (phase_loop cc d (qi_task it) True False (qi_base it)) (\<lambda>rc. retP (Some rc)))
              (\<lambda>e. if e = GitError then retP None else throwP e)) (\<lambda>res.
       case res of
         None \<Rightarrow> retP (defer_task (qi_task it) p)
       | Some rc \<Rightarrow>
           thenP (did (DidFinish (qi_task it) rc))
             (if rc = 4 then retP (defer_task (qi_task it) p)
              else thenP (queueP (remove_item it))
                     (retP (if rc \<noteq> 0 then block_task (qi_task it) p else p))))"

text \<open>One turn of the runner: it is done, or it has treated the first item that is not deferred.\<close>

definition queue_turn :: "cli_config \<Rightarrow> 'e deps \<Rightarrow> pass \<Rightarrow> ('e machine, pass option) prog" where
  "queue_turn cc d p =
     bindP (queued_items d) (\<lambda>its.
       case filter (\<lambda>it. qi_task it \<notin> set (ps_deferred p)) its of
         [] \<Rightarrow> retP None
       | it # _ \<Rightarrow>
           if (case qi_base it of None \<Rightarrow> False | Some b \<Rightarrow> b \<in> set (ps_blocked p))
           then retP (Some (defer_task (qi_task it) p))
           else
             bindP (stale_worktree d it) (\<lambda>stale.
               if stale then retP (Some (defer_task (qi_task it) p))
               else bindP (run_item cc d it p) (\<lambda>p'. retP (Some p'))))"

primrec queue_loop :: "cli_config \<Rightarrow> 'e deps \<Rightarrow> nat \<Rightarrow> pass \<Rightarrow> 'e machine \<Rightarrow> ((exn + int) \<times> 'e machine) option" where
  "queue_loop cc d 0 p n = None"
| "queue_loop cc d (Suc fuel) p n =
     (case queue_turn cc d p n of
        (Inl e, m) \<Rightarrow> Some (Inl e, m)
      | (Inr None, m) \<Rightarrow> Some (Inr 0, m)
      | (Inr (Some p'), m) \<Rightarrow> queue_loop cc d fuel p' m)"

definition empty_pass :: pass where
  "empty_pass = \<lparr>ps_deferred = [], ps_blocked = []\<rparr>"

text \<open>The fuel is one turn per item and one to see that nothing is left, which is enough (\<open>queue_loop_ends\<close>).\<close>

definition queue_body :: "cli_config \<Rightarrow> 'e deps \<Rightarrow> ('e machine, int) prog" where
  "queue_body cc d n =
     (case queue_loop cc d (Suc (length (queue_items (dp_jsonl d) (nd_queue n)))) empty_pass n of
        Some r \<Rightarrow> r
      | None \<Rightarrow> (Inl (OtherError ''endless queue''), n))"

definition node_queue_lock :: "'e deps \<Rightarrow> ('e machine, 'a) prog \<Rightarrow> ('e machine, 'a) prog" where
  "node_queue_lock d m n =
     with_lock (\<lambda>n. tq_lock (nd_queue n)) (\<lambda>l n. n\<lparr>nd_queue := (nd_queue n)\<lparr>tq_lock := l\<rparr>\<rparr>)
       (dp_kill d (tr_env (nd_tree n))) (dp_pid d) ''queue'' m n"

definition phase_queue :: "cli_config \<Rightarrow> 'e deps \<Rightarrow> ('e machine, int) prog" where
  "phase_queue cc d =
     catchP (node_queue_lock d (queue_body cc d)) (\<lambda>e. if is_queue_locked e then retP 3 else throwP e)"

text \<open>\<open>--phase queue-list\<close>: the items it prints, with their positions.\<close>

definition phase_queue_list :: "'e deps \<Rightarrow> ('e machine, (nat \<times> queue_item) list) prog" where
  "phase_queue_list d = bindP (queued_items d) (\<lambda>its. retP (zip [1..<Suc (length its)] its))"

end
