(* ===== verification/Cli_Queue_Facts.thy ===== *)
theory Cli_Queue_Facts
  imports Cli_Queue Cli_Safety
begin

text \<open>
  The queue runner: a pass ends, it starts a chained task only after its predecessor succeeded, and every
  item it was given either stays in the queue or has been treated. And the selection a Director types.
\<close>

section \<open>What a task's loop leaves alone\<close>

definition keeps_queue :: "('e machine, 'a) prog \<Rightarrow> bool" where
  "keeps_queue m = (\<forall>n. nd_queue (snd (m n)) = nd_queue n)"

named_theorems keeps_intros

lemma keeps_queueD: "keeps_queue m \<Longrightarrow> m n = (r, n') \<Longrightarrow> nd_queue n' = nd_queue n"
  unfolding keeps_queue_def by (metis snd_conv)

lemma quiet_keeps: "quiet m \<Longrightarrow> keeps_queue m"
  by (simp add: quiet_def frame_def keeps_queue_def)

lemmas keeps_quiet [keeps_intros] = quiet_basic [THEN quiet_keeps] quiet_readers [THEN quiet_keeps]
  quiet_loop_gates [THEN quiet_keeps] quiet_modify_tree [THEN quiet_keeps]

lemma keeps_did [keeps_intros]: "keeps_queue (did ev)"
  by (simp add: keeps_queue_def did_def prog_defs)

lemma queue_keeps_bind [keeps_intros]: "keeps_queue m \<Longrightarrow> (\<And>a. keeps_queue (f a)) \<Longrightarrow> keeps_queue (bindP m f)"
  unfolding keeps_queue_def bindP_def by (auto split: prod.split sum.split) (metis snd_conv)+

lemma keeps_then [keeps_intros]: "keeps_queue m \<Longrightarrow> keeps_queue k \<Longrightarrow> keeps_queue (thenP m k)"
  unfolding thenP_def by (rule queue_keeps_bind)

lemma queue_keeps_catch [keeps_intros]: "keeps_queue m \<Longrightarrow> (\<And>e. keeps_queue (h e)) \<Longrightarrow> keeps_queue (catchP m h)"
  unfolding keeps_queue_def catchP_def by (auto split: prod.split sum.split) (metis snd_conv)+

lemma keeps_cases [keeps_intros]:
  "(b \<Longrightarrow> keeps_queue m) \<Longrightarrow> (\<not> b \<Longrightarrow> keeps_queue k) \<Longrightarrow> keeps_queue (if b then m else k)"
  "(\<And>a. keeps_queue (g a)) \<Longrightarrow> (\<And>a. keeps_queue (f a)) \<Longrightarrow> keeps_queue (case x of Inl a \<Rightarrow> g a | Inr a \<Rightarrow> f a)"
  by (simp_all split: sum.split)

lemma keeps_append [keeps_intros]: "keeps_queue (append_task d t e)"
  unfolding append_task_def Let_def by (intro keeps_intros)

lemma keeps_writes [keeps_intros]:
  "keeps_queue (write_task_file d t name x)" "keeps_queue (commit_task d t msg)" "keeps_queue (sync_task d t)"
  unfolding write_task_file_def commit_task_def sync_task_def by (intro keeps_intros)+

lemma keeps_orchestrate [keeps_intros]: "keeps_queue (orchestrate cc d t spec)"
  unfolding orchestrate_def
  by (rule keeps_then [OF keeps_did]) (auto simp: keeps_queue_def back_from_def split: option.splits)

lemma keeps_loop_locked [keeps_intros]: "keeps_queue (phase_loop_locked cc d t skip cr bt)"
  unfolding phase_loop_locked_def adopt_code_ready_def start_loop_def build_gate_def by (intro keeps_intros)

lemma run_lock_of_eq:
  "run_lock_of d t m n =
     (case acquire_lock (dp_kill d (tr_env (nd_tree n))) (dp_pid d) t (nd_locks n t) of
        Inl e \<Rightarrow> (Inl e, n)
      | Inr l \<Rightarrow> (case m (n\<lparr>nd_locks := (nd_locks n)(t := l)\<rparr>) of
            (r, n') \<Rightarrow> (r, n'\<lparr>nd_locks := (nd_locks n')(t := NoLock)\<rparr>)))"
  by (simp add: run_lock_of_def with_lock_def split: sum.split)

lemma keeps_run_lock [keeps_intros]:
  assumes "keeps_queue m"
  shows "keeps_queue (run_lock_of d t m)"
  unfolding keeps_queue_def
proof
  fix n
  show "nd_queue (snd (run_lock_of d t m n)) = nd_queue n"
  proof (cases "acquire_lock (dp_kill d (tr_env (nd_tree n))) (dp_pid d) t (nd_locks n t)")
    case (Inl e)
    then show ?thesis
      by (simp add: run_lock_of_eq)
  next
    case (Inr l)
    obtain r n' where m: "m (n\<lparr>nd_locks := (nd_locks n)(t := l)\<rparr>) = (r, n')"
      by fastforce
    then show ?thesis
      using keeps_queueD[OF assms m] Inr m by (simp add: run_lock_of_eq)
  qed
qed

lemma keeps_phase_loop [keeps_intros]: "keeps_queue (phase_loop cc d t skip cr bt)"
  unfolding phase_loop_def by (intro keeps_intros)

section \<open>What a task's loop adds to the trace\<close>

text \<open>Only its own start, and no report of the runner.\<close>

definition own_event :: "string \<Rightarrow> cli_event \<Rightarrow> bool" where
  "own_event t ev = ((\<forall>t'. ev = DidRun t' \<longrightarrow> t' = t) \<and> (\<forall>t' rc. ev \<noteq> DidFinish t' rc))"

lemma own_event_simps [simp]:
  "own_event t (DidAppend u e)" "own_event t (DidCommit u x)" "own_event t (DidPush u)" "own_event t (DidSync u)"
  "own_event t (DidWriteSpec u)" "own_event t (TaskEvent u ev)" "own_event t (DidRun u) \<longleftrightarrow> u = t"
  "\<not> own_event t (DidFinish u rc)"
  by (auto simp: own_event_def)

lemma adds_orchestrate: "adds (own_event t) (orchestrate cc d t spec)"
  unfolding orchestrate_def
  by (rule adds_then [OF adds_did])
    (auto simp: adds_def back_from_def list_all_iff split: option.splits)

lemma adds_start: "adds (own_event t) (start_loop cc d t spec)"
  unfolding start_loop_def build_gate_def
  by (intro adds_intros adds_orchestrate)

lemma adds_adopt_own: "adds (own_event t) (adopt_code_ready d t)"
  unfolding adopt_code_ready_def by (intro adds_intros) simp_all

lemma adds_loop_locked: "adds (own_event t) (phase_loop_locked cc d t skip cr bt)"
  unfolding phase_loop_locked_def
  by (intro adds_intros adds_start adds_adopt_own quiet_loop_gates [THEN adds_quiet])

lemma adds_run_lock [adds_intros]:
  assumes "adds C m"
  shows "adds C (run_lock_of d t m)"
  unfolding adds_def
proof
  fix n
  show "\<exists>new. nd_trace (snd (run_lock_of d t m n)) = nd_trace n @ new \<and> list_all C new"
  proof (cases "acquire_lock (dp_kill d (tr_env (nd_tree n))) (dp_pid d) t (nd_locks n t)")
    case (Inl e)
    then show ?thesis
      by (simp add: run_lock_of_eq)
  next
    case (Inr l)
    obtain r n' where m: "m (n\<lparr>nd_locks := (nd_locks n)(t := l)\<rparr>) = (r, n')"
      by fastforce
    obtain new where "nd_trace n' = nd_trace n @ new" "list_all C new"
      using addsE[OF assms m] by auto
    then show ?thesis
      using Inr m by (simp add: run_lock_of_eq)
  qed
qed

lemma adds_phase_loop: "adds (own_event t) (phase_loop cc d t skip cr bt)"
  unfolding phase_loop_def by (intro adds_intros adds_loop_locked)

section \<open>One turn\<close>

lemma queued_items_eq:
  "queued_items d n = (items (dp_jsonl d) (tq_files (nd_queue n)), n)"
  by (simp add: queued_items_def bindP_def prog_defs)

lemma quiet_stale: "quiet (stale_worktree d it)"
  unfolding stale_worktree_def by (intro quiet_intros)

text \<open>What treating an item adds: the start of its own task, and its end with the given kind of code.\<close>

definition item_events :: "string \<Rightarrow> (int \<Rightarrow> bool) \<Rightarrow> cli_event list \<Rightarrow> bool" where
  "item_events t P new = ((\<forall>u. DidRun u \<in> set new \<longrightarrow> u = t) \<and> (\<forall>u rc. DidFinish u rc \<in> set new \<longrightarrow> u = t \<and> P rc))"

lemma item_events_Nil [simp]: "item_events t P []"
  by (simp add: item_events_def)

lemma run_item_cases:
  assumes "run_item cc d it p n = (r, n')"
  obtains new where "nd_trace n' = nd_trace n @ new" "item_events (qi_task it) (\<lambda>rc. rc = 4) new"
      "nd_queue n' = nd_queue n" "r = Inr (defer_task (qi_task it) p) \<or> (\<exists>e. r = Inl e)"
  | new rc where "nd_trace n' = nd_trace n @ new" "item_events (qi_task it) (\<lambda>c. c = rc) new" "rc \<noteq> 4"
      "DidFinish (qi_task it) rc \<in> set new" "nd_queue n' = snd (remove_item it (nd_queue n))"
      "r = Inr (if rc \<noteq> 0 then block_task (qi_task it) p else p)"
proof -
  let ?loop = "phase_loop cc d (qi_task it) True False (qi_base it)"
  obtain x m where x: "?loop n = (x, m)"
    by (cases "?loop n")
  obtain new where new: "nd_trace m = nd_trace n @ new" "list_all (own_event (qi_task it)) new"
    using adds_phase_loop x by (rule addsE)
  have q: "nd_queue m = nd_queue n"
    using keeps_phase_loop x by (rule keeps_queueD)
  have own: "item_events (qi_task it) P new" "item_events (qi_task it) (\<lambda>c. c = rc) (new @ [DidFinish (qi_task it) rc])" for P rc
    using new(2) by (auto simp: item_events_def list_all_iff own_event_def)
  show thesis
  proof (cases x)
    case (Inl e)
    then have "n' = m \<and> (r = Inr (defer_task (qi_task it) p) \<or> (\<exists>e. r = Inl e))"
      using assms x by (auto simp: run_item_def bindP_def catchP_def prog_defs split: if_splits)
    then show thesis
      using that(1)[OF _ own(1)] new(1) q by auto
  next
    case (Inr rc)
    let ?m = "m\<lparr>nd_trace := nd_trace m @ [DidFinish (qi_task it) rc]\<rparr>"
    have tr: "nd_trace ?m = nd_trace n @ (new @ [DidFinish (qi_task it) rc])"
      using new(1) by simp
    show thesis
    proof (cases "rc = 4")
      case True
      then have "n' = ?m" "r = Inr (defer_task (qi_task it) p)"
        using assms x Inr by (auto simp: run_item_def bindP_def thenP_def catchP_def did_def prog_defs)
      then show thesis
        using that(1)[OF _ own(2)[of rc, unfolded True]] tr q True by auto
    next
      case False
      then have "n' = ?m\<lparr>nd_queue := snd (remove_item it (nd_queue m))\<rparr>"
        "r = Inr (if rc \<noteq> 0 then block_task (qi_task it) p else p)"
        using assms x Inr
        by (auto simp: run_item_def bindP_def thenP_def catchP_def did_def queueP_def remove_item_def prog_defs)
      then show thesis
        using that(2)[OF _ own(2) False] tr q by auto
    qed
  qed
qed

text \<open>The items a pass still has to treat.\<close>

definition waiting :: "'e deps \<Rightarrow> pass \<Rightarrow> 'e machine \<Rightarrow> queue_item list" where
  "waiting d p n = filter (\<lambda>it. qi_task it \<notin> set (ps_deferred p)) (queue_items (dp_jsonl d) (nd_queue n))"

definition chain_stopped :: "pass \<Rightarrow> queue_item \<Rightarrow> bool" where
  "chain_stopped p it = (case qi_base it of None \<Rightarrow> False | Some b \<Rightarrow> b \<in> set (ps_blocked p))"

text \<open>
  The outcomes of a turn: nothing is waiting, the first item stays in the queue and is deferred, or its
  task has ended and it leaves the queue. Only the task of that item is started, and not behind a
  stopped predecessor.
\<close>

lemma queue_turn_cases:
  assumes "queue_turn cc d p n = (r, n')" "items (dp_jsonl d) (tq_files (nd_queue n)) = Inr its"
  obtains "waiting d p n = []" "r = Inr None" "n' = n"
  | it rest new where "waiting d p n = it # rest" "nd_trace n' = nd_trace n @ new"
      "item_events (qi_task it) (\<lambda>rc. rc = 4) new" "chain_stopped p it \<Longrightarrow> new = []"
      "nd_queue n' = nd_queue n" "r = Inr (Some (defer_task (qi_task it) p)) \<or> (\<exists>e. r = Inl e)"
  | it rest new rc where "waiting d p n = it # rest" "nd_trace n' = nd_trace n @ new"
      "item_events (qi_task it) (\<lambda>c. c = rc) new" "\<not> chain_stopped p it" "rc \<noteq> 4"
      "DidFinish (qi_task it) rc \<in> set new" "nd_queue n' = snd (remove_item it (nd_queue n))"
      "r = Inr (Some (if rc \<noteq> 0 then block_task (qi_task it) p else p))"
proof -
  have turn: "(case waiting d p n of [] \<Rightarrow> retP None
      | it # _ \<Rightarrow>
          if chain_stopped p it then retP (Some (defer_task (qi_task it) p))
          else bindP (stale_worktree d it) (\<lambda>stale.
            if stale then retP (Some (defer_task (qi_task it) p))
            else bindP (run_item cc d it p) (\<lambda>p'. retP (Some p')))) n = (r, n')"
    using assms
    by (simp add: queue_turn_def bindP_def queued_items_eq waiting_def queue_items_def chain_stopped_def cong: list.case_cong if_cong)
  show thesis
  proof (cases "waiting d p n")
    case Nil
    then show thesis
      using that(1) turn by (simp add: retP_def)
  next
    case (Cons it rest)
    show thesis
    proof (cases "chain_stopped p it")
      case True
      then have "r = Inr (Some (defer_task (qi_task it) p))" "n' = n"
        using turn Cons by (simp_all add: retP_def)
      then show thesis
        using that(2)[OF Cons, of "[]"] by simp
    next
      case False
      obtain y m where y: "stale_worktree d it n = (y, m)"
        by (cases "stale_worktree d it n")
      have fr: "nd_trace m = nd_trace n" "nd_queue m = nd_queue n"
        using quietD[OF quiet_stale y] by (simp_all add: frame_def)
      have turn: "(case y of Inl e \<Rightarrow> (Inl e, m)
          | Inr stale \<Rightarrow> (if stale then retP (Some (defer_task (qi_task it) p))
                        else bindP (run_item cc d it p) (\<lambda>p'. retP (Some p'))) m) = (r, n')"
        using turn Cons False y by (simp add: bindP_def cong: if_cong)
      show thesis
      proof (cases "y = Inr False")
        case False
        then show thesis
          using that(2)[OF Cons, of "[]"] turn fr by (auto simp: retP_def split: sum.splits if_splits)
      next
        case run: True
        obtain z k where z: "run_item cc d it p m = (z, k)"
          by (cases "run_item cc d it p m")
        have rz: "n' = k" "r = (case z of Inl e \<Rightarrow> Inl e | Inr p' \<Rightarrow> Inr (Some p'))"
          using turn run z by (auto simp: bindP_def retP_def split: sum.splits)
        from z show thesis
        proof (rule run_item_cases)
          fix new
          assume "nd_trace k = nd_trace m @ new" "item_events (qi_task it) (\<lambda>rc. rc = 4) new"
            "nd_queue k = nd_queue m" "z = Inr (defer_task (qi_task it) p) \<or> (\<exists>e. z = Inl e)"
          then show thesis
            using that(2)[OF Cons, of new] rz fr False by auto
        next
          fix new rc
          assume "nd_trace k = nd_trace m @ new" "item_events (qi_task it) (\<lambda>c. c = rc) new" "rc \<noteq> 4"
            "DidFinish (qi_task it) rc \<in> set new" "nd_queue k = snd (remove_item it (nd_queue m))"
            "z = Inr (if rc \<noteq> 0 then block_task (qi_task it) p else p)"
          then show thesis
            using that(3)[OF Cons, of new rc] rz fr False by auto
        qed
      qed
    qed
  qed
qed

section \<open>A pass ends\<close>

lemma removed_items:
  "items jl (tq_files q) = Inr its \<Longrightarrow>
   items jl (tq_files (snd (remove_item it q))) = Inr (filter (\<lambda>x. qi_name x \<noteq> qi_name it) its)"
  by (simp add: remove_item_def modifyP_def items_delete)

lemma queue_items_removed:
  "items jl (tq_files q) = Inr its \<Longrightarrow>
   queue_items jl (snd (remove_item it q)) = filter (\<lambda>x. qi_name x \<noteq> qi_name it) (queue_items jl q)"
  by (simp add: queue_items_def removed_items)

lemma waiting_defer: "waiting d (defer_task t p) n = filter (\<lambda>it. qi_task it \<noteq> t) (waiting d p n)"
  by (auto simp: waiting_def defer_task_def intro!: filter_cong)

lemma waiting_cong:
  "nd_queue n' = nd_queue n \<Longrightarrow> waiting d p n' = waiting d p n"
  by (simp add: waiting_def)

lemma waiting_removed:
  assumes "items (dp_jsonl d) (tq_files (nd_queue n)) = Inr its" "nd_queue n' = snd (remove_item it (nd_queue n))"
    "ps_deferred p' = ps_deferred p"
  shows "waiting d p' n' = filter (\<lambda>x. qi_name x \<noteq> qi_name it) (waiting d p n)"
  using assms by (simp add: waiting_def queue_items_removed conj_commute)

lemma shorter: "xs = x # rest \<Longrightarrow> \<not> P x \<Longrightarrow> length (filter P xs) < length xs"
  by (simp add: less_Suc_eq_le)

lemma turn_shrinks:
  assumes "queue_turn cc d p n = (Inr (Some p'), n')"
  shows "length (waiting d p' n') < length (waiting d p n)"
proof -
  obtain its where its: "items (dp_jsonl d) (tq_files (nd_queue n)) = Inr its"
    using assms by (auto simp: queue_turn_def bindP_Inr_iff queued_items_eq)
  show ?thesis
    using assms its
  proof (rule queue_turn_cases)
    fix it rest new
    assume w: "waiting d p n = it # rest" and q: "nd_queue n' = nd_queue n"
      and r: "Inr (Some p') = Inr (Some (defer_task (qi_task it) p)) \<or> (\<exists>e. Inr (Some p') = (Inl e :: exn + pass option))"
    have "waiting d p' n' = filter (\<lambda>x. qi_task x \<noteq> qi_task it) (waiting d p n)"
      using r by (simp add: waiting_defer waiting_cong[OF q])
    then show ?thesis
      using shorter[OF w, of "\<lambda>x. qi_task x \<noteq> qi_task it"] by simp
  next
    fix it rest new rc
    assume w: "waiting d p n = it # rest" and q: "nd_queue n' = snd (remove_item it (nd_queue n))"
      and r: "Inr (Some p') = (Inr (Some (if rc \<noteq> 0 then block_task (qi_task it) p else p)) :: exn + pass option)"
    have "ps_deferred p' = ps_deferred p"
      using r by (simp add: block_task_def)
    with its q have "waiting d p' n' = filter (\<lambda>x. qi_name x \<noteq> qi_name it) (waiting d p n)"
      by (rule waiting_removed)
    then show ?thesis
      using shorter[OF w, of "\<lambda>x. qi_name x \<noteq> qi_name it"] by simp
  qed simp
qed

lemma queue_loop_enough: "length (waiting d p n) < fuel \<Longrightarrow> \<exists>r n'. queue_loop cc d fuel p n = Some (r, n')"
proof (induction fuel arbitrary: p n)
  case (Suc fuel)
  obtain r m where t: "queue_turn cc d p n = (r, m)"
    by (cases "queue_turn cc d p n")
  show ?case
  proof (cases r)
    case (Inr o')
    then show ?thesis
      using t Suc turn_shrinks[of cc d p n _ m] by (cases o') force+
  qed (use t in simp)
qed simp

lemma queue_loop_mono: "queue_loop cc d fuel p n = Some x \<Longrightarrow> queue_loop cc d (fuel + extra) p n = Some x"
  by (induction fuel arbitrary: p n) (auto split: prod.splits sum.splits option.splits)

lemma queue_loop_fuel: "\<exists>r n'. queue_loop cc d (Suc (length (queue_items (dp_jsonl d) (nd_queue n)))) empty_pass n = Some (r, n')"
  by (rule queue_loop_enough) (simp add: waiting_def less_Suc_eq_le)

lemma queue_body_loop: "\<exists>fuel r n'. queue_loop cc d fuel empty_pass n = Some (r, n') \<and> queue_body cc d n = (r, n')"
proof -
  obtain r n' where l: "queue_loop cc d (Suc (length (queue_items (dp_jsonl d) (nd_queue n)))) empty_pass n = Some (r, n')"
    using queue_loop_fuel by blast
  moreover from this have "queue_body cc d n = (r, n')"
    by (simp add: queue_body_def)
  ultimately show ?thesis
    by blast
qed

text \<open>
  C15: A pass of the queue runner ends, whatever its collaborators do: one turn per queued item and one more
  are enough, since every turn either defers the task of an item or removes an item; more fuel changes
  nothing.
\<close>

theorem queue_pass_ends:
  "\<exists>r n'. queue_loop cc d (Suc (length (queue_items (dp_jsonl d) (nd_queue n))) + extra) empty_pass n = Some (r, n')
     \<and> queue_body cc d n = (r, n')"
proof -
  obtain r n' where l: "queue_loop cc d (Suc (length (queue_items (dp_jsonl d) (nd_queue n)))) empty_pass n = Some (r, n')"
    using queue_loop_fuel by blast
  then show ?thesis
    using queue_loop_mono[OF l] by (simp add: queue_body_def)
qed

section \<open>Chains\<close>

text \<open>
  A start in a trace is in chain order when it is the start of a listed item whose base, if that is the task
  of an earlier item, has ended with code 0 before.
\<close>

definition chain_ready :: "queue_item list \<Rightarrow> cli_event list \<Rightarrow> string \<Rightarrow> bool" where
  "chain_ready its before t =
     (\<exists>j<length its. qi_task (its ! j) = t \<and>
        (\<forall>i<j. qi_base (its ! j) = Some (qi_task (its ! i)) \<longrightarrow> DidFinish (qi_task (its ! i)) 0 \<in> set before))"

definition in_chain_order :: "queue_item list \<Rightarrow> cli_event list \<Rightarrow> bool" where
  "in_chain_order its T = (\<forall>before t after. T = before @ DidRun t # after \<longrightarrow> chain_ready its before t)"

definition has_ended :: "cli_event list \<Rightarrow> queue_item \<Rightarrow> bool" where
  "has_ended T it = (\<exists>rc. rc \<noteq> 4 \<and> DidFinish (qi_task it) rc \<in> set T)"

definition pass_result :: "'e deps \<Rightarrow> queue_item list \<Rightarrow> 'e machine \<Rightarrow> cli_event list \<Rightarrow> bool" where
  "pass_result d its n T =
     (in_chain_order its T \<and> queue_items (dp_jsonl d) (nd_queue n) = filter (\<lambda>it. \<not> has_ended T it) its)"

text \<open>After \<open>k\<close> turns the first \<open>k\<close> items have been treated; those that did not succeed are blocked.\<close>

definition pass_inv :: "'e deps \<Rightarrow> queue_item list \<Rightarrow> nat \<Rightarrow> pass \<Rightarrow> 'e machine \<Rightarrow> cli_event list \<Rightarrow> bool" where
  "pass_inv d its k p n T =
     (is_ok (items (dp_jsonl d) (tq_files (nd_queue n))) \<and> waiting d p n = drop k its \<and> pass_result d its n T \<and>
      (\<forall>i<k. qi_task (its ! i) \<in> set (ps_blocked p) \<or> DidFinish (qi_task (its ! i)) 0 \<in> set T))"

lemma chain_ready_mono: "chain_ready its U t \<Longrightarrow> set U \<subseteq> set V \<Longrightarrow> chain_ready its V t"
  unfolding chain_ready_def by (elim exE conjE) (intro exI conjI allI impI, auto)

lemma in_chain_order_append:
  assumes "in_chain_order its T" "\<forall>t. DidRun t \<in> set new \<longrightarrow> chain_ready its T t"
  shows "in_chain_order its (T @ new)"
  unfolding in_chain_order_def
proof (intro allI impI)
  fix U t V
  assume s: "T @ new = U @ DidRun t # V"
  then consider us where "T = U @ us" "us @ new = DidRun t # V" | us where "U = T @ us" "new = us @ DidRun t # V"
    by (auto simp: append_eq_append_conv2)
  then show "chain_ready its U t"
  proof cases
    case 1
    then show ?thesis
      using assms by (cases us) (auto simp: in_chain_order_def)
  next
    case 2
    then show ?thesis
      using assms(2) chain_ready_mono[of its T t U] by auto
  qed
qed

lemma drop_Cons: "drop k xs = x # rest \<Longrightarrow> k < length xs \<and> xs ! k = x \<and> drop (Suc k) xs = rest"
  by (metis Cons_nth_drop_Suc drop_all linorder_not_less list.discI list.inject)

lemma filter_other: "distinct (map f (x # rest)) \<Longrightarrow> filter (\<lambda>y. f y \<noteq> f x) (x # rest) = rest"
  by (simp add: filter_id_conv) (metis imageI)

lemma pass_turn:
  assumes inv: "pass_inv d its k p n T" and distinct: "distinct (map qi_task its)" "distinct (map qi_name its)"
    and turn: "queue_turn cc d p n = (r, n')"
  shows "\<exists>new. nd_trace n' = nd_trace n @ new \<and> pass_result d its n' (T @ new) \<and>
    (\<forall>p'. r = Inr (Some p') \<longrightarrow> pass_inv d its (Suc k) p' n' (T @ new))"
proof -
  obtain cur where cur: "items (dp_jsonl d) (tq_files (nd_queue n)) = Inr cur"
    using inv by (auto simp: pass_inv_def is_ok_iff)
  have res: "in_chain_order its T" "queue_items (dp_jsonl d) (nd_queue n) = filter (\<lambda>it. \<not> has_ended T it) its"
    and done': "\<And>i. i < k \<Longrightarrow> qi_task (its ! i) \<in> set (ps_blocked p) \<or> DidFinish (qi_task (its ! i)) 0 \<in> set T"
    using inv by (auto simp: pass_inv_def pass_result_def)
  have first: "k < length its \<and> its ! k = it \<and> drop (Suc k) its = rest \<and> distinct (map qi_task (it # rest))
      \<and> distinct (map qi_name (it # rest)) \<and> it \<in> set its"
    if "waiting d p n = it # rest" for it rest
  proof -
    have "drop k its = it # rest"
      using inv that by (simp add: pass_inv_def)
    then show ?thesis
      using drop_Cons[of k its it rest] distinct distinct_drop[of "map qi_task its" k] distinct_drop[of "map qi_name its" k]
      by (auto simp: drop_map)
  qed
  have ready: "chain_ready its T (qi_task it)" if "waiting d p n = it # rest" "\<not> chain_stopped p it" for it rest
    unfolding chain_ready_def
    using first[OF that(1)] that(2) done' by (intro exI[of _ k]) (auto simp: chain_stopped_def split: option.splits)
  have order: "in_chain_order its (T @ new)"
    if "waiting d p n = it # rest" "item_events (qi_task it) P new" "chain_stopped p it \<Longrightarrow> new = []" for it rest P new
    using in_chain_order_append[OF res(1)] ready[OF that(1)] that(2,3) by (cases "chain_stopped p it") (auto simp: item_events_def res(1))
  show ?thesis
    using turn cur
  proof (rule queue_turn_cases)
    assume "waiting d p n = []" "r = Inr None" "n' = n"
    then show ?thesis
      using inv by (intro exI[of _ "[]"]) (simp add: pass_inv_def)
  next
    fix it rest new
    assume w: "waiting d p n = it # rest" and new: "nd_trace n' = nd_trace n @ new"
      and ev: "item_events (qi_task it) (\<lambda>rc. rc = 4) new" "chain_stopped p it \<Longrightarrow> new = []"
      and q: "nd_queue n' = nd_queue n" and r: "r = Inr (Some (defer_task (qi_task it) p)) \<or> (\<exists>e. r = Inl e)"
    have "has_ended (T @ new) x = has_ended T x" for x
      using ev(1) by (auto simp: has_ended_def item_events_def)
    then have result: "pass_result d its n' (T @ new)"
      using order[OF w ev] res(2) q by (simp add: pass_result_def)
    have "waiting d (defer_task (qi_task it) p) n' = drop (Suc k) its"
      using first[OF w] filter_other[of qi_task it rest] by (simp add: waiting_defer waiting_cong[OF q] w)
    moreover have "qi_task (its ! i) \<in> set (ps_blocked (defer_task (qi_task it) p)) \<or> DidFinish (qi_task (its ! i)) 0 \<in> set (T @ new)"
      if "i < Suc k" for i
      using that done'[of i] first[OF w] by (cases "i = k") (auto simp: defer_task_def)
    ultimately show ?thesis
      using new result r q cur by (intro exI[of _ new]) (auto simp: pass_inv_def is_ok_iff)
  next
    fix it rest new rc
    assume w: "waiting d p n = it # rest" and new: "nd_trace n' = nd_trace n @ new"
      and ev: "item_events (qi_task it) (\<lambda>c. c = rc) new" "\<not> chain_stopped p it" and rc: "rc \<noteq> 4"
      and fin: "DidFinish (qi_task it) rc \<in> set new" and q: "nd_queue n' = snd (remove_item it (nd_queue n))"
      and r: "r = Inr (Some (if rc \<noteq> 0 then block_task (qi_task it) p else p))"
    let ?p = "if rc \<noteq> 0 then block_task (qi_task it) p else p"
    have same: "qi_name x = qi_name it \<longleftrightarrow> qi_task x = qi_task it" if "x \<in> set its" for x
      using that first[OF w] distinct by (metis distinct_map inj_onD)
    have "(\<exists>c. c \<noteq> 4 \<and> DidFinish u c \<in> set new) \<longleftrightarrow> u = qi_task it" for u
      using ev(1) rc fin unfolding item_events_def by blast
    then have "has_ended (T @ new) x \<longleftrightarrow> has_ended T x \<or> qi_task x = qi_task it" for x
      by (simp add: has_ended_def conj_disj_distribL ex_disj_distrib)
    then have "filter (\<lambda>x. qi_name x \<noteq> qi_name it) (filter (\<lambda>x. \<not> has_ended T x) its) = filter (\<lambda>x. \<not> has_ended (T @ new) x) its"
      using same by (auto intro!: filter_cong)
    then have result: "pass_result d its n' (T @ new)"
      using order[OF w ev(1)] ev(2) res(2) q cur by (simp add: pass_result_def queue_items_removed)
    have "ps_deferred ?p = ps_deferred p"
      by (simp add: block_task_def)
    with cur q have "waiting d ?p n' = filter (\<lambda>x. qi_name x \<noteq> qi_name it) (it # rest)"
      unfolding w[symmetric] by (rule waiting_removed)
    then have "waiting d ?p n' = drop (Suc k) its"
      using first[OF w] filter_other[of qi_name it rest] by simp
    moreover have "qi_task (its ! i) \<in> set (ps_blocked ?p) \<or> DidFinish (qi_task (its ! i)) 0 \<in> set (T @ new)"
      if "i < Suc k" for i
      using that done'[of i] first[OF w] fin by (cases "i = k") (auto simp: block_task_def)
    ultimately show ?thesis
      using new result r q removed_items[OF cur] by (intro exI[of _ new]) (auto simp: pass_inv_def is_ok_iff)
  qed
qed

lemma pass_loop:
  assumes "distinct (map qi_task its)" "distinct (map qi_name its)"
  shows "pass_inv d its k p n T \<Longrightarrow> queue_loop cc d fuel p n = Some (r, n') \<Longrightarrow>
    \<exists>new. nd_trace n' = nd_trace n @ new \<and> pass_result d its n' (T @ new)"
proof (induction fuel arbitrary: k p n T)
  case (Suc fuel)
  obtain x m where x: "queue_turn cc d p n = (x, m)"
    by (cases "queue_turn cc d p n")
  obtain new where new: "nd_trace m = nd_trace n @ new" "pass_result d its m (T @ new)"
    "\<And>p'. x = Inr (Some p') \<Longrightarrow> pass_inv d its (Suc k) p' m (T @ new)"
    using pass_turn[OF Suc.prems(1) assms x] by blast
  show ?case
  proof (cases "\<exists>p'. x = Inr (Some p')")
    case True
    then obtain p' where p': "x = Inr (Some p')"
      by blast
    then have "queue_loop cc d fuel p' m = Some (r, n')"
      using Suc.prems(2) x by simp
    then obtain new' where "nd_trace n' = nd_trace m @ new'" "pass_result d its n' ((T @ new) @ new')"
      using Suc.IH[OF new(3)[OF p']] by blast
    then show ?thesis
      using new(1) by (intro exI[of _ "new @ new'"]) simp
  next
    case False
    then show ?thesis
      using Suc.prems(2) x new(1,2) by (auto split: sum.splits option.splits)
  qed
qed simp

lemma pass_start:
  "queue_inv (dp_jsonl d) (nd_queue n) \<Longrightarrow>
   pass_inv d (queue_items (dp_jsonl d) (nd_queue n)) 0 empty_pass n []"
  by (simp add: pass_inv_def pass_result_def queue_inv_def waiting_def empty_pass_def in_chain_order_def has_ended_def)

lemma items_distinct_names:
  "queue_inv jl q \<Longrightarrow> distinct (map qi_name (queue_items jl q))"
  using item_names_distinct[of jl "tq_files q"] by (auto simp: queue_inv_def queue_items_def split: sum.split)

lemma phase_queue_eq:
  "phase_queue cc d n =
     (case acquire_lock (dp_kill d (tr_env (nd_tree n))) (dp_pid d) ''queue'' (tq_lock (nd_queue n)) of
        Inl e \<Rightarrow> (if is_queue_locked e then (Inr 3, n) else (Inl e, n))
      | Inr l \<Rightarrow>
          (case queue_body cc d (n\<lparr>nd_queue := (nd_queue n)\<lparr>tq_lock := l\<rparr>\<rparr>) of
             (r, m) \<Rightarrow>
               (case r of Inl e \<Rightarrow> if is_queue_locked e then Inr 3 else Inl e | Inr rc \<Rightarrow> Inr rc,
                m\<lparr>nd_queue := (nd_queue m)\<lparr>tq_lock := NoLock\<rparr>\<rparr>)))"
  by (simp add: phase_queue_def node_queue_lock_def with_lock_def catchP_def prog_defs split: sum.split prod.split)

lemma queue_items_lock [simp]: "queue_items jl (q\<lparr>tq_lock := l\<rparr>) = queue_items jl q"
  by (simp add: queue_items_def)

text \<open>
  C6: A pass of the queue runner keeps chains and loses no item. Every task it starts is a queued one, and if
  that item is chained on the task of an earlier item, that task has ended with code 0 earlier in the same
  pass. Afterwards the queue holds exactly the items whose task did not end in this pass (with a code other
  than 4, which means another loop holds the run lock), in their old order, whatever happened in between,
  an exception included. The lock of the queue is released. A runner that finds a live holder returns 3
  and changes nothing.
\<close>

theorem queue_runs_chains_in_order:
  assumes inv: "queue_inv (dp_jsonl d) (nd_queue n)"
    and distinct: "distinct (map qi_task (queue_items (dp_jsonl d) (nd_queue n)))"
    and run: "phase_queue cc d n = (r, n')"
  shows "(acquire_lock (dp_kill d (tr_env (nd_tree n))) (dp_pid d) ''queue'' (tq_lock (nd_queue n)) = Inl (QueueLocked msg)
            \<longrightarrow> r = Inr 3 \<and> n' = n)
       \<and> (\<exists>T. nd_trace n' = nd_trace n @ T \<and> in_chain_order (queue_items (dp_jsonl d) (nd_queue n)) T
            \<and> queue_items (dp_jsonl d) (nd_queue n') = filter (\<lambda>it. \<not> has_ended T it) (queue_items (dp_jsonl d) (nd_queue n))
            \<and> (n' \<noteq> n \<longrightarrow> tq_lock (nd_queue n') = NoLock))"
proof (cases "acquire_lock (dp_kill d (tr_env (nd_tree n))) (dp_pid d) ''queue'' (tq_lock (nd_queue n))")
  case (Inl e)
  then have "n' = n" "is_queue_locked e \<Longrightarrow> r = Inr 3"
    using run by (auto simp: phase_queue_eq split: if_splits)
  then show ?thesis
    using Inl by (auto simp: is_queue_locked_def in_chain_order_def has_ended_def)
next
  case (Inr l)
  let ?n = "n\<lparr>nd_queue := (nd_queue n)\<lparr>tq_lock := l\<rparr>\<rparr>" and ?its = "queue_items (dp_jsonl d) (nd_queue n)"
  obtain fuel x m where loop: "queue_loop cc d fuel empty_pass ?n = Some (x, m)" and body: "queue_body cc d ?n = (x, m)"
    using queue_body_loop by blast
  have "queue_inv (dp_jsonl d) (nd_queue ?n)"
    using inv by (simp add: queue_inv_def)
  then have "pass_inv d ?its 0 empty_pass ?n []"
    using pass_start[of d ?n] by simp
  then obtain T where T: "nd_trace m = nd_trace ?n @ T" "pass_result d ?its m T"
    using pass_loop[OF distinct items_distinct_names[OF inv] _ loop] by fastforce
  have "n' = m\<lparr>nd_queue := (nd_queue m)\<lparr>tq_lock := NoLock\<rparr>\<rparr>"
    using run Inr body by (simp add: phase_queue_eq)
  then show ?thesis
    using T Inr by (auto simp: pass_result_def)
qed

section \<open>A refused item\<close>

text \<open>
  A queued task that the loop refuses (here: its spec became a draft, or lost its front matter, after it
  was queued; code 2) leaves the queue although it never ran: no loop is started, no event is recorded
  in its log by the runner, and the item is removed with its task blocked as a base.
\<close>

theorem refused_item_is_dropped:
  assumes items: "items (dp_jsonl d) (tq_files (nd_queue n)) = Inr (it # rest)"
    and pass: "qi_task it \<notin> set (ps_deferred p)" "qi_base it = None"
    and lock: "is_ok (acquire_lock (dp_kill d (tr_env (nd_tree n))) (dp_pid d) (qi_task it) (nd_locks n (qi_task it)))"
    and tree: "dp_worktree d (qi_task it) None (nd_tree n) = (Inr (), tr)"
    and refused: "spec_result d (TaskTree (qi_task it)) (qi_task it) tr = Inr (Inl 2)"
  shows "\<exists>n'. queue_turn cc d p n = (Inr (Some (block_task (qi_task it) p)), n')
           \<and> nd_trace n' = nd_trace n @ [DidFinish (qi_task it) 2] \<and> nd_tree n' = tr
           \<and> queue_items (dp_jsonl d) (nd_queue n') = filter (\<lambda>x. qi_name x \<noteq> qi_name it) rest"
proof -
  let ?t = "qi_task it"
  obtain l where l: "acquire_lock (dp_kill d (tr_env (nd_tree n))) (dp_pid d) ?t (nd_locks n ?t) = Inr l"
    using lock by (auto simp: is_ok_iff)
  let ?m = "n\<lparr>nd_locks := (nd_locks n)(?t := l), nd_tree := tr\<rparr>"
  have "phase_loop_locked cc d ?t True False None (n\<lparr>nd_locks := (nd_locks n)(?t := l)\<rparr>) = (Inr 2, ?m)"
    using tree refused
    by (simp add: phase_loop_locked_def loop_gates_def load_spec_def thenP_def bindP_def treeP_def askT_def prog_defs)
  then have loop: "phase_loop cc d ?t True False None n = (Inr 2, ?m\<lparr>nd_locks := (nd_locks ?m)(?t := NoLock)\<rparr>)"
    using l by (simp add: phase_loop_def catchP_def run_lock_of_eq del: fun_upd_apply)
  let ?k = "n\<lparr>nd_tree := tr, nd_locks := (nd_locks ?m)(?t := NoLock), nd_trace := nd_trace n @ [DidFinish ?t 2],
      nd_queue := snd (remove_item it (nd_queue n))\<rparr>"
  have "run_item cc d it p n = (Inr (block_task ?t p), ?k)"
    using loop pass(2)
    by (simp add: run_item_def catchP_def bindP_def thenP_def did_def queueP_def remove_item_def prog_defs del: fun_upd_apply)
  then have "queue_turn cc d p n = (Inr (Some (block_task ?t p)), ?k)"
    using items pass
    by (simp add: queue_turn_def bindP_def queued_items_eq stale_worktree_def retP_def del: fun_upd_apply)
  moreover have "queue_items (dp_jsonl d) (nd_queue ?k) = filter (\<lambda>x. qi_name x \<noteq> qi_name it) rest"
    using queue_items_removed[OF items] items by (simp add: queue_items_def)
  ultimately show ?thesis
    by (intro exI[of _ ?k]) simp
qed

section \<open>The selection\<close>

lemma parse_tokens_concat:
  "parse_tokens u acc ts = bindR (mapR (token_range u) ts) (\<lambda>rs. Inr (acc @ concat rs))"
  by (induction ts arbitrary: acc) (auto simp: bindR_def split: sum.splits)

lemma token_range_bounds: "token_range u t = Inr is' \<Longrightarrow> i \<in> set is' \<Longrightarrow> 1 \<le> i \<and> i \<le> u"
  by (auto simp: token_range_def Let_def split: option.splits if_splits)

text \<open>
  The selection a Director types is read token by token: commas count as blanks, each token denotes a
  number or a range, the first bad token refuses all of them, and otherwise the result is the
  concatenation of the ranges in the order typed, every position being one of the list shown.
\<close>

theorem selection_is_concat:
  "parse_selection raw u = bindR (mapR (token_range u) (words (commas_to_spaces raw))) (\<lambda>rs. Inr (concat rs))
   \<and> (parse_selection raw u = Inr picks \<longrightarrow> set picks \<subseteq> {1..u})"
proof -
  have eq: "parse_selection raw u = bindR (mapR (token_range u) (words (commas_to_spaces raw))) (\<lambda>rs. Inr (concat rs))"
    by (simp add: parse_selection_def parse_tokens_concat)
  moreover have "set picks \<subseteq> {1..u}" if ok: "parse_selection raw u = Inr picks"
  proof
    fix i assume i: "i \<in> set picks"
    then obtain rs r where "mapR (token_range u) (words (commas_to_spaces raw)) = Inr rs" "r \<in> set rs" "i \<in> set r"
      using ok i unfolding eq bindR_Inr_iff by auto
    then show "i \<in> {1..u}"
      using token_range_bounds mapR_Inr_mem by fastforce
  qed
  ultimately show ?thesis
    by blast
qed

section \<open>Discovery\<close>

lemma derive_status_reads: "snd (derive_status d queued u n) = n"
  by (simp add: derive_status_def local_task_log_def read_task_log_def raises_def askT_def bindP_def thenP_def prog_defs
      split: sum.split option.split)

lemma statuses_stop:
  assumes "t \<in> set ts" "fst (derive_status d queued t n) = Inl e"
  shows "\<exists>e'. statuses d queued ts n = (Inl e', n)"
  using assms(1)
proof (induction ts)
  case (Cons u us)
  obtain r where r: "derive_status d queued u n = (r, n)"
    using derive_status_reads by (metis surjective_pairing)
  show ?case
  proof (cases "u = t")
    case True
    then show ?thesis
      using assms(2) r by (simp add: bindP_def)
  next
    case False
    then have "\<exists>e'. statuses d queued us n = (Inl e', n)"
      using Cons by simp
    then show ?thesis
      using r by (cases r) (auto simp: bindP_def)
  qed
qed simp

text \<open>
  One spec file of the default branch that is not UTF-8 stops every listing of tasks: the status report
  and both discovering ways to enqueue raise, and nothing is queued.
\<close>

theorem undecodable_spec_stops_discovery:
  assumes refresh: "dp_refresh d (nd_tree n) = (Inr (), tr)" and listed: "t \<in> set (dp_specs d tr)"
    and bytes: "dp_spec d BaseClone t tr = Some bytes" "decode_text bytes = Inl e"
  shows "(\<exists>e'. phase_status d n = (Inl e', n\<lparr>nd_tree := tr\<rparr>)) \<and>
         (\<exists>e'. phase_enqueue_all d skip n = (Inl e', n\<lparr>nd_tree := tr\<rparr>)) \<and>
         (\<exists>e'. phase_enqueue_pick d skip n = (Inl e', n\<lparr>nd_tree := tr\<rparr>))"
proof -
  let ?n = "n\<lparr>nd_tree := tr\<rparr>"
  have "fst (derive_status d queued t ?n) = Inl e" for queued
    using bytes by (simp add: derive_status_def spec_text_def askT_def bindP_def prog_defs)
  then have stop: "\<exists>e'. statuses d queued (dp_specs d tr) ?n = (Inl e', ?n)" for queued
    using statuses_stop listed by metis
  have list': "\<exists>e'. bindP (queued_tasks d) (\<lambda>queued. bindP (askT (dp_specs d)) (\<lambda>ts. bindP (statuses d queued ts) k)) ?n = (Inl e', ?n)"
    for k :: "(string \<times> task_status) list \<Rightarrow> ('a machine, 'b) prog"
  proof (cases "items (dp_jsonl d) (tq_files (nd_queue n))")
    case (Inr its)
    obtain e' where "statuses d (map qi_task its) (dp_specs d tr) ?n = (Inl e', ?n)"
      using stop by blast
    then show ?thesis
      using Inr by (simp add: queued_tasks_def queued_items_def askT_def bindP_def prog_defs)
  qed (simp add: queued_tasks_def queued_items_def bindP_def prog_defs)
  have cands: "\<exists>e'. enqueue_candidates d b ?n = (Inl e', ?n)" for b
    unfolding enqueue_candidates_def by (rule list')
  have bind_ret: "bindP m retP = (m :: ('a machine, 'c) prog)" for m
    by (auto simp: bindP_def retP_def fun_eq_iff split: prod.split sum.split)
  have "\<exists>e'. phase_status d n = (Inl e', ?n)"
    using list'[of retP] refresh by (simp add: phase_status_def thenP_def bindP_def[of "treeP _"] treeP_def bind_ret)
  then show ?thesis
    using cands[of False] cands[of True] refresh
    by (auto simp: phase_enqueue_all_def phase_enqueue_pick_def thenP_def bindP_def treeP_def)
qed

end
