(* ===== verification/Config.thy ===== *)
theory Config
  imports Agents Quota Cli_Node
begin

text \<open>
  Model of \<open>src/orchestrator/config.py\<close>: the configuration of the engine from its environment, with the
  commands of the agents, the bindings of roles to vendors, and the runner of a role
  (\<open>src/orchestrator/run.py\<close>). The environment is a list of pairs in the order of the mapping.
\<close>

section \<open>Splitting a command line\<close>

text \<open>
  \<open>shlex.split\<close> in its POSIX mode without comments: the state between words, inside a word, inside quotes,
  and after a backslash (with the state to return to).
\<close>

datatype lex_state = Between | InWord | InQuote char | Escaped "char option"

definition lex_space :: "char \<Rightarrow> bool" where
  "lex_space c = (c \<in> {CHR '' '', CHR 0x09, CHR 0x0D, CHR 0x0A})"

definition is_quote :: "char \<Rightarrow> bool" where
  "is_quote c = (c = CHR 0x27 \<or> c = CHR 0x22)"

abbreviation backslash :: char where
  "backslash \<equiv> CHR 0x5C"

primrec lex :: "lex_state \<Rightarrow> string \<Rightarrow> bool \<Rightarrow> string \<Rightarrow> exn + string list" where
  "lex st tok quoted [] =
     (case st of
        Between \<Rightarrow> Inr []
      | InWord \<Rightarrow> Inr (if tok \<noteq> [] \<or> quoted then [tok] else [])
      | InQuote _ \<Rightarrow> Inl ValueError
      | Escaped _ \<Rightarrow> Inl ValueError)"
| "lex st tok quoted (c # cs) =
     (case st of
        Between \<Rightarrow>
          (if lex_space c then lex Between [] False cs
           else if c = backslash then lex (Escaped None) [] False cs
           else if is_quote c then lex (InQuote c) [] False cs
           else lex InWord [c] False cs)
      | InWord \<Rightarrow>
          (if lex_space c then
             (if tok \<noteq> [] \<or> quoted then bindR (lex Between [] False cs) (\<lambda>ts. Inr (tok # ts))
              else lex Between [] False cs)
           else if is_quote c then lex (InQuote c) tok quoted cs
           else if c = backslash then lex (Escaped None) tok quoted cs
           else lex InWord (tok @ [c]) quoted cs)
      | InQuote q \<Rightarrow>
          (if c = q then lex InWord tok True cs
           else if c = backslash \<and> q = CHR 0x22 then lex (Escaped (Some q)) tok True cs
           else lex (InQuote q) (tok @ [c]) True cs)
      | Escaped None \<Rightarrow> lex InWord (tok @ [c]) quoted cs
      | Escaped (Some q) \<Rightarrow>
          lex (InQuote q) (tok @ (if c \<noteq> backslash \<and> c \<noteq> q then [backslash, c] else [c])) quoted cs)"

definition shlex_split :: "string \<Rightarrow> exn + string list" where
  "shlex_split s = lex Between [] False s"

section \<open>The commands\<close>

definition default_claude_cmd :: "string list" where
  "default_claude_cmd = [''claude'', ''-p'', ''--dangerously-skip-permissions'', ''--output-format'', ''json'']"

definition default_codex_cmd :: "string list" where
  "default_codex_cmd = [''codex'', ''exec'', ''--full-auto'']"

definition default_senior_cmd :: "string list" where
  "default_senior_cmd = default_claude_cmd @ [''--model'', ''claude-opus-4-8'']"

definition default_rw2_cmd :: "string list" where
  "default_rw2_cmd = default_claude_cmd @ [''--model'', ''sonnet'']"

definition dangerous_agent_flags :: "string list" where
  "dangerous_agent_flags = [''--dangerously-skip-permissions'', ''--full-auto'']"

definition default_claude_review_cmd :: "string list" where
  "default_claude_review_cmd =
     [''claude'', ''-p'', ''--output-format'', ''json'', ''--allowedTools'', ''Read,Grep,Glob'']"

definition default_codex_review_cmd :: "string list" where
  "default_codex_review_cmd = [''codex'', ''exec'', ''--sandbox'', ''read-only'']"

definition default_senior_review_cmd :: "string list" where
  "default_senior_review_cmd = default_claude_review_cmd @ [''--model'', ''claude-opus-4-8'']"

text \<open>An unset and an empty variable are the same here.\<close>

definition claude_cmd :: "string option \<Rightarrow> exn + string list" where
  "claude_cmd raw =
     (case raw of
        None \<Rightarrow> Inr []
      | Some r \<Rightarrow>
          if r = [] then Inr []
          else bindR (shlex_split r) (\<lambda>parts.
            Inr (if ''--output-format'' \<in> set parts then parts else parts @ [''--output-format'', ''json''])))"

definition plain_cmd :: "string option \<Rightarrow> exn + string list" where
  "plain_cmd raw = (case raw of None \<Rightarrow> Inr [] | Some r \<Rightarrow> if r = [] then Inr [] else shlex_split r)"

definition least_privilege :: "string list \<Rightarrow> string list" where
  "least_privilege parts = filter (\<lambda>p. p \<notin> set dangerous_agent_flags) parts"

definition review_cmd :: "string option \<Rightarrow> string list \<Rightarrow> bool \<Rightarrow> exn + string list" where
  "review_cmd raw default_cmd claude =
     (case raw of
        None \<Rightarrow> Inr default_cmd
      | Some r \<Rightarrow>
          if r = [] then Inr default_cmd
          else bindR (if claude then claude_cmd raw else shlex_split r) (\<lambda>parts. Inr (least_privilege parts)))"

section \<open>Role bindings\<close>

record role_binding =
  rb_vendor :: "string option"
  rb_model :: "string option"
  rb_thinking :: "string option"

definition role_vendors :: "string list" where
  "role_vendors = [''claude'', ''codex'']"

type_synonym env = "(string \<times> string) list"

definition role_name_char :: "char \<Rightarrow> bool" where
  "role_name_char c = (is_digit c \<or> 65 \<le> ord c \<and> ord c \<le> 90 \<or> 97 \<le> ord c \<and> ord c \<le> 122)"

text \<open>
  \<open>_ROLE_ENV_RE\<close>: the role and the knob of a key, both in lower case; the dollar sign of the pattern also
  matches before a final line feed.
\<close>

definition role_knobs :: "string list" where
  "role_knobs = [''VENDOR'', ''MODEL'', ''THINKING'']"

definition role_key :: "string \<Rightarrow> (string \<times> string) option" where
  "role_key key =
     (if \<not> prefix ''ROLE_'' key then None
      else
        (let name = takeWhile role_name_char (drop 5 key); rest = dropWhile role_name_char (drop 5 key);
             knob = (if rest \<noteq> [] \<and> last rest = CHR 0x0A then butlast (drop 1 rest) else drop 1 rest) in
         if name \<noteq> [] \<and> prefix ''_'' rest \<and> knob \<in> set role_knobs then Some (lower name, lower knob) else None))"

text \<open>The bindings collected so far: a role in the order of its first key, with its knobs.\<close>

type_synonym knobs = "(string \<times> string) list"

definition collect_role :: "(string \<times> knobs) list \<Rightarrow> string \<times> string \<Rightarrow> (string \<times> knobs) list" where
  "collect_role acc kv =
     (case role_key (fst kv) of
        None \<Rightarrow> acc
      | Some (rl, knob) \<Rightarrow>
          (let v = strip (snd kv); old = (case map_of acc rl of Some ks \<Rightarrow> ks | None \<Rightarrow> []) in
           if v = [] then acc else AList.update rl (AList.update knob v old) acc))"

definition bind_role :: "string \<times> knobs \<Rightarrow> exn + (string \<times> role_binding)" where
  "bind_role rk =
     (let ks = map_of (snd rk); vendor = map_option lower (ks ''vendor'') in
      if (case vendor of None \<Rightarrow> False | Some v \<Rightarrow> v \<notin> set role_vendors) then Inl ConfigError
      else Inr (fst rk, \<lparr>rb_vendor = vendor, rb_model = ks ''model'', rb_thinking = ks ''thinking''\<rparr>))"

definition parse_role_bindings :: "env \<Rightarrow> exn + (string \<times> role_binding) list" where
  "parse_role_bindings env = mapR bind_role (foldl collect_role [] env)"

section \<open>The configuration\<close>

record orch_config =
  oc_repo_url :: string
  oc_work_root :: string
  oc_default_branch :: string
  oc_branch_remote :: string
  oc_max_loops :: int
  oc_fast_commands :: string
  oc_setup_commands :: string
  oc_claude_cmd :: "string list"
  oc_codex_cmd :: "string list"
  oc_rw2_cmd :: "string list"
  oc_senior_cmd :: "string list"
  oc_review_claude_cmd :: "string list"
  oc_review_codex_cmd :: "string list"
  oc_review_senior_cmd :: "string list"
  oc_role_bindings :: "(string \<times> role_binding) list"
  oc_ntfy_topic :: "string option"
  oc_ask_remote :: bool
  oc_reset_buffer_s :: int
  oc_backoff_minutes :: "int list"
  oc_max_wait_hours :: int

definition default_fast_commands :: string where
  "default_fast_commands = ''. .venv/bin/activate && ruff check . && basedpyright && pytest -n auto -q''"

definition default_setup_commands :: string where
  "default_setup_commands =
     ''test -d .venv || ${PYTHON_BIN:-python3} -m venv .venv ''
     @ ''&& . .venv/bin/activate && pip install -q -r requirements-dev.txt''"

definition env_get :: "env \<Rightarrow> string \<Rightarrow> string \<Rightarrow> string" where
  "env_get env name d = (case map_of env name of Some v \<Rightarrow> v | None \<Rightarrow> d)"

definition positive_int :: "env \<Rightarrow> string \<Rightarrow> string \<Rightarrow> exn + int" where
  "positive_int env name d =
     (case py_int (env_get env name d) of
        None \<Rightarrow> Inl ConfigError
      | Some v \<Rightarrow> if v < 1 then Inl ConfigError else Inr v)"

definition backoff_minutes :: "env \<Rightarrow> exn + int list" where
  "backoff_minutes env =
     (let parts = filter (\<lambda>p. strip p \<noteq> []) (split_on CHR '','' (env_get env ''QUOTA_BACKOFF_MINUTES'' ''15,30,60'')) in
      case mapR (\<lambda>p. case py_int p of Some v \<Rightarrow> Inr v | None \<Rightarrow> Inl ConfigError) parts of
        Inl e \<Rightarrow> Inl e
      | Inr ms \<Rightarrow> if ms = [] \<or> list_ex (\<lambda>m. m < 1) ms then Inl ConfigError else Inr ms)"

text \<open>\<open>from_env\<close>, in the order of its checks.\<close>

definition from_env :: "string \<Rightarrow> env \<Rightarrow> exn + orch_config" where
  "from_env home env =
     bindR (positive_int env ''MAX_LOOPS'' ''4'') (\<lambda>max_loops.
     bindR (backoff_minutes env) (\<lambda>backoff.
     if env_get env ''AGENT_REPO_URL'' [] = [] then Inl ConfigError
     else
       bindR (claude_cmd (map_of env ''CLAUDE_CMD'')) (\<lambda>claude.
       bindR (plain_cmd (map_of env ''CODEX_CMD'')) (\<lambda>codex.
       bindR (claude_cmd (map_of env ''RW2_CMD'')) (\<lambda>rw2.
       bindR (claude_cmd (map_of env ''SENIOR_CMD'')) (\<lambda>senior.
       bindR (review_cmd (map_of env ''REVIEW_CLAUDE_CMD'') default_claude_review_cmd True) (\<lambda>rclaude.
       bindR (review_cmd (map_of env ''REVIEW_CODEX_CMD'') default_codex_review_cmd False) (\<lambda>rcodex.
       bindR (review_cmd (map_of env ''REVIEW_SENIOR_CMD'') default_senior_review_cmd True) (\<lambda>rsenior.
       bindR (parse_role_bindings env) (\<lambda>bindings.
       bindR (positive_int env ''QUOTA_RESET_BUFFER_SECONDS'' ''120'') (\<lambda>reset.
       bindR (positive_int env ''QUOTA_MAX_WAIT_HOURS'' ''30'') (\<lambda>wait.
         Inr \<lparr>oc_repo_url = env_get env ''AGENT_REPO_URL'' [],
              oc_work_root = env_get env ''AGENT_WORK_ROOT'' (home @ ''/agent-work''),
              oc_default_branch = env_get env ''DEFAULT_BRANCH'' ''main'',
              oc_branch_remote = env_get env ''AGENT_BRANCH_REMOTE'' ''origin'',
              oc_max_loops = max_loops,
              oc_fast_commands = env_get env ''TEST_COMMANDS'' default_fast_commands,
              oc_setup_commands = env_get env ''SETUP_COMMANDS'' default_setup_commands,
              oc_claude_cmd = claude, oc_codex_cmd = codex, oc_rw2_cmd = rw2, oc_senior_cmd = senior,
              oc_review_claude_cmd = rclaude, oc_review_codex_cmd = rcodex, oc_review_senior_cmd = rsenior,
              oc_role_bindings = bindings, oc_ntfy_topic = or_none (env_get env ''NTFY_TOPIC'' []),
              oc_ask_remote = (map_of env ''LADDY_ASK_REMOTE'' = Some ''1''),
              oc_reset_buffer_s = reset, oc_backoff_minutes = backoff, oc_max_wait_hours = wait\<rparr>))))))))))))"

text \<open>The knobs a loop gets; a time is a number of microseconds.\<close>

definition loop_knobs :: "orch_config \<Rightarrow> cli_config" where
  "loop_knobs oc =
     \<lparr>cc_max_loops = oc_max_loops oc, cc_fast_commands = oc_fast_commands oc, cc_setup_commands = oc_setup_commands oc,
      cc_quota = \<lparr>reset_buffer = 1000000 * oc_reset_buffer_s oc,
                  backoff = map (\<lambda>m. 60000000 * m) (oc_backoff_minutes oc),
                  max_wait = 3600000000 * oc_max_wait_hours oc\<rparr>\<rparr>"

section \<open>The runner of a role\<close>

datatype runner_cmd = ClaudeCmd "string list" | CodexCmd "string list"

definition list_or :: "'a list \<Rightarrow> 'a list \<Rightarrow> 'a list" where
  "list_or xs d = (if xs = [] then d else xs)"

definition legacy_role_cmd :: "orch_config \<Rightarrow> string \<Rightarrow> string list" where
  "legacy_role_cmd oc rl =
     (if rl = ''rw2'' then list_or (oc_rw2_cmd oc) default_rw2_cmd
      else if rl = ''senior'' then list_or (oc_senior_cmd oc) default_senior_cmd
      else list_or (oc_claude_cmd oc) default_claude_cmd)"

definition with_model :: "string option \<Rightarrow> string list \<Rightarrow> string list" where
  "with_model m cmd = (case m of None \<Rightarrow> cmd | Some x \<Rightarrow> if x = [] then cmd else set_model_flag cmd x)"

definition resolve_runner :: "orch_config \<Rightarrow> string \<Rightarrow> runner_cmd" where
  "resolve_runner oc rl =
     (let b = map_of (oc_role_bindings oc) rl;
          vendor = (case Option.bind b rb_vendor of None \<Rightarrow> ''claude'' | Some v \<Rightarrow> nonempty_or v ''claude'');
          model = Option.bind b rb_model; thinking = Option.bind b rb_thinking in
      if vendor = ''claude'' then ClaudeCmd (with_model model (legacy_role_cmd oc rl))
      else
        CodexCmd (with_model model (list_or (oc_codex_cmd oc) default_codex_cmd)
          @ (case thinking of None \<Rightarrow> []
             | Some x \<Rightarrow> if x = [] then [] else [''-c'', ''model_reasoning_effort='' @ x])))"

section \<open>What every configuration satisfies\<close>

definition binding_ok :: "role_binding \<Rightarrow> bool" where
  "binding_ok b = (case rb_vendor b of None \<Rightarrow> True | Some v \<Rightarrow> v \<in> set role_vendors)"

definition json_cmd :: "string list \<Rightarrow> bool" where
  "json_cmd cmd = (cmd = [] \<or> ''--output-format'' \<in> set cmd)"

definition read_only_cmd :: "string list \<Rightarrow> bool" where
  "read_only_cmd cmd = (\<forall>f\<in>set dangerous_agent_flags. f \<notin> set cmd)"

lemma positive_int_pos: "positive_int env name d = Inr v \<Longrightarrow> 1 \<le> v"
  by (auto simp: positive_int_def split: option.splits if_splits)

lemma backoff_minutes_pos: "backoff_minutes env = Inr ms \<Longrightarrow> ms \<noteq> [] \<and> (\<forall>m\<in>set ms. 1 \<le> m)"
  by (auto simp: backoff_minutes_def Let_def list_ex_iff not_less split: sum.splits if_splits)

lemma claude_cmd_json: "claude_cmd raw = Inr cmd \<Longrightarrow> json_cmd cmd"
  by (auto simp: claude_cmd_def json_cmd_def bindR_Inr_iff split: option.splits if_splits)

lemma default_review_read_only:
  "read_only_cmd default_claude_review_cmd" "read_only_cmd default_codex_review_cmd" "read_only_cmd default_senior_review_cmd"
  by code_simp+

lemma least_privilege_read_only: "read_only_cmd (least_privilege parts)"
  by (simp add: read_only_cmd_def least_privilege_def)

lemma review_cmd_read_only: "review_cmd raw dflt b = Inr cmd \<Longrightarrow> read_only_cmd dflt \<Longrightarrow> read_only_cmd cmd"
  using least_privilege_read_only by (auto simp: review_cmd_def bindR_Inr_iff split: option.splits if_splits)

lemma bind_role_ok: "bind_role rk = Inr (r, b) \<Longrightarrow> binding_ok b"
  by (auto simp: bind_role_def binding_ok_def Let_def split: if_splits option.splits)

lemma parse_role_bindings_ok:
  assumes "parse_role_bindings env = Inr bs" "(r, b) \<in> set bs"
  shows "binding_ok b"
  using assms bind_role_ok mapR_Inr_mem unfolding parse_role_bindings_def by metis

text \<open>
  A configuration that is read at all is sound: it names a repository, its numbers are positive (the rounds
  of a loop, the quota buffer, the longest wait and every back-off step, of which there is one), a role is
  bound to a known vendor or to none, every configured Claude command asks for an output format, and no
  command of the local review panel carries one of the two flags that lift the permissions of an agent.
\<close>

theorem config_is_sound:
  assumes "from_env home env = Inr oc"
  shows "oc_repo_url oc \<noteq> [] \<and> 1 \<le> oc_max_loops oc \<and> 1 \<le> oc_reset_buffer_s oc \<and> 1 \<le> oc_max_wait_hours oc
       \<and> oc_backoff_minutes oc \<noteq> [] \<and> (\<forall>m\<in>set (oc_backoff_minutes oc). 1 \<le> m)
       \<and> (\<forall>(r, b)\<in>set (oc_role_bindings oc). binding_ok b)
       \<and> json_cmd (oc_claude_cmd oc) \<and> json_cmd (oc_rw2_cmd oc) \<and> json_cmd (oc_senior_cmd oc)
       \<and> read_only_cmd (oc_review_claude_cmd oc) \<and> read_only_cmd (oc_review_codex_cmd oc)
       \<and> read_only_cmd (oc_review_senior_cmd oc)"
  using assms
  by (auto simp: from_env_def bindR_Inr_iff positive_int_pos claude_cmd_json parse_role_bindings_ok
      dest: backoff_minutes_pos intro: review_cmd_read_only default_review_read_only split: if_splits)

section \<open>Roles without a binding\<close>

lemma unbound_parse:
  assumes "list_all (\<lambda>kv. role_key (fst kv) = None \<or> strip (snd kv) = []) env"
  shows "parse_role_bindings env = Inr []"
proof -
  have "foldl collect_role acc env = acc" for acc
    using assms by (induction env arbitrary: acc) (auto simp: collect_role_def Let_def split: option.split)
  then show ?thesis
    by (simp add: parse_role_bindings_def)
qed

lemma from_env_bindings: "from_env home env = Inr oc \<Longrightarrow> parse_role_bindings env = Inr (oc_role_bindings oc)"
  by (auto simp: from_env_def bindR_Inr_iff split: if_splits)

text \<open>
  In an environment without a role binding (no key of that form, or only blank values) every role runs the
  Claude command it had before bindings existed: that of its own variable for the second reviewer and the
  senior, that of the developer for every other role, and the built-in command where the variable is not set.
\<close>

theorem unbound_roles_run_legacy_command:
  assumes "from_env home env = Inr oc" "list_all (\<lambda>kv. role_key (fst kv) = None \<or> strip (snd kv) = []) env"
  shows "resolve_runner oc rl = ClaudeCmd (legacy_role_cmd oc rl)"
  using from_env_bindings[OF assms(1)] unbound_parse[OF assms(2)] by (simp add: resolve_runner_def with_model_def)

section \<open>What the filters let through\<close>

text \<open>
  An explicit other output format is kept, and a write grant that is not one of the two literal flags
  survives in a review command.
\<close>

lemma text_output_is_kept:
  "claude_cmd (Some ''claude -p --output-format text'') = Inr [''claude'', ''-p'', ''--output-format'', ''text'']"
  by code_simp

lemma write_grant_is_kept:
  "review_cmd (Some ''codex exec --sandbox workspace-write --full-auto'') default_codex_review_cmd False =
     Inr [''codex'', ''exec'', ''--sandbox'', ''workspace-write'']"
  by code_simp

section \<open>Witnesses\<close>

definition demo_env :: env where
  "demo_env = [(''AGENT_REPO_URL'', ''/hub.git''), (''MAX_LOOPS'', ''2''), (''CLAUDE_CMD'', ''claude 'a b' ''),
     (''REVIEW_CLAUDE_CMD'', ''claude --full-auto''), (''ROLE_RW1_VENDOR'', '' '')]"

definition demo_config :: orch_config where
  "demo_config = (case from_env ''/home/a'' demo_env of Inr oc \<Rightarrow> oc | Inl _ \<Rightarrow> undefined)"

lemma demo_env_ok: "is_ok (from_env ''/home/a'' demo_env)"
  by code_simp

lemma demo_config: "from_env ''/home/a'' demo_env = Inr demo_config"
  using demo_env_ok by (auto simp: demo_config_def is_ok_iff)

lemma demo_unbound: "list_all (\<lambda>kv. role_key (fst kv) = None \<or> strip (snd kv) = []) demo_env"
  by code_simp

theorem config_is_sound_witness: "read_only_cmd (oc_review_claude_cmd demo_config) \<and> 1 \<le> oc_max_loops demo_config"
  using config_is_sound[OF demo_config] by simp

theorem unbound_roles_run_legacy_command_witness:
  "resolve_runner demo_config ''rw1'' = ClaudeCmd (legacy_role_cmd demo_config ''rw1'')"
  by (rule unbound_roles_run_legacy_command[OF demo_config demo_unbound])

end
