(* ===== verification/Cli_Main.thy ===== *)
theory Cli_Main
  imports Cli_Queue_Facts Config Flags
begin

text \<open>
  The entry point of \<open>src/orchestrator/run.py\<close>: the rules for its arguments, the flag commands, and the
  dispatch to the phases. The arguments are what the parser of the standard library returns; breaking a
  rule exits with code 2, modelled as an exception of its own.
\<close>

section \<open>Arguments\<close>

datatype phase =
    NewPhase | ClarifyPhase | DesignPhase | LoopPhase | AllPhase | ResumePhase | EnqueuePhase | QueuePhase
  | QueueListPhase | StatusPhase | FlagPhase | FlagsPhase

record cli_args =
  ca_tasks :: "string list"
  ca_phase :: phase
  ca_new :: bool
  ca_skip :: bool
  ca_code_ready :: bool
  ca_chain :: bool
  ca_reason :: "string option"
  ca_brief :: "string option"
  ca_kind :: "string option"
  ca_summary :: "string option"
  ca_detail :: "string option"
  ca_round :: "int option"
  ca_needs_director :: bool
  ca_resolve :: "string option"
  ca_resolution :: string
  ca_note :: "string option"
  ca_pick :: bool
  ca_all :: bool

definition usage_error :: exn where
  "usage_error = OtherError ''SystemExit 2''"

definition single_task_phases :: "phase list" where
  "single_task_phases = [NewPhase, ClarifyPhase, DesignPhase, LoopPhase, AllPhase, ResumePhase, FlagPhase]"

definition raise_opts_given :: "cli_args \<Rightarrow> bool" where
  "raise_opts_given a =
     (ca_kind a \<noteq> None \<or> ca_summary a \<noteq> None \<or> ca_detail a \<noteq> None \<or> ca_needs_director a \<or> ca_round a \<noteq> None)"

definition flag_usage_ok :: "cli_args \<Rightarrow> bool" where
  "flag_usage_ok a =
     (if ca_resolve a \<noteq> None then \<not> raise_opts_given a
      else ca_note a = None \<and> ca_kind a \<noteq> None \<and> strip (case ca_summary a of None \<Rightarrow> [] | Some s \<Rightarrow> s) \<noteq> [])"

definition count_true :: "bool list \<Rightarrow> nat" where
  "count_true bs = length (filter (\<lambda>b. b) bs)"

definition enqueue_usage_ok :: "cli_args \<Rightarrow> bool" where
  "enqueue_usage_ok a =
     (count_true [ca_tasks a \<noteq> [], ca_pick a, ca_all a] = 1 \<and> \<not> (ca_chain a \<and> ca_tasks a = [])
      \<and> \<not> (ca_chain a \<and> length (ca_tasks a) < 2))"

definition no_code_ready_phases :: "phase list" where
  "no_code_ready_phases =
     [NewPhase, ResumePhase, EnqueuePhase, QueuePhase, QueueListPhase, StatusPhase, FlagPhase, FlagsPhase]"

definition cli_usage_ok :: "cli_args \<Rightarrow> bool" where
  "cli_usage_ok a =
     (let ph = ca_phase a in
      \<not> (ph \<in> set single_task_phases \<and> length (ca_tasks a) \<noteq> 1)
      \<and> \<not> ((ca_pick a \<or> ca_all a) \<and> ph \<noteq> EnqueuePhase)
      \<and> (ph = FlagPhase \<longrightarrow> flag_usage_ok a)
      \<and> (if ph = EnqueuePhase then enqueue_usage_ok a else \<not> ca_chain a)
      \<and> \<not> (ph \<in> {QueuePhase, QueueListPhase, StatusPhase} \<and> ca_tasks a \<noteq> [])
      \<and> \<not> (ca_code_ready a \<and> ph \<in> set no_code_ready_phases))"

section \<open>Flags\<close>

text \<open>The entry a flag operation adds to a log, without its time stamp.\<close>

definition added_entry :: "entry list \<Rightarrow> entry" where
  "added_entry log' = tl (last log')"

definition resolve_task_flag :: "'e deps \<Rightarrow> string \<Rightarrow> string \<Rightarrow> string \<Rightarrow> string option \<Rightarrow> ('e machine, bool) prog" where
  "resolve_task_flag d t fid resolution note =
     bindP (read_task_log d t) (\<lambda>es.
     bindP (askT (dp_now d)) (\<lambda>now.
     bindP (liftP (resolve_flag now fid resolution note False es)) (\<lambda>(ok, es').
       if ok then thenP (append_task d t (added_entry es')) (retP True) else retP False)))"

definition raise_task_flag ::
  "'e deps \<Rightarrow> string \<Rightarrow> string \<Rightarrow> string \<Rightarrow> string option \<Rightarrow> int option \<Rightarrow> bool \<Rightarrow> ('e machine, string) prog" where
  "raise_task_flag d t kind summary detail rnd needs =
     bindP (read_task_log d t) (\<lambda>es.
     bindP (askT (dp_now d)) (\<lambda>now.
     bindP (liftP (raise_flag t now kind summary detail rnd needs False es)) (\<lambda>(fid, es').
       thenP (append_task d t (added_entry es')) (retP fid))))"

definition some_text :: "string option \<Rightarrow> string" where
  "some_text x = (case x of None \<Rightarrow> [] | Some s \<Rightarrow> s)"

definition phase_flag :: "'e deps \<Rightarrow> string \<Rightarrow> cli_args \<Rightarrow> ('e machine, int) prog" where
  "phase_flag d t a =
     bindP (bindP (askT (dp_present d t)) (\<lambda>here.
         if here then retP True
         else
           thenP (treeP (dp_refresh d))
          (bindP (askT (dp_spec d BaseClone t)) (\<lambda>spec.
             if spec = None then retP False else thenP (treeP (dp_worktree d t None)) (retP True))))) (\<lambda>known.
       if \<not> known then retP 2
       else
         (case ca_resolve a of
            Some fid \<Rightarrow>
              catchP
                (bindP (resolve_task_flag d t fid (ca_resolution a) (ca_note a)) (\<lambda>ok. retP (if ok then 0 else 3)))
                (\<lambda>e. if is_value_error e then retP 2 else throwP e)
          | None \<Rightarrow>
              thenP (raise_task_flag d t (some_text (ca_kind a)) (some_text (ca_summary a)) (ca_detail a)
                       (ca_round a) (ca_needs_director a)) (retP 0)))"

text \<open>\<open>--phase flags\<close>: the tasks it prints, with their open flags.\<close>

primrec flag_reports :: "'e deps \<Rightarrow> string list \<Rightarrow> ('e machine, (string \<times> flag list) list) prog" where
  "flag_reports d [] = retP []"
| "flag_reports d (t # ts) =
     bindP (local_task_log d t) (\<lambda>es.
     bindP (flag_reports d ts) (\<lambda>rest.
       retP (if open_flags es = [] then rest else (t, open_flags es) # rest)))"

definition phase_flags :: "'e deps \<Rightarrow> string list \<Rightarrow> ('e machine, (string \<times> flag list) list) prog" where
  "phase_flags d ts =
     bindP (if ts \<noteq> [] then retP ts else askT (dp_worktrees d)) (flag_reports d)"

section \<open>Dispatch\<close>

definition dispatch_enqueue :: "'e deps \<Rightarrow> cli_args \<Rightarrow> ('e machine, int) prog" where
  "dispatch_enqueue d a =
     (if ca_all a then phase_enqueue_all d (ca_skip a)
      else if ca_pick a then phase_enqueue_pick d (ca_skip a)
      else phase_enqueue d (ca_tasks a) (ca_skip a) (ca_chain a))"

definition dispatch_task :: "cli_config \<Rightarrow> 'e deps \<Rightarrow> cli_args \<Rightarrow> string \<Rightarrow> ('e machine, int) prog" where
  "dispatch_task cc d a t =
     (let ph = ca_phase a in
      bindP (if ph = NewPhase \<or> ca_new a \<and> ph = AllPhase then phase_new d t (ca_brief a) else retP 0) (\<lambda>rc.
        if rc \<noteq> 0 \<or> ph = NewPhase then retP rc
        else
          bindP (if ph = ClarifyPhase \<or> ph = AllPhase then phase_clarify d t (ca_skip a) else retP 0) (\<lambda>rc.
            if rc \<noteq> 0 \<or> ph = ClarifyPhase then retP rc
            else if ph = DesignPhase then phase_design cc d t
            else if ph = ResumePhase then phase_resume cc d t (ca_reason a)
            else phase_loop cc d t (ca_skip a) (ca_code_ready a) None)))"

definition dispatch :: "cli_config \<Rightarrow> 'e deps \<Rightarrow> cli_args \<Rightarrow> ('e machine, int) prog" where
  "dispatch cc d a =
     (case ca_phase a of
        EnqueuePhase \<Rightarrow> dispatch_enqueue d a
      | QueuePhase \<Rightarrow> phase_queue cc d
      | QueueListPhase \<Rightarrow> thenP (phase_queue_list d) (retP 0)
      | StatusPhase \<Rightarrow> thenP (phase_status d) (retP 0)
      | FlagsPhase \<Rightarrow> thenP (phase_flags d (ca_tasks a)) (retP 0)
      | FlagPhase \<Rightarrow> phase_flag d (hd (ca_tasks a)) a
      | _ \<Rightarrow> dispatch_task cc d a (hd (ca_tasks a)))"

definition main :: "'e deps \<Rightarrow> string \<Rightarrow> env \<Rightarrow> cli_args \<Rightarrow> ('e machine, int) prog" where
  "main d home env a =
     (if \<not> cli_usage_ok a then throwP usage_error
      else bindP (liftP (from_env home env)) (\<lambda>oc. dispatch (loop_knobs oc) d a))"

section \<open>Only gated loops\<close>

abbreviation no_run :: "string \<Rightarrow> cli_event \<Rightarrow> bool" where
  "no_run t ev \<equiv> ev \<noteq> DidRun t"

lemma adds_write_spec [adds_intros]: "C (DidWriteSpec t) \<Longrightarrow> adds C (write_spec d t x)"
  and adds_push [adds_intros]: "C (DidPush t) \<Longrightarrow> adds C (push_task d t)"
  unfolding write_spec_def push_task_def by (intro adds_intros; assumption)+

lemma adds_new: "adds (no_run u) (phase_new d t brief)"
  unfolding phase_new_def Let_def by (intro adds_intros; simp)

lemma adds_refresh: "adds (no_run u) (refresh_stub_spec d t)"
  unfolding refresh_stub_spec_def by (intro adds_intros; simp)

lemma adds_attempts:
  "adds C (ci_run io p q) \<Longrightarrow> (\<And>p q. adds C (ci_run io p q)) \<Longrightarrow> adds C (clarify_attempts io rel k n p d)"
proof (induction k arbitrary: n p d)
  case (Suc k)
  then show ?case
    by (auto simp: Let_def intro!: adds_intros split: sum.split exn.split)
qed (simp add: adds_basic)

lemma adds_ask_all: "(\<And>q. adds C (ci_ask io q)) \<Longrightarrow> adds C (ask_all io qs)"
  by (induction qs) (auto intro!: adds_intros)

lemma adds_clarify: "adds (no_run u) (phase_clarify d t skip)"
proof -
  let ?io = "task_clarify_io d t"
  have io: "adds (no_run u) (ci_run ?io p q)" "adds (no_run u) (ci_ask ?io x)" "adds (no_run u) (ci_read_spec ?io)"
    "adds (no_run u) (ci_write_spec ?io y)" "adds (no_run u) (ci_append ?io e)" for p q x y e
    by (simp_all add: task_clarify_io_def) (intro adds_intros; simp)+
  have "adds (no_run u) (run_clarify_gate ?io rel)" for rel
    unfolding run_clarify_gate_def
    by (auto intro!: adds_intros adds_attempts adds_ask_all io split: prod.split)
  then show ?thesis
    unfolding phase_clarify_def by (intro adds_intros adds_refresh; simp)
qed

lemma adds_explore: "adds (no_run u) (explore_task cc d t spec)"
  by (auto simp: adds_def explore_task_def back_from_def list_all_iff split: prod.split)

lemma adds_design: "adds (no_run u) (phase_design cc d t)"
  unfolding phase_design_def build_gate_def by (intro adds_intros adds_explore; simp)

lemma adds_queue [adds_intros]: "adds C (queueP m)"
  by (auto simp: adds_def queueP_def split: prod.split)

lemma adds_enqueue_task [adds_intros]: "adds C (enqueue_task d t skip b)"
  by (auto simp: adds_def enqueue_task_def queueP_def split: prod.split)

lemma adds_enqueue_list: "adds C (enqueue_list d skip tbs)"
  by (induction tbs) (auto intro!: adds_intros)

lemma quiet_readers_queue [quiet_intros]:
  "quiet (queued_tasks d)" "quiet (derive_status d queued t)" "quiet (queued_items d)"
  unfolding queued_tasks_def queued_items_def derive_status_def by (intro quiet_intros)+

lemma quiet_statuses: "quiet (statuses d queued ts)"
  by (induction ts) (auto intro!: quiet_intros)

lemma quiet_validate: "quiet (validate_task d skip chain already t)"
  unfolding validate_task_def by (auto intro!: quiet_intros split: prod.split)

lemma quiet_validate_all: "quiet (validate_all d skip chain already ts)"
  by (induction ts) (auto intro!: quiet_intros quiet_validate)

lemma quiet_collect: "quiet (collect d skip ts)"
  by (induction ts) (auto simp: collectable_def intro!: quiet_intros)

lemma adds_phase_enqueue: "adds C (phase_enqueue d ts skip chain)"
  unfolding phase_enqueue_def
  by (intro adds_intros adds_enqueue_list quiet_validate_all [THEN adds_quiet] quiet_readers_queue [THEN adds_quiet])

lemma quiet_candidates: "quiet (enqueue_candidates d b)"
  unfolding enqueue_candidates_def by (intro quiet_intros quiet_statuses)

lemma adds_dispatch_enqueue: "adds C (dispatch_enqueue d a)"
  unfolding dispatch_enqueue_def phase_enqueue_all_def phase_enqueue_pick_def
  by (auto intro!: adds_intros adds_enqueue_list adds_phase_enqueue quiet_candidates [THEN adds_quiet] quiet_collect [THEN adds_quiet]
      split: list.split sum.split)

lemma adds_flag: "adds (no_run u) (phase_flag d t a)"
  unfolding phase_flag_def resolve_task_flag_def raise_task_flag_def
  by (auto intro!: adds_intros split: prod.split)

lemma quiet_flag_reports: "quiet (flag_reports d ts)"
  by (induction ts) (auto intro!: quiet_intros)

text \<open>Every start of a task has the given property.\<close>

definition starts :: "(string \<Rightarrow> bool) \<Rightarrow> cli_event \<Rightarrow> bool" where
  "starts G ev = (\<forall>u. ev = DidRun u \<longrightarrow> G u)"

lemma starts_simps [simp]:
  "starts G (DidRun u) \<longleftrightarrow> G u" "starts G (DidAppend u e)" "starts G (DidCommit u x)" "starts G (DidPush u)"
  "starts G (DidSync u)" "starts G (DidWriteSpec u)" "starts G (TaskEvent u ev)" "starts G (DidFinish u rc)"
  by (simp_all add: starts_def)

lemma starts_mono:
  assumes "adds (starts G) m" "\<And>u. G u \<Longrightarrow> G' u"
  shows "adds (starts G') m"
  unfolding adds_def
proof
  fix n
  obtain r n' where "m n = (r, n')"
    by (cases "m n")
  moreover from assms(1) this obtain new where "nd_trace n' = nd_trace n @ new" "list_all (starts G) new"
    by (rule addsE)
  ultimately show "\<exists>new. nd_trace (snd (m n)) = nd_trace n @ new \<and> list_all (starts G') new"
    using assms(2) by (intro exI[of _ new]) (auto simp: starts_def list_all_iff)
qed

lemma adds_starts: "(\<And>u. adds (no_run u) m) \<Longrightarrow> adds (starts G) m"
  unfolding adds_def
proof
  fix n
  assume a: "\<And>u. \<forall>n. \<exists>new. nd_trace (snd (m n)) = nd_trace n @ new \<and> list_all (no_run u) new"
  obtain new where new: "nd_trace (snd (m n)) = nd_trace n @ new"
    using a by blast
  have "list_all (no_run u) new" for u
    using a[of u] new by (metis same_append_eq)
  then show "\<exists>new. nd_trace (snd (m n)) = nd_trace n @ new \<and> list_all (starts G) new"
    using new by (intro exI[of _ new]) (auto simp: list_all_iff starts_def)
qed

definition gated :: "'e deps \<Rightarrow> bool \<Rightarrow> string \<Rightarrow> bool" where
  "gated d skip t = (\<exists>tr spec. may_start d t skip tr spec \<and> \<not> is_draft spec)"

lemma may_start_gated: "may_start d t skip tr spec \<Longrightarrow> gated d skip t"
  using spec_result_runnable unfolding gated_def may_start_def by blast

lemma locked_starts: "adds (starts (\<lambda>u. u = t \<and> gated d skip t)) (phase_loop_locked cc d t skip cr bt)"
  unfolding adds_def
proof
  fix n
  obtain r n' where run: "phase_loop_locked cc d t skip cr bt n = (r, n')"
    by (cases "phase_loop_locked cc d t skip cr bt n")
  obtain new where new: "nd_trace n' = nd_trace n @ new" "list_all (own_event t) new"
    using adds_loop_locked run by (rule addsE)
  have gate: "gated d skip t" if "DidRun t \<in> set new"
  proof -
    have "started t n n'"
      using that new(1) by (simp add: started_def)
    from locked_started[OF run this] show ?thesis
      using may_start_gated by blast
  qed
  have own: "own_event t ev" if "ev \<in> set new" for ev
    using new(2) that by (simp add: list_all_iff)
  have "starts (\<lambda>u. u = t \<and> gated d skip t) ev" if "ev \<in> set new" for ev
  proof (cases ev)
    case (DidRun u)
    then show ?thesis
      using own[OF that] gate that by simp
  qed simp_all
  then have "list_all (starts (\<lambda>u. u = t \<and> gated d skip t)) new"
    by (simp add: list_all_iff)
  then show "\<exists>new. nd_trace (snd (phase_loop_locked cc d t skip cr bt n)) = nd_trace n @ new
      \<and> list_all (starts (\<lambda>u. u = t \<and> gated d skip t)) new"
    using new(1) run by auto
qed

lemma loop_starts: "adds (starts (\<lambda>u. u = t \<and> gated d skip t)) (phase_loop cc d t skip cr bt)"
  unfolding phase_loop_def by (intro adds_intros locked_starts)

lemma resume_starts: "adds (starts (\<lambda>u. u = t \<and> gated d True t)) (phase_resume cc d t reason)"
  unfolding phase_resume_def Let_def by (intro adds_intros loop_starts; simp)

lemma run_item_starts: "adds (starts (gated d True)) (run_item cc d it p)"
proof -
  have "adds (starts (gated d True)) (phase_loop cc d (qi_task it) True False (qi_base it))"
    by (rule starts_mono[OF loop_starts]) auto
  then show ?thesis
    unfolding run_item_def by (intro adds_intros; simp)
qed

lemma turn_starts: "adds (starts (gated d True)) (queue_turn cc d p)"
  unfolding queue_turn_def
  by (auto intro!: adds_intros run_item_starts quiet_stale [THEN adds_quiet] quiet_readers_queue [THEN adds_quiet]
      split: list.split option.split)

lemma queue_loop_starts:
  "queue_loop cc d fuel p n = Some (r, n') \<Longrightarrow>
   \<exists>new. nd_trace n' = nd_trace n @ new \<and> list_all (starts (gated d True)) new"
proof (induction fuel arbitrary: p n)
  case (Suc fuel)
  obtain x m where x: "queue_turn cc d p n = (x, m)"
    by (cases "queue_turn cc d p n")
  obtain new where new: "nd_trace m = nd_trace n @ new" "list_all (starts (gated d True)) new"
    using turn_starts x by (rule addsE)
  show ?case
  proof (cases "\<exists>p'. x = Inr (Some p')")
    case True
    then obtain p' where "queue_loop cc d fuel p' m = Some (r, n')"
      using Suc.prems x by auto
    then obtain new' where "nd_trace n' = nd_trace m @ new'" "list_all (starts (gated d True)) new'"
      using Suc.IH by blast
    then show ?thesis
      using new by (intro exI[of _ "new @ new'"]) simp
  next
    case False
    then show ?thesis
      using Suc.prems x new by (auto split: sum.splits option.splits)
  qed
qed simp

lemma queue_starts: "adds (starts (gated d True)) (phase_queue cc d)"
  unfolding adds_def
proof
  fix n
  show "\<exists>new. nd_trace (snd (phase_queue cc d n)) = nd_trace n @ new \<and> list_all (starts (gated d True)) new"
  proof (cases "acquire_lock (dp_kill d (tr_env (nd_tree n))) (dp_pid d) ''queue'' (tq_lock (nd_queue n))")
    case (Inr l)
    let ?n = "n\<lparr>nd_queue := (nd_queue n)\<lparr>tq_lock := l\<rparr>\<rparr>"
    obtain r m fuel where "queue_loop cc d fuel empty_pass ?n = Some (r, m)" and b: "queue_body cc d ?n = (r, m)"
      using queue_body_loop by blast
    from queue_loop_starts[OF this(1)] show ?thesis
      using Inr b by (simp add: phase_queue_eq split: sum.split)
  qed (auto simp: phase_queue_eq)
qed

lemma dispatch_task_starts:
  assumes "ca_phase a \<notin> {EnqueuePhase, QueuePhase, QueueListPhase, StatusPhase, FlagPhase, FlagsPhase}"
  shows "adds (starts (\<lambda>u. u = t \<and> ca_phase a \<in> {LoopPhase, AllPhase, ResumePhase}
      \<and> gated d (ca_skip a \<or> ca_phase a = ResumePhase) t)) (dispatch_task cc d a t)"
    (is "adds (starts ?G) _")
proof -
  have loop: "adds (starts ?G) (phase_loop cc d t (ca_skip a) (ca_code_ready a) None)"
    if "ca_phase a \<in> {LoopPhase, AllPhase}"
    by (rule starts_mono[OF loop_starts]) (use that in auto)
  have resume: "adds (starts ?G) (phase_resume cc d t (ca_reason a))" if "ca_phase a = ResumePhase"
    by (rule starts_mono[OF resume_starts]) (use that in auto)
  show ?thesis
    unfolding dispatch_task_def Let_def
    by (intro adds_intros adds_starts[OF adds_new] adds_starts[OF adds_clarify] adds_starts[OF adds_design] loop resume)
      (use assms in \<open>cases "ca_phase a"; simp\<close>)+
qed


section \<open>The flag command\<close>

lemma append_task_cases:
  assumes "append_task d t flds n = (r, n')"
  shows "(\<exists>e. r = Inl e \<and> n' = n) \<or> (r = Inr () \<and> (let e = (''ts'', dp_now d (nd_tree n)) # flds in
     n' = n\<lparr>nd_tree := (nd_tree n)\<lparr>tr_log := (tr_log (nd_tree n))(t := tr_log (nd_tree n) t @ [e])\<rparr>,
            nd_trace := nd_trace n @ [DidAppend t e]\<rparr>))"
  using assms
  by (auto simp: append_task_def raises_def askT_def bindP_def thenP_def did_def prog_defs Let_def
      simp del: fun_upd_apply split: option.splits)

text \<open>One more entry in the log of a task, of a flag action that is not about an oracle escape, or nothing.\<close>

definition flag_append :: "string \<Rightarrow> 'e machine \<Rightarrow> 'e machine \<Rightarrow> bool" where
  "flag_append t n n' =
     (n' = n \<or> (\<exists>e. n' = n\<lparr>nd_tree := (nd_tree n)\<lparr>tr_log := (tr_log (nd_tree n))(t := tr_log (nd_tree n) t @ [e])\<rparr>,
                         nd_trace := nd_trace n @ [DidAppend t e]\<rparr>
        \<and> (has_action ''flag'' e \<and> dget e ''kind'' \<noteq> JStr oracle_escape \<or>
           has_action ''flag-resolved'' e \<and>
           (\<exists>f\<in>set (derive_flags (tr_log (nd_tree n) t)). dget e ''id'' = JStr (fl_id f) \<and> flag_status f = ''open''
              \<and> fl_kind f \<noteq> oracle_escape))))"

lemma raise_flag_entry:
  assumes "raise_flag t now kind summary detail rnd nd False log = Inr (fid, log')"
  shows "has_action ''flag'' ((''ts'', ts) # added_entry log') \<and> dget ((''ts'', ts) # added_entry log') ''kind'' \<noteq> JStr oracle_escape"
  using assms by (auto simp: raise_flag_def added_entry_def Let_def bindR_Inr_iff has_action_def dget_def split: if_splits)

lemma resolve_flag_entry:
  assumes "resolve_flag now fid res note False log = Inr (True, log')"
  shows "has_action ''flag-resolved'' ((''ts'', ts) # added_entry log') \<and>
    (\<exists>f\<in>set (derive_flags log). dget ((''ts'', ts) # added_entry log') ''id'' = JStr (fl_id f) \<and> flag_status f = ''open''
       \<and> fl_kind f \<noteq> oracle_escape)"
proof -
  obtain f where f: "find (\<lambda>f. fl_id f = fid) (derive_flags log) = Some f" "flag_status f = ''open''" "fl_kind f \<noteq> oracle_escape"
    and l: "log' = log @ [[(''ts'', now), (''action'', JStr ''flag-resolved''), (''id'', JStr fid), (''resolution'', JStr res)]
               @ (case note of None \<Rightarrow> [] | Some t \<Rightarrow> if t = [] then [] else [(''note'', JStr t)])]"
    using assms by (auto simp: resolve_flag_def split: if_splits option.splits)
  have "f \<in> set (derive_flags log)" "fl_id f = fid"
    using f(1) by (auto simp: find_Some_iff)
  then show ?thesis
    using f l by (intro conjI bexI[of _ f]) (auto simp: added_entry_def has_action_def dget_def)
qed

lemma resolve_task_appends: "resolve_task_flag d t fid res note n = (r, n') \<Longrightarrow> flag_append t n n'"
proof -
  assume run: "resolve_task_flag d t fid res note n = (r, n')"
  show ?thesis
  proof (cases "dp_log_fault d t (nd_tree n)")
    case None
    then have log: "read_task_log d t n = (Inr (tr_log (nd_tree n) t), n)"
      by (simp add: read_task_log_Inr)
    show ?thesis
    proof (cases "resolve_flag (dp_now d (nd_tree n)) fid res note False (tr_log (nd_tree n) t)")
      case (Inl e)
      then show ?thesis
        using run log by (simp add: resolve_task_flag_def bindP_def askT_def prog_defs flag_append_def)
    next
      case (Inr x)
      obtain ok log' where x: "x = (ok, log')"
        by (cases x)
      show ?thesis
      proof (cases ok)
        case True
        obtain q m where q: "append_task d t (added_entry log') n = (q, m)"
          by (cases "append_task d t (added_entry log') n")
        have "n' = m"
          using run log Inr x True q by (cases q) (simp_all add: resolve_task_flag_def bindP_def thenP_def askT_def prog_defs)
        then show ?thesis
          using append_task_cases[OF q] resolve_flag_entry Inr x True unfolding flag_append_def Let_def by metis
      qed (use run log Inr x in \<open>simp add: resolve_task_flag_def bindP_def askT_def prog_defs flag_append_def\<close>)
    qed
  next
    case (Some e)
    then show ?thesis
      using run by (simp add: resolve_task_flag_def read_task_log_def raises_def bindP_def thenP_def askT_def prog_defs flag_append_def)
  qed
qed

lemma raise_task_appends: "raise_task_flag d t kind summary detail rnd needs n = (r, n') \<Longrightarrow> flag_append t n n'"
proof -
  assume run: "raise_task_flag d t kind summary detail rnd needs n = (r, n')"
  show ?thesis
  proof (cases "dp_log_fault d t (nd_tree n)")
    case None
    then have log: "read_task_log d t n = (Inr (tr_log (nd_tree n) t), n)"
      by (simp add: read_task_log_Inr)
    show ?thesis
    proof (cases "raise_flag t (dp_now d (nd_tree n)) kind summary detail rnd needs False (tr_log (nd_tree n) t)")
      case (Inl e)
      then show ?thesis
        using run log by (simp add: raise_task_flag_def bindP_def askT_def prog_defs flag_append_def)
    next
      case (Inr x)
      obtain fid log' where x: "x = (fid, log')"
        by (cases x)
      obtain q m where q: "append_task d t (added_entry log') n = (q, m)"
        by (cases "append_task d t (added_entry log') n")
      have "n' = m"
        using run log Inr x q by (cases q) (simp_all add: raise_task_flag_def bindP_def thenP_def askT_def prog_defs)
      then show ?thesis
        using append_task_cases[OF q] raise_flag_entry Inr x unfolding flag_append_def Let_def by metis
    qed
  next
    case (Some e)
    then show ?thesis
      using run by (simp add: raise_task_flag_def read_task_log_def raises_def bindP_def thenP_def askT_def prog_defs flag_append_def)
  qed
qed

text \<open>
  The flag command adds at most one entry to the log of its task and touches nothing else when the task
  has a worktree on this node; the entry raises a flag or resolves one that was open, and never one of the
  Director's oracle escapes. For an unknown task it returns 2 without creating a worktree.
\<close>

theorem flag_command_only_appends:
  assumes "phase_flag d t a n = (r, n')"
  shows "(dp_present d t (nd_tree n) \<longrightarrow> flag_append t n n') \<and>
         (\<not> dp_present d t (nd_tree n) \<and> dp_refresh d (nd_tree n) = (Inr (), tr) \<and> dp_spec d BaseClone t tr = None \<longrightarrow>
            r = Inr 2 \<and> n' = n\<lparr>nd_tree := tr\<rparr>)"
proof (intro conjI impI)
  assume here: "dp_present d t (nd_tree n)"
  show "flag_append t n n'"
  proof (cases "ca_resolve a")
    case None
    obtain q m where q: "raise_task_flag d t (some_text (ca_kind a)) (some_text (ca_summary a)) (ca_detail a)
        (ca_round a) (ca_needs_director a) n = (q, m)"
      by (cases "raise_task_flag d t (some_text (ca_kind a)) (some_text (ca_summary a)) (ca_detail a)
        (ca_round a) (ca_needs_director a) n")
    have "n' = m"
      using assms here None q by (cases q) (simp_all add: phase_flag_def askT_def bindP_def thenP_def prog_defs)
    then show ?thesis
      using raise_task_appends[OF q] by simp
  next
    case (Some fid)
    obtain q m where q: "resolve_task_flag d t fid (ca_resolution a) (ca_note a) n = (q, m)"
      by (cases "resolve_task_flag d t fid (ca_resolution a) (ca_note a) n")
    have "n' = m"
      using assms here Some q
      by (cases q) (auto simp: phase_flag_def askT_def bindP_def catchP_def prog_defs split: if_splits)
    then show ?thesis
      using resolve_task_appends[OF q] by simp
  qed
next
  assume "\<not> dp_present d t (nd_tree n) \<and> dp_refresh d (nd_tree n) = (Inr (), tr) \<and> dp_spec d BaseClone t tr = None"
  then show "r = Inr 2" "n' = n\<lparr>nd_tree := tr\<rparr>"
    using assms by (simp_all add: phase_flag_def askT_def treeP_def bindP_def thenP_def prog_defs)
qed

end
