(* ===== verification/Cli_Demo.thy ===== *)
theory Cli_Demo
  imports Cli_Main Run_Theorems
begin

text \<open>
  The theorems about the command line at concrete inputs: one small machine with a queue, a task whose spec
  runs and a task whose spec is a draft.
\<close>

section \<open>The machine\<close>

text \<open>The environment counts nothing here; only the specs and the answer of a reset to the task branch vary.\<close>

definition demo_deps :: "(string \<Rightarrow> string option) \<Rightarrow> (nat wtree, unit) prog \<Rightarrow> nat deps" where
  "demo_deps spec sync =
     \<lparr>dp_worktree = (\<lambda>_ _. retP ()), dp_refresh = retP (), dp_ensure_base = retP (), dp_chain_ok = (\<lambda>_ _. retP True),
      dp_sync = (\<lambda>_. sync), dp_commit = (\<lambda>_ _. retP ()), dp_push = (\<lambda>_. retP ()), dp_fetch = (\<lambda>_. retP ()),
      dp_hub_spec = (\<lambda>_. retP None), dp_changed = (\<lambda>_. retP []), dp_spec_sha = (\<lambda>_. retP ''sha''),
      dp_present = (\<lambda>_ _. True), dp_is_dir = (\<lambda>_ _. True), dp_worktrees = (\<lambda>_. []), dp_spec = (\<lambda>_ t _. spec t),
      dp_specs = (\<lambda>_. [''t1'']), dp_write_spec = (\<lambda>_ _. retP ()), dp_copy_spec = (\<lambda>_. retP ()),
      dp_policy = (\<lambda>_. retP empty_policy), dp_log_fault = (\<lambda>_ _. None), dp_write_fault = (\<lambda>_ _ _. None),
      dp_now = (\<lambda>_. JStr ''now''), dp_ask = (\<lambda>_. retP ''approve''), dp_author = (\<lambda>_ _. retP ()),
      dp_clarify = (\<lambda>_ _ _. throwP GitError), dp_decode_error = (\<lambda>_. []), dp_kill = (\<lambda>_. demo_kill), dp_pid = 7,
      dp_jsonl = demo_queue_lib, dp_queue_now = (\<lambda>_. ''now''),
      dp_collab = (\<lambda>_. idle_collab (\<lambda>_. answer_with ''ok'') (retP ()) [])\<rparr>"

definition demo_node :: "entry list \<Rightarrow> nat machine" where
  "demo_node log =
     \<lparr>nd_tree = \<lparr>tr_env = 0, tr_log = (\<lambda>_. log), tr_files = (\<lambda>_. Map.empty)\<rparr>, nd_queue = demo_queue,
      nd_locks = (\<lambda>_. LockText (pid_text 8)), nd_trace = []\<rparr>"

definition demo_cc :: cli_config where
  "demo_cc = \<lparr>cc_max_loops = 4, cc_fast_commands = ''true'', cc_setup_commands = [], cc_quota = short_quota\<rparr>"

definition plain_spec :: string where
  "plain_spec = ''# Task''"

definition draft_spec :: string where
  "draft_spec = ''---'' @ [CHR 0x0A] @ ''status: draft-proposal'' @ [CHR 0x0A] @ ''---'' @ [CHR 0x0A]"

lemma plain_spec_runs:
  "decode_text plain_spec = Inr plain_spec" "is_ok (parse_spec_text plain_spec)"
  "list_all (\<lambda>s. \<not> is_draft s) (case parse_spec_text plain_spec of Inr s \<Rightarrow> [s] | Inl _ \<Rightarrow> [])"
  "list_all (\<lambda>s. \<not> spec_is_high_risk empty_policy plain_spec (spec_risk s))
     (case parse_spec_text plain_spec of Inr s \<Rightarrow> [s] | Inl _ \<Rightarrow> [])"
  by code_simp+

lemma draft_spec_refused:
  "decode_text draft_spec = Inr draft_spec"
  "list_all is_draft (case parse_spec_text draft_spec of Inr s \<Rightarrow> [s] | Inl _ \<Rightarrow> [])"
  by code_simp+

lemma undecodable: "decode_text [CHR 0xFF] = Inl UnicodeDecodeError"
  by code_simp

lemma stale_locks:
  "is_ok (acquire_lock demo_kill 7 ''t1'' (LockText (pid_text 8)))" "is_ok (acquire_lock demo_kill 7 ''a'' (LockText (pid_text 8)))"
  by code_simp+

section \<open>A task that runs\<close>

definition pushed_log :: "entry list" where
  "pushed_log = [log_entry ''clarify'' ''answered'', log_entry ''terminal'' ''PUSHED'']"

lemma pushed_log_facts: "recorded_terminal pushed_log = Some ''PUSHED''" "has_clarify pushed_log"
  by code_simp+

definition plain_task :: task_spec where
  "plain_task = (case parse_spec_text plain_spec of Inr s \<Rightarrow> s | Inl _ \<Rightarrow> undefined)"

lemma plain_task: "parse_spec_text plain_spec = Inr plain_task" "\<not> is_draft plain_task"
  "\<not> spec_is_high_risk empty_policy plain_spec (spec_risk plain_task)"
  using plain_spec_runs by (auto simp: plain_task_def is_ok_iff)

definition live_deps :: "nat deps" where
  "live_deps = demo_deps (\<lambda>_. Some plain_spec) (throwP GitError)"

lemma live_parts:
  "dp_worktree live_deps t b = retP ()" "dp_log_fault live_deps t = (\<lambda>_. None)" "dp_policy live_deps r = retP empty_policy"
  "dp_kill live_deps e = demo_kill" "dp_pid live_deps = 7" "dp_sync live_deps t = throwP GitError"
  "dp_write_fault live_deps t nm = (\<lambda>_. None)"
  by (simp_all add: live_deps_def demo_deps_def)

lemma live_spec: "spec_result live_deps r t tr = Inr (Inr plain_task)" "spec_text live_deps r t tr = Inr plain_spec"
  by (simp_all add: spec_result_def spec_text_def live_deps_def demo_deps_def plain_spec_runs(1) plain_task)

lemma live_run:
  "tr_log (nd_tree n) t = pushed_log \<Longrightarrow>
   \<exists>n'. orchestrate cc live_deps t plain_task n = (Inr ''PUSHED'', n') \<and> nd_trace n' = nd_trace n @ [DidRun t]"
  using pushed_log_facts(1)
  by (simp add: orchestrate_def Loop_Run.run_def task_collab_def task_config_def task_world_def live_deps_def demo_deps_def Let_def
      back_from_def did_def read_log_def envP_def idle_collab_def ioP_def bindP_def thenP_def prog_defs cong: if_cong)

lemma live_start:
  "tr_log (nd_tree n) t = pushed_log \<Longrightarrow>
   \<exists>n'. start_loop cc live_deps t plain_task n = (Inr 0, n') \<and> nd_trace n' = nd_trace n @ [DidRun t]"
proof -
  assume log: "tr_log (nd_tree n) t = pushed_log"
  obtain m where m: "thenP (write_task_file live_deps t role_plan_file (dumps_raw (c_json (dp_collab live_deps t)) (role_plan t plain_task) @ nl))
      (build_gate live_deps t plain_task) n = (Inr (), m)" "tr_log (nd_tree m) t = pushed_log" "nd_trace m = nd_trace n"
    using log by (simp add: write_task_file_def raises_def build_gate_def treeP_def askT_def thenP_def bindP_def prog_defs
        live_deps_def demo_deps_def split: if_splits)
  obtain n' where "orchestrate cc live_deps t plain_task m = (Inr ''PUSHED'', n')" "nd_trace n' = nd_trace m @ [DidRun t]"
    using live_run[OF m(2)] by blast
  then show ?thesis
    using m by (auto simp: start_loop_def loop_exit_def thenP_def bindP_def prog_defs split: prod.splits sum.splits)
qed

lemma live_gates:
  "tr_log (nd_tree n) t = pushed_log \<Longrightarrow> loop_gates live_deps t False n = (Inr (Inr plain_task), n)"
  using pushed_log_facts(2) plain_task(3)
  by (simp add: loop_gates_def read_task_log_def raises_def load_spec_def unapproved_def askT_def treeP_def thenP_def bindP_def
      prog_defs live_spec live_parts cong: if_cong)

lemma live_loop:
  "\<exists>n'. phase_loop cc live_deps ''t1'' False False None (demo_node pushed_log) = (Inr 0, n')
     \<and> nd_trace n' = [DidRun ''t1'']"
proof -
  obtain l where l: "acquire_lock demo_kill 7 ''t1'' (LockText (pid_text 8)) = Inr l"
    using stale_locks by (auto simp: is_ok_iff)
  let ?n = "(demo_node pushed_log)\<lparr>nd_locks := (nd_locks (demo_node pushed_log))(''t1'' := l)\<rparr>"
  have log: "tr_log (nd_tree ?n) ''t1'' = pushed_log"
    by (simp add: demo_node_def)
  obtain m where m: "start_loop cc live_deps ''t1'' plain_task ?n = (Inr 0, m)" "nd_trace m = nd_trace ?n @ [DidRun ''t1'']"
    using live_start[OF log] by blast
  have tree: "treeP (retP ()) ?n = (Inr (), ?n)"
    by (simp add: treeP_def prog_defs)
  have "phase_loop_locked cc live_deps ''t1'' False False None ?n = (Inr 0, m)"
    using m(1) live_gates[OF log] tree
    by (simp add: phase_loop_locked_def live_parts thenP_def bindP_def prog_defs del: fun_upd_apply)
  then show ?thesis
    using l m(2) by (simp add: phase_loop_def catchP_def run_lock_of_eq live_parts demo_node_def del: fun_upd_apply)
qed

lemma live_started:
  "phase_loop demo_cc live_deps ''t1'' False False None (demo_node pushed_log) = (r, n') \<Longrightarrow> started ''t1'' (demo_node pushed_log) n'"
  using live_loop[of demo_cc] by (auto simp: started_def demo_node_def)

theorem no_loop_before_gates_witness:
  "\<exists>n'. phase_loop demo_cc live_deps ''t1'' False False None (demo_node pushed_log) = (Inr 0, n')
     \<and> nd_locks n' ''t1'' = NoLock \<and> (\<exists>tr spec. may_start live_deps ''t1'' False tr spec)"
proof -
  obtain n' where n': "phase_loop demo_cc live_deps ''t1'' False False None (demo_node pushed_log) = (Inr 0, n')"
    using live_loop by blast
  show ?thesis
    using no_loop_before_gates[OF n'] live_started[OF n'] n' by blast
qed

section \<open>A resume\<close>

definition capped_log :: "entry list" where
  "capped_log = [log_entry ''terminal'' ''CAP_REACHED'']"

lemma capped_resumable: "resumable capped_log = Some ''CAP_REACHED''" "strip ''go on'' \<noteq> []"
  by code_simp+


section \<open>The queue\<close>

definition draft_deps :: "nat deps" where
  "draft_deps = demo_deps (\<lambda>_. Some draft_spec) (retP ())"

lemma draft_spec_result: "spec_result draft_deps r t tr = Inr (Inl 2)"
  using draft_spec_refused
  by (cases "parse_spec_text draft_spec") (simp_all add: spec_result_def draft_deps_def demo_deps_def)

lemma draft_parts:
  "dp_worktree draft_deps t b = retP ()" "dp_kill draft_deps e = demo_kill" "dp_pid draft_deps = 7"
  "dp_jsonl draft_deps = demo_queue_lib"
  by (simp_all add: draft_deps_def demo_deps_def)

definition item_a :: queue_item where
  "item_a = \<lparr>qi_name = ''0009-a.json'', qi_task = ''a'', qi_enqueued = ''now'', qi_skip = False, qi_base = None\<rparr>"

lemma demo_items: "items demo_queue_lib (tq_files demo_queue) = Inr [item_a]"
  by code_simp

lemma demo_items_node: "queue_items demo_queue_lib demo_queue = [item_a]"
  by (simp add: queue_items_def demo_items)

theorem queue_runs_chains_in_order_witness:
  "\<exists>r n' T. phase_queue demo_cc draft_deps (demo_node []) = (r, n') \<and> in_chain_order [item_a] T
     \<and> queue_items demo_queue_lib (nd_queue n') = filter (\<lambda>it. \<not> has_ended T it) [item_a]"
proof -
  obtain r n' where run: "phase_queue demo_cc draft_deps (demo_node []) = (r, n')"
    by (cases "phase_queue demo_cc draft_deps (demo_node [])")
  have q: "nd_queue (demo_node []) = demo_queue"
    by (simp add: demo_node_def)
  have "queue_inv (dp_jsonl draft_deps) (nd_queue (demo_node []))"
    "distinct (map qi_task (queue_items (dp_jsonl draft_deps) (nd_queue (demo_node []))))"
    by (simp_all add: draft_parts q demo_queue_inv demo_items_node)
  from queue_runs_chains_in_order[OF this run] show ?thesis
    using run unfolding draft_parts q demo_items_node by blast
qed

theorem refused_item_is_dropped_witness:
  "\<exists>n'. queue_turn demo_cc draft_deps empty_pass (demo_node []) = (Inr (Some (block_task ''a'' empty_pass)), n')
     \<and> nd_trace n' = [DidFinish ''a'' 2] \<and> queue_items demo_queue_lib (nd_queue n') = []"
proof -
  let ?n = "demo_node []"
  have hyps: "items (dp_jsonl draft_deps) (tq_files (nd_queue ?n)) = Inr (item_a # [])"
    "qi_task item_a \<notin> set (ps_deferred empty_pass)" "qi_base item_a = None"
    "is_ok (acquire_lock (dp_kill draft_deps (tr_env (nd_tree ?n))) (dp_pid draft_deps) (qi_task item_a) (nd_locks ?n (qi_task item_a)))"
    "dp_worktree draft_deps (qi_task item_a) None (nd_tree ?n) = (Inr (), nd_tree ?n)"
    by (simp_all add: draft_parts demo_items empty_pass_def item_a_def demo_node_def stale_locks retP_def)
  from refused_item_is_dropped[OF hyps draft_spec_result, of demo_cc] show ?thesis
    by (auto simp: item_a_def demo_node_def draft_parts)
qed

theorem selection_is_concat_witness:
  "parse_selection ''3, 1-2'' 4 = Inr [3, 1, 2] \<and> set [3, 1, 2] \<subseteq> {1..4::int}"
proof -
  have "parse_selection ''3, 1-2'' 4 = Inr [3, 1, 2]"
    by code_simp
  then show ?thesis
    using selection_is_concat[of "''3, 1-2''" 4 "[3, 1, 2]"] by blast
qed

section \<open>A broken file\<close>

theorem undecodable_spec_stops_discovery_witness:
  "\<exists>e. fst (phase_status (demo_deps (\<lambda>_. Some [CHR 0xFF]) (retP ())) (demo_node [])) = Inl e"
proof -
  let ?d = "demo_deps (\<lambda>_. Some [CHR 0xFF]) (retP ())" and ?n = "demo_node []"
  have "dp_refresh ?d (nd_tree ?n) = (Inr (), nd_tree ?n)" "''t1'' \<in> set (dp_specs ?d (nd_tree ?n))"
    "dp_spec ?d BaseClone ''t1'' (nd_tree ?n) = Some [CHR 0xFF]"
    by (simp_all add: demo_deps_def retP_def)
  from undecodable_spec_stops_discovery[OF this undecodable, of False] show ?thesis
    by auto
qed

section \<open>The program\<close>

definition demo_args :: "phase \<Rightarrow> cli_args" where
  "demo_args ph =
     \<lparr>ca_tasks = [''t1''], ca_phase = ph, ca_new = False, ca_skip = False, ca_code_ready = False, ca_chain = False,
      ca_reason = None, ca_brief = None, ca_kind = Some ''note'', ca_summary = Some ''look here'', ca_detail = None,
      ca_round = None, ca_needs_director = True, ca_resolve = None, ca_resolution = ''resolved'', ca_note = None,
      ca_pick = False, ca_all = False\<rparr>"

lemma demo_usage: "cli_usage_ok (demo_args LoopPhase)"
  by code_simp


lemma demo_raise: "is_ok (raise_flag ''t1'' (JStr ''now'') ''note'' ''look here'' None None True False [])"
  by code_simp

theorem flag_command_only_appends_witness:
  "\<exists>r n'. phase_flag live_deps ''t1'' (demo_args FlagPhase) (demo_node []) = (r, n') \<and> flag_append ''t1'' (demo_node []) n'
     \<and> r = Inr 0"
proof -
  let ?a = "demo_args FlagPhase"
  obtain fid log' where raised: "raise_flag ''t1'' (JStr ''now'') ''note'' ''look here'' None None True False [] = Inr (fid, log')"
    using demo_raise by (auto simp: is_ok_iff)
  obtain n' where run: "phase_flag live_deps ''t1'' ?a (demo_node []) = (Inr 0, n')"
    using raised
    by (simp add: phase_flag_def raise_task_flag_def append_task_def read_task_log_def raises_def some_text_def demo_args_def
        demo_node_def live_deps_def demo_deps_def askT_def did_def thenP_def bindP_def prog_defs Let_def del: fun_upd_apply)
  have "dp_present live_deps ''t1'' (nd_tree (demo_node []))"
    by (simp add: live_deps_def demo_deps_def)
  then show ?thesis
    using flag_command_only_appends[OF run] run by blast
qed

end
