(* ===== verification/Handoff.thy ===== *)
theory Handoff
  imports Loop_Phases Human_Text
begin

text \<open>
  Model of \<open>src/orchestrator/handoff.py\<close>: the summary and the handback a task leaves to the Director, built
  from its log, its flags and its verdict files. The texts of a log can come from the branch, so what
  matters is which of them reach the page raw.

  The three characters the module writes beyond U+00FF (the dash, the flag and the arrow) are arguments.
\<close>

record glyphs =
  gl_dash :: string
  gl_flag :: string
  gl_arrow :: string

section \<open>Untrusted pieces\<close>

definition clip :: "int \<Rightarrow> string \<Rightarrow> string" where
  "clip limit t = (case untrusted_inline_within limit t of Inr s \<Rightarrow> s | Inl _ \<Rightarrow> [])"

definition safe_inline :: "int \<Rightarrow> string \<Rightarrow> string" where
  "safe_inline limit t = (case splitlines t of [] \<Rightarrow> [] | l # _ \<Rightarrow> clip limit l)"

abbreviation backtick :: char where
  "backtick \<equiv> CHR 0x60"

primrec backtick_run :: "nat \<Rightarrow> nat \<Rightarrow> string \<Rightarrow> nat" where
  "backtick_run best run [] = best"
| "backtick_run best run (c # cs) =
     (let r = (if c = backtick then run + 1 else 0) in backtick_run (max best r) r cs)"

definition longest_backtick_run :: "string \<Rightarrow> nat" where
  "longest_backtick_run t = backtick_run 0 0 t"

definition fence_body :: "string \<Rightarrow> string list" where
  "fence_body t = map (\<lambda>l. if l \<noteq> [] then clip 1500 l else []) (splitlines t)"

definition fence_of :: "string list \<Rightarrow> string" where
  "fence_of body = replicate (max 3 (foldr max (map longest_backtick_run body) 0 + 1)) backtick"

definition fenced_untrusted :: "string \<Rightarrow> string list" where
  "fenced_untrusted t = (let body = fence_body t; fence = fence_of body in fence # body @ [fence])"

section \<open>Sections\<close>

definition flag_lines :: "flag \<Rightarrow> string list" where
  "flag_lines f =
     (''- ['' @ fl_kind f @ ''] '' @ fl_summary f @ '' ('' @ fl_id f @ '')''
        @ (if fl_needs_director f then '' (needs-director)'' else []))
     # (let extra = py_or (fl_note f) (fl_detail f) in
        if truthy extra then [''  '' @ safe_inline 200 (py_str extra)] else [])"

definition flags_section :: "glyphs \<Rightarrow> entry list \<Rightarrow> string list" where
  "flags_section g entries =
     (if open_flags entries = [] then []
      else [''## '' @ gl_flag g @ '' Flags'', []] @ concat (map flag_lines (open_flags entries)) @ [[]])"

definition resume_section :: "glyphs \<Rightarrow> entry list \<Rightarrow> string list" where
  "resume_section g entries =
     (let resumes = filter (\<lambda>e. dget e ''action'' = JStr ''director_resume'') entries in
      if resumes = [] then []
      else
        [''## '' @ gl_arrow g @ '' Director resumes: '' @ str_of_nat (length resumes) @ [CHR 0xD7], [],
         ''Latest: '' @ nonempty_or (safe_inline 200 (py_str (dget_or (last resumes) ''reason'' (JStr [])))) ''(no reason)'',
         []])"

text \<open>An entry of the round trace; an action that cannot be hashed raises.\<close>

definition traced :: "entry \<Rightarrow> exn + bool" where
  "traced e =
     (if \<not> has_key e ''outcome'' then Inr False
      else if \<not> hashable (dget e ''action'') then Inl TypeError
      else Inr (dget e ''action'' \<noteq> JStr ''director_resume''))"

primrec trace_lines :: "(entry \<Rightarrow> string) \<Rightarrow> entry list \<Rightarrow> exn + string list" where
  "trace_lines f [] = Inr []"
| "trace_lines f (e # es) =
     bindR (traced e) (\<lambda>b. bindR (trace_lines f es) (\<lambda>ls. Inr (if b then f e # ls else ls)))"

definition head_lines :: "string \<Rightarrow> string \<Rightarrow> string list" where
  "head_lines task remote =
     [''Fetch: git fetch '' @ remote @ '' '' @ task @ ''  '' @ ''(shows locally as '' @ remote @ ''/'' @ task @ '')'', []]"

section \<open>The summary\<close>

definition quoted :: "string \<Rightarrow> string" where
  "quoted s = backtick # s @ [backtick]"

definition summary_line :: "glyphs \<Rightarrow> entry \<Rightarrow> string" where
  "summary_line g e =
     (let detail = strip (py_str (dget_or e ''detail'' (JStr []))) in
      ''- '' @ py_str (dget_or e ''ts'' (JStr [])) @ '' '' @ quoted (py_str (dget_or e ''action'' (JStr ''?'')))
      @ '' -> '' @ py_str (dget_or e ''outcome'' (JStr ''?''))
      @ (if detail \<noteq> [] then '' '' @ gl_dash g @ '' '' @ safe_inline 200 detail else []))"

definition build_summary :: "glyphs \<Rightarrow> string \<Rightarrow> string \<Rightarrow> string \<Rightarrow> entry list \<Rightarrow> exn + string" where
  "build_summary g remote task state entries =
     bindR (trace_lines (summary_line g) entries) (\<lambda>rounds.
       Inr (join [CHR 0x0A]
         ([''# Task '' @ task @ '' '' @ gl_dash g @ '' '' @ state, [], ''Branch: '' @ quoted task] @ head_lines task remote
          @ flags_section g entries @ resume_section g entries @ [''## Rounds'', []] @ rounds @ [[]])))"

section \<open>The handback\<close>

text \<open>A verdict file as it reads: not there, or the decoded value.\<close>

definition stored_json :: "json_lib \<Rightarrow> (string \<Rightarrow> string option) \<Rightarrow> string \<Rightarrow> exn + json" where
  "stored_json J files name =
     (case files name of
        None \<Rightarrow> Inr JNull
      | Some t \<Rightarrow> (case loads J t of None \<Rightarrow> Inl ValueError | Some v \<Rightarrow> Inr v))"

definition verdict_blockers :: "entry \<Rightarrow> string list" where
  "verdict_blockers v =
     (case dget v ''findings'' of
        JArr fs \<Rightarrow>
          concat (map (\<lambda>f. case f of
              JObj e \<Rightarrow> if dget e ''severity'' = JStr ''blocker''
                         then [clip 200 (py_str (dget_or e ''summary'' (JStr ''?'')))] else []
            | _ \<Rightarrow> []) fs)
      | _ \<Rightarrow> [])"

definition verdict_line :: "glyphs \<Rightarrow> json \<Rightarrow> string \<Rightarrow> string" where
  "verdict_line g v label =
     (case v of
        JObj e \<Rightarrow>
          ''- '' @ label @ '': '' @ clip 80 (py_str (dget_or e ''verdict'' (JStr ''?'')))
          @ (if verdict_blockers e = [] then []
             else '' '' @ gl_dash g @ '' blockers: '' @ join ''; '' (take 3 (verdict_blockers e)))
      | _ \<Rightarrow> ''- '' @ label @ '': (none)'')"

definition handback_line :: "glyphs \<Rightarrow> entry \<Rightarrow> string" where
  "handback_line g e =
     (let first = safe_inline 160 (strip (py_str (dget_or e ''detail'' (JStr [])))) in
      ''- round '' @ py_str (dget_or e ''round'' (JStr ''-'')) @ '': '' @ quoted (py_str (dget e ''action''))
      @ '' -> '' @ py_str (dget e ''outcome'') @ (if first \<noteq> [] then '' '' @ gl_dash g @ '' '' @ first else []))"

definition last_failure :: "entry list \<Rightarrow> entry option" where
  "last_failure entries =
     find (\<lambda>e. dget e ''outcome'' = JStr ''fail''
            \<and> (dget e ''action'' = JStr ''fast_tests'' \<or> dget e ''action'' = JStr ''authoritative'')) (rev entries)"

definition tail_chars :: "nat \<Rightarrow> string \<Rightarrow> string" where
  "tail_chars n s = drop (length s - n) s"

definition failure_section :: "entry list \<Rightarrow> string list" where
  "failure_section entries =
     (case last_failure entries of
        None \<Rightarrow> []
      | Some e \<Rightarrow>
          [[], ''## Last '' @ py_str (dget e ''action'') @ '' failure (tail)'', []]
          @ fenced_untrusted (tail_chars 1500 (py_str (dget_or e ''detail'' (JStr [])))))"

definition build_handback ::
  "glyphs \<Rightarrow> string \<Rightarrow> json_lib \<Rightarrow> string \<Rightarrow> string \<Rightarrow> entry list \<Rightarrow> (string \<Rightarrow> string option) \<Rightarrow> exn + string" where
  "build_handback g remote J task state entries files =
     bindR (trace_lines (handback_line g) entries) (\<lambda>rounds.
     bindR (stored_json J files rw1_verdict_file) (\<lambda>v1.
     bindR (stored_json J files rw2_verdict_file) (\<lambda>v2.
       Inr (join [CHR 0x0A]
         ([''# Handback: '' @ task, [], ''Final state: **'' @ state @ ''**'',
           ''Branch with the diff: '' @ quoted task] @ head_lines task remote
          @ flags_section g entries @ resume_section g entries @ [''## What was tried, per round'', []] @ rounds
          @ [[], ''## Latest verdicts'', [], verdict_line g v1 ''rw1'', verdict_line g v2 ''rw2'']
          @ failure_section entries @ [[]])))))"

text \<open>The collaborators of a run with this module in their place.\<close>

definition default_remote :: string where
  "default_remote = ''laddy''"

definition with_handoff :: "glyphs \<Rightarrow> string \<Rightarrow> 'e collab \<Rightarrow> 'e collab" where
  "with_handoff g task c =
     c\<lparr>c_summary := (\<lambda>state entries _. build_summary g default_remote task state entries),
       c_handback := build_handback g default_remote (c_json c) task\<rparr>"

section \<open>Nothing leaves the fence\<close>

lemma clip_plain: "list_all plain (clip limit t)"
proof (cases "untrusted_inline_within limit t")
  case (Inr s)
  define tokens where "tokens = inline_tokens False False t"
  have tokens: "list_all (list_all plain) tokens"
    unfolding tokens_def by (rule inline_tokens_plain)
  have marker: "list_all plain truncation_marker"
    by code_simp
  have whole: "list_all plain (strip (concat tokens))"
    using tokens set_strip[of "concat tokens"] by (auto simp: list_all_iff)
  have cut: "list_all plain (rstrip (fitting_tokens n tokens))" for n
    using rstrip_part(1)[of "fitting_tokens n tokens"] fitting_tokens_plain[OF tokens, of n] by (auto simp: list_all_iff)
  have "list_all plain s"
    using Inr whole cut marker by (auto simp: untrusted_inline_within_def Let_def tokens_def[symmetric] split: if_splits)
  then show ?thesis
    using Inr by (simp add: clip_def)
qed (simp add: clip_def)

lemma backtick_run_best: "best \<le> backtick_run best run s"
  by (induction s arbitrary: best run) (auto simp: Let_def intro: order_trans[OF max.cobounded1])

lemma backtick_run_fence: "run \<le> best \<Longrightarrow> run + n \<le> backtick_run best run (replicate n backtick @ s)"
proof (induction n arbitrary: best run)
  case 0
  then show ?case
    using backtick_run_best[of best run s] by simp
next
  case (Suc n)
  then show ?case
    using Suc.IH[of "run + 1" "max best (run + 1)"] by (simp add: Let_def)
qed

lemma backtick_run_inside: "run \<le> best \<Longrightarrow> n \<le> backtick_run best run (u @ replicate n backtick @ v)"
proof (induction u arbitrary: best run)
  case Nil
  then show ?case
    using backtick_run_fence[of run best n v] by simp
qed (simp add: Let_def)

lemma fence_longer: "l \<in> set body \<Longrightarrow> longest_backtick_run l < length (fence_of body)"
proof -
  have "l \<in> set body \<Longrightarrow> longest_backtick_run l \<le> foldr max (map longest_backtick_run body) 0"
    by (induction body) auto
  then show "l \<in> set body \<Longrightarrow> ?thesis"
    by (simp add: fence_of_def less_Suc_eq_le max_def)
qed

text \<open>
  C25: Test output that a branch controls cannot leave its fence: the block is an opening fence, lines and a
  closing fence of the same at least three backticks; every line in between is one line without control
  characters, and none of them contains a run of backticks as long as the fence, so no reader of the
  handback sees the block end before its last line.
\<close>

theorem fence_cannot_be_closed:
  "\<exists>k body. fenced_untrusted t = replicate k backtick # body @ [replicate k backtick] \<and> 3 \<le> k
     \<and> (\<forall>l\<in>set body. list_all plain l \<and> \<not> (\<exists>u v. l = u @ replicate k backtick @ v))"
proof -
  let ?body = "fence_body t"
  let ?k = "length (fence_of ?body)"
  have k: "fence_of ?body = replicate ?k backtick" "3 \<le> ?k"
    by (simp_all add: fence_of_def)
  have "\<not> (\<exists>u v. l = u @ replicate ?k backtick @ v)" if "l \<in> set ?body" for l
  proof
    assume "\<exists>u v. l = u @ replicate ?k backtick @ v"
    then have "?k \<le> longest_backtick_run l"
      using backtick_run_inside[of 0 0 ?k] unfolding longest_backtick_run_def by blast
    then show False
      using fence_longer[OF that] by simp
  qed
  moreover have "list_all plain l" if "l \<in> set ?body" for l
    using that clip_plain by (auto simp: fence_body_def)
  ultimately show ?thesis
    using k by (intro exI[of _ ?k] exI[of _ ?body]) (simp add: fenced_untrusted_def Let_def)
qed

text \<open>Three backticks and a heading, as a failing test could print them, stay inside a fence of four.\<close>

definition forged_fence :: string where
  "forged_fence = replicate 3 backtick @ [CHR 0x0A] @ ''## Latest verdicts''"

theorem fence_cannot_be_closed_witness:
  "\<exists>k body. fenced_untrusted forged_fence = replicate k backtick # body @ [replicate k backtick] \<and> 4 \<le> k
     \<and> (\<forall>l\<in>set body. list_all plain l \<and> \<not> (\<exists>u v. l = u @ replicate k backtick @ v))"
proof -
  obtain k body where kb: "fenced_untrusted forged_fence = replicate k backtick # body @ [replicate k backtick]"
      "\<forall>l\<in>set body. list_all plain l \<and> \<not> (\<exists>u v. l = u @ replicate k backtick @ v)"
    using fence_cannot_be_closed[of forged_fence] by blast
  have "hd (fenced_untrusted forged_fence) = replicate 4 backtick"
    by code_simp
  then have "k = 4"
    using kb(1) by (metis length_replicate list.sel(1))
  then show ?thesis
    using kb by blast
qed

section \<open>What reaches the page raw\<close>

lemma join_contains: "l \<in> set ls \<Longrightarrow> \<exists>u v. join sep ls = u @ l @ v"
proof (induction ls)
  case (Cons x xs)
  show ?case
  proof (cases "l = x")
    case True
    have "join sep (x # xs) = [] @ x @ (if xs = [] then [] else sep @ join sep xs)"
      by simp
    with True show ?thesis
      by blast
  next
    case False
    then have xs: "l \<in> set xs" "xs \<noteq> []"
      using Cons.prems by auto
    then obtain u v where "join sep xs = u @ l @ v"
      using Cons.IH by blast
    then have "join sep (x # xs) = (x @ sep @ u) @ l @ v"
      using xs(2) by simp
    then show ?thesis
      by blast
  qed
qed simp

lemma flag_line_shown:
  assumes "f \<in> set (open_flags entries)"
  shows "\<exists>l\<in>set (flags_section g entries). \<exists>u v. l = u @ fl_summary f @ v"
proof -
  have "hd (flag_lines f) \<in> set (flags_section g entries)"
    using assms by (auto simp: flags_section_def flag_lines_def)
  moreover have "hd (flag_lines f) = (''- ['' @ fl_kind f @ ''] '') @ fl_summary f @ ('' ('' @ fl_id f @ '')'' @ (if fl_needs_director f then '' (needs-director)'' else []))"
    by (simp add: flag_lines_def)
  ultimately show ?thesis
    by blast
qed

lemma shown_in_join:
  assumes "f \<in> set (open_flags entries)" "set (flags_section g entries) \<subseteq> set ls"
  shows "\<exists>u v. join sep ls = u @ fl_summary f @ v"
proof -
  obtain l u v where l: "l \<in> set ls" "l = u @ fl_summary f @ v"
    using flag_line_shown[OF assms(1)] assms(2) by blast
  obtain u' v' where "join sep ls = u' @ l @ v'"
    using join_contains[OF l(1)] by blast
  then have "join sep ls = (u' @ u) @ fl_summary f @ (v @ v')"
    using l(2) by simp
  then show ?thesis
    by blast
qed

text \<open>
  The summary of an open flag reaches the Director raw: whatever it holds (an escape sequence, or a line
  feed and a heading of its own) stands unchanged in the human summary and in the handback, while the
  detail and the note of the same flag are made safe.
\<close>

theorem flag_summary_is_not_neutralized:
  assumes "f \<in> set (open_flags entries)"
  shows "(build_summary g remote task state entries = Inr s \<longrightarrow> (\<exists>u v. s = u @ fl_summary f @ v))
       \<and> (build_handback g remote J task state entries files = Inr h \<longrightarrow> (\<exists>u v. h = u @ fl_summary f @ v))"
proof (intro conjI impI)
  assume "build_summary g remote task state entries = Inr s"
  then obtain rounds where s: "s = join [CHR 0x0A]
         ([''# Task '' @ task @ '' '' @ gl_dash g @ '' '' @ state, [], ''Branch: '' @ quoted task] @ head_lines task remote
          @ flags_section g entries @ resume_section g entries @ [''## Rounds'', []] @ rounds @ [[]])"
    unfolding build_summary_def bindR_Inr_iff by blast
  show "\<exists>u v. s = u @ fl_summary f @ v"
    unfolding s by (rule shown_in_join[OF assms]) auto
next
  assume "build_handback g remote J task state entries files = Inr h"
  then obtain rounds v1 v2 where h: "h = join [CHR 0x0A]
         ([''# Handback: '' @ task, [], ''Final state: **'' @ state @ ''**'',
           ''Branch with the diff: '' @ quoted task] @ head_lines task remote
          @ flags_section g entries @ resume_section g entries @ [''## What was tried, per round'', []] @ rounds
          @ [[], ''## Latest verdicts'', [], verdict_line g v1 ''rw1'', verdict_line g v2 ''rw2'']
          @ failure_section entries @ [[]])"
    unfolding build_handback_def bindR_Inr_iff by blast
  show "\<exists>u v. h = u @ fl_summary f @ v"
    unfolding h by (rule shown_in_join[OF assms]) auto
qed

lemma verdicts_and_resumes_plain:
  assumes "list_all plain (gl_dash g)" "list_all plain (gl_arrow g)" "list_all plain label"
  shows "list_all plain (verdict_line g v label)" "\<forall>l\<in>set (resume_section g entries). list_all plain l"
proof -
  have fixed: "list_all plain ''- ''" "list_all plain '': ''" "list_all plain '' ''" "list_all plain '' blockers: ''"
    "list_all plain ''; ''" "list_all plain '': (none)''" "list_all plain ''## ''" "list_all plain '' Director resumes: ''"
    "list_all plain [CHR 0xD7]" "list_all plain ''Latest: ''" "list_all plain ''(no reason)''"
    by code_simp+
  have digit: "is_digit c \<Longrightarrow> plain c" for c
    by (auto simp: plain_def steering_def is_digit_def is_space_def Let_def)
  have number: "list_all plain (str_of_nat n)" for n
    using nat_digits_digits[of n] digit by (auto simp: str_of_nat_def list_all_iff)
  have inline: "list_all plain (safe_inline l t)" for l t
    using clip_plain by (auto simp: safe_inline_def split: list.split)
  have joined: "list_all plain sep \<Longrightarrow> \<forall>l\<in>set ls. list_all plain l \<Longrightarrow> list_all plain (join sep ls)" for sep ls
    by (induction ls) auto
  have "\<forall>l\<in>set (verdict_blockers e). list_all plain l" for e
    using clip_plain by (cases "dget e ''findings''") (auto simp: verdict_blockers_def split: json.splits if_splits)
  then have "\<forall>l\<in>set (take 3 (verdict_blockers e)). list_all plain l" for e
    by (meson in_set_takeD)
  then show "list_all plain (verdict_line g v label)"
    using assms fixed clip_plain joined by (cases v) (simp_all add: verdict_line_def del: take_Suc_conv_app_nth)
  show "\<forall>l\<in>set (resume_section g entries). list_all plain l"
    using assms fixed number inline
    by (simp add: resume_section_def Let_def nonempty_or_def)
qed

section \<open>Witness\<close>

text \<open>A flag whose summary clears the screen and forges a heading.\<close>

definition forged_summary :: string where
  "forged_summary = [CHR 0x1B] @ ''[2J'' @ [CHR 0x0A] @ ''## Latest verdicts''"

definition forged_log :: "entry list" where
  "forged_log = [[(''action'', JStr ''flag''), (''id'', JStr ''t#1''), (''kind'', JStr ''note''), (''summary'', JStr forged_summary)]]"

definition demo_glyphs :: glyphs where
  "demo_glyphs = \<lparr>gl_dash = ''--'', gl_flag = ''F'', gl_arrow = ''R''\<rparr>"

lemma forged_open: "list_ex (\<lambda>f. fl_summary f = forged_summary) (open_flags forged_log)"
  "is_ok (build_summary demo_glyphs ''hub'' ''t'' ''PUSHED'' forged_log)"
  by code_simp+

theorem flag_summary_is_not_neutralized_witness:
  "\<exists>s u v. build_summary demo_glyphs ''hub'' ''t'' ''PUSHED'' forged_log = Inr s \<and> s = u @ forged_summary @ v
     \<and> CHR 0x1B \<in> set s"
proof -
  obtain f where f: "f \<in> set (open_flags forged_log)" "fl_summary f = forged_summary"
    using forged_open(1) by (auto simp: list_ex_iff)
  obtain s where s: "build_summary demo_glyphs ''hub'' ''t'' ''PUSHED'' forged_log = Inr s"
    using forged_open(2) by (auto simp: is_ok_iff)
  obtain u v where "s = u @ forged_summary @ v"
    using flag_summary_is_not_neutralized[OF f(1)] s f(2) by blast
  then show ?thesis
    using s by (intro exI[of _ s] exI[of _ u] exI[of _ v]) (simp add: forged_summary_def)
qed

end
