(* ===== verification/Oracle_Log.thy ===== *)
theory Oracle_Log
  imports Flags Policy Artifact_Store Prog "HOL-Library.Multiset" "HOL-Library.List_Lexorder" "HOL-Library.Product_Lexorder"
begin

text \<open>
  Model of the logs of the oracle: \<open>src/orchestrator/oracle/classes.py\<close>, \<open>runlog.py\<close> and \<open>escapes.py\<close>. The
  oracle measures the gates after the merge; what it knows is two kinds of append-only logs. The run log is
  written by the oracle alone. The log of a task is content of a branch, so a flag in it counts as an escape
  only when the run log has a record of it. The lemmas show what the ledger counts and what it leaves out,
  that a raised escape is found again, and two ways in which a branch can still disturb the measurement.

  The state is what reading each log gives. An append to a log that cannot be read leaves it unreadable.
\<close>

section \<open>Python values the readers take apart\<close>

text \<open>\<open>v.get(k, d)\<close> and \<open>list(v)\<close> of a decoded value.\<close>

definition get_of :: "json \<Rightarrow> string \<Rightarrow> json \<Rightarrow> exn + json" where
  "get_of v k d = (case v of JObj e \<Rightarrow> Inr (dget_or e k d) | _ \<Rightarrow> Inl AttributeError)"

definition list_of :: "json \<Rightarrow> exn + json list" where
  "list_of v =
     (case v of
        JArr vs \<Rightarrow> Inr vs
      | JStr s \<Rightarrow> Inr (map (\<lambda>c. JStr [c]) s)
      | JObj e \<Rightarrow> Inr (map (\<lambda>(k, _). JStr k) e)
      | _ \<Rightarrow> Inl TypeError)"

text \<open>The entries of a log, for a reader that calls \<open>get\<close> on each.\<close>

definition as_entry :: "json \<Rightarrow> exn + entry" where
  "as_entry v = (case v of JObj e \<Rightarrow> Inr e | _ \<Rightarrow> Inl AttributeError)"

definition as_entries :: "json list \<Rightarrow> exn + entry list" where
  "as_entries vs = mapR as_entry vs"

section \<open>The registry of classes\<close>

text \<open>
  A registered line: a hyphen, a slug in backticks, a dash or a hyphen, and a definition. The dash is not a
  character of the model and is an argument.
\<close>

definition slug_char :: "char \<Rightarrow> bool" where
  "slug_char c = (is_digit c \<or> (97 \<le> ord c \<and> ord c \<le> 122) \<or> c = CHR ''-'')"

definition after_spaces :: "string \<Rightarrow> string option" where
  "after_spaces s =
     (case s of [] \<Rightarrow> None | c # _ \<Rightarrow> if is_space c then Some (dropWhile is_space s) else None)"

definition slug_line :: "char \<Rightarrow> string \<Rightarrow> string option" where
  "slug_line dash line =
     (case line of
        [] \<Rightarrow> None
      | m # r \<Rightarrow> if m \<noteq> CHR ''-'' then None else
          (case after_spaces r of
             Some (q # s) \<Rightarrow>
               (let slug = takeWhile slug_char s; rest = dropWhile slug_char s in
                if q \<noteq> CHR 0x60 \<or> slug = [] \<or> hd slug = CHR ''-'' then None
                else (case rest of
                    q' # t \<Rightarrow> if q' \<noteq> CHR 0x60 then None else
                      (case after_spaces t of
                         Some (d # u) \<Rightarrow>
                           if d \<noteq> dash \<and> d \<noteq> CHR ''-'' then None
                           else (case after_spaces u of Some (_ # _) \<Rightarrow> Some slug | _ \<Rightarrow> None)
                       | _ \<Rightarrow> None)
                  | [] \<Rightarrow> None))
           | _ \<Rightarrow> None))"

primrec collect_slugs :: "char \<Rightarrow> string list \<Rightarrow> string list \<Rightarrow> exn + string list" where
  "collect_slugs dash slugs [] = Inr slugs"
| "collect_slugs dash slugs (l # ls) =
     (case slug_line dash (strip l) of
        None \<Rightarrow> collect_slugs dash slugs ls
      | Some s \<Rightarrow> if s \<in> set slugs then Inl ValueError else collect_slugs dash (slugs @ [s]) ls)"

definition load_class_slugs :: "char \<Rightarrow> string option \<Rightarrow> exn + string list" where
  "load_class_slugs dash registry =
     (case registry of None \<Rightarrow> Inr [] | Some t \<Rightarrow> collect_slugs dash [] (splitlines t))"

section \<open>The run log\<close>

type_synonym log_state = "exn + json list"

definition oracle_run :: string where "oracle_run = ''oracle-run''"
definition seeded_eval :: string where "seeded_eval = ''seeded-eval''"
definition escape_raised :: string where "escape_raised = ''escape-raised''"

definition buckets :: "string list" where
  "buckets = [''L1'', ''L2'', ''L3'']"

definition append_event :: "entry \<Rightarrow> log_state \<Rightarrow> log_state" where
  "append_event e l = map_sum id (\<lambda>es. es @ [JObj e]) l"

type_synonym by_bucket = "(string \<times> string list) list"

definition ids_of :: "by_bucket \<Rightarrow> string \<Rightarrow> string list" where
  "ids_of m b = (case map_of m b of Some ids \<Rightarrow> ids | None \<Rightarrow> [])"

definition bucket_json :: "by_bucket \<Rightarrow> json" where
  "bucket_json m = JObj (map (\<lambda>b. (b, JArr (map JStr (ids_of m b)))) buckets)"

definition run_event :: "json \<Rightarrow> string \<Rightarrow> string \<Rightarrow> by_bucket \<Rightarrow> by_bucket \<Rightarrow> entry list \<Rightarrow> string \<Rightarrow> entry" where
  "run_event now from_sha to_sha reviewed skipped findings mode =
     [(''ts'', now), (''action'', JStr oracle_run), (''from_sha'', JStr from_sha), (''to_sha'', JStr to_sha),
      (''mode'', JStr mode), (''reviewed'', bucket_json reviewed), (''skipped'', bucket_json skipped),
      (''findings'', JArr (map JObj findings))]"

definition append_run ::
  "json \<Rightarrow> string \<Rightarrow> string \<Rightarrow> by_bucket \<Rightarrow> by_bucket \<Rightarrow> entry list \<Rightarrow> string \<Rightarrow> log_state \<Rightarrow> exn + log_state" where
  "append_run now from_sha to_sha reviewed skipped findings mode l =
     (if from_sha = [] \<or> to_sha = [] then Inl ValueError
      else Inr (append_event (run_event now from_sha to_sha reviewed skipped findings mode) l))"

definition events_of :: "string \<Rightarrow> json list \<Rightarrow> entry list" where
  "events_of action vs =
     concat (map (\<lambda>v. case v of JObj e \<Rightarrow> if has_action action e then [e] else [] | _ \<Rightarrow> []) vs)"

definition read_events :: "string \<Rightarrow> log_state \<Rightarrow> exn + entry list" where
  "read_events action l = bindR l (\<lambda>vs. Inr (events_of action vs))"

definition read_runs :: "log_state \<Rightarrow> exn + entry list" where
  "read_runs l = read_events oracle_run l"

definition eval_results :: "string list" where
  "eval_results = [''caught'', ''missed'', ''inconclusive'']"

definition append_eval ::
  "json \<Rightarrow> string \<Rightarrow> string \<Rightarrow> string \<Rightarrow> string list \<Rightarrow> string \<Rightarrow> json \<Rightarrow> string option \<Rightarrow> log_state \<Rightarrow> exn + log_state" where
  "append_eval now eval_id class_slug outcome caught_by terminal decision fix_ref l =
     (if eval_id = [] \<or> class_slug = [] then Inl ValueError
      else if outcome \<notin> set eval_results then Inl ValueError
      else Inr (append_event
        ([(''ts'', now), (''action'', JStr seeded_eval), (''eval'', JStr eval_id), (''class'', JStr class_slug),
          (''result'', JStr outcome), (''caught_by'', JArr (map JStr caught_by)), (''terminal'', JStr terminal),
          (''decision'', decision)]
         @ (case fix_ref of Some r \<Rightarrow> if r = [] then [] else [(''fix_ref'', JStr r)] | None \<Rightarrow> [])) l))"

definition read_evals :: "log_state \<Rightarrow> exn + entry list" where
  "read_evals l = read_events seeded_eval l"

definition escape_event :: "json \<Rightarrow> string \<Rightarrow> string \<Rightarrow> string \<Rightarrow> string \<Rightarrow> entry" where
  "escape_event now task flag_id class_slug grade =
     [(''ts'', now), (''action'', JStr escape_raised), (''task'', JStr task), (''flag_id'', JStr flag_id),
      (''class'', JStr class_slug), (''grade'', JStr grade)]"

definition append_escape :: "json \<Rightarrow> string \<Rightarrow> string \<Rightarrow> string \<Rightarrow> string \<Rightarrow> log_state \<Rightarrow> exn + log_state" where
  "append_escape now task flag_id class_slug grade l =
     (if task = [] \<or> flag_id = [] then Inl ValueError
      else Inr (append_event (escape_event now task flag_id class_slug grade) l))"

definition read_escapes :: "log_state \<Rightarrow> exn + entry list" where
  "read_escapes l = read_events escape_raised l"

definition escape_id :: "entry \<Rightarrow> string \<times> string" where
  "escape_id e = (py_str (dget e ''task''), py_str (dget e ''flag_id''))"

definition authentic_escape_ids :: "log_state \<Rightarrow> exn + (string \<times> string) list" where
  "authentic_escape_ids l = bindR (read_escapes l) (\<lambda>es. Inr (map escape_id es))"

definition run_mark :: "entry list \<Rightarrow> string option" where
  "run_mark runs =
     (if runs = [] then None
      else let v = dget (last runs) ''to_sha'' in if truthy v then Some (py_str v) else None)"

definition watermark :: "log_state \<Rightarrow> exn + string option" where
  "watermark l = bindR (read_runs l) (\<lambda>runs. Inr (run_mark runs))"

section \<open>Escapes\<close>

definition grades :: "string list" where
  "grades = [''confirmed'', ''plausible'']"

definition attribution_gates :: "string list" where
  "attribution_gates = [''test'', ''rw1'', ''rw2'', ''merge-rw'', ''coverage-gap'', ''dev-scaffold'']"

record oracle_logs =
  or_run :: log_state
  or_log :: "string \<Rightarrow> log_state"

definition escape_payload :: "string \<Rightarrow> string \<Rightarrow> string \<Rightarrow> string option \<Rightarrow> string option \<Rightarrow> json" where
  "escape_payload class_slug grade evidence gate note =
     JObj ([(''class'', JStr class_slug), (''grade'', JStr grade), (''evidence'', JStr evidence)]
       @ (case gate of
            None \<Rightarrow> []
          | Some g \<Rightarrow> [(''attribution'', JObj [(''gate'', JStr g), (''note'', JStr (case note of Some n \<Rightarrow> n | None \<Rightarrow> []))])]))"

definition raise_oracle_escape ::
  "jsonl_lib \<Rightarrow> (exn + string list) \<Rightarrow> json \<Rightarrow> string \<Rightarrow> string \<Rightarrow> string \<Rightarrow> string \<Rightarrow> string \<Rightarrow>
   string option \<Rightarrow> string option \<Rightarrow> (oracle_logs, string) prog" where
  "raise_oracle_escape jl registry now task class_slug grade summary evidence gate note =
     bindP (liftP registry) (\<lambda>slugs.
       if class_slug \<notin> set slugs then throwP ValueError
       else if grade \<notin> set grades then throwP ValueError
       else if strip evidence = [] then throwP ValueError
       else if (case gate of Some g \<Rightarrow> g \<notin> set attribution_gates | None \<Rightarrow> False) then throwP ValueError
       else
         bindP (getP (\<lambda>s. or_log s task)) (\<lambda>l.
         bindP (liftP (bindR l as_entries)) (\<lambda>es.
         bindP (liftP (raise_flag task now oracle_escape summary
                         (Some (jl_dump jl (escape_payload class_slug grade evidence gate note))) None True True es))
           (\<lambda>(fid, es').
           thenP (modifyP (\<lambda>s. s\<lparr>or_log := (or_log s)(task := append_event (last es') (or_log s task))\<rparr>))
          (bindP (getP or_run) (\<lambda>r.
           bindP (liftP (append_escape now task fid class_slug grade r)) (\<lambda>r'.
           thenP (modifyP (\<lambda>s. s\<lparr>or_run := r'\<rparr>)) (retP fid))))))))"

record escape_record =
  es_task :: string
  es_flag :: string
  es_class :: "string option"
  es_grade :: "string option"
  es_status :: string
  es_summary :: string

text \<open>\<open>json.loads(flag.detail or "")\<close>: an undecodable text is no payload; a value that is no text raises.\<close>

definition payload_of :: "jsonl_lib \<Rightarrow> json \<Rightarrow> exn + json" where
  "payload_of jl detail =
     (case py_or detail (JStr []) of
        JStr s \<Rightarrow> Inr (case jl_load jl s of Some v \<Rightarrow> v | None \<Rightarrow> JNull)
      | _ \<Rightarrow> Inl TypeError)"

definition text_field :: "json \<Rightarrow> string \<Rightarrow> string option" where
  "text_field payload k = (case payload of JObj e \<Rightarrow> as_str (dget e k) | _ \<Rightarrow> None)"

definition escape_of :: "jsonl_lib \<Rightarrow> string \<Rightarrow> flag \<Rightarrow> exn + escape_record" where
  "escape_of jl task f =
     bindR (payload_of jl (fl_detail f)) (\<lambda>p.
       Inr \<lparr>es_task = task, es_flag = fl_id f, es_class = text_field p ''class'', es_grade = text_field p ''grade'',
            es_status = flag_status f, es_summary = fl_summary f\<rparr>)"

definition counted :: "(string \<times> string) list \<Rightarrow> string \<Rightarrow> flag \<Rightarrow> bool" where
  "counted authentic task f = (fl_kind f = oracle_escape \<and> (task, fl_id f) \<in> set authentic)"

definition task_escapes ::
  "jsonl_lib \<Rightarrow> (string \<times> string) list \<Rightarrow> string \<Rightarrow> log_state \<Rightarrow> exn + escape_record list" where
  "task_escapes jl authentic task l =
     (case bindR l as_entries of
        Inl e \<Rightarrow> if e \<in> {LogCorruptionError, ArtifactPathError} then Inr [] else Inl e
      | Inr es \<Rightarrow> mapR (escape_of jl task) (filter (counted authentic task) (derive_flags es)))"

text \<open>The directories under \<open>tasks\<close>, in the order the file system lists them, when there is one.\<close>

definition iter_escapes :: "jsonl_lib \<Rightarrow> string list option \<Rightarrow> oracle_logs \<Rightarrow> exn + escape_record list" where
  "iter_escapes jl dirs s =
     (case dirs of
        None \<Rightarrow> Inr []
      | Some ds \<Rightarrow>
          bindR (authentic_escape_ids (or_run s)) (\<lambda>authentic.
          bindR (mapR (\<lambda>t. task_escapes jl authentic t (or_log s t)) (sort ds)) (\<lambda>rs. Inr (concat rs))))"

section \<open>The ledger\<close>

record ledger_entry =
  le_class :: string
  le_total :: nat
  le_open :: nat
  le_recurrent :: bool

definition recurrence_threshold :: nat where
  "recurrence_threshold = 2"

definition class_of :: "escape_record \<Rightarrow> string" where
  "class_of r = (case es_class r of Some c \<Rightarrow> nonempty_or c ''unclassified'' | None \<Rightarrow> ''unclassified'')"

definition live :: "escape_record list \<Rightarrow> escape_record list" where
  "live rs = filter (\<lambda>r. es_status r \<noteq> ''dismissed'') rs"

definition tally :: "string \<Rightarrow> (string \<times> nat) list \<Rightarrow> (string \<times> nat) list" where
  "tally k m = (case map_of m k of None \<Rightarrow> m @ [(k, 1)] | Some n \<Rightarrow> map (\<lambda>(k', n'). (k', if k' = k then n' + 1 else n')) m)"

definition derive_ledger :: "escape_record list \<Rightarrow> ledger_entry list" where
  "derive_ledger rs =
     (let totals = fold (tally \<circ> class_of) (live rs) [];
          opens = fold (tally \<circ> class_of) (filter (\<lambda>r. es_status r = ''open'') (live rs)) []
      in map (\<lambda>(c, n). \<lparr>le_class = c, le_total = n, le_open = (case map_of opens c of Some k \<Rightarrow> k | None \<Rightarrow> 0),
                        le_recurrent = (n \<ge> recurrence_threshold)\<rparr>)
             (sort_key (\<lambda>(c, n). (- int n, c)) totals))"

section \<open>The escape rate\<close>

record rate_row =
  rr_ts :: json
  rr_to_sha :: json
  rr_bucket :: string
  rr_reviewed :: nat
  rr_skipped :: nat
  rr_escapes :: nat
  rr_pending :: nat

definition flag_now :: "escape_record list \<Rightarrow> string \<Rightarrow> string" where
  "flag_now rs i = (case map_of (rev (map (\<lambda>r. (es_flag r, es_status r)) rs)) i of Some st \<Rightarrow> st | None \<Rightarrow> ''open'')"

text \<open>What one finding of a run adds to its escapes and to its pending ones.\<close>

definition finding_counts :: "escape_record list \<Rightarrow> json list \<Rightarrow> json \<Rightarrow> exn + (nat \<times> nat)" where
  "finding_counts rs tasks finding =
     bindR (as_entry finding) (\<lambda>f.
       if dget f ''task'' \<notin> set tasks then Inr (0, 0)
       else
         (let st = flag_now rs (py_str (dget f ''flag_id'')) in
          if st = ''dismissed'' then Inr (0, 0)
          else if dget f ''grade'' = JStr ''confirmed'' \<or> st = ''resolved'' then Inr (1, 0)
          else Inr (0, 1)))"

definition bucket_row :: "escape_record list \<Rightarrow> entry \<Rightarrow> string \<Rightarrow> exn + rate_row list" where
  "bucket_row rs run b =
     bindR (bindR (get_of (dget_or run ''reviewed'' (JObj [])) b (JArr [])) list_of) (\<lambda>tasks.
     bindR (bindR (get_of (dget_or run ''skipped'' (JObj [])) b (JArr [])) list_of) (\<lambda>skip.
       if tasks = [] \<and> skip = [] then Inr []
       else
         bindR (list_of (dget_or run ''findings'' (JArr []))) (\<lambda>fs.
         bindR (mapR (finding_counts rs tasks) fs) (\<lambda>cs.
           Inr [\<lparr>rr_ts = dget run ''ts'', rr_to_sha = dget run ''to_sha'', rr_bucket = b, rr_reviewed = length tasks,
                 rr_skipped = length skip, rr_escapes = sum_list (map fst cs), rr_pending = sum_list (map snd cs)\<rparr>]))))"

definition escape_rate_series :: "entry list \<Rightarrow> escape_record list \<Rightarrow> exn + rate_row list" where
  "escape_rate_series runs rs =
     bindR (mapR (\<lambda>run. bindR (mapR (bucket_row rs run) buckets) (\<lambda>rows. Inr (concat rows))) runs) (\<lambda>rows.
       Inr (concat rows))"

section \<open>What the ledger counts\<close>

definition tallied :: "('a \<Rightarrow> string) \<Rightarrow> 'a list \<Rightarrow> string \<Rightarrow> nat" where
  "tallied f xs k = length (filter (\<lambda>x. f x = k) xs)"

lemma tally_keys:
  "map fst (tally k m) = (if k \<in> fst ` set m then map fst m else map fst m @ [k])"
  by (auto simp: tally_def comp_def case_prod_beta map_of_eq_None_iff split: option.split dest: map_of_SomeD intro: rev_image_eqI)

lemma tally_lookup: "map_of (tally k m) j = (if j = k then Some (case map_of m k of None \<Rightarrow> 1 | Some n \<Rightarrow> n + 1) else map_of m j)"
proof (cases "map_of m k")
  case None
  then show ?thesis
    by (auto simp: tally_def map_add_def split: option.split)
next
  case (Some n)
  have "map_of (map (\<lambda>(k', n'). (k', if k' = k then n' + 1 else n')) m) j
      = map_option (\<lambda>n'. if j = k then n' + 1 else n') (map_of m j)"
    by (induction m) auto
  with Some show ?thesis
    by (auto simp: tally_def map_option_case split: option.split)
qed

lemma tally_fold:
  "map_of (fold (tally \<circ> f) xs []) k = (if tallied f xs k = 0 then None else Some (tallied f xs k))"
  "distinct (map fst (fold (tally \<circ> f) xs []))"
proof (induction xs rule: rev_induct)
  case (snoc x xs)
  {
    case 1
    then show ?case
      using snoc(1) unfolding tallied_def by (cases "f x = k") (simp_all add: tally_lookup)
  next
    case 2
    then show ?case
      using snoc(2) by (auto simp: tally_keys)
  }
qed (simp_all add: tallied_def)

lemma tallied_pos: "tallied f xs k \<noteq> 0 \<longleftrightarrow> k \<in> f ` set xs"
  by (auto simp: tallied_def filter_empty_conv)

lemma sum_tallied: "sum (tallied f xs) (f ` set xs) = length xs"
proof (induction xs)
  case (Cons x xs)
  have split: "tallied f (x # xs) k = tallied f xs k + (if k = f x then 1 else 0)" for k
    by (simp add: tallied_def)
  have "sum (tallied f (x # xs)) (f ` set (x # xs))
      = sum (tallied f xs) (insert (f x) (f ` set xs)) + (\<Sum>k\<in>insert (f x) (f ` set xs). if k = f x then 1 else 0)"
    by (simp add: split sum.distrib)
  also have "sum (tallied f xs) (insert (f x) (f ` set xs)) = sum (tallied f xs) (f ` set xs)"
    using tallied_pos[of f xs "f x"] by (cases "f x \<in> f ` set xs") (auto simp: insert_absorb)
  finally show ?case
    using Cons.IH by simp
qed simp

text \<open>The entry a class gets, stated without the loop.\<close>

definition class_entry :: "escape_record list \<Rightarrow> string \<Rightarrow> ledger_entry" where
  "class_entry rs c =
     (let own = filter (\<lambda>r. class_of r = c) (live rs); n = length own in
      \<lparr>le_class = c, le_total = n, le_open = length (filter (\<lambda>r. es_status r = ''open'') own), le_recurrent = (n \<ge> 2)\<rparr>)"

definition ranked :: "(string \<times> nat) list \<Rightarrow> (string \<times> nat) list" where
  "ranked totals = sort_key (\<lambda>(c, n). (- int n, c)) totals"

lemma derive_ledger_entries:
  assumes T_def: "T = ranked (fold (tally \<circ> class_of) (live rs) [])"
  shows "derive_ledger rs = map (class_entry rs \<circ> fst) T" "map snd T = map (tallied class_of (live rs) \<circ> fst) T"
    "distinct (map fst T)" "fst ` set T = class_of ` set (live rs)"
proof -
  define totals where "totals = fold (tally \<circ> class_of) (live rs) []"
  have set_T: "set T = set totals" and mset_T: "mset T = mset totals"
    by (simp_all add: T_def ranked_def totals_def)
  show dist: "distinct (map fst T)"
    using tally_fold(2)[of class_of "live rs"] mset_eq_imp_distinct_iff[of "map fst T" "map fst totals"] mset_T
    by (simp add: totals_def)
  have look: "map_of totals c = (if tallied class_of (live rs) c = 0 then None else Some (tallied class_of (live rs) c))" for c
    unfolding totals_def by (rule tally_fold(1))
  have mem: "(c, n) \<in> set T \<longleftrightarrow> map_of totals c = Some n" for c n
    using tally_fold(2)[of class_of "live rs"] set_T by (simp add: totals_def map_of_eq_Some_iff)
  then have snd: "n = tallied class_of (live rs) c" if "(c, n) \<in> set T" for c n
    using that look by (auto split: if_splits)
  then show "map snd T = map (tallied class_of (live rs) \<circ> fst) T"
    by auto
  have "c \<in> fst ` set T \<longleftrightarrow> tallied class_of (live rs) c \<noteq> 0" for c
    using mem look by (force simp: image_iff split: if_splits)
  then show "fst ` set T = class_of ` set (live rs)"
    unfolding tallied_pos by blast
  have opens: "(case map_of (fold (tally \<circ> class_of) (filter (\<lambda>r. es_status r = ''open'') (live rs)) []) c of
        Some k \<Rightarrow> k | None \<Rightarrow> 0) = length (filter (\<lambda>r. es_status r = ''open'') (filter (\<lambda>r. class_of r = c) (live rs)))" for c
    by (simp add: tally_fold(1) tallied_def conj_commute)
  show "derive_ledger rs = map (class_entry rs \<circ> fst) T"
    unfolding derive_ledger_def Let_def totals_def[symmetric] ranked_def[symmetric] opens T_def[unfolded totals_def[symmetric], symmetric]
    using snd by (auto simp: class_entry_def tallied_def recurrence_threshold_def Let_def)
qed

lemma derive_ledger_total: "sum_list (map le_total (derive_ledger rs)) = length (live rs)"
proof -
  define T where "T = ranked (fold (tally \<circ> class_of) (live rs) [])"
  note T = derive_ledger_entries[OF T_def]
  have "map le_total (derive_ledger rs) = map (tallied class_of (live rs)) (map fst T)"
    using T(1) by (simp add: class_entry_def tallied_def Let_def)
  then show ?thesis
    using sum_tallied[of class_of "live rs"] T(4)
      sum_list_distinct_conv_sum_set[OF T(3), of "tallied class_of (live rs)"] by simp
qed

text \<open>
  The ledger is, for every list of escapes, exactly one entry per class that has an escape which was not
  dismissed; its total and its open count are the numbers of such escapes, it is recurrent from two on, the
  totals add up to all of them (nothing is lost or counted twice), and the entries stand by falling total,
  then by name.
\<close>

theorem ledger_counts_escapes:
  "\<exists>cs. derive_ledger rs = map (class_entry rs) cs \<and> distinct cs \<and> set cs = class_of ` set (live rs)
     \<and> sorted_wrt (\<lambda>a b. le_total (class_entry rs b) < le_total (class_entry rs a)
          \<or> le_total (class_entry rs b) = le_total (class_entry rs a) \<and> a < b) cs
     \<and> sum_list (map le_total (derive_ledger rs)) = length (live rs)"
proof -
  define T where "T = ranked (fold (tally \<circ> class_of) (live rs) [])"
  note T = derive_ledger_entries[OF T_def]
  define cs where "cs = map fst T"
  have set_cs: "set cs = class_of ` set (live rs)"
    using T(4) by (simp add: cs_def)
  have total: "le_total (class_entry rs c) = tallied class_of (live rs) c" for c
    by (simp add: class_entry_def tallied_def Let_def)
  have keys: "map (\<lambda>(c, n). (- int n, c)) T = map (\<lambda>c. (- int (tallied class_of (live rs) c), c)) cs"
    using T(2) by (auto simp: cs_def)
  have "sorted (map (\<lambda>(c, n). (- int n, c)) T)"
    unfolding T_def ranked_def by (rule sorted_sort_key)
  then have "sorted (map (\<lambda>c. (- int (tallied class_of (live rs) c), c)) cs)"
    unfolding keys .
  moreover have dist: "distinct cs"
    using T(3) by (simp add: cs_def)
  ultimately have "sorted_wrt (\<lambda>a b. le_total (class_entry rs b) < le_total (class_entry rs a)
          \<or> le_total (class_entry rs b) = le_total (class_entry rs a) \<and> a < b) cs"
    by (induction cs) (auto simp: total less_eq_prod_def less_le)
  then show ?thesis
    using T(1) set_cs derive_ledger_total[of rs] dist by (intro exI[of _ cs]) (simp add: cs_def)
qed

section \<open>Only what the oracle raised is counted\<close>

lemma mapR_all2: "mapR f xs = Inr ys \<longleftrightarrow> list_all2 (\<lambda>x y. f x = Inr y) xs ys"
  by (induction xs arbitrary: ys) (auto simp: res_simps list_all2_Cons1)

lemma escape_of_fields:
  "escape_of jl t f = Inr r \<Longrightarrow> es_task r = t \<and> es_flag r = fl_id f \<and> es_status r = flag_status f \<and> es_summary r = fl_summary f"
  by (auto simp: escape_of_def res_simps)

lemma task_escapes_ids:
  assumes "task_escapes jl authentic t l = Inr rs"
  shows "distinct (map (\<lambda>r. (es_task r, es_flag r)) rs)"
    "\<And>r. r \<in> set rs \<Longrightarrow> es_task r = t \<and> (t, es_flag r) \<in> set authentic"
proof -
  have "distinct (map (\<lambda>r. (es_task r, es_flag r)) rs) \<and> (\<forall>r\<in>set rs. es_task r = t \<and> (t, es_flag r) \<in> set authentic)"
  proof (cases "bindR l as_entries")
    case (Inl e)
    then show ?thesis
      using assms by (simp add: task_escapes_def split: if_splits)
  next
    case (Inr es)
    define fs where "fs = filter (counted authentic t) (derive_flags es)"
    have all2: "list_all2 (\<lambda>f r. escape_of jl t f = Inr r) fs rs"
      using assms Inr by (simp add: task_escapes_def mapR_all2 fs_def)
    then have "list_all2 (\<lambda>f r. (t, fl_id f) = (es_task r, es_flag r)) fs rs"
      by (rule list_all2_mono) (simp add: escape_of_fields)
    then have ids: "map (\<lambda>f. (t, fl_id f)) fs = map (\<lambda>r. (es_task r, es_flag r)) rs"
      by (induction rule: list_all2_induct) simp_all
    have "distinct (map fl_id fs)"
      unfolding fs_def by (rule distinct_map_filter) (rule derive_flags_distinct)
    then have "distinct (map (\<lambda>f. (t, fl_id f)) fs)"
      by (simp add: distinct_map inj_on_def)
    moreover have "es_task r = t \<and> (t, es_flag r) \<in> set authentic" if "r \<in> set rs" for r
    proof -
      have "(es_task r, es_flag r) \<in> set (map (\<lambda>f. (t, fl_id f)) fs)"
        unfolding ids using that by simp
      then show ?thesis
        by (auto simp: fs_def counted_def)
    qed
    ultimately show ?thesis
      unfolding ids by blast
  qed
  then show "distinct (map (\<lambda>r. (es_task r, es_flag r)) rs)"
    "\<And>r. r \<in> set rs \<Longrightarrow> es_task r = t \<and> (t, es_flag r) \<in> set authentic"
    by blast+
qed

lemma all_task_escapes_ids:
  "mapR (\<lambda>t. task_escapes jl authentic t (log t)) ts = Inr rss \<Longrightarrow> distinct ts \<Longrightarrow>
   distinct (map (\<lambda>r. (es_task r, es_flag r)) (concat rss))
   \<and> (\<forall>r\<in>set (concat rss). es_task r \<in> set ts \<and> (es_task r, es_flag r) \<in> set authentic)"
proof (induction ts arbitrary: rss)
  case (Cons t ts)
  then obtain rs rest where rss: "rss = rs # rest" and rs: "task_escapes jl authentic t (log t) = Inr rs"
    and rest: "mapR (\<lambda>t. task_escapes jl authentic t (log t)) ts = Inr rest"
    by (auto simp: res_simps)
  note own = task_escapes_ids[OF rs] and others = Cons.IH[OF rest]
  show ?case
    using own others Cons.prems(2) unfolding rss by fastforce
qed simp

lemma iter_escapes_ids:
  assumes "iter_escapes jl dirs s = Inr rs" "dirs = Some ds" "distinct ds"
  shows "distinct (map (\<lambda>r. (es_task r, es_flag r)) rs)"
    "\<exists>ids. authentic_escape_ids (or_run s) = Inr ids \<and> (\<lambda>r. (es_task r, es_flag r)) ` set rs \<subseteq> set ids"
proof -
  obtain ids rss where ids: "authentic_escape_ids (or_run s) = Inr ids"
    and rss: "mapR (\<lambda>t. task_escapes jl ids t (or_log s t)) (sort ds) = Inr rss" "rs = concat rss"
    using assms(1,2) by (auto simp: iter_escapes_def res_simps)
  have "distinct (sort ds)"
    using assms(3) by simp
  note all = all_task_escapes_ids[OF rss(1) this]
  show "distinct (map (\<lambda>r. (es_task r, es_flag r)) rs)"
    "\<exists>ids. authentic_escape_ids (or_run s) = Inr ids \<and> (\<lambda>r. (es_task r, es_flag r)) ` set rs \<subseteq> set ids"
    using all ids rss(2) by auto
qed

text \<open>
  C22: Whatever branches write into the task logs, every escape the ledger sees has a record of its own that
  the oracle wrote into the run log: the records of the escapes are pairwise different, so forged flags
  never add an escape and never count one twice, and the total over all classes is at most the number of
  recorded ones.
\<close>

theorem forged_flags_never_count:
  assumes "iter_escapes jl (Some ds) s = Inr rs" "distinct ds"
  shows "\<exists>ids. authentic_escape_ids (or_run s) = Inr ids \<and> (\<lambda>r. (es_task r, es_flag r)) ` set rs \<subseteq> set ids
     \<and> distinct (map (\<lambda>r. (es_task r, es_flag r)) rs)
     \<and> sum_list (map le_total (derive_ledger rs)) \<le> card (set ids)"
proof -
  note iter = iter_escapes_ids[OF assms(1) refl assms(2)]
  obtain ids where ids: "authentic_escape_ids (or_run s) = Inr ids"
      "(\<lambda>r. (es_task r, es_flag r)) ` set rs \<subseteq> set ids"
    using iter(2) by blast
  have "length rs = card ((\<lambda>r. (es_task r, es_flag r)) ` set rs)"
    using distinct_card[OF iter(1)] by simp
  also have "\<dots> \<le> card (set ids)"
    using ids(2) by (simp add: card_mono)
  finally have "length (live rs) \<le> card (set ids)"
    using length_filter_le[of _ rs] unfolding live_def by (rule order_trans[rotated])
  then show ?thesis
    using ids iter(1) derive_ledger_total by auto
qed

section \<open>A raised escape is found again\<close>

lemma raise_flag_stores:
  assumes "raise_flag task now kind summary (Some d) None nd allow log = Inr (fid, log')" "d \<noteq> []"
  shows "\<exists>e f. log' = log @ [e] \<and> derive_flags log' = derive_flags log @ [f] \<and> fl_id f = fid \<and> fl_kind f = kind
     \<and> fl_summary f = summary \<and> flag_status f = ''open'' \<and> fl_detail f = JStr d \<and> fid \<notin> fl_id ` set (derive_flags log)"
proof -
  have log': "log' = log @ [
      [(''ts'', now), (''action'', JStr ''flag''), (''id'', JStr fid), (''kind'', JStr kind),
       (''summary'', JStr summary), (''needs_director'', JBool nd), (''detail'', JStr d)]]"
    using assms by (auto simp: raise_flag_def Let_def res_simps split: if_splits)
  obtain f where f: "derive_flags log' = derive_flags log @ [f]" "fl_id f = fid" "fl_kind f = kind"
      "fl_summary f = summary" "flag_status f = ''open''" and new: "JStr fid \<notin> set (flag_ids log)"
    using raise_flag_fresh[OF assms(1)] by blast
  have fresh: "fid \<notin> fl_id ` set (derive_flags log)"
    using new derived_id_in_log by blast
  then have "derive_flags log' = derive_flags log @ [flag_of_entry fid (last log')]"
    unfolding log' derive_flags_snoc by (simp add: derive_step_def has_action_def dget_def)
  then have "f = flag_of_entry fid (last log')"
    using f(1) by simp
  then have "fl_detail f = JStr d"
    by (simp add: flag_of_entry_def log' dget_def)
  with f fresh log' show ?thesis
    by blast
qed

lemma as_entries_append: "as_entries (vs @ [JObj e]) = bindR (as_entries vs) (\<lambda>es. Inr (es @ [e]))"
  unfolding as_entries_def by (induction vs) (auto simp: as_entry_def bindR_def split: sum.split)

lemma entries_append_event: "bindR (append_event e l) as_entries = bindR (bindR l as_entries) (\<lambda>es. Inr (es @ [e]))"
  by (cases l) (simp_all add: append_event_def as_entries_append)

lemma events_append: "events_of a (vs @ [JObj e]) = events_of a vs @ (if has_action a e then [e] else [])"
  by (simp add: events_of_def)

lemma authentic_append:
  "authentic_escape_ids (append_event (escape_event now t i c g) l)
     = bindR (authentic_escape_ids l) (\<lambda>ids. Inr (ids @ [(t, i)]))"
  by (cases l)
     (simp_all add: authentic_escape_ids_def read_escapes_def read_events_def append_event_def events_append has_action_def
        escape_event_def escape_id_def dget_def)

text \<open>What a raise leaves behind, when it returns.\<close>

lemma raised_state:
  assumes "raise_oracle_escape jl registry now t c g summary ev gate note s = (Inr fid, s')"
  obtains es es' where "bindR (or_log s t) as_entries = Inr es"
    "raise_flag t now oracle_escape summary (Some (jl_dump jl (escape_payload c g ev gate note))) None True True es = Inr (fid, es')"
    "s' = s\<lparr>or_log := (or_log s)(t := append_event (last es') (or_log s t)),
            or_run := append_event (escape_event now t fid c g) (or_run s)\<rparr>"
    "\<exists>slugs. registry = Inr slugs \<and> c \<in> set slugs" "g \<in> set grades"
  using assms
  by (auto simp: raise_oracle_escape_def bindP_def thenP_def prog_defs append_escape_def bindR_Inr_iff
      split: sum.splits if_splits prod.splits)

lemma escape_of_raised:
  assumes "fl_detail f = JStr d" "d \<noteq> []" "jl_load jl d = Some (escape_payload c g ev gate note)"
  shows "escape_of jl t f = Inr \<lparr>es_task = t, es_flag = fl_id f, es_class = Some c, es_grade = Some g,
           es_status = flag_status f, es_summary = fl_summary f\<rparr>"
  using assms by (simp add: escape_of_def payload_of_def py_or_def text_field_def escape_payload_def dget_def)

lemma filter_counted_new:
  assumes "u \<noteq> t \<or> i \<notin> fl_id ` set fs"
  shows "filter (counted (ids @ [(t, i)]) u) fs = filter (counted ids u) fs"
  using assms by (intro filter_cong refl) (auto simp: counted_def)

lemma task_escapes_raised:
  assumes "bindR l as_entries = Inr es" "bindR l' as_entries = Inr es'" "derive_flags es' = derive_flags es @ [f]"
    "fl_kind f = oracle_escape" "fl_id f = i" "i \<notin> fl_id ` set (derive_flags es)" "escape_of jl t f = Inr r"
    "task_escapes jl ids t l = Inr rs"
  shows "task_escapes jl (ids @ [(t, i)]) t l' = Inr (rs @ [r])"
proof -
  have new: "counted (ids @ [(t, i)]) t f"
    using assms(4,5) by (simp add: counted_def)
  have "list_all2 (\<lambda>f r. escape_of jl t f = Inr r) (filter (counted ids t) (derive_flags es) @ [f]) (rs @ [r])"
    using assms(1,7,8) by (simp add: task_escapes_def mapR_all2 list_all2_appendI)
  then show ?thesis
    using assms(2,3,6) new by (simp add: task_escapes_def mapR_all2 filter_counted_new)
qed

lemma task_escapes_same:
  "u \<noteq> t \<Longrightarrow> task_escapes jl (ids @ [(t, i)]) u l = task_escapes jl ids u l"
  by (simp add: task_escapes_def filter_counted_new split: sum.split)

lemma mapR_one_grows:
  assumes "mapR F ts = Inr rss" "distinct ts" "t \<in> set ts" "\<And>u. u \<noteq> t \<Longrightarrow> F' u = F u"
    "\<And>x. F t = Inr x \<Longrightarrow> F' t = Inr (x @ [r])"
  shows "\<exists>rss'. mapR F' ts = Inr rss' \<and> mset (concat rss') = add_mset r (mset (concat rss))"
  using assms(1-3)
proof (induction ts arbitrary: rss)
  case (Cons u us)
  then obtain x rest where x: "F u = Inr x" and rest: "mapR F us = Inr rest" and rss: "rss = x # rest"
    by (auto simp: res_simps)
  show ?case
  proof (cases "u = t")
    case True
    then have "t \<notin> set us"
      using Cons.prems(2) by simp
    then have "mapR F' us = mapR F us"
      using assms(4) by (induction us) auto
    then show ?thesis
      using True x rest rss assms(5) by simp
  next
    case False
    then obtain rest' where "mapR F' us = Inr rest'" "mset (concat rest') = add_mset r (mset (concat rest))"
      using Cons.IH[OF rest] Cons.prems(2,3) by auto
    then show ?thesis
      using False x rss assms(4)[OF False] by simp
  qed
qed simp

text \<open>
  An escape raised through the validated channel is found again: when the raise returns and the logs
  could be read before, the next reading of the logs gives the escapes it gave before and exactly one more,
  open, with the task, the flag, the class, the grade and the summary that were raised; the class is a
  registered one, and its total in the ledger has grown by one.
\<close>

theorem raised_escape_is_counted:
  assumes "raise_oracle_escape jl registry now t c g summary ev gate note s = (Inr fid, s')"
    and "iter_escapes jl (Some ds) s = Inr rs" "t \<in> set ds" "distinct ds" "c \<noteq> []"
    and "jl_dump jl (escape_payload c g ev gate note) \<noteq> []"
      "jl_load jl (jl_dump jl (escape_payload c g ev gate note)) = Some (escape_payload c g ev gate note)"
  shows "\<exists>rs'. iter_escapes jl (Some ds) s' = Inr rs'
     \<and> mset rs' = add_mset \<lparr>es_task = t, es_flag = fid, es_class = Some c, es_grade = Some g, es_status = ''open'',
                            es_summary = summary\<rparr> (mset rs)
     \<and> le_total (class_entry rs' c) = le_total (class_entry rs c) + 1
     \<and> (\<exists>slugs. registry = Inr slugs \<and> c \<in> set slugs) \<and> g \<in> set grades"
proof -
  let ?r = "\<lparr>es_task = t, es_flag = fid, es_class = Some c, es_grade = Some g, es_status = ''open'', es_summary = summary\<rparr>"
  obtain es es' where es: "bindR (or_log s t) as_entries = Inr es"
    and flag: "raise_flag t now oracle_escape summary (Some (jl_dump jl (escape_payload c g ev gate note))) None True True es = Inr (fid, es')"
    and s': "s' = s\<lparr>or_log := (or_log s)(t := append_event (last es') (or_log s t)),
            or_run := append_event (escape_event now t fid c g) (or_run s)\<rparr>"
    and valid: "\<exists>slugs. registry = Inr slugs \<and> c \<in> set slugs" "g \<in> set grades"
    using assms(1) by (rule raised_state)
  obtain e f where e: "es' = es @ [e]" and f: "derive_flags es' = derive_flags es @ [f]" "fl_id f = fid"
      "fl_kind f = oracle_escape" "fl_summary f = summary" "flag_status f = ''open''"
      "fl_detail f = JStr (jl_dump jl (escape_payload c g ev gate note))" "fid \<notin> fl_id ` set (derive_flags es)"
    using raise_flag_stores[OF flag assms(6)] by blast
  have r: "escape_of jl t f = Inr ?r"
    using escape_of_raised[OF f(6) assms(6,7), of t] f by simp
  obtain ids rss where ids: "authentic_escape_ids (or_run s) = Inr ids"
    and rss: "mapR (\<lambda>u. task_escapes jl ids u (or_log s u)) (sort ds) = Inr rss" "rs = concat rss"
    using assms(2) by (auto simp: iter_escapes_def res_simps)
  have log': "bindR (or_log s' t) as_entries = Inr es'"
    using es by (simp add: s' entries_append_event e)
  have "\<exists>rss'. mapR (\<lambda>u. task_escapes jl (ids @ [(t, fid)]) u (or_log s' u)) (sort ds) = Inr rss'
      \<and> mset (concat rss') = add_mset ?r (mset (concat rss))"
  proof (rule mapR_one_grows[OF rss(1)])
    show "distinct (sort ds)" "t \<in> set (sort ds)"
      using assms(3,4) by simp_all
  next
    fix u assume "u \<noteq> t"
    then show "task_escapes jl (ids @ [(t, fid)]) u (or_log s' u) = task_escapes jl ids u (or_log s u)"
      by (simp add: s' task_escapes_same)
  next
    fix x assume "task_escapes jl ids t (or_log s t) = Inr x"
    then show "task_escapes jl (ids @ [(t, fid)]) t (or_log s' t) = Inr (x @ [?r])"
      by (rule task_escapes_raised[OF es log' f(1,3,2,7) r])
  qed
  then obtain rss' where rss': "mapR (\<lambda>u. task_escapes jl (ids @ [(t, fid)]) u (or_log s' u)) (sort ds) = Inr rss'"
      "mset (concat rss') = add_mset ?r (mset rs)"
    unfolding rss(2) by blast
  have "iter_escapes jl (Some ds) s' = Inr (concat rss')"
    using rss'(1) ids by (simp add: iter_escapes_def s' authentic_append)
  moreover have "le_total (class_entry (concat rss') c) = le_total (class_entry rs c) + 1"
  proof -
    have own: "le_total (class_entry xs c) = size (filter_mset (\<lambda>r. class_of r = c \<and> es_status r \<noteq> ''dismissed'') (mset xs))" for xs
      by (simp add: class_entry_def live_def Let_def conj_commute flip: mset_filter)
    show ?thesis
      unfolding own rss'(2) using assms(5) by (simp add: class_of_def nonempty_or_def)
  qed
  ultimately show ?thesis
    using rss'(2) valid by blast
qed

section \<open>What a branch can still disturb\<close>

text \<open>
  The event a branch has to write into its own task log: a resolution of the flag, as the command of the
  Director writes it.
\<close>

definition dismissal :: "string \<Rightarrow> entry" where
  "dismissal fid = [(''action'', JStr ''flag-resolved''), (''id'', JStr fid), (''resolution'', JStr ''dismissed'')]"

lemma derive_flags_dismissal:
  "derive_flags (es @ [dismissal fid])
     = map (\<lambda>f. if fl_id f = fid \<and> flag_status f = ''open'' then resolve_with (dismissal fid) f else f) (derive_flags es)"
  by (simp add: derive_flags_snoc derive_step_def has_action_def dismissal_def dget_def)

lemma dismissed_status: "flag_status (resolve_with (dismissal fid) f) = ''dismissed''"
  by (simp add: flag_status_def resolve_with_def dismissal_def dget_or_def nonempty_or_def)

lemma mapR_map:
  "(\<And>x. x \<in> set xs \<Longrightarrow> g (h x) = map_sum id k (f x)) \<Longrightarrow> mapR g (map h xs) = map_sum id (map k) (mapR f xs)"
proof (induction xs)
  case (Cons x xs)
  then show ?case
    by (cases "f x"; cases "mapR f xs") simp_all
qed simp

definition silence :: "string \<Rightarrow> string \<Rightarrow> escape_record \<Rightarrow> escape_record" where
  "silence t fid r =
     (if es_task r = t \<and> es_flag r = fid \<and> es_status r = ''open'' then r\<lparr>es_status := ''dismissed''\<rparr> else r)"

lemma escape_of_dismissed:
  "escape_of jl t (if fl_id f = fid \<and> flag_status f = ''open'' then resolve_with (dismissal fid) f else f)
     = map_sum id (silence t fid) (escape_of jl t f)"
proof -
  have "fl_detail (resolve_with e f) = fl_detail f" "fl_summary (resolve_with e f) = fl_summary f" for e
    by (simp_all add: resolve_with_def)
  then show ?thesis
    by (cases "payload_of jl (fl_detail f)") (auto simp: escape_of_def silence_def dismissed_status)
qed

lemma task_escapes_dismissed:
  "task_escapes jl ids t (append_event (dismissal fid) l) = map_sum id (map (silence t fid)) (task_escapes jl ids t l)"
proof (cases "bindR l as_entries")
  case (Inl e)
  then show ?thesis
    by (simp add: task_escapes_def entries_append_event)
next
  case (Inr es)
  define mark where "mark = (\<lambda>f. if fl_id f = fid \<and> flag_status f = ''open'' then resolve_with (dismissal fid) f else f)"
  have "counted ids t (mark f) = counted ids t f" for f
    by (simp add: mark_def counted_def resolve_with_def)
  then have kept: "filter (counted ids t) (map mark fs) = map mark (filter (counted ids t) fs)" for fs
    by (induction fs) simp_all
  have "mapR (escape_of jl t) (map mark fs) = map_sum id (map (silence t fid)) (mapR (escape_of jl t) fs)" for fs
    by (rule mapR_map) (simp add: mark_def escape_of_dismissed del: if_split)
  then show ?thesis
    using Inr kept by (simp add: task_escapes_def entries_append_event derive_flags_dismissal mark_def)
qed

text \<open>The logs with one more line in the log of a task.\<close>

definition with_line :: "string \<Rightarrow> json \<Rightarrow> oracle_logs \<Rightarrow> oracle_logs" where
  "with_line t v s = s\<lparr>or_log := (or_log s)(t := map_sum id (\<lambda>vs. vs @ [v]) (or_log s t))\<rparr>"

text \<open>
  A branch can silence an escape that was raised: the record in the run log vouches for the flag, not for
  its resolution. One line in the task log, which the branch can write, turns the open escape into a
  dismissed one and removes it from everything the ledger counts, although only the Director may dismiss it;
  all other escapes stay as they are.
\<close>

theorem forged_dismissal_silences_escape:
  "iter_escapes jl dirs (with_line t (JObj (dismissal fid)) s) = map_sum id (map (silence t fid)) (iter_escapes jl dirs s)
   \<and> live (map (silence t fid) rs) = filter (\<lambda>r. \<not> (es_task r = t \<and> es_flag r = fid \<and> es_status r = ''open'')) (live rs)"
proof
  have one: "task_escapes jl ids u (or_log (with_line t (JObj (dismissal fid)) s) u)
      = map_sum id (map (silence t fid)) (task_escapes jl ids u (or_log s u))" for ids u
  proof (cases "u = t")
    case True
    then show ?thesis
      using task_escapes_dismissed[of jl ids t fid "or_log s t"] by (simp add: with_line_def append_event_def)
  next
    case False
    have "map (silence t fid) xs = xs" if "task_escapes jl ids u (or_log s u) = Inr xs" for xs
      using task_escapes_ids(2)[OF that] False by (intro map_idI) (simp add: silence_def)
    then show ?thesis
      using False by (cases "task_escapes jl ids u (or_log s u)") (simp_all add: with_line_def)
  qed
  have "mapR (\<lambda>u. task_escapes jl ids u (or_log (with_line t (JObj (dismissal fid)) s) u)) (map id us)
      = map_sum id (map (map (silence t fid))) (mapR (\<lambda>u. task_escapes jl ids u (or_log s u)) us)" for ids us
    by (rule mapR_map) (simp add: one)
  moreover have "bindR (map_sum id (map (map k)) m) (\<lambda>rs. Inr (concat rs)) = map_sum id (map k) (bindR m (\<lambda>rs. Inr (concat rs)))"
    for m :: "exn + escape_record list list" and k
    by (cases m) (simp_all add: map_concat)
  ultimately show "iter_escapes jl dirs (with_line t (JObj (dismissal fid)) s) = map_sum id (map (silence t fid)) (iter_escapes jl dirs s)"
    by (cases dirs; cases "authentic_escape_ids (or_run s)") (simp_all add: iter_escapes_def with_line_def)
  show "live (map (silence t fid) rs) = filter (\<lambda>r. \<not> (es_task r = t \<and> es_flag r = fid \<and> es_status r = ''open'')) (live rs)"
    by (induction rs) (auto simp: live_def silence_def)
qed

text \<open>
  One line that is valid JSON but no object, in the log of any task, ends every reading of the escapes
  with an exception: the reader promises that a poisoned log never breaks the ledger of the other tasks, but
  it only skips logs that do not parse. (The ledger, the recording of a run and the scaffolding of an
  evaluation all start with this reading.)
\<close>

theorem odd_line_breaks_ledger:
  assumes "t \<in> set ds" "or_log s t = Inr vs"
  shows "\<not> is_ok (iter_escapes jl (Some ds) (with_line t (JInt n) s))"
proof -
  have "as_entries (vs @ [JInt n]) \<noteq> Inr es" for es
    unfolding as_entries_def by (induction vs arbitrary: es) (auto simp: as_entry_def res_simps)
  moreover have "as_entries xs = Inl e \<Longrightarrow> e = AttributeError" for xs e
    unfolding as_entries_def by (induction xs) (auto simp: as_entry_def res_simps split: json.splits)
  ultimately have "as_entries (vs @ [JInt n]) = Inl AttributeError"
    by (cases "as_entries (vs @ [JInt n])") blast+
  then have bad: "task_escapes jl ids t (or_log (with_line t (JInt n) s) t) = Inl AttributeError" for ids
    using assms(2) by (simp add: task_escapes_def with_line_def)
  have "\<not> is_ok (mapR f us)" if "t \<in> set us" "f t = Inl AttributeError" for f :: "string \<Rightarrow> exn + escape_record list" and us
    using that by (induction us) (auto simp: is_ok_iff res_simps)
  then have "\<not> is_ok (mapR (\<lambda>u. task_escapes jl ids u (or_log (with_line t (JInt n) s) u)) (sort ds))" for ids
    using assms(1) bad by simp
  then show ?thesis
    by (auto simp: iter_escapes_def is_ok_iff res_simps)
qed

section \<open>Witnesses\<close>

text \<open>A JSON library that knows one text, and a measurement of two merged tasks with one recorded escape.\<close>

definition demo_escape_payload :: json where
  "demo_escape_payload = escape_payload ''edge-case'' ''confirmed'' ''repro'' (Some ''rw1'') None"

definition demo_escape_lib :: jsonl_lib where
  "demo_escape_lib = \<lparr>jl_dump = (\<lambda>v. if v = demo_escape_payload then ''{p}'' else ''{}''),
               jl_load = (\<lambda>s. if s = ''{p}'' then Some demo_escape_payload else None)\<rparr>"

definition demo_flag :: entry where
  "demo_flag = [(''action'', JStr ''flag''), (''id'', JStr ''b#1''), (''kind'', JStr ''oracle-escape''),
                (''summary'', JStr ''s''), (''detail'', JStr ''{p}'')]"

text \<open>The task \<open>b\<close> has a raised escape, the task \<open>a\<close> a forged one.\<close>

definition demo_oracle :: oracle_logs where
  "demo_oracle = \<lparr>or_run = Inr [JObj (escape_event JNull ''b'' ''b#1'' ''edge-case'' ''confirmed'')],
                  or_log = (\<lambda>t. if t = ''b'' \<or> t = ''a'' then Inr [JObj demo_flag] else Inl LogCorruptionError)\<rparr>"

definition demo_record :: "string \<Rightarrow> string \<Rightarrow> escape_record" where
  "demo_record t fid = \<lparr>es_task = t, es_flag = fid, es_class = Some ''edge-case'', es_grade = Some ''confirmed'',
                        es_status = ''open'', es_summary = ''s''\<rparr>"

definition demo_dirs :: "string list" where
  "demo_dirs = [''b'', ''a'', ''c'']"

definition demo_raised :: "(exn + string) \<times> oracle_logs" where
  "demo_raised = raise_oracle_escape demo_escape_lib (Inr [''edge-case'']) JNull ''a'' ''edge-case'' ''confirmed'' ''s'' ''repro''
     (Some ''rw1'') None demo_oracle"

lemma demo_facts:
  "iter_escapes demo_escape_lib (Some demo_dirs) demo_oracle = Inr [demo_record ''b'' ''b#1'']"
  "fst demo_raised = Inr ''a#2''" "distinct demo_dirs" "''a'' \<in> set demo_dirs"
  "jl_dump demo_escape_lib demo_escape_payload \<noteq> []" "jl_load demo_escape_lib (jl_dump demo_escape_lib demo_escape_payload) = Some demo_escape_payload"
  by code_simp+

theorem forged_flags_never_count_witness:
  "\<exists>ids. authentic_escape_ids (or_run demo_oracle) = Inr ids
     \<and> sum_list (map le_total (derive_ledger [demo_record ''b'' ''b#1''])) \<le> card (set ids)"
  using forged_flags_never_count[OF demo_facts(1,3)] by blast

theorem raised_escape_is_counted_witness:
  "\<exists>rs. iter_escapes demo_escape_lib (Some demo_dirs) (snd demo_raised) = Inr rs
     \<and> mset rs = {#demo_record ''a'' ''a#2'', demo_record ''b'' ''b#1''#}"
proof -
  have "demo_raised = (Inr ''a#2'', snd demo_raised)"
    using demo_facts(2) by (metis prod.collapse)
  then have raised: "raise_oracle_escape demo_escape_lib (Inr [''edge-case'']) JNull ''a'' ''edge-case'' ''confirmed'' ''s'' ''repro''
     (Some ''rw1'') None demo_oracle = (Inr ''a#2'', snd demo_raised)"
    unfolding demo_raised_def .
  show ?thesis
    using raised_escape_is_counted[OF raised demo_facts(1,4,3) _ demo_facts(5,6)[unfolded demo_escape_payload_def]]
    by (auto simp: demo_record_def)
qed

theorem odd_line_breaks_ledger_witness:
  "is_ok (iter_escapes demo_escape_lib (Some demo_dirs) demo_oracle)
   \<and> \<not> is_ok (iter_escapes demo_escape_lib (Some demo_dirs) (with_line ''a'' (JInt 7) demo_oracle))"
proof -
  have "or_log demo_oracle ''a'' = Inr [JObj demo_flag]"
    by (simp add: demo_oracle_def)
  then show ?thesis
    using odd_line_breaks_ledger[OF demo_facts(4)] demo_facts(1) by simp
qed

end
