(* ===== verification/Oracle_Run.thy ===== *)
theory Oracle_Run
  imports Oracle_Log Gitdiff Merge_Subject
begin

text \<open>
  Model of the runs of the oracle: \<open>src/orchestrator/oracle/scope.py\<close>, \<open>trigger.py\<close>,
  the git helpers of \<open>__init__.py\<close> and the commands of \<open>cli.py\<close> that read the history and the logs. The
  state is the host of the git commands and the logs of the oracle; the policy of the target, the parser of
  a timestamp and the files git checks out are arguments. Printed text is left out: a command is its exit
  code and what it appends. The lemmas show which tasks a run reviews, when one is due, and that a recorded
  run counts every escape at most once and never claims a task it did not look at.
\<close>

section \<open>Git\<close>

record 'w desk =
  dk_shell :: "'w shell"
  dk_logs :: oracle_logs

definition shellP :: "('w shell, 'a) prog \<Rightarrow> ('w desk, 'a) prog" where
  "shellP m s = (let (r, sh) = m (dk_shell s) in (r, s\<lparr>dk_shell := sh\<rparr>))"

definition logsP :: "(oracle_logs, 'a) prog \<Rightarrow> ('w desk, 'a) prog" where
  "logsP m s = (let (r, l) = m (dk_logs s) in (r, s\<lparr>dk_logs := l\<rparr>))"

definition system_exit :: exn where
  "system_exit = OtherError ''SystemExit''"

definition oracle_git :: "'w host \<Rightarrow> bool \<Rightarrow> string \<Rightarrow> string list \<Rightarrow> ('w shell, int \<times> string) prog" where
  "oracle_git h check repo args =
     bindP (run_git h repo args) (\<lambda>(code, out, err).
       if check \<and> code \<noteq> 0
       then throwP (RuntimeError (''git '' @ join '' '' args @ '' failed: '' @ strip err))
       else retP (code, strip out))"

definition git_text :: "'w host \<Rightarrow> string \<Rightarrow> string list \<Rightarrow> ('w shell, string) prog" where
  "git_text h repo args = bindP (oracle_git h True repo args) (\<lambda>(_, out). retP out)"

definition drop_worktree :: "'w host \<Rightarrow> string \<Rightarrow> string \<Rightarrow> ('w shell, unit) prog" where
  "drop_worktree h repo path =
     thenP (oracle_git h False repo [''worktree'', ''remove'', ''--force'', path])
    (thenP (oracle_git h True repo [''worktree'', ''prune'']) (retP ()))"

definition add_detached_worktree :: "'w host \<Rightarrow> bool \<Rightarrow> string \<Rightarrow> string \<Rightarrow> string \<Rightarrow> ('w shell, int) prog" where
  "add_detached_worktree h check repo ref path =
     thenP (oracle_git h True repo [''worktree'', ''prune''])
    (bindP (ask (ho_exists h path)) (\<lambda>there.
     thenP (if there then thenP (oracle_git h False repo [''worktree'', ''remove'', ''--force'', path]) (retP ()) else retP ())
    (bindP (oracle_git h check repo [''worktree'', ''add'', ''--detach'', path, ref]) (\<lambda>(code, _). retP code))))"

definition commit_exists :: "'w host \<Rightarrow> string \<Rightarrow> string \<Rightarrow> ('w shell, bool) prog" where
  "commit_exists h repo ref =
     bindP (oracle_git h False repo [''rev-parse'', ''--verify'', ''--quiet'', ref @ ''^{commit}'']) (\<lambda>(code, _).
       retP (code = 0))"

section \<open>The scope of a run\<close>

record merged_task =
  mt_id :: string
  mt_sha :: string
  mt_files :: "string list"
  mt_policy :: target_policy

definition bucket :: "merged_task \<Rightarrow> blast_radius" where
  "bucket t = classify_blast_radius (mt_policy t) (mt_files t)"

definition bucket_text :: "blast_radius \<Rightarrow> string" where
  "bucket_text b = (case b of L1 \<Rightarrow> ''L1'' | L2 \<Rightarrow> ''L2'' | L3 \<Rightarrow> ''L3'')"

definition l1_sample_every :: nat where
  "l1_sample_every = 5"

primrec scope_from :: "nat \<Rightarrow> merged_task list \<Rightarrow> merged_task list \<times> merged_task list" where
  "scope_from n [] = ([], [])"
| "scope_from n (t # ts) =
     (if bucket t = L1 then
        (let (reviewed, skipped) = scope_from (n + 1) ts in
         if n mod l1_sample_every = 0 then (t # reviewed, skipped) else (reviewed, t # skipped))
      else (let (reviewed, skipped) = scope_from n ts in (t # reviewed, skipped)))"

definition select_scope :: "merged_task list \<Rightarrow> merged_task list \<times> merged_task list" where
  "select_scope ts = scope_from 0 ts"

definition add_to_bucket :: "string \<Rightarrow> string \<Rightarrow> by_bucket \<Rightarrow> by_bucket" where
  "add_to_bucket b i m =
     (case map_of m b of
        None \<Rightarrow> m @ [(b, [i])]
      | Some _ \<Rightarrow> map (\<lambda>(b', ids). (b', if b' = b then ids @ [i] else ids)) m)"

definition ids_by_bucket :: "merged_task list \<Rightarrow> by_bucket" where
  "ids_by_bucket ts = fold (\<lambda>t. add_to_bucket (bucket_text (bucket t)) (mt_id t)) ts []"

text \<open>The lines of \<open>git log\<close>: a commit, a tab, a subject.\<close>

definition task_merge :: "string \<Rightarrow> (string \<times> string) list" where
  "task_merge line =
     (case parse_merge_subject (after_char tab line) of Some t \<Rightarrow> [(before_char tab line, t)] | None \<Rightarrow> [])"

definition task_merges :: "'w host \<Rightarrow> string \<Rightarrow> string list \<Rightarrow> ('w shell, (string \<times> string) list) prog" where
  "task_merges h repo args =
     bindP (git_text h repo ([''log'', ''--first-parent'', ''--merges'', ''--format=%H%x09%s''] @ args)) (\<lambda>out.
       retP (concat (map task_merge (splitlines out))))"

primrec shipped_tasks ::
  "'w host \<Rightarrow> string \<Rightarrow> target_policy \<Rightarrow> (string \<times> string) list \<Rightarrow> ('w shell, merged_task list) prog" where
  "shipped_tasks h repo p [] = retP []"
| "shipped_tasks h repo p (m # ms) =
     bindP (git_text h repo ([''diff'', ''--no-renames'', ''--name-only'', fst m @ ''^1'', fst m] @ policy_pathspec (snd m)))
       (\<lambda>files.
     bindP (shipped_tasks h repo p ms) (\<lambda>rest.
       retP (if splitlines files = [] then rest
             else \<lparr>mt_id = snd m, mt_sha = fst m, mt_files = splitlines files, mt_policy = p\<rparr> # rest)))"

definition merged_tasks_in_range ::
  "'w host \<Rightarrow> string \<Rightarrow> (exn + target_policy) \<Rightarrow> string \<Rightarrow> string \<Rightarrow> ('w shell, merged_task list) prog" where
  "merged_tasks_in_range h repo policy from_sha to_ref =
     bindP (liftP policy) (\<lambda>p.
     bindP (task_merges h repo [''--reverse'', from_sha @ ''..'' @ to_ref]) (shipped_tasks h repo p))"

definition merge_sha_for_task :: "'w host \<Rightarrow> string \<Rightarrow> string \<Rightarrow> string \<Rightarrow> ('w shell, string option) prog" where
  "merge_sha_for_task h repo task_id to_ref =
     bindP (task_merges h repo [to_ref]) (\<lambda>ms. retP (map_option fst (find (\<lambda>m. snd m = task_id) ms)))"

section \<open>The trigger\<close>

text \<open>Times are microseconds.\<close>

datatype due_reason = NeverRun | UnknownMark string | ManyMerges nat | HighRiskMerge | LongAgo int

record trigger_status =
  ts_due :: bool
  ts_reasons :: "due_reason list"
  ts_watermark :: "string option"
  ts_merges :: nat
  ts_high :: bool
  ts_since :: "int option"

definition trigger_task_count :: nat where
  "trigger_task_count = 5"

definition trigger_max :: int where
  "trigger_max = 14 * 86400 * 1000000"

definition oracle_due :: "string option \<Rightarrow> nat \<Rightarrow> bool \<Rightarrow> int option \<Rightarrow> trigger_status" where
  "oracle_due mark merges high since =
     (let reasons = (case mark of
          None \<Rightarrow> [NeverRun]
        | Some _ \<Rightarrow>
            (if merges \<ge> trigger_task_count then [ManyMerges merges] else [])
            @ (if high then [HighRiskMerge] else [])
            @ (case since of Some d \<Rightarrow> if d \<ge> trigger_max then [LongAgo d] else [] | None \<Rightarrow> []))
      in \<lparr>ts_due = (reasons \<noteq> []), ts_reasons = reasons, ts_watermark = mark, ts_merges = merges, ts_high = high,
          ts_since = since\<rparr>)"

definition since_last :: "(string \<Rightarrow> int option) \<Rightarrow> int \<Rightarrow> entry \<Rightarrow> int option" where
  "since_last parse_ts now run =
     (case dget run ''ts'' of JStr t \<Rightarrow> map_option (\<lambda>last. now - last) (parse_ts t) | _ \<Rightarrow> None)"

definition trigger_check ::
  "'w host \<Rightarrow> string \<Rightarrow> (exn + target_policy) \<Rightarrow> (string \<Rightarrow> int option) \<Rightarrow> int \<Rightarrow> ('w desk, trigger_status) prog" where
  "trigger_check h repo policy parse_ts now =
     bindP (getP (\<lambda>s. or_run (dk_logs s))) (\<lambda>l.
     bindP (liftP (read_runs l)) (\<lambda>runs.
       case run_mark runs of
         None \<Rightarrow> retP (oracle_due None 0 False None)
       | Some wm \<Rightarrow>
           bindP (shellP (commit_exists h repo wm)) (\<lambda>known.
             if \<not> known
             then retP \<lparr>ts_due = True, ts_reasons = [UnknownMark wm], ts_watermark = Some wm, ts_merges = 0,
                        ts_high = False, ts_since = None\<rparr>
             else bindP (shellP (merged_tasks_in_range h repo policy wm ''main'')) (\<lambda>tasks.
                    retP (oracle_due (Some wm) (length tasks) (list_ex (\<lambda>t. bucket t = L3) tasks)
                            (since_last parse_ts now (last runs)))))))"

section \<open>Commands over the history\<close>

definition resolve_scope ::
  "'w host \<Rightarrow> string \<Rightarrow> (exn + target_policy) \<Rightarrow> string option \<Rightarrow> string \<Rightarrow>
   ('w desk, string \<times> merged_task list \<times> merged_task list) prog" where
  "resolve_scope h repo policy since to_ref =
     bindP (case since of
              Some x \<Rightarrow> if x \<noteq> [] then retP (Some x) else bindP (getP (\<lambda>s. or_run (dk_logs s))) (\<lambda>l. liftP (watermark l))
            | None \<Rightarrow> bindP (getP (\<lambda>s. or_run (dk_logs s))) (\<lambda>l. liftP (watermark l))) (\<lambda>from.
       case from of
         None \<Rightarrow> throwP system_exit
       | Some f \<Rightarrow>
           bindP (shellP (commit_exists h repo f)) (\<lambda>known.
             if \<not> known then throwP system_exit
             else bindP (shellP (merged_tasks_in_range h repo policy f to_ref)) (\<lambda>ts. retP (f, select_scope ts))))"

definition cmd_status ::
  "'w host \<Rightarrow> string \<Rightarrow> (exn + target_policy) \<Rightarrow> (string \<Rightarrow> int option) \<Rightarrow> int \<Rightarrow> ('w desk, int) prog" where
  "cmd_status h repo policy parse_ts now =
     bindP (trigger_check h repo policy parse_ts now) (\<lambda>st. retP (if ts_due st then 1 else 0))"

definition cmd_scope ::
  "'w host \<Rightarrow> string \<Rightarrow> (exn + target_policy) \<Rightarrow> string option \<Rightarrow> string \<Rightarrow> ('w desk, string \<times> by_bucket \<times> by_bucket) prog" where
  "cmd_scope h repo policy since to_ref =
     bindP (resolve_scope h repo policy since to_ref) (\<lambda>(from, reviewed, skipped).
     bindP (shellP (git_text h repo [''rev-parse'', to_ref])) (\<lambda>to_sha.
       retP (to_sha, ids_by_bucket reviewed, ids_by_bucket skipped)))"

text \<open>The pairs of task and flag that the findings of a run name.\<close>

definition run_findings :: "entry \<Rightarrow> exn + (string \<times> string) list" where
  "run_findings run =
     bindR (list_of (dget_or run ''findings'' (JArr []))) (\<lambda>fs.
     bindR (mapR as_entry fs) (\<lambda>es. Inr (map escape_id es)))"

definition recorded_findings :: "entry list \<Rightarrow> exn + (string \<times> string) list" where
  "recorded_findings runs = bindR (mapR run_findings runs) (\<lambda>ps. Inr (concat ps))"

definition finding_entry :: "escape_record \<Rightarrow> entry" where
  "finding_entry r =
     [(''task'', JStr (es_task r)), (''flag_id'', JStr (es_flag r)),
      (''grade'', JStr (case es_grade r of Some g \<Rightarrow> nonempty_or g ''plausible'' | None \<Rightarrow> ''plausible''))]"

definition new_findings :: "merged_task list \<Rightarrow> (string \<times> string) list \<Rightarrow> escape_record list \<Rightarrow> entry list" where
  "new_findings reviewed recorded rs =
     map finding_entry (filter (\<lambda>r. es_task r \<in> mt_id ` set reviewed \<and> (es_task r, es_flag r) \<notin> set recorded) rs)"

definition cmd_record_run ::
  "'w host \<Rightarrow> string \<Rightarrow> (exn + target_policy) \<Rightarrow> jsonl_lib \<Rightarrow> string list option \<Rightarrow> json \<Rightarrow> string option \<Rightarrow> string \<Rightarrow>
   ('w desk, int) prog" where
  "cmd_record_run h repo policy jl dirs now since to_ref =
     bindP (shellP (git_text h repo [''rev-parse'', to_ref])) (\<lambda>to_sha.
     bindP (resolve_scope h repo policy since to_sha) (\<lambda>(from_sha, reviewed, skipped).
     bindP (getP dk_logs) (\<lambda>logs.
     bindP (liftP (read_runs (or_run logs))) (\<lambda>runs.
     bindP (liftP (recorded_findings runs)) (\<lambda>recorded.
     bindP (liftP (iter_escapes jl dirs logs)) (\<lambda>rs.
     bindP (liftP (append_run now from_sha to_sha (ids_by_bucket reviewed) (ids_by_bucket skipped)
                     (new_findings reviewed recorded rs) ''calibration'' (or_run logs))) (\<lambda>l.
       thenP (logsP (modifyP (\<lambda>s. s\<lparr>or_run := l\<rparr>))) (retP 0))))))))"

definition cmd_escape ::
  "jsonl_lib \<Rightarrow> (exn + string list) \<Rightarrow> json \<Rightarrow> bool \<Rightarrow> string \<Rightarrow> string \<Rightarrow> string \<Rightarrow> string \<Rightarrow> string \<Rightarrow>
   string option \<Rightarrow> string option \<Rightarrow> ('w desk, int) prog" where
  "cmd_escape jl registry now has_log task class_slug grade summary evidence gate note =
     (if \<not> has_log then throwP system_exit
      else catchP
        (thenP (logsP (raise_oracle_escape jl registry now task class_slug grade summary evidence gate note)) (retP 0))
        (\<lambda>e. if is_value_error e then throwP system_exit else throwP e))"

definition cmd_resolve :: "json \<Rightarrow> string \<Rightarrow> string \<Rightarrow> string \<Rightarrow> string option \<Rightarrow> ('w desk, int) prog" where
  "cmd_resolve now task flag_id resolution note =
     bindP (getP (\<lambda>s. or_log (dk_logs s) task)) (\<lambda>l.
     bindP (liftP (if resolution \<notin> set flag_resolutions then Inl ValueError else bindR l as_entries)) (\<lambda>es.
     bindP (liftP (resolve_flag now flag_id resolution note True es)) (\<lambda>(ok, es').
       if \<not> ok then throwP system_exit
       else thenP (logsP (modifyP (\<lambda>s. s\<lparr>or_log := (or_log s)(task := append_event (last es') l)\<rparr>))) (retP 0))))"

definition cmd_ledger :: "jsonl_lib \<Rightarrow> string list option \<Rightarrow> ('w desk, ledger_entry list \<times> rate_row list) prog" where
  "cmd_ledger jl dirs =
     bindP (getP dk_logs) (\<lambda>logs.
     bindP (liftP (iter_escapes jl dirs logs)) (\<lambda>rs.
     bindP (liftP (read_runs (or_run logs))) (\<lambda>runs.
     bindP (liftP (escape_rate_series runs rs)) (\<lambda>rows. retP (derive_ledger rs, rows)))))"

section \<open>What a run reviews\<close>

lemma scope_from_facts:
  "filter (\<lambda>t. bucket t \<noteq> L1) (fst (scope_from n ts)) = filter (\<lambda>t. bucket t \<noteq> L1) ts
   \<and> filter (\<lambda>t. bucket t = L1) (fst (scope_from n ts)) = nths (filter (\<lambda>t. bucket t = L1) ts) {i. (n + i) mod 5 = 0}
   \<and> snd (scope_from n ts) = nths (filter (\<lambda>t. bucket t = L1) ts) {i. (n + i) mod 5 \<noteq> 0}
   \<and> mset (fst (scope_from n ts)) + mset (snd (scope_from n ts)) = mset ts"
proof (induction ts arbitrary: n)
  case (Cons t ts)
  show ?case
    using Cons.IH[of n] Cons.IH[of "n + 1"]
    by (cases "scope_from n ts"; cases "scope_from (n + 1) ts") (auto simp: nths_Cons l1_sample_every_def)
qed simp

text \<open>
  A run reviews every merged task outside the lowest blast radius, in order, and of the lowest exactly the
  first and then every fifth; everything else is recorded as skipped, so that every task of the range stands
  in exactly one of the two lists as often as it was merged.
\<close>

theorem scope_is_partition:
  "filter (\<lambda>t. bucket t \<noteq> L1) (fst (select_scope ts)) = filter (\<lambda>t. bucket t \<noteq> L1) ts
   \<and> filter (\<lambda>t. bucket t = L1) (fst (select_scope ts)) = nths (filter (\<lambda>t. bucket t = L1) ts) {i. i mod 5 = 0}
   \<and> snd (select_scope ts) = nths (filter (\<lambda>t. bucket t = L1) ts) {i. i mod 5 \<noteq> 0}
   \<and> mset (fst (select_scope ts)) + mset (snd (select_scope ts)) = mset ts"
  using scope_from_facts[of 0 ts] unfolding select_scope_def add_0 .

lemma due_iff:
  "ts_due (oracle_due mark merges high since)
     \<longleftrightarrow> mark = None \<or> merges \<ge> 5 \<or> high \<or> (\<exists>d. since = Some d \<and> d \<ge> trigger_max)"
  by (auto simp: oracle_due_def trigger_task_count_def Let_def split: option.splits if_splits)

section \<open>A recorded run\<close>

lemma shellP_logs: "shellP m s = (r, s') \<Longrightarrow> dk_logs s' = dk_logs s"
  by (auto simp: shellP_def Let_def split: prod.splits)

lemma resolve_scope_logs: "resolve_scope h repo policy since to_ref s = (Inr x, s') \<Longrightarrow> dk_logs s' = dk_logs s"
  by (auto simp: resolve_scope_def bindP_Inr_iff prog_defs dest!: shellP_logs split: option.splits if_splits sum.splits)

lemma as_entries_objects: "mapR as_entry (map JObj es) = Inr es"
  by (induction es) (simp_all add: as_entry_def)

lemma run_findings_event:
  "run_findings (run_event now f t reviewed skipped es mode) = Inr (map escape_id es)"
  by (simp add: run_findings_def run_event_def dget_or_def list_of_def as_entries_objects)

lemma recorded_findings_append:
  assumes "recorded_findings runs = Inr ps" "run_findings e = Inr qs"
  shows "recorded_findings (runs @ [e]) = Inr (ps @ qs)"
proof -
  obtain pss where "mapR run_findings runs = Inr pss" "ps = concat pss"
    using assms(1) by (auto simp: recorded_findings_def res_simps)
  then have "mapR run_findings (runs @ [e]) = Inr (pss @ [qs])"
    using assms(2) by (simp add: mapR_all2 list_all2_appendI)
  then show ?thesis
    using \<open>ps = concat pss\<close> by (simp add: recorded_findings_def)
qed

lemma runs_append: "read_runs l = Inr runs \<Longrightarrow> has_action oracle_run e \<Longrightarrow> read_runs (append_event e l) = Inr (runs @ [e])"
  by (cases l) (auto simp: read_runs_def read_events_def append_event_def events_append)

lemma escape_id_finding: "escape_id (finding_entry r) = (es_task r, es_flag r)"
  by (simp add: escape_id_def finding_entry_def dget_def)

lemma new_findings_ids:
  "map escape_id (new_findings reviewed ps rs)
     = filter (\<lambda>p. fst p \<in> mt_id ` set reviewed \<and> p \<notin> set ps) (map (\<lambda>r. (es_task r, es_flag r)) rs)"
  by (simp add: new_findings_def comp_def escape_id_finding filter_map)

text \<open>The escapes the run log has recorded, over all its runs.\<close>

definition all_recorded :: "log_state \<Rightarrow> exn + (string \<times> string) list" where
  "all_recorded l = bindR (read_runs l) recorded_findings"

lemma record_run_effect:
  assumes "cmd_record_run h repo policy jl dirs now since to_ref s = (Inr c, s')"
  obtains from_sha to_sha reviewed skipped runs ps rs where
    "read_runs (or_run (dk_logs s)) = Inr runs" "recorded_findings runs = Inr ps" "iter_escapes jl dirs (dk_logs s) = Inr rs"
    "to_sha \<noteq> []"
    "dk_logs s' = (dk_logs s)\<lparr>or_run := append_event
       (run_event now from_sha to_sha (ids_by_bucket reviewed) (ids_by_bucket skipped) (new_findings reviewed ps rs) ''calibration'')
       (or_run (dk_logs s))\<rparr>"
proof -
  from assms obtain to_sha s1 from_sha reviewed skipped s2 where
    s1: "shellP (git_text h repo [''rev-parse'', to_ref]) s = (Inr to_sha, s1)"
    and s2: "resolve_scope h repo policy since to_sha s1 = (Inr (from_sha, reviewed, skipped), s2)"
    and rest: "bindP (getP dk_logs) (\<lambda>logs.
     bindP (liftP (read_runs (or_run logs))) (\<lambda>runs.
     bindP (liftP (recorded_findings runs)) (\<lambda>recorded.
     bindP (liftP (iter_escapes jl dirs logs)) (\<lambda>rs.
     bindP (liftP (append_run now from_sha to_sha (ids_by_bucket reviewed) (ids_by_bucket skipped)
                     (new_findings reviewed recorded rs) ''calibration'' (or_run logs))) (\<lambda>l.
       thenP (logsP (modifyP (\<lambda>s. s\<lparr>or_run := l\<rparr>))) (retP (0::int))))))) s2 = (Inr c, s')"
    unfolding cmd_record_run_def bindP_Inr_iff by (auto simp: bindP_Inr_iff)
  have logs: "dk_logs s2 = dk_logs s"
    using shellP_logs[OF s1] resolve_scope_logs[OF s2] by simp
  from rest show thesis
    by (auto simp: bindP_Inr_iff thenP_def prog_defs logsP_def append_run_def logs split: if_splits intro: that)
qed

text \<open>
  Recording a run counts every escape once: the findings it appends name different escapes, none of which
  an earlier run has recorded, all of them raised by the oracle; the earlier findings and all task logs stay
  as they are; and the watermark is the end of the range the scope was computed for. So over all runs no
  escape is ever attributed twice.
\<close>

theorem recorded_run_counts_once:
  assumes "cmd_record_run h repo policy jl (Some ds) now since to_ref s = (Inr c, s')" "distinct ds"
  shows "\<exists>ps new ids to_sha. all_recorded (or_run (dk_logs s)) = Inr ps \<and> all_recorded (or_run (dk_logs s')) = Inr (ps @ new)
     \<and> distinct new \<and> set new \<inter> set ps = {} \<and> (distinct ps = distinct (ps @ new))
     \<and> authentic_escape_ids (or_run (dk_logs s)) = Inr ids \<and> set new \<subseteq> set ids
     \<and> watermark (or_run (dk_logs s')) = Inr (Some to_sha) \<and> or_log (dk_logs s') = or_log (dk_logs s)"
proof -
  obtain from_sha to_sha reviewed skipped runs ps rs where
    runs: "read_runs (or_run (dk_logs s)) = Inr runs" and ps: "recorded_findings runs = Inr ps"
    and rs: "iter_escapes jl (Some ds) (dk_logs s) = Inr rs" and sha: "to_sha \<noteq> []"
    and s': "dk_logs s' = (dk_logs s)\<lparr>or_run := append_event
       (run_event now from_sha to_sha (ids_by_bucket reviewed) (ids_by_bucket skipped) (new_findings reviewed ps rs) ''calibration'')
       (or_run (dk_logs s))\<rparr>"
    using assms(1) by (rule record_run_effect)
  let ?e = "run_event now from_sha to_sha (ids_by_bucket reviewed) (ids_by_bucket skipped) (new_findings reviewed ps rs) ''calibration''"
  let ?new = "map escape_id (new_findings reviewed ps rs)"
  have runs': "read_runs (or_run (dk_logs s')) = Inr (runs @ [?e])"
    unfolding s' using runs by (simp add: runs_append has_action_def run_event_def dget_def)
  have "all_recorded (or_run (dk_logs s)) = Inr ps" "all_recorded (or_run (dk_logs s')) = Inr (ps @ ?new)"
    using runs runs' ps recorded_findings_append[OF ps run_findings_event] by (simp_all add: all_recorded_def)
  moreover have "watermark (or_run (dk_logs s')) = Inr (Some to_sha)"
    using runs' sha by (simp add: watermark_def run_mark_def run_event_def dget_def Let_def)
  moreover have "distinct ?new" "set ?new \<inter> set ps = {}"
    using iter_escapes_ids(1)[OF rs refl assms(2)] by (auto simp: new_findings_ids)
  moreover obtain ids where "authentic_escape_ids (or_run (dk_logs s)) = Inr ids"
      "(\<lambda>r. (es_task r, es_flag r)) ` set rs \<subseteq> set ids"
    using iter_escapes_ids(2)[OF rs refl assms(2)] by blast
  ultimately show ?thesis
    using s' by (intro exI[of _ ps] exI[of _ ?new] exI[of _ ids] exI[of _ to_sha]) (auto simp: new_findings_ids)
qed

section \<open>Witnesses\<close>

text \<open>
  A rework in one range: the task was merged twice, with different blast radius, so it is listed in two
  buckets, and its one escape is counted in the rows of both.
\<close>

definition rework_run :: entry where
  "rework_run = run_event JNull ''a'' ''b'' [(''L2'', [''b'']), (''L3'', [''b''])] []
     [finding_entry (demo_record ''b'' ''b#1'')] ''calibration''"

lemma two_buckets_count_twice:
  "map_sum id (map rr_escapes) (escape_rate_series [rework_run] [demo_record ''b'' ''b#1'']) = Inr [1, 1]"
  by code_simp

text \<open>A history with one merged task, and the command over the logs of \<open>demo_oracle\<close>.\<close>

definition demo_git :: "unit host" where
  "demo_git = git_only (\<lambda>_ args w.
     ((0, if hd args = ''log'' then ''c1'' @ tab # ''Merge agent/b @ 0123456789ab (verified locally)''
          else if hd args = ''diff'' then ''src/app.py'' else ''c9'', []), w))"

definition demo_desk :: "unit desk" where
  "demo_desk = \<lparr>dk_shell = \<lparr>sh_calls = [], sh_world = ()\<rparr>, dk_logs = demo_oracle\<rparr>"

definition demo_recorded :: "(exn + int) \<times> unit desk" where
  "demo_recorded = cmd_record_run demo_git ''.'' (Inr empty_policy) demo_escape_lib (Some demo_dirs) JNull (Some ''c0'') ''main'' demo_desk"

lemma demo_recorded_ok: "fst demo_recorded = Inr 0"
  by code_simp

theorem recorded_run_counts_once_witness:
  "\<exists>ps new. all_recorded (or_run demo_oracle) = Inr ps \<and> all_recorded (or_run (dk_logs (snd demo_recorded))) = Inr (ps @ new)
     \<and> distinct (ps @ new)"
proof -
  have run: "cmd_record_run demo_git ''.'' (Inr empty_policy) demo_escape_lib (Some demo_dirs) JNull (Some ''c0'') ''main'' demo_desk
      = (Inr 0, snd demo_recorded)"
    using demo_recorded_ok unfolding demo_recorded_def by (metis prod.collapse)
  have none: "all_recorded (or_run demo_oracle) = Inr []"
    by code_simp
  have "dk_logs demo_desk = demo_oracle"
    by (simp add: demo_desk_def)
  then show ?thesis
    using recorded_run_counts_once[OF run demo_facts(3)] none by auto
qed

end
