(* ===== verification/Oracle_Eval.thy ===== *)
theory Oracle_Eval
  imports Oracle_Run Run_Theorems Spec_File Merge_Worktree Config
begin

text \<open>
  Model of the seeded evaluations: \<open>src/orchestrator/oracle/evals.py\<close>, \<open>evalrun.py\<close> and their commands in
  \<open>cli.py\<close>. A bundle plants a known defect as the output of the developer, the loop of \<open>Loop_Run\<close> runs over
  it in a sandbox, and the gates' answers are folded into an outcome. The files of a bundle, git and the
  sandbox are arguments. The lemmas show what the outcome depends on, that every evaluation ends, and that
  the developer can never run in one, so the seed is judged as it was planted.
\<close>

section \<open>Bundles\<close>

definition eval_bundle_error :: exn where
  "eval_bundle_error = OtherError ''EvalBundleError''"

definition slug_text :: "string \<Rightarrow> bool" where
  "slug_text s = (s \<noteq> [] \<and> hd s \<noteq> CHR ''-'' \<and> list_all slug_char s)"

text \<open>The end of the pattern also matches before a line feed that ends the text.\<close>

definition eval_id_ok :: "string \<Rightarrow> bool" where
  "eval_id_ok s = (slug_text s \<or> s \<noteq> [] \<and> last s = CHR 0x0A \<and> slug_text (butlast s))"

record eval_bundle =
  eb_id :: string
  eb_spec :: task_spec
  eb_spec_text :: string
  eb_seed :: string
  eb_class :: string
  eb_files :: "string list"
  eb_note :: string

definition bundle_files :: "string list" where
  "bundle_files = [''spec.md'', ''seed.patch'', ''expected.json'']"

definition file_text :: "(string \<Rightarrow> string option) \<Rightarrow> string \<Rightarrow> string" where
  "file_text files name = (case files name of Some t \<Rightarrow> t | None \<Rightarrow> [])"

definition expected_files :: "json \<Rightarrow> string list option" where
  "expected_files v =
     (case v of
        JArr vs \<Rightarrow>
          if vs \<noteq> [] \<and> list_all (\<lambda>f. as_str f \<noteq> None \<and> f \<noteq> JStr []) vs
          then Some (map (\<lambda>f. case f of JStr s \<Rightarrow> s | _ \<Rightarrow> []) vs) else None
      | _ \<Rightarrow> None)"

definition load_bundle ::
  "json_lib \<Rightarrow> (exn + string list) \<Rightarrow> (string \<Rightarrow> string option) \<Rightarrow> string \<Rightarrow> exn + eval_bundle" where
  "load_bundle J registry files eval_id =
     (if \<not> eval_id_ok eval_id then Inl eval_bundle_error
      else if \<not> list_all (\<lambda>n. files n \<noteq> None) bundle_files then Inl eval_bundle_error
      else
        (case parse_spec_text (file_text files ''spec.md'') of
           Inl _ \<Rightarrow> Inl eval_bundle_error
         | Inr spec \<Rightarrow>
             if is_draft spec \<or> report_only spec \<or> ''rw1'' \<notin> set (spec_roles spec) then Inl eval_bundle_error
             else if strip (file_text files ''seed.patch'') = [] then Inl eval_bundle_error
             else
               (case loads J (file_text files ''expected.json'') of
                  Some (JObj e) \<Rightarrow>
                    (case dget e ''class'' of
                       JStr c \<Rightarrow>
                         if c = [] then Inl eval_bundle_error
                         else
                           bindR registry (\<lambda>slugs.
                             if c \<notin> set slugs then Inl eval_bundle_error
                             else
                               (case expected_files (dget e ''files'') of
                                  None \<Rightarrow> Inl eval_bundle_error
                                | Some fs \<Rightarrow>
                                    Inr \<lparr>eb_id = eval_id, eb_spec = spec, eb_spec_text = file_text files ''spec.md'',
                                         eb_seed = file_text files ''seed.patch'', eb_class = c, eb_files = fs,
                                         eb_note = (case dget e ''note'' of JStr n \<Rightarrow> n | _ \<Rightarrow> [])\<rparr>))
                     | _ \<Rightarrow> Inl eval_bundle_error)
                | _ \<Rightarrow> Inl eval_bundle_error)))"

section \<open>The outcome\<close>

record eval_outcome =
  eo_id :: string
  eo_class :: string
  eo_result :: string
  eo_caught :: "string list"
  eo_terminal :: string
  eo_decision :: json
  eo_notes :: "string list"

definition verdict_findings :: "json \<Rightarrow> entry list" where
  "verdict_findings v =
     (case v of
        JObj e \<Rightarrow>
          (case dget e ''findings'' of
             JArr fs \<Rightarrow>
               concat (map (\<lambda>f. case f of JObj b \<Rightarrow> if dget b ''severity'' = JStr ''blocker'' then [b] else [] | _ \<Rightarrow> []) fs)
           | _ \<Rightarrow> [])
      | _ \<Rightarrow> [])"

definition on_target :: "string list \<Rightarrow> entry \<Rightarrow> bool" where
  "on_target expected b = (dget b ''file'' \<in> JStr ` set expected)"

definition saw :: "string \<Rightarrow> string \<Rightarrow> entry list \<Rightarrow> bool" where
  "saw action outcome entries = list_ex (\<lambda>e. has_action action e \<and> has_outcome outcome e) entries"

definition judging_gates :: "string list" where
  "judging_gates = [''rw1'', ''rw2'', ''senior'']"

definition off_target_note :: "string \<Rightarrow> entry \<Rightarrow> string" where
  "off_target_note gate b =
     gate @ '' blocker outside seeded surface: '' @ py_str (dget b ''file'') @ '': '' @ py_str (dget b ''summary'')"

definition fold_outcome ::
  "string \<Rightarrow> string \<Rightarrow> string list \<Rightarrow> entry list \<Rightarrow> (string \<Rightarrow> json) \<Rightarrow> string \<Rightarrow> json \<Rightarrow> exn + eval_outcome" where
  "fold_outcome eval_id class_slug expected entries verdicts terminal decision =
     (let blockers = (\<lambda>g. verdict_findings (verdicts g)) in
      if \<not> list_all (\<lambda>g. list_all (\<lambda>b. hashable (dget b ''file'')) (blockers g)) judging_gates then Inl TypeError
      else
        (let caught = (if saw ''fast_tests'' ''fail'' entries then [''fast_tests''] else [])
               @ (if saw ''authoritative'' ''fail'' entries then [''authoritative''] else [])
               @ filter (\<lambda>g. list_ex (on_target expected) (blockers g)) judging_gates;
             off = concat (map (\<lambda>g. map (off_target_note g) (filter (\<lambda>b. \<not> on_target expected b) (blockers g))) judging_gates);
             passed = prefix ''MERGE_DECIDED'' terminal \<and> saw ''rw1'' ''approved'' entries
               \<and> (saw ''rw2'' ''go'' entries \<or> \<not> list_ex (has_action ''rw2'') entries);
             result = (if caught \<noteq> [] then ''caught'' else if off \<noteq> [] then ''inconclusive''
                       else if passed then ''missed'' else ''inconclusive'');
             unclean = (if caught = [] \<and> off = [] \<and> \<not> passed
                then [''chain ended at '' @ terminal
                      @ '' without a clean pass-through - inspect the sandbox artifacts (re-run with --keep)''] else [])
         in Inr \<lparr>eo_id = eval_id, eo_class = class_slug, eo_result = result, eo_caught = caught, eo_terminal = terminal,
                 eo_decision = decision, eo_notes = off @ unclean\<rparr>))"

section \<open>The sandboxed run\<close>

definition never_runner :: "'e agent" where
  "never_runner = \<lparr>ag_name = ''never'', ag_run = (\<lambda>_ _. throwP (RuntimeError
     ''seeded eval: the developer role must never run - the seed is the developer output''))\<rparr>"

definition eval_roles :: "eval_bundle \<Rightarrow> string list" where
  "eval_roles b = filter (\<lambda>r. r \<notin> {''explorer'', ''debugger''}) (spec_roles (eb_spec b))"

text \<open>The loop of an evaluation has no setup commands: none are passed.\<close>

definition eval_config :: "eval_bundle \<Rightarrow> string \<Rightarrow> config" where
  "eval_config b fast =
     \<lparr>cf_task = eb_id b, cf_max_loops = 1, cf_fast_commands = fast, cf_setup_commands = [],
      cf_composition = Some (eval_roles b), cf_policy_enabled = True, cf_quota = None\<rparr>"

definition eval_collab :: "eval_bundle \<Rightarrow> 'e collab \<Rightarrow> 'e collab" where
  "eval_collab b c =
     c\<lparr>c_dev := never_runner, c_topic := False,
       c_rw2 := (if ''rw2'' \<in> set (eval_roles b) then c_rw2 c else None),
       c_senior := (if ''rw2'' \<in> set (eval_roles b) then c_senior c else None)\<rparr>"

definition seed_entry :: entry where
  "seed_entry = [(''action'', JStr ''developer''), (''outcome'', JStr ''ok''), (''round'', JInt 1),
                 (''role'', JStr ''developer''), (''detail'', JStr ''implemented per spec'')]"

text \<open>\<open>apply\<close> is \<open>git apply\<close> of the seed in the worktree, with its exit code.\<close>

definition plant_seed :: "'e collab \<Rightarrow> (string \<Rightarrow> ('e, int) prog) \<Rightarrow> eval_bundle \<Rightarrow> ('e world, unit) prog" where
  "plant_seed c apply b =
     thenP (envP (c_worktree c))
    (thenP (envP (c_write_wt c (''.laddy/specs/'' @ eb_id b @ ''.md'') (eb_spec_text b)))
    (bindP (envP (apply (eb_seed b))) (\<lambda>code.
       if code \<noteq> 0 then throwP eval_bundle_error
       else
         thenP (write_text c ''spec.md'' (eb_spec_text b))
        (thenP (append_log c seed_entry)
           (commit_all c (''Round 1: developer changes for '' @ eb_id b))))))"

definition gate_verdicts :: "'e collab \<Rightarrow> ('e world, string \<Rightarrow> json) prog" where
  "gate_verdicts c =
     bindP (read_json c rw1_verdict_file) (\<lambda>v1.
     bindP (read_json c rw2_verdict_file) (\<lambda>v2.
     bindP (read_json c senior_verdict_file) (\<lambda>v3.
       retP (\<lambda>g. if g = ''rw1'' then v1 else if g = ''rw2'' then v2 else v3))))"

definition collect_outcome :: "'e collab \<Rightarrow> eval_bundle \<Rightarrow> string \<Rightarrow> ('e world, eval_outcome) prog" where
  "collect_outcome c b terminal =
     bindP (read_log c) (\<lambda>entries.
     bindP (gate_verdicts c) (\<lambda>verdicts.
     bindP (read_json c merge_decision_file) (\<lambda>d.
       liftP (fold_outcome (eb_id b) (eb_class b) (eb_files b) entries verdicts terminal
                (case d of JObj e \<Rightarrow> dget e ''decision'' | _ \<Rightarrow> JNull)))))"

record 'e sandbox =
  sb_make :: "('e, unit) prog"
  sb_apply :: "string \<Rightarrow> ('e, int) prog"
  sb_clean :: "('e, unit) prog"

definition eval_body ::
  "'e collab \<Rightarrow> 'e sandbox \<Rightarrow> string \<Rightarrow> nat \<Rightarrow> eval_bundle \<Rightarrow> 'e world \<Rightarrow> ((exn + eval_outcome) \<times> 'e world) option" where
  "eval_body c sb fast fuel b w =
     (case plant_seed c (sb_apply sb) b w of
        (Inl e, t) \<Rightarrow> Some (Inl e, t)
      | (Inr _, t) \<Rightarrow>
          (case Loop_Run.run (eval_config b fast) (eval_collab b c) fuel t of
             None \<Rightarrow> None
           | Some (Inl e, u) \<Rightarrow> Some (Inl e, u)
           | Some (Inr terminal, u) \<Rightarrow> Some (collect_outcome c b terminal u)))"

definition run_eval ::
  "json_lib \<Rightarrow> (exn + string list) \<Rightarrow> (string \<Rightarrow> string option) \<Rightarrow> 'e collab \<Rightarrow> 'e sandbox \<Rightarrow> string \<Rightarrow>
   bool \<Rightarrow> string \<Rightarrow> nat \<Rightarrow> 'e world \<Rightarrow> ((exn + eval_outcome) \<times> 'e world) option" where
  "run_eval J registry files c sb fast keep eval_id fuel w =
     (case load_bundle J registry files eval_id of
        Inl e \<Rightarrow> Some (Inl e, w)
      | Inr b \<Rightarrow>
          (case envP (sb_make sb) w of
             (Inl e, t) \<Rightarrow> Some (Inl e, t)
           | (Inr _, t) \<Rightarrow>
               map_option (\<lambda>res. finallyP (\<lambda>_. res) (if keep then retP () else envP (sb_clean sb)) t)
                 (eval_body c sb fast fuel b t)))"

text \<open>The reviewers an evaluation is given.\<close>

definition eval_runner :: "orch_config \<Rightarrow> string \<Rightarrow> runner_cmd" where
  "eval_runner oc rl =
     (if rl = ''rw2'' then CodexCmd (list_or (oc_codex_cmd oc) default_codex_cmd)
      else if rl = ''senior'' then ClaudeCmd (list_or (oc_senior_cmd oc) default_senior_cmd)
      else ClaudeCmd (list_or (oc_claude_cmd oc) default_claude_cmd))"

text \<open>The command: its exit code, and the run log of the real repository.\<close>

definition cmd_eval_run ::
  "json \<Rightarrow> string option \<Rightarrow> bool \<Rightarrow> ((exn + eval_outcome) \<times> 'e world) option \<Rightarrow> log_state \<Rightarrow> (exn + int \<times> log_state) option" where
  "cmd_eval_run now fix_ref record res l =
     map_option (\<lambda>(r, _).
       case r of
         Inl e \<Rightarrow> Inl (if e = eval_bundle_error then system_exit else e)
       | Inr o1 \<Rightarrow>
           bindR (if record
                  then append_eval now (eo_id o1) (eo_class o1) (eo_result o1) (eo_caught o1) (eo_terminal o1) (eo_decision o1)
                         fix_ref l
                  else Inr l) (\<lambda>l'. Inr (if eo_result o1 = ''caught'' then 0 else 1, l'))) res"

section \<open>What the outcome depends on\<close>

definition seeded_blocker :: "string list \<Rightarrow> (string \<Rightarrow> json) \<Rightarrow> bool" where
  "seeded_blocker expected verdicts =
     list_ex (\<lambda>g. list_ex (on_target expected) (verdict_findings (verdicts g))) judging_gates"

definition other_blocker :: "string list \<Rightarrow> (string \<Rightarrow> json) \<Rightarrow> bool" where
  "other_blocker expected verdicts =
     list_ex (\<lambda>g. list_ex (\<lambda>b. \<not> on_target expected b) (verdict_findings (verdicts g))) judging_gates"

text \<open>
  The outcome of an evaluation is mechanical. It is caught exactly when a test gate went red or a reviewer
  has a blocker in a seeded file; missed exactly when nothing caught it, no reviewer has any blocker, the
  first reviewer approved, the second did where it ran, and the chain reached a merge decision; and
  inconclusive otherwise. The merge decision itself has no influence.
\<close>

theorem outcome_is_mechanical:
  assumes "fold_outcome i c expected entries verdicts terminal d = Inr r"
  shows "(eo_result r = ''caught'' \<longleftrightarrow> saw ''fast_tests'' ''fail'' entries \<or> saw ''authoritative'' ''fail'' entries
            \<or> seeded_blocker expected verdicts)
     \<and> (eo_result r = ''missed'' \<longleftrightarrow> \<not> saw ''fast_tests'' ''fail'' entries \<and> \<not> saw ''authoritative'' ''fail'' entries
            \<and> \<not> seeded_blocker expected verdicts \<and> \<not> other_blocker expected verdicts
            \<and> prefix ''MERGE_DECIDED'' terminal \<and> saw ''rw1'' ''approved'' entries
            \<and> (saw ''rw2'' ''go'' entries \<or> \<not> list_ex (has_action ''rw2'') entries))
     \<and> eo_result r \<in> set eval_results
     \<and> fold_outcome i c expected entries verdicts terminal d' = Inr (r\<lparr>eo_decision := d'\<rparr>)"
proof -
  define blockers where "blockers = (\<lambda>g. verdict_findings (verdicts g))"
  have hash: "list_all (\<lambda>g. list_all (\<lambda>b. hashable (dget b ''file'')) (blockers g)) judging_gates"
    using assms unfolding fold_outcome_def Let_def blockers_def by (simp split: if_splits)
  define caught where "caught = (if saw ''fast_tests'' ''fail'' entries then [''fast_tests''] else [])
               @ (if saw ''authoritative'' ''fail'' entries then [''authoritative''] else [])
               @ filter (\<lambda>g. list_ex (on_target expected) (blockers g)) judging_gates"
  define off where "off = concat (map (\<lambda>g. map (off_target_note g) (filter (\<lambda>b. \<not> on_target expected b) (blockers g))) judging_gates)"
  define passed where "passed = (prefix ''MERGE_DECIDED'' terminal \<and> saw ''rw1'' ''approved'' entries
               \<and> (saw ''rw2'' ''go'' entries \<or> \<not> list_ex (has_action ''rw2'') entries))"
  have fold: "fold_outcome i c expected entries verdicts terminal d0 = Inr \<lparr>eo_id = i, eo_class = c,
      eo_result = (if caught \<noteq> [] then ''caught'' else if off \<noteq> [] then ''inconclusive'' else if passed then ''missed'' else ''inconclusive''),
      eo_caught = caught, eo_terminal = terminal, eo_decision = d0,
      eo_notes = off @ (if caught = [] \<and> off = [] \<and> \<not> passed
                then [''chain ended at '' @ terminal
                      @ '' without a clean pass-through - inspect the sandbox artifacts (re-run with --keep)''] else [])\<rparr>" for d0
    using hash unfolding fold_outcome_def Let_def blockers_def[symmetric] caught_def[symmetric] off_def[symmetric] passed_def[symmetric]
    by (simp only: if_True not_True_eq_False if_False)
  have caught: "caught \<noteq> [] \<longleftrightarrow> saw ''fast_tests'' ''fail'' entries \<or> saw ''authoritative'' ''fail'' entries
      \<or> seeded_blocker expected verdicts"
    by (auto simp: caught_def seeded_blocker_def blockers_def filter_empty_conv list_ex_iff)
  have off: "off \<noteq> [] \<longleftrightarrow> other_blocker expected verdicts"
    by (auto simp: off_def other_blocker_def blockers_def filter_empty_conv list_ex_iff)
  have result: "eo_result r = (if caught \<noteq> [] then ''caught'' else if off \<noteq> [] then ''inconclusive''
      else if passed then ''missed'' else ''inconclusive'')" "r = r\<lparr>eo_decision := d\<rparr>"
    using assms unfolding fold by auto
  have "fold_outcome i c expected entries verdicts terminal d' = Inr (r\<lparr>eo_decision := d'\<rparr>)"
    using assms unfolding fold by auto
  then show ?thesis
    unfolding result(1) using caught off by (auto simp: eval_results_def passed_def)
qed

section \<open>The developer never runs\<close>

text \<open>Every part of the loop but the developer and the explorer is the same for any developer.\<close>

named_theorems dev_free

lemma select_dev [dev_free]:
  "c_fault (c\<lparr>c_dev := d\<rparr>) = c_fault c" "c_now (c\<lparr>c_dev := d\<rparr>) = c_now c" "c_worktree (c\<lparr>c_dev := d\<rparr>) = c_worktree c"
  "c_commit (c\<lparr>c_dev := d\<rparr>) = c_commit c" "c_push (c\<lparr>c_dev := d\<rparr>) = c_push c" "c_code_sha (c\<lparr>c_dev := d\<rparr>) = c_code_sha c"
  "c_changed (c\<lparr>c_dev := d\<rparr>) = c_changed c" "c_statuses (c\<lparr>c_dev := d\<rparr>) = c_statuses c" "c_diff_lines (c\<lparr>c_dev := d\<rparr>) = c_diff_lines c"
  "c_diff_text (c\<lparr>c_dev := d\<rparr>) = c_diff_text c" "c_policy (c\<lparr>c_dev := d\<rparr>) = c_policy c" "c_read_wt (c\<lparr>c_dev := d\<rparr>) = c_read_wt c"
  "c_write_wt (c\<lparr>c_dev := d\<rparr>) = c_write_wt c" "c_role_file (c\<lparr>c_dev := d\<rparr>) = c_role_file c" "c_shell (c\<lparr>c_dev := d\<rparr>) = c_shell c"
  "c_docker (c\<lparr>c_dev := d\<rparr>) = c_docker c" "c_setup_done (c\<lparr>c_dev := d\<rparr>) = c_setup_done c" "c_mark_setup (c\<lparr>c_dev := d\<rparr>) = c_mark_setup c"
  "c_rw1 (c\<lparr>c_dev := d\<rparr>) = c_rw1 c" "c_rw2 (c\<lparr>c_dev := d\<rparr>) = c_rw2 c" "c_senior (c\<lparr>c_dev := d\<rparr>) = c_senior c"
  "c_clock (c\<lparr>c_dev := d\<rparr>) = c_clock c" "c_sleep (c\<lparr>c_dev := d\<rparr>) = c_sleep c" "c_topic (c\<lparr>c_dev := d\<rparr>) = c_topic c"
  "c_post (c\<lparr>c_dev := d\<rparr>) = c_post c" "c_base_branch (c\<lparr>c_dev := d\<rparr>) = c_base_branch c" "c_sha256 (c\<lparr>c_dev := d\<rparr>) = c_sha256 c"
  "c_json (c\<lparr>c_dev := d\<rparr>) = c_json c" "c_time_text (c\<lparr>c_dev := d\<rparr>) = c_time_text c" "c_traceback (c\<lparr>c_dev := d\<rparr>) = c_traceback c"
  "c_summary (c\<lparr>c_dev := d\<rparr>) = c_summary c" "c_handback (c\<lparr>c_dev := d\<rparr>) = c_handback c"
  by simp_all

lemma io_dev [dev_free]: "ioP (c\<lparr>c_dev := d\<rparr>) op m = ioP c op m"
  by (simp add: ioP_def fun_eq_iff)

lemma store_dev [dev_free]:
  "append_log (c\<lparr>c_dev := d\<rparr>) = append_log c" "read_log (c\<lparr>c_dev := d\<rparr>) = read_log c"
  "write_text (c\<lparr>c_dev := d\<rparr>) = write_text c" "read_text (c\<lparr>c_dev := d\<rparr>) = read_text c"
  by (simp_all add: fun_eq_iff append_log_def read_log_def write_text_def read_text_def dev_free)

lemma json_dev [dev_free]:
  "write_json (c\<lparr>c_dev := d\<rparr>) = write_json c" "read_json (c\<lparr>c_dev := d\<rparr>) = read_json c"
  "commit_all (c\<lparr>c_dev := d\<rparr>) = commit_all c" "push (c\<lparr>c_dev := d\<rparr>) = push c" "notify cf (c\<lparr>c_dev := d\<rparr>) = notify cf c"
  by (simp_all add: fun_eq_iff write_json_def read_json_def commit_all_def push_def notify_def dev_free cong: option.case_cong)

lemma quota_dev [dev_free]:
  "on_wait cf (c\<lparr>c_dev := d\<rparr>) = on_wait cf c" "on_resume (c\<lparr>c_dev := d\<rparr>) = on_resume c"
  "hooks_of cf (c\<lparr>c_dev := d\<rparr>) = hooks_of cf c" "runner_of cf (c\<lparr>c_dev := d\<rparr>) = runner_of cf c"
proof -
  show wait: "on_wait cf (c\<lparr>c_dev := d\<rparr>) = on_wait cf c" "on_resume (c\<lparr>c_dev := d\<rparr>) = on_resume c"
    by (simp_all add: fun_eq_iff on_wait_def on_resume_def dev_free cong: option.case_cong)
  then show hooks: "hooks_of cf (c\<lparr>c_dev := d\<rparr>) = hooks_of cf c"
    by (simp add: fun_eq_iff hooks_of_def)
  show "runner_of cf (c\<lparr>c_dev := d\<rparr>) = runner_of cf c"
    by (simp add: fun_eq_iff runner_of_def hooks cong: option.case_cong)
qed

lemmas dev_cong = option.case_cong sum.case_cong prod.case_cong

lemma review_dev [dev_free]:
  "role (c\<lparr>c_dev := d\<rparr>) = role c" "ensure_setup cf (c\<lparr>c_dev := d\<rparr>) = ensure_setup cf c"
  "fast_entry (c\<lparr>c_dev := d\<rparr>) = fast_entry c"
  by (simp_all only: simp_thms fun_eq_iff role_def ensure_setup_def fast_entry_def dev_free cong: dev_cong)

lemma gates_dev [dev_free]:
  "run_fast_tests cf (c\<lparr>c_dev := d\<rparr>) = run_fast_tests cf c" "run_rw1 cf (c\<lparr>c_dev := d\<rparr>) = run_rw1 cf c"
  "run_rw2 cf (c\<lparr>c_dev := d\<rparr>) = run_rw2 cf c"
  "run_authoritative cf (c\<lparr>c_dev := d\<rparr>) = run_authoritative cf c" "run_senior cf (c\<lparr>c_dev := d\<rparr>) = run_senior cf c"
  by (simp_all only: simp_thms fun_eq_iff run_fast_tests_def run_rw1_def run_rw2_def run_authoritative_def run_senior_def dev_free
      cong: dev_cong)

lemma tail_dev [dev_free]:
  "declared_risk (c\<lparr>c_dev := d\<rparr>) = declared_risk c" "decide_merge cf (c\<lparr>c_dev := d\<rparr>) = decide_merge cf c"
  "write_summary (c\<lparr>c_dev := d\<rparr>) = write_summary c" "write_handback (c\<lparr>c_dev := d\<rparr>) = write_handback c"
  "finalize cf (c\<lparr>c_dev := d\<rparr>) = finalize cf c" "internal_error cf (c\<lparr>c_dev := d\<rparr>) = internal_error cf c"
  "push_phase cf (c\<lparr>c_dev := d\<rparr>) = push_phase cf c" "done_phase cf (c\<lparr>c_dev := d\<rparr>) = done_phase cf c"
  "override_phase (c\<lparr>c_dev := d\<rparr>) = override_phase c"
  by (simp_all only: simp_thms fun_eq_iff declared_risk_def decide_merge_def write_summary_def write_handback_def finalize_def
      internal_error_def push_phase_def done_phase_def override_phase_def dev_free cong: dev_cong)

lemma phase_dev: "phase \<noteq> ''developer'' \<Longrightarrow> run_phase cf (c\<lparr>c_dev := d\<rparr>) phase rp = run_phase cf c phase rp"
  by (simp only: run_phase_def dev_free if_False)

text \<open>A log in which the one round of the seed is used up and nobody has resumed the task.\<close>

definition seeded_log :: "entry list \<Rightarrow> bool" where
  "seeded_log L = (rounds_used L \<ge> 1 \<and> dev_rounds_since_resume L = None)"

lemma seeded_skel: "seeded_log (skel L) = seeded_log L"
  by (simp add: seeded_log_def rounds_skel since_skel)

lemma seeded_choice:
  assumes "seeded_log L" "derive_resume_point L 1 r2 au = Inr rp"
  shows "resume_developer_point L rp = None" "rp_phase rp \<noteq> ''developer''"
  using assms derive_developer[OF assms(2)] by (auto simp: seeded_log_def resume_developer_point_def)

lemma seeded_turn:
  assumes "seeded_log (w_log w)" "cf_max_loops cf = 1"
  shows "loop_turn cf (c\<lparr>c_dev := d\<rparr>) w = loop_turn cf c w"
proof -
  obtain x u where x: "read_log c w = (x, u)"
    by (cases "read_log c w")
  show ?thesis
  proof (cases x)
    case (Inl e)
    then show ?thesis
      using x by (simp only: loop_turn_def bindP_def dev_free prod.case sum.case)
  next
    case (Inr es)
    then have es: "seeded_log es"
      using read_log_result[OF x] assms(1) by simp
    show ?thesis
    proof (cases "derive_resume_point es 1 (c_rw2 c \<noteq> None) (c_docker c \<noteq> None)")
      case (Inl e)
      then show ?thesis
        using x Inr by (simp only: loop_turn_def bindP_def dev_free prod.case sum.case liftP_def assms(2))
    next
      case (Inr rp)
      note choice = seeded_choice[OF es Inr]
      obtain y v where y: "override_phase c (rp_phase rp) u = (y, v)"
        by (cases "override_phase c (rp_phase rp) u")
      have "y = Inr phase \<Longrightarrow> phase \<noteq> ''developer''" for phase
        using override_choice[of c "rp_phase rp" u phase v] y choice(2) by auto
      then have "bindP (override_phase c (rp_phase rp)) (\<lambda>phase. run_phase cf (c\<lparr>c_dev := d\<rparr>) phase rp) u
          = bindP (override_phase c (rp_phase rp)) (\<lambda>phase. run_phase cf c phase rp) u"
        using y by (auto simp: bindP_def phase_dev split: sum.split)
      then show ?thesis
        using x \<open>x = Inr es\<close> Inr choice(1)
        by (simp only: loop_turn_def bindP_def dev_free prod.case sum.case liftP_def assms(2) option.case)
    qed
  qed
qed

lemma seeded_next:
  assumes "seeded_log (w_log w)" "loop_turn cf c w = (Inr None, t)"
  shows "seeded_log (w_log t)"
  using assms(2)
proof (cases rule: loop_turn_cases)
  case (ran rp phase)
  then have phase: "phase \<in> set working_phases" "one w [] phase t"
    by (auto simp: turn_result_def split: if_splits)
  obtain e where e: "skel (w_log t) = skel (w_log w) @ [e]" "has_action phase e"
    using one_skel[OF phase(2)] by blast
  have "phase \<noteq> ''director_resume''"
    using phase(1) by (auto simp: working_phases_def)
  then have "seeded_log (skel (w_log w) @ [e])"
    using assms(1) e(2) seeded_skel[of "w_log w"]
    by (auto simp: seeded_log_def rounds_snoc since_snoc action_other)
  then show ?thesis
    using seeded_skel[of "w_log t"] e(1) by simp
qed simp

lemma seeded_loop:
  assumes "seeded_log (w_log w)" "cf_max_loops cf = 1"
  shows "main_loop cf (c\<lparr>c_dev := d\<rparr>) fuel w = main_loop cf c fuel w"
  using assms(1)
proof (induction fuel arbitrary: w)
  case (Suc fuel)
  obtain r t where r: "loop_turn cf c w = (r, t)"
    by (cases "loop_turn cf c w")
  have "r = Inr None \<Longrightarrow> main_loop cf (c\<lparr>c_dev := d\<rparr>) fuel t = main_loop cf c fuel t"
    using Suc.IH seeded_next[OF Suc.prems] r by blast
  then show ?case
    using r seeded_turn[OF Suc.prems assms(2)] by (auto split: sum.split option.split)
qed simp

lemma seeded_run:
  assumes "cf_max_loops cf = 1" "\<not> has_role cf ''investigator''" "\<not> has_role cf ''explorer''"
    and "\<And>es t. thenP (envP (c_worktree c)) (read_log c) w = (Inr es, t) \<Longrightarrow> seeded_log (w_log t)"
  shows "Loop_Run.run cf (c\<lparr>c_dev := d\<rparr>) fuel w = Loop_Run.run cf c fuel w"
proof (cases "thenP (envP (c_worktree c)) (read_log c) w")
  case (Pair x t)
  show ?thesis
  proof (cases x)
    case (Inr es)
    have "w_log (snd (bind_quota cf t)) = w_log t"
      by (simp add: bind_quota_def modifyP_def)
    then have "seeded_log (w_log (snd (bind_quota cf t)))"
      using assms(4) Pair Inr by simp
    then have "run_phases cf (c\<lparr>c_dev := d\<rparr>) fuel (snd (bind_quota cf t)) = run_phases cf c fuel (snd (bind_quota cf t))"
      using seeded_loop[OF _ assms(1)] assms(2,3) by (simp add: run_phases_def retP_def)
    then show ?thesis
      unfolding Loop_Run.run_def dev_free Pair by (simp only: Inr sum.case prod.case)
  qed (simp add: Loop_Run.run_def dev_free Pair)
qed

lemma log_steps:
  "envP m w = (r, t) \<Longrightarrow> w_log t = w_log w"
  "write_text c name txt w = (r1, t) \<Longrightarrow> w_log t = w_log w"
  "commit_all c msg w = (r2, t) \<Longrightarrow> w_log t = w_log w"
  "append_log c e w = (Inr x, t) \<Longrightarrow> \<exists>ts. w_log t = w_log w @ [(''ts'', ts) # e]"
  by (auto simp: envP_def write_text_def ioP_def append_log_def commit_all_def logged_def thenP_def bindP_def modifyP_def Let_def
      split: prod.splits option.splits)

lemma plant_log:
  assumes "plant_seed c ap b w = (Inr x, t)"
  shows "\<exists>ts. w_log t = w_log w @ [(''ts'', ts) # seed_entry]"
proof -
  obtain a1 t1 a2 t2 code t3 a4 t4 a5 t5 where s1: "envP (c_worktree c) w = (Inr a1, t1)"
    and s2: "envP (c_write_wt c (''.laddy/specs/'' @ eb_id b @ ''.md'') (eb_spec_text b)) t1 = (Inr a2, t2)"
    and s3: "envP (ap (eb_seed b)) t2 = (Inr code, t3)"
    and s4: "write_text c ''spec.md'' (eb_spec_text b) t3 = (Inr a4, t4)"
    and seed: "append_log c seed_entry t4 = (Inr a5, t5)"
    and s5: "commit_all c (''Round 1: developer changes for '' @ eb_id b) t5 = (Inr x, t)"
    using assms unfolding plant_seed_def thenP_def bindP_Inr_iff by (auto simp: bindP_Inr_iff throwP_def split: if_splits)
  show ?thesis
    using log_steps(1)[OF s1] log_steps(1)[OF s2] log_steps(1)[OF s3] log_steps(2)[OF s4] log_steps(3)[OF s5]
      log_steps(4)[OF seed] by simp
qed

lemma planted_is_seeded: "seeded_log [(''ts'', ts) # seed_entry]"
  by (simp add: seeded_log_def rounds_used_def dev_rounds_since_resume_def seed_entry_def has_action_def dget_def)

lemma start_log: "thenP (envP (c_worktree c)) (read_log c) w = (x, t) \<Longrightarrow> w_log t = w_log w"
  by (auto simp: thenP_def bindP_def envP_def read_log_def ioP_def getP_def split: prod.splits option.splits sum.splits)

text \<open>
  The gates judge the seed exactly as it was planted: after the planting into a fresh sandbox, the whole
  run of the loop is the same whatever agent stands in for the developer, so the developer is never asked
  and can never repair the seed before a reviewer sees it. With the fuel of one round the run always ends.
\<close>

theorem seed_is_judged_as_planted:
  assumes "plant_seed c ap b w = (Inr x, t)" "w_log w = []" "''investigator'' \<notin> set (spec_roles (eb_spec b))"
  shows "Loop_Run.run (eval_config b fast) ((eval_collab b c)\<lparr>c_dev := d\<rparr>) (loop_fuel 1) t
       = Loop_Run.run (eval_config b fast) (eval_collab b c) (loop_fuel 1) t
     \<and> Loop_Run.run (eval_config b fast) (eval_collab b c) (loop_fuel 1) t \<noteq> None"
proof
  have log: "seeded_log (w_log t)"
    using plant_log[OF assms(1)] assms(2) planted_is_seeded by auto
  show "Loop_Run.run (eval_config b fast) ((eval_collab b c)\<lparr>c_dev := d\<rparr>) (loop_fuel 1) t
      = Loop_Run.run (eval_config b fast) (eval_collab b c) (loop_fuel 1) t"
  proof (rule seeded_run)
    show "cf_max_loops (eval_config b fast) = 1" "\<not> has_role (eval_config b fast) ''investigator''"
      "\<not> has_role (eval_config b fast) ''explorer''"
      using assms(3) by (simp_all add: eval_config_def has_role_def eval_roles_def)
  next
    fix es u
    assume "thenP (envP (c_worktree (eval_collab b c))) (read_log (eval_collab b c)) t = (Inr es, u)"
    then show "seeded_log (w_log u)"
      using start_log log by metis
  qed
  show "Loop_Run.run (eval_config b fast) (eval_collab b c) (loop_fuel 1) t \<noteq> None"
    using every_run_ends[of "eval_config b fast" "loop_fuel 1" "eval_collab b c" t] by (simp add: eval_config_def)
qed

text \<open>
  Every evaluation ends, with an outcome or an exception, whatever the bundle, the reviewers, the gates and
  the sandbox do.
\<close>

theorem every_eval_ends: "run_eval J registry files c sb fast keep eval_id (loop_fuel 1) w \<noteq> None"
proof -
  have "Loop_Run.run (eval_config b fast) (eval_collab b c) (loop_fuel 1) t \<noteq> None" for b t
    using every_run_ends[of "eval_config b fast" "loop_fuel 1" "eval_collab b c" t] by (simp add: eval_config_def)
  note ends = this
  have "eval_body c sb fast (loop_fuel 1) b t \<noteq> None" for b t
    by (simp add: eval_body_def ends split: prod.split sum.split option.split)
  then show ?thesis
    unfolding run_eval_def by (simp add: map_option_is_None del: not_None_eq split: prod.split sum.split)
qed

text \<open>
  A bundle that loads can be measured: its spec is no draft and has reviewed code, its first reviewer runs,
  its seed is not empty, its class is registered, and there is at least one seeded file to anchor blockers to.
\<close>

theorem loaded_bundle_is_measurable:
  assumes "load_bundle J registry files eval_id = Inr b"
  shows "eb_id b = eval_id \<and> \<not> is_draft (eb_spec b) \<and> \<not> report_only (eb_spec b) \<and> ''rw1'' \<in> set (eval_roles b)
     \<and> strip (eb_seed b) \<noteq> [] \<and> (\<exists>slugs. registry = Inr slugs \<and> eb_class b \<in> set slugs) \<and> eb_class b \<noteq> []
     \<and> eb_files b \<noteq> [] \<and> [] \<notin> set (eb_files b)"
proof -
  have files: "fs \<noteq> [] \<and> [] \<notin> set fs" if "expected_files v = Some fs" for v fs
  proof (cases v)
    case (JArr vs)
    then have vs: "vs \<noteq> []" "\<forall>f\<in>set vs. \<exists>y. f = JStr y \<and> y \<noteq> []" "fs = map (\<lambda>f. case f of JStr s \<Rightarrow> s | _ \<Rightarrow> []) vs"
      using that by (auto simp: expected_files_def list_all_iff split: if_splits)
    then show ?thesis
      by force
  qed (use that in \<open>simp_all add: expected_files_def\<close>)
  from assms show ?thesis
    using files unfolding load_bundle_def
    by (auto simp: bindR_Inr_iff eval_roles_def split: if_splits sum.splits option.splits json.splits)
qed

section \<open>Where an evaluation measures something else\<close>

text \<open>
  Without bindings of roles, the loop runs the second reviewer with the command of Claude; an evaluation runs
  it with Codex.
\<close>

lemma eval_runs_another_second_reviewer:
  assumes "from_env home env = Inr oc" "list_all (\<lambda>kv. role_key (fst kv) = None \<or> strip (snd kv) = []) env"
  shows "eval_runner oc ''rw2'' \<noteq> resolve_runner oc ''rw2''"
  using unbound_roles_run_legacy_command[OF assms, of "''rw2''"] by (simp add: eval_runner_def)

text \<open>An identifier that ends in a line feed passes the check for a lowercase slug.\<close>

lemma newline_slips_through: "eval_id_ok (''a'' @ [CHR 0x0A])"
  by code_simp

section \<open>Witnesses\<close>

definition demo_blocked :: "string \<Rightarrow> json" where
  "demo_blocked g = (if g = ''rw1'' then JObj [(''findings'', JArr [JObj [(''severity'', JStr ''blocker''), (''file'', JStr ''src/a.py'')]])]
     else JNull)"

definition demo_fold :: "exn + eval_outcome" where
  "demo_fold = fold_outcome ''e1'' ''edge-case'' [''src/a.py''] [log_entry ''rw1'' ''changes_requested''] demo_blocked ''CAP_REACHED'' JNull"

lemma demo_fold_ok: "is_ok demo_fold"
  by code_simp

theorem outcome_is_mechanical_witness: "\<exists>r. demo_fold = Inr r \<and> eo_result r = ''caught''"
proof -
  obtain r where r: "demo_fold = Inr r"
    using demo_fold_ok by (auto simp: is_ok_iff)
  have "seeded_blocker [''src/a.py''] demo_blocked"
    by code_simp
  then show ?thesis
    using outcome_is_mechanical[OF r[unfolded demo_fold_def], of JNull] r by blast
qed

definition demo_bundle_files :: "string \<Rightarrow> string option" where
  "demo_bundle_files = map_of [(''spec.md'', ''# A feature''), (''seed.patch'', ''diff''), (''expected.json'', ''{e}'')]"

definition demo_expected_lib :: json_lib where
  "demo_expected_lib = \<lparr>loads = (\<lambda>_. Some (JObj [(''class'', JStr ''edge-case''), (''files'', JArr [JStr ''src/a.py''])])),
     object_span = (\<lambda>_. None), dumps = (\<lambda>_. []), dumps_raw = (\<lambda>_. [])\<rparr>"

definition demo_loaded :: "exn + eval_bundle" where
  "demo_loaded = load_bundle demo_expected_lib (Inr [''edge-case'']) demo_bundle_files ''e1''"

lemma demo_loaded_ok: "is_ok demo_loaded" "(case demo_loaded of Inr b \<Rightarrow> ''investigator'' \<notin> set (spec_roles (eb_spec b)) | Inl _ \<Rightarrow> False)"
  by code_simp+

theorem loaded_bundle_is_measurable_witness: "\<exists>b. demo_loaded = Inr b \<and> ''rw1'' \<in> set (eval_roles b) \<and> eb_files b \<noteq> []"
proof -
  obtain b where b: "demo_loaded = Inr b"
    using demo_loaded_ok(1) by (auto simp: is_ok_iff)
  then show ?thesis
    using loaded_bundle_is_measurable[OF b[unfolded demo_loaded_def]] by blast
qed

definition demo_eval_collab :: "nat collab" where
  "demo_eval_collab = idle_collab (\<lambda>_. answer_with ''ok'') (retP ()) []"

theorem seed_is_judged_as_planted_witness:
  "\<exists>b t. demo_loaded = Inr b \<and> plant_seed demo_eval_collab (\<lambda>_. retP 0) b (idle_world []) = (Inr (), t)
     \<and> Loop_Run.run (eval_config b ''true'') ((eval_collab b demo_eval_collab)\<lparr>c_dev := idle_agent (\<lambda>_. answer_with ''ok'')\<rparr>) (loop_fuel 1) t
       = Loop_Run.run (eval_config b ''true'') (eval_collab b demo_eval_collab) (loop_fuel 1) t"
proof -
  obtain b where b1: "demo_loaded = Inr b"
    using demo_loaded_ok(1) by (auto simp: is_ok_iff)
  have b2: "''investigator'' \<notin> set (spec_roles (eb_spec b))"
    using demo_loaded_ok(2) by (simp add: b1)
  obtain t where t: "plant_seed demo_eval_collab (\<lambda>_. retP 0) b (idle_world []) = (Inr (), t)"
    by (simp add: plant_seed_def demo_eval_collab_def world_eval)
  have "w_log (idle_world []) = []"
    by (simp add: idle_world_def)
  then show ?thesis
    using seed_is_judged_as_planted[OF t _ b2] b1 t by blast
qed

end
