(* ===== verification/Oracle_Input.thy ===== *)
theory Oracle_Input
  imports Oracle_Eval
begin

text \<open>
  Model of what the oracle feeds a review and an evaluation: \<open>src/orchestrator/oracle/inputs.py\<close>,
  \<open>prompt.py\<close>, the scaffold and the check of a bundle in \<open>evals.py\<close>, and the commands \<open>prepare\<close>,
  \<open>eval-new\<close>, \<open>eval-check\<close> and \<open>eval-list\<close>. The files are those of \<open>Artifact_Store\<close>: the worktree of the
  first phase is what git checked out, and cleaning it is a function of the disk. The lemmas show that the
  filler of a template never looks at what it has filled in, and that the cleaned worktree holds nothing of
  any task but the spec under review.
\<close>

section \<open>Templates\<close>

definition hole :: "string \<Rightarrow> string" where
  "hole k = ''{'' @ k @ ''}''"

text \<open>\<open>re.sub\<close> with the alternation of the holes: one pass over the template, from left to right.\<close>

definition hole_at :: "(string \<times> 'a) list \<Rightarrow> string \<Rightarrow> (string \<times> 'a) option" where
  "hole_at vals s = find (\<lambda>kv. prefix (hole (fst kv)) s) vals"

function fill :: "(string \<times> string) list \<Rightarrow> string \<Rightarrow> string" where
  "fill vals s =
     (case s of
        [] \<Rightarrow> []
      | c # r \<Rightarrow>
          (case hole_at vals s of
             Some (k, v) \<Rightarrow> v @ fill vals (drop (length (hole k)) s)
           | None \<Rightarrow> c # fill vals r))"
  by pat_completeness auto
termination
  by (relation "measure (length \<circ> snd)") (auto simp: hole_def)

declare fill.simps [simp del]

definition phase_split :: string where
  "phase_split = ''<!-- PHASE-2 -->''"

primrec split_at :: "string \<Rightarrow> string \<Rightarrow> (string \<times> string) option" where
  "split_at m [] = (if m = [] then Some ([], []) else None)"
| "split_at m (c # s) =
     (if prefix m (c # s) then Some ([], drop (length m) (c # s))
      else map_option (\<lambda>(a, b). (c # a, b)) (split_at m s))"

definition prompt_sections :: "string \<Rightarrow> exn + string \<times> string" where
  "prompt_sections template =
     (case split_at phase_split template of
        None \<Rightarrow> Inl ValueError
      | Some (p1, p2) \<Rightarrow> Inr (strip p1 @ [CHR 0x0A], strip p2 @ [CHR 0x0A]))"

definition phase1_values :: "string \<Rightarrow> string \<Rightarrow> string \<Rightarrow> string \<Rightarrow> string list \<Rightarrow> (string \<times> string) list" where
  "phase1_values task_id spec_txt diff_txt worktree slugs =
     [(''task'', task_id), (''worktree'', worktree), (''class_slugs'', join '', '' slugs), (''spec'', spec_txt),
      (''diff'', diff_txt)]"

definition build_phase1_prompt :: "string \<Rightarrow> string \<Rightarrow> string \<Rightarrow> string \<Rightarrow> string \<Rightarrow> string list \<Rightarrow> exn + string" where
  "build_phase1_prompt template task_id spec_txt diff_txt worktree slugs =
     bindR (prompt_sections template) (\<lambda>(p1, _). Inr (fill (phase1_values task_id spec_txt diff_txt worktree slugs) p1))"

definition phase2_values :: "string \<Rightarrow> string \<Rightarrow> string \<Rightarrow> string list \<Rightarrow> (string \<times> string) list" where
  "phase2_values task_id log_txt verdict_txt slugs =
     [(''task'', task_id), (''class_slugs'', join '', '' slugs), (''log'', log_txt), (''verdicts'', verdict_txt)]"

definition build_phase2_prompt :: "string \<Rightarrow> string \<Rightarrow> string \<Rightarrow> string \<Rightarrow> string list \<Rightarrow> exn + string" where
  "build_phase2_prompt template task_id log_txt verdict_txt slugs =
     bindR (prompt_sections template) (\<lambda>(_, p2). Inr (fill (phase2_values task_id log_txt verdict_txt slugs) p2))"

section \<open>The worktree of the first phase\<close>

definition path_of :: "string \<Rightarrow> path" where
  "path_of s = task_parts s"

definition bar_of :: "path \<Rightarrow> string \<Rightarrow> artifacts" where
  "bar_of wt task_id = \<lparr>ar_root = wt, ar_task = task_id\<rparr>"

definition lane_of :: "path \<Rightarrow> path" where
  "lane_of wt = wt @ [''.laddy'', ''tasks'']"

text \<open>\<open>Path.mkdir(parents=True)\<close>, \<open>shutil.rmtree\<close>, and \<open>open\<close> for writing with links followed.\<close>

definition mkdir_new :: "disk \<Rightarrow> path \<Rightarrow> errno + disk" where
  "mkdir_new d p =
     (if missing_parent (os_mkdir d p) \<and> p \<noteq> []
      then bindR (mkdirs d (butlast p)) (\<lambda>d'. os_mkdir d' p)
      else os_mkdir d p)"

definition rmtree :: "disk \<Rightarrow> path \<Rightarrow> exn + disk" where
  "rmtree d p =
     (if is_symlink d p then Inl OSError
      else bindR (os_error (entry_of d p)) (\<lambda>f.
        if d f = Some Dir then Inr (\<lambda>q. if prefix f q then None else d q) else Inl OSError))"

text \<open>A dangling link, which the code would create the target of, does not occur where the model writes.\<close>

definition open_write :: "disk \<Rightarrow> path \<Rightarrow> errno + path" where
  "open_write d p =
     (case resolve d p of
        Inr (_, q) \<Rightarrow> if is_directory d q then Inl EISDIR else Inr q
      | Inl _ \<Rightarrow> open_nofollow d p)"

definition write_file :: "disk \<Rightarrow> path \<Rightarrow> string \<Rightarrow> exn + disk" where
  "write_file d p txt' = bindR (os_error (open_write d p)) (\<lambda>f. Inr (d(f \<mapsto> Reg (utf8_encode txt'))))"

text \<open>The spec the task ran from.\<close>

definition authored_spec :: "path \<Rightarrow> string \<Rightarrow> path" where
  "authored_spec wt task_id =
     (if prefix ''/'' task_id then path_of (task_id @ ''.md'') else wt @ [''.laddy'', ''specs''] @ path_of (task_id @ ''.md''))"

definition shipped_spec :: "disk \<Rightarrow> path \<Rightarrow> string \<Rightarrow> string option" where
  "shipped_spec d wt task_id =
     (case file_at d (spec_path (bar_of wt task_id)) of
        Some b \<Rightarrow> Some b
      | None \<Rightarrow> file_at d (authored_spec wt task_id))"

definition clean_tree :: "disk \<Rightarrow> path \<Rightarrow> string \<Rightarrow> string \<Rightarrow> exn + disk" where
  "clean_tree d wt task_id spec_txt =
     bindR (if is_dir_at d (lane_of wt) then rmtree d (lane_of wt) else Inr d) (\<lambda>d1.
     bindR (os_error (mkdir_new d1 (art_dir (bar_of wt task_id)))) (\<lambda>d2.
       write_file d2 (spec_path (bar_of wt task_id)) spec_txt))"

definition phase1_worktree :: "string \<Rightarrow> string \<Rightarrow> string" where
  "phase1_worktree task_id work_root = sub_path work_root (''oracle-'' @ task_id)"

text \<open>\<open>checkout\<close> is the disk after git has checked out the merge commit.\<close>

definition materialize_phase1 ::
  "'w host \<Rightarrow> ('w \<Rightarrow> disk) \<Rightarrow> string \<Rightarrow> string \<Rightarrow> string \<Rightarrow> string \<Rightarrow> ('w shell, string \<times> disk) prog" where
  "materialize_phase1 h checkout repo task_id merge_sha work_root =
     (let wt = phase1_worktree task_id work_root in
      thenP (add_detached_worktree h True repo merge_sha wt)
     (bindP (ask checkout) (\<lambda>d.
        case shipped_spec d (path_of wt) task_id of
          None \<Rightarrow> thenP (drop_worktree h repo wt) (throwP OSError)
        | Some b \<Rightarrow>
            bindP (liftP (decode_text b)) (\<lambda>txt'.
            bindP (liftP (clean_tree d (path_of wt) task_id txt')) (\<lambda>d'. retP (wt, d'))))))"

definition remove_phase1 :: "'w host \<Rightarrow> string \<Rightarrow> string \<Rightarrow> string \<Rightarrow> ('w shell, unit) prog" where
  "remove_phase1 h repo task_id work_root = drop_worktree h repo (phase1_worktree task_id work_root)"

definition merge_diff :: "'w host \<Rightarrow> string \<Rightarrow> string \<Rightarrow> string \<Rightarrow> ('w shell, string) prog" where
  "merge_diff h repo merge_sha task_id =
     git_text h repo ([''diff'', ''--no-renames'', merge_sha @ ''^1'', merge_sha] @ policy_pathspec task_id)"

section \<open>Preparing a review\<close>

definition verdicts_text :: "disk \<Rightarrow> artifacts \<Rightarrow> exn + string" where
  "verdicts_text d a =
     bindR (mapR (\<lambda>name. bindR (art_read_text d a name) (\<lambda>t.
       Inr (''### '' @ name @ [CHR 0x0A, CHR 0x0A] @ (case t of Some x \<Rightarrow> x | None \<Rightarrow> ''(missing)''))))
       [rw1_verdict_file, rw2_verdict_file, senior_verdict_file]) (\<lambda>parts. Inr (join [CHR 0x0A, CHR 0x0A] parts))"

text \<open>The two prompts and the cleaned worktree; \<open>home\<close> is the disk of the repository itself.\<close>

record review_input =
  ri_worktree :: string
  ri_disk :: disk
  ri_phase1 :: string
  ri_phase2 :: string

definition cmd_prepare ::
  "'w host \<Rightarrow> ('w \<Rightarrow> disk) \<Rightarrow> disk \<Rightarrow> string \<Rightarrow> string \<Rightarrow> (exn + target_policy) \<Rightarrow> (exn + string list) \<Rightarrow> string option \<Rightarrow>
   string \<Rightarrow> string \<Rightarrow> string \<Rightarrow> ('w desk, review_input) prog" where
  "cmd_prepare h checkout home template repo policy registry since to_ref work_root task_id =
     bindP (resolve_scope h repo policy since to_ref) (\<lambda>(_, reviewed, _).
       case map_of (rev (map (\<lambda>t. (mt_id t, mt_sha t)) reviewed)) task_id of
         None \<Rightarrow> throwP system_exit
       | Some sha \<Rightarrow>
           bindP (liftP registry) (\<lambda>slugs.
           bindP (shellP (materialize_phase1 h checkout repo task_id sha work_root)) (\<lambda>(wt, d).
           bindP (liftP (case file_at d (spec_path (bar_of (path_of wt) task_id)) of
                           None \<Rightarrow> Inl OSError | Some b \<Rightarrow> decode_text b)) (\<lambda>spec_txt.
           bindP (shellP (merge_diff h repo sha task_id)) (\<lambda>diff_txt.
           bindP (liftP (build_phase1_prompt template task_id spec_txt diff_txt wt slugs)) (\<lambda>p1.
           bindP (liftP (art_read_text home (bar_of (path_of repo) task_id) ''iteration-log.jsonl'')) (\<lambda>log.
           bindP (liftP (verdicts_text home (bar_of (path_of repo) task_id))) (\<lambda>verdicts.
           bindP (liftP (build_phase2_prompt template task_id
                    (case log of Some l \<Rightarrow> nonempty_or l ''(missing)'' | None \<Rightarrow> ''(missing)'') verdicts slugs)) (\<lambda>p2.
             retP \<lparr>ri_worktree = wt, ri_disk = d, ri_phase1 = p1, ri_phase2 = p2\<rparr>)))))))))"

section \<open>Bundles: scaffold, check, list\<close>

definition bundle_dir :: "string \<Rightarrow> string \<Rightarrow> string" where
  "bundle_dir repo eval_id = sub_path repo (''.laddy/oracle/evals/'' @ eval_id)"

text \<open>The names under the directory of the bundles are an argument; \<open>None\<close> when there is no directory.\<close>

definition list_bundles :: "disk \<Rightarrow> string \<Rightarrow> string list option \<Rightarrow> string list" where
  "list_bundles d repo names =
     (case names of
        None \<Rightarrow> []
      | Some ns \<Rightarrow> sort (filter (\<lambda>n. is_dir_at d (path_of (bundle_dir repo n))
                                   \<and> file_at d (path_of (bundle_dir repo n) @ [''expected.json'']) \<noteq> None) ns))"

definition committed_spec :: "'w host \<Rightarrow> string \<Rightarrow> string \<Rightarrow> string \<Rightarrow> ('w shell, string option) prog" where
  "committed_spec h repo sha task_id =
     bindP (oracle_git h False repo [''show'', sha @ '':.laddy/tasks/'' @ task_id @ ''/spec.md'']) (\<lambda>(code, out).
       if code = 0 then retP (Some out)
       else bindP (oracle_git h False repo [''show'', sha @ '':.laddy/specs/'' @ task_id @ ''.md'']) (\<lambda>(code, out).
              retP (if code = 0 then Some out else None)))"

definition expected_stub :: "string \<Rightarrow> string \<Rightarrow> json" where
  "expected_stub slug summary = JObj [(''class'', JStr slug), (''files'', JArr []), (''note'', JStr summary)]"

text \<open>Writing below the new directory of the bundle, which is made first.\<close>

definition scaffold_bundle ::
  "'w host \<Rightarrow> json_lib \<Rightarrow> jsonl_lib \<Rightarrow> string \<Rightarrow> string list option \<Rightarrow> string \<Rightarrow> string \<Rightarrow> string \<Rightarrow> ('w desk, string) prog" where
  "scaffold_bundle h J jl repo dirs task_id flag_id eval_id =
     (if \<not> eval_id_ok eval_id then throwP eval_bundle_error
      else bindP (getP dk_logs) (\<lambda>logs.
           bindP (liftP (iter_escapes jl dirs logs)) (\<lambda>rs.
           case find (\<lambda>r. es_task r = task_id \<and> es_flag r = flag_id) rs of
             None \<Rightarrow> throwP eval_bundle_error
           | Some r \<Rightarrow>
             (case es_class r of
                None \<Rightarrow> throwP eval_bundle_error
              | Some slug \<Rightarrow> shellP
                 (let d = bundle_dir repo eval_id in
                  bindP (ask (ho_exists h d)) (\<lambda>there.
                  if there then throwP eval_bundle_error
                  else bindP (merge_sha_for_task h repo task_id ''main'') (\<lambda>sha.
                  case sha of
                    None \<Rightarrow> throwP eval_bundle_error
                  | Some sha \<Rightarrow>
                      bindP (committed_spec h repo sha task_id) (\<lambda>spec.
                      case spec of
                        None \<Rightarrow> throwP eval_bundle_error
                      | Some text \<Rightarrow>
                          thenP (on_world (ho_write h (sub_path d ''spec.md'') (text @ [CHR 0x0A])))
                         (bindP (merge_diff h repo sha task_id) (\<lambda>diff.
                          thenP (on_world (ho_write h (sub_path d ''seed.patch'') (diff @ [CHR 0x0A])))
                         (thenP (on_world (ho_write h (sub_path d ''expected.json'')
                                   (dumps_raw J (expected_stub slug (es_summary r)) @ [CHR 0x0A])))
                            (retP d))))))))))))"

datatype bundle_problem = Unloadable | NotAPatch | NotTouched string | NoWorktree | DoesNotApply

text \<open>The third field of a line of \<open>git apply --numstat\<close>.\<close>

definition numstat_path :: "string \<Rightarrow> string list" where
  "numstat_path line =
     (if length (filter (\<lambda>c. c = tab) line) \<ge> 2 then [after_char tab (after_char tab line)] else [])"

definition touched_paths :: "string \<Rightarrow> string list" where
  "touched_paths out = concat (map numstat_path (splitlines out))"

definition check_patch :: "'w host \<Rightarrow> string \<Rightarrow> eval_bundle \<Rightarrow> string \<Rightarrow> string \<Rightarrow> ('w shell, bundle_problem list) prog" where
  "check_patch h repo b patch wt =
     thenP (on_world (ho_write h patch (eb_seed b)))
    (bindP (oracle_git h False repo [''apply'', ''--numstat'', patch]) (\<lambda>(code, numstat).
       if code \<noteq> 0 then retP [NotAPatch]
       else
         let untouched = map NotTouched (filter (\<lambda>f. f \<notin> set (touched_paths numstat)) (eb_files b)) in
         bindP (add_detached_worktree h False repo ''main'' wt) (\<lambda>added.
         if added \<noteq> 0 then retP (untouched @ [NoWorktree])
         else bindP (oracle_git h False wt [''apply'', ''--check'', patch]) (\<lambda>(applied, _).
                retP (untouched @ (if applied \<noteq> 0 then [DoesNotApply] else []))))))"

definition check_bundle ::
  "'w host \<Rightarrow> json_lib \<Rightarrow> (exn + string list) \<Rightarrow> (string \<Rightarrow> string option) \<Rightarrow> string \<Rightarrow> string \<Rightarrow> string \<Rightarrow>
   ('w shell, bundle_problem list) prog" where
  "check_bundle h J registry files repo work_root eval_id =
     (case load_bundle J registry files eval_id of
        Inl e \<Rightarrow> if e = eval_bundle_error then retP [Unloadable] else throwP e
      | Inr b \<Rightarrow>
          (let wt = sub_path work_root (''eval-check-'' @ eval_id); patch = wt @ ''.patch'' in
           finallyP (check_patch h repo b patch wt)
             (thenP (bindP (ask (ho_exists h patch)) (\<lambda>there. whenP there (on_world (ho_unlink h patch))))
               (drop_worktree h repo wt))))"

definition bundle_exit :: "('s, 'a) prog \<Rightarrow> ('s, 'a) prog" where
  "bundle_exit m = catchP m (\<lambda>e. throwP (if e = eval_bundle_error then system_exit else e))"

definition cmd_eval_new ::
  "'w host \<Rightarrow> json_lib \<Rightarrow> jsonl_lib \<Rightarrow> string \<Rightarrow> string list option \<Rightarrow> string \<Rightarrow> string \<Rightarrow> string \<Rightarrow> ('w desk, int) prog" where
  "cmd_eval_new h J jl repo dirs task_id flag_id eval_id =
     bindP (bundle_exit (scaffold_bundle h J jl repo dirs task_id flag_id eval_id)) (\<lambda>_. retP 0)"

definition cmd_eval_check ::
  "'w host \<Rightarrow> json_lib \<Rightarrow> (exn + string list) \<Rightarrow> (string \<Rightarrow> string option) \<Rightarrow> string \<Rightarrow> string \<Rightarrow> string \<Rightarrow> ('w shell, int) prog" where
  "cmd_eval_check h J registry files repo work_root eval_id =
     bindP (check_bundle h J registry files repo work_root eval_id) (\<lambda>ps. retP (if ps = [] then 0 else 1))"

section \<open>The sandbox of an evaluation\<close>

text \<open>The three directories and the patches of a sandbox, on the host; an evaluation runs with these operations.\<close>

definition sandbox_dirs :: "string \<Rightarrow> string list" where
  "sandbox_dirs work_root = map (sub_path work_root) [''eval-hub.git'', ''base'', ''wt'']"

definition remove_trees :: "'w host \<Rightarrow> string list \<Rightarrow> ('w shell, unit) prog" where
  "remove_trees h dirs = change_world (fold (\<lambda>p w. if ho_exists h p w then ho_rmtree h p w else w) dirs)"

definition make_sandbox :: "'w host \<Rightarrow> string \<Rightarrow> string \<Rightarrow> ('w shell, unit) prog" where
  "make_sandbox h repo work_root =
     thenP (remove_trees h (sandbox_dirs work_root))
       (thenP (oracle_git h True repo [''clone'', ''--bare'', ''.'', sub_path work_root ''eval-hub.git'']) (retP ()))"

definition is_seed_patch :: "string \<Rightarrow> bool" where
  "is_seed_patch name = (prefix ''seed-'' name \<and> suffix ''.patch'' name \<and> length name \<ge> 11)"

primrec unlink_all :: "'w host \<Rightarrow> string list \<Rightarrow> ('w shell, unit) prog" where
  "unlink_all h [] = retP ()"
| "unlink_all h (p # ps) = thenP (on_world (ho_unlink h p)) (unlink_all h ps)"

definition cleanup_sandbox :: "'w host \<Rightarrow> string \<Rightarrow> ('w shell, unit) prog" where
  "cleanup_sandbox h work_root =
     thenP (remove_trees h (sandbox_dirs work_root))
       (bindP (ask (ho_children h work_root)) (\<lambda>names.
          unlink_all h (map (sub_path work_root) (filter is_seed_patch names))))"

definition apply_seed :: "'w host \<Rightarrow> string \<Rightarrow> string \<Rightarrow> string \<Rightarrow> string \<Rightarrow> ('w shell, int) prog" where
  "apply_seed h work_root wt eval_id seed =
     (let patch = sub_path work_root (''seed-'' @ eval_id @ ''.patch'') in
      thenP (on_world (ho_write h patch seed))
        (bindP (oracle_git h False wt [''apply'', patch]) (\<lambda>(code, _). retP code)))"

definition shell_sandbox :: "'w host \<Rightarrow> string \<Rightarrow> string \<Rightarrow> string \<Rightarrow> string \<Rightarrow> 'w shell sandbox" where
  "shell_sandbox h repo work_root wt eval_id =
     \<lparr>sb_make = make_sandbox h repo work_root, sb_apply = apply_seed h work_root wt eval_id,
      sb_clean = cleanup_sandbox h work_root\<rparr>"

definition eval_branch :: "string \<Rightarrow> string" where
  "eval_branch task_id = ''eval/'' @ task_id"

section \<open>A template is filled in one pass\<close>

text \<open>The pieces of a template, texts and holes; they depend on the names of the holes, not on the values.\<close>

definition hole_key :: "string list \<Rightarrow> string \<Rightarrow> string option" where
  "hole_key ks s = find (\<lambda>k. prefix (hole k) s) ks"

function pieces :: "string list \<Rightarrow> string \<Rightarrow> (string + string) list" where
  "pieces ks s =
     (case s of
        [] \<Rightarrow> []
      | c # r \<Rightarrow>
          (case hole_key ks s of
             Some k \<Rightarrow> Inr k # pieces ks (drop (length (hole k)) s)
           | None \<Rightarrow> Inl [c] # pieces ks r))"
  by pat_completeness auto
termination
  by (relation "measure (length \<circ> snd)") (auto simp: hole_def)

declare pieces.simps [simp del]

definition plug :: "(string \<times> string) list \<Rightarrow> string + string \<Rightarrow> string" where
  "plug vals x = (case x of Inl t \<Rightarrow> t | Inr k \<Rightarrow> (case map_of vals k of Some v \<Rightarrow> v | None \<Rightarrow> []))"

definition raw_piece :: "string + string \<Rightarrow> string" where
  "raw_piece x = (case x of Inl t \<Rightarrow> t | Inr k \<Rightarrow> hole k)"

lemma found_holds: "find P xs = Some x \<Longrightarrow> P x"
  by (auto simp: find_Some_iff)

lemma hole_at_key:
  "hole_at vals s = (case hole_key (map fst vals) s of None \<Rightarrow> None | Some k \<Rightarrow> map_option (Pair k) (map_of vals k))"
  by (induction vals) (auto simp: hole_at_def hole_key_def split: option.splits dest: found_holds)

lemma hole_key_in: "hole_key ks s = Some k \<Longrightarrow> k \<in> set ks \<and> prefix (hole k) s"
  by (auto simp: hole_key_def find_Some_iff)

lemma pieces_steps:
  "pieces ks [] = []"
  "hole_key ks (c # r) = None \<Longrightarrow> pieces ks (c # r) = Inl [c] # pieces ks r"
  "hole_key ks (c # r) = Some k \<Longrightarrow> pieces ks (c # r) = Inr k # pieces ks (drop (length (hole k)) (c # r))"
  by (simp_all add: pieces.simps[of ks "[]"] pieces.simps[of ks "c # r"])

lemma fill_steps:
  "fill vals [] = []"
  "hole_at vals (c # r) = None \<Longrightarrow> fill vals (c # r) = c # fill vals r"
  "hole_at vals (c # r) = Some (k, v) \<Longrightarrow> fill vals (c # r) = v @ fill vals (drop (length (hole k)) (c # r))"
  by (simp_all add: fill.simps[of vals "[]"] fill.simps[of vals "c # r"])

lemma fill_plugs: "fill vals s = concat (map (plug vals) (pieces (map fst vals) s))"
proof (induction vals s rule: fill.induct)
  case (1 vals s)
  show ?case
  proof (cases s)
    case (Cons c r)
    show ?thesis
    proof (cases "hole_key (map fst vals) (c # r)")
      case None
      then have "hole_at vals (c # r) = None"
        by (simp add: hole_at_key)
      then show ?thesis
        using 1(1)[OF Cons] Cons None by (simp add: pieces_steps fill_steps plug_def)
    next
      case (Some k)
      then obtain v where v: "map_of vals k = Some v"
        using hole_key_in[OF Some] by (metis map_of_eq_None_iff not_None_eq list.set_map)
      then have at: "hole_at vals (c # r) = Some (k, v)"
        using hole_at_key[of vals "c # r"] Some by simp
      then show ?thesis
        using 1(2)[OF Cons at[folded Cons] refl] Cons Some v by (simp add: pieces_steps fill_steps plug_def)
    qed
  qed (simp add: fill_steps pieces_steps)
qed

lemma raw_pieces: "concat (map raw_piece (pieces ks s)) = s"
proof (induction ks s rule: pieces.induct)
  case (1 ks s)
  show ?case
  proof (cases s)
    case (Cons c r)
    show ?thesis
    proof (cases "hole_key ks (c # r)")
      case None
      then show ?thesis
        using 1(1)[OF Cons] Cons by (simp add: pieces_steps raw_piece_def)
    next
      case (Some k)
      have "hole k @ drop (length (hole k)) (c # r) = c # r"
        using hole_key_in[OF Some] by (auto simp: prefix_def)
      then show ?thesis
        using 1(2)[OF Cons Some[folded Cons]] Cons Some by (simp add: pieces_steps raw_piece_def)
    qed
  qed (simp add: pieces_steps)
qed

text \<open>
  Nothing the oracle is shown can smuggle in more of itself: the pieces of the template are found in the
  template alone, and each hole is replaced by its value as it is, so that a hole written in the spec or in
  the diff stays text. The prompt of the first phase is the template with its five holes filled; the log and
  the verdicts are not among its values.
\<close>

theorem prompt_fills_template_only:
  assumes "build_phase1_prompt template task_id spec_txt diff_txt worktree slugs = Inr p"
  shows "\<exists>p1 p2 ps. prompt_sections template = Inr (p1, p2)
     \<and> ps = pieces [''task'', ''worktree'', ''class_slugs'', ''spec'', ''diff''] p1
     \<and> concat (map raw_piece ps) = p1
     \<and> p = concat (map (plug (phase1_values task_id spec_txt diff_txt worktree slugs)) ps)"
  using assms by (auto simp: build_phase1_prompt_def bindR_Inr_iff fill_plugs raw_pieces phase1_values_def)

section \<open>The cleaned worktree\<close>

text \<open>A path no component of which is a link or steps back.\<close>

definition plain_path :: "disk \<Rightarrow> path \<Rightarrow> bool" where
  "plain_path d p \<longleftrightarrow> ''..'' \<notin> set p \<and> (\<forall>a l. prefix a p \<longrightarrow> d a \<noteq> Some (Link l))"

lemma plain_prefix: "plain_path d (a @ b) \<Longrightarrow> plain_path d a"
  by (auto simp: plain_path_def)

lemma walk_plain:
  "plain_path d (cur @ cs) \<Longrightarrow> walk n d cur cs = Inr (k, q) \<Longrightarrow>
     k = n \<and> q = cur @ cs \<and> (cs \<noteq> [] \<longrightarrow> d q \<noteq> None \<and> is_directory d (butlast q))"
proof (induction cs arbitrary: cur)
  case (Cons c cs)
  have dots: "c \<noteq> ''..''" and link: "\<And>l. d (cur @ [c]) \<noteq> Some (Link l)"
    using Cons.prems(1) by (auto simp: plain_path_def)
  then have step: "is_directory d cur" "d (cur @ [c]) \<noteq> None" "walk n d (cur @ [c]) cs = Inr (k, q)"
    using Cons.prems(2) by (auto split: if_splits option.splits fnode.splits)
  then show ?case
    using Cons.IH[of "cur @ [c]"] Cons.prems(1) by (cases "cs = []") (auto simp: butlast_append)
qed simp

lemma resolve_plain: "plain_path d p \<Longrightarrow> resolve d p = Inr (k, q) \<Longrightarrow> k = max_links \<and> q = p"
  using walk_plain[of d "[]" p max_links k q] by (simp add: resolve_def)

lemma dir_resolves:
  assumes "wf_disk d" "is_directory d p" "''..'' \<notin> set p"
  shows "resolve d p = Inr (max_links, p)"
  using resolve_real[OF assms(1), of "[]" max_links "[]" p] assms(2,3) by (simp add: resolve_def)

lemma entry_plain:
  assumes "plain_path d p" "entry_of d p = Inr f" "p \<noteq> []"
  shows "f = p"
proof -
  have "plain_path d (butlast p)"
    using plain_prefix[of d "butlast p" "[last p]"] assms(1,3) by simp
  then have "k = max_links \<and> q = butlast p" if "resolve d (butlast p) = Inr (k, q)" for k q
    using resolve_plain that by blast
  then show ?thesis
    using assms(2,3) by (auto simp: entry_of_def bindR_Inr_iff split: if_splits)
qed

lemma plain_no_symlink: "plain_path d p \<Longrightarrow> \<not> is_symlink d p"
  using entry_plain[of d p] by (auto simp: is_symlink_def plain_path_def split: sum.splits option.splits fnode.splits)

lemma plain_refuses_nothing: "plain_path d (cur @ cs) \<Longrightarrow> refuse_links d cur cs = Inr ()"
proof (induction cs arbitrary: cur)
  case (Cons c cs)
  then show ?case
    using plain_no_symlink[OF plain_prefix[of d "cur @ [c]" cs]] Cons.IH[of "cur @ [c]"] by simp
qed simp

lemma mkdir_new_mkdirs: "mkdir_new d p = Inr d' \<Longrightarrow> mkdirs d p = Inr d'"
  by (auto simp: mkdir_new_def mkdirs.simps[of d p] mkdir_exist_ok_def bindR_Inr_iff split: if_splits sum.splits)

lemma wf_below: "wf_disk d \<Longrightarrow> d (p @ a) \<noteq> None \<Longrightarrow> a \<noteq> [] \<Longrightarrow> is_directory d p"
proof (induction a rule: rev_induct)
  case (snoc c a)
  have "is_directory d (p @ a)"
    using snoc.prems(1,2) unfolding wf_disk_def by (metis append_assoc)
  then show ?case
    using snoc by (cases "a = []") (auto simp: is_directory_def)
qed simp

lemma os_error_Inr: "os_error r = Inr x \<longleftrightarrow> r = Inr x"
  by (cases r) (auto simp: os_error_def)

definition cut_tree :: "disk \<Rightarrow> path \<Rightarrow> disk" where
  "cut_tree d p = (\<lambda>q. if prefix p q then None else d q)"

lemma rmtree_plain:
  assumes "plain_path d p" "p \<noteq> []" "rmtree d p = Inr d'"
  shows "d p = Some Dir \<and> d' = cut_tree d p"
  using assms entry_plain[OF assms(1) _ assms(2)]
  by (auto simp: rmtree_def os_error_def cut_tree_def bindR_Inr_iff split: if_splits sum.splits)

lemma cut_wf: "wf_disk d \<Longrightarrow> wf_disk (cut_tree d p)"
  unfolding wf_disk_def cut_tree_def is_directory_def by (auto intro: prefix_order.trans split: if_splits)

text \<open>What the first step leaves: nothing below the directory of the tasks, the rest as it was.\<close>

definition emptied :: "disk \<Rightarrow> disk \<Rightarrow> path \<Rightarrow> bool" where
  "emptied d d1 p \<longleftrightarrow> wf_disk d1 \<and> (\<forall>q. \<not> prefix p q \<longrightarrow> d1 q = d q)
     \<and> (\<forall>q. prefix p q \<and> d1 q \<noteq> None \<longrightarrow> q = p \<and> (\<exists>b. d1 q = Some (Reg b)))"

lemma first_step:
  assumes "wf_disk d" "plain_path d p" "p \<noteq> []" "(if is_dir_at d p then rmtree d p else Inr d) = Inr d1"
  shows "emptied d d1 p"
proof (cases "is_dir_at d p")
  case True
  then have "d1 = cut_tree d p"
    using rmtree_plain[OF assms(2,3)] assms(4) by simp
  then show ?thesis
    using cut_wf[OF assms(1)] by (simp add: emptied_def cut_tree_def)
next
  case False
  then have d1: "d1 = d"
    using assms(4) by simp
  have no_dir: "\<not> is_directory d p"
    using False dir_resolves[OF assms(1)] assms(2) by (auto simp: is_dir_at_def plain_path_def)
  have "q = p \<and> (\<exists>b. d q = Some (Reg b))" if q: "prefix p q" "d q \<noteq> None" for q
  proof -
    obtain a where a: "q = p @ a"
      using q(1) by (auto simp: prefix_def)
    then have "a = []"
      using wf_below[OF assms(1)] q(2) no_dir by blast
    then show ?thesis
      using a q(2) no_dir assms(2) by (cases "d p"; cases "the (d p)") (auto simp: is_directory_def plain_path_def)
  qed
  then show ?thesis
    using assms(1) d1 by (auto simp: emptied_def)
qed

lemma emptied_plain:
  assumes "emptied d d1 p" "plain_path d p" "''..'' \<notin> set b"
  shows "plain_path d1 (p @ b)"
proof -
  have "d1 a \<noteq> Some (Link l)" if "prefix a (p @ b)" for a l
  proof (cases "prefix p a")
    case True
    then show ?thesis
      using assms(1) by (fastforce simp: emptied_def)
  next
    case False
    then have "prefix a p"
      using that by (metis prefix_same_cases prefix_append prefixI)
    then show ?thesis
      using assms(1,2) False by (simp add: emptied_def plain_path_def)
  qed
  then show ?thesis
    using assms(2,3) by (auto simp: plain_path_def)
qed

lemma resolves_dirs:
  assumes "plain_path d (a @ b)" "resolve d (a @ b) = Inr (m, q)" "is_directory d q"
  shows "is_directory d a"
proof -
  obtain k r where r: "resolve d a = Inr (k, r)" "walk k d r b = Inr (m, q)"
    using assms(2) by (auto simp: resolve_def walk_append bindR_Inr_iff)
  then have "r = a"
    using resolve_plain plain_prefix[OF assms(1)] by blast
  then show ?thesis
    using r(2) assms(3) by (cases b) (auto split: if_splits)
qed

lemma made_keeps_plain:
  assumes "made_dirs d d' r parts" "plain_path d p"
  shows "plain_path d' p"
  using assms unfolding made_dirs_def plain_path_def by (metis fnode.distinct(5) option.inject)

lemma write_fresh:
  assumes "resolve d dir = Inr (m, q)" "is_directory d q" "d (q @ [name]) = None" "name \<noteq> ''..''" "write_file d (dir @ [name]) t = Inr d'"
  shows "d' = d(q @ [name] \<mapsto> Reg (utf8_encode t))"
proof -
  have "resolve d (dir @ [name]) = Inl ENOENT"
    using assms(1-4) by (simp add: resolve_def walk_append)
  moreover have "open_nofollow d (dir @ [name]) = Inr (q @ [name])"
    using assms(1-4) by (simp add: open_nofollow_def entry_of_def)
  ultimately show ?thesis
    using assms(5) by (simp add: write_file_def open_write_def os_error_def)
qed

text \<open>
  \<open>only_spec d p keep t\<close>: at and below \<open>p\<close> there is nothing but the directories that lead to \<open>keep\<close> and one
  file there, the spec with the text \<open>t\<close>.
\<close>

definition only_spec :: "disk \<Rightarrow> path \<Rightarrow> path \<Rightarrow> string \<Rightarrow> bool" where
  "only_spec d p keep t \<longleftrightarrow> d (keep @ [''spec.md'']) = Some (Reg (utf8_encode t))
     \<and> (\<forall>q. prefix p q \<and> d q \<noteq> None \<longrightarrow> prefix q keep \<and> d q = Some Dir \<or> q = keep @ [''spec.md''])"

text \<open>
  C29: The first phase is clean by construction. When the path to the directory of the tasks passes no link,
  then after cleaning the worktree that directory holds the spec of the task under review and nothing else:
  no log, no verdict, no artifact of any task, wherever the merge put them. Outside of it every file is as it
  was checked out.
\<close>

theorem phase1_is_clean:
  assumes "wf_disk d" "is_directory d wt" "plain_path d (lane_of wt)"
    and "\<not> prefix ''/'' task_id" "''..'' \<notin> set (task_parts task_id)" "clean_tree d wt task_id t = Inr d'"
  shows "only_spec d' (lane_of wt) (lane_of wt @ task_parts task_id) t
     \<and> (\<forall>q. \<not> prefix (lane_of wt) q \<longrightarrow> d' q = d q \<or> d q = None \<and> d' q = Some Dir \<and> q = wt @ [''.laddy''])"
proof -
  let ?a = "bar_of wt task_id"
  let ?keep = "lane_of wt @ task_parts task_id"
  have keep: "art_dir ?a = ?keep" "wt @ rel_parts ?a = ?keep" "ar_root ?a = wt"
    using assms(4) by (simp_all add: art_dir_def rel_parts_def lane_of_def bar_of_def)
  obtain d1 d2 where d1: "(if is_dir_at d (lane_of wt) then rmtree d (lane_of wt) else Inr d) = Inr d1"
    and d2: "mkdir_new d1 ?keep = Inr d2" and d': "write_file d2 (?keep @ [''spec.md'']) t = Inr d'"
    using assms(6) by (auto simp: clean_tree_def bindR_Inr_iff os_error_Inr keep spec_path_def)
  have empty: "emptied d d1 (lane_of wt)"
    using first_step[OF assms(1,3) _ d1] by (simp add: lane_of_def)
  then have wf: "wf_disk d1" and dir: "is_directory d1 wt"
    using assms(2) by (auto simp: emptied_def is_directory_def lane_of_def)
  have plain: "plain_path d1 ?keep"
    by (rule emptied_plain[OF empty assms(3,5)])
  have root: "resolve d1 wt = Inr (max_links, wt)"
    using dir_resolves[OF wf dir] plain by (simp add: plain_path_def lane_of_def)
  have "made_dirs d1 d2 wt (rel_parts ?a) \<and> resolve d2 (wt @ rel_parts ?a) = Inr (max_links, wt @ rel_parts ?a)
      \<and> is_directory d2 (wt @ rel_parts ?a)"
  proof (rule mkdirs_straight[OF wf root dir])
    show "''..'' \<notin> set (rel_parts ?a)"
      using assms(5) by (simp add: rel_parts_def bar_of_def)
    show "refuse_links d1 wt (rel_parts ?a) = Inr ()"
      by (rule plain_refuses_nothing) (simp add: plain keep(2))
    show "rel_parts ?a = rel_parts ?a @ []" "mkdirs d1 (wt @ rel_parts ?a) = Inr d2"
      using mkdir_new_mkdirs[OF d2] keep(2) by simp_all
  qed
  then have made: "made_dirs d1 d2 wt (rel_parts ?a)" and res: "resolve d2 ?keep = Inr (max_links, ?keep)"
    and dir2: "is_directory d2 ?keep"
    using keep(2) by simp_all
  have lane: "is_directory d2 (lane_of wt)"
    using resolves_dirs[OF made_keeps_plain[OF made plain] res dir2] .
  have below: "prefix q ?keep \<and> d2 q = Some Dir" if q: "prefix (lane_of wt) q" "d2 q \<noteq> None" for q
  proof (cases "d1 q = d2 q")
    case True
    then show ?thesis
      using empty q lane by (auto simp: emptied_def is_directory_def lane_of_def)
  next
    case False
    then obtain x where "prefix x (rel_parts ?a)" "q = wt @ x" "d2 q = Some Dir"
      using made unfolding made_dirs_def by metis
    then show ?thesis
      using keep(2) by (metis same_prefix_prefix)
  qed
  have fresh: "d2 (?keep @ [''spec.md'']) = None"
  proof (rule ccontr)
    assume "d2 (?keep @ [''spec.md'']) \<noteq> None"
    moreover have "prefix (lane_of wt) (?keep @ [''spec.md''])"
      by simp
    ultimately have "prefix (?keep @ [''spec.md'']) ?keep"
      using below by blast
    then show False
      using prefix_length_le by fastforce
  qed
  have final: "d' = d2(?keep @ [''spec.md''] \<mapsto> Reg (utf8_encode t))"
    by (rule write_fresh[OF res dir2 fresh _ d']) simp
  have "d2 q = d q \<or> d q = None \<and> d2 q = Some Dir \<and> q = wt @ [''.laddy'']" if q: "\<not> prefix (lane_of wt) q" for q
  proof (cases "d1 q = d2 q")
    case True
    then show ?thesis
      using empty q by (simp add: emptied_def)
  next
    case False
    then obtain x where x: "x \<noteq> []" "prefix x (rel_parts ?a)" "q = wt @ x" "d2 q = Some Dir" "d1 q = None"
      using made unfolding made_dirs_def by metis
    then have "x = [''.laddy'']"
      using q by (auto simp: rel_parts_def lane_of_def prefix_Cons)
    then show ?thesis
      using x empty q by (simp add: emptied_def)
  qed
  then show ?thesis
    using below unfolding final only_spec_def by (auto simp: lane_of_def)
qed

section \<open>What still gets through\<close>

text \<open>
  The spec is read through links: a branch that ships the spec of its task as a link to its log has the log
  copied into the clean worktree and into the prompt of the first phase.
\<close>

definition linked_checkout :: disk where
  "linked_checkout = map_of
     [([''w''], Dir), ([''w'', ''.laddy''], Dir), ([''w'', ''.laddy'', ''tasks''], Dir),
      ([''w'', ''.laddy'', ''tasks'', ''t''], Dir),
      ([''w'', ''.laddy'', ''tasks'', ''t'', ''iteration-log.jsonl''], Reg ''the log''),
      ([''w'', ''.laddy'', ''tasks'', ''t'', ''spec.md''], Link [''w'', ''.laddy'', ''tasks'', ''t'', ''iteration-log.jsonl''])]"

lemma linked_spec_leaks_log:
  "shipped_spec linked_checkout [''w''] ''t'' = Some ''the log''"
  "map_sum id (\<lambda>d. d [''w'', ''.laddy'', ''tasks'', ''t'', ''spec.md'']) (clean_tree linked_checkout [''w''] ''t'' ''the log'')
     = Inr (Some (Reg ''the log''))"
  by code_simp+

text \<open>
  When the agent directory itself is a link, cleaning follows it: what is removed is the directory of the
  tasks it points to, outside of the worktree.
\<close>

definition linked_agent_dir :: disk where
  "linked_agent_dir = map_of
     [([''w''], Dir), ([''w'', ''.laddy''], Link [''repo'', ''.laddy'']),
      ([''repo''], Dir), ([''repo'', ''.laddy''], Dir), ([''repo'', ''.laddy'', ''tasks''], Dir),
      ([''repo'', ''.laddy'', ''tasks'', ''t''], Dir), ([''repo'', ''.laddy'', ''tasks'', ''u''], Dir),
      ([''repo'', ''.laddy'', ''tasks'', ''t'', ''spec.md''], Reg ''x''),
      ([''repo'', ''.laddy'', ''tasks'', ''u'', ''iteration-log.jsonl''], Reg ''y'')]"

lemma linked_agent_dir_is_emptied:
  "map_sum id (\<lambda>d. d [''repo'', ''.laddy'', ''tasks'', ''u'', ''iteration-log.jsonl'']) (clean_tree linked_agent_dir [''w''] ''t'' ''x'')
     = Inr None"
  by code_simp

text \<open>
  The output of \<open>git apply\<close> quotes a name with unusual characters, and the check compares it as it is: a
  patch that touches the file is reported not to.
\<close>

lemma quoted_name_is_not_touched:
  "''a'' @ [tab] @ ''b'' \<notin> set (touched_paths (''1'' @ [tab] @ ''0'' @ [tab, CHR 0x22] @ ''a'' @ [CHR 0x5C] @ ''tb'' @ [CHR 0x22]))"
  by code_simp

section \<open>Witnesses\<close>

definition demo_template :: string where
  "demo_template = ''Task {task}: {spec} / {diff}<!-- PHASE-2 -->{log}''"

text \<open>A spec that holds a hole of its own.\<close>

lemma demo_prompt: "build_phase1_prompt demo_template ''t'' ''see {diff}'' ''D'' ''w'' [] = Inr (''Task t: see {diff} / D'' @ [CHR 0x0A])"
  by (simp add: build_phase1_prompt_def prompt_sections_def demo_template_def phase_split_def phase1_values_def fill.simps hole_at_def hole_def py_text)

theorem prompt_fills_template_only_witness:
  "\<exists>p1 p2. prompt_sections demo_template = Inr (p1, p2)
     \<and> concat (map (plug (phase1_values ''t'' ''see {diff}'' ''D'' ''w'' []))
           (pieces [''task'', ''worktree'', ''class_slugs'', ''spec'', ''diff''] p1)) = ''Task t: see {diff} / D'' @ [CHR 0x0A]"
  using prompt_fills_template_only[OF demo_prompt] by auto

definition demo_checkout :: disk where
  "demo_checkout p =
     (if p \<in> {[''w''], [''w'', ''.laddy''], [''w'', ''.laddy'', ''tasks''], [''w'', ''.laddy'', ''tasks'', ''t'']} then Some Dir
      else if p = [''w'', ''.laddy'', ''tasks'', ''t'', ''spec.md''] then Some (Reg ''the bar'')
      else if p = [''w'', ''.laddy'', ''tasks'', ''t'', ''iteration-log.jsonl''] then Some (Reg ''the log'')
      else if p = [''w'', ''a.py''] then Some (Reg ''code'') else None)"

lemma demo_checkout_ok: "is_ok (clean_tree demo_checkout [''w''] ''t'' ''the bar'')"
  by code_simp

lemma demo_checkout_shape: "wf_disk demo_checkout" "is_directory demo_checkout [''w'']" "plain_path demo_checkout (lane_of [''w''])"
  by (auto simp: wf_disk_def demo_checkout_def is_directory_def plain_path_def lane_of_def append_eq_Cons_conv prefix_Cons)

theorem phase1_is_clean_witness:
  "\<exists>d'. clean_tree demo_checkout [''w''] ''t'' ''the bar'' = Inr d' \<and> d' [''w'', ''.laddy'', ''tasks'', ''t'', ''iteration-log.jsonl''] = None
     \<and> d' [''w'', ''a.py''] = Some (Reg ''code'')"
proof -
  obtain d' where d': "clean_tree demo_checkout [''w''] ''t'' ''the bar'' = Inr d'"
    using demo_checkout_ok by (auto simp: is_ok_iff)
  have parts: "task_parts ''t'' = [''t'']"
    by code_simp
  note clean = phase1_is_clean[OF demo_checkout_shape _ _ d', unfolded parts]
  have only: "only_spec d' [''w'', ''.laddy'', ''tasks''] [''w'', ''.laddy'', ''tasks'', ''t''] ''the bar''"
    and "d' [''w'', ''a.py''] = demo_checkout [''w'', ''a.py'']"
    using conjunct1[OF clean] spec[OF conjunct2[OF clean], of "[''w'', ''a.py'']"]
    by (simp_all add: lane_of_def demo_checkout_def)
  moreover have "d' [''w'', ''.laddy'', ''tasks'', ''t'', ''iteration-log.jsonl''] = None"
  proof (rule ccontr)
    let ?q = "[''w'', ''.laddy'', ''tasks'', ''t'', ''iteration-log.jsonl'']"
    assume "d' ?q \<noteq> None"
    moreover have "prefix [''w'', ''.laddy'', ''tasks''] ?q" "\<not> prefix ?q [''w'', ''.laddy'', ''tasks'', ''t'']"
      "?q \<noteq> [''w'', ''.laddy'', ''tasks'', ''t''] @ [''spec.md'']"
      by simp_all
    ultimately show False
      using only unfolding only_spec_def by blast
  qed
  ultimately show ?thesis
    using d' by (auto simp: demo_checkout_def)
qed

end
