(* ===== verification/Totp.thy ===== *)
theory Totp
  imports Json "HOL-Library.Word"
begin

text \<open>
  Model of \<open>src/note_server/totp.py\<close>: the decoder of the shared secret, the one-time code of a counter, and
  the check of a token against the codes of the current window and its neighbours. SHA-1, its keyed form and
  the base 32 decoder of the standard library are written out; a byte is a character, and the words of SHA-1
  are machine words of 32 bits. The clock is an argument: the whole seconds since the epoch.
\<close>

unbundle bit_operations_syntax

section \<open>SHA-1\<close>

definition be_word :: "string \<Rightarrow> 32 word" where
  "be_word bs = foldl (\<lambda>w b. push_bit 8 w OR of_char b) 0 bs"

definition be_bytes :: "nat \<Rightarrow> nat \<Rightarrow> string" where
  "be_bytes k n = map (\<lambda>i. char_of (n div 256 ^ i)) (rev [0..<k])"

text \<open>The padding to whole blocks of 64 bytes: a one bit, zeros, the length in bits.\<close>

definition sha1_pad :: "string \<Rightarrow> string" where
  "sha1_pad m =
     (let zeros = (119 - length m mod 64) mod 64
      in m @ CHR 0x80 # replicate zeros (CHR 0x00) @ be_bytes 8 (8 * length m))"

text \<open>The schedule of a block, the latest word first.\<close>

primrec sha1_schedule :: "nat \<Rightarrow> 32 word list \<Rightarrow> 32 word list" where
  "sha1_schedule 0 ws = ws"
| "sha1_schedule (Suc n) ws =
     sha1_schedule n (word_rotl 1 (ws ! 2 XOR ws ! 7 XOR ws ! 13 XOR ws ! 15) # ws)"

type_synonym sha1_state = "32 word \<times> 32 word \<times> 32 word \<times> 32 word \<times> 32 word"

definition sha1_mix :: "nat \<Rightarrow> 32 word \<Rightarrow> 32 word \<Rightarrow> 32 word \<Rightarrow> 32 word" where
  "sha1_mix t b c d =
     (if t < 20 then (b AND c) OR (NOT b AND d)
      else if t < 40 then b XOR c XOR d
      else if t < 60 then (b AND c) OR (b AND d) OR (c AND d)
      else b XOR c XOR d)"

definition sha1_constant :: "nat \<Rightarrow> 32 word" where
  "sha1_constant t =
     (if t < 20 then 0x5A827999 else if t < 40 then 0x6ED9EBA1 else if t < 60 then 0x8F1BBCDC else 0xCA62C1D6)"

fun sha1_step :: "nat \<times> 32 word \<Rightarrow> sha1_state \<Rightarrow> sha1_state" where
  "sha1_step (t, w) (a, b, c, d, e) =
     (word_rotl 5 a + sha1_mix t b c d + e + sha1_constant t + w, a, word_rotl 30 b, c, d)"

fun sha1_add :: "sha1_state \<Rightarrow> sha1_state \<Rightarrow> sha1_state" where
  "sha1_add (a, b, c, d, e) (a', b', c', d', e') = (a + a', b + b', c + c', d + d', e + e')"

fun in_groups :: "nat \<Rightarrow> 'a list \<Rightarrow> 'a list list" where
  "in_groups n [] = []"
| "in_groups n (x # xs) = (let k = max 1 n in take k (x # xs) # in_groups n (drop k (x # xs)))"

definition sha1_block :: "sha1_state \<Rightarrow> string \<Rightarrow> sha1_state" where
  "sha1_block s block =
     (let ws = rev (sha1_schedule 64 (rev (map be_word (in_groups 4 block))))
      in sha1_add s (fold sha1_step (zip [0..<80] ws) s))"

definition sha1_start :: sha1_state where
  "sha1_start = (0x67452301, 0xEFCDAB89, 0x98BADCFE, 0x10325476, 0xC3D2E1F0)"

fun sha1_bytes :: "sha1_state \<Rightarrow> string" where
  "sha1_bytes (a, b, c, d, e) = concat (map (\<lambda>w. be_bytes 4 (unat w)) [a, b, c, d, e])"

definition sha1 :: "string \<Rightarrow> string" where
  "sha1 m = sha1_bytes (foldl sha1_block sha1_start (in_groups 64 (sha1_pad m)))"

lemma sha1_length: "length (sha1 m) = 20"
  unfolding sha1_def by (cases "foldl sha1_block sha1_start (in_groups 64 (sha1_pad m))" rule: sha1_bytes.cases) (simp add: be_bytes_def)

section \<open>The keyed hash\<close>

definition xor_pad :: "int \<Rightarrow> string \<Rightarrow> string" where
  "xor_pad x k = map (\<lambda>c. char_of (of_char c XOR x)) k"

definition block_key :: "string \<Rightarrow> string" where
  "block_key key = (let k = (if length key > 64 then sha1 key else key) in k @ replicate (64 - length k) (CHR 0x00))"

definition hmac_sha1 :: "string \<Rightarrow> string \<Rightarrow> string" where
  "hmac_sha1 key message =
     (let k = block_key key in sha1 (xor_pad 0x5C k @ sha1 (xor_pad 0x36 k @ message)))"

section \<open>The secret\<close>

text \<open>\<open>str.upper\<close> on the modelled code points; the two letters without an upper case among them stay.\<close>

definition upper_char :: "char \<Rightarrow> string" where
  "upper_char c = (let n = ord c in
     if 97 \<le> n \<and> n \<le> 122 \<or> 224 \<le> n \<and> n \<le> 254 \<and> n \<noteq> 247 then [char_of (n - 32)]
     else if n = 223 then ''SS'' else [c])"

definition upper :: "string \<Rightarrow> string" where
  "upper s = concat (map upper_char s)"

definition is_ascii :: "string \<Rightarrow> bool" where
  "is_ascii s = list_all (\<lambda>c. ord c < 128) s"

text \<open>\<open>binascii.Error\<close>, a \<open>ValueError\<close> of its own.\<close>

definition binascii_error :: exn where
  "binascii_error = OtherError ''binascii.Error''"

definition b32_digit :: "char \<Rightarrow> nat option" where
  "b32_digit c = (let n = of_char c :: nat in
     if 65 \<le> n \<and> n \<le> 90 then Some (n - 65) else if 50 \<le> n \<and> n \<le> 55 then Some (n - 24) else None)"

primrec b32_digits :: "nat \<Rightarrow> string \<Rightarrow> exn + nat" where
  "b32_digits acc [] = Inr acc"
| "b32_digits acc (c # cs) =
     (case b32_digit c of None \<Rightarrow> Inl binascii_error | Some d \<Rightarrow> b32_digits (32 * acc + d) cs)"

text \<open>\<open>base64.b32decode\<close>: groups of eight digits, five bytes each; padding cuts the last group.\<close>

definition b32decode :: "string \<Rightarrow> exn + string" where
  "b32decode s =
     (if \<not> is_ascii s then Inl ValueError
      else if length s mod 8 \<noteq> 0 then Inl binascii_error
      else
        let body = rev (dropWhile (\<lambda>c. c = CHR ''='') (rev s)); pads = length s - length body in
        bindR (mapR (b32_digits 0) (in_groups 8 body)) (\<lambda>accs.
          if pads \<notin> {0, 1, 3, 4, 6} then Inl binascii_error
          else
            let decoded = concat (map (be_bytes 5) accs) in
            Inr (if pads \<noteq> 0 \<and> decoded \<noteq> []
                 then take (length decoded - 5) decoded
                      @ take ((43 - 5 * pads) div 8) (be_bytes 5 (2 ^ (5 * pads) * last accs))
                 else decoded)))"

definition decode_secret :: "string \<Rightarrow> exn + string" where
  "decode_secret b32 =
     (let normalized = upper (strip b32)
      in b32decode (normalized @ replicate ((8 - length normalized mod 8) mod 8) (CHR ''='')))"

section \<open>Codes\<close>

definition step_seconds :: int where "step_seconds = 30"
definition code_digits :: nat where "code_digits = 6"
definition drift_steps :: int where "drift_steps = 1"

definition zfill :: "nat \<Rightarrow> string \<Rightarrow> string" where
  "zfill n s = replicate (n - length s) CHR ''0'' @ s"

definition byte_at :: "string \<Rightarrow> nat \<Rightarrow> int" where
  "byte_at d i = of_char (d ! i)"

text \<open>The dynamic truncation of a digest.\<close>

definition truncated :: "string \<Rightarrow> int" where
  "truncated digest =
     (let offset = nat (of_char (last digest) AND 0x0F)
      in push_bit 24 (byte_at digest offset AND 0x7F) OR push_bit 16 (byte_at digest (offset + 1) AND 0xFF)
         OR push_bit 8 (byte_at digest (offset + 2) AND 0xFF) OR (byte_at digest (offset + 3) AND 0xFF))"

definition struct_error :: exn where
  "struct_error = OtherError ''struct.error''"

definition hotp :: "string \<Rightarrow> int \<Rightarrow> nat \<Rightarrow> exn + string" where
  "hotp key counter digits =
     (if counter < 0 then Inl ValueError
      else if counter \<ge> 2 ^ 64 then Inl struct_error
      else Inr (zfill digits (str_of_int (truncated (hmac_sha1 key (be_bytes 8 (nat counter))) mod 10 ^ digits))))"

definition totp :: "string \<Rightarrow> int \<Rightarrow> int \<Rightarrow> nat \<Rightarrow> exn + string" where
  "totp key seconds step digits = hotp key (seconds div step) digits"

primrec matches_some :: "string \<Rightarrow> string \<Rightarrow> nat \<Rightarrow> bool \<Rightarrow> int list \<Rightarrow> exn + bool" where
  "matches_some token key digits matched [] = Inr matched"
| "matches_some token key digits matched (c # cs) =
     (if c < 0 then matches_some token key digits matched cs
      else bindR (hotp key c digits) (\<lambda>candidate. matches_some token key digits (matched \<or> token = candidate) cs))"

definition verify_token :: "string \<Rightarrow> string \<Rightarrow> int \<Rightarrow> int \<Rightarrow> int \<Rightarrow> nat \<Rightarrow> exn + bool" where
  "verify_token token key seconds drift step digits =
     (if \<not> is_ascii token then Inr False
      else matches_some token key digits False (map (\<lambda>delta. seconds div step + delta) [- drift..drift]))"

section \<open>The truncation is in range\<close>

text \<open>What the codes rely on is the length of the digest; SHA-1 gives it.\<close>

lemma or_bounds:
  fixes a b c d :: int
  assumes "0 \<le> a \<and> a < 2 ^ n" "0 \<le> b \<and> b < 2 ^ n" "0 \<le> c \<and> c < 2 ^ n" "0 \<le> d \<and> d < 2 ^ n"
  shows "0 \<le> a OR b OR c OR d \<and> a OR b OR c OR d < 2 ^ n"
  using assms by (auto intro!: OR_upper simp: or_nonnegative_int_iff)

locale keyed_digest =
  fixes mac :: "string \<Rightarrow> string \<Rightarrow> string"
  assumes mac_length: "length (mac key message) = 20"
begin

definition offset_of :: "string \<Rightarrow> string \<Rightarrow> nat" where
  "offset_of key message = nat (of_char (last (mac key message)) AND 0x0F)"

lemma offset_in_range: "offset_of key message + 3 < length (mac key message)"
proof -
  have "(of_char (last (mac key message)) AND 0x0F :: int) < 16"
    using AND_upper2'[of "0x0F :: int" 16 "of_char (last (mac key message))"] by simp
  then show ?thesis
    by (simp add: offset_of_def mac_length nat_less_iff)
qed

lemma code_bounds: "0 \<le> truncated (mac key message) \<and> truncated (mac key message) < 2 ^ 31"
proof -
  have byte: "0 \<le> byte_at d i AND 0xFF \<and> byte_at d i AND 0xFF < 256" "0 \<le> byte_at d i AND 0x7F \<and> byte_at d i AND 0x7F < 128" for d i
    using AND_upper2'[of "0xFF :: int" 256 "byte_at d i"] AND_upper2'[of "0x7F :: int" 128 "byte_at d i"] by simp_all
  have shift: "0 \<le> push_bit 24 (byte_at d i AND 0x7F) \<and> push_bit 24 (byte_at d i AND 0x7F) < 2 ^ 31"
    "0 \<le> push_bit 16 (byte_at d i AND 0xFF) \<and> push_bit 16 (byte_at d i AND 0xFF) < 2 ^ 31"
    "0 \<le> push_bit 8 (byte_at d i AND 0xFF) \<and> push_bit 8 (byte_at d i AND 0xFF) < 2 ^ 31"
    "0 \<le> byte_at d i AND 0xFF \<and> byte_at d i AND 0xFF < 2 ^ 31" for d i
    using byte[of d i] by (auto simp: push_bit_eq_mult)
  show ?thesis
    unfolding truncated_def Let_def by (rule or_bounds) (rule shift)+
qed

end

lemma hmac_length: "length (hmac_sha1 key message) = 20"
  by (simp add: hmac_sha1_def sha1_length Let_def)

interpretation totp_mac: keyed_digest hmac_sha1
  by unfold_locales (rule hmac_length)

lemma nat_digits_length: "n < 10 ^ Suc k \<Longrightarrow> length (nat_digits n) \<le> Suc k"
proof (induction k arbitrary: n)
  case 0
  then show ?case
    by (subst nat_digits.simps) simp
next
  case (Suc k)
  have "n div 10 < 10 ^ Suc k"
    using Suc.prems by (simp add: div_less_iff_less_mult)
  then show ?case
    using Suc.IH[of "n div 10"] by (subst nat_digits.simps) simp
qed

lemma value_of_zeros: "digits_val 0 (replicate n CHR ''0'' @ s) = digits_val 0 s"
  by (induction n) simp_all

lemma hotp_code:
  assumes "0 \<le> counter" "counter < 2 ^ 64" "0 < digits"
  shows "\<exists>code. hotp key counter digits = Inr code \<and> length code = digits \<and> list_all is_digit code
     \<and> int (digits_val 0 code) = truncated (hmac_sha1 key (be_bytes 8 (nat counter))) mod 10 ^ digits
     \<and> totp_mac.offset_of key (be_bytes 8 (nat counter)) + 3 < length (hmac_sha1 key (be_bytes 8 (nat counter)))"
proof -
  define v where "v = nat (truncated (hmac_sha1 key (be_bytes 8 (nat counter))) mod 10 ^ digits)"
  have v: "int v = truncated (hmac_sha1 key (be_bytes 8 (nat counter))) mod 10 ^ digits"
    by (simp add: v_def)
  then have "v < 10 ^ digits"
    by (metis of_nat_less_iff of_nat_numeral of_nat_power pos_mod_bound zero_less_numeral zero_less_power)
  then have len: "length (nat_digits v) \<le> digits"
    using nat_digits_length[of v "digits - 1"] assms(3) by simp
  have "hotp key counter digits = Inr (zfill digits (nat_digits v))"
    using assms(1,2) by (simp add: hotp_def str_of_int_def v[symmetric])
  moreover have "list_all is_digit (zfill digits (nat_digits v))"
    using nat_digits_digits[of v] by (auto simp: zfill_def list_all_iff is_digit_def Let_def)
  moreover have "digits_val 0 (zfill digits (nat_digits v)) = v"
    by (simp add: zfill_def value_of_zeros digits_val_nat_digits)
  ultimately show ?thesis
    using len v totp_mac.offset_in_range by (auto simp: zfill_def)
qed

text \<open>
  Below the end of the counter a code always exists: the truncation never reads past the digest, its value
  fits in 31 bits, and the code is exactly as many decimal digits as asked for, the value of the truncation
  in its last digits. A negative counter raises.
\<close>

theorem code_has_all_digits:
  assumes "0 \<le> counter" "counter < 2 ^ 64" "0 < digits"
  shows "\<exists>code. hotp key counter digits = Inr code \<and> length code = digits \<and> list_all is_digit code
     \<and> int (digits_val 0 code) = truncated (hmac_sha1 key (be_bytes 8 (nat counter))) mod 10 ^ digits
     \<and> totp_mac.offset_of key (be_bytes 8 (nat counter)) + 3 < length (hmac_sha1 key (be_bytes 8 (nat counter)))"
  using assms by (rule hotp_code)

section \<open>Which tokens are accepted\<close>

lemma matches_some_iff:
  "list_all (\<lambda>c. c < 2 ^ 64) cs \<Longrightarrow>
     matches_some token key digits m cs = Inr (m \<or> (\<exists>c\<in>set cs. 0 \<le> c \<and> hotp key c digits = Inr token))"
  by (induction cs arbitrary: m) (auto simp: hotp_def)

lemma digits_ascii: "list_all is_digit s \<Longrightarrow> is_ascii s"
  by (auto simp: is_ascii_def is_digit_def list_all_iff Let_def)

lemma verify_token_eq:
  assumes "0 < digits" "seconds div step + drift < 2 ^ 64"
  shows "verify_token token key seconds drift step digits =
     Inr (\<exists>c\<in>{seconds div step - drift..seconds div step + drift}. 0 \<le> c \<and> hotp key c digits = Inr token)"
proof (cases "is_ascii token")
  case True
  have "list_all (\<lambda>c. c < 2 ^ 64) (map (\<lambda>delta. seconds div step + delta) [- drift..drift])"
    using assms(2) by (auto simp: list_all_iff)
  note any = matches_some_iff[OF this]
  show ?thesis
    using True by (simp add: verify_token_def any add.commute)
next
  case False
  have "hotp key c digits \<noteq> Inr token" if "0 \<le> c" for c
  proof
    assume h: "hotp key c digits = Inr token"
    then have "c < 2 ^ 64"
      by (auto simp: hotp_def split: if_splits)
    then show False
      using hotp_code[OF that _ assms(1), of key] h False digits_ascii by auto
  qed
  then show ?thesis
    using False by (auto simp: verify_token_def)
qed

text \<open>
  C31: A token is accepted exactly when it is the code of the current window or of one at most one window away,
  and the check never raises before the counter overflows. So a code stays good for everybody whose clock is
  at most one step off, and of all texts only the codes of at most three counters are accepted.
\<close>

theorem token_accepted_iff:
  assumes "seconds div 30 + 1 < 2 ^ 64"
  shows "verify_token token key seconds drift_steps step_seconds code_digits =
       Inr (\<exists>c\<in>{seconds div 30 - 1..seconds div 30 + 1}. 0 \<le> c \<and> hotp key c 6 = Inr token)
     \<and> (0 \<le> t \<and> \<bar>seconds - t\<bar> \<le> 30 \<and> totp key t step_seconds code_digits = Inr token
          \<longrightarrow> verify_token token key seconds drift_steps step_seconds code_digits = Inr True)"
proof -
  have eq: "verify_token token key seconds drift_steps step_seconds code_digits =
       Inr (\<exists>c\<in>{seconds div 30 - 1..seconds div 30 + 1}. 0 \<le> c \<and> hotp key c 6 = Inr token)"
    using verify_token_eq[of code_digits seconds step_seconds drift_steps token key] assms
    by (simp add: code_digits_def step_seconds_def drift_steps_def)
  have "t div 30 \<in> {seconds div 30 - 1..seconds div 30 + 1}" if "\<bar>seconds - t\<bar> \<le> 30"
    using that by auto
  then show ?thesis
    unfolding eq by (auto simp: totp_def step_seconds_def code_digits_def pos_imp_zdiv_nonneg_iff intro!: bexI[of _ "t div 30"])
qed

section \<open>The secret of blanks\<close>

text \<open>A secret of white space decodes to the empty key, the one key everybody knows.\<close>

lemma blank_secret_is_empty_key: "strip b32 = [] \<Longrightarrow> decode_secret b32 = Inr []"
  by (simp add: decode_secret_def upper_def b32decode_def is_ascii_def)

section \<open>Witnesses\<close>

theorem code_has_all_digits_witness: "\<exists>code. hotp ''key'' 7 6 = Inr code \<and> length code = 6"
  using code_has_all_digits[of 7 6 "''key''"] by auto

theorem token_accepted_iff_witness:
  "\<exists>token. totp ''key'' 59 step_seconds code_digits = Inr token
     \<and> verify_token token ''key'' 80 drift_steps step_seconds code_digits = Inr True"
proof -
  obtain token where t: "totp ''key'' 59 step_seconds code_digits = Inr token"
    using hotp_code[of 1 6 "''key''"] by (auto simp: totp_def step_seconds_def code_digits_def)
  have "(80 :: int) div 30 + 1 < 2 ^ 64"
    by simp
  from conjunct2[OF token_accepted_iff[OF this, of token "''key''" 59]] show ?thesis
    using t by auto
qed

end
