(* ===== verification/Note_Server.thy ===== *)
theory Note_Server
  imports Totp Artifact_Store
begin

text \<open>
  Model of the note server, \<open>src/note_server/config.py\<close>, \<open>writer.py\<close> and the handler of \<open>server.py\<close>: its
  configuration, the names a note may get, the write that never overwrites, and the one operation a remote
  caller has. The disk is the one of \<open>Artifact_Store\<close>; the faults of the operating system and the clock are
  arguments. The lemmas show who can write what and where, and which name a note gets.
\<close>

section \<open>Configuration\<close>

record note_config =
  nc_folder :: path
  nc_host :: string
  nc_port :: int
  nc_key :: string

definition required :: "(string \<Rightarrow> string option) \<Rightarrow> string \<Rightarrow> exn + string" where
  "required env k = (case env k of Some v \<Rightarrow> if v = [] then Inl ConfigError else Inr v | None \<Rightarrow> Inl ConfigError)"

definition note_from_env :: "disk \<Rightarrow> (string \<Rightarrow> string option) \<Rightarrow> exn + note_config" where
  "note_from_env d env =
     bindR (required env ''NOTE_SERVER_FOLDER'') (\<lambda>folder.
       if \<not> is_dir_at d (task_parts folder) then Inl ConfigError
       else
     bindR (required env ''NOTE_SERVER_HOST'') (\<lambda>host.
     bindR (required env ''NOTE_SERVER_PORT'') (\<lambda>port_raw.
       case py_int port_raw of
         None \<Rightarrow> Inl ConfigError
       | Some port \<Rightarrow>
           if \<not> (1 \<le> port \<and> port \<le> 65535) then Inl ConfigError
           else
     bindR (required env ''NOTE_SERVER_TOTP_SECRET'') (\<lambda>secret_raw.
       case decode_secret secret_raw of
         Inl e \<Rightarrow> Inl (if e = binascii_error then ConfigError else e)
       | Inr key \<Rightarrow> Inr \<lparr>nc_folder = task_parts folder, nc_host = host, nc_port = port, nc_key = key\<rparr>))))"

section \<open>The writer\<close>

definition project_char :: "char \<Rightarrow> bool" where
  "project_char c = (let n = ord c in
     65 \<le> n \<and> n \<le> 90 \<or> 97 \<le> n \<and> n \<le> 122 \<or> is_digit c \<or> c = CHR ''_'' \<or> c = CHR ''-'')"

definition validate_project_name :: "string \<Rightarrow> bool" where
  "validate_project_name name = (name \<noteq> [] \<and> list_all project_char name)"

definition max_dedup_attempts :: nat where
  "max_dedup_attempts = 10000"

definition candidate_names :: "string \<Rightarrow> nat \<Rightarrow> string list" where
  "candidate_names name limit =
     (name @ ''.md'') # map (\<lambda>i. name @ ''-'' @ str_of_nat i @ ''.md'') [2..<limit + 1]"

text \<open>
  \<open>Path.resolve\<close>: links are followed, a component that does not exist is kept. The number of links left and
  the real path; a loop raises.
\<close>

fun realpath_from :: "nat \<Rightarrow> disk \<Rightarrow> path \<Rightarrow> path \<Rightarrow> exn + nat \<times> path" where
  "realpath_from n d cur [] = Inr (n, cur)"
| "realpath_from n d cur (c # cs) =
     (if c = ''..'' then realpath_from n d (butlast cur) cs
      else (case d (cur @ [c]) of
          Some (Link t) \<Rightarrow>
            (case n of 0 \<Rightarrow> Inl (RuntimeError ''Symlink loop'') | Suc m \<Rightarrow> realpath_from m d [] (t @ cs))
        | _ \<Rightarrow> realpath_from n d (cur @ [c]) cs))"

definition realpath :: "disk \<Rightarrow> path \<Rightarrow> exn + path" where
  "realpath d p = bindR (realpath_from max_links d [] p) (\<lambda>(_, q). Inr q)"

text \<open>
  The faults of the system at a path: creating a file fails although the name is free; writing raises; what
  the file holds after a write that raised; removing it fails.
\<close>

record note_faults =
  nf_open :: "path \<Rightarrow> bool"
  nf_write :: "path \<Rightarrow> exn option"
  nf_partial :: "path \<Rightarrow> string"
  nf_unlink :: "path \<Rightarrow> bool"

definition write_error :: exn where
  "write_error = OtherError ''WriteError''"

definition project_name_error :: exn where
  "project_name_error = OtherError ''ProjectNameError''"

definition fill_note :: "note_faults \<Rightarrow> disk \<Rightarrow> path \<Rightarrow> string \<Rightarrow> (exn + unit) \<times> disk" where
  "fill_note os d p content =
     (case nf_write os p of
        None \<Rightarrow> (Inr (), d(p \<mapsto> Reg (utf8_encode content)))
      | Some e \<Rightarrow>
          if e = OSError
          then (Inl write_error, if nf_unlink os p then d(p \<mapsto> Reg (nf_partial os p)) else d)
          else (Inl e, d(p \<mapsto> Reg (nf_partial os p))))"

primrec try_names :: "note_faults \<Rightarrow> disk \<Rightarrow> path \<Rightarrow> string \<Rightarrow> string list \<Rightarrow> (exn + string) \<times> disk" where
  "try_names os d base content [] = (Inl write_error, d)"
| "try_names os d base content (c # cs) =
     (case realpath d (base @ [c]) of
        Inl e \<Rightarrow> (Inl e, d)
      | Inr p \<Rightarrow>
          if p = [] \<or> butlast p \<noteq> base then (Inl write_error, d)
          else if d p \<noteq> None then try_names os d base content cs
          else if nf_open os p \<or> \<not> is_directory d base then (Inl write_error, d)
          else (case fill_note os d p content of (Inl e, d') \<Rightarrow> (Inl e, d') | (Inr _, d') \<Rightarrow> (Inr c, d')))"

definition write_note :: "note_faults \<Rightarrow> disk \<Rightarrow> path \<Rightarrow> string \<Rightarrow> string \<Rightarrow> nat \<Rightarrow> (exn + string) \<times> disk" where
  "write_note os d folder name content limit =
     (if \<not> validate_project_name name then (Inl project_name_error, d)
      else (case realpath d folder of
          Inl e \<Rightarrow> (Inl e, d)
        | Inr base \<Rightarrow> try_names os d base content (candidate_names name limit)))"

section \<open>The handler\<close>

definition auth_failed :: string where
  "auth_failed = ''Error: authentication failed - TOTP token invalid for the current time window.''"

definition bad_name :: string where
  "bad_name = ''Error: invalid project_name - must match ^[A-Za-z0-9_-]+$ (letters, digits, underscore, hyphen only; no dots, slashes, or spaces).''"

definition write_failed :: string where
  "write_failed = ''Error: write failed - the note could not be saved.''"

definition saved_as :: "string \<Rightarrow> string" where
  "saved_as filename = ''Saved note as '' @ filename"

definition token_ok :: "note_config \<Rightarrow> string \<Rightarrow> int \<Rightarrow> exn + bool" where
  "token_ok cfg token now = verify_token token (nc_key cfg) now drift_steps step_seconds code_digits"

definition handle_save_note ::
  "note_faults \<Rightarrow> note_config \<Rightarrow> string \<Rightarrow> string \<Rightarrow> string \<Rightarrow> int \<Rightarrow> disk \<Rightarrow> (exn + string) \<times> disk" where
  "handle_save_note os cfg token name content now d =
     (case token_ok cfg token now of
        Inl e \<Rightarrow> (Inl e, d)
      | Inr ok \<Rightarrow>
          if \<not> ok then (Inr auth_failed, d)
          else if \<not> validate_project_name name then (Inr bad_name, d)
          else (case write_note os d (nc_folder cfg) name content max_dedup_attempts of
              (Inl e, d') \<Rightarrow> (if e = write_error then Inr write_failed else Inl e, d')
            | (Inr f, d') \<Rightarrow> (Inr (saved_as f), d')))"

section \<open>Who writes what\<close>

text \<open>The disk is as it was, but for at most one new file directly in \<open>base\<close>.\<close>

definition one_new_file :: "disk \<Rightarrow> disk \<Rightarrow> path \<Rightarrow> bool" where
  "one_new_file d d' base \<longleftrightarrow> d' = d \<or> (\<exists>p b. d p = None \<and> p \<noteq> [] \<and> butlast p = base \<and> d' = d(p \<mapsto> Reg b))"

lemma fill_one_new:
  assumes "fill_note os d p content = (r, d')" "d p = None" "p \<noteq> []"
  shows "one_new_file d d' (butlast p)"
  using assms unfolding fill_note_def one_new_file_def by (cases "nf_write os p") (auto split: if_splits)

lemma try_names_one_new:
  "try_names os d base content cs = (r, d') \<Longrightarrow> one_new_file d d' base \<and> (\<forall>c. r = Inr c \<longrightarrow> c \<in> set cs)"
proof (induction cs)
  case (Cons c cs)
  show ?case
  proof (cases "realpath d (base @ [c])")
    case (Inl e)
    then show ?thesis
      using Cons.prems by (auto simp: one_new_file_def)
  next
    case (Inr p)
    show ?thesis
    proof (cases "p = [] \<or> butlast p \<noteq> base \<or> d p \<noteq> None \<or> nf_open os p \<or> \<not> is_directory d base")
      case True
      then show ?thesis
        using Cons Inr by (auto simp: one_new_file_def split: if_splits)
    next
      case False
      obtain q e where q: "fill_note os d p content = (q, e)"
        by (cases "fill_note os d p content")
      then have "one_new_file d e base"
        using fill_one_new[OF q] False by simp
      then show ?thesis
        using Cons.prems Inr False q by (auto split: sum.splits)
    qed
  qed
qed (auto simp: one_new_file_def)

text \<open>
  C30: A caller changes the disk only with a valid token and a name of letters, digits, hyphens and underscores,
  and then by at most one new file directly in the resolved notes folder: nothing that exists is overwritten,
  moved or removed, whatever the system does. The answers are three fixed texts and the name of the note, so
  none tells the path of the folder.
\<close>

theorem save_note_is_confined:
  assumes "handle_save_note os cfg token name content now d = (r, d')"
  shows "(d' \<noteq> d \<longrightarrow> token_ok cfg token now = Inr True \<and> validate_project_name name
            \<and> (\<exists>base. realpath d (nc_folder cfg) = Inr base \<and> one_new_file d d' base))
     \<and> (\<forall>m. r = Inr m \<longrightarrow> m \<in> {auth_failed, bad_name, write_failed} \<union> saved_as ` set (candidate_names name max_dedup_attempts))"
proof (cases "token_ok cfg token now = Inr True \<and> validate_project_name name")
  case False
  then show ?thesis
    using assms by (auto simp: handle_save_note_def split: sum.splits if_splits)
next
  case True
  obtain q e where q: "write_note os d (nc_folder cfg) name content max_dedup_attempts = (q, e)"
    by (cases "write_note os d (nc_folder cfg) name content max_dedup_attempts")
  then have "(e \<noteq> d \<longrightarrow> (\<exists>base. realpath d (nc_folder cfg) = Inr base \<and> one_new_file d e base))
      \<and> (\<forall>c. q = Inr c \<longrightarrow> c \<in> set (candidate_names name max_dedup_attempts))"
    using True try_names_one_new by (fastforce simp: write_note_def split: sum.splits)
  moreover have "d' = e" "r = (case q of Inl x \<Rightarrow> if x = write_error then Inr write_failed else Inl x | Inr f \<Rightarrow> Inr (saved_as f))"
    using assms True q by (auto simp: handle_save_note_def split: sum.splits)
  ultimately show ?thesis
    using True by (auto split: sum.splits if_splits)
qed

section \<open>Which name a note gets\<close>

definition no_faults :: note_faults where
  "no_faults = \<lparr>nf_open = (\<lambda>_. False), nf_write = (\<lambda>_. None), nf_partial = (\<lambda>_. []), nf_unlink = (\<lambda>_. False)\<rparr>"

lemma realpath_append:
  "realpath_from n d cur (p @ q) = bindR (realpath_from n d cur p) (\<lambda>(m, r). realpath_from m d r q)"
  by (induction n d cur p rule: realpath_from.induct) (auto split: option.split fnode.split nat.split)

lemma realpath_child:
  assumes "realpath d base = Inr base" "c \<noteq> ''..''" "\<And>l. d (base @ [c]) \<noteq> Some (Link l)"
  shows "realpath d (base @ [c]) = Inr (base @ [c])"
proof -
  obtain m where "realpath_from max_links d [] base = Inr (m, base)"
    using assms(1) by (auto simp: realpath_def bindR_Inr_iff)
  moreover have "realpath_from m d base [c] = Inr (m, base @ [c])"
    using assms(2,3) by (auto split: option.split fnode.split)
  ultimately show ?thesis
    by (simp add: realpath_def realpath_append)
qed

lemma candidate_not_dots: "c \<in> set (candidate_names name limit) \<Longrightarrow> c \<noteq> ''..''"
proof
  assume c: "c \<in> set (candidate_names name limit)" "c = ''..''"
  then obtain s where "''..'' = s @ ''.md''"
    by (auto simp: candidate_names_def)
  then have "length ''..'' = length s + length ''.md''"
    by (metis length_append)
  then show False
    by simp
qed

text \<open>The folder is a real directory none of whose entries is a link.\<close>

definition plain_folder :: "disk \<Rightarrow> path \<Rightarrow> path \<Rightarrow> bool" where
  "plain_folder d folder base \<longleftrightarrow> realpath d folder = Inr base \<and> realpath d base = Inr base \<and> is_directory d base
     \<and> (\<forall>c l. d (base @ [c]) \<noteq> Some (Link l))"

lemma try_names_first_free:
  assumes "plain_folder d folder base"
  shows "''..'' \<notin> set cs \<Longrightarrow> try_names no_faults d base content cs =
     (case find (\<lambda>c. d (base @ [c]) = None) cs of
        None \<Rightarrow> (Inl write_error, d)
      | Some c \<Rightarrow> (Inr c, d(base @ [c] \<mapsto> Reg (utf8_encode content))))"
proof (induction cs)
  case (Cons c cs)
  have "realpath d (base @ [c]) = Inr (base @ [c])"
    using realpath_child[of d base c] assms Cons.prems by (auto simp: plain_folder_def)
  then show ?case
    using Cons assms by (auto simp: plain_folder_def no_faults_def fill_note_def)
qed simp

text \<open>
  On a working disk a valid call saves the content, byte for byte, under the first of its names that no
  file has: the name itself, then the name with 2, 3 and so on; the answer names that file. When all ten
  thousand are taken nothing is written and the answer says so.
\<close>

theorem note_gets_first_free_name:
  assumes "token_ok cfg token now = Inr True" "validate_project_name name" "plain_folder d (nc_folder cfg) base"
  shows "handle_save_note no_faults cfg token name content now d =
     (case find (\<lambda>c. d (base @ [c]) = None) (candidate_names name max_dedup_attempts) of
        None \<Rightarrow> (Inr write_failed, d)
      | Some c \<Rightarrow> (Inr (saved_as c), d(base @ [c] \<mapsto> Reg (utf8_encode content))))"
proof -
  have "realpath d (nc_folder cfg) = Inr base"
    using assms(3) by (simp add: plain_folder_def)
  moreover have "''..'' \<notin> set (candidate_names name max_dedup_attempts)"
    using candidate_not_dots by metis
  ultimately show ?thesis
    using assms(1,2) try_names_first_free[OF assms(3)] by (auto simp: handle_save_note_def write_note_def split: option.split)
qed

section \<open>What slips through\<close>

text \<open>
  A secret of blanks passes the configuration and is the empty key; a content the encoder refuses raises out
  of the handler and leaves its empty file behind, which takes the name.
\<close>

lemma blank_secret_is_accepted:
  assumes "is_dir_at d (task_parts folder)" "folder \<noteq> []"
  shows "note_from_env d (map_of [(''NOTE_SERVER_FOLDER'', folder), (''NOTE_SERVER_HOST'', ''h''), (''NOTE_SERVER_PORT'', ''80''),
     (''NOTE_SERVER_TOTP_SECRET'', '' '')]) = Inr \<lparr>nc_folder = task_parts folder, nc_host = ''h'', nc_port = 80, nc_key = []\<rparr>"
proof -
  have "decode_secret '' '' = Inr []" "py_int ''80'' = Some 80"
    by code_simp+
  then show ?thesis
    using assms by (simp add: note_from_env_def required_def)
qed

lemma unencodable_note_leaves_file:
  assumes "token_ok cfg token now = Inr True" "validate_project_name name" "plain_folder d (nc_folder cfg) base"
    and "d (base @ [name @ ''.md'']) = None" "nf_write os (base @ [name @ ''.md'']) = Some ValueError" "\<not> nf_open os (base @ [name @ ''.md''])"
  shows "handle_save_note os cfg token name content now d
     = (Inl ValueError, d(base @ [name @ ''.md''] \<mapsto> Reg (nf_partial os (base @ [name @ ''.md'']))))"
proof -
  have "name @ ''.md'' \<noteq> ''..''"
    using candidate_not_dots[of "name @ ''.md''" name 0] by (simp add: candidate_names_def)
  then have "realpath d (base @ [name @ ''.md'']) = Inr (base @ [name @ ''.md''])"
    using realpath_child[of d base] assms(3) by (auto simp: plain_folder_def)
  then show ?thesis
    using assms by (auto simp: handle_save_note_def write_note_def plain_folder_def candidate_names_def fill_note_def write_error_def
        simp del: upt_Suc)
qed

section \<open>Witnesses\<close>

definition demo_notes :: disk where
  "demo_notes p = (if p = [''n''] then Some Dir else if p = [''n'', ''a.md''] then Some (Reg ''old'') else None)"

definition demo_note_config :: note_config where
  "demo_note_config = \<lparr>nc_folder = [''n''], nc_host = ''h'', nc_port = 80, nc_key = ''key''\<rparr>"

lemma demo_folder: "plain_folder demo_notes (nc_folder demo_note_config) [''n'']"
proof -
  have "realpath demo_notes [''n''] = Inr [''n'']"
    by code_simp
  then show ?thesis
    by (simp add: plain_folder_def demo_note_config_def is_directory_def demo_notes_def)
qed

lemma demo_token: "\<exists>token. token_ok demo_note_config token 59 = Inr True"
proof -
  obtain token where "hotp ''key'' 1 6 = Inr token"
    using hotp_code[of 1 6 "''key''"] by auto
  then have "token_ok demo_note_config token 59 = Inr True"
    using verify_token_eq[of 6 59 30 1 token "''key''"]
    by (auto simp: token_ok_def demo_note_config_def drift_steps_def step_seconds_def code_digits_def intro!: bexI[of _ 1])
  then show ?thesis ..
qed

theorem note_gets_first_free_name_witness:
  "\<exists>token. handle_save_note no_faults demo_note_config token ''a'' ''x'' 59 demo_notes
     = (Inr (saved_as ''a-2.md''), demo_notes([''n'', ''a-2.md''] \<mapsto> Reg (utf8_encode ''x'')))"
proof -
  obtain token where t: "token_ok demo_note_config token 59 = Inr True"
    using demo_token by blast
  have name: "validate_project_name ''a''"
    by code_simp
  have two: "str_of_nat 2 = ''2''"
    by code_simp
  have "[2..<max_dedup_attempts + 1] = 2 # [Suc 2..<max_dedup_attempts + 1]"
    by (rule upt_conv_Cons) (simp add: max_dedup_attempts_def)
  then obtain rest where rest: "candidate_names ''a'' max_dedup_attempts = ''a.md'' # ''a-2.md'' # rest"
    using two by (simp add: candidate_names_def del: upt_Suc)
  have "find (\<lambda>c. demo_notes ([''n''] @ [c]) = None) (candidate_names ''a'' max_dedup_attempts) = Some ''a-2.md''"
    unfolding rest by (simp add: demo_notes_def)
  then show ?thesis
    using note_gets_first_free_name[OF t name demo_folder, of "''x''"] by auto
qed

theorem save_note_is_confined_witness:
  "\<exists>token d'. snd (handle_save_note no_faults demo_note_config token ''a'' ''x'' 59 demo_notes) = d'
     \<and> d' [''n'', ''a.md''] = Some (Reg ''old'')"
proof -
  obtain token r d' where h: "handle_save_note no_faults demo_note_config token ''a'' ''x'' 59 demo_notes = (r, d')"
    by (metis prod.collapse)
  then have "d' [''n'', ''a.md''] = demo_notes [''n'', ''a.md'']"
    using save_note_is_confined[OF h] by (auto simp: one_new_file_def demo_notes_def)
  then show ?thesis
    using h by (auto simp: demo_notes_def intro!: exI[of _ token])
qed

end
