(* ===== verification/Remote_Ask.thy ===== *)
theory Remote_Ask
  imports Json
begin

text \<open>
  Model of \<open>src/orchestrator/remote_ask.py\<close>: a question of a gate as a file, and the wait for the file with its
  answer. Anybody with access to the directory writes answers, at any time: what the others do between two
  looks is an argument, as are the readings of the clock and the fate of the notification. The file of the
  answer is its text, as far as it can be read. The wait is bounded by the clock alone, so the loop has fuel;
  as many looks as the clock takes to reach the deadline are enough.
\<close>

section \<open>The protocol\<close>

datatype answer_file = NoAnswer | Unreadable | Answer string

record ask_files =
  af_question :: "string option"
  af_answer :: answer_file

text \<open>
  The environment of a question: reading \<open>k\<close> of the clock; what the others do to the file of the answer
  before look \<open>k\<close>; the exception the notification raises, if any; the printer of the question.
\<close>

record ask_env =
  ae_clock :: "nat \<Rightarrow> int"
  ae_others :: "nat \<Rightarrow> answer_file \<Rightarrow> answer_file"
  ae_post :: "string \<Rightarrow> exn option"
  ae_dump :: "json \<Rightarrow> string"
  ae_load :: "string \<Rightarrow> json option"

definition remote_ask_timeout :: exn where
  "remote_ask_timeout = OtherError ''RemoteAskTimeout''"

definition read_answer :: "ask_env \<Rightarrow> string \<Rightarrow> answer_file \<Rightarrow> exn + string option \<times> answer_file" where
  "read_answer env qid f =
     (case f of
        Answer t \<Rightarrow>
          (case ae_load env t of
             None \<Rightarrow> Inr (None, f)
           | Some (JObj e) \<Rightarrow>
               (case dget e ''answer'' of
                  JStr a \<Rightarrow> if dget e ''id'' = JStr qid then Inr (Some a, f) else Inr (None, NoAnswer)
                | _ \<Rightarrow> Inr (None, NoAnswer))
           | Some _ \<Rightarrow> Inl AttributeError)
      | _ \<Rightarrow> Inr (None, f))"

primrec poll :: "nat \<Rightarrow> ask_env \<Rightarrow> string \<Rightarrow> int \<Rightarrow> nat \<Rightarrow> answer_file \<Rightarrow> (exn + string) option" where
  "poll 0 env qid deadline k f = None"
| "poll (Suc n) env qid deadline k f =
     (case read_answer env qid (ae_others env k f) of
        Inl e \<Rightarrow> Some (Inl e)
      | Inr (Some a, _) \<Rightarrow> Some (Inr a)
      | Inr (None, f') \<Rightarrow>
          if ae_clock env (Suc k) \<ge> deadline then Some (Inl remote_ask_timeout)
          else poll n env qid deadline (Suc k) f')"

definition question_json :: "string \<Rightarrow> string \<Rightarrow> string \<Rightarrow> json" where
  "question_json task qid question = JObj [(''task'', JStr task), (''id'', JStr qid), (''question'', JStr question)]"

definition question_text :: "ask_env \<Rightarrow> string \<Rightarrow> string \<Rightarrow> string \<Rightarrow> string" where
  "question_text env task qid question = ae_dump env (question_json task qid question) @ [CHR 0x0A]"

definition notify_text :: "string \<Rightarrow> string \<Rightarrow> string" where
  "notify_text task question = task @ '': QUESTION: '' @ question"

definition ask_notify :: "ask_env \<Rightarrow> string option \<Rightarrow> string \<Rightarrow> string \<Rightarrow> exn + unit" where
  "ask_notify env topic task question =
     (case topic of
        None \<Rightarrow> Inr ()
      | Some t \<Rightarrow>
          if t = [] then Inr ()
          else (case ae_post env (notify_text task question) of
              None \<Rightarrow> Inr () | Some e \<Rightarrow> if e = OSError then Inr () else Inl e))"

text \<open>The removal of what an earlier question left, the question, the notification, the wait, the removal of both.\<close>

definition remote_ask ::
  "nat \<Rightarrow> ask_env \<Rightarrow> string option \<Rightarrow> string \<Rightarrow> string \<Rightarrow> int \<Rightarrow> string \<Rightarrow> ask_files \<Rightarrow> ((exn + string) \<times> ask_files) option" where
  "remote_ask fuel env topic task qid timeout question s =
     (let asked = s\<lparr>af_answer := NoAnswer,
                    af_question := Some (question_text env task qid question)\<rparr>
      in case ask_notify env topic task question of
           Inl e \<Rightarrow> Some (Inl e, asked)
         | Inr _ \<Rightarrow>
             map_option (\<lambda>r. (r, asked\<lparr>af_question := None, af_answer := NoAnswer\<rparr>))
               (poll fuel env qid (ae_clock env 0 + timeout) 0 NoAnswer))"

section \<open>Only an addressed answer counts\<close>

text \<open>A file that answers the question with the given id.\<close>

definition answers :: "ask_env \<Rightarrow> string \<Rightarrow> string \<Rightarrow> answer_file \<Rightarrow> bool" where
  "answers env qid a f \<longleftrightarrow> (\<exists>t e. f = Answer t \<and> ae_load env t = Some (JObj e) \<and> dget e ''id'' = JStr qid \<and> dget e ''answer'' = JStr a)"

lemma read_answer_addressed: "read_answer env qid f = Inr (Some a, f') \<Longrightarrow> answers env qid a f"
  by (auto simp: read_answer_def answers_def split: answer_file.splits option.splits json.splits if_splits)

lemma read_answer_keeps: "read_answer env qid f = Inr (None, f') \<Longrightarrow> f' = f \<or> f' = NoAnswer"
  by (auto simp: read_answer_def split: answer_file.splits option.splits json.splits if_splits)

lemma poll_addressed: "poll n env qid deadline k f = Some (Inr a) \<Longrightarrow> \<exists>j g. k \<le> j \<and> answers env qid a (ae_others env j g)"
proof (induction n arbitrary: k f)
  case (Suc n)
  show ?case
  proof (cases "read_answer env qid (ae_others env k f)")
    case (Inr r)
    obtain x f' where r: "r = (x, f')"
      by (cases r)
    show ?thesis
    proof (cases x)
      case None
      then have "poll n env qid deadline (Suc k) f' = Some (Inr a)"
        using Suc.prems Inr r by (auto split: if_splits)
      from Suc.IH[OF this] show ?thesis
        using Suc_leD by blast
    next
      case (Some b)
      then have "answers env qid a (ae_others env k f)"
        using Suc.prems Inr r read_answer_addressed by simp
      then show ?thesis
        by blast
    qed
  qed (use Suc.prems in simp)
qed simp

lemma poll_ends: "k \<le> j \<Longrightarrow> deadline \<le> ae_clock env (Suc j) \<Longrightarrow> j - k < n \<Longrightarrow> poll n env qid deadline k f \<noteq> None"
proof (induction n arbitrary: k f)
  case (Suc n)
  show ?case
  proof (cases "k = j")
    case True
    then show ?thesis
      using Suc.prems(2) by (auto split: sum.split prod.split option.split)
  next
    case False
    then have "poll n env qid deadline (Suc k) f' \<noteq> None" for f'
      using Suc.IH[of "Suc k" f'] Suc.prems by simp
    then show ?thesis
      by (auto split: sum.split prod.split option.split)
  qed
qed simp

text \<open>
  A question is answered only by an answer to it: what is returned was in a file that names the identifier
  of this question, written after the question; whatever an earlier question left in the directory has no
  influence. However the wait ends, by an answer, by the deadline or by an unusable file, both files are gone
  afterwards; and it ends at the first look at which the clock has reached the deadline, if not before.
\<close>

theorem answer_is_addressed:
  assumes "ask_notify env topic task question = Inr ()"
  shows "(remote_ask fuel env topic task qid timeout question s = Some (r, s') \<longrightarrow>
            af_question s' = None \<and> af_answer s' = NoAnswer \<and> (\<forall>a. r = Inr a \<longrightarrow> (\<exists>j g. answers env qid a (ae_others env j g))))
       \<and> map_option fst (remote_ask fuel env topic task qid timeout question s)
           = map_option fst (remote_ask fuel env topic task qid timeout question s0)
       \<and> (ae_clock env 0 + timeout \<le> ae_clock env (Suc j) \<and> j < fuel \<longrightarrow>
            (\<exists>r s'. remote_ask fuel env topic task qid timeout question s = Some (r, s')))"
  using assms poll_addressed[of fuel env qid "ae_clock env 0 + timeout" 0 NoAnswer]
    poll_ends[of 0 j "ae_clock env 0 + timeout" env fuel qid NoAnswer]
  by (auto simp: remote_ask_def option.map_comp comp_def)

section \<open>What ends a gate early\<close>

text \<open>
  A file that is valid JSON but no object ends the wait with an exception, whatever the identifier: the
  handler around the reader catches other exceptions.
\<close>

lemma odd_answer_ends_gate:
  assumes "ask_notify env topic task question = Inr ()" "ae_others env 0 NoAnswer = Answer t" "ae_load env t = Some (JInt n)"
  shows "\<exists>s'. remote_ask (Suc fuel) env topic task qid timeout question s = Some (Inl AttributeError, s')"
  using assms by (auto simp: remote_ask_def read_answer_def)

text \<open>A notification that fails with anything but an \<open>OSError\<close> ends the gate and leaves the question in place.\<close>

lemma failed_notification_leaves_question:
  assumes "ae_post env (notify_text task question) = Some ValueError" "topic = Some t" "t \<noteq> []"
  shows "\<exists>s'. remote_ask fuel env topic task qid timeout question s = Some (Inl ValueError, s') \<and> af_question s' \<noteq> None"
  using assms by (auto simp: remote_ask_def ask_notify_def)

section \<open>Witnesses\<close>

text \<open>The answer comes before the second look; the first finds a leftover for another question.\<close>

definition demo_ask :: ask_env where
  "demo_ask = \<lparr>ae_clock = int, ae_others = (\<lambda>k _. Answer (if k = 0 then ''old'' else ''new'')), ae_post = (\<lambda>_. None),
     ae_dump = (\<lambda>_. []),
     ae_load = (\<lambda>t. Some (JObj [(''id'', JStr (if t = ''new'' then ''q2'' else ''q1'')), (''answer'', JStr t)]))\<rparr>"

definition demo_ask_files :: ask_files where
  "demo_ask_files = \<lparr>af_question = None, af_answer = Answer ''old''\<rparr>"

lemma demo_ask_run:
  "remote_ask 5 demo_ask None ''t'' ''q2'' 100 ''Why?'' demo_ask_files
     = Some (Inr ''new'', \<lparr>af_question = None, af_answer = NoAnswer\<rparr>)"
  by code_simp

theorem answer_is_addressed_witness:
  "\<exists>j g. answers demo_ask ''q2'' ''new'' (ae_others demo_ask j g)"
proof -
  have "ask_notify demo_ask None ''t'' ''Why?'' = Inr ()"
    by (simp add: ask_notify_def)
  from answer_is_addressed[OF this, of 5 "''q2''" 100 demo_ask_files] show ?thesis
    using demo_ask_run by auto
qed

end
