(* ===== verification/Monitor_Classify.thy ===== *)
theory Monitor_Classify
  imports Json "HOL-Library.Sublist" "HOL-Library.AList"
begin

text \<open>
  Model of \<open>src/monitoring/loop_monitor/classify.py\<close> and \<open>events.py\<close>: what the monitor keeps of a process and of
  a hook of an agent. Both see data of other programs, arguments and payloads with secrets in them, and must
  reduce it to closed categories and short safe texts. The lemmas show that nothing else gets out, and how
  the set of active subagents evolves. A path is a text; the JSON library, the reading of a number as a
  time and the clock are arguments. The socket of the hooks and its thread are not modelled.
\<close>

section \<open>Texts\<close>

definition safe_task_char :: "char \<Rightarrow> bool" where
  "safe_task_char c = (let n = ord c in
     65 \<le> n \<and> n \<le> 90 \<or> 97 \<le> n \<and> n \<le> 122 \<or> is_digit c \<or> c \<in> {CHR ''.'', CHR ''_'', CHR ''-''})"

definition safe_task :: "string \<Rightarrow> bool" where
  "safe_task t = (t \<noteq> [] \<and> length t \<le> 80 \<and> list_all safe_task_char t)"

text \<open>\<open>Path(s).name\<close>: the last component, the empty text when there is none.\<close>

definition path_name :: "string \<Rightarrow> string" where
  "path_name s =
     (case rev (filter (\<lambda>c. c \<noteq> [] \<and> c \<noteq> ''.'') (split_on CHR ''/'' s)) of [] \<Rightarrow> [] | c # _ \<Rightarrow> c)"

definition ends_with :: "string \<Rightarrow> string \<Rightarrow> bool" where
  "ends_with x s = suffix x s"

definition remove_suffix :: "string \<Rightarrow> string \<Rightarrow> string" where
  "remove_suffix x s = (if suffix x s \<and> x \<noteq> [] then take (length s - length x) s else s)"

definition contains_any :: "string \<Rightarrow> string list \<Rightarrow> bool" where
  "contains_any txt' needles = list_ex (\<lambda>n. sublist n txt') needles"

section \<open>Processes\<close>

record identity =
  pi_category :: string
  pi_operation :: string
  pi_vendor :: "string option"
  pi_task :: "string option"
  pi_repo :: "string option"
  pi_helper :: bool

definition repo_name :: "string option \<Rightarrow> string option" where
  "repo_name cwd =
     (case cwd of
        None \<Rightarrow> None
      | Some d \<Rightarrow> if d = [] \<or> prefix ''['' d then None else if safe_task (path_name d) then Some (path_name d) else None)"

primrec task_after :: "string list \<Rightarrow> string \<Rightarrow> string option" where
  "task_after [] marker = None"
| "task_after (a # as) marker =
     (if a = marker then (case as of [] \<Rightarrow> None | t # _ \<Rightarrow> if safe_task t then Some t else None)
      else task_after as marker)"

definition tool_matches :: "string \<Rightarrow> string \<Rightarrow> bool" where
  "tool_matches lowered tool =
     (let stem = remove_suffix ''.cjs'' (remove_suffix ''.mjs'' (remove_suffix ''.js'' (path_name lowered)))
      in stem = tool \<or> prefix (tool @ ''-'') stem \<or> sublist (''/'' @ tool @ ''/'') lowered \<or> sublist (''/'' @ tool @ ''.'') lowered)"

definition has_tool :: "string list \<Rightarrow> string list \<Rightarrow> bool" where
  "has_tool argv tools = list_ex (\<lambda>token. list_ex (tool_matches (lower token)) tools) argv"

text \<open>Whether \<open>-m\<close> and one of some modules stand next to each other.\<close>

fun runs_module :: "string list \<Rightarrow> string list \<Rightarrow> bool" where
  "runs_module (a # b # as) modules = (a = ''-m'' \<and> lower b \<in> set modules \<or> runs_module (b # as) modules)"
| "runs_module _ modules = False"

definition plain_identity :: "string \<Rightarrow> string \<Rightarrow> string option \<Rightarrow> identity" where
  "plain_identity category operation repo =
     \<lparr>pi_category = category, pi_operation = operation, pi_vendor = None, pi_task = None, pi_repo = repo, pi_helper = False\<rparr>"

definition vendor_identity :: "string \<Rightarrow> bool \<Rightarrow> string option \<Rightarrow> identity" where
  "vendor_identity vendor helper repo =
     \<lparr>pi_category = (if helper then ''agent_helper'' else ''agent''),
      pi_operation = vendor @ (if helper then ''_helper'' else ''_agent''),
      pi_vendor = Some vendor, pi_task = None, pi_repo = repo, pi_helper = helper\<rparr>"

definition nul_joined :: "string list \<Rightarrow> string" where
  "nul_joined argv = join [CHR 0x00] argv"

definition is_claude :: "string \<Rightarrow> string \<Rightarrow> bool" where
  "is_claude comm executable =
     (lower comm = ''claude'' \<or> sublist ''/claude/versions/'' executable \<or> ends_with ''/claude'' executable \<or> executable = ''claude'')"

definition is_codex :: "string \<Rightarrow> string \<Rightarrow> bool" where
  "is_codex comm executable =
     (prefix ''codex'' (lower comm) \<or> ends_with ''/codex'' executable \<or> sublist ''/@openai/codex/'' executable)"

definition is_pytest :: "string \<Rightarrow> string list \<Rightarrow> bool" where
  "is_pytest comm argv =
     (prefix ''pytest'' (lower comm) \<or> list_ex (\<lambda>t. path_name (lower t) \<in> {''pytest'', ''py.test''}) argv \<or> runs_module argv [''pytest''])"

definition is_build :: "string \<Rightarrow> string list \<Rightarrow> bool" where
  "is_build comm argv =
     (''build'' \<in> set (map lower argv)
        \<and> has_tool argv [''npm'', ''npm-cli'', ''pnpm'', ''yarn'', ''vite'', ''astro'', ''docker'', ''esbuild'', ''rollup'', ''webpack'']
      \<or> has_tool argv [''tsc'', ''esbuild'', ''rollup'', ''webpack''] \<or> lower comm \<in> {''buildkitd'', ''buildctl''})"

definition is_frontend :: "string list \<Rightarrow> bool" where
  "is_frontend argv =
     (has_tool argv [''vite'', ''astro'']
      \<or> ''dev'' \<in> set (map lower argv) \<and> has_tool argv [''npm'', ''npm-cli'', ''pnpm'', ''yarn''])"

text \<open>
  The rules after the agents and the orchestrator, in order. \<open>argv\<close> is what counts of the arguments: of a
  shell the first alone.
\<close>

definition classify_tool :: "string \<Rightarrow> string \<Rightarrow> string list \<Rightarrow> string option \<Rightarrow> identity" where
  "classify_tool comm executable argv repo =
     (let lowered = lower (nul_joined argv); name = path_name executable in
      if is_pytest comm argv then plain_identity ''test'' ''pytest'' repo
      else if has_tool argv [''vitest'', ''jest''] \<or> has_tool argv [''playwright''] \<and> ''test'' \<in> set (map lower argv)
        then plain_identity ''test'' ''frontend_test'' repo
      else if contains_any lowered [''uvicorn'', ''gunicorn'', ''hypercorn''] then plain_identity ''backend'' ''backend_server'' repo
      else if lower comm = ''postgres'' \<or> ends_with ''/postgres'' executable then plain_identity ''database'' ''postgres'' repo
      else if contains_any lowered [''alembic'', ''pg_dump'', ''pg_restore'', ''psql''] then plain_identity ''database'' ''database_operation'' repo
      else if is_build comm argv then plain_identity ''build'' ''build'' repo
      else if is_frontend argv then plain_identity ''frontend'' ''frontend_dev'' repo
      else if has_tool argv [''ruff'', ''basedpyright'', ''mypy''] then plain_identity ''quality'' ''quality_check'' repo
      else if lower comm \<in> {''dockerd'', ''containerd'', ''containerd-shim''} then plain_identity ''container_runtime'' (lower comm) repo
      else if prefix ''python'' name \<and> runs_module argv [''loop_monitor'', ''loop_monitor.cli''] \<or> name = ''loop-monitor''
        then plain_identity ''monitoring'' ''loop_monitor'' repo
      else plain_identity ''other'' ''other'' repo)"

definition classify_process :: "string \<Rightarrow> string list \<Rightarrow> string option \<Rightarrow> identity" where
  "classify_process comm argv cwd =
     (let executable = lower (case argv of [] \<Rightarrow> comm | a # _ \<Rightarrow> a);
          semantic = (if path_name executable \<in> {''bash'', ''sh'', ''dash'', ''zsh''} then take 1 argv else argv);
          lowered = lower (nul_joined semantic);
          repo = repo_name cwd
      in if is_claude comm executable
         then vendor_identity ''claude'' (contains_any lowered [''bg-pty-host'', ''bg-spare'', ''daemon'' @ CHR 0x00 # ''run'']) repo
         else if is_codex comm executable
         then vendor_identity ''codex'' (contains_any lowered [''app-server'', ''mcp-server'', ''exec-server'']) repo
         else if sublist ''orchestrator.run'' lowered
         then (plain_identity ''orchestrator'' ''agent_orchestrator'' repo)\<lparr>pi_task := task_after argv ''orchestrator.run''\<rparr>
         else classify_tool comm executable semantic repo)"

definition or_else :: "'a option \<Rightarrow> 'a option \<Rightarrow> 'a option" where
  "or_else x y = (case x of Some _ \<Rightarrow> x | None \<Rightarrow> y)"

definition inherited_identity :: "identity \<Rightarrow> identity option \<Rightarrow> identity" where
  "inherited_identity i parent =
     (case parent of
        None \<Rightarrow> i
      | Some p \<Rightarrow>
          if pi_operation i = ''pytest'' \<and> pi_category p = ''test''
          then plain_identity ''test'' ''pytest_worker'' (or_else (pi_repo i) (pi_repo p))
          else if pi_category i \<noteq> ''other'' then i
          else if pi_operation p \<in> {''pytest'', ''pytest_worker''}
          then plain_identity ''test'' ''pytest_worker'' (or_else (pi_repo i) (pi_repo p))
          else if pi_category p = ''build'' then plain_identity ''build'' ''build_worker'' (pi_repo i)
          else if pi_category p = ''frontend'' then plain_identity ''frontend'' ''frontend_worker'' (pi_repo i)
          else i)"

definition identity_json :: "identity \<Rightarrow> entry" where
  "identity_json i =
     [(''category'', JStr (pi_category i)), (''operation'', JStr (pi_operation i))]
     @ (case pi_vendor i of Some v \<Rightarrow> [(''vendor'', JStr v)] | None \<Rightarrow> [])
     @ (case pi_task i of Some v \<Rightarrow> [(''task'', JStr v)] | None \<Rightarrow> [])
     @ (case pi_repo i of Some v \<Rightarrow> [(''repo'', JStr v)] | None \<Rightarrow> [])
     @ (if pi_helper i then [(''agent_helper'', JBool True)] else [])"

section \<open>Hooks\<close>

definition safe_text_char :: "char \<Rightarrow> bool" where
  "safe_text_char c = (safe_task_char c \<or> c = CHR ''/'')"

definition safe_value :: "json \<Rightarrow> nat \<Rightarrow> string option" where
  "safe_value v limit = (case v of JStr s \<Rightarrow> or_none (take limit (filter safe_text_char s)) | _ \<Rightarrow> None)"

definition hook_names :: "(string \<times> string) list" where
  "hook_names = [(''subagentstart'', ''start''), (''subagentstop'', ''stop'')]"

definition hook_event :: "string \<Rightarrow> string \<Rightarrow> string \<Rightarrow> string \<Rightarrow> string \<Rightarrow> json \<Rightarrow> string option \<Rightarrow> entry" where
  "hook_event vendor action agent session type now repo =
     [(''source'', JStr ''agent_hook''), (''vendor'', JStr vendor), (''action'', JStr action), (''agent_id'', JStr agent),
      (''session_id'', JStr session), (''agent_type'', JStr type), (''observed_at'', now)]
     @ (case repo of Some r \<Rightarrow> [(''repo'', JStr r)] | None \<Rightarrow> [])"

definition hook_type :: "entry \<Rightarrow> string" where
  "hook_type e = (case safe_value (dget e ''agent_type'') 80 of Some t \<Rightarrow> t | None \<Rightarrow> ''unknown'')"

definition hook_repo :: "entry \<Rightarrow> string option" where
  "hook_repo e = (case dget e ''cwd'' of JStr d \<Rightarrow> safe_value (JStr (path_name d)) 80 | _ \<Rightarrow> None)"

definition sanitize_hook_payload :: "json \<Rightarrow> string \<Rightarrow> json \<Rightarrow> entry option" where
  "sanitize_hook_payload payload vendor now =
     (case payload of
        JObj e \<Rightarrow>
          if vendor \<notin> {''claude'', ''codex''} then None
          else (case map_of hook_names (lower (py_str (py_or (dget e ''hook_event_name'') (JStr [])))) of
              None \<Rightarrow> None
            | Some action \<Rightarrow>
                (case (safe_value (dget e ''agent_id'') 128, safe_value (dget e ''session_id'') 128) of
                   (Some agent, Some session) \<Rightarrow>
                     Some (hook_event vendor action agent session (hook_type e) now (hook_repo e))
                 | _ \<Rightarrow> None))
      | _ \<Rightarrow> None)"

definition max_hook_input :: nat where
  "max_hook_input = 65536"

text \<open>The datagram the hook sends, if any; \<open>load\<close> reads the raw bytes and \<open>send\<close> says whether sending worked.\<close>

definition emit_hook_event :: "(string \<Rightarrow> json option) \<Rightarrow> (entry \<Rightarrow> bool) \<Rightarrow> json \<Rightarrow> string \<Rightarrow> string \<Rightarrow> entry option \<times> bool" where
  "emit_hook_event load send now vendor raw =
     (if length raw > max_hook_input then (None, False)
      else (case Option.bind (load raw) (\<lambda>p. sanitize_hook_payload p vendor now) of
          None \<Rightarrow> (None, False)
        | Some e \<Rightarrow> (Some e, send e)))"

section \<open>Active subagents\<close>

text \<open>The active ones by vendor, session and agent, in the order they started.\<close>

type_synonym active = "((string \<times> string \<times> string) \<times> entry) list"

definition agent_key :: "entry \<Rightarrow> (string \<times> string \<times> string) option" where
  "agent_key e =
     (case (dget e ''vendor'', dget e ''session_id'', dget e ''agent_id'') of
        (JStr v, JStr s, JStr a) \<Rightarrow> Some (v, s, a) | _ \<Rightarrow> None)"

definition apply_event :: "entry \<Rightarrow> active \<Rightarrow> active" where
  "apply_event e m =
     (case agent_key e of
        None \<Rightarrow> m
      | Some k \<Rightarrow>
          if dget e ''action'' = JStr ''start'' then AList.update k e m
          else if dget e ''action'' = JStr ''stop'' then AList.delete k m
          else m)"

definition reconcile_sessions :: "int \<Rightarrow> int \<Rightarrow> active \<Rightarrow> active" where
  "reconcile_sessions claude codex m =
     filter (\<lambda>((v, _), _). \<not> (v = ''claude'' \<and> claude \<le> 0 \<or> v = ''codex'' \<and> codex \<le> 0)) m"

text \<open>\<open>num\<close> reads a decoded number as a time, in the unit of the clock; \<open>None\<close> when it is no number.\<close>

definition observed_at :: "(json \<Rightarrow> int option) \<Rightarrow> entry \<Rightarrow> int" where
  "observed_at num e = (case num (dget e ''observed_at'') of Some t \<Rightarrow> t | None \<Rightarrow> 0)"

definition drop_expired :: "(json \<Rightarrow> int option) \<Rightarrow> int \<Rightarrow> int \<Rightarrow> active \<Rightarrow> active" where
  "drop_expired num ttl now m = filter (\<lambda>(_, e). \<not> now - observed_at num e > ttl) m"

definition of_vendor :: "string \<Rightarrow> active \<Rightarrow> nat" where
  "of_vendor v m = length (filter (\<lambda>((v', _), _). v' = v) m)"

definition active_counts :: "(json \<Rightarrow> int option) \<Rightarrow> int \<Rightarrow> int \<Rightarrow> active \<Rightarrow> (nat \<times> nat \<times> nat) \<times> active" where
  "active_counts num ttl now m =
     (let m' = drop_expired num ttl now m in ((of_vendor ''claude'' m', of_vendor ''codex'' m', length m'), m'))"

section \<open>Only closed categories and safe texts\<close>

definition identity_categories :: "string list" where
  "identity_categories = [''agent'', ''agent_helper'', ''orchestrator'', ''test'', ''backend'', ''database'', ''build'', ''frontend'',
     ''quality'', ''container_runtime'', ''monitoring'', ''other'']"

definition operations :: "string list" where
  "operations = [''claude_agent'', ''claude_helper'', ''codex_agent'', ''codex_helper'', ''agent_orchestrator'', ''pytest'',
     ''pytest_worker'', ''frontend_test'', ''backend_server'', ''postgres'', ''database_operation'', ''build'', ''build_worker'',
     ''frontend_dev'', ''frontend_worker'', ''quality_check'', ''dockerd'', ''containerd'', ''containerd-shim'', ''loop_monitor'', ''other'']"

definition safe_option :: "string option \<Rightarrow> bool" where
  "safe_option x = (case x of None \<Rightarrow> True | Some t \<Rightarrow> safe_task t)"

definition exposes_nothing :: "identity \<Rightarrow> bool" where
  "exposes_nothing i \<longleftrightarrow> pi_category i \<in> set identity_categories \<and> pi_operation i \<in> set operations
     \<and> pi_vendor i \<in> {None, Some ''claude'', Some ''codex''} \<and> safe_option (pi_task i) \<and> safe_option (pi_repo i)"

named_theorems expose

lemma safe_repo [expose]: "safe_option (repo_name cwd)"
  by (auto simp: repo_name_def safe_option_def split: option.split)

lemma safe_task_after [expose]: "safe_option (task_after argv marker)"
  by (induction argv) (auto simp: safe_option_def split: list.split)

lemma plain_exposes [expose]:
  "category \<in> set identity_categories \<Longrightarrow> operation \<in> set operations \<Longrightarrow> safe_option repo
     \<Longrightarrow> exposes_nothing (plain_identity category operation repo)"
  by (simp add: exposes_nothing_def plain_identity_def safe_option_def)

lemma agent_exposes [expose]: "safe_option repo \<Longrightarrow> vendor \<in> {''claude'', ''codex''} \<Longrightarrow> exposes_nothing (vendor_identity vendor helper repo)"
  by (auto simp: exposes_nothing_def vendor_identity_def safe_option_def identity_categories_def operations_def)

lemma expose_if: "(b \<Longrightarrow> exposes_nothing x) \<Longrightarrow> (\<not> b \<Longrightarrow> exposes_nothing y) \<Longrightarrow> exposes_nothing (if b then x else y)"
  by simp

lemma tool_exposes [expose]: "safe_option repo \<Longrightarrow> exposes_nothing (classify_tool comm executable argv repo)"
  unfolding classify_tool_def Let_def
  by (intro expose_if plain_exposes) (auto simp: identity_categories_def operations_def)

lemma classified_exposes: "exposes_nothing (classify_process comm argv cwd)"
proof -
  have "exposes_nothing ((plain_identity ''orchestrator'' ''agent_orchestrator'' (repo_name cwd))\<lparr>pi_task := task_after argv ''orchestrator.run''\<rparr>)"
    using safe_repo safe_task_after by (simp add: exposes_nothing_def plain_identity_def identity_categories_def operations_def)
  then show ?thesis
    unfolding classify_process_def Let_def using safe_repo by (auto intro!: agent_exposes tool_exposes)
qed

lemma inherited_exposes:
  assumes "exposes_nothing i" "\<And>p. parent = Some p \<Longrightarrow> exposes_nothing p"
  shows "exposes_nothing (inherited_identity i parent)"
proof (cases parent)
  case None
  then show ?thesis
    using assms(1) by (simp add: inherited_identity_def)
next
  case (Some p)
  have "safe_option (or_else (pi_repo i) (pi_repo p))" "safe_option (pi_repo i)"
    using assms Some by (auto simp: exposes_nothing_def or_else_def split: option.split)
  then show ?thesis
    using Some assms(1) by (auto simp: inherited_identity_def identity_categories_def operations_def intro!: plain_exposes)
qed

lemma task_after_marker: "task_after argv m = Some t \<Longrightarrow> \<exists>pre post. argv = pre @ m # t # post"
proof (induction argv)
  case (Cons a argv)
  show ?case
  proof (cases "a = m")
    case True
    then show ?thesis
      using Cons.prems by (auto split: list.splits if_splits intro: exI[of _ "[]"])
  next
    case False
    then obtain pre post where "argv = pre @ m # t # post"
      using Cons by auto
    then show ?thesis
      by (metis append_Cons)
  qed
qed simp

lemma classified_task:
  assumes "pi_task (classify_process comm argv cwd) = Some t"
  shows "pi_operation (classify_process comm argv cwd) = ''agent_orchestrator'' \<and> task_after argv ''orchestrator.run'' = Some t"
proof -
  have none: "pi_task (plain_identity c r o1) = None" "pi_task (vendor_identity v h o1) = None"
    "pi_task (classify_tool comm e a o1) = None" for c r o1 v h e a
    by (simp_all add: plain_identity_def vendor_identity_def classify_tool_def Let_def)
  show ?thesis
    using assms none unfolding classify_process_def Let_def by (auto simp: plain_identity_def split: if_splits)
qed

text \<open>
  C34: Whatever its arguments hold, of a process the monitor keeps one of twelve categories, one of twenty-one
  operations, one of two vendors, and at most two texts of eighty letters, digits, dots, hyphens and
  underscores: the last component of its working directory and the argument after the module of the
  orchestrator. The same holds for what a child inherits from its parents, to any depth.
\<close>

theorem monitor_keeps_safe_texts:
  "exposes_nothing (foldr (\<lambda>(comm, argv, cwd) parent. inherited_identity (classify_process comm argv cwd) (Some parent))
      descendants (classify_process comm argv cwd))
   \<and> (\<forall>t. pi_task (classify_process comm argv cwd) = Some t \<longrightarrow>
        pi_operation (classify_process comm argv cwd) = ''agent_orchestrator''
        \<and> (\<exists>pre post. argv = pre @ ''orchestrator.run'' # t # post))"
proof
  show "exposes_nothing (foldr (\<lambda>(comm, argv, cwd) parent. inherited_identity (classify_process comm argv cwd) (Some parent))
      descendants (classify_process comm argv cwd))"
    by (induction descendants) (auto intro: inherited_exposes classified_exposes)
qed (use classified_task task_after_marker in blast)

text \<open>The argument after the module need not be a task: an option has the same shape.\<close>

lemma option_reported_as_task:
  "pi_task (classify_process ''python3'' [''python3'', ''-m'', ''orchestrator.run'', ''--phase'', ''loop'', ''t''] None) = Some ''--phase''"
  by code_simp

section \<open>What a hook may say\<close>

definition short_safe :: "nat \<Rightarrow> json \<Rightarrow> bool" where
  "short_safe n v \<longleftrightarrow> (\<exists>t. v = JStr t \<and> t \<noteq> [] \<and> length t \<le> n \<and> list_all safe_text_char t)"

lemma safe_value_short: "safe_value v n = Some t \<Longrightarrow> short_safe n (JStr t)"
  by (auto simp: safe_value_def short_safe_def or_none_def list_all_iff split: json.splits if_splits dest: in_set_takeD)

lemma short_safe_mono: "short_safe m v \<Longrightarrow> m \<le> n \<Longrightarrow> short_safe n v"
  by (auto simp: short_safe_def)

lemma word_short: "t \<in> {''agent_hook'', ''claude'', ''codex'', ''start'', ''stop'', ''unknown''} \<Longrightarrow> short_safe 128 (JStr t)"
  by (auto simp: short_safe_def safe_text_char_def safe_task_char_def is_digit_def)

lemma type_short: "short_safe 128 (JStr (hook_type e))"
  using word_short[of "''unknown''"] short_safe_mono[OF safe_value_short, of "dget e ''agent_type''" 80 _ 128]
  by (auto simp: hook_type_def split: option.split)

lemma repo_short: "hook_repo e = Some r \<Longrightarrow> short_safe 128 (JStr r)"
  using short_safe_mono[OF safe_value_short, of _ 80 r 128] by (auto simp: hook_repo_def split: json.splits)

text \<open>
  What a hook sends holds nine fixed fields at most, whatever the payload is; every one but the time is a
  text of at most 128 letters, digits, dots, hyphens, underscores and slashes; the vendor is one of two, the
  action one of two, and no other part of the payload is in it. A payload larger than 64 KiB is never read.
\<close>

theorem hook_sends_safe_texts:
  assumes "emit_hook_event load send now vendor raw = (Some e, ok)"
  shows "length raw \<le> max_hook_input
     \<and> set (map fst e) \<subseteq> {''source'', ''vendor'', ''action'', ''agent_id'', ''session_id'', ''agent_type'', ''observed_at'', ''repo''}
     \<and> dget e ''vendor'' \<in> {JStr ''claude'', JStr ''codex''} \<and> dget e ''action'' \<in> {JStr ''start'', JStr ''stop''}
     \<and> (\<forall>(k, v) \<in> set e. k \<noteq> ''observed_at'' \<longrightarrow> short_safe 128 v) \<and> dget e ''observed_at'' = now"
proof -
  obtain p where p: "load raw = Some p" "sanitize_hook_payload p vendor now = Some e" "length raw \<le> max_hook_input"
    using assms by (auto simp: emit_hook_event_def bind_eq_Some_conv split: if_splits option.splits)
  then obtain f action agent session where f: "p = JObj f" "vendor \<in> {''claude'', ''codex''}" "action \<in> {''start'', ''stop''}"
    "safe_value (dget f ''agent_id'') 128 = Some agent" "safe_value (dget f ''session_id'') 128 = Some session"
    and e: "e = hook_event vendor action agent session (hook_type f) now (hook_repo f)"
    by (auto simp: sanitize_hook_payload_def hook_names_def split: json.splits if_splits option.splits prod.splits)
  have words: "short_safe 128 (JStr vendor)" "short_safe 128 (JStr action)" "short_safe 128 (JStr ''agent_hook'')"
    using f(2,3) word_short by auto
  note safe = words safe_value_short[OF f(4)] safe_value_short[OF f(5)] type_short[of f] repo_short[of f]
  have "dget e ''vendor'' = JStr vendor" "dget e ''action'' = JStr action" "dget e ''observed_at'' = now"
    by (simp_all add: e hook_event_def dget_def)
  moreover have "\<forall>(k, v) \<in> set e. k \<noteq> ''observed_at'' \<longrightarrow> short_safe 128 v"
    unfolding e hook_event_def using safe by (cases "hook_repo f") simp_all
  moreover have "set (map fst e) \<subseteq> {''source'', ''vendor'', ''action'', ''agent_id'', ''session_id'', ''agent_type'', ''observed_at'', ''repo''}"
    by (auto simp: e hook_event_def split: option.splits)
  ultimately show ?thesis
    using p(3) f(2,3) by blast
qed

section \<open>Which subagents are active\<close>

definition starts_agent :: "string \<times> string \<times> string \<Rightarrow> entry \<Rightarrow> bool" where
  "starts_agent k e \<longleftrightarrow> agent_key e = Some k \<and> dget e ''action'' = JStr ''start''"

definition stops_agent :: "string \<times> string \<times> string \<Rightarrow> entry \<Rightarrow> bool" where
  "stops_agent k e \<longleftrightarrow> agent_key e = Some k \<and> dget e ''action'' = JStr ''stop''"

lemma apply_event_get:
  "map_of (apply_event e m) k = (if starts_agent k e then Some e else if stops_agent k e then None else map_of m k)"
  by (auto simp: apply_event_def starts_agent_def stops_agent_def update_conv delete_conv split: option.split)

lemma apply_event_distinct: "distinct (map fst m) \<Longrightarrow> distinct (map fst (apply_event e m))"
  by (auto simp: apply_event_def distinct_update distinct_delete split: option.split)

lemma last_start:
  "(\<exists>pre post. es @ [x] = pre @ e # post \<and> starts_agent k e \<and> list_all (\<lambda>x. \<not> starts_agent k x \<and> \<not> stops_agent k x) post)
     \<longleftrightarrow> (starts_agent k x \<and> x = e) \<or> (\<not> starts_agent k x \<and> \<not> stops_agent k x
           \<and> (\<exists>pre post. es = pre @ e # post \<and> starts_agent k e \<and> list_all (\<lambda>x. \<not> starts_agent k x \<and> \<not> stops_agent k x) post))"
  (is "?A \<longleftrightarrow> ?B")
proof
  assume ?A
  then obtain pre post where p: "es @ [x] = pre @ e # post" "starts_agent k e" "list_all (\<lambda>x. \<not> starts_agent k x \<and> \<not> stops_agent k x) post"
    by blast
  then show ?B
    by (cases post rule: rev_cases) auto
next
  assume ?B
  then show ?A
  proof
    assume "starts_agent k x \<and> x = e"
    then show ?A
      by (auto intro: exI[of _ es])
  next
    assume "\<not> starts_agent k x \<and> \<not> stops_agent k x
           \<and> (\<exists>pre post. es = pre @ e # post \<and> starts_agent k e \<and> list_all (\<lambda>x. \<not> starts_agent k x \<and> \<not> stops_agent k x) post)"
    then obtain pre post where "es = pre @ e # post" "starts_agent k e" "list_all (\<lambda>x. \<not> starts_agent k x \<and> \<not> stops_agent k x) (post @ [x])"
      by auto
    then show ?A
      by (metis append.assoc append_Cons)
  qed
qed

text \<open>
  The set of active subagents is what the events say: after any events a subagent is in it exactly when it
  has been started and not stopped since, with the event of its last start; it is in it once, however often
  it was started; and the total counts each once.
\<close>

theorem active_follows_events:
  "(map_of (fold apply_event es []) k = Some e
     \<longleftrightarrow> (\<exists>pre post. es = pre @ e # post \<and> starts_agent k e \<and> list_all (\<lambda>x. \<not> starts_agent k x \<and> \<not> stops_agent k x) post))
   \<and> distinct (map fst (fold apply_event es []))"
proof
  show "distinct (map fst (fold apply_event es []))"
    by (induction es rule: rev_induct) (simp_all add: apply_event_distinct)
  show "map_of (fold apply_event es []) k = Some e
     \<longleftrightarrow> (\<exists>pre post. es = pre @ e # post \<and> starts_agent k e \<and> list_all (\<lambda>x. \<not> starts_agent k x \<and> \<not> stops_agent k x) post)"
    (is "?L es \<longleftrightarrow> ?R es")
  proof (induction es rule: rev_induct)
    case (snoc x es)
    have step: "?R (es @ [x]) \<longleftrightarrow> (starts_agent k x \<and> x = e) \<or> (\<not> starts_agent k x \<and> \<not> stops_agent k x \<and> ?R es)"
      by (rule last_start)
    show ?case
      unfolding step snoc.IH[symmetric] by (auto simp: apply_event_get starts_agent_def stops_agent_def)
  qed simp
qed

section \<open>Witnesses\<close>

theorem monitor_keeps_safe_texts_witness:
  "pi_task (classify_process ''python3'' [''python3'', ''-m'', ''orchestrator.run'', ''t1'', ''--token'', ''s3cr3t''] (Some ''/srv/app'')) = Some ''t1''
     \<and> pi_operation (classify_process ''python3'' [''python3'', ''-m'', ''orchestrator.run'', ''t1'', ''--token'', ''s3cr3t''] (Some ''/srv/app''))
         = ''agent_orchestrator''"
proof -
  have "pi_task (classify_process ''python3'' [''python3'', ''-m'', ''orchestrator.run'', ''t1'', ''--token'', ''s3cr3t''] (Some ''/srv/app'')) = Some ''t1''"
    by code_simp
  then show ?thesis
    using monitor_keeps_safe_texts by blast
qed

definition demo_hook :: json where
  "demo_hook = JObj [(''hook_event_name'', JStr ''SubagentStart''), (''agent_id'', JStr ''a1''), (''session_id'', JStr ''s1''),
     (''prompt'', JStr ''secret''), (''cwd'', JStr ''/srv/app'')]"

definition demo_sent :: "entry option \<times> bool" where
  "demo_sent = emit_hook_event (\<lambda>_. Some demo_hook) (\<lambda>_. True) (JInt 7) ''claude'' ''raw''"

lemma demo_sanitized: "sanitize_hook_payload demo_hook ''claude'' (JInt 7) \<noteq> None"
  by code_simp

lemma demo_sent_some: "fst demo_sent \<noteq> None"
  using demo_sanitized by (auto simp: demo_sent_def emit_hook_event_def max_hook_input_def)

theorem hook_sends_safe_texts_witness: "\<exists>e ok. demo_sent = (Some e, ok) \<and> ''prompt'' \<notin> set (map fst e)"
proof -
  obtain e where "fst demo_sent = Some e"
    using demo_sent_some by auto
  then have e: "demo_sent = (Some e, snd demo_sent)"
    by (metis prod.collapse)
  then show ?thesis
    using hook_sends_safe_texts[OF e[unfolded demo_sent_def]] by auto
qed

end
