(* ===== verification/Hook_Config.thy ===== *)
theory Hook_Config
  imports Json
begin

text \<open>
  Model of \<open>src/monitoring/loop_monitor/hook_config.py\<close>: putting the hooks of the monitor into the settings of
  the agents and taking them out again. The settings belong to the user and hold other hooks; the lemmas show
  that both directions leave those alone, that installing twice changes nothing, and that removing what was
  installed restores the hooks. A settings file is its decoded object with the copy kept of the original; the
  JSON library and the file modes are left out.
\<close>

section \<open>The edit of one settings object\<close>

definition hook_events :: "string list" where
  "hook_events = [''SubagentStart'', ''SubagentStop'']"

definition hook_command :: "string \<Rightarrow> string" where
  "hook_command vendor = ''/opt/loop-monitor/bin/loop-monitor hook --vendor '' @ vendor"

definition is_ours :: "string \<Rightarrow> json \<Rightarrow> bool" where
  "is_ours command h = (case h of JObj e \<Rightarrow> dget e ''command'' = JStr command | _ \<Rightarrow> False)"

definition group_handlers :: "json \<Rightarrow> json list option" where
  "group_handlers g =
     (case g of JObj e \<Rightarrow> (case dget e ''hooks'' of JArr hs \<Rightarrow> Some hs | _ \<Rightarrow> None) | _ \<Rightarrow> None)"

definition has_ours :: "string \<Rightarrow> json \<Rightarrow> bool" where
  "has_ours command g = (case group_handlers g of Some hs \<Rightarrow> list_ex (is_ours command) hs | None \<Rightarrow> False)"

definition our_group :: "string \<Rightarrow> json" where
  "our_group command =
     JObj [(''matcher'', JStr ''*''),
           (''hooks'', JArr [JObj [(''type'', JStr ''command''), (''command'', JStr command), (''timeout'', JInt 2)]])]"

text \<open>\<open>setdefault\<close> of a list: the groups of an event, when they are a list.\<close>

definition event_groups :: "string \<Rightarrow> entry \<Rightarrow> exn + json list" where
  "event_groups event hooks =
     (case map_of hooks event of None \<Rightarrow> Inr [] | Some (JArr gs) \<Rightarrow> Inr gs | Some _ \<Rightarrow> Inl ValueError)"

primrec install_events :: "string \<Rightarrow> string list \<Rightarrow> entry \<times> bool \<Rightarrow> exn + entry \<times> bool" where
  "install_events command [] st = Inr st"
| "install_events command (ev # evs) st =
     bindR (event_groups ev (fst st)) (\<lambda>gs.
       install_events command evs
         (if list_ex (has_ours command) gs then st else (dput ev (JArr (gs @ [our_group command])) (fst st), True)))"

definition hooks_of_payload :: "entry \<Rightarrow> exn + entry" where
  "hooks_of_payload p = (case map_of p ''hooks'' of None \<Rightarrow> Inr [] | Some (JObj h) \<Rightarrow> Inr h | Some _ \<Rightarrow> Inl ValueError)"

text \<open>The new payload, when anything changed.\<close>

definition install_payload :: "string \<Rightarrow> entry \<Rightarrow> exn + entry option" where
  "install_payload vendor p =
     bindR (hooks_of_payload p) (\<lambda>hooks.
     bindR (install_events (hook_command vendor) hook_events (hooks, False)) (\<lambda>(hooks', changed).
       Inr (if changed then Some (dput ''hooks'' (JObj hooks') p) else None)))"

definition strip_group :: "string \<Rightarrow> json \<Rightarrow> json list" where
  "strip_group command g =
     (case (g, group_handlers g) of
        (JObj e, Some hs) \<Rightarrow>
          (let kept = filter (\<lambda>h. \<not> is_ours command h) hs in if kept = [] then [] else [JObj (dput ''hooks'' (JArr kept) e)])
      | _ \<Rightarrow> [g])"

definition drop_key :: "string \<Rightarrow> entry \<Rightarrow> entry" where
  "drop_key k e = filter (\<lambda>(k', _). k' \<noteq> k) e"

text \<open>What is left of the groups of an event.\<close>

definition stripped :: "string \<Rightarrow> json list \<Rightarrow> json list" where
  "stripped command gs = concat (map (strip_group command) gs)"

primrec uninstall_events :: "string \<Rightarrow> string list \<Rightarrow> entry \<times> bool \<Rightarrow> entry \<times> bool" where
  "uninstall_events command [] st = st"
| "uninstall_events command (ev # evs) st =
     uninstall_events command evs
       (case dget (fst st) ev of
          JArr gs \<Rightarrow>
            (let remaining = stripped command gs
             in (if remaining \<noteq> [] then dput ev (JArr remaining) (fst st) else drop_key ev (fst st),
                 snd st \<or> list_ex (has_ours command) gs))
        | _ \<Rightarrow> st)"

definition uninstall_payload :: "string \<Rightarrow> entry \<Rightarrow> entry option" where
  "uninstall_payload vendor p =
     (case dget p ''hooks'' of
        JObj hooks \<Rightarrow>
          (let (hooks', changed) = uninstall_events (hook_command vendor) hook_events (hooks, False)
           in if changed then Some (dput ''hooks'' (JObj hooks') p) else None)
      | _ \<Rightarrow> None)"

section \<open>The settings files\<close>

text \<open>What the file holds: nothing, no JSON, or a value; and the copy of what it was before the first edit.\<close>

datatype settings = Absent | Garbled | Settings json

record hook_file =
  hf_now :: settings
  hf_copy :: settings

definition load_settings :: "hook_file \<Rightarrow> exn + entry" where
  "load_settings f =
     (case hf_now f of Absent \<Rightarrow> Inr [] | Garbled \<Rightarrow> Inl ValueError | Settings (JObj e) \<Rightarrow> Inr e | Settings _ \<Rightarrow> Inl ValueError)"

definition save_settings :: "entry \<Rightarrow> hook_file \<Rightarrow> hook_file" where
  "save_settings p f =
     f\<lparr>hf_copy := (if hf_now f \<noteq> Absent \<and> hf_copy f = Absent then hf_now f else hf_copy f), hf_now := Settings (JObj p)\<rparr>"

definition install_file :: "string \<Rightarrow> hook_file \<Rightarrow> exn + bool \<times> hook_file" where
  "install_file vendor f =
     bindR (load_settings f) (\<lambda>p.
     bindR (install_payload vendor p) (\<lambda>q.
       Inr (case q of None \<Rightarrow> (False, f) | Some p' \<Rightarrow> (True, save_settings p' f))))"

definition uninstall_file :: "string \<Rightarrow> hook_file \<Rightarrow> exn + bool \<times> hook_file" where
  "uninstall_file vendor f =
     (if hf_now f = Absent then Inr (False, f)
      else bindR (load_settings f) (\<lambda>p.
        Inr (case uninstall_payload vendor p of None \<Rightarrow> (False, f) | Some p' \<Rightarrow> (True, save_settings p' f))))"

text \<open>Both agents, one after the other: an error with the second leaves the first as it was changed.\<close>

definition configure :: "bool \<Rightarrow> hook_file \<times> hook_file \<Rightarrow> (exn + bool \<times> bool) \<times> hook_file \<times> hook_file" where
  "configure uninstall fs =
     (let act = (if uninstall then uninstall_file else install_file) in
      case act ''claude'' (fst fs) of
        Inl e \<Rightarrow> (Inl e, fs)
      | Inr (b1, f1) \<Rightarrow>
          (case act ''codex'' (snd fs) of
             Inl e \<Rightarrow> (Inl e, (f1, snd fs))
           | Inr (b2, f2) \<Rightarrow> (Inr (b1, b2), (f1, f2))))"

section \<open>Other hooks are left alone\<close>

text \<open>The groups of an event, as the agent sees them, in an object of hooks, in a payload and in a file.\<close>

definition ev_groups :: "entry \<Rightarrow> string \<Rightarrow> json list" where
  "ev_groups h ev = (case dget h ev of JArr gs \<Rightarrow> gs | _ \<Rightarrow> [])"

definition payload_hooks :: "entry \<Rightarrow> entry" where
  "payload_hooks p = (case dget p ''hooks'' of JObj h \<Rightarrow> h | _ \<Rightarrow> [])"

definition file_payload :: "hook_file \<Rightarrow> entry" where
  "file_payload f = (case hf_now f of Settings (JObj p) \<Rightarrow> p | _ \<Rightarrow> [])"

definition file_groups :: "hook_file \<Rightarrow> string \<Rightarrow> json list" where
  "file_groups f ev = ev_groups (payload_hooks (file_payload f)) ev"

definition with_ours :: "string \<Rightarrow> json list \<Rightarrow> json list" where
  "with_ours command gs = (if list_ex (has_ours command) gs then gs else gs @ [our_group command])"

lemma our_group_ours: "has_ours command (our_group command)"
  by (simp add: has_ours_def our_group_def group_handlers_def is_ours_def dget_def)

lemma with_ours_present: "list_ex (has_ours c) (with_ours c gs)"
  using our_group_ours by (simp add: with_ours_def)

lemma event_groups_view: "event_groups ev h = Inr gs \<Longrightarrow> gs = ev_groups h ev"
  by (auto simp: event_groups_def ev_groups_def dget_def split: option.splits json.splits)

lemma ev_groups_dput [simp]: "ev_groups (dput ev (JArr gs) h) k = (if k = ev then gs else ev_groups h k)"
  by (simp add: ev_groups_def)

lemma ev_groups_drop [simp]: "ev_groups (drop_key ev h) k = (if k = ev then [] else ev_groups h k)"
proof -
  have "map_of (drop_key ev h) k = (if k = ev then None else map_of h k)"
    by (induction h) (auto simp: drop_key_def)
  then show ?thesis
    by (simp add: ev_groups_def dget_def)
qed

lemma install_view:
  "distinct evs \<Longrightarrow> install_events c evs (h, b) = Inr (h', b') \<Longrightarrow>
     (\<forall>k. ev_groups h' k = (if k \<in> set evs then with_ours c (ev_groups h k) else ev_groups h k))
     \<and> (b' \<longleftrightarrow> b \<or> (\<exists>k\<in>set evs. \<not> list_ex (has_ours c) (ev_groups h k))) \<and> (b' = b \<longrightarrow> b \<or> h' = h)"
proof (induction evs arbitrary: h b)
  case (Cons ev evs)
  obtain gs where gs: "event_groups ev h = Inr gs"
    and rest: "install_events c evs (if list_ex (has_ours c) gs then (h, b) else (dput ev (JArr (gs @ [our_group c])) h, True)) = Inr (h', b')"
    using Cons.prems(2) by (simp only: install_events.simps bindR_Inr_iff fst_conv) blast
  have view: "gs = ev_groups h ev"
    by (rule event_groups_view[OF gs])
  show ?case
  proof (cases "list_ex (has_ours c) gs")
    case True
    then show ?thesis
      using Cons.IH[of h b] Cons.prems(1) rest view by (auto simp: with_ours_def)
  next
    case False
    then show ?thesis
      using Cons.IH[of "dput ev (JArr (gs @ [our_group c])) h" True] Cons.prems(1) rest view by (auto simp: with_ours_def)
  qed
qed simp

lemma uninstall_view:
  "distinct evs \<Longrightarrow> uninstall_events c evs (h, b) = (h', b') \<Longrightarrow>
     (\<forall>k. ev_groups h' k = (if k \<in> set evs then stripped c (ev_groups h k) else ev_groups h k))
     \<and> (b' \<longleftrightarrow> b \<or> (\<exists>k\<in>set evs. list_ex (has_ours c) (ev_groups h k)))"
proof (induction evs arbitrary: h b)
  case (Cons ev evs)
  let ?gs = "ev_groups h ev"
  show ?case
  proof (cases "\<exists>gs. dget h ev = JArr gs")
    case True
    then have arr: "dget h ev = JArr ?gs"
      by (auto simp: ev_groups_def)
    define h1 where "h1 = (if stripped c ?gs \<noteq> [] then dput ev (JArr (stripped c ?gs)) h else drop_key ev h)"
    have "uninstall_events c evs (h1, b \<or> list_ex (has_ours c) ?gs) = (h', b')"
      using Cons.prems(2) arr by (cases "stripped c ?gs = []") (simp_all add: h1_def Let_def)
    moreover have "ev_groups h1 k = (if k = ev then stripped c ?gs else ev_groups h k)" for k
      by (auto simp: h1_def)
    ultimately show ?thesis
      using Cons.IH[of h1 "b \<or> list_ex (has_ours c) ?gs"] Cons.prems(1) by auto
  next
    case False
    then have "uninstall_events c evs (h, b) = (h', b')" "?gs = []"
      using Cons.prems(2) by (auto simp: ev_groups_def split: json.splits)
    then show ?thesis
      using Cons.IH[of h b] Cons.prems(1) by (auto simp: stripped_def)
  qed
qed simp

lemma events_distinct: "distinct hook_events"
  by (simp add: hook_events_def)

lemma install_payload_view:
  assumes "install_payload vendor p = Inr q"
  defines "c \<equiv> hook_command vendor" and "p' \<equiv> (case q of None \<Rightarrow> p | Some p' \<Rightarrow> p')"
  shows "ev_groups (payload_hooks p') k = (if k \<in> set hook_events then with_ours c (ev_groups (payload_hooks p) k) else ev_groups (payload_hooks p) k)"
    and "q = None \<longleftrightarrow> (\<forall>k\<in>set hook_events. list_ex (has_ours c) (ev_groups (payload_hooks p) k))"
    and "k \<noteq> ''hooks'' \<Longrightarrow> dget p' k = dget p k"
proof -
  obtain h h' b where h: "hooks_of_payload p = Inr h" "install_events c hook_events (h, False) = Inr (h', b)"
    "q = (if b then Some (dput ''hooks'' (JObj h') p) else None)"
    using assms(1) by (auto simp: install_payload_def bindR_Inr_iff c_def)
  have view: "payload_hooks p = h"
    using h(1) by (auto simp: hooks_of_payload_def payload_hooks_def dget_def split: option.splits json.splits)
  note inst = install_view[OF events_distinct h(2)]
  have "payload_hooks p' = h'"
    using h(3) inst view by (auto simp: p'_def payload_hooks_def)
  then show "ev_groups (payload_hooks p') k = (if k \<in> set hook_events then with_ours c (ev_groups (payload_hooks p) k) else ev_groups (payload_hooks p) k)"
    using inst view by simp
  show "q = None \<longleftrightarrow> (\<forall>k\<in>set hook_events. list_ex (has_ours c) (ev_groups (payload_hooks p) k))"
    using inst h(3) view by auto
  show "k \<noteq> ''hooks'' \<Longrightarrow> dget p' k = dget p k"
    using h(3) by (simp add: p'_def)
qed

text \<open>A group that is none of ours and has handlers; the keys of an object are distinct.\<close>

definition foreign :: "string \<Rightarrow> json \<Rightarrow> bool" where
  "foreign c g \<longleftrightarrow> \<not> has_ours c g \<and> group_handlers g \<noteq> Some [] \<and> (\<forall>e. g = JObj e \<longrightarrow> distinct (map fst e))"

lemma dput_same: "distinct (map fst e) \<Longrightarrow> map_of e k = Some v \<Longrightarrow> dput k v e = e"
  by (auto simp: dput_def has_key_def intro!: map_idI dest: map_of_SomeD eq_key_imp_eq_value)

lemma strip_foreign: "foreign c g \<Longrightarrow> strip_group c g = [g]"
proof -
  assume g: "foreign c g"
  show ?thesis
  proof (cases "group_handlers g")
    case (Some hs)
    then obtain e where e: "g = JObj e" "dget e ''hooks'' = JArr hs"
      by (auto simp: group_handlers_def split: json.splits)
    then have "map_of e ''hooks'' = Some (JArr hs)"
      by (auto simp: dget_def split: option.splits)
    moreover have "filter (\<lambda>h. \<not> is_ours c h) hs = hs" "hs \<noteq> []"
      using g Some by (auto simp: foreign_def has_ours_def list_ex_iff filter_id_conv)
    ultimately show ?thesis
      using g e Some dput_same[of e "''hooks''" "JArr hs"] by (simp add: strip_group_def foreign_def)
  qed (simp add: strip_group_def split: json.split)
qed

lemma strip_our_group: "strip_group c (our_group c) = []"
  by (simp add: strip_group_def our_group_def group_handlers_def is_ours_def dget_def)

lemma stripped_with_ours: "list_all (foreign c) gs \<Longrightarrow> stripped c (with_ours c gs) = gs"
proof -
  assume gs: "list_all (foreign c) gs"
  then have "\<not> list_ex (has_ours c) gs" "stripped c gs = gs"
    by (induction gs) (auto simp: foreign_def stripped_def strip_foreign)
  then show ?thesis
    by (simp add: with_ours_def stripped_def strip_our_group)
qed

lemma hooks_are_object: "list_ex P (ev_groups (payload_hooks p) k) \<Longrightarrow> dget p ''hooks'' = JObj (payload_hooks p)"
  by (auto simp: payload_hooks_def ev_groups_def dget_def split: json.splits option.splits)

lemma uninstall_payload_changes:
  assumes "c = hook_command vendor" and ex: "\<exists>k\<in>set hook_events. list_ex (has_ours c) (ev_groups (payload_hooks p) k)"
  shows "\<exists>p'. uninstall_payload vendor p = Some p'"
proof -
  obtain h' b where u: "uninstall_events c hook_events (payload_hooks p, False) = (h', b)"
    by fastforce
  have "dget p ''hooks'' = JObj (payload_hooks p)"
    using ex hooks_are_object by blast
  then show ?thesis
    using uninstall_view[OF events_distinct u] ex u assms(1) by (auto simp: uninstall_payload_def)
qed

lemma uninstall_payload_view:
  assumes "c = hook_command vendor" and "p' = (case uninstall_payload vendor p of None \<Rightarrow> p | Some p' \<Rightarrow> p')"
  shows "\<exists>k\<in>set hook_events. list_ex (has_ours c) (ev_groups (payload_hooks p) k) \<Longrightarrow>
      ev_groups (payload_hooks p') k = (if k \<in> set hook_events then stripped c (ev_groups (payload_hooks p) k) else ev_groups (payload_hooks p) k)"
    and "k \<noteq> ''hooks'' \<Longrightarrow> dget p' k = dget p k"
proof -
  let ?h = "payload_hooks p"
  obtain h' b where u: "uninstall_events c hook_events (?h, False) = (h', b)"
    by fastforce
  note view = uninstall_view[OF events_distinct u]
  have step: "uninstall_payload vendor p = (if b then Some (dput ''hooks'' (JObj h') p) else None)"
    if "\<exists>h. dget p ''hooks'' = JObj h"
    using that u assms(1) by (auto simp: uninstall_payload_def payload_hooks_def)
  show "ev_groups (payload_hooks p') k = (if k \<in> set hook_events then stripped c (ev_groups ?h k) else ev_groups ?h k)"
    if ex: "\<exists>k\<in>set hook_events. list_ex (has_ours c) (ev_groups ?h k)"
  proof -
    have "?h \<noteq> []"
      using ex by (auto simp: ev_groups_def dget_def)
    then have "\<exists>h. dget p ''hooks'' = JObj h"
      by (auto simp: payload_hooks_def split: json.splits)
    then have "payload_hooks p' = h'"
      using step view ex by (simp add: assms(2)) (simp add: payload_hooks_def)
    then show ?thesis
      using view by simp
  qed
  show "k \<noteq> ''hooks'' \<Longrightarrow> dget p' k = dget p k"
    using step by (auto simp: assms(2) uninstall_payload_def split: json.splits prod.splits)
qed

lemma load_payload: "load_settings f = Inr p \<Longrightarrow> p = file_payload f"
  by (auto simp: load_settings_def file_payload_def split: settings.splits json.splits)

lemma save_then_load [simp]:
  "load_settings (save_settings p f) = Inr p" "file_payload (save_settings p f) = p" "hf_now (save_settings p f) \<noteq> Absent"
  by (simp_all add: load_settings_def save_settings_def file_payload_def)

lemma uninstall_restores:
  assumes "load_settings f = Inr (file_payload f)" and "c = hook_command vendor"
    and "\<forall>k\<in>set hook_events. list_ex (has_ours (hook_command vendor)) (ev_groups (payload_hooks (file_payload f)) k)"
  obtains f2 where "uninstall_file vendor f = Inr (True, f2)"
    "\<And>k. file_groups f2 k = (if k \<in> set hook_events then stripped c (file_groups f k) else file_groups f k)"
    "\<And>key. key \<noteq> ''hooks'' \<Longrightarrow> dget (file_payload f2) key = dget (file_payload f) key"
proof -
  let ?p = "file_payload f"
  have ex: "\<exists>k\<in>set hook_events. list_ex (has_ours c) (ev_groups (payload_hooks ?p) k)"
    using assms(2,3) by (auto simp: hook_events_def)
  have present: "hf_now f \<noteq> Absent"
    using ex by (auto simp: file_payload_def payload_hooks_def ev_groups_def dget_def)
  obtain p' where p': "uninstall_payload vendor ?p = Some p'"
    using uninstall_payload_changes[OF assms(2) ex] by blast
  note view = uninstall_payload_view[OF assms(2) refl, where p = ?p, unfolded p']
  show thesis
    by (rule that[of "save_settings p' f"]) (use view ex p' present assms(1) in \<open>simp_all add: uninstall_file_def file_groups_def\<close>)
qed

lemma install_again: "\<forall>k\<in>set evs. list_ex (has_ours c) (ev_groups h k) \<Longrightarrow> install_events c evs (h, b) = Inr (h, b)"
proof (induction evs)
  case (Cons ev evs)
  then have "event_groups ev h = Inr (ev_groups h ev)"
    by (auto simp: event_groups_def ev_groups_def dget_def split: option.splits json.splits)
  then show ?case
    using Cons by simp
qed simp

lemma install_payload_again:
  assumes "\<forall>k\<in>set hook_events. list_ex (has_ours (hook_command vendor)) (ev_groups (payload_hooks p) k)"
  shows "install_payload vendor p = Inr None"
proof -
  have "list_ex (has_ours (hook_command vendor)) (ev_groups (payload_hooks p) ''SubagentStart'')"
    using assms by (simp add: hook_events_def)
  then have "payload_hooks p \<noteq> []"
    by (auto simp: ev_groups_def dget_def)
  then have "hooks_of_payload p = Inr (payload_hooks p)"
    by (auto simp: payload_hooks_def hooks_of_payload_def dget_def split: option.splits json.splits)
  then show ?thesis
    using install_again[OF assms] by (simp add: install_payload_def)
qed

lemma install_file_cases:
  assumes "install_file vendor f = Inr (b, f')"
  obtains q where "install_payload vendor (file_payload f) = Inr q" "load_settings f = Inr (file_payload f)"
    "b = (q \<noteq> None)" "f' = (case q of None \<Rightarrow> f | Some p' \<Rightarrow> save_settings p' f)"
    "file_payload f' = (case q of None \<Rightarrow> file_payload f | Some p' \<Rightarrow> p')"
    "load_settings f' = Inr (file_payload f')"
proof -
  obtain p q where pq: "load_settings f = Inr p" "install_payload vendor p = Inr q"
    "(b, f') = (case q of None \<Rightarrow> (False, f) | Some p' \<Rightarrow> (True, save_settings p' f))"
    using assms by (auto simp: install_file_def bindR_Inr_iff)
  then show thesis
    using that[of q] load_payload[of f p] by (cases q) simp_all
qed

text \<open>
  C35: installing the hooks appends one group to each of the two events that do not have it yet and touches no
  other group, event or setting; the original of the file is kept with the first edit; a second installation
  changes nothing; and removing the hooks afterwards gives every event the groups it had before, when these are
  complete groups of the user's.
\<close>

theorem hooks_leave_user_settings:
  assumes "install_file vendor f = Inr (b, f')"
  defines "c \<equiv> hook_command vendor"
  shows "(\<forall>k. file_groups f' k = (if k \<in> set hook_events then with_ours c (file_groups f k) else file_groups f k))
       \<and> (\<forall>key. key \<noteq> ''hooks'' \<longrightarrow> dget (file_payload f') key = dget (file_payload f) key)
       \<and> hf_copy f' = (if b \<and> hf_copy f = Absent then hf_now f else hf_copy f)
       \<and> install_file vendor f' = Inr (False, f')
       \<and> ((\<forall>k\<in>set hook_events. list_all (foreign c) (file_groups f k)) \<longrightarrow>
            (\<exists>f2. uninstall_file vendor f' = Inr (True, f2) \<and> (\<forall>k. file_groups f2 k = file_groups f k)
               \<and> (\<forall>key. key \<noteq> ''hooks'' \<longrightarrow> dget (file_payload f2) key = dget (file_payload f) key)))"
proof -
  obtain q where q: "install_payload vendor (file_payload f) = Inr q" "b = (q \<noteq> None)"
      "f' = (case q of None \<Rightarrow> f | Some p' \<Rightarrow> save_settings p' f)"
      "file_payload f' = (case q of None \<Rightarrow> file_payload f | Some p' \<Rightarrow> p')" "load_settings f' = Inr (file_payload f')"
    by (rule install_file_cases[OF assms(1)])
  note view = install_payload_view[OF q(1), folded c_def q(4)]
  have groups: "file_groups f' k = (if k \<in> set hook_events then with_ours c (file_groups f k) else file_groups f k)" for k
    using view(1) by (simp add: file_groups_def)
  then have ours: "\<forall>k\<in>set hook_events. list_ex (has_ours c) (ev_groups (payload_hooks (file_payload f')) k)"
    using with_ours_present by (simp add: file_groups_def)
  have again: "install_file vendor f' = Inr (False, f')"
    using install_payload_again[OF ours[unfolded c_def]] q(5) by (simp add: install_file_def)
  have copy: "hf_copy f' = (if b \<and> hf_copy f = Absent then hf_now f else hf_copy f)"
    using q(2,3) by (auto simp: save_settings_def split: option.splits)
  have undo: "\<exists>f2. uninstall_file vendor f' = Inr (True, f2) \<and> (\<forall>k. file_groups f2 k = file_groups f k)
      \<and> (\<forall>key. key \<noteq> ''hooks'' \<longrightarrow> dget (file_payload f2) key = dget (file_payload f) key)"
    if "\<forall>k\<in>set hook_events. list_all (foreign c) (file_groups f k)"
  proof -
    obtain f2 where f2: "uninstall_file vendor f' = Inr (True, f2)"
        "\<And>k. file_groups f2 k = (if k \<in> set hook_events then stripped c (file_groups f' k) else file_groups f' k)"
        "\<And>key. key \<noteq> ''hooks'' \<Longrightarrow> dget (file_payload f2) key = dget (file_payload f') key"
      using uninstall_restores[OF q(5) meta_eq_to_obj_eq[OF c_def] ours[unfolded c_def]] by blast
    then have "file_groups f2 k = file_groups f k" for k
      using groups that by (simp add: stripped_with_ours)
    then show ?thesis
      using f2 view(3) by auto
  qed
  show ?thesis
    using groups view(3) copy again undo by blast
qed


definition user_group :: json where
  "user_group = JObj [(''matcher'', JStr ''Task''), (''hooks'', JArr [JObj [(''command'', JStr ''notify'')]])]"

definition user_file :: hook_file where
  "user_file = \<lparr>hf_now = Settings (JObj [(''model'', JStr ''x''), (''hooks'', JObj [(''SubagentStop'', JArr [user_group])])]), hf_copy = Absent\<rparr>"

definition hooked_file :: hook_file where
  "hooked_file = (case install_file ''claude'' user_file of Inr (_, f) \<Rightarrow> f | Inl _ \<Rightarrow> user_file)"

lemma hooks_leave_user_settings_witness:
  "install_file ''claude'' user_file = Inr (True, hooked_file)
   \<and> file_groups hooked_file ''SubagentStop'' = [user_group, our_group (hook_command ''claude'')]
   \<and> (\<exists>f2. uninstall_file ''claude'' hooked_file = Inr (True, f2) \<and> (\<forall>k. file_groups f2 k = file_groups user_file k))"
proof -
  have run: "install_file ''claude'' user_file = Inr (True, hooked_file)"
    by code_simp
  have "\<forall>k\<in>set hook_events. list_all (foreign (hook_command ''claude'')) (file_groups user_file k)"
    by (simp add: hook_events_def user_file_def user_group_def file_groups_def file_payload_def payload_hooks_def
        ev_groups_def dget_def foreign_def has_ours_def group_handlers_def is_ours_def hook_command_def)
  moreover have "file_groups hooked_file ''SubagentStop'' = [user_group, our_group (hook_command ''claude'')]"
    by code_simp
  ultimately show ?thesis
    using run hooks_leave_user_settings[OF run] by blast
qed

end
