(* ===== verification/Regex.thy ===== *)
theory Regex
  imports Glob
begin

text \<open>
  The regular expressions of Python's \<open>re\<close> that the quota recognition of \<open>src/orchestrator/agents.py\<close> uses:
  literals with and without case, sets of characters, runs, options, alternatives and word boundaries, matched
  leftmost and in the order a backtracking matcher tries them. The lemmas show that the matcher finds exactly
  what the relation of matches allows.
\<close>

text \<open>\<open>RRun P\<close> is a greedy \<open>[P]+\<close>, \<open>ROpt r\<close> a greedy \<open>r?\<close>, \<open>RBound\<close> is \<open>\b\<close>.\<close>

datatype rx =
    REps
  | RSet "char \<Rightarrow> bool"
  | RSeq rx rx
  | RAlt rx rx
  | ROpt rx
  | RRun "char \<Rightarrow> bool"
  | RBound

text \<open>A position in the text: what is before it, reversed, and what follows.\<close>

type_synonym rx_pos = "string \<times> string"

definition at_word :: "string \<Rightarrow> bool" where
  "at_word s = (case s of [] \<Rightarrow> False | c # _ \<Rightarrow> word_char c)"

text \<open>The ends of a run, the longest first.\<close>

primrec run_ends :: "(char \<Rightarrow> bool) \<Rightarrow> string \<Rightarrow> string \<Rightarrow> rx_pos list" where
  "run_ends P b [] = []"
| "run_ends P b (c # s) = (if P c then run_ends P (c # b) s @ [(c # b, s)] else [])"

primrec rx_ends :: "rx \<Rightarrow> rx_pos \<Rightarrow> rx_pos list" where
  "rx_ends REps st = [st]"
| "rx_ends (RSet P) st = (case snd st of [] \<Rightarrow> [] | c # s \<Rightarrow> if P c then [(c # fst st, s)] else [])"
| "rx_ends (RSeq r q) st = concat (map (rx_ends q) (rx_ends r st))"
| "rx_ends (RAlt r q) st = rx_ends r st @ rx_ends q st"
| "rx_ends (ROpt r) st = rx_ends r st @ [st]"
| "rx_ends (RRun P) st = run_ends P (fst st) (snd st)"
| "rx_ends RBound st = (if at_word (fst st) \<noteq> at_word (snd st) then [st] else [])"

text \<open>The text a match consumed; a pattern in parts, with the text of every part of its first match.\<close>

definition consumed :: "rx_pos \<Rightarrow> rx_pos \<Rightarrow> string" where
  "consumed st st' = take (length (snd st) - length (snd st')) (snd st)"

primrec captures :: "rx list \<Rightarrow> rx_pos \<Rightarrow> string list list" where
  "captures [] st = [[]]"
| "captures (r # rs) st = concat (map (\<lambda>st'. map ((#) (consumed st st')) (captures rs st')) (rx_ends r st))"

primrec search_from :: "rx list \<Rightarrow> string \<Rightarrow> string \<Rightarrow> string list option" where
  "search_from rs b [] = (case captures rs (b, []) of [] \<Rightarrow> None | g # _ \<Rightarrow> Some g)"
| "search_from rs b (c # s) =
     (case captures rs (b, c # s) of [] \<Rightarrow> search_from rs (c # b) s | g # _ \<Rightarrow> Some g)"

definition rx_search :: "rx list \<Rightarrow> string \<Rightarrow> string list option" where
  "rx_search rs txt = search_from rs [] txt"

section \<open>Building patterns\<close>

primrec lit :: "string \<Rightarrow> rx" where
  "lit [] = REps"
| "lit (c # s) = RSeq (RSet (\<lambda>x. x = c)) (lit s)"

primrec ilit :: "string \<Rightarrow> rx" where
  "ilit [] = REps"
| "ilit (c # s) = RSeq (RSet (\<lambda>x. lower_char x = c)) (ilit s)"

primrec times :: "nat \<Rightarrow> rx \<Rightarrow> rx" where
  "times 0 r = REps"
| "times (Suc n) r = RSeq r (times n r)"

primrec up_to :: "nat \<Rightarrow> rx \<Rightarrow> rx" where
  "up_to 0 r = REps"
| "up_to (Suc n) r = ROpt (RSeq r (up_to n r))"

primrec one_of :: "rx list \<Rightarrow> rx" where
  "one_of [] = RSet (\<lambda>_. False)"
| "one_of (r # rs) = (if rs = [] then r else RAlt r (one_of rs))"

section \<open>What a pattern matches\<close>

text \<open>\<open>rx_match r b m a\<close>: between the texts \<open>b\<close> and \<open>a\<close>, the pattern matches \<open>m\<close>.\<close>

inductive rx_match :: "rx \<Rightarrow> string \<Rightarrow> string \<Rightarrow> string \<Rightarrow> bool" where
  eps: "rx_match REps b [] a"
| set: "P c \<Longrightarrow> rx_match (RSet P) b [c] a"
| seq: "rx_match r b m (n @ a) \<Longrightarrow> rx_match q (b @ m) n a \<Longrightarrow> rx_match (RSeq r q) b (m @ n) a"
| left: "rx_match r b m a \<Longrightarrow> rx_match (RAlt r q) b m a"
| right: "rx_match q b m a \<Longrightarrow> rx_match (RAlt r q) b m a"
| skip: "rx_match (ROpt r) b [] a"
| opt: "rx_match r b m a \<Longrightarrow> rx_match (ROpt r) b m a"
| run: "m \<noteq> [] \<Longrightarrow> list_all P m \<Longrightarrow> rx_match (RRun P) b m a"
| bound: "at_word (rev b) \<noteq> at_word a \<Longrightarrow> rx_match RBound b [] a"

inductive_simps rx_match_simps:
  "rx_match REps b m a"
  "rx_match (RSet P) b m a"
  "rx_match (RSeq r q) b m a"
  "rx_match (RAlt r q) b m a"
  "rx_match (ROpt r) b m a"
  "rx_match (RRun P) b m a"
  "rx_match RBound b m a"

definition occurs :: "rx \<Rightarrow> string \<Rightarrow> bool" where
  "occurs r txt \<longleftrightarrow> (\<exists>b m a. txt = b @ m @ a \<and> rx_match r b m a)"

lemma run_ends_iff:
  "(b', s') \<in> set (run_ends P b s) \<longleftrightarrow> (\<exists>m. s = m @ s' \<and> b' = rev m @ b \<and> m \<noteq> [] \<and> list_all P m)"
proof (induction s arbitrary: b)
  case (Cons c s)
  have "(\<exists>m. c # s = m @ s' \<and> b' = rev m @ b \<and> m \<noteq> [] \<and> list_all P m)
      \<longleftrightarrow> P c \<and> (b' = c # b \<and> s' = s \<or> (\<exists>m. s = m @ s' \<and> b' = rev m @ c # b \<and> m \<noteq> [] \<and> list_all P m))"
    (is "?L \<longleftrightarrow> ?R")
  proof
    assume ?L
    then obtain m where m: "c # s = m @ s'" "b' = rev m @ b" "m \<noteq> []" "list_all P m"
      by blast
    then obtain n where "m = c # n"
      by (cases m) auto
    then show ?R
      using m by (cases "n = []") auto
  next
    assume ?R
    then consider "P c" "b' = c # b" "s' = s"
      | m where "P c" "s = m @ s'" "b' = rev m @ c # b" "list_all P m"
      by blast
    then show ?L
    proof cases
      case 1
      then show ?L by (intro exI[of _ "[c]"]) simp
    next
      case 2
      then show ?L by (intro exI[of _ "c # m"]) simp
    qed
  qed
  then show ?case
    using Cons by auto
qed auto

lemma rx_ends_iff:
  "(b', s') \<in> set (rx_ends r (b, s)) \<longleftrightarrow> (\<exists>m. s = m @ s' \<and> b' = rev m @ b \<and> rx_match r (rev b) m s')"
proof (induction r arbitrary: b s b' s')
  case (RSeq r q)
  have "(b', s') \<in> set (rx_ends (RSeq r q) (b, s))
      \<longleftrightarrow> (\<exists>m n. s = m @ n @ s' \<and> b' = rev n @ rev m @ b \<and> rx_match r (rev b) m (n @ s') \<and> rx_match q (rev b @ m) n s')"
    (is "?L \<longleftrightarrow> ?R")
  proof
    assume ?L
    then obtain bm sm where 1: "(bm, sm) \<in> set (rx_ends r (b, s))" "(b', s') \<in> set (rx_ends q (bm, sm))"
      by auto
    then obtain m where "s = m @ sm" "bm = rev m @ b" "rx_match r (rev b) m sm"
      using RSeq.IH(1) by blast
    moreover from 1 obtain n where "sm = n @ s'" "b' = rev n @ bm" "rx_match q (rev bm) n s'"
      using RSeq.IH(2) by blast
    ultimately show ?R
      by auto
  next
    assume ?R
    then obtain m n where mn: "s = m @ n @ s'" "b' = rev n @ rev m @ b" "rx_match r (rev b) m (n @ s')"
      "rx_match q (rev b @ m) n s'"
      by blast
    then have "(rev m @ b, n @ s') \<in> set (rx_ends r (b, s))" "(b', s') \<in> set (rx_ends q (rev m @ b, n @ s'))"
      by (subst RSeq.IH; force)+
    then show ?L
      by force
  qed
  then show ?case
    by (simp only: rx_match_simps) (intro iffI; elim exE conjE; force)
next
  case (RAlt r q)
  then show ?case by (auto simp: rx_match_simps)
next
  case (ROpt r)
  then show ?case by (auto simp: rx_match_simps)
next
  case (RRun P)
  then show ?case by (auto simp: rx_match_simps run_ends_iff)
qed (auto simp: rx_match_simps split: list.splits)

text \<open>A pattern in parts, as one pattern.\<close>

primrec seq_all :: "rx list \<Rightarrow> rx" where
  "seq_all [] = REps"
| "seq_all (r # rs) = RSeq r (seq_all rs)"

lemma captures_ends: "captures rs st \<noteq> [] \<longleftrightarrow> rx_ends (seq_all rs) st \<noteq> []"
  by (induction rs arbitrary: st) auto

lemma captures_match: "captures rs (rev b, s) \<noteq> [] \<longleftrightarrow> (\<exists>m a. s = m @ a \<and> rx_match (seq_all rs) b m a)"
proof -
  have "rx_ends (seq_all rs) (rev b, s) \<noteq> [] \<longleftrightarrow> (\<exists>b' s'. (b', s') \<in> set (rx_ends (seq_all rs) (rev b, s)))"
    by (metis all_not_in_conv set_empty surj_pair)
  then show ?thesis
    by (auto simp: captures_ends rx_ends_iff)
qed

lemma search_from_iff:
  "search_from rs (rev b) s \<noteq> None \<longleftrightarrow> (\<exists>x m a. s = x @ m @ a \<and> rx_match (seq_all rs) (b @ x) m a)"
proof (induction s arbitrary: b)
  case Nil
  then show ?case
    using captures_match[of rs b "[]"] by (cases "captures rs (rev b, [])") auto
next
  case (Cons c s)
  note step = Cons[of "b @ [c]"]
  show ?case
  proof (cases "captures rs (rev b, c # s)")
    case Nil
    then have none: "\<not> (\<exists>m a. c # s = m @ a \<and> rx_match (seq_all rs) b m a)"
      using captures_match[of rs b "c # s"] by auto
    have "search_from rs (rev b) (c # s) \<noteq> None \<longleftrightarrow> (\<exists>x m a. s = x @ m @ a \<and> rx_match (seq_all rs) ((b @ [c]) @ x) m a)"
      using Nil step by simp
    also have "\<dots> \<longleftrightarrow> (\<exists>x m a. c # s = x @ m @ a \<and> rx_match (seq_all rs) (b @ x) m a)"
    proof
      assume "\<exists>x m a. s = x @ m @ a \<and> rx_match (seq_all rs) ((b @ [c]) @ x) m a"
      then obtain x m a where "s = x @ m @ a" "rx_match (seq_all rs) (b @ (c # x)) m a"
        by auto
      then show "\<exists>x m a. c # s = x @ m @ a \<and> rx_match (seq_all rs) (b @ x) m a"
        by (metis append_Cons)
    next
      assume "\<exists>x m a. c # s = x @ m @ a \<and> rx_match (seq_all rs) (b @ x) m a"
      then obtain x m a where x: "c # s = x @ m @ a" "rx_match (seq_all rs) (b @ x) m a"
        by blast
      then obtain y where "x = c # y"
        using none by (cases x) auto
      then show "\<exists>x m a. s = x @ m @ a \<and> rx_match (seq_all rs) ((b @ [c]) @ x) m a"
        using x by auto
    qed
    finally show ?thesis .
  next
    case (Cons g gs)
    then obtain m a where "c # s = m @ a" "rx_match (seq_all rs) b m a"
      using captures_match[of rs b "c # s"] by auto
    then have "\<exists>x m a. c # s = x @ m @ a \<and> rx_match (seq_all rs) (b @ x) m a"
      by (metis append_Nil append_Nil2)
    then show ?thesis
      using Cons by simp
  qed
qed

theorem rx_search_iff: "rx_search rs txt \<noteq> None \<longleftrightarrow> occurs (seq_all rs) txt"
  using search_from_iff[of rs "[]" "txt"] by (simp add: rx_search_def occurs_def)

end
