(* ===== verification/Quota_Signal.thy ===== *)
theory Quota_Signal
  imports Regex Quota
begin

text \<open>
  Model of \<open>detect_quota\<close> of \<open>src/orchestrator/agents.py\<close>: whether the output of an agent says that its quota
  is used up, and when the quota is reset. Times are microseconds since 1970, as in \<open>Quota\<close>; \<open>datetime\<close> holds
  the years 1 to 9999.
\<close>

section \<open>Dates\<close>

definition leap_year :: "int \<Rightarrow> bool" where
  "leap_year y \<longleftrightarrow> y mod 4 = 0 \<and> (y mod 100 \<noteq> 0 \<or> y mod 400 = 0)"

definition month_lengths :: "int \<Rightarrow> int list" where
  "month_lengths y = [31, if leap_year y then 29 else 28, 31, 30, 31, 30, 31, 31, 30, 31, 30, 31]"

definition days_before_year :: "int \<Rightarrow> int" where
  "days_before_year y = 365 * (y - 1) + (y - 1) div 4 - (y - 1) div 100 + (y - 1) div 400"

text \<open>Days since 1970; 719162 days lie between the first day of the year 1 and that day.\<close>

definition epoch_days :: "int \<Rightarrow> int \<Rightarrow> int \<Rightarrow> int" where
  "epoch_days y m d = days_before_year y + sum_list (take (nat (m - 1)) (month_lengths y)) + (d - 1) - 719162"

definition valid_date :: "int \<Rightarrow> int \<Rightarrow> int \<Rightarrow> bool" where
  "valid_date y m d \<longleftrightarrow> 1 \<le> y \<and> y \<le> 9999 \<and> 1 \<le> m \<and> m \<le> 12 \<and> 1 \<le> d \<and> d \<le> month_lengths y ! nat (m - 1)"

definition micros :: int where
  "micros = 1000000"

definition last_second :: int where
  "last_second = 253402300799"

text \<open>The first and the last instant \<open>datetime\<close> holds.\<close>

definition first_stamp :: int where
  "first_stamp = - 62135596800 * micros"

definition last_stamp :: int where
  "last_stamp = last_second * micros + 999999"

text \<open>
  \<open>datetime.fromisoformat\<close> of \<open>YYYY-MM-DD HH:MM\<close> or \<open>YYYY-MM-DD HH:MM:SS\<close>, whose digits the pattern has already
  checked; the result has no zone and is read as UTC. \<open>None\<close> is the \<open>ValueError\<close> of a field out of its range.
\<close>

primrec digits_int :: "int \<Rightarrow> string \<Rightarrow> int" where
  "digits_int acc [] = acc"
| "digits_int acc (c # cs) = digits_int (10 * acc + (ord c - 48)) cs"

definition field :: "nat \<Rightarrow> nat \<Rightarrow> string \<Rightarrow> int" where
  "field i n s = digits_int 0 (take n (drop i s))"

definition from_iso :: "string \<Rightarrow> int option" where
  "from_iso s =
     (let h = field 11 2 s; mi = field 14 2 s; sec = (if length s > 16 then field 17 2 s else 0) in
      if valid_date (field 0 4 s) (field 5 2 s) (field 8 2 s) \<and> h < 24 \<and> mi < 60 \<and> sec < 60
      then Some ((epoch_days (field 0 4 s) (field 5 2 s) (field 8 2 s) * 86400 + h * 3600 + mi * 60 + sec) * micros)
      else None)"

section \<open>The patterns\<close>

definition spaces :: rx where
  "spaces = RRun is_space"

definition rate_limit :: rx where
  "rate_limit =
     seq_all
       [ilit ''rate'', ROpt (RSet (\<lambda>c. c \<noteq> CHR 0x0A)), ilit ''limit'',
        ROpt (one_of [ilit ''s'', ilit ''ed'', ilit ''ing'']), spaces,
        ROpt (one_of [seq_all [ilit ''is'', spaces], seq_all [ilit ''was'', spaces],
                      seq_all [ilit ''has'', spaces, ilit ''been'', spaces], seq_all [ilit ''been'', spaces]]),
        one_of [seq_all [ilit ''exceed'', ROpt (ilit ''ed'')], seq_all [ilit ''reach'', ROpt (ilit ''ed'')],
                ilit ''hit'', seq_all [ilit ''throttl'', ROpt (one_of [ilit ''ed'', ilit ''ing''])], ilit ''exhausted''],
        RBound]"

definition http_429 :: rx where
  "http_429 =
     seq_all
       [one_of [ilit ''http'', seq_all [ilit ''status'', ROpt (ilit '' code'')], ilit ''error'', ilit ''code''],
        spaces, lit ''429'', RBound]"

definition quota_text_patterns :: "rx list" where
  "quota_text_patterns =
     [ilit ''usage limit'', ilit ''hit your limit'', ilit ''too many requests'', ilit ''quota exceeded'', rate_limit, http_429]"

text \<open>The parts of a pattern with a group: the group is the last part, or the second of three and more.\<close>

definition epoch_re :: "rx list" where
  "epoch_re = [lit ''limit reached|'', seq_all [times 9 (RSet is_digit), up_to 3 (RSet is_digit)]]"

definition resets :: "string \<Rightarrow> rx" where
  "resets word = seq_all [ilit ''reset'', ROpt (ilit ''s''), ilit word]"

definition digits_re :: "nat \<Rightarrow> rx" where
  "digits_re n = times n (RSet is_digit)"

definition resets_at_iso_re :: "rx list" where
  "resets_at_iso_re =
     [resets '' at '',
      seq_all [digits_re 4, lit ''-'', digits_re 2, lit ''-'', digits_re 2, RSet (\<lambda>c. lower_char c \<in> {CHR ''t'', CHR '' ''}),
               digits_re 2, lit '':'', digits_re 2, ROpt (seq_all [lit '':'', digits_re 2])]]"

definition resets_in_re :: "rx list" where
  "resets_in_re =
     [resets '' in '', RRun is_digit, ROpt spaces,
      one_of [seq_all [ilit ''minute'', ROpt (ilit ''s'')], seq_all [ilit ''min'', ROpt (ilit ''s'')],
              seq_all [ilit ''hour'', ROpt (ilit ''s'')], seq_all [ilit ''hr'', ROpt (ilit ''s'')]]]"

section \<open>The signal\<close>

definition group :: "nat \<Rightarrow> rx list \<Rightarrow> string \<Rightarrow> string option" where
  "group i rs txt = map_option (\<lambda>gs. gs ! i) (rx_search rs txt)"

definition is_quota :: "string \<Rightarrow> bool" where
  "is_quota txt = list_ex (\<lambda>r. rx_search [r] txt \<noteq> None) quota_text_patterns"

text \<open>\<open>datetime.fromtimestamp\<close> of the digits, when the year is in range.\<close>

definition epoch_reset :: "string \<Rightarrow> int option" where
  "epoch_reset txt =
     (case group 1 epoch_re txt of
        None \<Rightarrow> None
      | Some g \<Rightarrow> let n = digits_int 0 g in if n \<le> last_second then Some (n * micros) else None)"

text \<open>A span whose digits \<open>int\<close> refuses, or that leads past the last instant, raises and is caught.\<close>

definition span_reset :: "string \<Rightarrow> string \<Rightarrow> int \<Rightarrow> int option" where
  "span_reset amount unit now =
     (let n = digits_int 0 amount;
          minutes = (if prefix ''hour'' (lower unit) \<or> prefix ''hr'' (lower unit) then n * 60 else n);
          t = now + minutes * 60 * micros
      in if length amount \<le> 4300 \<and> t \<le> last_stamp then Some t else None)"

definition detect_quota :: "string \<Rightarrow> int \<Rightarrow> int option option" where
  "detect_quota txt now =
     (if \<not> is_quota txt then None
      else case epoch_reset txt of
        Some t \<Rightarrow> Some (Some t)
      | None \<Rightarrow>
          (case group 1 resets_at_iso_re txt of
             Some g \<Rightarrow> Some (from_iso g)
           | None \<Rightarrow>
               (case rx_search resets_in_re txt of
                  Some gs \<Rightarrow> Some (span_reset (gs ! 1) (gs ! 3) now)
                | None \<Rightarrow> Some None)))"

section \<open>What a signal says\<close>

lemma is_quota_iff: "is_quota s \<longleftrightarrow> (\<exists>r\<in>set quota_text_patterns. occurs r s)"
proof -
  have "rx_match (seq_all [r]) b m a \<longleftrightarrow> rx_match r b m a" for r b m a
    by (auto simp: rx_match_simps)
  then have "rx_search [r] s \<noteq> None \<longleftrightarrow> occurs r s" for r
    unfolding rx_search_iff occurs_def by simp
  then show ?thesis
    by (simp add: is_quota_def list_ex_iff del: not_None_eq)
qed

lemma detect_quota_iff: "detect_quota s now \<noteq> None \<longleftrightarrow> (\<exists>r\<in>set quota_text_patterns. occurs r s)"
  unfolding is_quota_iff[symmetric] by (simp add: detect_quota_def split: option.split)

lemma digits_int_nonneg: "0 \<le> acc \<Longrightarrow> list_all is_digit s \<Longrightarrow> 0 \<le> digits_int acc s"
  by (induction s arbitrary: acc) (simp_all add: is_digit_def Let_def)

text \<open>Every part of a match is matched by its pattern.\<close>

lemma captures_parts:
  "gs \<in> set (captures rs (rev b, s)) \<Longrightarrow> i < length rs \<Longrightarrow> \<exists>b a. rx_match (rs ! i) b (gs ! i) a"
proof (induction rs arbitrary: b s gs i)
  case (Cons r rs)
  then obtain b' s' hs where st: "(b', s') \<in> set (rx_ends r (rev b, s))" "hs \<in> set (captures rs (b', s'))"
    "gs = consumed (rev b, s) (b', s') # hs"
    by auto
  obtain m where m: "s = m @ s'" "rx_match r b m s'"
    using st(1) by (auto simp: rx_ends_iff)
  have "consumed (rev b, s) (b', s') = m"
    by (simp add: consumed_def m(1))
  then show ?case
    using m st Cons.IH[of hs "rev b'" s'] Cons.prems(2) by (cases i) auto
qed simp

lemma search_from_captures: "search_from rs b s = Some gs \<Longrightarrow> \<exists>b' s'. gs \<in> set (captures rs (rev b', s'))"
proof (induction s arbitrary: b)
  case Nil
  then show ?case
    by (intro exI[of _ "rev b"] exI[of _ "[]"]) (auto split: list.splits)
next
  case (Cons c s)
  show ?case
  proof (cases "captures rs (b, c # s)")
    case Nil
    then show ?thesis
      using Cons by simp
  next
    case (Cons g gs')
    then show ?thesis
      using Cons.prems by (intro exI[of _ "rev b"] exI[of _ "c # s"]) auto
  qed
qed

lemma search_parts: "rx_search rs s = Some gs \<Longrightarrow> i < length rs \<Longrightarrow> \<exists>b a. rx_match (rs ! i) b (gs ! i) a"
  unfolding rx_search_def using search_from_captures captures_parts by metis

lemma group_part: "group i rs s = Some g \<Longrightarrow> i < length rs \<Longrightarrow> \<exists>b a. rx_match (rs ! i) b g a"
  using search_parts by (auto simp: group_def)

text \<open>A pattern of digits alone matches digits.\<close>

lemma times_digits: "rx_match (times n (RSet P)) b m a \<Longrightarrow> list_all P m"
  by (induction n arbitrary: b m) (auto simp: rx_match_simps)

lemma up_to_digits: "rx_match (up_to n (RSet P)) b m a \<Longrightarrow> list_all P m"
  by (induction n arbitrary: b m) (auto simp: rx_match_simps)

lemma epoch_reset_range: "epoch_reset s = Some t \<Longrightarrow> 0 \<le> t \<and> t \<le> last_stamp"
proof -
  assume t: "epoch_reset s = Some t"
  then obtain g where g: "group 1 epoch_re s = Some g" "digits_int 0 g \<le> last_second" "t = digits_int 0 g * micros"
    by (auto simp: epoch_reset_def Let_def split: option.splits if_splits)
  obtain b a where "rx_match (seq_all [times 9 (RSet is_digit), up_to 3 (RSet is_digit)]) b g a"
    using group_part[OF g(1)] by (auto simp: epoch_re_def)
  then have "list_all is_digit g"
    by (auto simp: rx_match_simps dest: times_digits up_to_digits simp del: times.simps up_to.simps)
  then show ?thesis
    using g digits_int_nonneg[of 0 g] by (simp add: last_stamp_def micros_def)
qed

lemma span_reset_range:
  "first_stamp \<le> now \<Longrightarrow> list_all is_digit g \<Longrightarrow> span_reset g unit now = Some t \<Longrightarrow> first_stamp \<le> t \<and> t \<le> last_stamp"
  using digits_int_nonneg[of 0 g] by (auto simp: span_reset_def Let_def micros_def split: if_splits)

lemma div_next:
  fixes y k :: int
  assumes "0 < k"
  shows "y div k = (y - 1) div k + (if y mod k = 0 then 1 else 0)"
proof -
  define q r where "q = (y - 1) div k" and "r = (y - 1) mod k"
  have y: "y = q * k + (r + 1)" and r: "0 \<le> r" "r < k"
    using assms div_mult_mod_eq[of "y - 1" k] by (simp_all add: q_def r_def)
  show ?thesis
  proof (cases "r + 1 = k")
    case True
    then have "y = (q + 1) * k"
      using y by (simp add: algebra_simps)
    then have "y div k = q + 1" "y mod k = 0"
      using assms by simp_all
    then show ?thesis
      by (simp add: q_def)
  next
    case False
    then have "(r + 1) div k = 0" "(r + 1) mod k = r + 1"
      using r by (simp_all add: div_pos_pos_trivial)
    then have "y div k = q" "y mod k = r + 1"
      using y assms by simp_all
    then show ?thesis
      using r by (simp add: q_def)
  qed
qed

lemma year_step:
  fixes y :: int
  assumes "a4 = b4 + (if p then 1 else 0)" "a100 = b100 + (if q then 1 else 0)" "a400 = b400 + (if r then 1 else 0)"
    and "q \<Longrightarrow> p" "r \<Longrightarrow> q"
  shows "365 * y + a4 - a100 + a400 = 365 * (y - 1) + b4 - b100 + b400 + (if p \<and> (\<not> q \<or> r) then 366 else 365)"
  using assms by (cases p; cases q; cases r) simp_all

lemma year_length: "days_before_year (y + 1) = days_before_year y + (if leap_year y then 366 else 365)"
proof -
  have cancel: "y mod 100 = 0 \<Longrightarrow> y mod 4 = 0" "y mod 400 = 0 \<Longrightarrow> y mod 100 = 0"
    using mod_mod_cancel[of 4 100 y] mod_mod_cancel[of 100 400 y] by simp_all
  show ?thesis
    unfolding days_before_year_def leap_year_def add_diff_cancel_right'
    by (rule year_step[OF div_next div_next div_next cancel]) simp_all
qed

lemma days_before_year_mono: "x \<le> y \<Longrightarrow> days_before_year x \<le> days_before_year y"
  by (induction rule: int_ge_induct) (simp_all add: year_length)

lemma day_of_year:
  assumes "1 \<le> m" "m \<le> 12" "1 \<le> d" "d \<le> month_lengths y ! nat (m - 1)"
  shows "0 \<le> sum_list (take (nat (m - 1)) (month_lengths y)) + (d - 1)
       \<and> sum_list (take (nat (m - 1)) (month_lengths y)) + (d - 1) < (if leap_year y then 366 else 365)"
proof -
  have "m = 1 \<or> m = 2 \<or> m = 3 \<or> m = 4 \<or> m = 5 \<or> m = 6 \<or> m = 7 \<or> m = 8 \<or> m = 9 \<or> m = 10 \<or> m = 11 \<or> m = 12"
    using assms(1,2) by arith
  then show ?thesis
    using assms(3,4) by (elim disjE) (simp_all add: month_lengths_def split: if_splits)
qed

lemma epoch_days_range: "valid_date y m d \<Longrightarrow> -719162 \<le> epoch_days y m d \<and> epoch_days y m d \<le> 2932896"
proof -
  assume v: "valid_date y m d"
  then have d: "0 \<le> sum_list (take (nat (m - 1)) (month_lengths y)) + (d - 1)
       \<and> days_before_year y + sum_list (take (nat (m - 1)) (month_lengths y)) + (d - 1) < days_before_year (y + 1)"
    using day_of_year[of m d y] by (simp add: valid_date_def year_length)
  moreover have "days_before_year 1 \<le> days_before_year y" "days_before_year (y + 1) \<le> days_before_year 10000"
    using v by (auto intro: days_before_year_mono simp: valid_date_def)
  moreover have "days_before_year 1 = 0" "days_before_year 10000 = 3652059"
    by (simp_all add: days_before_year_def)
  ultimately show ?thesis
    by (simp add: epoch_days_def)
qed

lemma from_iso_range: "list_all is_digit (take 2 (drop 11 s)) \<and> list_all is_digit (take 2 (drop 14 s))
    \<and> list_all is_digit (take 2 (drop 17 s)) \<Longrightarrow> from_iso s = Some t \<Longrightarrow> first_stamp \<le> t \<and> t \<le> last_stamp"
proof -
  assume digits: "list_all is_digit (take 2 (drop 11 s)) \<and> list_all is_digit (take 2 (drop 14 s))
    \<and> list_all is_digit (take 2 (drop 17 s))"
  assume t: "from_iso s = Some t"
  define sec where "sec = (if length s > 16 then field 17 2 s else 0)"
  define e where "e = epoch_days (field 0 4 s) (field 5 2 s) (field 8 2 s)"
  have v: "valid_date (field 0 4 s) (field 5 2 s) (field 8 2 s)" "field 11 2 s < 24" "field 14 2 s < 60" "sec < 60"
    and eq: "t = (e * 86400 + field 11 2 s * 3600 + field 14 2 s * 60 + sec) * micros"
    using t by (auto simp: from_iso_def Let_def sec_def e_def split: if_splits)
  have "0 \<le> field 11 2 s" "0 \<le> field 14 2 s" "0 \<le> sec"
    using digits digits_int_nonneg by (auto simp: field_def sec_def)
  moreover have "-719162 \<le> e \<and> e \<le> 2932896"
    using epoch_days_range[OF v(1)] by (simp add: e_def)
  ultimately show ?thesis
    using v eq by (simp add: first_stamp_def last_stamp_def last_second_def micros_def)
qed

lemma iso_digits:
  assumes "rx_match (resets_at_iso_re ! 1) b g a"
  shows "list_all is_digit (take 2 (drop 11 g)) \<and> list_all is_digit (take 2 (drop 14 g)) \<and> list_all is_digit (take 2 (drop 17 g))"
  using assms by (auto simp: resets_at_iso_re_def digits_re_def numeral_eq_Suc rx_match_simps)

lemma detect_quota_range:
  assumes "first_stamp \<le> now" "detect_quota s now = Some (Some t)"
  shows "first_stamp \<le> t \<and> t \<le> last_stamp"
proof (cases "epoch_reset s")
  case (Some t')
  then show ?thesis
    using assms(2) epoch_reset_range[OF Some] by (auto simp: detect_quota_def first_stamp_def micros_def split: if_splits)
next
  case epoch: None
  show ?thesis
  proof (cases "group 1 resets_at_iso_re s")
    case (Some g)
    then obtain b a where "rx_match (resets_at_iso_re ! 1) b g a"
      using group_part[OF Some] by (auto simp: resets_at_iso_re_def)
    then show ?thesis
      using from_iso_range[OF iso_digits] epoch Some assms(2) by (auto simp: detect_quota_def split: if_splits)
  next
    case None
    then obtain gs where gs: "rx_search resets_in_re s = Some gs" "span_reset (gs ! 1) (gs ! 3) now = Some t"
      using epoch assms(2) by (auto simp: detect_quota_def split: if_splits option.splits)
    have "list_all is_digit (gs ! 1)"
      using search_parts[OF gs(1), of 1] by (auto simp: resets_in_re_def rx_match_simps)
    then show ?thesis
      using span_reset_range[OF assms(1) _ gs(2)] by blast
  qed
qed

text \<open>
  C36: the output of an agent counts as a quota message exactly when one of the six patterns of a limit event
  occurs in it, whatever else it says; and a reset time that is read from it is an instant \<open>datetime\<close> holds, so
  that no garbled number ends the loop. The patterns are read by a matcher that is proved to find exactly what
  the relation \<open>rx_match\<close> allows.
\<close>

theorem quota_signal_is_sound:
  assumes "first_stamp \<le> now"
  shows "(detect_quota s now \<noteq> None \<longleftrightarrow> (\<exists>r\<in>set quota_text_patterns. occurs r s))
       \<and> (\<forall>t. detect_quota s now = Some (Some t) \<longrightarrow> first_stamp \<le> t \<and> t \<le> last_stamp)"
  using detect_quota_iff detect_quota_range[OF assms] by blast

lemma quota_signal_is_sound_witness:
  "detect_quota ''usage limit reached|1700000000'' 0 = Some (Some 1700000000000000)
   \<and> detect_quota ''added rate limiting; will retry'' 0 = None
   \<and> occurs (ilit ''quota exceeded'') ''Quota exceeded'' \<and> (\<exists>r\<in>set quota_text_patterns. occurs r ''usage limit reached|1700000000'')"
proof -
  have hit: "detect_quota ''usage limit reached|1700000000'' 0 = Some (Some 1700000000000000)"
    by code_simp
  have "rx_search [ilit ''quota exceeded''] ''Quota exceeded'' \<noteq> None"
    by code_simp
  then have "occurs (ilit ''quota exceeded'') ''Quota exceeded''"
    unfolding rx_search_iff occurs_def by (auto simp: rx_match_simps)
  moreover have "detect_quota ''added rate limiting; will retry'' 0 = None"
    by code_simp
  ultimately show ?thesis
    using hit quota_signal_is_sound[of 0 "''usage limit reached|1700000000''"] by (simp add: first_stamp_def micros_def)
qed

text \<open>
  A reset time in milliseconds has thirteen digits; the pattern takes the first twelve, and the quota is said to
  be reset in the year 7357. The zone of a reset time is not part of the pattern: ten o'clock in another zone is
  read as ten o'clock UTC.
\<close>

lemma milliseconds_are_misread:
  "detect_quota ''usage limit reached|1700000000000'' now = Some (Some 170000000000000000)"
  unfolding detect_quota_def by code_simp

lemma zone_is_ignored:
  "detect_quota ''quota exceeded, resets at 2026-07-01 10:00+02:00'' 0 = detect_quota ''quota exceeded, resets at 2026-07-01 10:00'' 0"
  by code_simp

end
