(* ===== verification/Runners.thy ===== *)
theory Runners
  imports Quota_Signal Testgate
begin

text \<open>
  Model of how \<open>src/orchestrator/agents.py\<close> and \<open>src/orchestrator/testgate.py\<close> start processes: the execution
  functions with their time limits, and the runners and gates built over them. What a started process does is a
  parameter, one of four ends: it exits with a code and two texts, it overruns the limit, it cannot be started,
  or its output is no UTF-8. With this the agents and the gates run on the recognition of \<open>Quota_Signal\<close>.
\<close>

section \<open>Processes\<close>

text \<open>What was read of a stream when the limit was reached: nothing, bytes, or decoded text.\<close>

datatype partial_output = NoOutput | RawOutput string | TextOutput string

datatype proc_end =
    Exited int string string
  | Overran partial_output partial_output
  | NotStarted string
  | NotText

type_synonym 's spawn = "string list \<Rightarrow> string \<Rightarrow> ('s, proc_end) prog"

definition partial_text :: "partial_output \<Rightarrow> string" where
  "partial_text p = (case p of TextOutput s \<Rightarrow> s | _ \<Rightarrow> [])"

text \<open>\<open>_subprocess_exec\<close>; the decoding of the output is not among the errors it catches.\<close>

definition agent_exec :: "int \<Rightarrow> 's spawn \<Rightarrow> string list \<Rightarrow> string \<Rightarrow> ('s, int \<times> string \<times> string) prog" where
  "agent_exec limit spawn cmd stdin =
     bindP (spawn cmd stdin) (\<lambda>e.
       case e of
         Exited rc out err \<Rightarrow> retP (rc, out, err)
       | Overran out err \<Rightarrow> retP (124, partial_text out, ''agent timed out after '' @ str_of_int limit @ ''s'')
       | NotStarted m \<Rightarrow> retP (127, [], ''agent exec failed: '' @ m)
       | NotText \<Rightarrow> throwP UnicodeDecodeError)"

text \<open>\<open>_subprocess_shell_split\<close>: the gate gets no standard input; a shell that is missing is an error.\<close>

definition gate_split :: "int \<Rightarrow> 's spawn \<Rightarrow> string \<Rightarrow> ('s, int \<times> string \<times> string) prog" where
  "gate_split limit spawn command =
     bindP (spawn [''bash'', ''-lc'', command] []) (\<lambda>e.
       case e of
         Exited rc out err \<Rightarrow> retP (rc, out, err)
       | Overran out err \<Rightarrow>
           retP (124, partial_text out, partial_text err @ nl @ ''gate timed out after '' @ str_of_int limit @ ''s'')
       | NotStarted m \<Rightarrow> throwP OSError
       | NotText \<Rightarrow> throwP UnicodeDecodeError)"

definition gate_shell :: "int \<Rightarrow> 's spawn \<Rightarrow> string \<Rightarrow> ('s, int \<times> string) prog" where
  "gate_shell limit spawn = combined_shell (gate_split limit spawn)"

section \<open>Runners and gates\<close>

definition claude_agent :: "json_lib \<Rightarrow> ('s, int) prog \<Rightarrow> int \<Rightarrow> 's spawn \<Rightarrow> string list \<Rightarrow> 's runner" where
  "claude_agent J now limit spawn base_cmd = claude_run J detect_quota now (agent_exec limit spawn) base_cmd"

definition codex_agent :: "('s, int) prog \<Rightarrow> int \<Rightarrow> 's spawn \<Rightarrow> string list \<Rightarrow> 's runner" where
  "codex_agent now limit spawn base_cmd = codex_run detect_quota now (agent_exec limit spawn) base_cmd"

definition default_compose_rel :: string where
  "default_compose_rel = ''.laddy/docker/compose.test.yml''"

record 's docker_gate =
  dg_frontend :: string
  dg_compose :: string
  dg_shell :: "string \<Rightarrow> ('s, int \<times> string) prog"

definition new_docker_gate :: "string \<Rightarrow> int \<Rightarrow> 's spawn \<Rightarrow> 's docker_gate" where
  "new_docker_gate frontend limit spawn =
     \<lparr>dg_frontend = frontend, dg_compose = default_compose_rel, dg_shell = gate_shell limit spawn\<rparr>"

definition run_docker_gate :: "nat \<Rightarrow> 's docker_gate \<Rightarrow> string \<Rightarrow> bool \<Rightarrow> ('s, authoritative_result) prog" where
  "run_docker_gate pid g sha frontend = docker_gate_run pid (dg_shell g) (dg_frontend g) (dg_compose g) sha frontend"

record 's binding_gate_obj =
  bg_compose :: string
  bg_shell :: "string \<Rightarrow> ('s, int \<times> string \<times> string) prog"

definition new_binding_gate :: "int \<Rightarrow> 's spawn \<Rightarrow> 's binding_gate_obj" where
  "new_binding_gate limit spawn = \<lparr>bg_compose = default_compose_rel, bg_shell = gate_split limit spawn\<rparr>"

definition binding_command ::
  "nat \<Rightarrow> 's binding_gate_obj \<Rightarrow> string \<Rightarrow> string \<Rightarrow> string option \<Rightarrow> string \<Rightarrow> string \<Rightarrow> exn + string" where
  "binding_command pid g sha coverage_package trusted_ref compare_ref frontend_gate =
     containerized pid (bg_compose g) sha (binding_gate coverage_package compare_ref frontend_gate) trusted_ref"

definition run_binding_gate ::
  "nat \<Rightarrow> 's binding_gate_obj \<Rightarrow> string \<Rightarrow> string \<Rightarrow> string option \<Rightarrow> string \<Rightarrow> string \<Rightarrow> ('s, binding_result) prog" where
  "run_binding_gate pid g sha coverage_package trusted_ref compare_ref frontend_gate =
     bindP (liftP (binding_command pid g sha coverage_package trusted_ref compare_ref frontend_gate)) (\<lambda>cmd.
     bindP (bg_shell g cmd) (\<lambda>(rc, out, err). retP (parse_binding_output out rc (Some (err @ nl @ out)))))"

lemma run_binding_gate_alt:
  "run_binding_gate pid g sha cov ref cmp fe = binding_gate_run pid (bg_shell g) (bg_compose g) sha cov ref cmp fe"
  by (simp add: run_binding_gate_def binding_gate_run_def binding_command_def)

section \<open>What an agent run reports\<close>

definition stderr_of :: "int \<Rightarrow> proc_end \<Rightarrow> string" where
  "stderr_of limit e =
     (case e of
        Exited rc out err \<Rightarrow> err
      | Overran out err \<Rightarrow> ''agent timed out after '' @ str_of_int limit @ ''s''
      | NotStarted m \<Rightarrow> ''agent exec failed: '' @ m
      | NotText \<Rightarrow> [])"

definition exited_well :: "proc_end \<Rightarrow> bool" where
  "exited_well e = (case e of Exited rc out err \<Rightarrow> rc = 0 | _ \<Rightarrow> False)"

text \<open>A result is fit for the end of its process.\<close>

definition fits :: "int \<Rightarrow> proc_end \<Rightarrow> agent_result \<Rightarrow> bool" where
  "fits limit e r \<longleftrightarrow>
     (ar_exit r = ''ok'' \<and> exited_well e \<and> ar_reset_at r = None)
   \<or> (ar_exit r = ''error'' \<and> ar_reset_at r = None)
   \<or> (ar_exit r = ''quota''
       \<and> (\<exists>x\<in>{ar_text r, []}. \<exists>p\<in>set quota_text_patterns. occurs p (x @ [CHR 0x0A] @ stderr_of limit e))
       \<and> (\<forall>t. ar_reset_at r = Some t \<longrightarrow> first_stamp \<le> t \<and> t \<le> last_stamp))"

definition classified :: "int \<Rightarrow> proc_end \<Rightarrow> 's \<Rightarrow> (exn + agent_result) \<times> 's \<Rightarrow> bool" where
  "classified limit e t res \<longleftrightarrow>
     (if e = NotText then res = (Inl UnicodeDecodeError, t) else \<exists>r. res = (Inr r, t) \<and> fits limit e r)"

definition ticking :: "('s, int) prog \<Rightarrow> bool" where
  "ticking now \<longleftrightarrow> (\<forall>u. \<exists>n. now u = (Inr n, u) \<and> first_stamp \<le> n)"

lemma agent_exec_cases:
  assumes "spawn cmd stdin s = (Inr e, t)" "e \<noteq> NotText"
  obtains rc out where "agent_exec limit spawn cmd stdin s = (Inr (rc, out, stderr_of limit e), t)"
    "rc = 0 \<Longrightarrow> exited_well e"
  using assms by (cases e) (auto simp: agent_exec_def bindP_def retP_def stderr_of_def exited_well_def)

lemma agent_exec_not_text:
  "spawn cmd stdin s = (Inr NotText, t) \<Longrightarrow> agent_exec limit spawn cmd stdin s = (Inl UnicodeDecodeError, t)"
  by (simp add: agent_exec_def bindP_def throwP_def)

lemma error_kind_fits:
  assumes "ticking now"
  obtains k reset where "error_kind detect_quota now x err t = (Inr (k, reset), t)"
    "k = ''error'' \<and> reset = None
     \<or> k = ''quota'' \<and> (\<exists>p\<in>set quota_text_patterns. occurs p (x @ [CHR 0x0A] @ err))
       \<and> (\<forall>u. reset = Some u \<longrightarrow> first_stamp \<le> u \<and> u \<le> last_stamp)"
proof -
  obtain n where n: "now t = (Inr n, t)" "first_stamp \<le> n"
    using assms by (auto simp: ticking_def)
  show thesis
  proof (cases "detect_quota (x @ [CHR 0x0A] @ err) n")
    case None
    then show thesis
      using n that[of "''error''" None] by (simp add: error_kind_def bindP_def retP_def)
  next
    case (Some reset)
    then have "\<exists>p\<in>set quota_text_patterns. occurs p (x @ [CHR 0x0A] @ err)"
      using detect_quota_iff[of "x @ [CHR 0x0A] @ err" n] by simp
    moreover have "\<forall>u. reset = Some u \<longrightarrow> first_stamp \<le> u \<and> u \<le> last_stamp"
      using detect_quota_range[OF n(2)] Some by blast
    ultimately show thesis
      using n Some that[of "''quota''" reset] by (simp add: error_kind_def bindP_def retP_def)
  qed
qed

lemma plain_result_fits:
  assumes "ticking now" "rc = 0 \<Longrightarrow> exited_well e"
  obtains r where "plain_result detect_quota now (rc, out, stderr_of limit e) t = (Inr r, t)" "fits limit e r"
proof (cases "rc = 0")
  case True
  then show thesis
    using that assms(2) by (fastforce simp: plain_result_def bindP_def retP_def fits_def)
next
  case False
  obtain k reset where k: "error_kind detect_quota now out (stderr_of limit e) t = (Inr (k, reset), t)"
    "k = ''error'' \<and> reset = None
     \<or> k = ''quota'' \<and> (\<exists>p\<in>set quota_text_patterns. occurs p (out @ [CHR 0x0A] @ stderr_of limit e))
       \<and> (\<forall>u. reset = Some u \<longrightarrow> first_stamp \<le> u \<and> u \<le> last_stamp)"
    using error_kind_fits[OF assms(1)] by blast
  then show thesis
    using that False by (fastforce simp: plain_result_def bindP_def retP_def fits_def)
qed

lemma codex_classified:
  assumes "ticking now" "spawn cmd prompt s = (Inr e, t)"
  shows "classified limit e t (codex_agent now limit spawn cmd prompt resume s)"
proof (cases "e = NotText")
  case True
  then have "agent_exec limit spawn cmd prompt s = (Inl UnicodeDecodeError, t)"
    using assms(2) by (auto intro: agent_exec_not_text)
  then show ?thesis
    using True by (simp add: classified_def codex_agent_def codex_run_def bindP_def)
next
  case False
  obtain rc out where x: "agent_exec limit spawn cmd prompt s = (Inr (rc, out, stderr_of limit e), t)"
    "rc = 0 \<Longrightarrow> exited_well e"
    using agent_exec_cases[of spawn _ prompt s e t limit, OF assms(2) False] by blast
  obtain r where "plain_result detect_quota now (rc, out, stderr_of limit e) t = (Inr r, t)" "fits limit e r"
    using plain_result_fits[OF assms(1) x(2)] by blast
  then show ?thesis
    using x False by (simp add: classified_def codex_agent_def codex_run_def bindP_def)
qed

definition claude_command :: "string list \<Rightarrow> string option \<Rightarrow> string list" where
  "claude_command cmd resume =
     cmd @ (case resume of None \<Rightarrow> [] | Some r \<Rightarrow> if r = [] then [] else [''--resume'', r])"

text \<open>The answer of Claude: a JSON object with the verdict on itself, or plain text.\<close>

definition claude_answer :: "json_lib \<Rightarrow> ('s, int) prog \<Rightarrow> int \<times> string \<times> string \<Rightarrow> ('s, agent_result) prog" where
  "claude_answer J now = (\<lambda>(rc, out, err).
     case loads J out of
       Some (JObj payload) \<Rightarrow>
         (let is_error = truthy (dget payload ''is_error'') \<or> rc \<noteq> 0;
              session = dget payload ''session_id'';
              txt = py_str (dget_or payload ''result'' (JStr []))
          in bindP (if \<not> is_error then retP (''ok'', None) else error_kind detect_quota now txt err)
               (\<lambda>(reason, reset). retP \<lparr>ar_text = txt,
                  ar_session = (if session = JNull then None else Some (py_str session)),
                  ar_exit = reason, ar_rc = rc, ar_reset_at = reset\<rparr>))
     | _ \<Rightarrow> plain_result detect_quota now (rc, out, err))"

lemma claude_agent_alt:
  "claude_agent J now limit spawn cmd prompt resume =
     bindP (agent_exec limit spawn (claude_command cmd resume) prompt) (claude_answer J now)"
  unfolding claude_agent_def claude_run_def claude_answer_def claude_command_def by (rule refl)

lemma claude_answer_fits:
  assumes "ticking now" "rc = 0 \<Longrightarrow> exited_well e"
  shows "\<exists>r. claude_answer J now (rc, out, stderr_of limit e) t = (Inr r, t) \<and> fits limit e r"
proof (cases "\<exists>payload. loads J out = Some (JObj payload)")
  case False
  then have "claude_answer J now (rc, out, stderr_of limit e) = plain_result detect_quota now (rc, out, stderr_of limit e)"
    by (auto simp: claude_answer_def split: option.split json.split)
  then show ?thesis
    using plain_result_fits[OF assms] by metis
next
  case True
  then obtain payload where p: "loads J out = Some (JObj payload)"
    by blast
  let ?txt = "py_str (dget_or payload ''result'' (JStr []))"
  show ?thesis
  proof (cases "truthy (dget payload ''is_error'') \<or> rc \<noteq> 0")
    case False
    then show ?thesis
      using p assms(2) by (simp add: claude_answer_def bindP_def retP_def fits_def Let_def)
  next
    case True
    obtain k reset where k: "error_kind detect_quota now ?txt (stderr_of limit e) t = (Inr (k, reset), t)"
      "k = ''error'' \<and> reset = None
       \<or> k = ''quota'' \<and> (\<exists>p\<in>set quota_text_patterns. occurs p (?txt @ [CHR 0x0A] @ stderr_of limit e))
         \<and> (\<forall>u. reset = Some u \<longrightarrow> first_stamp \<le> u \<and> u \<le> last_stamp)"
      using error_kind_fits[OF assms(1)] by blast
    then show ?thesis
      using p True by (auto simp: claude_answer_def bindP_def retP_def fits_def Let_def)
  qed
qed

lemma claude_classified:
  assumes "ticking now" "spawn (claude_command cmd resume) prompt s = (Inr e, t)"
  shows "classified limit e t (claude_agent J now limit spawn cmd prompt resume s)"
proof (cases "e = NotText")
  case True
  then have "agent_exec limit spawn (claude_command cmd resume) prompt s = (Inl UnicodeDecodeError, t)"
    using assms(2) by (auto intro: agent_exec_not_text)
  then show ?thesis
    using True by (simp add: classified_def claude_agent_alt bindP_def)
next
  case False
  obtain rc out where x: "agent_exec limit spawn (claude_command cmd resume) prompt s = (Inr (rc, out, stderr_of limit e), t)"
    "rc = 0 \<Longrightarrow> exited_well e"
    using agent_exec_cases[of spawn _ prompt s e t limit, OF assms(2) False] by blast
  then show ?thesis
    using claude_answer_fits[OF assms(1) x(2), where J = J and out = out and limit = limit and t = t] False
    by (simp add: classified_def claude_agent_alt bindP_def)
qed


text \<open>A process that says its limit is reached, or hangs when it is asked to resume.\<close>

definition demo_spawn :: "nat spawn" where
  "demo_spawn cmd stdin n =
     (Inr (if ''--resume'' \<in> set cmd then Overran (RawOutput ''usage limit reached'') NoOutput
           else Exited 1 [] ''usage limit reached|1700000000''), Suc n)"

definition demo_clock :: "(nat, int) prog" where
  "demo_clock n = (Inr (int n), n)"

definition deaf_json :: json_lib where
  "deaf_json = \<lparr>loads = (\<lambda>_. None), object_span = (\<lambda>_. None), dumps = (\<lambda>_. []), dumps_raw = (\<lambda>_. [])\<rparr>"


text \<open>
  The limit message of an agent that hangs is lost: with a time limit the partial output is bytes, which count
  for nothing, so the run is an error and is tried again at once.
\<close>

lemma hanging_quota_is_error:
  "map_sum id (\<lambda>r. (ar_exit r, ar_rc r)) (fst (claude_agent deaf_json demo_clock 3600 demo_spawn [''claude''] ''go'' (Some ''id'') 0))
     = Inr (''error'', 124)"
  by code_simp

lemma shown_quota_is_quota:
  "map_sum id (\<lambda>r. (ar_exit r, ar_reset_at r)) (fst (codex_agent demo_clock 3600 demo_spawn [''codex''] ''go'' None 0))
     = Inr (''quota'', Some 1700000000000000)"
  by code_simp

section \<open>What a gate reports\<close>

lemma gate_split_zero:
  "gate_split limit spawn cmd s = (Inr (0, out, err), t) \<Longrightarrow> spawn [''bash'', ''-lc'', cmd] [] s = (Inr (Exited 0 out err), t)"
proof -
  assume "gate_split limit spawn cmd s = (Inr (0, out, err), t)"
  then obtain e u where "spawn [''bash'', ''-lc'', cmd] [] s = (Inr e, u)"
    "(case e of Exited rc out err \<Rightarrow> retP (rc, out, err)
      | Overran out err \<Rightarrow> retP (124, partial_text out, partial_text err @ nl @ ''gate timed out after '' @ str_of_int limit @ ''s'')
      | NotStarted m \<Rightarrow> throwP OSError
      | NotText \<Rightarrow> throwP UnicodeDecodeError) u = (Inr (0, out, err), t)"
    by (auto simp: gate_split_def bindP_Inr_iff)
  then show ?thesis
    by (cases e) (simp_all add: retP_def throwP_def)
qed

lemma gate_shell_zero:
  "gate_shell limit spawn cmd s = (Inr (0, out), t) \<Longrightarrow> \<exists>x err. spawn [''bash'', ''-lc'', cmd] [] s = (Inr (Exited 0 x err), t)"
  by (auto simp: gate_shell_def combined_shell_def bindP_Inr_iff retP_def dest: gate_split_zero)

lemma docker_gate_passed:
  assumes "run_docker_gate pid (new_docker_gate fe limit spawn) sha front s = (Inr r, t)" "au_passed r"
  shows "\<exists>cmd out err. docker_gate_command pid fe default_compose_rel sha front = Inr cmd
       \<and> spawn [''bash'', ''-lc'', cmd] [] s = (Inr (Exited 0 out err), t)"
  using assms by (fastforce simp: run_docker_gate_def new_docker_gate_def docker_gate_run_def liftP_def retP_def bindP_Inr_iff
      dest: gate_shell_zero)

lemma binding_gate_passed:
  assumes "run_binding_gate pid (new_binding_gate limit spawn) sha cov trusted cmp fe s = (Inr b, u)" "all_pass b"
  shows "\<exists>cmd out err. binding_command pid (new_binding_gate limit spawn) sha cov trusted cmp fe = Inr cmd
       \<and> spawn [''bash'', ''-lc'', cmd] [] s = (Inr (Exited 0 out err), u)"
proof -
  obtain cmd rc out err where run: "binding_command pid (new_binding_gate limit spawn) sha cov trusted cmp fe = Inr cmd"
    "gate_split limit spawn cmd s = (Inr (rc, out, err), u)" "b = parse_binding_output out rc (Some (err @ nl @ out))"
    using assms(1) by (auto simp: run_binding_gate_def new_binding_gate_def bindP_Inr_iff liftP_def retP_def)
  then have "rc = 0"
    using assms(2) by (simp add: binding_gate_exit_code_decides)
  then show ?thesis
    using run gate_split_zero[of limit spawn cmd s out err u] by blast
qed

text \<open>
  C38: neither gate passes unless the command of the gate was started and exited with zero: a shell that is
  missing, a run past its time limit, output that cannot be read, and anything the tests print, all fail it.
\<close>

theorem gates_pass_only_on_exit_zero:
  "(run_docker_gate pid (new_docker_gate fe limit spawn) sha front s = (Inr r, t) \<and> au_passed r \<longrightarrow>
      (\<exists>cmd out err. docker_gate_command pid fe default_compose_rel sha front = Inr cmd
         \<and> spawn [''bash'', ''-lc'', cmd] [] s = (Inr (Exited 0 out err), t)))
   \<and> (run_binding_gate pid (new_binding_gate limit spawn) sha cov trusted cmp fe' s = (Inr b, u) \<and> all_pass b \<longrightarrow>
      (\<exists>cmd out err. binding_command pid (new_binding_gate limit spawn) sha cov trusted cmp fe' = Inr cmd
         \<and> spawn [''bash'', ''-lc'', cmd] [] s = (Inr (Exited 0 out err), u)))"
  using docker_gate_passed[of pid fe limit spawn sha front s r t] binding_gate_passed[of pid limit spawn sha cov trusted cmp fe' s b u]
  by blast

definition good_spawn :: "nat spawn" where
  "good_spawn cmd stdin n = (Inr (Exited 0 ''1 passed'' []), Suc n)"

lemma gates_pass_only_on_exit_zero_witness:
  "\<exists>r b cmd. run_docker_gate 7 (new_docker_gate [] 60 good_spawn) ''abc'' False 0 = (Inr r, 1) \<and> au_passed r
     \<and> run_binding_gate 7 (new_binding_gate 60 good_spawn) ''abc'' ''app'' None ''main'' [] 0 = (Inr b, 1) \<and> all_pass b
     \<and> docker_gate_command 7 [] default_compose_rel ''abc'' False = Inr cmd"
proof -
  have "is_ok (fst (run_docker_gate 7 (new_docker_gate [] 60 good_spawn) ''abc'' False 0))"
    "is_ok (fst (run_binding_gate 7 (new_binding_gate 60 good_spawn) ''abc'' ''app'' None ''main'' [] 0))"
    by code_simp+
  then obtain r t b u where
      r: "run_docker_gate 7 (new_docker_gate [] 60 good_spawn) ''abc'' False 0 = (Inr r, t)"
    and b: "run_binding_gate 7 (new_binding_gate 60 good_spawn) ''abc'' ''app'' None ''main'' [] 0 = (Inr b, u)"
    by (metis is_ok_iff prod.collapse)
  have pass: "au_passed r" "t = 1" "all_pass b" "u = 1"
    using r b by (auto simp: run_docker_gate_def new_docker_gate_def docker_gate_run_def gate_shell_def combined_shell_def
        gate_split_def good_spawn_def run_binding_gate_def new_binding_gate_def bindP_Inr_iff liftP_def retP_def
        parse_binding_output_def all_pass_def)
  then show ?thesis
    using r b gates_pass_only_on_exit_zero[of 7 "[]" 60 good_spawn "''abc''" False 0 r t] by blast
qed

end
