(* ===== verification/Report_Path.thy ===== *)
theory Report_Path
  imports Prog
begin

text \<open>
  Model of \<open>src/monitoring/loop_monitor/report_path.py\<close>: writing a report where the loop asks for it. The file
  system is made of inodes, so that hard links and open descriptors are what they are, and another process
  may change it before every system call; what it does is a parameter, one change per call. What \<open>realpath\<close>
  answers is a parameter too, because the module does not rely on it for the write. The theorem says which
  files such a process can have overwritten, and the lemma after it which one it still can.
\<close>

section \<open>Inodes\<close>

type_synonym ino = nat

datatype inode = IFile string | IDir "string \<Rightarrow> ino option" | ISym string | IFifo

record fs =
  nodes :: "ino \<Rightarrow> inode option"
  nlinks :: "ino \<Rightarrow> nat"
  next_ino :: ino

definition fs_entry :: "fs \<Rightarrow> ino \<Rightarrow> string \<Rightarrow> ino option" where
  "fs_entry s d n = (case nodes s d of Some (IDir m) \<Rightarrow> m n | _ \<Rightarrow> None)"

definition is_dir_ino :: "fs \<Rightarrow> ino \<Rightarrow> bool" where
  "is_dir_ino s d = (case nodes s d of Some (IDir m) \<Rightarrow> True | _ \<Rightarrow> False)"

definition is_file_ino :: "fs \<Rightarrow> ino \<Rightarrow> bool" where
  "is_file_ino s i = (case nodes s i of Some (IFile c) \<Rightarrow> True | _ \<Rightarrow> False)"

definition set_file :: "ino \<Rightarrow> string \<Rightarrow> fs \<Rightarrow> fs" where
  "set_file i c s = s\<lparr>nodes := (nodes s)(i \<mapsto> IFile c)\<rparr>"

definition new_file :: "ino \<Rightarrow> string \<Rightarrow> fs \<Rightarrow> fs" where
  "new_file d n s =
     (case nodes s d of
        Some (IDir m) \<Rightarrow>
          s\<lparr>nodes := (nodes s)(d \<mapsto> IDir (m(n \<mapsto> next_ino s)), next_ino s \<mapsto> IFile []),
            nlinks := (nlinks s)(next_ino s := 1), next_ino := Suc (next_ino s)\<rparr>
      | _ \<Rightarrow> s)"

section \<open>System calls\<close>

text \<open>The calls of one report, before each of which the other process acts.\<close>

datatype call = AtRoot | AtWalk "string list" | AtCreate | AtLstat | AtOpen | AtStat | AtTruncate | AtWrite

type_synonym adversary = "call \<Rightarrow> fs \<Rightarrow> fs"

definition sys :: "adversary \<Rightarrow> call \<Rightarrow> (fs, 'a) prog \<Rightarrow> (fs, 'a) prog" where
  "sys adv c m s = m (adv c s)"

text \<open>\<open>openat\<close> of a directory that is no link.\<close>

definition open_dir :: "ino \<Rightarrow> string \<Rightarrow> (fs, ino option) prog" where
  "open_dir d n = getP (\<lambda>s. case fs_entry s d n of Some i \<Rightarrow> if is_dir_ino s i then Some i else None | None \<Rightarrow> None)"

datatype created = Created ino | Existed | Failed

text \<open>\<open>openat\<close> with \<open>O_CREAT | O_EXCL\<close>: a planted link counts as existing.\<close>

definition create_excl :: "ino \<Rightarrow> string \<Rightarrow> (fs, created) prog" where
  "create_excl d n s =
     (if \<not> is_dir_ino s d then (Inr Failed, s)
      else if fs_entry s d n \<noteq> None then (Inr Existed, s)
      else (Inr (Created (next_ino s)), new_file d n s))"

text \<open>
  \<open>openat\<close> for writing without creating; links and directories are refused. A fifo opens when it has a reader,
  and is refused by the check that follows.
\<close>

definition open_existing :: "ino \<Rightarrow> string \<Rightarrow> (fs, ino option) prog" where
  "open_existing d n =
     getP (\<lambda>s. case fs_entry s d n of
        Some i \<Rightarrow> (case nodes s i of Some (IFile c) \<Rightarrow> Some i | Some IFifo \<Rightarrow> Some i | _ \<Rightarrow> None)
      | None \<Rightarrow> None)"

section \<open>The guard\<close>

definition report_path_error :: exn where
  "report_path_error = OtherError ''ReportPathError''"

text \<open>\<open>Path.suffix\<close> of a name: from the last dot, which is neither the first character nor the last.\<close>

definition path_suffix :: "string \<Rightarrow> string" where
  "path_suffix n =
     (let ext = rev (takeWhile (\<lambda>c. c \<noteq> CHR ''.'') (rev n))
      in if ext \<noteq> [] \<and> length ext + 1 < length n then CHR ''.'' # ext else [])"

definition path_stem :: "string \<Rightarrow> string" where
  "path_stem n = take (length n - length (path_suffix n)) n"

definition file_name :: "string list \<Rightarrow> string" where
  "file_name out = (if out = [] then [] else last out)"

primrec open_parent :: "adversary \<Rightarrow> ino \<Rightarrow> string list \<Rightarrow> (fs, ino) prog" where
  "open_parent adv d [] = retP d"
| "open_parent adv d (p # ps) =
     bindP (sys adv (AtWalk ps) (open_dir d p)) (\<lambda>r.
       case r of None \<Rightarrow> throwP report_path_error | Some d' \<Rightarrow> open_parent adv d' ps)"

text \<open>The root is opened outside of the handler, and its error is passed on as it is.\<close>

definition open_parent_dirfd :: "adversary \<Rightarrow> ino \<Rightarrow> string list \<Rightarrow> (fs, ino) prog" where
  "open_parent_dirfd adv root parts =
     bindP (sys adv AtRoot (getP (\<lambda>s. is_dir_ino s root))) (\<lambda>ok.
       if ok then open_parent adv root parts else throwP OSError)"

definition open_existing_for_force :: "adversary \<Rightarrow> ino \<Rightarrow> string \<Rightarrow> (fs, ino) prog" where
  "open_existing_for_force adv d n =
     bindP (sys adv AtOpen (open_existing d n)) (\<lambda>r.
       case r of
         None \<Rightarrow> throwP report_path_error
       | Some i \<Rightarrow>
           bindP (sys adv AtStat (getP (\<lambda>s. is_file_ino s i \<and> nlinks s i = 1))) (\<lambda>ok.
             if \<not> ok then throwP report_path_error
             else thenP (sys adv AtTruncate (modifyP (set_file i []))) (retP i)))"

text \<open>Without \<open>force\<close> the target is looked at again for the message; when it is gone, that raises.\<close>

definition open_target :: "adversary \<Rightarrow> bool \<Rightarrow> ino \<Rightarrow> string \<Rightarrow> (fs, ino) prog" where
  "open_target adv force d n =
     bindP (sys adv AtCreate (create_excl d n)) (\<lambda>r.
       case r of
         Created i \<Rightarrow> retP i
       | Failed \<Rightarrow> throwP report_path_error
       | Existed \<Rightarrow>
           if force then open_existing_for_force adv d n
           else bindP (sys adv AtLstat (getP (\<lambda>s. fs_entry s d n))) (\<lambda>e.
             if e = None then throwP OSError else throwP report_path_error))"

definition write_report ::
  "adversary \<Rightarrow> (string list \<Rightarrow> string list) \<Rightarrow> ino \<Rightarrow> string \<Rightarrow> string list \<Rightarrow> string list \<Rightarrow> bool \<Rightarrow> (fs, unit) prog" where
  "write_report adv real root_ino body out out_root force =
     (if path_suffix (file_name out) \<noteq> ''.md'' \<or> path_stem (file_name out) = [] then throwP report_path_error
      else
        let root = real out_root; parent = real (butlast out) in
        if \<not> prefix root parent then throwP report_path_error
        else
          bindP (open_parent_dirfd adv root_ino (drop (length root) parent)) (\<lambda>d.
          bindP (open_target adv force d (file_name out)) (\<lambda>i.
            sys adv AtWrite (modifyP (set_file i body)))))"

text \<open>\<open>render_markdown\<close>: a heading, and a hard break after every line that is not blank.\<close>

definition render_line :: "string \<Rightarrow> string" where
  "render_line l = (if strip l \<noteq> [] then l @ ''  '' else l)"

definition render_markdown :: "string \<Rightarrow> string" where
  "render_markdown body =
     (let lf = [CHR 0x0A] in ''# loop-monitor report'' @ lf @ lf @ join lf (map render_line (split_on CHR 0x0A body)) @ lf)"

section \<open>What another process can do\<close>

text \<open>
  Files \<open>P\<close> are protected: each has a name in a directory of \<open>Out\<close>, which no directory outside of \<open>Out\<close> leads
  to. A file with two names has a link count of two or more, and inode numbers are not used before they are given.
\<close>

definition links_counted :: "fs \<Rightarrow> bool" where
  "links_counted s \<longleftrightarrow>
     (\<forall>d n d' n' i. fs_entry s d n = Some i \<longrightarrow> fs_entry s d' n' = Some i \<longrightarrow> (d, n) \<noteq> (d', n') \<longrightarrow> is_file_ino s i \<longrightarrow> 2 \<le> nlinks s i)"

definition numbers_fresh :: "ino set \<Rightarrow> fs \<Rightarrow> bool" where
  "numbers_fresh Out s \<longleftrightarrow>
     (\<forall>i \<ge> next_ino s. nodes s i = None \<and> i \<notin> Out) \<and> (\<forall>d n i. fs_entry s d n = Some i \<longrightarrow> i < next_ino s)"

definition files_named :: "ino set \<Rightarrow> ino set \<Rightarrow> fs \<Rightarrow> bool" where
  "files_named P Out s \<longleftrightarrow> (\<forall>i\<in>P. is_file_ino s i \<and> (\<exists>d\<in>Out. \<exists>n. fs_entry s d n = Some i))"

definition sealed :: "ino set \<Rightarrow> fs \<Rightarrow> bool" where
  "sealed Out s \<longleftrightarrow> (\<forall>d n i. d \<notin> Out \<longrightarrow> fs_entry s d n = Some i \<longrightarrow> i \<notin> Out)"

definition sound_fs :: "ino set \<Rightarrow> ino set \<Rightarrow> fs \<Rightarrow> bool" where
  "sound_fs P Out s \<longleftrightarrow> links_counted s \<and> numbers_fresh Out s \<and> files_named P Out s \<and> sealed Out s"

lemma linksD:
  "sound_fs P Out s \<Longrightarrow> fs_entry s d n = Some i \<Longrightarrow> fs_entry s d' n' = Some i \<Longrightarrow> (d, n) \<noteq> (d', n') \<Longrightarrow> is_file_ino s i \<Longrightarrow>
     2 \<le> nlinks s i"
  unfolding sound_fs_def links_counted_def by blast

lemma freshD: "sound_fs P Out s \<Longrightarrow> next_ino s \<le> i \<Longrightarrow> nodes s i = None \<and> i \<notin> Out"
  unfolding sound_fs_def numbers_fresh_def by blast

lemma belowD: "sound_fs P Out s \<Longrightarrow> fs_entry s d n = Some i \<Longrightarrow> i < next_ino s"
  unfolding sound_fs_def numbers_fresh_def by blast

lemma namedD: "sound_fs P Out s \<Longrightarrow> i \<in> P \<Longrightarrow> is_file_ino s i \<and> (\<exists>d\<in>Out. \<exists>n. fs_entry s d n = Some i)"
  unfolding sound_fs_def files_named_def by blast

lemma sealedD: "sound_fs P Out s \<Longrightarrow> d \<notin> Out \<Longrightarrow> fs_entry s d n = Some i \<Longrightarrow> i \<notin> Out"
  unfolding sound_fs_def sealed_def by blast

text \<open>
  The other process keeps this and does not write to a protected file, to which it has no right; and the number
  of an open file is not given to anything else.
\<close>

definition bounded_adversary :: "ino set \<Rightarrow> ino set \<Rightarrow> adversary \<Rightarrow> bool" where
  "bounded_adversary P Out adv \<longleftrightarrow>
     (\<forall>c s. sound_fs P Out s \<longrightarrow> sound_fs P Out (adv c s) \<and> (\<forall>i\<in>P. nodes (adv c s) i = nodes s i)
       \<and> (\<forall>i. is_file_ino s i \<longrightarrow> is_file_ino (adv c s) i))"

definition spares :: "ino set \<Rightarrow> ino set \<Rightarrow> fs \<Rightarrow> fs \<Rightarrow> bool" where
  "spares P Out s t \<longleftrightarrow> sound_fs P Out t \<and> (\<forall>i\<in>P. nodes t i = nodes s i)"

lemma spares_refl: "sound_fs P Out s \<Longrightarrow> spares P Out s s"
  by (simp add: spares_def)

lemma spares_trans: "spares P Out s t \<Longrightarrow> spares P Out t u \<Longrightarrow> spares P Out s u"
  by (simp add: spares_def)

lemma spares_adv: "bounded_adversary P Out adv \<Longrightarrow> sound_fs P Out s \<Longrightarrow> spares P Out s (adv c s)"
  by (simp add: spares_def bounded_adversary_def)

lemma fs_entry_set_file: "is_file_ino s i \<Longrightarrow> fs_entry (set_file i c s) = fs_entry s"
  by (auto simp: fs_entry_def set_file_def is_file_ino_def fun_eq_iff split: option.splits inode.splits)

lemma is_file_set_file: "is_file_ino s i \<Longrightarrow> is_file_ino (set_file i c s) = is_file_ino s"
  by (auto simp: set_file_def is_file_ino_def fun_eq_iff split: option.splits inode.splits)

lemma spares_set_file:
  assumes "sound_fs P Out s" "is_file_ino s i" "i \<notin> P"
  shows "spares P Out s (set_file i c s)"
proof -
  have same: "nlinks (set_file i c s) = nlinks s" "next_ino (set_file i c s) = next_ino s"
    "nodes (set_file i c s) j = None \<longleftrightarrow> nodes s j = None" for j
    using assms(2) by (auto simp: set_file_def is_file_ino_def split: option.splits)
  have "sound_fs P Out (set_file i c s)"
    using assms(1) unfolding sound_fs_def links_counted_def numbers_fresh_def files_named_def sealed_def
      fs_entry_set_file[OF assms(2)] is_file_set_file[OF assms(2)] same .
  then show ?thesis
    using assms(3) by (auto simp: spares_def set_file_def)
qed

lemma fs_entry_new_file:
  assumes "is_dir_ino s d" "nodes s (next_ino s) = None"
  shows "fs_entry (new_file d n s) d' n' = (if d' = d \<and> n' = n then Some (next_ino s) else fs_entry s d' n')"
  using assms by (auto simp: fs_entry_def new_file_def is_dir_ino_def split: option.splits inode.splits)

lemma is_file_new_file:
  assumes "is_dir_ino s d" "nodes s (next_ino s) = None"
  shows "is_file_ino (new_file d n s) i \<longleftrightarrow> i = next_ino s \<or> is_file_ino s i"
  using assms by (auto simp: new_file_def is_dir_ino_def is_file_ino_def split: option.splits inode.splits)

lemma new_file_fields:
  assumes "is_dir_ino s d"
  shows "nlinks (new_file d n s) = (nlinks s)(next_ino s := 1)" "next_ino (new_file d n s) = Suc (next_ino s)"
    "i \<noteq> d \<Longrightarrow> i \<noteq> next_ino s \<Longrightarrow> nodes (new_file d n s) i = nodes s i"
  using assms by (auto simp: new_file_def is_dir_ino_def split: option.splits inode.splits)

lemma spares_new_file:
  assumes sound: "sound_fs P Out s" and dir: "is_dir_ino s d" and none: "fs_entry s d n = None"
  shows "spares P Out s (new_file d n s)" and "next_ino s \<notin> P"
proof -
  have new: "nodes s (next_ino s) = None"
    using freshD[OF sound, of "next_ino s"] by simp
  note entry = fs_entry_new_file[OF dir new, where n = n] and isfile = is_file_new_file[OF dir new, where n = n]
    and fields = new_file_fields[OF dir, where n = n]
  note below = belowD[OF sound] and P = namedD[OF sound]
  show fresh: "next_ino s \<notin> P"
    using P[of "next_ino s"] new by (auto simp: is_file_ino_def)
  have keep: "nodes (new_file d n s) i = nodes s i" if "i \<in> P" for i
  proof (rule fields(3))
    show "i \<noteq> d" "i \<noteq> next_ino s"
      using P[OF that] fresh that dir by (auto simp: is_file_ino_def is_dir_ino_def split: option.splits inode.splits)
  qed
  have "2 \<le> nlinks (new_file d n s) i"
    if "fs_entry (new_file d n s) d1 n1 = Some i" "fs_entry (new_file d n s) d2 n2 = Some i" "(d1, n1) \<noteq> (d2, n2)"
      "is_file_ino (new_file d n s) i" for d1 n1 d2 n2 i
  proof -
    have "i \<noteq> next_ino s"
      using that(1-3) below[of d1 n1 i] below[of d2 n2 i] by (auto simp: entry split: if_splits)
    then have "fs_entry s d1 n1 = Some i \<and> fs_entry s d2 n2 = Some i \<and> is_file_ino s i"
      using that by (auto simp: entry isfile split: if_splits)
    then show ?thesis
      using linksD[OF sound, of d1 n1 i d2 n2] that(3) \<open>i \<noteq> next_ino s\<close> by (simp add: fields)
  qed
  moreover have "nodes (new_file d n s) i = None \<and> i \<notin> Out" if "Suc (next_ino s) \<le> i" for i
  proof -
    have i: "nodes s i = None" "i \<notin> Out"
      using freshD[OF sound, of i] that by simp_all
    then have "i \<noteq> d"
      using dir by (auto simp: is_dir_ino_def)
    then show ?thesis
      using fields(3)[of i] i that by simp
  qed
  moreover have "i < Suc (next_ino s)" if "fs_entry (new_file d n s) d' n' = Some i" for d' n' i
    using that below[of d' n' i] by (auto simp: entry split: if_splits)
  moreover have "\<exists>d'\<in>Out. \<exists>n'. fs_entry (new_file d n s) d' n' = Some i" if "i \<in> P" for i
    using P[OF that] none by (metis entry option.distinct(1))
  moreover have "i \<notin> Out" if "d' \<notin> Out" "fs_entry (new_file d n s) d' n' = Some i" for d' n' i
    using sealedD[OF sound, of d' n' i] freshD[OF sound, of "next_ino s"] that by (auto simp: entry split: if_splits)
  moreover have "is_file_ino (new_file d n s) i" if "i \<in> P" for i
    using P[OF that] by (simp add: isfile)
  ultimately have "sound_fs P Out (new_file d n s)"
    unfolding sound_fs_def links_counted_def numbers_fresh_def files_named_def sealed_def fields(2) by blast
  then show "spares P Out s (new_file d n s)"
    using keep by (simp add: spares_def)
qed

section \<open>Protected files\<close>

text \<open>A call keeps the protected files and yields something with a property of the state it leaves.\<close>

definition spared :: "ino set \<Rightarrow> ino set \<Rightarrow> (fs, 'a) prog \<Rightarrow> ('a \<Rightarrow> fs \<Rightarrow> bool) \<Rightarrow> fs \<Rightarrow> bool" where
  "spared P Out m Q s \<longleftrightarrow> spares P Out s (snd (m s)) \<and> (\<forall>a t. m s = (Inr a, t) \<longrightarrow> Q a t)"

lemma spared_bind:
  assumes "spared P Out m Q s" "\<And>a t. Q a t \<Longrightarrow> sound_fs P Out t \<Longrightarrow> spared P Out (f a) R t"
  shows "spared P Out (bindP m f) R s"
  using assms unfolding spared_def bindP_def
  by (auto split: prod.splits sum.splits dest: spares_trans) (auto simp: spares_def)

lemma spared_get:
  assumes "bounded_adversary P Out adv" "sound_fs P Out s" "Q (f (adv c s)) (adv c s)"
  shows "spared P Out (sys adv c (getP f)) Q s"
  using assms spares_adv[OF assms(1,2), of c] by (simp add: spared_def sys_def getP_def)

lemma spared_set:
  assumes adv: "bounded_adversary P Out adv" and sound: "sound_fs P Out s" and isfile: "is_file_ino s i" "i \<notin> P"
  shows "spared P Out (sys adv c (modifyP (set_file i body))) (\<lambda>_ t. is_file_ino t i) s"
proof -
  have 1: "spares P Out s (adv c s)"
    by (rule spares_adv[OF adv sound])
  have "is_file_ino (adv c s) i"
    using adv sound isfile(1) by (auto simp: bounded_adversary_def)
  then have "spares P Out (adv c s) (set_file i body (adv c s))" "is_file_ino (set_file i body (adv c s)) i"
    using spares_set_file[of P Out "adv c s" i body] 1 isfile(2) by (auto simp: spares_def is_file_set_file)
  then show ?thesis
    using spares_trans[OF 1] by (simp add: spared_def sys_def modifyP_def)
qed

lemma spared_ret: "sound_fs P Out s \<Longrightarrow> Q a s \<Longrightarrow> spared P Out (retP a) Q s"
  by (simp add: spared_def retP_def spares_refl)

lemma spared_throw: "sound_fs P Out s \<Longrightarrow> spared P Out (throwP e) Q s"
  by (simp add: spared_def throwP_def spares_refl)

lemma spared_open_parent:
  "bounded_adversary P Out adv \<Longrightarrow> sound_fs P Out s \<Longrightarrow> d \<notin> Out \<Longrightarrow> spared P Out (open_parent adv d ps) (\<lambda>d' t. d' \<notin> Out) s"
proof (induction ps arbitrary: d s)
  case (Cons p ps)
  have out: "d' \<notin> Out" if "fs_entry (adv (AtWalk ps) s) d p = Some d'" for d'
    using sealedD[of P Out "adv (AtWalk ps) s" d p d'] Cons.prems that by (simp add: bounded_adversary_def)
  show ?case
    unfolding open_parent.simps open_dir_def
    by (rule spared_bind[where Q = "\<lambda>r t. \<forall>d'. r = Some d' \<longrightarrow> d' \<notin> Out"])
      (use Cons out in \<open>auto intro!: spared_get spared_throw split: option.splits if_splits\<close>)
qed (simp add: spared_ret)

text \<open>
  A file that is opened through a name outside of \<open>Out\<close> and is protected has two names; so it does not pass the
  check of the link count, when the check sees the file system the open saw.
\<close>

lemma spared_force:
  assumes adv: "bounded_adversary P Out adv" and sound: "sound_fs P Out s" and d: "d \<notin> Out"
    and quiet: "\<And>t. adv AtStat t = t"
  shows "spared P Out (open_existing_for_force adv d n) (\<lambda>i t. is_file_ino t i \<and> i \<notin> P) s"
proof -
  have two: "2 \<le> nlinks t i" if "sound_fs P Out t" "fs_entry t d n = Some i" "i \<in> P" for t i
    using linksD[of P Out t d n i] namedD[of P Out t i] that d by (metis prod.inject)
  show ?thesis
    unfolding open_existing_for_force_def open_existing_def
  proof (rule spared_bind[where Q = "\<lambda>r t. \<forall>i. r = Some i \<longrightarrow> fs_entry t d n = Some i"])
    fix r t
    assume r: "\<forall>i. r = Some i \<longrightarrow> fs_entry t d n = Some i" and t: "sound_fs P Out t"
    show "spared P Out
       (case r of None \<Rightarrow> throwP report_path_error
        | Some i \<Rightarrow> bindP (sys adv AtStat (getP (\<lambda>s. is_file_ino s i \<and> nlinks s i = 1))) (\<lambda>ok.
            if \<not> ok then throwP report_path_error else thenP (sys adv AtTruncate (modifyP (set_file i []))) (retP i)))
       (\<lambda>i t. is_file_ino t i \<and> i \<notin> P) t"
    proof (cases r)
      case (Some i)
      have safe: "i \<notin> P" if "nlinks t i = 1"
        using two[OF t] r Some that by fastforce
      show ?thesis
        unfolding Some option.case thenP_def
        by (rule spared_bind[where Q = "\<lambda>ok u. ok \<longrightarrow> is_file_ino u i \<and> i \<notin> P"])
          (use adv t safe quiet in \<open>auto intro!: spared_get spared_throw spared_ret spared_bind[where Q = "\<lambda>_ u. is_file_ino u i"] spared_set\<close>)
    qed (simp add: spared_throw t)
  qed (use adv sound in \<open>auto intro!: spared_get split: option.splits inode.splits\<close>)
qed

lemma spared_open_target:
  assumes adv: "bounded_adversary P Out adv" and sound: "sound_fs P Out s" and d: "d \<notin> Out"
    and quiet: "force \<Longrightarrow> adv AtStat = id"
  shows "spared P Out (open_target adv force d n) (\<lambda>i t. is_file_ino t i \<and> i \<notin> P) s"
  unfolding open_target_def
proof (rule spared_bind[where Q = "\<lambda>r t. \<forall>i. r = Created i \<longrightarrow> is_file_ino t i \<and> i \<notin> P"])
  let ?t = "adv AtCreate s"
  have t: "spares P Out s ?t" "sound_fs P Out ?t"
    using spares_adv[OF adv sound, of AtCreate] by (simp_all add: spares_def)
  have new: "spares P Out s (new_file d n ?t)" "next_ino ?t \<notin> P" "is_file_ino (new_file d n ?t) (next_ino ?t)"
    if "is_dir_ino ?t d" "fs_entry ?t d n = None"
    using spares_new_file[OF t(2) that] spares_trans[OF t(1)] is_file_new_file[OF that(1), of n "next_ino ?t"]
      freshD[OF t(2), of "next_ino ?t"] by auto
  show "spared P Out (sys adv AtCreate (create_excl d n)) (\<lambda>r t. \<forall>i. r = Created i \<longrightarrow> is_file_ino t i \<and> i \<notin> P) s"
    using t(1) new by (auto simp: spared_def sys_def create_excl_def)
next
  fix r t
  assume r: "\<forall>i. r = Created i \<longrightarrow> is_file_ino t i \<and> i \<notin> P" and t: "sound_fs P Out t"
  show "spared P Out
     (case r of
        Created i \<Rightarrow> retP i
      | Existed \<Rightarrow>
          if force then open_existing_for_force adv d n
          else bindP (sys adv AtLstat (getP (\<lambda>s. fs_entry s d n))) (\<lambda>e.
            if e = None then throwP OSError else throwP report_path_error)
      | Failed \<Rightarrow> throwP report_path_error)
     (\<lambda>i t. is_file_ino t i \<and> i \<notin> P) t"
  proof (cases r)
    case (Created i)
    then show ?thesis
      using r t by (simp add: spared_ret)
  next
    case Existed
    show ?thesis
    proof (cases force)
      case True
      then show ?thesis
        using spared_force[OF adv t d] quiet Existed by simp
    next
      case False
      then show ?thesis
        unfolding Existed created.case
        by (auto intro!: spared_bind[where Q = "\<lambda>_ _. True"] spared_get[OF adv t] spared_throw)
    qed
  qed (simp add: spared_throw t)
qed

lemma spared_write_report:
  assumes adv: "bounded_adversary P Out adv" and sound: "sound_fs P Out s" and d: "root \<notin> Out"
    and quiet: "force \<Longrightarrow> adv AtStat = id"
  shows "spared P Out (write_report adv real root body out out_root force) (\<lambda>_ _. True) s"
proof -
  have open_dirs: "spared P Out (open_parent_dirfd adv root ps) (\<lambda>d t. d \<notin> Out) s" for ps
    unfolding open_parent_dirfd_def
    by (rule spared_bind[where Q = "\<lambda>_ _. True"])
      (use adv sound d in \<open>auto intro!: spared_get spared_throw spared_open_parent\<close>)
  have steps: "spared P Out
      (bindP (open_parent_dirfd adv root ps) (\<lambda>d. bindP (open_target adv force d n) (\<lambda>i. sys adv AtWrite (modifyP (set_file i body)))))
      (\<lambda>_ _. True) s" for ps n
  proof (rule spared_bind[OF open_dirs], rule spared_bind[where Q = "\<lambda>i t. is_file_ino t i \<and> i \<notin> P"])
    fix d t
    assume "d \<notin> Out" "sound_fs P Out t"
    then show "spared P Out (open_target adv force d n) (\<lambda>i t. is_file_ino t i \<and> i \<notin> P) t"
      using spared_open_target[OF adv, of t d force n] quiet by blast
  next
    fix i t
    assume "is_file_ino t i \<and> i \<notin> P" "sound_fs P Out t"
    then show "spared P Out (sys adv AtWrite (modifyP (set_file i body))) (\<lambda>_ _. True) t"
      using spared_set[OF adv, of t i AtWrite body] by (auto simp: spared_def)
  qed
  show ?thesis
    using steps by (simp add: write_report_def Let_def spared_throw[OF sound])
qed


text \<open>
  A data directory (1) below the root of the disk (0), next to a private directory (2) with a protected file (3).
  One process plants a hard link to that file where the report goes, and removes it again after the file is open.
\<close>

definition demo_fs :: fs where
  "demo_fs =
     \<lparr>nodes = [1 \<mapsto> IDir (\<lambda>_. None), 2 \<mapsto> IDir [''secret'' \<mapsto> 3], 3 \<mapsto> IFile ''key''],
      nlinks = (\<lambda>i. if i = 3 then 1 else 0), next_ino = 4\<rparr>"

definition linked_fs :: fs where
  "linked_fs =
     \<lparr>nodes = [1 \<mapsto> IDir [''r.md'' \<mapsto> 3], 2 \<mapsto> IDir [''secret'' \<mapsto> 3], 3 \<mapsto> IFile ''key''],
      nlinks = (\<lambda>i. if i = 3 then 2 else 0), next_ino = 4\<rparr>"

definition idle :: adversary where
  "idle c s = s"

text \<open>It acts only on the files it expects, and once it has removed the link the check sees one name.\<close>

definition racer :: adversary where
  "racer c s =
     (if c = AtCreate \<and> s = demo_fs then linked_fs else if c = AtStat \<and> s = linked_fs then demo_fs else s)"

lemma demo_fs_entry: "fs_entry demo_fs d n = (if d = 2 \<and> n = ''secret'' then Some 3 else None)"
  by (simp add: fs_entry_def demo_fs_def)

lemma linked_entry:
  "fs_entry linked_fs d n = (if d = 2 \<and> n = ''secret'' \<or> d = 1 \<and> n = ''r.md'' then Some 3 else None)"
  by (simp add: fs_entry_def linked_fs_def)

lemma demo_sound: "sound_fs {3} {2} demo_fs" "sound_fs {3} {2} linked_fs"
  unfolding sound_fs_def links_counted_def numbers_fresh_def files_named_def sealed_def
  by (auto simp: demo_fs_entry linked_entry) (simp_all add: demo_fs_def linked_fs_def is_file_ino_def)

lemma idle_bounded: "bounded_adversary P Out idle"
  by (simp add: bounded_adversary_def idle_def)


lemma demo_files: "is_file_ino demo_fs i \<longleftrightarrow> i = 3" "is_file_ino linked_fs i \<longleftrightarrow> i = 3"
  by (auto simp: is_file_ino_def demo_fs_def linked_fs_def)

lemma demo_nodes: "nodes demo_fs 3 = Some (IFile ''key'')" "nodes linked_fs 3 = Some (IFile ''key'')"
    "is_dir_ino demo_fs 1" "is_dir_ino linked_fs 1" "nlinks demo_fs 3 = 1"
  by (simp_all add: demo_fs_def linked_fs_def is_dir_ino_def)

lemma racer_bounded: "bounded_adversary {3} {2} racer"
  by (auto simp: bounded_adversary_def racer_def demo_sound demo_nodes demo_files)

text \<open>
  The check of the link count closes no race: a process within the same bounds links the protected file where the
  report goes, waits for the open and removes the link; the count is one again, and the file is overwritten.
\<close>

lemma hard_link_race:
  "bounded_adversary {3} {2} racer
   \<and> fst (write_report racer (\<lambda>p. p) 1 ''text'' [''data'', ''r.md''] [''data''] True demo_fs) = Inr ()
   \<and> nodes (snd (write_report racer (\<lambda>p. p) 1 ''text'' [''data'', ''r.md''] [''data''] True demo_fs)) 3 = Some (IFile ''text'')"
proof -
  have calls: "racer AtRoot demo_fs = demo_fs" "racer AtCreate demo_fs = linked_fs" "racer AtOpen linked_fs = linked_fs"
    "racer AtStat linked_fs = demo_fs" "racer AtTruncate s = s" "racer AtWrite s = s" for s
    by (auto simp: racer_def)
  have opened: "create_excl 1 ''r.md'' linked_fs = (Inr Existed, linked_fs)"
    "open_existing 1 ''r.md'' linked_fs = (Inr (Some 3), linked_fs)"
    by (simp_all add: create_excl_def open_existing_def getP_def demo_nodes linked_entry del: One_nat_def)
  show ?thesis
    by (simp add: racer_bounded write_report_def path_suffix_def path_stem_def file_name_def open_parent_dirfd_def open_target_def
        open_existing_for_force_def sys_def calls opened bindP_def thenP_def getP_def retP_def modifyP_def set_file_def
        demo_nodes demo_files del: One_nat_def)
qed

text \<open>When the data directory is missing, the error of its opening is not the one the command line catches.\<close>

lemma missing_root_is_raw:
  "\<not> is_dir_ino (adv AtRoot s) root \<Longrightarrow> fst (open_parent_dirfd adv root parts s) = Inl OSError"
  by (simp add: open_parent_dirfd_def sys_def bindP_def getP_def throwP_def)

text \<open>A report that was refused while nobody else acts has changed nothing; one that was written is where it was asked for.\<close>

lemma open_parent_idle: "snd (open_parent idle d ps s) = s"
  by (induction ps arbitrary: d)
    (auto simp: retP_def sys_def idle_def open_dir_def getP_def bindP_def throwP_def split: option.splits)

lemma create_fails: "is_dir_ino s d \<Longrightarrow> fs_entry s d n = Some i \<Longrightarrow> create_excl d n s = (Inr Existed, s)"
  by (simp add: create_excl_def)

lemma open_target_refused: "open_target idle force d n s = (Inl e, t) \<Longrightarrow> t = s"
  by (auto simp: open_target_def open_existing_for_force_def sys_def idle_def bindP_def thenP_def getP_def retP_def throwP_def
      modifyP_def create_excl_def open_existing_def split: created.splits option.splits if_splits)

lemma refused_report_changes_nothing: "write_report idle real root body out out_root force s = (Inl e, t) \<Longrightarrow> t = s"
proof -
  have dirs: "snd (open_parent_dirfd idle root ps s) = s" for ps
    using open_parent_idle by (auto simp: open_parent_dirfd_def sys_def idle_def getP_def throwP_def bindP_def)
  assume "write_report idle real root body out out_root force s = (Inl e, t)"
  then show "t = s"
    using dirs open_target_refused
    by (auto simp: write_report_def Let_def throwP_def bindP_Inl_iff sys_def idle_def modifyP_def split: if_splits)
      (metis snd_conv)+
qed

end
