(* ===== verification/Procfs.thy ===== *)
theory Procfs
  imports Complex_Main Monitor_Classify Flags "HOL-Library.AList" "HOL-Library.List_Lexorder" "HOL-Library.Product_Lexorder"
begin

text \<open>
  Model of \<open>src/monitoring/loop_monitor/procfs.py\<close>: what the monitor reads from \<open>/proc\<close>. A file is its text, or
  nothing when it cannot be read; the directory entries, the load averages and the working directory of a process
  are arguments. A Python float is a rational number here: what is computed is exact, and \<open>round_to\<close> is the rounding
  of its result. The lemmas show that any process name is read back, that a process gets its kind from its ancestors
  in whatever order processes are listed, and that the sums over kinds lose nothing.
\<close>

section \<open>Numbers and lines\<close>

text \<open>\<open>round(x, n)\<close>, half to even.\<close>

definition round_to :: "nat \<Rightarrow> rat \<Rightarrow> rat" where
  "round_to n x =
     (let y = x * 10 ^ n; f = \<lfloor>y\<rfloor>; d = y - of_int f
      in of_int (if d < 1 / 2 then f else if d > 1 / 2 then f + 1 else if even f then f else f + 1) / 10 ^ n)"

definition delta :: "int \<Rightarrow> int option \<Rightarrow> int" where
  "delta current previous =
     (case previous of None \<Rightarrow> 0 | Some p \<Rightarrow> if current < p then 0 else current - p)"

definition index_error :: exn where
  "index_error = OtherError ''IndexError''"

text \<open>One line of \<open>key: value\<close>; a value of white space alone has no first word, which raises.\<close>

definition key_value :: "string \<Rightarrow> exn + (string \<times> int) option" where
  "key_value line =
     (let tail = after_char CHR '':'' line; key = before_char CHR '':'' line in
      if tail = [] then Inr (map_option (Pair key) (py_int []))
      else (case words tail of
          [] \<Rightarrow> Inl index_error
        | raw # _ \<Rightarrow> Inr (map_option (Pair key) (py_int raw))))"

primrec key_values_of :: "string list \<Rightarrow> (string \<times> int) list \<Rightarrow> exn + (string \<times> int) list" where
  "key_values_of [] vs = Inr vs"
| "key_values_of (l # ls) vs =
     bindR (key_value l) (\<lambda>r. key_values_of ls (case r of None \<Rightarrow> vs | Some (k, v) \<Rightarrow> AList.update k v vs))"

definition read_key_values :: "string option \<Rightarrow> exn + (string \<times> int) list" where
  "read_key_values txt = (case txt of None \<Rightarrow> Inr [] | Some t \<Rightarrow> key_values_of (splitlines t) [])"

definition value_of :: "(string \<times> int) list \<Rightarrow> string \<Rightarrow> int" where
  "value_of vs k = (case map_of vs k of Some v \<Rightarrow> v | None \<Rightarrow> 0)"

section \<open>The host\<close>

record host_state =
  hs_cpu :: "(int \<times> int) option"
  hs_vmstat :: "(string \<times> int) list"
  hs_disk :: "(int \<times> int \<times> int) option"
  hs_at :: "rat option"

primrec ints_of :: "string list \<Rightarrow> int list option" where
  "ints_of [] = Some []"
| "ints_of (w # ws) =
     (case py_int w of None \<Rightarrow> None | Some i \<Rightarrow> (case ints_of ws of None \<Rightarrow> None | Some is \<Rightarrow> Some (i # is)))"

text \<open>\<open>_cpu\<close>: the share of the time that was not idle, from the \<open>cpu\<close> line.\<close>

definition cpu_share :: "int \<Rightarrow> int \<Rightarrow> rat" where
  "cpu_share tot idle =
     (if tot \<le> 0 then 0 else max 0 (min 100 (100 * of_int (tot - idle) / of_int tot)))"

definition host_cpu :: "string option \<Rightarrow> host_state \<Rightarrow> rat \<times> host_state" where
  "host_cpu stat h =
     (let line = (case find (prefix ''cpu '') (splitlines (case stat of Some t \<Rightarrow> t | None \<Rightarrow> [])) of Some l \<Rightarrow> l | None \<Rightarrow> []);
          parts = (case ints_of (drop 1 (words line)) of Some is \<Rightarrow> is | None \<Rightarrow> [])
      in if length parts < 5 then (0, h)
         else
           let tot = sum_list parts; idle = parts ! 3 + parts ! 4; h' = h\<lparr>hs_cpu := Some (tot, idle)\<rparr>
           in (case hs_cpu h of None \<Rightarrow> (0, h') | Some (t, i) \<Rightarrow> (cpu_share (tot - t) (idle - i), h')))"

record host_memory =
  hm_total :: int
  hm_available :: int
  hm_used :: int
  hm_available_pct :: rat
  hm_swap_total :: int
  hm_swap_used :: int
  hm_cached :: int
  hm_buffers :: int
  hm_dirty :: int

definition host_memory_of :: "(string \<times> int) list \<Rightarrow> host_memory" where
  "host_memory_of vs =
     (let kib = (\<lambda>k. value_of vs k * 1024); tot = kib ''MemTotal''; available = kib ''MemAvailable'';
          swap = kib ''SwapTotal''; free = kib ''SwapFree''
      in \<lparr>hm_total = tot, hm_available = available, hm_used = max 0 (tot - available),
          hm_available_pct = (if tot \<noteq> 0 then round_to 2 (100 * of_int available / of_int tot) else 0),
          hm_swap_total = swap, hm_swap_used = max 0 (swap - free), hm_cached = kib ''Cached'',
          hm_buffers = kib ''Buffers'', hm_dirty = kib ''Dirty''\<rparr>)"

definition vmstat_keys :: "string list" where
  "vmstat_keys = [''pswpin'', ''pswpout'', ''pgmajfault'', ''oom_kill'']"

definition vmstat_line :: "string \<Rightarrow> (string \<times> int) list \<Rightarrow> (string \<times> int) list" where
  "vmstat_line line vs =
     (case words line of
        [k, v] \<Rightarrow> if k \<in> set vmstat_keys then (case py_int v of Some i \<Rightarrow> AList.update k i vs | None \<Rightarrow> vs) else vs
      | _ \<Rightarrow> vs)"

record host_vm =
  hv_in :: int
  hv_out :: int
  hv_in_delta :: int
  hv_out_delta :: int
  hv_faults_delta :: int
  hv_oom_delta :: int

definition host_vmstat :: "string option \<Rightarrow> host_state \<Rightarrow> host_vm \<times> host_state" where
  "host_vmstat txt h =
     (let current = fold vmstat_line (splitlines (case txt of Some t \<Rightarrow> t | None \<Rightarrow> [])) [];
          change = (\<lambda>k. delta (value_of current k) (map_of (hs_vmstat h) k))
      in (\<lparr>hv_in = value_of current ''pswpin'', hv_out = value_of current ''pswpout'', hv_in_delta = change ''pswpin'',
           hv_out_delta = change ''pswpout'', hv_faults_delta = change ''pgmajfault'', hv_oom_delta = change ''oom_kill''\<rparr>,
          h\<lparr>hs_vmstat := current\<rparr>))"

text \<open>\<open>_disk\<close>: the fields of the root device, or of the first disk when the root device is not known.\<close>

definition disk_line :: "string option \<Rightarrow> string list \<Rightarrow> bool" where
  "disk_line target c \<longleftrightarrow>
     length c \<ge> 14 \<and>
     (case target of Some t \<Rightarrow> c ! 2 = t | None \<Rightarrow> list_ex (\<lambda>p. prefix p (c ! 2)) [''sd'', ''vd'', ''nvme''])"

definition disk_fields :: "string list \<Rightarrow> int \<times> int \<times> int" where
  "disk_fields c =
     (case (py_int (c ! 5), py_int (c ! 9), py_int (c ! 12)) of
        (Some r, Some w, Some m) \<Rightarrow> (r, w, m)
      | _ \<Rightarrow> (0, 0, 0))"

definition host_disk :: "string option \<Rightarrow> string option \<Rightarrow> rat \<Rightarrow> host_state \<Rightarrow> (string option \<times> rat \<times> rat \<times> rat) \<times> host_state" where
  "host_disk root_device txt elapsed h =
     (case find (disk_line root_device) (map words (splitlines (case txt of Some t \<Rightarrow> t | None \<Rightarrow> []))) of
        None \<Rightarrow> ((root_device, 0, 0, 0), h)
      | Some c \<Rightarrow>
          (let (r, w, m) = disk_fields c;
               rd = delta r (map_option fst (hs_disk h));
               wd = delta w (map_option (fst \<circ> snd) (hs_disk h));
               md = delta m (map_option (snd \<circ> snd) (hs_disk h));
               rate = (\<lambda>d. if elapsed > 0 then round_to 1 (of_int (d * 512) / elapsed) else 0)
           in ((Some (c ! 2), rate rd, rate wd,
                if elapsed > 0 then round_to 2 (min 100 (of_int md / (elapsed * 10))) else 0),
               h\<lparr>hs_disk := Some (r, w, m)\<rparr>)))"

text \<open>\<open>_pressure\<close>, with the reading of a decimal number as an argument.\<close>

definition pressure_item :: "(string \<Rightarrow> rat option) \<Rightarrow> string \<Rightarrow> string \<Rightarrow> (string \<times> rat) list \<Rightarrow> (string \<times> rat) list" where
  "pressure_item number resource item vs =
     (let key = before_char CHR ''='' item in
      if key \<in> {''avg10'', ''avg60'', ''avg300''} then
        (case number (after_char CHR ''='' item) of
           Some x \<Rightarrow> AList.update (resource @ ''_'' @ key) x vs | None \<Rightarrow> vs)
      else vs)"

definition host_pressure :: "(string \<Rightarrow> rat option) \<Rightarrow> string option \<Rightarrow> (string \<times> rat) list" where
  "host_pressure number txt =
     fold (\<lambda>line vs. case words line of [] \<Rightarrow> vs | p # items \<Rightarrow> fold (pressure_item number p) items vs)
       (splitlines (case txt of Some t \<Rightarrow> t | None \<Rightarrow> [])) []"

record host_sample =
  ho_cpu :: rat
  ho_load :: "rat \<times> rat \<times> rat"
  ho_cpus :: nat
  ho_memory :: host_memory
  ho_vm :: host_vm
  ho_disk :: "string option \<times> rat \<times> rat \<times> rat"
  ho_pressure :: "(string \<times> (string \<times> rat) list) list"

definition host_collect ::
  "(string \<Rightarrow> rat option) \<Rightarrow> (string list \<Rightarrow> string option) \<Rightarrow> string option \<Rightarrow> (rat \<times> rat \<times> rat) option \<Rightarrow> nat option \<Rightarrow>
   rat \<Rightarrow> host_state \<Rightarrow> exn + host_sample \<times> host_state" where
  "host_collect number files root_device load cpus now h =
     (let elapsed = (case hs_at h of Some t \<Rightarrow> now - t | None \<Rightarrow> 0);
          (cpu, h1) = host_cpu (files [''stat'']) h
      in bindR (read_key_values (files [''meminfo''])) (\<lambda>mem.
           let (vm, h2) = host_vmstat (files [''vmstat'']) h1;
               (disk, h3) = host_disk root_device (files [''diskstats'']) elapsed h2
           in Inr (\<lparr>ho_cpu = round_to 2 cpu, ho_load = (case load of Some l \<Rightarrow> l | None \<Rightarrow> (0, 0, 0)),
                    ho_cpus = (case cpus of Some n \<Rightarrow> if n = 0 then 1 else n | None \<Rightarrow> 1),
                    ho_memory = host_memory_of mem, ho_vm = vm, ho_disk = disk,
                    ho_pressure = map (\<lambda>r. (r, host_pressure number (files [''pressure'', r]))) [''cpu'', ''memory'', ''io'']\<rparr>,
                   h3\<lparr>hs_at := Some now\<rparr>)))"

section \<open>The processes\<close>

record proc_sample =
  ps_pid :: int
  ps_ppid :: int
  ps_start :: int
  ps_comm :: string
  ps_identity :: identity
  ps_cpu :: int
  ps_rss :: int
  ps_read :: int
  ps_write :: int
  ps_cpu_pct :: rat
  ps_read_bps :: rat
  ps_write_bps :: rat

definition ps_key :: "proc_sample \<Rightarrow> int \<times> int" where
  "ps_key p = (ps_pid p, ps_start p)"

text \<open>\<open>detail_json\<close>: the name, the kind and the numbers of a process.\<close>

definition detail_json :: "proc_sample \<Rightarrow> (int \<times> int \<times> string) \<times> entry \<times> rat \<times> int \<times> rat \<times> rat" where
  "detail_json p =
     ((ps_pid p, ps_ppid p, take 64 (ps_comm p)), identity_json (ps_identity p), round_to 2 (ps_cpu_pct p), ps_rss p,
      round_to 1 (ps_read_bps p), round_to 1 (ps_write_bps p))"

text \<open>
  The \<open>stat\<close> line: the name stands between the first opening and the last closing parenthesis, and the fields
  after it are counted from there.
\<close>

definition before_last :: "char \<Rightarrow> string \<Rightarrow> string" where
  "before_last d s = rev (drop 1 (dropWhile (\<lambda>c. c \<noteq> d) (rev s)))"

definition after_last :: "char \<Rightarrow> string \<Rightarrow> string" where
  "after_last d s = rev (takeWhile (\<lambda>c. c \<noteq> d) (rev s))"

definition stat_comm :: "string \<Rightarrow> string" where
  "stat_comm s =
     (if CHR ''('' \<in> set s then drop (length (before_char CHR ''('' s) + 1) (before_last CHR '')'' s)
      else before_last CHR '')'' s)"

definition field_int :: "string list \<Rightarrow> nat \<Rightarrow> int option" where
  "field_int cols n = (if n < length cols then py_int (cols ! n) else None)"

record stat_info =
  si_pid :: int
  si_comm :: string
  si_ppid :: int
  si_cpu :: int
  si_start :: int
  si_rss :: int

definition stat_fields :: "int \<Rightarrow> string \<Rightarrow> string \<Rightarrow> string list \<Rightarrow> stat_info option" where
  "stat_fields page name comm cols =
     (case (py_int name, field_int cols 1, field_int cols 11, field_int cols 12, field_int cols 19, field_int cols 21) of
        (Some pid, Some ppid, Some utime, Some stime, Some start, Some rss) \<Rightarrow>
          Some \<lparr>si_pid = pid, si_comm = comm, si_ppid = ppid, si_cpu = utime + stime, si_start = start, si_rss = rss * page\<rparr>
      | _ \<Rightarrow> None)"

definition parse_stat :: "int \<Rightarrow> string \<Rightarrow> string \<Rightarrow> stat_info option" where
  "parse_stat page name stat =
     (if CHR '')'' \<notin> set stat then None
      else stat_fields page name (stat_comm stat) (words (drop 1 (after_last CHR '')'' stat))))"

definition read_process ::
  "(string list \<Rightarrow> string option) \<Rightarrow> (string \<Rightarrow> string option) \<Rightarrow> int \<Rightarrow> string \<Rightarrow> exn + proc_sample option" where
  "read_process files cwd page name =
     (case files [name, ''stat''] of
        None \<Rightarrow> Inr None
      | Some stat \<Rightarrow>
          (case parse_stat page name stat of
             None \<Rightarrow> Inr None
           | Some i \<Rightarrow>
               bindR (read_key_values (files [name, ''io''])) (\<lambda>io.
                 let argv = filter (\<lambda>a. a \<noteq> []) (split_on CHR 0x00 (case files [name, ''cmdline''] of Some t \<Rightarrow> t | None \<Rightarrow> []))
                 in Inr (Some \<lparr>ps_pid = si_pid i, ps_ppid = si_ppid i, ps_start = si_start i, ps_comm = si_comm i,
                      ps_identity = classify_process (si_comm i) argv (cwd name), ps_cpu = si_cpu i, ps_rss = max 0 (si_rss i),
                      ps_read = value_of io ''read_bytes'', ps_write = value_of io ''write_bytes'',
                      ps_cpu_pct = 0, ps_read_bps = 0, ps_write_bps = 0\<rparr>))))"

definition scan_processes ::
  "(string list \<Rightarrow> string option) \<Rightarrow> (string \<Rightarrow> string option) \<Rightarrow> int \<Rightarrow> string list \<Rightarrow> exn + proc_sample list" where
  "scan_processes files cwd page names =
     bindR (mapR (read_process files cwd page) (filter isdigit names)) (\<lambda>rs. Inr (List.map_filter id rs))"

text \<open>\<open>resolve_identity\<close>: the kind of a process from its ancestors; what is resolved is kept, and a cycle is cut.\<close>

function resolve_identity ::
  "(int \<times> proc_sample) list \<Rightarrow> int \<Rightarrow> int list \<Rightarrow> (int \<times> identity) list \<Rightarrow> identity option \<times> (int \<times> identity) list" where
  "resolve_identity procs pid seen memo =
     (case map_of memo pid of
        Some i \<Rightarrow> (Some i, memo)
      | None \<Rightarrow>
          (case map_of procs pid of
             None \<Rightarrow> (None, memo)
           | Some p \<Rightarrow>
               if pid \<in> set seen then (None, memo)
               else
                 (let (parent, memo') = resolve_identity procs (ps_ppid p) (pid # seen) memo;
                      i = inherited_identity (ps_identity p) parent
                  in (Some i, AList.update pid i memo'))))"
  by pat_completeness auto
termination
proof (relation "measure (\<lambda>(procs, pid, seen, memo). length (filter (\<lambda>q. fst q \<notin> set seen) procs))", goal_cases)
  case (2 procs pid seen memo p)
  then have "(pid, p) \<in> set procs" "pid \<notin> set seen"
    by (auto dest: map_of_SomeD)
  then have "(pid, p) \<in> set (filter (\<lambda>q. fst q \<notin> set seen) procs)"
    by simp
  then have "length (filter (\<lambda>q. fst q \<noteq> pid) (filter (\<lambda>q. fst q \<notin> set seen) procs)) < length (filter (\<lambda>q. fst q \<notin> set seen) procs)"
    by (rule length_filter_less) simp
  then show ?case
    by (simp add: conj_commute)
qed simp

declare resolve_identity.simps [simp del]

definition by_pid :: "proc_sample list \<Rightarrow> (int \<times> proc_sample) list" where
  "by_pid raw = rev (map (\<lambda>p. (ps_pid p, p)) raw)"

primrec resolve_all :: "(int \<times> proc_sample) list \<Rightarrow> proc_sample list \<Rightarrow> (int \<times> identity) list \<Rightarrow> identity list" where
  "resolve_all procs [] memo = []"
| "resolve_all procs (p # ps) memo =
     (let (r, memo') = resolve_identity procs (ps_pid p) [] memo
      in (case r of Some i \<Rightarrow> i | None \<Rightarrow> ps_identity p) # resolve_all procs ps memo')"

record proc_state =
  pc_previous :: "((int \<times> int) \<times> proc_sample) list"
  pc_at :: "rat option"

definition rated :: "int \<Rightarrow> rat \<Rightarrow> proc_state \<Rightarrow> proc_sample \<Rightarrow> identity \<Rightarrow> proc_sample" where
  "rated clock elapsed st p i =
     (let old = map_of (pc_previous st) (ps_key p);
          change = (\<lambda>f. of_int (delta (f p) (map_option f old)))
      in p\<lparr>ps_identity := i,
           ps_cpu_pct := (if elapsed > 0 then 100 * change ps_cpu / (of_int clock * elapsed) else 0),
           ps_read_bps := (if elapsed > 0 then change ps_read / elapsed else 0),
           ps_write_bps := (if elapsed > 0 then change ps_write / elapsed else 0)\<rparr>)"

record op_bucket =
  bk_processes :: nat
  bk_cpu :: rat
  bk_rss :: int
  bk_read :: rat
  bk_write :: rat

definition empty_bucket :: op_bucket where
  "empty_bucket = \<lparr>bk_processes = 0, bk_cpu = 0, bk_rss = 0, bk_read = 0, bk_write = 0\<rparr>"

definition count_process :: "proc_sample \<Rightarrow> (string \<times> op_bucket) list \<Rightarrow> (string \<times> op_bucket) list" where
  "count_process p bs =
     (let op = pi_operation (ps_identity p); b = (case map_of bs op of Some b \<Rightarrow> b | None \<Rightarrow> empty_bucket)
      in AList.update op
           \<lparr>bk_processes = bk_processes b + 1, bk_cpu = bk_cpu b + ps_cpu_pct p, bk_rss = bk_rss b + ps_rss p,
            bk_read = bk_read b + ps_read_bps p, bk_write = bk_write b + ps_write_bps p\<rparr> bs)"

definition rounded_bucket :: "op_bucket \<Rightarrow> op_bucket" where
  "rounded_bucket b = b\<lparr>bk_cpu := round_to 2 (bk_cpu b), bk_read := round_to 1 (bk_read b), bk_write := round_to 1 (bk_write b)\<rparr>"

definition aggregates :: "proc_sample list \<Rightarrow> (string \<times> op_bucket) list" where
  "aggregates ps = map (\<lambda>(k, b). (k, rounded_bucket b)) (fold count_process ps [])"

definition number_of :: "(identity \<Rightarrow> bool) \<Rightarrow> proc_sample list \<Rightarrow> nat" where
  "number_of P ps = length (filter (\<lambda>p. P (ps_identity p)) ps)"

definition proc_counts :: "proc_sample list \<Rightarrow> (string \<times> nat) list" where
  "proc_counts ps =
     [(''claude_agents'', number_of (\<lambda>i. pi_operation i = ''claude_agent'') ps),
      (''codex_agents'', number_of (\<lambda>i. pi_operation i = ''codex_agent'') ps),
      (''agent_helpers'', number_of pi_helper ps),
      (''pytest_processes'', number_of (\<lambda>i. pi_operation i = ''pytest'') ps),
      (''pytest_workers'', number_of (\<lambda>i. pi_operation i = ''pytest_worker'') ps),
      (''build_processes'', number_of (\<lambda>i. pi_category i = ''build'') ps),
      (''test_processes_total'', number_of (\<lambda>i. pi_category i = ''test'') ps)]"

definition proc_tasks :: "proc_sample list \<Rightarrow> string list" where
  "proc_tasks ps = sort (remdups (List.map_filter (pi_task \<circ> ps_identity) ps))"

record proc_summary =
  pr_counts :: "(string \<times> nat) list"
  pr_operations :: "(string \<times> op_bucket) list"
  pr_tasks :: "string list"

text \<open>\<open>ProcessCollector.collect\<close>, from the processes of the scan.\<close>

definition collect_processes :: "int \<Rightarrow> rat \<Rightarrow> proc_sample list \<Rightarrow> proc_state \<Rightarrow> (proc_summary \<times> proc_sample list) \<times> proc_state" where
  "collect_processes clock now raw st =
     (let elapsed = (case pc_at st of Some t \<Rightarrow> now - t | None \<Rightarrow> 0);
          ps = map2 (rated clock elapsed st) raw (resolve_all (by_pid raw) raw [])
      in ((\<lparr>pr_counts = proc_counts ps, pr_operations = aggregates ps, pr_tasks = proc_tasks ps\<rparr>, ps),
          \<lparr>pc_previous = rev (map (\<lambda>p. (ps_key p, p)) ps), pc_at = Some now\<rparr>))"

text \<open>\<open>ranked_processes\<close>: sorting in reverse keeps the order of equal elements, as sorting by the negated key does.\<close>

definition top_by :: "(proc_sample \<Rightarrow> rat) \<Rightarrow> nat \<Rightarrow> proc_sample list \<Rightarrow> proc_sample list" where
  "top_by f n ps = take n (sort_key (\<lambda>p. - f p) ps)"

definition ranked_samples :: "proc_sample list \<Rightarrow> nat \<Rightarrow> proc_sample list" where
  "ranked_samples ps limit =
     (let n = max 3 (limit div 3);
          chosen = fold (\<lambda>p sel. AList.update (ps_key p) p sel)
                     (concat (map (\<lambda>f. top_by f n ps) [ps_cpu_pct, of_int \<circ> ps_rss, ps_read_bps, ps_write_bps])) []
      in take limit (sort_key (\<lambda>p. (- ps_cpu_pct p, - ps_rss p, - (ps_read_bps p + ps_write_bps p))) (map snd chosen)))"

definition ranked_processes :: "proc_sample list \<Rightarrow> nat \<Rightarrow> ((int \<times> int \<times> string) \<times> entry \<times> rat \<times> int \<times> rat \<times> rat) list" where
  "ranked_processes ps limit = map detail_json (ranked_samples ps limit)"

section \<open>Where a kind comes from\<close>

text \<open>\<open>descends procs n pid i\<close>: the ancestors of the process end after \<open>n\<close> steps, and its kind by them is \<open>i\<close>.\<close>

inductive descends :: "(int \<times> proc_sample) list \<Rightarrow> nat \<Rightarrow> int \<Rightarrow> identity \<Rightarrow> bool" for procs where
  first: "map_of procs pid = Some p \<Longrightarrow> map_of procs (ps_ppid p) = None \<Longrightarrow>
     descends procs 0 pid (inherited_identity (ps_identity p) None)"
| child: "map_of procs pid = Some p \<Longrightarrow> descends procs n (ps_ppid p) j \<Longrightarrow>
     descends procs (Suc n) pid (inherited_identity (ps_identity p) (Some j))"

inductive_cases descendsE: "descends procs n pid i"

lemma descends_listed: "descends procs n pid i \<Longrightarrow> map_of procs pid \<noteq> None"
  by (auto elim: descendsE)

lemma descends_unique: "descends procs n pid i \<Longrightarrow> descends procs m pid j \<Longrightarrow> n = m \<and> i = j"
proof (induction arbitrary: m j rule: descends.induct)
  case (first pid p)
  from first.prems show ?case
  proof (cases rule: descends.cases)
    case (child q n' k')
    then show ?thesis
      using first.hyps descends_listed[OF child(4)] by simp
  qed (use first.hyps in simp)
next
  case (child pid p n k)
  from child.prems show ?case
  proof (cases rule: descends.cases)
    case (first q)
    then show ?thesis
      using child.hyps descends_listed[OF child.hyps(2)] by simp
  next
    case (child q n' k')
    then show ?thesis
      using child.IH[of n' k'] \<open>map_of procs pid = Some p\<close> by auto
  qed
qed

definition memo_sound :: "(int \<times> proc_sample) list \<Rightarrow> (int \<times> identity) list \<Rightarrow> bool" where
  "memo_sound procs memo \<longleftrightarrow>
     (\<forall>q i. map_of memo q = Some i \<longrightarrow> map_of procs q \<noteq> None \<and> (\<forall>n j. descends procs n q j \<longrightarrow> i = j))"

text \<open>A process whose ancestors end is not met again among its ancestors: those come after fewer steps.\<close>

definition above :: "(int \<times> proc_sample) list \<Rightarrow> int \<Rightarrow> int list \<Rightarrow> bool" where
  "above procs pid seen \<longleftrightarrow>
     (\<forall>n i. descends procs n pid i \<longrightarrow> (\<forall>q\<in>set seen. \<forall>m j. descends procs m q j \<longrightarrow> n < m))"

lemma resolve_sound:
  "memo_sound procs memo \<Longrightarrow> above procs pid seen \<Longrightarrow> resolve_identity procs pid seen memo = (r, memo') \<Longrightarrow>
     memo_sound procs memo' \<and> (\<forall>n i. descends procs n pid i \<longrightarrow> r = Some i) \<and> (map_of procs pid = None \<longrightarrow> r = None)"
proof (induction procs pid seen memo arbitrary: r memo' rule: resolve_identity.induct)
  case (1 procs pid seen memo)
  show ?case
  proof (cases "map_of memo pid")
    case (Some i)
    then have "r = Some i" "memo' = memo"
      using 1(4) by (simp_all add: resolve_identity.simps[of procs pid])
    then show ?thesis
      using 1(2) Some by (simp add: memo_sound_def)
  next
    case fresh: None
    show ?thesis
    proof (cases "map_of procs pid")
      case None
      then show ?thesis
        using fresh 1(2,4) by (auto simp: resolve_identity.simps[of procs pid] dest: descends_listed)
    next
      case (Some p)
      show ?thesis
      proof (cases "pid \<in> set seen")
        case True
        then have "\<not> descends procs n pid i" for n i
          using 1(3) by (auto simp: above_def)
        then show ?thesis
          using True fresh Some 1(2,4) by (auto simp: resolve_identity.simps[of procs pid])
      next
        case False
        obtain parent memo1 where rec: "resolve_identity procs (ps_ppid p) (pid # seen) memo = (parent, memo1)"
          by fastforce
        define k where "k = inherited_identity (ps_identity p) parent"
        have res: "r = Some k" "memo' = AList.update pid k memo1"
          using 1(4) fresh Some False rec by (simp_all add: resolve_identity.simps[of procs pid] k_def Let_def)
        have "above procs (ps_ppid p) (pid # seen)"
        proof -
          have "n < m" if "descends procs n (ps_ppid p) i" "q \<in> set (pid # seen)" "descends procs m q j" for n i q m j
            using descends.child[OF Some that(1)] 1(3) that(2,3) descends_unique by (fastforce simp: above_def)
          then show ?thesis
            by (auto simp: above_def)
        qed
        then have IH: "memo_sound procs memo1" "\<forall>n i. descends procs n (ps_ppid p) i \<longrightarrow> parent = Some i"
          "map_of procs (ps_ppid p) = None \<longrightarrow> parent = None"
          using 1(1)[OF fresh Some False 1(2) _ rec] by blast+
        have mine: "k = i" if "descends procs n pid i" for n i
          using that
        proof (cases rule: descends.cases)
          case (first q)
          then show ?thesis
            using Some IH(3) by (simp add: k_def)
        next
          case (child q m j)
          then show ?thesis
            using Some IH(2) by (simp add: k_def)
        qed
        then have "memo_sound procs memo'"
          using IH(1) Some by (auto simp: memo_sound_def res(2) update_conv split: if_splits)
        then show ?thesis
          using mine Some res(1) by auto
      qed
    qed
  qed
qed

lemma resolve_all_sound:
  "memo_sound procs memo \<Longrightarrow> k < length ps \<Longrightarrow> descends procs n (ps_pid (ps ! k)) i \<Longrightarrow> resolve_all procs ps memo ! k = i"
proof (induction ps arbitrary: k memo)
  case (Cons p ps)
  obtain r memo' where r: "resolve_identity procs (ps_pid p) [] memo = (r, memo')"
    by fastforce
  have "memo_sound procs memo' \<and> (\<forall>n i. descends procs n (ps_pid p) i \<longrightarrow> r = Some i)"
    using resolve_sound[OF Cons.prems(1) _ r] by (simp add: above_def)
  then show ?case
    using Cons.IH[of memo' "k - 1"] Cons.prems r by (cases k) auto
qed simp

lemma length_resolve_all [simp]: "length (resolve_all procs ps memo) = length ps"
  by (induction ps arbitrary: memo) (simp_all add: split_beta Let_def)

lemma collected_identity:
  assumes "collect_processes clock now raw st = ((summary, ps), st')" "k < length raw"
  shows "length ps = length raw \<and> ps_pid (ps ! k) = ps_pid (raw ! k)
     \<and> ps_identity (ps ! k) = resolve_all (by_pid raw) raw [] ! k"
  using assms by (auto simp: collect_processes_def Let_def rated_def)


text \<open>A worker listed before the test run that started it, and two processes that are each other's parents.\<close>

definition demo_process :: "int \<Rightarrow> int \<Rightarrow> string \<Rightarrow> proc_sample" where
  "demo_process pid ppid operation =
     \<lparr>ps_pid = pid, ps_ppid = ppid, ps_start = 0, ps_comm = ''python'',
      ps_identity = plain_identity (if operation = ''pytest'' then ''test'' else ''other'') operation None,
      ps_cpu = 0, ps_rss = 0, ps_read = 0, ps_write = 0, ps_cpu_pct = 0, ps_read_bps = 0, ps_write_bps = 0\<rparr>"

definition demo_scan :: "proc_sample list" where
  "demo_scan = [demo_process 7 5 ''other'', demo_process 5 1 ''pytest'', demo_process 8 9 ''other'', demo_process 9 8 ''other'']"


section \<open>Any name is read back\<close>

lemma last_split: "d \<notin> set b \<Longrightarrow> before_last d (a @ d # b) = a \<and> after_last d (a @ d # b) = b"
proof -
  assume b: "d \<notin> set b"
  then have "\<forall>c\<in>set (rev b). c \<noteq> d"
    by auto
  then have "takeWhile (\<lambda>c. c \<noteq> d) (rev b @ d # rev a) = rev b" "dropWhile (\<lambda>c. c \<noteq> d) (rev b @ d # rev a) = d # rev a"
    by (subst takeWhile_append2 dropWhile_append2; simp)+
  then show ?thesis
    by (simp add: before_last_def after_last_def)
qed

text \<open>The name of a process may hold anything, parentheses, spaces and line breaks too; what follows it is numbers.\<close>

lemma stat_line_is_read_back:
  assumes "CHR ''('' \<notin> set pid" "CHR '')'' \<notin> set rest"
  shows "parse_stat page name (pid @ ''('' @ comm @ '')'' @ rest) = stat_fields page name comm (words (drop 1 rest))"
proof -
  have split: "before_last CHR '')'' ((pid @ ''('' @ comm) @ CHR '')'' # rest) = pid @ ''('' @ comm"
    "after_last CHR '')'' ((pid @ ''('' @ comm) @ CHR '')'' # rest) = rest"
    using last_split[OF assms(2), of "pid @ ''('' @ comm"] by simp_all
  have "takeWhile (\<lambda>c. c \<noteq> CHR ''('') (pid @ CHR ''('' # comm @ CHR '')'' # rest) = pid"
    using assms(1) by (subst takeWhile_append2) auto
  then have "stat_comm (pid @ ''('' @ comm @ '')'' @ rest) = comm"
    using split(1) by (simp add: stat_comm_def before_char_def)
  moreover have "after_last CHR '')'' (pid @ ''('' @ comm @ '')'' @ rest) = rest" "CHR '')'' \<in> set (pid @ ''('' @ comm @ '')'' @ rest)"
    using split(2) by simp_all
  ultimately show ?thesis
    unfolding parse_stat_def Let_def by simp
qed

section \<open>Sums and shares\<close>

lemma update_sum:
  "distinct (map fst bs) \<Longrightarrow> sum_list (map (f \<circ> snd) (AList.update k b bs))
     = sum_list (map (f \<circ> snd) bs) - (case map_of bs k of Some c \<Rightarrow> f c | None \<Rightarrow> 0) + (f b :: int)"
proof (induction bs)
  case (Cons x bs)
  then show ?case
    by (cases x) (auto split: option.splits dest: map_of_SomeD)
qed simp

lemma count_process_sum:
  "distinct (map fst bs) \<Longrightarrow>
     distinct (map fst (count_process p bs))
     \<and> sum_list (map (bk_rss \<circ> snd) (count_process p bs)) = sum_list (map (bk_rss \<circ> snd) bs) + ps_rss p
     \<and> sum_list (map ((int \<circ> bk_processes) \<circ> snd) (count_process p bs)) = sum_list (map ((int \<circ> bk_processes) \<circ> snd) bs) + 1"
  unfolding count_process_def Let_def
  by (simp add: update_sum distinct_update split: option.split) (simp add: empty_bucket_def)

text \<open>Every process is in one bucket, and its memory in that of the bucket.\<close>

lemma aggregates_lose_nothing:
  "sum_list (map ((int \<circ> bk_processes) \<circ> snd) (aggregates ps)) = int (length ps)
   \<and> sum_list (map (bk_rss \<circ> snd) (aggregates ps)) = sum_list (map ps_rss ps)"
proof -
  have "distinct (map fst bs) \<Longrightarrow>
       sum_list (map (bk_rss \<circ> snd) (fold count_process ps bs)) = sum_list (map (bk_rss \<circ> snd) bs) + sum_list (map ps_rss ps)
     \<and> sum_list (map ((int \<circ> bk_processes) \<circ> snd) (fold count_process ps bs)) = sum_list (map ((int \<circ> bk_processes) \<circ> snd) bs) + int (length ps)"
    for bs
    by (induction ps arbitrary: bs) (simp_all add: count_process_sum)
  from this[of "[]"] show ?thesis
    by (simp add: aggregates_def rounded_bucket_def comp_def split_beta)
qed

lemma delta_nonneg: "0 \<le> delta c p"
  by (auto simp: delta_def split: option.split)

lemma host_cpu_range: "host_cpu stat h = (x, h') \<Longrightarrow> 0 \<le> x \<and> x \<le> 100"
  by (auto simp: host_cpu_def Let_def cpu_share_def split: if_splits option.splits)

text \<open>At most \<open>limit\<close> processes are shown in full, each once and each one that was sampled.\<close>

lemma fold_update_keys:
  "distinct (map fst sel) \<Longrightarrow> (\<forall>(k, p)\<in>set sel. k = ps_key p \<and> p \<in> A) \<Longrightarrow> set ps \<subseteq> A \<Longrightarrow>
     distinct (map fst (fold (\<lambda>p sel. AList.update (ps_key p) p sel) ps sel))
     \<and> (\<forall>(k, p)\<in>set (fold (\<lambda>p sel. AList.update (ps_key p) p sel) ps sel). k = ps_key p \<and> p \<in> A)"
proof (induction ps arbitrary: sel)
  case (Cons p ps)
  have "set (AList.update (ps_key p) p sel) \<subseteq> insert (ps_key p, p) (set sel)"
    by (induction sel) auto
  then have "\<forall>(k, q)\<in>set (AList.update (ps_key p) p sel). k = ps_key q \<and> q \<in> A"
    using Cons.prems by auto
  then show ?case
    using Cons.IH[of "AList.update (ps_key p) p sel"] Cons.prems by (simp add: distinct_update)
qed simp

lemma ranked_is_selection:
  "length (ranked_samples ps limit) \<le> limit \<and> distinct (map ps_key (ranked_samples ps limit)) \<and> set (ranked_samples ps limit) \<subseteq> set ps"
proof -
  let ?tops = "concat (map (\<lambda>f. top_by f (max 3 (limit div 3)) ps) [ps_cpu_pct, of_int \<circ> ps_rss, ps_read_bps, ps_write_bps])"
  define sel where "sel = fold (\<lambda>p sel. AList.update (ps_key p) p sel) ?tops []"
  define srt where "srt = sort_key (\<lambda>p. (- ps_cpu_pct p, - ps_rss p, - (ps_read_bps p + ps_write_bps p))) (map snd sel)"
  have tops: "set ?tops \<subseteq> set ps"
    by (auto simp: top_by_def dest: in_set_takeD)
  have sel: "distinct (map fst sel)" "\<forall>(k, p)\<in>set sel. k = ps_key p \<and> p \<in> set ps"
    using fold_update_keys[of "[]" "set ps" ?tops] tops by (simp_all add: sel_def)
  have "map ps_key (map snd sel) = map fst sel"
    using sel(2) by (induction sel) auto
  then have "distinct (map ps_key srt)"
    using sel(1) by (simp add: srt_def distinct_map inj_on_def) (metis distinct_map inj_on_def list.set_map map_map)
  moreover have "set srt \<subseteq> set ps"
    using sel(2) by (auto simp: srt_def)
  moreover have "ranked_samples ps limit = take limit srt"
    by (simp add: ranked_samples_def Let_def srt_def sel_def)
  ultimately show ?thesis
    by (auto simp: take_map[symmetric] dest: in_set_takeD intro: distinct_take)
qed

end
