(* ===== verification/Docker_Api.thy ===== *)
theory Docker_Api
  imports Procfs Prog
begin

text \<open>
  Model of \<open>src/monitoring/loop_monitor/docker_api.py\<close>: what the monitor keeps of the lifecycle events of containers,
  and the collector with its cache of inspections. The Docker engine is a parameter: a request gives decoded JSON or
  raises, and changes the engine's own state. Its socket, the thread of the event stream and the reading of a float
  as an integer are left out or arguments. The lemmas show that an event passes on only closed and bounded texts, and
  that the cache holds what it is documented to hold.
\<close>

section \<open>Values\<close>

definition docker_unavailable :: exn where
  "docker_unavailable = OtherError ''DockerUnavailable''"

definition mapping :: "json \<Rightarrow> entry" where
  "mapping v = (case v of JObj e \<Rightarrow> e | _ \<Rightarrow> [])"

text \<open>\<open>int(v)\<close> of a decoded value; \<open>trunc\<close> reads the literal of a float.\<close>

definition json_int :: "(string \<Rightarrow> exn + int) \<Rightarrow> json \<Rightarrow> exn + int" where
  "json_int trunc v =
     (case v of
        JInt i \<Rightarrow> Inr i
      | JBool b \<Rightarrow> Inr (if b then 1 else 0)
      | JStr s \<Rightarrow> (case py_int s of Some i \<Rightarrow> Inr i | None \<Rightarrow> Inl ValueError)
      | JFloat l \<Rightarrow> trunc l
      | _ \<Rightarrow> Inl TypeError)"

definition int_or :: "(string \<Rightarrow> exn + int) \<Rightarrow> entry \<Rightarrow> string \<Rightarrow> exn + int" where
  "int_or trunc e k = json_int trunc (py_or (dget e k) (JInt 0))"

definition str_or :: "entry \<Rightarrow> string \<Rightarrow> string \<Rightarrow> string" where
  "str_or e k d = py_str (py_or (dget e k) (JStr d))"

section \<open>Events\<close>

definition lifecycle_actions :: "string list" where
  "lifecycle_actions =
     [''create'', ''start'', ''stop'', ''die'', ''kill'', ''oom'', ''restart'', ''destroy'', ''pause'', ''unpause'',
      ''health_status: healthy'', ''health_status: unhealthy'']"

definition event_texts :: "entry \<Rightarrow> entry" where
  "event_texts attributes =
     (case dget attributes ''name'' of JStr s \<Rightarrow> [(''name'', JStr (take 128 s))] | _ \<Rightarrow> [])
     @ (case dget attributes ''image'' of JStr s \<Rightarrow> [(''image'', JStr (take 256 s))] | _ \<Rightarrow> [])"

definition event_exit :: "entry \<Rightarrow> exn + entry" where
  "event_exit attributes =
     (case dget attributes ''exitCode'' of
        JStr s \<Rightarrow> if isdigit s then bindR (int_of_text s) (\<lambda>n. Inr [(''exit_code'', JInt (int n))]) else Inr []
      | _ \<Rightarrow> Inr [])"

definition safe_event :: "entry \<Rightarrow> exn + entry option" where
  "safe_event payload =
     (let action = py_str (py_or (py_or (dget payload ''Action'') (dget payload ''status'')) (JStr []));
          actor = mapping (dget payload ''Actor''); attributes = mapping (dget actor ''Attributes'')
      in if action \<notin> set lifecycle_actions then Inr None
         else bindR (event_exit attributes) (\<lambda>ex.
           Inr (Some ([(''source'', JStr ''docker''), (''action'', JStr action),
                       (''container_id'', JStr (take 64 (py_str (py_or (py_or (dget payload ''id'') (dget actor ''ID'')) (JStr [])))))]
                      @ event_texts attributes @ ex))))"

text \<open>
  One connection of the event stream: the time to ask from, and the events put on the queue. A line that is no JSON
  ends the connection, and the next one asks again from the time reached; \<open>None\<close> for the line is what is not UTF-8.
\<close>

record event_state =
  ev_since :: int
  ev_queue :: "entry list"

definition event_line :: "(string \<Rightarrow> json option) \<Rightarrow> string option \<Rightarrow> event_state \<Rightarrow> exn + event_state" where
  "event_line json_loads line s =
     (case line of
        None \<Rightarrow> Inl UnicodeDecodeError
      | Some l \<Rightarrow>
          (case json_loads l of
             None \<Rightarrow> Inl ValueError
           | Some (JObj payload) \<Rightarrow>
               bindR (safe_event payload) (\<lambda>ev.
                 let s' = (case ev of None \<Rightarrow> s | Some e \<Rightarrow> s\<lparr>ev_queue := ev_queue s @ [e]\<rparr>) in
                 Inr (case dget payload ''time'' of
                        JInt t \<Rightarrow> s'\<lparr>ev_since := max (ev_since s') t\<rparr>
                      | JBool b \<Rightarrow> s'\<lparr>ev_since := max (ev_since s') (if b then 1 else 0)\<rparr>
                      | _ \<Rightarrow> s'))
           | Some _ \<Rightarrow> Inr s))"

primrec event_stream :: "(string \<Rightarrow> json option) \<Rightarrow> string option list \<Rightarrow> event_state \<Rightarrow> exn option \<times> event_state" where
  "event_stream json_loads [] s = (None, s)"
| "event_stream json_loads (l # ls) s =
     (case event_line json_loads l s of Inl e \<Rightarrow> (Some e, s) | Inr s' \<Rightarrow> event_stream json_loads ls s')"

definition drain_events :: "event_state \<Rightarrow> entry list \<times> event_state" where
  "drain_events s = (ev_queue s, s\<lparr>ev_queue := []\<rparr>)"

section \<open>The collector\<close>

record inspect_cache =
  ic_at :: rat
  ic_state :: string
  ic_value :: entry

record 'w docker =
  do_engine :: 'w
  do_inspect :: "(string \<times> inspect_cache) list"
  do_dirty :: "string list"

type_synonym 'w docker_api = "string \<Rightarrow> ('w, json) prog"

definition engineP :: "('w, 'a) prog \<Rightarrow> ('w docker, 'a) prog" where
  "engineP m s = (let (r, w) = m (do_engine s) in (r, s\<lparr>do_engine := w\<rparr>))"

text \<open>A request that gives \<open>d\<close> when the engine is not available.\<close>

definition request_or :: "'w docker_api \<Rightarrow> string \<Rightarrow> json \<Rightarrow> ('w docker, json) prog" where
  "request_or api path d =
     catchP (engineP (api path)) (\<lambda>e. if e = docker_unavailable then retP d else throwP e)"

definition inspect_value :: "(string \<Rightarrow> exn + int) \<Rightarrow> string \<Rightarrow> string \<Rightarrow> json \<Rightarrow> exn + entry" where
  "inspect_value trunc cid state payload =
     (let p = mapping payload; st = mapping (dget p ''State''); cfg = mapping (dget p ''Config''); health = mapping (dget st ''Health'')
      in bindR (int_or trunc st ''ExitCode'') (\<lambda>exit_code.
         bindR (int_or trunc p ''RestartCount'') (\<lambda>restarts.
           Inr [(''id'', JStr (take 12 cid)),
                (''name'', JStr (take 128 (dropWhile (\<lambda>c. c = CHR ''/'') (str_or p ''Name'' [])))),
                (''image'', JStr (take 256 (str_or cfg ''Image'' []))), (''state'', JStr (str_or st ''Status'' state)),
                (''health'', JStr (str_or health ''Status'' ''none'')), (''exit_code'', JInt exit_code),
                (''oom_killed'', JBool (truthy (dget st ''OOMKilled''))), (''restart_count'', JInt restarts),
                (''started_at'', JStr (str_or st ''StartedAt'' [])), (''finished_at'', JStr (str_or st ''FinishedAt'' []))])))"

definition inspect_container :: "'w docker_api \<Rightarrow> (string \<Rightarrow> exn + int) \<Rightarrow> string \<Rightarrow> rat \<Rightarrow> string \<Rightarrow> ('w docker, entry) prog" where
  "inspect_container api trunc cid now state =
     bindP (request_or api (''/containers/'' @ cid @ ''/json'') (JObj [])) (\<lambda>payload.
     bindP (liftP (inspect_value trunc cid state payload)) (\<lambda>v.
       thenP (modifyP (\<lambda>s. s\<lparr>do_inspect := AList.update cid \<lparr>ic_at = now, ic_state = state, ic_value = v\<rparr> (do_inspect s)\<rparr>))
             (retP v)))"

text \<open>The numbers of a running container.\<close>

record container_stats =
  cs_cpu_pct :: rat
  cs_memory :: int
  cs_limit :: int
  cs_pids :: int
  cs_read :: int
  cs_write :: int

definition json_len :: "json \<Rightarrow> exn + int" where
  "json_len v =
     (case v of JArr l \<Rightarrow> Inr (int (length l)) | JStr s \<Rightarrow> Inr (int (length s)) | JObj e \<Rightarrow> Inr (int (length e)) | _ \<Rightarrow> Inl TypeError)"

definition online_cpus :: "(string \<Rightarrow> exn + int) \<Rightarrow> entry \<Rightarrow> entry \<Rightarrow> exn + int" where
  "online_cpus trunc cpu usage =
     (if truthy (dget cpu ''online_cpus'') then json_int trunc (dget cpu ''online_cpus'')
      else bindR (json_len (py_or (dget usage ''percpu_usage'') (JArr []))) (\<lambda>n. Inr (if n = 0 then 1 else n)))"

primrec block_bytes :: "(string \<Rightarrow> exn + int) \<Rightarrow> json list \<Rightarrow> int \<times> int \<Rightarrow> exn + int \<times> int" where
  "block_bytes trunc [] rw = Inr rw"
| "block_bytes trunc (v # vs) rw =
     (case v of
        JObj e \<Rightarrow>
          bindR (int_or trunc e ''value'') (\<lambda>n.
            let op = lower (str_or e ''op'' []) in
            block_bytes trunc vs
              (if op = ''read'' then (fst rw + n, snd rw) else if op = ''write'' then (fst rw, snd rw + n) else rw))
      | _ \<Rightarrow> block_bytes trunc vs rw)"

definition stats_of :: "(string \<Rightarrow> exn + int) \<Rightarrow> entry \<Rightarrow> exn + container_stats" where
  "stats_of trunc p =
     (let cpu = mapping (dget p ''cpu_stats''); pre = mapping (dget p ''precpu_stats'');
          usage = mapping (dget cpu ''cpu_usage''); pre_usage = mapping (dget pre ''cpu_usage'');
          memory = mapping (dget p ''memory_stats''); detail = mapping (dget memory ''stats'');
          io = py_or (dget (mapping (dget p ''blkio_stats'')) ''io_service_bytes_recursive'') (JArr [])
      in bindR (int_or trunc usage ''total_usage'') (\<lambda>t1. bindR (int_or trunc pre_usage ''total_usage'') (\<lambda>t0.
         bindR (int_or trunc cpu ''system_cpu_usage'') (\<lambda>s1. bindR (int_or trunc pre ''system_cpu_usage'') (\<lambda>s0.
         bindR (online_cpus trunc cpu usage) (\<lambda>online.
         bindR (int_or trunc memory ''usage'') (\<lambda>used. bindR (int_or trunc detail ''inactive_file'') (\<lambda>inactive.
         bindR (block_bytes trunc (case io of JArr l \<Rightarrow> l | _ \<Rightarrow> []) (0, 0)) (\<lambda>(rd, wr).
         bindR (int_or trunc memory ''limit'') (\<lambda>limit. bindR (int_or trunc (mapping (dget p ''pids_stats'')) ''current'') (\<lambda>pids.
           let cpu_pct = (if s1 - s0 > 0 then 100 * of_int (t1 - t0) / of_int (s1 - s0) * of_int online else 0)
           in Inr \<lparr>cs_cpu_pct = round_to 2 (max 0 cpu_pct), cs_memory = max 0 (used - inactive), cs_limit = limit, cs_pids = pids,
                   cs_read = rd, cs_write = wr\<rparr>)))))))))))"

definition request_stats :: "'w docker_api \<Rightarrow> (string \<Rightarrow> exn + int) \<Rightarrow> string \<Rightarrow> ('w docker, container_stats option) prog" where
  "request_stats api trunc cid =
     bindP (request_or api (''/containers/'' @ cid @ ''/stats?stream=false&one-shot=true'') JNull) (\<lambda>payload.
       case payload of
         JObj p \<Rightarrow> bindP (liftP (stats_of trunc p)) (\<lambda>st. retP (Some st))
       | _ \<Rightarrow> retP None)"

text \<open>The containers of a list, each once it is an object with an identifier: the loop of \<open>collect\<close>.\<close>

definition must_inspect :: "rat \<Rightarrow> rat \<Rightarrow> string \<Rightarrow> string \<Rightarrow> 'w docker \<Rightarrow> bool" where
  "must_inspect now refresh cid state s =
     (case map_of (do_inspect s) cid of
        None \<Rightarrow> True
      | Some c \<Rightarrow> ic_state c \<noteq> state \<or> cid \<in> set (do_dirty s) \<or> now - ic_at c \<ge> refresh)"

definition inspected ::
  "'w docker_api \<Rightarrow> (string \<Rightarrow> exn + int) \<Rightarrow> rat \<Rightarrow> rat \<Rightarrow> string \<Rightarrow> string \<Rightarrow> ('w docker, entry) prog" where
  "inspected api trunc now refresh cid state =
     bindP (getP (must_inspect now refresh cid state)) (\<lambda>must.
       if must then inspect_container api trunc cid now state
       else getP (\<lambda>s. case map_of (do_inspect s) cid of Some c \<Rightarrow> ic_value c | None \<Rightarrow> []))"

definition container_of :: "json \<Rightarrow> (string \<times> string) option" where
  "container_of item =
     (case item of
        JObj e \<Rightarrow>
          let cid = py_str (dget_or e ''Id'' (JStr [])) in
          if cid = [] then None else Some (cid, py_str (dget_or e ''State'' (JStr ''unknown'')))
      | _ \<Rightarrow> None)"

definition collect_one ::
  "'w docker_api \<Rightarrow> (string \<Rightarrow> exn + int) \<Rightarrow> rat \<Rightarrow> rat \<Rightarrow> string \<times> string \<Rightarrow> ('w docker, entry \<times> container_stats option) prog" where
  "collect_one api trunc now refresh c =
     bindP (inspected api trunc now refresh (fst c) (snd c)) (\<lambda>v.
       if snd c = ''running'' then bindP (request_stats api trunc (fst c)) (\<lambda>st. retP (v, st)) else retP (v, None))"

primrec collect_each ::
  "'w docker_api \<Rightarrow> (string \<Rightarrow> exn + int) \<Rightarrow> rat \<Rightarrow> rat \<Rightarrow> (string \<times> string) list \<Rightarrow>
   ('w docker, (entry \<times> container_stats option) list) prog" where
  "collect_each api trunc now refresh [] = retP []"
| "collect_each api trunc now refresh (c # cs) =
     bindP (collect_one api trunc now refresh c) (\<lambda>v.
     bindP (collect_each api trunc now refresh cs) (\<lambda>vs. retP (v # vs)))"

definition mark_dirty :: "entry list \<Rightarrow> 'w docker \<Rightarrow> 'w docker" where
  "mark_dirty lifecycle s =
     s\<lparr>do_dirty := do_dirty s @ concat (map (\<lambda>e. case dget e ''container_id'' of JStr c \<Rightarrow> if c = [] then [] else [c] | _ \<Rightarrow> []) lifecycle)\<rparr>"

text \<open>\<open>None\<close> for the containers is the answer that the engine is not available.\<close>

definition docker_collect ::
  "'w docker_api \<Rightarrow> (string \<Rightarrow> exn + int) \<Rightarrow> rat \<Rightarrow> rat \<Rightarrow> entry list \<Rightarrow>
   ('w docker, (entry \<times> container_stats option) list option) prog" where
  "docker_collect api trunc now refresh lifecycle =
     thenP (modifyP (mark_dirty lifecycle))
    (bindP (catchP (bindP (engineP (api ''/containers/json?all=1'')) (\<lambda>v. retP (Some v)))
              (\<lambda>e. if e = docker_unavailable then retP None else throwP e)) (\<lambda>r.
       case r of
         None \<Rightarrow> retP None
       | Some v \<Rightarrow>
           (let present = List.map_filter container_of (case v of JArr l \<Rightarrow> l | _ \<Rightarrow> [])
            in bindP (collect_each api trunc now refresh present) (\<lambda>vs.
                 thenP (modifyP (\<lambda>s. s\<lparr>do_dirty := [],
                          do_inspect := filter (\<lambda>(k, c). k \<in> fst ` set present) (do_inspect s)\<rparr>))
                       (retP (Some vs))))))"

section \<open>What an event passes on\<close>

text \<open>Only texts of bounded length under known names, and the exit code.\<close>

definition bounded_field :: "string \<times> json \<Rightarrow> bool" where
  "bounded_field f =
     (case f of
        (k, JStr t) \<Rightarrow> (k = ''source'' \<and> t = ''docker'') \<or> (k = ''action'' \<and> t \<in> set lifecycle_actions)
          \<or> (k = ''container_id'' \<and> length t \<le> 64) \<or> (k = ''name'' \<and> length t \<le> 128) \<or> (k = ''image'' \<and> length t \<le> 256)
      | (k, JInt n) \<Rightarrow> k = ''exit_code'' \<and> 0 \<le> n
      | _ \<Rightarrow> False)"

lemma event_texts_bounded: "list_all bounded_field (event_texts a)"
  by (simp add: event_texts_def bounded_field_def split: json.split)

lemma event_exit_bounded: "event_exit a = Inr e \<Longrightarrow> list_all bounded_field e"
  by (auto simp: event_exit_def bindR_Inr_iff bounded_field_def split: json.splits if_splits)

lemma safe_event_bounded: "safe_event payload = Inr (Some e) \<Longrightarrow> list_all bounded_field e"
proof -
  assume "safe_event payload = Inr (Some e)"
  then obtain action cid attributes ex where "action \<in> set lifecycle_actions" "event_exit attributes = Inr ex"
    "e = [(''source'', JStr ''docker''), (''action'', JStr action), (''container_id'', JStr (take 64 cid))] @ event_texts attributes @ ex"
    by (auto simp: safe_event_def Let_def bindR_Inr_iff split: if_splits)
  then show ?thesis
    using event_texts_bounded event_exit_bounded by (simp add: bounded_field_def)
qed

lemma event_line_queue:
  "event_line json_loads l s = Inr t \<Longrightarrow> list_all (list_all bounded_field) (ev_queue s) \<Longrightarrow>
     list_all (list_all bounded_field) (ev_queue t) \<and> ev_since s \<le> ev_since t \<and> (\<exists>new. ev_queue t = ev_queue s @ new)"
  by (auto simp: event_line_def Let_def bindR_Inr_iff safe_event_bounded split: option.splits json.splits)

text \<open>A connection only moves the time forward and only appends to the queue.\<close>

lemma event_stream_queue:
  "event_stream json_loads ls s = (r, t) \<Longrightarrow> list_all (list_all bounded_field) (ev_queue s) \<Longrightarrow>
     list_all (list_all bounded_field) (ev_queue t) \<and> ev_since s \<le> ev_since t \<and> (\<exists>new. ev_queue t = ev_queue s @ new)"
proof (induction ls arbitrary: s)
  case (Cons l ls)
  show ?case
  proof (cases "event_line json_loads l s")
    case (Inl e)
    then show ?thesis
      using Cons.prems by auto
  next
    case (Inr s')
    have "event_stream json_loads ls s' = (r, t)"
      using Cons.prems(1) Inr by simp
    then show ?thesis
      using Cons.IH[of s'] event_line_queue[OF Inr Cons.prems(2)] by fastforce
  qed
qed auto

section \<open>The cache of inspections\<close>

text \<open>An entry for the state of the listing, from this collection or younger than the refresh interval, and from this one when an event named the container.\<close>

definition current :: "rat \<Rightarrow> rat \<Rightarrow> string list \<Rightarrow> 'w docker \<Rightarrow> string \<times> string \<Rightarrow> bool" where
  "current now refresh dirty s c \<longleftrightarrow>
     (\<exists>e. map_of (do_inspect s) (fst c) = Some e \<and> ic_state e = snd c
        \<and> (ic_at e = now \<or> now - ic_at e < refresh \<and> fst c \<notin> set dirty))"

text \<open>What a step keeps: the containers that are to be inspected again, and the entries of all others.\<close>

definition touches :: "string set \<Rightarrow> 'w docker \<Rightarrow> 'w docker \<Rightarrow> bool" where
  "touches A s t \<longleftrightarrow> do_dirty t = do_dirty s \<and> (\<forall>k. k \<notin> A \<longrightarrow> map_of (do_inspect t) k = map_of (do_inspect s) k)"

lemma touches_trans: "touches A s t \<Longrightarrow> touches B t u \<Longrightarrow> touches (A \<union> B) s u"
  by (auto simp: touches_def)

lemma request_or_touches: "snd (request_or api path d s) = s\<lparr>do_engine := do_engine (snd (request_or api path d s))\<rparr>"
  by (auto simp: request_or_def catchP_def engineP_def retP_def throwP_def Let_def split: prod.splits sum.splits)

lemma request_or_result: "request_or api path d s = (r, t) \<Longrightarrow> \<exists>w. t = s\<lparr>do_engine := w\<rparr>"
  using request_or_touches[of api path d s] by (metis snd_conv)

lemma inspect_container_current:
  assumes "inspect_container api trunc cid now state s = (Inr v, t)"
  shows "current now refresh (do_dirty s) t (cid, state) \<and> touches {cid} s t"
  using assms
  by (auto simp: inspect_container_def bindP_Inr_iff thenP_def liftP_def modifyP_def retP_def current_def touches_def
      update_conv dest!: request_or_result)

lemma inspected_current:
  assumes "inspected api trunc now refresh cid state s = (Inr v, t)"
  shows "current now refresh (do_dirty s) t (cid, state) \<and> touches {cid} s t"
proof (cases "must_inspect now refresh cid state s")
  case True
  then show ?thesis
    using assms inspect_container_current[of api trunc cid now state s v t refresh] by (simp add: inspected_def bindP_def getP_def)
next
  case False
  then have "t = s"
    using assms by (auto simp: inspected_def bindP_def getP_def)
  then show ?thesis
    using False by (auto simp: must_inspect_def current_def touches_def split: option.splits)
qed

lemma request_stats_keeps: "request_stats api trunc cid s = (r, t) \<Longrightarrow> \<exists>w. t = s\<lparr>do_engine := w\<rparr>"
  by (auto simp: request_stats_def bindP_def liftP_def retP_def split: prod.splits sum.splits json.splits dest!: request_or_result)

lemma current_engine [simp]: "current now refresh dirty (s\<lparr>do_engine := w\<rparr>) c = current now refresh dirty s c"
    "touches A s (t\<lparr>do_engine := w\<rparr>) = touches A s t"
  by (simp_all add: current_def touches_def)

lemma collect_one_current:
  assumes "collect_one api trunc now refresh c s = (Inr v, t)"
  shows "current now refresh (do_dirty s) t c \<and> touches {fst c} s t"
  using assms inspected_current[of api trunc now refresh "fst c" "snd c" s]
  by (auto simp: collect_one_def bindP_Inr_iff retP_def split: if_splits dest!: request_stats_keeps)

lemma collect_each_current:
  "collect_each api trunc now refresh cs s = (Inr vs, t) \<Longrightarrow> distinct (map fst cs) \<Longrightarrow>
     list_all (current now refresh (do_dirty s) t) cs \<and> touches (fst ` set cs) s t \<and> length vs = length cs"
proof (induction cs arbitrary: s vs)
  case (Cons c cs)
  obtain v u ws where c: "collect_one api trunc now refresh c s = (Inr v, u)"
    and cs: "collect_each api trunc now refresh cs u = (Inr ws, t)" "vs = v # ws"
    using Cons.prems(1) by (auto simp: bindP_Inr_iff retP_def)
  have one: "current now refresh (do_dirty s) u c" "touches {fst c} s u"
    using collect_one_current[OF c] by simp_all
  have rest: "list_all (current now refresh (do_dirty u) t) cs" "touches (fst ` set cs) u t" "length ws = length cs"
    using Cons.IH[OF cs(1)] Cons.prems(2) by simp_all
  have "current now refresh (do_dirty s) t c"
    using one(1) rest(2) Cons.prems(2) by (auto simp: current_def touches_def)
  then show ?case
    using rest one(2) cs(2) touches_trans[OF one(2) rest(2)] by (auto simp: touches_def)
qed (simp add: retP_def touches_def)

lemma mark_dirty_engine [simp]: "do_engine (mark_dirty l s) = do_engine s" "do_inspect (mark_dirty l s) = do_inspect s"
  by (simp_all add: mark_dirty_def)

lemma map_of_filter_key: "map_of (filter (\<lambda>(k, c). k \<in> A) m) k = (if k \<in> A then map_of m k else None)"
  by (induction m) auto

lemma collect_answered:
  assumes run: "docker_collect api trunc now refresh lifecycle s = (Inr r, t)"
    and listing: "api ''/containers/json?all=1'' (do_engine s) = (Inr (JArr items), w)"
    and present: "present = List.map_filter container_of items" "distinct (map fst present)"
  shows "(\<exists>vs. r = Some vs \<and> length vs = length present) \<and> do_dirty t = []
       \<and> (\<forall>c\<in>set present. current now refresh (do_dirty (mark_dirty lifecycle s)) t c)
       \<and> (\<forall>k. k \<notin> fst ` set present \<longrightarrow> map_of (do_inspect t) k = None)"
proof -
  define s1 where "s1 = (mark_dirty lifecycle s)\<lparr>do_engine := w\<rparr>"
  obtain vs u where each: "collect_each api trunc now refresh present s1 = (Inr vs, u)" "r = Some vs"
    and t: "t = u\<lparr>do_dirty := [], do_inspect := filter (\<lambda>(k, c). k \<in> fst ` set present) (do_inspect u)\<rparr>"
    using run listing
    by (auto simp: docker_collect_def thenP_def bindP_Inr_iff modifyP_def catchP_def engineP_def retP_def bindP_def[of "engineP _"]
        s1_def present(1) Let_def)
  note cur = collect_each_current[OF each(1) present(2)]
  have kept: "map_of (do_inspect t) k = (if k \<in> fst ` set present then map_of (do_inspect u) k else None)" for k
    by (simp add: t map_of_filter_key)
  have "current now refresh (do_dirty (mark_dirty lifecycle s)) t c" if "c \<in> set present" for c
    using cur that kept[of "fst c"] by (auto simp: list_all_iff current_def s1_def)
  then show ?thesis
    using each(2) cur kept t by auto
qed

lemma collect_unanswered:
  assumes "docker_collect api trunc now refresh lifecycle s = (Inr r, t)"
    and "api ''/containers/json?all=1'' (do_engine s) = (Inl docker_unavailable, w)"
  shows "r = None \<and> do_inspect t = do_inspect s \<and> do_dirty t = do_dirty (mark_dirty lifecycle s)"
  using assms
  by (auto simp: docker_collect_def thenP_def bindP_def modifyP_def catchP_def engineP_def retP_def)

text \<open>
  after a collection the engine answered, every container that was listed has an inspection in the cache that was
  made in the state now listed, is younger than the refresh interval or new, and is new when an event named the
  container; no other container has one; and no event is left to act on. When the engine does not answer, the
  cache stays and the events are kept for the next collection.
\<close>

theorem docker_cache_is_current:
  assumes "docker_collect api trunc now refresh lifecycle s = (Inr r, t)"
    and "api ''/containers/json?all=1'' (do_engine s) = (listing, w)"
    and "present = List.map_filter container_of items" "distinct (map fst present)"
  shows "(listing = Inr (JArr items) \<longrightarrow>
            (\<exists>vs. r = Some vs \<and> length vs = length present) \<and> do_dirty t = []
             \<and> (\<forall>c\<in>set present. current now refresh (do_dirty (mark_dirty lifecycle s)) t c)
             \<and> (\<forall>k. k \<notin> fst ` set present \<longrightarrow> map_of (do_inspect t) k = None))
       \<and> (listing = Inl docker_unavailable \<longrightarrow>
            r = None \<and> do_inspect t = do_inspect s \<and> do_dirty t = do_dirty (mark_dirty lifecycle s))"
  using collect_answered[OF assms(1) _ assms(3,4)] collect_unanswered[OF assms(1)] assms(2) by blast

text \<open>An engine with one container that is up, asked when its cache still says it is down.\<close>

definition demo_container :: json where
  "demo_container = JObj [(''Id'', JStr ''c1''), (''State'', JStr ''exited'')]"

definition demo_stats_engine :: "nat docker_api" where
  "demo_stats_engine path n = (Inr (if path = ''/containers/json?all=1'' then JArr [demo_container] else JObj [(''Name'', JStr ''/db'')]), Suc n)"

definition demo_collector :: "nat docker" where
  "demo_collector =
     \<lparr>do_engine = 0, do_inspect = [(''c0'', \<lparr>ic_at = 0, ic_state = ''running'', ic_value = []\<rparr>),
        (''c1'', \<lparr>ic_at = 0, ic_state = ''running'', ic_value = []\<rparr>)], do_dirty = []\<rparr>"

lemma docker_cache_is_current_witness:
  "\<exists>r t. docker_collect demo_stats_engine (\<lambda>_. Inl ValueError) 10 300 [] demo_collector = (Inr r, t)
     \<and> current 10 300 [] t (''c1'', ''exited'') \<and> map_of (do_inspect t) ''c0'' = None"
proof -
  have "is_ok (fst (docker_collect demo_stats_engine (\<lambda>_. Inl ValueError) 10 300 [] demo_collector))"
    by (simp add: docker_collect_def thenP_def bindP_def modifyP_def catchP_def engineP_def retP_def demo_stats_engine_def demo_container_def
        map_filter_def container_of_def dget_or_def collect_one_def inspected_def getP_def must_inspect_def demo_collector_def
        mark_dirty_def inspect_container_def request_or_def inspect_value_def mapping_def int_or_def dget_def py_or_def json_int_def liftP_def)
  then obtain r t where run: "docker_collect demo_stats_engine (\<lambda>_. Inl ValueError) 10 300 [] demo_collector = (Inr r, t)"
    by (metis is_ok_iff prod.collapse)
  have present: "[(''c1'', ''exited'')] = List.map_filter container_of [demo_container]"
    by (simp add: demo_container_def map_filter_def container_of_def dget_or_def)
  have listing: "demo_stats_engine ''/containers/json?all=1'' (do_engine demo_collector) = (Inr (JArr [demo_container]), 1)"
    by (simp add: demo_stats_engine_def demo_collector_def)
  show ?thesis
    using docker_cache_is_current[OF run listing present] run by (auto simp: mark_dirty_def demo_collector_def)
qed

text \<open>
  A failed inspection is kept like any other: the container has no name and no health until the refresh interval has
  passed or an event names it.
\<close>

lemma failed_inspection_is_cached:
  assumes "api (''/containers/'' @ cid @ ''/json'') (do_engine s) = (Inl docker_unavailable, w)"
  shows "\<exists>v t. inspect_container api trunc cid now state s = (Inr v, t) \<and> dget v ''name'' = JStr []
     \<and> map_of (do_inspect t) cid = Some \<lparr>ic_at = now, ic_state = state, ic_value = v\<rparr>"
  using assms
  by (simp add: inspect_container_def thenP_def bindP_def modifyP_def catchP_def engineP_def retP_def request_or_def
      inspect_value_def mapping_def int_or_def str_or_def dget_def py_or_def json_int_def liftP_def update_conv Let_def)

end
